(* ===== verification/Go_Base.thy ===== *)
theory Go_Base
  imports Main "HOL-Library.List_Lexorder" "HOL-Library.Char_ord"
begin

text \<open>
  The prelude of the development: the Go values the modelled packages share and the
  generic lemmas about them.

  A Go string is a sequence of bytes, so it is a \<open>string\<close> (a list of \<open>char\<close>, each one
  byte) and \<open>length\<close> is Go's \<open>len\<close>. A Go \<open>rune\<close> is an \<open>int\<close>; \<open>text/scanner.EOF\<close>
  is \<open>-1\<close>. The case mappings and the white space of Go's \<open>strings\<close> package are those of
  ASCII here; a byte from 128 on is left as it is (the Unicode tables are not modelled).
  The collections \<open>go_simps\<close> and \<open>progress\<close> gather the facts the component proofs rewrite
  and reason with.
\<close>

named_theorems go_simps
named_theorems progress

type_synonym rune = int

abbreviation rn :: "char \<Rightarrow> rune" where
  "rn c \<equiv> of_char c"

abbreviation rune_EOF :: rune where
  "rune_EOF \<equiv> - 1"

abbreviation rune_error :: rune where
  "rune_error \<equiv> 65533"

lemma rn_nonneg [simp]: "0 \<le> rn c"
  by (metis of_nat_0_le_iff of_nat_of_char)

lemma rn_less_256 [simp]: "rn c < 256"
proof -
  have "rn c = int (of_char c)" by (simp add: of_nat_of_char)
  moreover have "(of_char c :: nat) < 256" by simp
  ultimately show ?thesis by linarith
qed

lemma rn_not_EOF [simp]: "rn c \<noteq> - 1"
  using rn_nonneg [of c] by linarith

lemma rn_eq_iff [simp]: "rn c = rn d \<longleftrightarrow> c = d"
  by (rule of_char_eq_iff)

subsection \<open>Slices and positions in a string\<close>

text \<open>Go's \<open>s[i:j]\<close> for \<open>i \<le> j \<le> len s\<close>, the only way the modelled code slices.\<close>

definition slice :: "'a list \<Rightarrow> nat \<Rightarrow> nat \<Rightarrow> 'a list" where
  "slice s i j = take (j - i) (drop i s)"

lemma slice_same [simp]: "slice s i i = []"
  by (simp add: slice_def)

lemma length_slice: "j \<le> length s \<Longrightarrow> length (slice s i j) = j - i"
  by (simp add: slice_def)

lemma slice_append:
  assumes "i \<le> j" and "j \<le> k"
  shows "slice s i j @ slice s j k = slice s i k"
proof -
  have "take (j - i) (drop i s) @ take (k - j) (drop (j - i) (drop i s))
      = take ((j - i) + (k - j)) (drop i s)"
    by (simp only: take_add)
  with assms show ?thesis by (simp add: slice_def)
qed

lemma slice_all: "slice s 0 (length s) = s"
  by (simp add: slice_def)

lemma slice_prefix: "drop i s = u @ v \<Longrightarrow> slice s i (i + length u) = u"
  by (simp add: slice_def)

lemma slice_drop_take:
  "drop i s = u @ v \<Longrightarrow> i \<le> length s \<Longrightarrow> drop (i + length u) s = v"
  by (metis add.commute append_eq_conv_conj drop_drop)

subsection \<open>Go's strings package on ASCII\<close>

definition lower_char :: "char \<Rightarrow> char" where
  "lower_char c = (if 65 \<le> rn c \<and> rn c \<le> 90 then char_of (rn c + 32) else c)"

definition to_lower :: "string \<Rightarrow> string" where
  "to_lower s = map lower_char s"

definition equal_fold :: "string \<Rightarrow> string \<Rightarrow> bool" where
  "equal_fold a b \<longleftrightarrow> to_lower a = to_lower b"

definition upper_char :: "char \<Rightarrow> char" where
  "upper_char c = (if 97 \<le> rn c \<and> rn c \<le> 122 then char_of (rn c - 32) else c)"

definition to_upper :: "string \<Rightarrow> string" where
  "to_upper s = map upper_char s"

definition is_space_char :: "char \<Rightarrow> bool" where
  "is_space_char c \<longleftrightarrow> rn c = 32 \<or> (9 \<le> rn c \<and> rn c \<le> 13)"

definition trim_left :: "string \<Rightarrow> string" where
  "trim_left s = dropWhile is_space_char s"

definition trim_space :: "string \<Rightarrow> string" where
  "trim_space s = rev (trim_left (rev (trim_left s)))"

fun has_prefix :: "'a list \<Rightarrow> 'a list \<Rightarrow> bool" where
  "has_prefix s [] = True"
| "has_prefix [] (p # ps) = False"
| "has_prefix (x # xs) (p # ps) = (x = p \<and> has_prefix xs ps)"

definition has_suffix :: "'a list \<Rightarrow> 'a list \<Rightarrow> bool" where
  "has_suffix s p = has_prefix (rev s) (rev p)"

text \<open>\<open>strings.Index\<close>: the first position of a substring, \<open>None\<close> for -1.\<close>

fun str_index :: "'a list \<Rightarrow> 'a list \<Rightarrow> nat option" where
  "str_index [] p = (if p = [] then Some 0 else None)"
| "str_index (x # xs) p =
     (if has_prefix (x # xs) p then Some 0 else map_option Suc (str_index xs p))"

definition contains_str :: "'a list \<Rightarrow> 'a list \<Rightarrow> bool" where
  "contains_str s p = (str_index s p \<noteq> None)"

fun join_with :: "'a list \<Rightarrow> 'a list list \<Rightarrow> 'a list" where
  "join_with sep [] = []"
| "join_with sep [x] = x"
| "join_with sep (x # y # zs) = x @ sep @ join_with sep (y # zs)"

lemma has_prefix_iff: "has_prefix s p \<longleftrightarrow> (\<exists>t. s = p @ t)"
  by (induction s p rule: has_prefix.induct) auto

lemma has_suffix_iff: "has_suffix s p \<longleftrightarrow> (\<exists>t. s = t @ p)"
proof -
  have "rev s = rev p @ t \<longleftrightarrow> s = rev t @ p" for t
    by (metis rev_append rev_rev_ident)
  then show ?thesis
    by (auto simp: has_suffix_def has_prefix_iff) (metis rev_rev_ident)
qed

lemma lower_char_idem [simp]: "lower_char (lower_char c) = lower_char c"
proof (cases "65 \<le> rn c \<and> rn c \<le> 90")
  case True
  then have "rn (char_of (rn c + 32)) = rn c + 32"
    by simp
  with True show ?thesis by (simp add: lower_char_def)
next
  case False
  then have "lower_char c = c" unfolding lower_char_def by (simp only: if_False)
  then show ?thesis by simp
qed

lemma to_lower_idem [simp]: "to_lower (to_lower s) = to_lower s"
  by (simp add: to_lower_def)

lemma to_lower_Nil_iff [simp]: "to_lower s = [] \<longleftrightarrow> s = []"
  by (simp add: to_lower_def)

lemma length_to_lower [simp]: "length (to_lower s) = length s"
  by (simp add: to_lower_def)

lemma equal_fold_refl [simp]: "equal_fold s s"
  by (simp add: equal_fold_def)

lemma equal_fold_sym: "equal_fold s t = equal_fold t s"
  by (auto simp: equal_fold_def)

lemma equal_fold_trans: "equal_fold s t \<Longrightarrow> equal_fold t u \<Longrightarrow> equal_fold s u"
  by (simp add: equal_fold_def)

subsection \<open>Association lists standing for Go maps\<close>

text \<open>
  A Go map whose iteration order can be observed is an association list in the order of
  one iteration. \<open>al_put\<close> is assignment: it replaces the entry of the key or appends one.
\<close>

fun al_put :: "'k \<Rightarrow> 'v \<Rightarrow> ('k \<times> 'v) list \<Rightarrow> ('k \<times> 'v) list" where
  "al_put k v [] = [(k, v)]"
| "al_put k v ((k', v') # m) = (if k = k' then (k, v) # m else (k', v') # al_put k v m)"

definition al_delete :: "'k \<Rightarrow> ('k \<times> 'v) list \<Rightarrow> ('k \<times> 'v) list" where
  "al_delete k m = filter (\<lambda>p. fst p \<noteq> k) m"

definition al_keys :: "('k \<times> 'v) list \<Rightarrow> 'k list" where
  "al_keys m = map fst m"

lemma map_of_al_put [simp]: "map_of (al_put k v m) = (map_of m)(k \<mapsto> v)"
  by (induction m) (auto simp: fun_eq_iff)

lemma set_al_keys_put: "set (al_keys (al_put k v m)) = insert k (set (al_keys m))"
proof (induction m)
  case Nil
  then show ?case by (simp add: al_keys_def)
next
  case (Cons p m)
  then show ?case by (cases p; cases "k = fst p") (auto simp: al_keys_def)
qed

lemma distinct_al_put: "distinct (al_keys m) \<Longrightarrow> distinct (al_keys (al_put k v m))"
proof (induction m)
  case Nil
  then show ?case by (simp add: al_keys_def)
next
  case (Cons p m)
  obtain k' v' where p: "p = (k', v')" by (cases p)
  have keys: "set (map fst (al_put k v m)) = insert k (set (map fst m))"
    using set_al_keys_put [of k v m] by (simp add: al_keys_def)
  show ?case using Cons p keys by (auto simp: al_keys_def)
qed

lemma distinct_al_delete: "distinct (al_keys m) \<Longrightarrow> distinct (al_keys (al_delete k m))"
  by (induction m) (auto simp: al_keys_def al_delete_def)

lemma map_of_al_delete: "map_of (al_delete k m) = (map_of m)(k := None)"
  by (induction m) (auto simp: al_delete_def fun_eq_iff)

lemma map_of_distinct_mem:
  "distinct (al_keys m) \<Longrightarrow> (k, v) \<in> set m \<Longrightarrow> map_of m k = Some v"
  by (simp add: al_keys_def)

lemma map_of_mem: "map_of m k = Some v \<Longrightarrow> (k, v) \<in> set m"
  by (rule map_of_SomeD)

end
