(* ===== verification/Rune_Scanner.thy ===== *)
theory Rune_Scanner
  imports Go_Base
begin

text \<open>
  The part of Go's \<open>text/scanner\<close> the lexers use: \<open>Init\<close>, \<open>Peek\<close>, \<open>Next\<close> and \<open>Pos\<close>
  over the bytes of a string. The state holds the bytes from the look-ahead character on
  and the position of that character, which is what \<open>Pos\<close> returns (\<open>text/scanner\<close> has
  read the look-ahead already and subtracts its width). \<open>sc_loaded\<close> is false until the
  first \<open>Peek\<close>, which skips a byte order mark. A NUL and an invalid UTF-8 sequence are
  reported to the error callback when they become the look-ahead: \<open>sc_err\<close>.

  The locale \<open>rune_source\<close> is the interface the lexers rely on; it is interpreted here
  on the scanner.
\<close>

subsection \<open>UTF-8 decoding\<close>

definition is_cont :: "char \<Rightarrow> bool" where
  "is_cont c \<longleftrightarrow> 128 \<le> rn c \<and> rn c \<le> 191"

definition second_lo :: "rune \<Rightarrow> rune" where
  "second_lo b = (if b = 224 then 160 else if b = 240 then 144 else 128)"

definition second_hi :: "rune \<Rightarrow> rune" where
  "second_hi b = (if b = 237 then 159 else if b = 244 then 143 else 191)"

definition second_ok :: "rune \<Rightarrow> char \<Rightarrow> bool" where
  "second_ok b c \<longleftrightarrow> second_lo b \<le> rn c \<and> rn c \<le> second_hi b"

text \<open>\<open>utf8.DecodeRune\<close>: the first rune and its width; an invalid sequence is the
  replacement character with width 1.\<close>

fun decode_rune :: "string \<Rightarrow> rune \<times> nat" where
  "decode_rune [] = (rune_error, 0)"
| "decode_rune (c0 # cs) =
     (let b = rn c0 in
      if b < 128 then (b, 1)
      else if 194 \<le> b \<and> b \<le> 223 then
        (case cs of
           c1 # _ \<Rightarrow> if is_cont c1 then ((b - 192) * 64 + (rn c1 - 128), 2) else (rune_error, 1)
         | _ \<Rightarrow> (rune_error, 1))
      else if 224 \<le> b \<and> b \<le> 239 then
        (case cs of
           c1 # c2 # _ \<Rightarrow>
             if second_ok b c1 \<and> is_cont c2
             then ((b - 224) * 4096 + (rn c1 - 128) * 64 + (rn c2 - 128), 3)
             else (rune_error, 1)
         | _ \<Rightarrow> (rune_error, 1))
      else if 240 \<le> b \<and> b \<le> 244 then
        (case cs of
           c1 # c2 # c3 # _ \<Rightarrow>
             if second_ok b c1 \<and> is_cont c2 \<and> is_cont c3
             then ((b - 240) * 262144 + (rn c1 - 128) * 4096 + (rn c2 - 128) * 64 + (rn c3 - 128), 4)
             else (rune_error, 1)
         | _ \<Rightarrow> (rune_error, 1))
      else (rune_error, 1))"

lemma decode_width_pos: "s \<noteq> [] \<Longrightarrow> 1 \<le> snd (decode_rune s)"
  by (cases s) (auto simp: Let_def split: list.splits)

lemma decode_width_le: "snd (decode_rune s) \<le> length s"
  by (cases s) (auto simp: Let_def split: list.splits)

lemma decode_nonneg: "0 \<le> fst (decode_rune s)"
  by (cases s) (auto simp: Let_def is_cont_def second_ok_def second_lo_def split: list.splits)

lemma decode_ascii: "rn c < 128 \<Longrightarrow> decode_rune (c # cs) = (rn c, 1)"
  by (simp add: Let_def)

text \<open>A decoded rune below 128 is an ASCII byte: no other byte sequence yields one.\<close>

lemma decode_small:
  assumes "s \<noteq> []" and "fst (decode_rune s) < 128"
  shows "\<exists>c cs. s = c # cs \<and> rn c = fst (decode_rune s) \<and> snd (decode_rune s) = 1"
proof -
  obtain c cs where s: "s = c # cs" using assms(1) by (cases s) auto
  have "rn c < 128"
  proof (rule ccontr)
    assume "\<not> rn c < 128"
    with assms(2) s show False
      by (auto simp: Let_def is_cont_def second_ok_def second_lo_def
          split: list.splits if_splits)
  qed
  then show ?thesis using s by (simp add: Let_def)
qed

subsection \<open>The scanner\<close>

datatype scan_err = InvalidUTF8 | InvalidNUL

record scanner =
  sc_rest :: string
  sc_off :: nat
  sc_line :: nat
  sc_col :: nat
  sc_loaded :: bool

definition sc_init :: "string \<Rightarrow> scanner" where
  "sc_init src = \<lparr>sc_rest = src, sc_off = 0, sc_line = 1, sc_col = 1, sc_loaded = False\<rparr>"

definition sc_ch :: "scanner \<Rightarrow> rune" where
  "sc_ch s = (if sc_rest s = [] then rune_EOF else fst (decode_rune (sc_rest s)))"

definition sc_err :: "scanner \<Rightarrow> scan_err option" where
  "sc_err s =
     (if sc_rest s = [] then None
      else let (r, w) = decode_rune (sc_rest s) in
        if r = rune_error \<and> w = 1 then Some InvalidUTF8
        else if r = 0 then Some InvalidNUL else None)"

text \<open>Moving past the look-ahead; at the end of the source nothing changes.\<close>

definition sc_advance :: "scanner \<Rightarrow> scanner" where
  "sc_advance s =
     (if sc_rest s = [] then s
      else let (r, w) = decode_rune (sc_rest s) in
        s\<lparr>sc_rest := drop w (sc_rest s), sc_off := sc_off s + w,
          sc_line := (if r = 10 then sc_line s + 1 else sc_line s),
          sc_col := (if r = 10 then 1 else sc_col s + 1)\<rparr>)"

text \<open>The first \<open>Peek\<close> loads the first character and skips a byte order mark.\<close>

definition sc_load :: "scanner \<Rightarrow> scanner" where
  "sc_load s =
     (if sc_loaded s then s
      else (if sc_ch s = 65279 then sc_advance s else s)\<lparr>sc_loaded := True\<rparr>)"

definition has_bom :: "string \<Rightarrow> bool" where
  "has_bom src \<longleftrightarrow> src \<noteq> [] \<and> fst (decode_rune src) = 65279"

definition sc_wf :: "string \<Rightarrow> scanner \<Rightarrow> bool" where
  "sc_wf src s \<longleftrightarrow> sc_off s \<le> length src \<and> sc_rest s = drop (sc_off s) src"

lemma sc_wf_init: "sc_wf src (sc_init src)"
  by (simp add: sc_wf_def sc_init_def)

lemma sc_wf_advance: "sc_wf src s \<Longrightarrow> sc_wf src (sc_advance s)"
  using decode_width_le [of "sc_rest s"]
  by (auto simp: sc_wf_def sc_advance_def Let_def split_beta add.commute)

lemma sc_wf_load: "sc_wf src s \<Longrightarrow> sc_wf src (sc_load s)"
  using sc_wf_advance [of src s] by (auto simp: sc_load_def sc_wf_def)

lemma sc_ch_EOF_iff: "sc_ch s = rune_EOF \<longleftrightarrow> sc_rest s = []"
  using decode_nonneg [of "sc_rest s"] by (auto simp: sc_ch_def)

lemma sc_advance_EOF: "sc_ch s = rune_EOF \<Longrightarrow> sc_advance s = s"
  by (simp add: sc_ch_EOF_iff sc_advance_def)

lemma sc_advance_shrinks:
  "sc_ch s \<noteq> rune_EOF \<Longrightarrow> length (sc_rest (sc_advance s)) < length (sc_rest s)"
  using decode_width_pos [of "sc_rest s"] decode_width_le [of "sc_rest s"]
  by (auto simp: sc_ch_EOF_iff sc_advance_def Let_def split_beta)

lemma sc_advance_le: "length (sc_rest (sc_advance s)) \<le> length (sc_rest s)"
  by (auto simp: sc_advance_def Let_def split_beta)

lemma sc_advance_loaded [simp]: "sc_loaded (sc_advance s) = sc_loaded s"
  by (simp add: sc_advance_def Let_def split_beta)

lemma sc_load_loaded [simp]: "sc_loaded (sc_load s)"
  by (simp add: sc_load_def)

lemma sc_load_le: "length (sc_rest (sc_load s)) \<le> length (sc_rest s)"
  using sc_advance_le [of s] by (simp add: sc_load_def)

lemma sc_load_idem [simp]: "sc_loaded s \<Longrightarrow> sc_load s = s"
  by (simp add: sc_load_def)

text \<open>Consuming an ASCII character moves the position by exactly that byte.\<close>

lemma sc_advance_ascii:
  assumes "sc_ch s = r" and "0 \<le> r" and "r < 128"
  shows "\<exists>c cs. sc_rest s = c # cs \<and> rn c = r \<and> sc_rest (sc_advance s) = cs
    \<and> sc_off (sc_advance s) = Suc (sc_off s)"
proof -
  have ne: "sc_rest s \<noteq> []" using assms(1,2) by (auto simp: sc_ch_def)
  then have d: "fst (decode_rune (sc_rest s)) = r" using assms(1) by (simp add: sc_ch_def)
  with assms(3) ne obtain c cs where "sc_rest s = c # cs" "rn c = r"
    "snd (decode_rune (sc_rest s)) = 1"
    using decode_small [OF ne] by auto
  then show ?thesis by (simp add: sc_advance_def split_beta)
qed

subsection \<open>The interface the lexers use\<close>

text \<open>
  A source of runes: a look-ahead, a step past it, the offset of the look-ahead and the
  bytes from it on. The laws are what the lexers' loops need: a step past a real
  character consumes at least one byte, a step at the end is nothing, and offset and
  remaining bytes always add up to the same total.
\<close>

locale rune_source =
  fixes peek :: "'s \<Rightarrow> rune"
    and step :: "'s \<Rightarrow> 's"
    and offset :: "'s \<Rightarrow> nat"
    and rest :: "'s \<Rightarrow> string"
  assumes step_end: "peek s = rune_EOF \<Longrightarrow> step s = s"
    and step_shrinks: "peek s \<noteq> rune_EOF \<Longrightarrow> length (rest (step s)) < length (rest s)"
    and step_offset: "offset (step s) + length (rest (step s)) = offset s + length (rest s)"
    and peek_end: "peek s = rune_EOF \<longleftrightarrow> rest s = []"
begin

definition skip :: "nat \<Rightarrow> 's \<Rightarrow> 's" where
  "skip n = (step ^^ n)"

lemma skip_total: "offset (skip n s) + length (rest (skip n s)) = offset s + length (rest s)"
  by (induction n) (simp_all add: skip_def step_offset)

lemma skip_offset_mono: "offset s \<le> offset (skip n s)"
proof -
  have "length (rest (skip n s)) \<le> length (rest s)"
  proof (induction n)
    case 0
    then show ?case by (simp add: skip_def)
  next
    case (Suc n)
    have "length (rest (step t)) \<le> length (rest t)" for t
      using step_shrinks [of t] step_end [of t] by (cases "peek t = rune_EOF") auto
    then have "length (rest (skip (Suc n) s)) \<le> length (rest (skip n s))"
      by (simp add: skip_def)
    with Suc show ?case by linarith
  qed
  with skip_total [of n s] show ?thesis by linarith
qed

text \<open>Enough steps reach the end: a loop that steps until the end of the source stops.\<close>

lemma skip_to_end: "length (rest s) \<le> n \<Longrightarrow> peek (skip n s) = rune_EOF"
proof (induction n arbitrary: s)
  case 0
  then show ?case by (simp add: skip_def peek_end)
next
  case (Suc n)
  have "skip (Suc n) s = skip n (step s)"
    by (simp add: skip_def funpow_swap1)
  moreover have "length (rest (step s)) \<le> n"
    using Suc.prems step_shrinks [of s] step_end [of s] peek_end [of s]
    by (cases "peek s = rune_EOF") auto
  ultimately show ?case using Suc.IH by simp
qed

end

lemma sc_advance_total:
  "sc_off (sc_advance s) + length (sc_rest (sc_advance s)) = sc_off s + length (sc_rest s)"
  using decode_width_le [of "sc_rest s"]
  by (auto simp: sc_advance_def Let_def split_beta)

interpretation scan: rune_source sc_ch sc_advance sc_off sc_rest
  by unfold_locales
    (auto simp: sc_advance_EOF sc_advance_shrinks sc_advance_total sc_ch_EOF_iff)

end
