(* ===== verification/Expr_Error.thy ===== *)
theory Expr_Error
  imports Rune_Scanner
begin

text \<open>
  The diagnostics of the expression package (\<open>expr.go\<close>, \<open>diagnostics.go\<close>) and the token
  kinds their texts mention (\<open>expr_lexer.go\<close>). A diagnostic keeps the byte range, line and
  column of the code; its text is a value of \<open>msg\<close> with one constructor per format string
  of the source and the values that are formatted into it, in their order.
\<close>

datatype token_kind =
    TokenKindUnknown | TokenKindEnd | TokenKindIdent | TokenKindString | TokenKindInt
  | TokenKindFloat | TokenKindLeftParen | TokenKindRightParen | TokenKindLeftBracket
  | TokenKindRightBracket | TokenKindDot | TokenKindNot | TokenKindLess | TokenKindLessEq
  | TokenKindGreater | TokenKindGreaterEq | TokenKindEq | TokenKindNotEq | TokenKindAnd
  | TokenKindOr | TokenKindStar | TokenKindComma

fun token_kind_string :: "token_kind \<Rightarrow> string" where
  "token_kind_string TokenKindUnknown = ''UNKNOWN''"
| "token_kind_string TokenKindEnd = ''END''"
| "token_kind_string TokenKindIdent = ''IDENT''"
| "token_kind_string TokenKindString = ''STRING''"
| "token_kind_string TokenKindInt = ''INTEGER''"
| "token_kind_string TokenKindFloat = ''FLOAT''"
| "token_kind_string TokenKindLeftParen = ''(''"
| "token_kind_string TokenKindRightParen = '')''"
| "token_kind_string TokenKindLeftBracket = ''[''"
| "token_kind_string TokenKindRightBracket = '']''"
| "token_kind_string TokenKindDot = ''.''"
| "token_kind_string TokenKindNot = ''!''"
| "token_kind_string TokenKindLess = ''<''"
| "token_kind_string TokenKindLessEq = ''<=''"
| "token_kind_string TokenKindGreater = ''>''"
| "token_kind_string TokenKindGreaterEq = ''>=''"
| "token_kind_string TokenKindEq = ''==''"
| "token_kind_string TokenKindNotEq = ''!=''"
| "token_kind_string TokenKindAnd = ''&&''"
| "token_kind_string TokenKindOr = ''||''"
| "token_kind_string TokenKindStar = ''*''"
| "token_kind_string TokenKindComma = '',''"

text \<open>The texts of the diagnostics, by the part of the package that reports them.\<close>

datatype lex_msg =
    LexUnexpected rune string string
  | LexUnexpectedEOF
  | LexScan scan_err
  | LexTrailing

datatype parse_msg =
    ParseUnexpected token_kind string "token_kind list"
  | ParseInvalidInt string
  | ParseInvalidFloat string
  | ParseNotAtEnd nat "token_kind list"
  | ParseDepth

text \<open>Unknown or unavailable names.\<close>

datatype name_msg =
    CallParentheses string
  | CallParenthesesArgs string
  | UndefinedVariableMean string string
  | UndefinedVariable string "string list"
  | ContextNotAllowed string "string list"
  | FunctionNotAllowed string "string list"
  | ContextPropertyMean string string
  | PropertyNotDefinedMean string string string
  | PropertyNotDefined string string bool
  | UndefinedFunctionMean string string
  | UndefinedFunction string "string list"

datatype config_msg =
    ConfigVariablePrefix string
  | ConfigVariableChars string
  | ConfigVariableNone string
  | ConfigVariableUndefined string "string list"
  | SecretNone string
  | SecretUndefined string "string list"

text \<open>Operands of a wrong type, with the types' texts.\<close>

datatype type_msg =
    DerefReceiver string string
  | FilteredProperty string string
  | FilterElements string string
  | FilterNoObject string
  | FilterReceiver string
  | IndexNotNumber string
  | IndexNotString string
  | IndexOperandType string
  | NotOperandType string
  | CompareOperands string string string
  | CasePredicate string

text \<open>Function calls.\<close>

datatype call_msg =
    ArgumentCount string bool nat nat
  | ArgumentType nat string string string
  | TooManyArguments string nat
  | CaseArguments nat
  | FormatUnusedArgument string nat
  | FormatMissingArgument string nat nat
  | JsonCollision string string nat
  | JsonBroken

text \<open>Optional rules and script injection.\<close>

datatype rule_msg =
    RuleStringConditions
  | RuleMixedTypes
  | RuleCaseInsensitive
  | UntrustedInput string
  | UntrustedFilter "string list"
  | SecretInterpolated string
  | UnsoundTernary

datatype msg =
    LexMsg lex_msg
  | ParseMsg parse_msg
  | NameMsg name_msg
  | ConfigMsg config_msg
  | TypeMsg type_msg
  | CallMsg call_msg
  | RuleMsg rule_msg

text \<open>\<open>Error\<close> of \<open>expr.go\<close>.\<close>

record expr_error =
  e_message :: msg
  e_offset :: nat
  e_end_offset :: nat
  e_line :: nat
  e_column :: nat
  e_rule :: string
  e_code :: string

text \<open>\<open>findingKind\<close> and its values in \<open>diagnostics.go\<close>.\<close>

record finding_kind =
  fk_rule :: string
  fk_code :: string

definition fk_syntax :: finding_kind where
  "fk_syntax = \<lparr>fk_rule = ''expression-syntax'', fk_code = ''invalid-syntax''\<rparr>"

definition fk_unknownVariable :: finding_kind where
  "fk_unknownVariable = \<lparr>fk_rule = ''expression-reference'', fk_code = ''unknown-variable''\<rparr>"

definition fk_unknownProperty :: finding_kind where
  "fk_unknownProperty = \<lparr>fk_rule = ''expression-reference'', fk_code = ''unknown-property''\<rparr>"

definition fk_unknownFunction :: finding_kind where
  "fk_unknownFunction = \<lparr>fk_rule = ''expression-reference'', fk_code = ''unknown-function''\<rparr>"

definition fk_unavailableContext :: finding_kind where
  "fk_unavailableContext =
     \<lparr>fk_rule = ''context-availability'', fk_code = ''unavailable-context''\<rparr>"

definition fk_unavailableFunction :: finding_kind where
  "fk_unavailableFunction =
     \<lparr>fk_rule = ''context-availability'', fk_code = ''unavailable-function''\<rparr>"

definition fk_missingCall :: finding_kind where
  "fk_missingCall = \<lparr>fk_rule = ''expression-call'', fk_code = ''missing-call''\<rparr>"

definition fk_argumentCount :: finding_kind where
  "fk_argumentCount = \<lparr>fk_rule = ''expression-call'', fk_code = ''argument-count''\<rparr>"

definition fk_formatPlaceholder :: finding_kind where
  "fk_formatPlaceholder = \<lparr>fk_rule = ''expression-call'', fk_code = ''format-placeholder''\<rparr>"

definition fk_invalidJSON :: finding_kind where
  "fk_invalidJSON = \<lparr>fk_rule = ''expression-call'', fk_code = ''invalid-json''\<rparr>"

definition fk_jsonCollision :: finding_kind where
  "fk_jsonCollision = \<lparr>fk_rule = ''expression-call'', fk_code = ''json-member-collision''\<rparr>"

definition fk_argumentType :: finding_kind where
  "fk_argumentType = \<lparr>fk_rule = ''expression-type'', fk_code = ''argument-type''\<rparr>"

definition fk_operandType :: finding_kind where
  "fk_operandType = \<lparr>fk_rule = ''expression-type'', fk_code = ''operand-type''\<rparr>"

definition fk_invalidVariableName :: finding_kind where
  "fk_invalidVariableName =
     \<lparr>fk_rule = ''expression-reference'', fk_code = ''invalid-variable-name''\<rparr>"

definition fk_unknownConfigVariable :: finding_kind where
  "fk_unknownConfigVariable =
     \<lparr>fk_rule = ''expression-reference'', fk_code = ''unknown-config-variable''\<rparr>"

definition fk_unknownSecret :: finding_kind where
  "fk_unknownSecret = \<lparr>fk_rule = ''expression-reference'', fk_code = ''unknown-secret''\<rparr>"

definition fk_unknownEventProperty :: finding_kind where
  "fk_unknownEventProperty = \<lparr>fk_rule = ''event-payload'', fk_code = ''unknown-property''\<rparr>"

definition fk_untrustedInterpolation :: finding_kind where
  "fk_untrustedInterpolation =
     \<lparr>fk_rule = ''script-injection'', fk_code = ''untrusted-interpolation''\<rparr>"

definition fk_secretInterpolation :: finding_kind where
  "fk_secretInterpolation =
     \<lparr>fk_rule = ''script-injection'', fk_code = ''secret-interpolation''\<rparr>"

definition fk_unsoundTernary :: finding_kind where
  "fk_unsoundTernary =
     \<lparr>fk_rule = ''unsound-ternary'', fk_code = ''falsy-middle-operand''\<rparr>"

end
