(* ===== verification/Expr_Lexer.thy ===== *)
theory Expr_Lexer
  imports Expr_Error
begin

text \<open>
  The lexer of expression syntax (\<open>internal/expression/expr_lexer.go\<close>): the \<open>Lexer\<close>
  struct as the record \<open>lexer\<close>, one definition per method, each returning its token and the
  new lexer state. The loops \<open>for { r = lex.eat(); if !p(r) { break } }\<close> of \<open>lexIdent\<close>,
  \<open>lexNum\<close> and \<open>lexHexInt\<close> are \<open>eat_while p\<close>; every \<open>p\<close> there is false at EOF.
\<close>

subsection \<open>Tokens and character classes\<close>

record token =
  tk_kind :: token_kind
  tk_value :: string
  tk_offset :: nat
  tk_line :: nat
  tk_column :: nat

definition isWhitespace :: "rune \<Rightarrow> bool" where
  "isWhitespace r \<longleftrightarrow> r = rn CHR '' '' \<or> r = 10 \<or> r = 13 \<or> r = 9"

definition isAlpha :: "rune \<Rightarrow> bool" where
  "isAlpha r \<longleftrightarrow> (rn CHR ''a'' \<le> r \<and> r \<le> rn CHR ''z'') \<or> (rn CHR ''A'' \<le> r \<and> r \<le> rn CHR ''Z'')"

definition isNum :: "rune \<Rightarrow> bool" where
  "isNum r \<longleftrightarrow> rn CHR ''0'' \<le> r \<and> r \<le> rn CHR ''9''"

definition isHexNum :: "rune \<Rightarrow> bool" where
  "isHexNum r \<longleftrightarrow> isNum r \<or> (rn CHR ''a'' \<le> r \<and> r \<le> rn CHR ''f'')
     \<or> (rn CHR ''A'' \<le> r \<and> r \<le> rn CHR ''F'')"

definition isAlnum :: "rune \<Rightarrow> bool" where
  "isAlnum r \<longleftrightarrow> isAlpha r \<or> isNum r"

definition isIdentPart :: "rune \<Rightarrow> bool" where
  "isIdentPart r \<longleftrightarrow> isAlnum r \<or> r = rn CHR ''_'' \<or> r = rn CHR ''-''"

text \<open>The texts of the expected characters, each between single quotes.\<close>

definition quoted :: "char \<Rightarrow> string" where
  "quoted c = [CHR 0x27, c, CHR 0x27]"

definition quoted_range :: "char \<Rightarrow> char \<Rightarrow> string" where
  "quoted_range a b = quoted a @ ''..'' @ quoted b"

definition expectedPunctChars :: string where
  "expectedPunctChars = join_with '', '' (map quoted (CHR 0x27 # ''}()[].!<>=&|*, ''))"

definition expectedDigitChars :: string where
  "expectedDigitChars = quoted_range CHR ''0'' CHR ''9''"

definition expectedAlphaChars :: string where
  "expectedAlphaChars = join_with '', ''
     [quoted_range CHR ''a'' CHR ''z'', quoted_range CHR ''A'' CHR ''Z'', quoted CHR ''_'']"

definition expectedAllChars :: string where
  "expectedAllChars = join_with '', '' [expectedAlphaChars, expectedDigitChars, expectedPunctChars]"

subsection \<open>The lexer's state and its helpers\<close>

record position =
  pos_offset :: nat
  pos_line :: nat
  pos_column :: nat

record lexer =
  lx_src :: string
  lx_scan :: scanner
  lx_err :: "expr_error option"
  lx_start :: position

definition new_lexer :: "string \<Rightarrow> lexer" where
  "new_lexer src = \<lparr>lx_src = src, lx_scan = sc_init src, lx_err = None,
     lx_start = \<lparr>pos_offset = 0, pos_line = 1, pos_column = 1\<rparr>\<rparr>"

definition scan_pos :: "lexer \<Rightarrow> position" where
  "scan_pos l = \<lparr>pos_offset = sc_off (lx_scan l), pos_line = sc_line (lx_scan l),
     pos_column = sc_col (lx_scan l)\<rparr>"

definition lex_peek :: "lexer \<Rightarrow> rune" where
  "lex_peek l = sc_ch (lx_scan l)"

text \<open>\<open>Lexer.error\<close>: only the first error is kept; it covers the look-ahead rune.\<close>

definition lex_error :: "msg \<Rightarrow> lexer \<Rightarrow> lexer" where
  "lex_error m l =
     (case lx_err l of
        Some _ \<Rightarrow> l
      | None \<Rightarrow>
          let p = scan_pos l;
              e = pos_offset p + (if pos_offset p < length (lx_src l)
                    then snd (decode_rune (drop (pos_offset p) (lx_src l))) else 0)
          in l\<lparr>lx_err := Some \<lparr>e_message = m, e_offset = pos_offset p, e_end_offset = e,
                 e_line = pos_line p, e_column = pos_column p,
                 e_rule = fk_rule fk_syntax, e_code = fk_code fk_syntax\<rparr>\<rparr>)"

text \<open>A new look-ahead that the scanner cannot decode calls the scanner's error callback.\<close>

definition set_scan :: "scanner \<Rightarrow> lexer \<Rightarrow> lexer" where
  "set_scan s l =
     (case sc_err s of
        None \<Rightarrow> l\<lparr>lx_scan := s\<rparr>
      | Some e \<Rightarrow> lex_error (LexMsg (LexScan e)) (l\<lparr>lx_scan := s\<rparr>))"

definition scan_next :: "lexer \<Rightarrow> lexer" where
  "scan_next l = set_scan (sc_advance (lx_scan l)) l"

definition scan_load :: "lexer \<Rightarrow> lexer" where
  "scan_load l = (if sc_loaded (lx_scan l) then l else set_scan (sc_load (lx_scan l)) l)"

definition lex_token :: "token_kind \<Rightarrow> lexer \<Rightarrow> token \<times> lexer" where
  "lex_token k l =
     (let p = scan_pos l; s = lx_start l in
      (\<lparr>tk_kind = k, tk_value = slice (lx_src l) (pos_offset s) (pos_offset p),
        tk_offset = pos_offset s, tk_line = pos_line s, tk_column = pos_column s\<rparr>,
       l\<lparr>lx_start := p\<rparr>))"

definition lex_eof :: "lexer \<Rightarrow> token" where
  "lex_eof l = \<lparr>tk_kind = TokenKindEnd, tk_value = [], tk_offset = pos_offset (lx_start l),
     tk_line = pos_line (lx_start l), tk_column = pos_column (lx_start l)\<rparr>"

definition lex_eat :: "lexer \<Rightarrow> rune \<times> lexer" where
  "lex_eat l = (let l' = scan_next l in (lex_peek l', l'))"

definition lex_unexpected :: "rune \<Rightarrow> string \<Rightarrow> string \<Rightarrow> lexer \<Rightarrow> token \<times> lexer" where
  "lex_unexpected r ctx expected l =
     (let l' = lex_error (LexMsg (LexUnexpected r ctx expected)) l in (lex_eof l', l'))"

definition lex_unexpectedEOF :: "lexer \<Rightarrow> token \<times> lexer" where
  "lex_unexpectedEOF l = (let l' = lex_error (LexMsg LexUnexpectedEOF) l in (lex_eof l', l'))"

definition lex_lexeme :: "lexer \<Rightarrow> string" where
  "lex_lexeme l = slice (lx_src l) (pos_offset (lx_start l)) (sc_off (lx_scan l))"

text \<open>The bytes the lexer has still to read, the measure of its loops.\<close>

definition lex_left :: "lexer \<Rightarrow> nat" where
  "lex_left l = length (sc_rest (lx_scan l))"

lemma lex_error_fields [simp]:
  "lx_src (lex_error m l) = lx_src l" "lx_scan (lex_error m l) = lx_scan l"
  "lx_start (lex_error m l) = lx_start l"
  by (auto simp: lex_error_def Let_def split: option.splits)

lemma set_scan_fields [simp]:
  "lx_src (set_scan s l) = lx_src l" "lx_scan (set_scan s l) = s"
  "lx_start (set_scan s l) = lx_start l"
  by (auto simp: set_scan_def split: option.splits)

lemma scan_next_fields [simp]:
  "lx_src (scan_next l) = lx_src l" "lx_scan (scan_next l) = sc_advance (lx_scan l)"
  "lx_start (scan_next l) = lx_start l"
  by (simp_all add: scan_next_def)

lemma lex_peek_error [simp]: "lex_peek (lex_error m l) = lex_peek l"
  by (simp add: lex_peek_def)

lemma lex_left_error [simp]: "lex_left (lex_error m l) = lex_left l"
  by (simp add: lex_left_def)

lemma lex_left_next: "lex_left (scan_next l) \<le> lex_left l"
  by (simp add: lex_left_def sc_advance_le)

lemma lex_left_shrinks: "lex_peek l \<noteq> rune_EOF \<Longrightarrow> lex_left (scan_next l) < lex_left l"
  by (simp add: lex_left_def lex_peek_def scan.step_shrinks)

lemma lex_peek_next_EOF: "lex_peek l = rune_EOF \<Longrightarrow> lex_peek (scan_next l) = rune_EOF"
  by (simp add: lex_peek_def scan.step_end)

lemma lex_eat_shrinks:
  "lex_eat l = (r, l') \<Longrightarrow> r \<noteq> rune_EOF \<Longrightarrow> lex_left l' < lex_left l"
  using lex_peek_next_EOF [of l] lex_left_shrinks [of l] by (auto simp: lex_eat_def Let_def)

lemma lex_eat_le: "lex_eat l = (r, l') \<Longrightarrow> lex_left l' \<le> lex_left l"
  using lex_left_next [of l] by (auto simp: lex_eat_def Let_def)

subsection \<open>White space, identifiers and numbers\<close>

text \<open>\<open>skipWhite\<close>; its first \<open>Peek\<close> is the first of the scanner.\<close>

function skip_white_loop :: "lexer \<Rightarrow> lexer" where
  "skip_white_loop l =
     (if isWhitespace (lex_peek l)
      then let l' = scan_next l in skip_white_loop (l'\<lparr>lx_start := scan_pos l'\<rparr>)
      else l)"
  by pat_completeness auto
termination
proof (relation "measure lex_left")
  fix l l'
  assume w: "isWhitespace (lex_peek l)" and l': "l' = scan_next l"
  from w have "lex_peek l \<noteq> rune_EOF" by (auto simp: isWhitespace_def)
  then have "lex_left (scan_next l) < lex_left l" by (rule lex_left_shrinks)
  then show "(l'\<lparr>lx_start := scan_pos l'\<rparr>, l) \<in> measure lex_left"
    by (simp add: l' lex_left_def)
qed simp

declare skip_white_loop.simps [simp del]

definition lex_skipWhite :: "lexer \<Rightarrow> lexer" where
  "lex_skipWhite l = skip_white_loop (scan_load l)"

function eat_while :: "(rune \<Rightarrow> bool) \<Rightarrow> lexer \<Rightarrow> rune \<times> lexer" where
  "eat_while p l =
     (case lex_eat l of (r, l') \<Rightarrow> if r \<noteq> rune_EOF \<and> p r then eat_while p l' else (r, l'))"
  by pat_completeness auto
termination
  by (relation "measure (\<lambda>(p, l). lex_left l)") (auto dest: lex_eat_shrinks [OF sym])

declare eat_while.simps [simp del]

definition lexIdent :: "lexer \<Rightarrow> token \<times> lexer" where
  "lexIdent l = (case eat_while isIdentPart l of (_, l') \<Rightarrow> lex_token TokenKindIdent l')"

definition lexHexInt :: "lexer \<Rightarrow> token \<times> lexer" where
  "lexHexInt l =
     (let r = lex_peek l;
          e = join_with '', '' [expectedDigitChars, quoted_range CHR ''a'' CHR ''f'',
                quoted_range CHR ''A'' CHR ''F''];
          finish = (\<lambda>(r, l).
            if isAlnum r
            then lex_unexpected r (''character following hex integer '' @ lex_lexeme l)
                   expectedPunctChars l
            else lex_token TokenKindInt l)
      in if r = rn CHR ''0'' then finish (lex_eat l)
         else if \<not> isHexNum r then lex_unexpected r ''hex integer'' e l
         else finish (eat_while isHexNum l))"

text \<open>
  \<open>lexNum\<close> in its four stretches: the integer part, the fraction, the exponent and the
  check of the character that follows. A stretch returns \<open>Inl\<close> of a finished token (an
  error, or the hexadecimal integer) or \<open>Inr\<close> of the look-ahead and the state.
\<close>

definition lexNum_integer :: "lexer \<Rightarrow> (token \<times> lexer) + (rune \<times> lexer)" where
  "lexNum_integer l0 =
     (let (r, l) = (if lex_peek l0 = rn CHR ''-'' then lex_eat l0 else (lex_peek l0, l0)) in
      if r = rn CHR ''0'' then
        (case lex_eat l of (r, l) \<Rightarrow>
           if r = rn CHR ''x'' then Inl (lexHexInt (scan_next l)) else Inr (r, l))
      else if \<not> isNum r then Inl (lex_unexpected r ''integer part of number'' expectedDigitChars l)
      else Inr (eat_while isNum l))"

definition lexNum_fraction ::
    "rune \<Rightarrow> lexer \<Rightarrow> (token \<times> lexer) + (token_kind \<times> rune \<times> lexer)" where
  "lexNum_fraction r l =
     (if r = rn CHR ''.'' then
        (case lex_eat l of (r, l) \<Rightarrow>
           if \<not> isNum r
           then Inl (lex_unexpected r ''fraction part of float number'' expectedDigitChars l)
           else (case eat_while isNum l of (r, l) \<Rightarrow> Inr (TokenKindFloat, r, l)))
      else Inr (TokenKindInt, r, l))"

definition lexNum_exponent ::
    "token_kind \<Rightarrow> rune \<Rightarrow> lexer \<Rightarrow> (token \<times> lexer) + (token_kind \<times> rune \<times> lexer)" where
  "lexNum_exponent k r l =
     (if r = rn CHR ''e'' \<or> r = rn CHR ''E'' then
        (let (r, l) = lex_eat l;
             (r, l) = (if r = rn CHR ''-'' \<or> r = rn CHR ''+'' then lex_eat l else (r, l))
         in if \<not> isNum r
            then Inl (lex_unexpected r ''exponent part of float number'' expectedDigitChars l)
            else (case eat_while isNum l of (r, l) \<Rightarrow> Inr (TokenKindFloat, r, l)))
      else Inr (k, r, l))"

definition lexNum :: "lexer \<Rightarrow> token \<times> lexer" where
  "lexNum l0 =
     (case lexNum_integer l0 of
        Inl res \<Rightarrow> res
      | Inr (r, l) \<Rightarrow>
          (case lexNum_fraction r l of
             Inl res \<Rightarrow> res
           | Inr (k, r, l) \<Rightarrow>
               (case lexNum_exponent k r l of
                  Inl res \<Rightarrow> res
                | Inr (k, r, l) \<Rightarrow>
                    if isAlnum r
                    then lex_unexpected r (''character following number '' @ lex_lexeme l)
                           expectedPunctChars l
                    else lex_token k l)))"

subsection \<open>Strings, operators and the tokens of one character\<close>

function lexString :: "lexer \<Rightarrow> token \<times> lexer" where
  "lexString l =
     (case lex_eat l of (r, l1) \<Rightarrow>
        if r = rn CHR 0x27 then
          (case lex_eat l1 of (r2, l2) \<Rightarrow>
             if r2 \<noteq> rn CHR 0x27 then lex_token TokenKindString l2 else lexString l2)
        else if r = rune_EOF
        then lex_unexpected rune_EOF ''end of string literal'' (quoted CHR 0x27) l1
        else lexString l1)"
  by pat_completeness auto
termination
  by (relation "measure lex_left") (fastforce dest: lex_eat_shrinks [OF sym])+

declare lexString.simps [simp del]

definition lexEnd :: "lexer \<Rightarrow> token \<times> lexer" where
  "lexEnd l =
     (case lex_eat l of (r, l) \<Rightarrow>
        if r \<noteq> rn CHR ''}'' then lex_unexpected r ''end marker }}'' (quoted CHR ''}'') l
        else lex_token TokenKindEnd (scan_next l))"

definition lexLess :: "lexer \<Rightarrow> token \<times> lexer" where
  "lexLess l =
     (case lex_eat l of (r, l) \<Rightarrow>
        if r = rn CHR ''='' then lex_token TokenKindLessEq (scan_next l)
        else lex_token TokenKindLess l)"

definition lexGreater :: "lexer \<Rightarrow> token \<times> lexer" where
  "lexGreater l =
     (case lex_eat l of (r, l) \<Rightarrow>
        if r = rn CHR ''='' then lex_token TokenKindGreaterEq (scan_next l)
        else lex_token TokenKindGreater l)"

definition lexEq :: "lexer \<Rightarrow> token \<times> lexer" where
  "lexEq l =
     (case lex_eat l of (r, l) \<Rightarrow>
        if r \<noteq> rn CHR ''='' then lex_unexpected r ''== operator'' (quoted CHR ''='') l
        else lex_token TokenKindEq (scan_next l))"

definition lexBang :: "lexer \<Rightarrow> token \<times> lexer" where
  "lexBang l =
     (case lex_eat l of (r, l) \<Rightarrow>
        if r = rn CHR ''='' then lex_token TokenKindNotEq (scan_next l)
        else lex_token TokenKindNot l)"

definition lexAnd :: "lexer \<Rightarrow> token \<times> lexer" where
  "lexAnd l =
     (case lex_eat l of (r, l) \<Rightarrow>
        if r \<noteq> rn CHR ''&'' then lex_unexpected r ''&& operator'' (quoted CHR ''&'') l
        else lex_token TokenKindAnd (scan_next l))"

definition lexOr :: "lexer \<Rightarrow> token \<times> lexer" where
  "lexOr l =
     (case lex_eat l of (r, l) \<Rightarrow>
        if r \<noteq> rn CHR ''|'' then lex_unexpected r ''|| operator'' (quoted CHR ''|'') l
        else lex_token TokenKindOr (scan_next l))"

definition lexChar :: "token_kind \<Rightarrow> lexer \<Rightarrow> token \<times> lexer" where
  "lexChar k l = lex_token k (scan_next l)"

subsection \<open>The next token and the whole expression\<close>

definition lex_next :: "lexer \<Rightarrow> token \<times> lexer" where
  "lex_next l0 =
     (let l = lex_skipWhite l0; r = lex_peek l in
      if r = rune_EOF then lex_unexpectedEOF l
      else if isAlpha r \<or> r = rn CHR ''_'' then lexIdent l
      else if isNum r \<or> r = rn CHR ''-'' then lexNum l
      else if r = rn CHR 0x27 then lexString l
      else if r = rn CHR ''}'' then lexEnd l
      else if r = rn CHR ''!'' then lexBang l
      else if r = rn CHR ''<'' then lexLess l
      else if r = rn CHR ''>'' then lexGreater l
      else if r = rn CHR ''='' then lexEq l
      else if r = rn CHR ''&'' then lexAnd l
      else if r = rn CHR ''|'' then lexOr l
      else if r = rn CHR ''('' then lexChar TokenKindLeftParen l
      else if r = rn CHR '')'' then lexChar TokenKindRightParen l
      else if r = rn CHR ''['' then lexChar TokenKindLeftBracket l
      else if r = rn CHR '']'' then lexChar TokenKindRightBracket l
      else if r = rn CHR ''.'' then lexChar TokenKindDot l
      else if r = rn CHR ''*'' then lexChar TokenKindStar l
      else if r = rn CHR '','' then lexChar TokenKindComma l
      else lex_unexpected r ''expression'' expectedAllChars l)"

definition lex_offset :: "lexer \<Rightarrow> nat" where
  "lex_offset l = sc_off (lx_scan l)"

end
