(* ===== verification/Lexer_Spec.thy ===== *)
theory Lexer_Spec
  imports Expr_Lexer
begin

text \<open>
  What the lexer of \<open>expr_lexer.go\<close> guarantees. The lexical grammar of expressions is
  stated without the lexer (\<open>kind_lang\<close>); every method of the lexer either emits a token
  of its language, consuming exactly its characters, or fails with an error
  (\<open>lex_ends\<close>). From that follow the termination of \<open>LexExpression\<close> and the facts
  about whole token lists.
\<close>

subsection \<open>The lexical grammar\<close>

text \<open>The language of each kind of token, stated without the lexer.\<close>

definition all_digits :: "string \<Rightarrow> bool" where
  "all_digits s \<longleftrightarrow> (\<forall>c \<in> set s. isNum (rn c))"

definition decimal_int :: "string \<Rightarrow> bool" where
  "decimal_int s \<longleftrightarrow> s = ''0'' \<or> (s \<noteq> [] \<and> all_digits s \<and> hd s \<noteq> CHR ''0'')"

definition hex_int :: "string \<Rightarrow> bool" where
  "hex_int s \<longleftrightarrow> (\<exists>h. s = ''0x'' @ h
     \<and> (h = ''0'' \<or> (h \<noteq> [] \<and> (\<forall>c \<in> set h. isHexNum (rn c)) \<and> hd h \<noteq> CHR ''0'')))"

definition fraction_part :: "string \<Rightarrow> bool" where
  "fraction_part s \<longleftrightarrow> (\<exists>d. s = CHR ''.'' # d \<and> d \<noteq> [] \<and> all_digits d)"

definition exponent_part :: "string \<Rightarrow> bool" where
  "exponent_part s \<longleftrightarrow> (\<exists>e sgn d. s = e # sgn @ d \<and> e \<in> {CHR ''e'', CHR ''E''}
     \<and> sgn \<in> {[], ''-'', ''+''} \<and> d \<noteq> [] \<and> all_digits d)"

definition signed_by :: "(string \<Rightarrow> bool) \<Rightarrow> string \<Rightarrow> bool" where
  "signed_by L s \<longleftrightarrow> L s \<or> (\<exists>t. s = CHR ''-'' # t \<and> L t)"

definition float_number :: "string \<Rightarrow> bool" where
  "float_number s \<longleftrightarrow> (\<exists>i f e. s = i @ f @ e \<and> decimal_int i
     \<and> (f = [] \<or> fraction_part f) \<and> (e = [] \<or> exponent_part e) \<and> f @ e \<noteq> [])"

text \<open>The inside of a string literal: a quote only as a pair of quotes.\<close>

fun string_body :: "string \<Rightarrow> bool" where
  "string_body [] = True"
| "string_body (c # s) =
     (if c = CHR 0x27
      then (case s of [] \<Rightarrow> False | d # s' \<Rightarrow> d = CHR 0x27 \<and> string_body s')
      else string_body s)"

definition ident_lang :: "string \<Rightarrow> bool" where
  "ident_lang s \<longleftrightarrow> (\<exists>c w. s = c # w \<and> (isAlpha (rn c) \<or> c = CHR ''_'')
     \<and> (\<forall>x \<in> set w. isIdentPart (rn x)))"

definition string_lang :: "string \<Rightarrow> bool" where
  "string_lang s \<longleftrightarrow> (\<exists>b. s = CHR 0x27 # b @ [CHR 0x27] \<and> string_body b)"

fun kind_lang :: "token_kind \<Rightarrow> string \<Rightarrow> bool" where
  "kind_lang TokenKindUnknown s = False"
| "kind_lang TokenKindEnd s = (s = ''}}'')"
| "kind_lang TokenKindIdent s = ident_lang s"
| "kind_lang TokenKindString s = string_lang s"
| "kind_lang TokenKindInt s = signed_by (\<lambda>t. decimal_int t \<or> hex_int t) s"
| "kind_lang TokenKindFloat s = signed_by float_number s"
| "kind_lang k s = (s = token_kind_string k)"

lemma string_body_append_pair:
  "string_body b \<Longrightarrow> string_body t \<Longrightarrow> string_body (b @ t)"
proof (induction b rule: string_body.induct)
  case (2 c s)
  then show ?case by (cases s) (auto split: if_splits)
qed simp

lemma string_body_noquote: "CHR 0x27 \<notin> set b \<Longrightarrow> string_body b"
  by (induction b) auto

subsection \<open>What one step of the lexer consumes\<close>

text \<open>A state in step with its source, whose error (if any) lies inside the source.\<close>

definition error_in :: "string \<Rightarrow> expr_error \<Rightarrow> bool" where
  "error_in src e \<longleftrightarrow> e_offset e \<le> e_end_offset e \<and> e_end_offset e \<le> length src"

definition lex_wf :: "lexer \<Rightarrow> bool" where
  "lex_wf l \<longleftrightarrow> sc_wf (lx_src l) (lx_scan l) \<and> (\<forall>e. lx_err l = Some e \<longrightarrow> error_in (lx_src l) e)"

lemma lex_wf_error: "lex_wf l \<Longrightarrow> lex_wf (lex_error m l)"
  using decode_width_le [of "drop (sc_off (lx_scan l)) (lx_src l)"]
  by (auto simp: lex_wf_def lex_error_def Let_def error_in_def scan_pos_def sc_wf_def
      split: option.splits)

lemma lex_wf_set_scan: "lex_wf l \<Longrightarrow> sc_wf (lx_src l) s \<Longrightarrow> lex_wf (set_scan s l)"
  using lex_wf_error [of "l\<lparr>lx_scan := s\<rparr>"]
  by (auto simp: set_scan_def lex_wf_def split: option.splits)

lemma lex_wf_next: "lex_wf l \<Longrightarrow> lex_wf (scan_next l)"
  unfolding scan_next_def by (intro lex_wf_set_scan sc_wf_advance) (auto simp: lex_wf_def)

definition consumes :: "lexer \<Rightarrow> string \<Rightarrow> lexer \<Rightarrow> bool" where
  "consumes l w l' \<longleftrightarrow> lx_src l' = lx_src l \<and> lx_start l' = lx_start l
     \<and> sc_rest (lx_scan l) = w @ sc_rest (lx_scan l')
     \<and> sc_off (lx_scan l') = sc_off (lx_scan l) + length w
     \<and> (lx_err l \<noteq> None \<longrightarrow> lx_err l' = lx_err l)
     \<and> sc_loaded (lx_scan l') = sc_loaded (lx_scan l)
     \<and> (lex_wf l \<longrightarrow> lex_wf l')"

lemma consumes_refl [intro]: "consumes l [] l"
  by (simp add: consumes_def)

lemma consumes_trans [trans]:
  "consumes l u l' \<Longrightarrow> consumes l' v l'' \<Longrightarrow> consumes l (u @ v) l''"
  by (auto simp: consumes_def)

lemma consumes_left: "consumes l w l' \<Longrightarrow> lex_left l = length w + lex_left l'"
  by (simp add: consumes_def lex_left_def)

lemma set_scan_err: "lx_err l \<noteq> None \<Longrightarrow> lx_err (set_scan s l) = lx_err l"
  by (auto simp: set_scan_def lex_error_def split: option.splits)

lemma consumes_next:
  "\<exists>w. consumes l w (scan_next l) \<and> (lex_peek l \<noteq> rune_EOF \<longrightarrow> w \<noteq> [])
     \<and> w = take (snd (decode_rune (sc_rest (lx_scan l)))) (sc_rest (lx_scan l))"
proof (cases "lex_peek l = rune_EOF")
  case True
  then have "sc_rest (lx_scan l) = []" by (simp add: lex_peek_def sc_ch_EOF_iff)
  moreover from this have "sc_advance (lx_scan l) = lx_scan l" by (simp add: sc_advance_def)
  ultimately show ?thesis using True lex_wf_next [of l]
    by (simp add: consumes_def set_scan_err scan_next_def)
next
  case False
  define r where "r = sc_rest (lx_scan l)"
  define w where "w = take (snd (decode_rune r)) r"
  have ne: "r \<noteq> []" using False by (simp add: r_def lex_peek_def sc_ch_EOF_iff)
  then have "w \<noteq> []" using decode_width_pos [OF ne] by (simp add: w_def)
  moreover have "length w = snd (decode_rune r)"
    using decode_width_le [of r] by (simp add: w_def)
  ultimately have "consumes l w (scan_next l)"
    using ne lex_wf_next [of l] unfolding w_def r_def
    by (simp add: consumes_def set_scan_err scan_next_def sc_advance_def split_beta)
  then show ?thesis using \<open>w \<noteq> []\<close> by (auto simp: w_def r_def)
qed

lemma consumes_next_ascii:
  assumes "lex_peek l = rn c" and "rn c < 128"
  shows "consumes l [c] (scan_next l)"
proof -
  from assms obtain d cs where d: "sc_rest (lx_scan l) = d # cs" "rn d = rn c"
    using sc_advance_ascii [of "lx_scan l" "rn c"] by (auto simp: lex_peek_def)
  then have "take (snd (decode_rune (sc_rest (lx_scan l)))) (sc_rest (lx_scan l)) = [c]"
    using assms(2) by simp
  with consumes_next [of l] show ?thesis by simp
qed

lemma lex_eat_ascii:
  "lex_eat l = (r, l') \<Longrightarrow> lex_peek l = rn c \<Longrightarrow> rn c < 128 \<Longrightarrow>
     consumes l [c] l' \<and> lex_peek l' = r"
  using consumes_next_ascii [of l c] by (auto simp: lex_eat_def Let_def)

text \<open>A rune below 128 that is not EOF is the rune of an ASCII byte.\<close>

lemma peek_ascii:
  assumes "lex_peek l = r" and "0 \<le> r" and "r < 128"
  shows "\<exists>c. rn c = r"
  using sc_advance_ascii [of "lx_scan l" r] assms by (auto simp: lex_peek_def)

definition ascii_class :: "(rune \<Rightarrow> bool) \<Rightarrow> bool" where
  "ascii_class p \<longleftrightarrow> (\<forall>r. p r \<longrightarrow> 0 \<le> r \<and> r < 128)"

lemma ascii_classes [simp]:
  "ascii_class isNum" "ascii_class isHexNum" "ascii_class isIdentPart" "ascii_class isAlpha"
  by (auto simp: ascii_class_def isNum_def isHexNum_def isIdentPart_def isAlnum_def isAlpha_def)

lemma eat_while_spec:
  assumes "ascii_class p"
  shows "lex_peek l = rn c \<Longrightarrow> rn c < 128 \<Longrightarrow> eat_while p l = (r, l') \<Longrightarrow>
    \<exists>w. consumes l (c # w) l' \<and> (\<forall>x \<in> set w. p (rn x)) \<and> r = lex_peek l'"
  using assms
proof (induction p l arbitrary: c r l' rule: eat_while.induct)
  case (1 p l)
  obtain r1 l1 where e: "lex_eat l = (r1, l1)" by (cases "lex_eat l")
  then have c1: "consumes l [c] l1" and p1: "lex_peek l1 = r1"
    using lex_eat_ascii "1.prems" by auto
  show ?case
  proof (cases "r1 \<noteq> rune_EOF \<and> p r1")
    case True
    then have asc: "0 \<le> r1" "r1 < 128" using "1.prems"(4) by (auto simp: ascii_class_def)
    then obtain d where d: "rn d = r1" using peek_ascii p1 by blast
    have "eat_while p l1 = (r, l')"
      using "1.prems"(3) e True by (subst (asm) eat_while.simps) simp
    then obtain w where w: "consumes l1 (d # w) l'" "\<forall>x \<in> set w. p (rn x)" "r = lex_peek l'"
      using "1.IH" [OF e [symmetric] True, of d] p1 d asc "1.prems"(4) by auto
    have "consumes l (c # d # w) l'" using consumes_trans [OF c1 w(1)] by simp
    then show ?thesis using w True d by (intro exI [of _ "d # w"]) auto
  next
    case False
    then have "r = r1" "l' = l1"
      using "1.prems"(3) e by (subst (asm) eat_while.simps; auto)+
    then show ?thesis using c1 p1 by (intro exI [of _ "[]"]) auto
  qed
qed

text \<open>How a method of the lexer ends: with a token of its language, or with an error.\<close>

definition emits :: "lexer \<Rightarrow> token \<Rightarrow> lexer \<Rightarrow> bool" where
  "emits l t l' \<longleftrightarrow> (\<exists>w l1 k. consumes l w l1 \<and> w \<noteq> [] \<and> kind_lang k w
     \<and> (t, l') = lex_token k l1)"

definition fails :: "lexer \<Rightarrow> token \<Rightarrow> lexer \<Rightarrow> bool" where
  "fails l t l' \<longleftrightarrow> (\<exists>w l1 m. consumes l w l1 \<and> l' = lex_error m l1 \<and> t = lex_eof l')"

definition lex_ends :: "lexer \<Rightarrow> token \<times> lexer \<Rightarrow> bool" where
  "lex_ends l res \<longleftrightarrow> emits l (fst res) (snd res) \<or> fails l (fst res) (snd res)"

lemma lex_ends_token:
  "consumes l w l1 \<Longrightarrow> w \<noteq> [] \<Longrightarrow> kind_lang k w \<Longrightarrow> lex_ends l (lex_token k l1)"
  unfolding lex_ends_def emits_def by (metis prod.collapse)

lemma lex_ends_unexpected: "consumes l w l1 \<Longrightarrow> lex_ends l (lex_unexpected r a b l1)"
  unfolding lex_ends_def fails_def lex_unexpected_def Let_def by auto

lemma lexChar_ends:
  assumes "lex_peek l = rn c" and "rn c < 128" and "kind_lang k [c]"
  shows "lex_ends l (lexChar k l)"
  using consumes_next_ascii [OF assms(1,2)] assms(3)
  by (auto simp: lexChar_def intro: lex_ends_token)

text \<open>Operators of one or two characters.\<close>

lemma two_char_ends:
  assumes "lex_peek l = rn c" and "rn c < 128" and "rn d < 128" and "kind_lang k [c, d]"
    and "lex_eat l = (r, l1)" and "r = rn d"
  shows "lex_ends l (lex_token k (scan_next l1))"
proof -
  have "consumes l [c] l1" "lex_peek l1 = rn d"
    using lex_eat_ascii [OF assms(5,1,2)] assms(6) by auto
  then have "consumes l ([c] @ [d]) (scan_next l1)"
    using consumes_trans consumes_next_ascii assms(3) by blast
  then show ?thesis using assms(4) by (auto intro: lex_ends_token)
qed

lemma one_char_ends:
  assumes "lex_peek l = rn c" and "rn c < 128" and "kind_lang k [c]"
    and "lex_eat l = (r, l1)"
  shows "lex_ends l (lex_token k l1)"
  using lex_eat_ascii [OF assms(4,1,2)] assms(3) by (auto intro: lex_ends_token)

lemma operator_error_ends:
  assumes "lex_peek l = rn c" and "rn c < 128" and "lex_eat l = (r, l1)"
  shows "lex_ends l (lex_unexpected r a b l1)"
  using lex_eat_ascii [OF assms(3,1,2)] by (auto intro: lex_ends_unexpected)

lemma lexEnd_ends: "lex_peek l = rn CHR ''}'' \<Longrightarrow> lex_ends l (lexEnd l)"
  using two_char_ends [of l "CHR ''}''" "CHR ''}''" TokenKindEnd] operator_error_ends [of l "CHR ''}''"]
  by (auto simp: lexEnd_def split: prod.splits)

lemma lexBang_ends: "lex_peek l = rn CHR ''!'' \<Longrightarrow> lex_ends l (lexBang l)"
  using two_char_ends [of l "CHR ''!''" "CHR ''=''" TokenKindNotEq] one_char_ends [of l "CHR ''!''" TokenKindNot]
  by (auto simp: lexBang_def split: prod.splits)

lemma lexLess_ends: "lex_peek l = rn CHR ''<'' \<Longrightarrow> lex_ends l (lexLess l)"
  using two_char_ends [of l "CHR ''<''" "CHR ''=''" TokenKindLessEq] one_char_ends [of l "CHR ''<''" TokenKindLess]
  by (auto simp: lexLess_def split: prod.splits)

lemma lexGreater_ends: "lex_peek l = rn CHR ''>'' \<Longrightarrow> lex_ends l (lexGreater l)"
  using two_char_ends [of l "CHR ''>''" "CHR ''=''" TokenKindGreaterEq] one_char_ends [of l "CHR ''>''" TokenKindGreater]
  by (auto simp: lexGreater_def split: prod.splits)

lemma lexEq_ends: "lex_peek l = rn CHR ''='' \<Longrightarrow> lex_ends l (lexEq l)"
  using two_char_ends [of l "CHR ''=''" "CHR ''=''" TokenKindEq] operator_error_ends [of l "CHR ''=''"]
  by (auto simp: lexEq_def split: prod.splits)

lemma lexAnd_ends: "lex_peek l = rn CHR ''&'' \<Longrightarrow> lex_ends l (lexAnd l)"
  using two_char_ends [of l "CHR ''&''" "CHR ''&''" TokenKindAnd] operator_error_ends [of l "CHR ''&''"]
  by (auto simp: lexAnd_def split: prod.splits)

lemma lexOr_ends: "lex_peek l = rn CHR ''|'' \<Longrightarrow> lex_ends l (lexOr l)"
  using two_char_ends [of l "CHR ''|''" "CHR ''|''" TokenKindOr] operator_error_ends [of l "CHR ''|''"]
  by (auto simp: lexOr_def split: prod.splits)

lemma lexIdent_ends:
  assumes "isAlpha (lex_peek l) \<or> lex_peek l = rn CHR ''_''"
  shows "lex_ends l (lexIdent l)"
proof -
  from assms have "0 \<le> lex_peek l" "lex_peek l < 128" by (auto simp: isAlpha_def)
  then obtain c where c: "lex_peek l = rn c" "rn c < 128" using peek_ascii [of l] by metis
  obtain r l' where e: "eat_while isIdentPart l = (r, l')" by (cases "eat_while isIdentPart l")
  then obtain w where "consumes l (c # w) l'" "\<forall>x \<in> set w. isIdentPart (rn x)"
    using eat_while_spec [OF ascii_classes(3) c e] by auto
  moreover from assms c have "isAlpha (rn c) \<or> c = CHR ''_''" by (simp only: rn_eq_iff)
  then have "ident_lang (c # w)" using calculation(2) by (auto simp: ident_lang_def)
  ultimately show ?thesis
    using e by (auto simp: lexIdent_def intro!: lex_ends_token)
qed

subsection \<open>Numbers\<close>

lemma finish_number_ends:
  "consumes l0 w l1 \<Longrightarrow> w \<noteq> [] \<Longrightarrow> kind_lang k w \<Longrightarrow>
     lex_ends l0 (if isAlnum r then lex_unexpected r a b l1 else lex_token k l1)"
  by (simp add: lex_ends_token lex_ends_unexpected)

lemma peek_class:
  assumes "p (lex_peek l)" and "ascii_class p"
  obtains c where "lex_peek l = rn c" and "rn c < 128" and "p (rn c)"
  using assms peek_ascii [of l "lex_peek l"] by (auto simp: ascii_class_def) metis

lemma lexHexInt_ends:
  assumes pre: "consumes l0 (sg @ ''0x'') l" and sg: "sg \<in> {[], ''-''}"
  shows "lex_ends l0 (lexHexInt l)"
proof -
  have int: "kind_lang TokenKindInt (sg @ ''0x'' @ h)"
    if "h = ''0'' \<or> (h \<noteq> [] \<and> (\<forall>c \<in> set h. isHexNum (rn c)) \<and> hd h \<noteq> CHR ''0'')" for h
  proof -
    have "hex_int (''0x'' @ h)" using that by (auto simp: hex_int_def)
    then show ?thesis using sg by (auto simp: signed_by_def)
  qed
  consider (zero) "lex_peek l = rn CHR ''0''"
    | (bad) "lex_peek l \<noteq> rn CHR ''0''" "\<not> isHexNum (lex_peek l)"
    | (hex) "lex_peek l \<noteq> rn CHR ''0''" "isHexNum (lex_peek l)" by blast
  then show ?thesis
  proof cases
    case zero
    obtain r l1 where e: "lex_eat l = (r, l1)" by (cases "lex_eat l")
    have "consumes l ''0'' l1" using lex_eat_ascii [OF e zero] by simp
    then have c: "consumes l0 (sg @ ''0x'' @ ''0'') l1" using consumes_trans [OF pre] by simp
    show ?thesis using zero e finish_number_ends [OF c _ int]
      by (simp add: lexHexInt_def)
  next
    case bad
    then show ?thesis using lex_ends_unexpected [OF pre] by (simp add: lexHexInt_def Let_def)
  next
    case hex
    obtain c where c: "lex_peek l = rn c" "rn c < 128" "isHexNum (rn c)"
      using peek_class [of isHexNum l] hex(2) by auto
    obtain r l1 where e: "eat_while isHexNum l = (r, l1)" by (cases "eat_while isHexNum l")
    obtain w where w: "consumes l (c # w) l1" "\<forall>x \<in> set w. isHexNum (rn x)"
      using eat_while_spec [OF ascii_classes(2) c(1,2) e] by auto
    have c0: "c \<noteq> CHR ''0''" using hex(1) c(1) by auto
    have "consumes l0 (sg @ ''0x'' @ (c # w)) l1" using consumes_trans [OF pre w(1)] by simp
    moreover have "kind_lang TokenKindInt (sg @ ''0x'' @ (c # w))"
      using int [of "c # w"] w(2) c(3) c0 by simp
    ultimately show ?thesis
      using hex e finish_number_ends [of l0 "sg @ ''0x'' @ (c # w)" l1 TokenKindInt r]
      by (simp add: lexHexInt_def Let_def)
  qed
qed

definition starts_number :: "lexer \<Rightarrow> string \<Rightarrow> string \<Rightarrow> rune \<Rightarrow> lexer \<Rightarrow> bool" where
  "starts_number l0 sg i r l \<longleftrightarrow> consumes l0 (sg @ i) l \<and> sg \<in> {[], ''-''} \<and> decimal_int i
     \<and> r = lex_peek l"

lemma integer_part_ends:
  assumes pre: "consumes l0 sg l" and sg: "sg \<in> {[], ''-''}" and r: "r = lex_peek l"
    and res: "res = (if r = rn CHR ''0'' then
        (case lex_eat l of (r, l) \<Rightarrow>
           if r = rn CHR ''x'' then Inl (lexHexInt (scan_next l)) else Inr (r, l))
      else if \<not> isNum r then Inl (lex_unexpected r ''integer part of number'' expectedDigitChars l)
      else Inr (eat_while isNum l))"
  shows "(\<exists>t. res = Inl t \<and> lex_ends l0 t) \<or> (\<exists>r l' i. res = Inr (r, l') \<and> starts_number l0 sg i r l')"
proof -
  consider (zero) "lex_peek l = rn CHR ''0''"
    | (bad) "lex_peek l \<noteq> rn CHR ''0''" "\<not> isNum (lex_peek l)"
    | (num) "lex_peek l \<noteq> rn CHR ''0''" "isNum (lex_peek l)" by blast
  then show ?thesis
  proof cases
    case zero
    obtain r1 l1 where e: "lex_eat l = (r1, l1)" by (cases "lex_eat l")
    have "consumes l ''0'' l1" and p1: "lex_peek l1 = r1" using lex_eat_ascii [OF e zero] by auto
    then have c: "consumes l0 (sg @ ''0'') l1" using consumes_trans [OF pre] by simp
    show ?thesis
    proof (cases "r1 = rn CHR ''x''")
      case True
      have "consumes l1 ''x'' (scan_next l1)" using True p1 consumes_next_ascii [of l1 "CHR ''x''"] by simp
      then have "consumes l0 (sg @ ''0x'') (scan_next l1)" using consumes_trans [OF c] by simp
      then show ?thesis using True zero e r res lexHexInt_ends [OF _ sg] by simp
    next
      case False
      have "starts_number l0 sg ''0'' r1 l1"
        using c sg p1 by (simp add: starts_number_def decimal_int_def)
      then show ?thesis using False zero e r res by auto
    qed
  next
    case bad
    then show ?thesis using r res lex_ends_unexpected [OF pre] by simp
  next
    case num
    obtain c where c: "lex_peek l = rn c" "rn c < 128" "isNum (rn c)"
      using peek_class [of isNum l] num(2) by auto
    obtain r1 l1 where e: "eat_while isNum l = (r1, l1)" by (cases "eat_while isNum l")
    obtain w where w: "consumes l (c # w) l1" "\<forall>x \<in> set w. isNum (rn x)" "r1 = lex_peek l1"
      using eat_while_spec [OF ascii_classes(1) c(1,2) e] by auto
    have c0: "c \<noteq> CHR ''0''" using num(1) c(1) by auto
    have "consumes l0 (sg @ (c # w)) l1" by (rule consumes_trans [OF pre w(1)])
    then have "starts_number l0 sg (c # w) r1 l1"
      using sg w c c0 by (simp add: starts_number_def decimal_int_def all_digits_def)
    then show ?thesis using num e r res by auto
  qed
qed

lemma lexNum_integer_ends:
  assumes "isNum (lex_peek l0) \<or> lex_peek l0 = rn CHR ''-''"
  shows "(\<exists>t. lexNum_integer l0 = Inl t \<and> lex_ends l0 t)
    \<or> (\<exists>r l sg i. lexNum_integer l0 = Inr (r, l) \<and> starts_number l0 sg i r l)"
proof (cases "lex_peek l0 = rn CHR ''-''")
  case True
  obtain r l where e: "lex_eat l0 = (r, l)" by (cases "lex_eat l0")
  have "consumes l0 ''-'' l" "r = lex_peek l" using lex_eat_ascii [OF e True] by auto
  note parts = this
  have "lexNum_integer l0 = (if r = rn CHR ''0'' then
        (case lex_eat l of (r, l) \<Rightarrow>
           if r = rn CHR ''x'' then Inl (lexHexInt (scan_next l)) else Inr (r, l))
      else if \<not> isNum r then Inl (lex_unexpected r ''integer part of number'' expectedDigitChars l)
      else Inr (eat_while isNum l))"
    using True e by (simp add: lexNum_integer_def Let_def)
  from integer_part_ends [OF parts(1) _ parts(2) this] show ?thesis by blast
next
  case False
  have "consumes l0 [] l0" by blast
  moreover have "lexNum_integer l0 = (if lex_peek l0 = rn CHR ''0'' then
        (case lex_eat l0 of (r, l) \<Rightarrow>
           if r = rn CHR ''x'' then Inl (lexHexInt (scan_next l)) else Inr (r, l))
      else if \<not> isNum (lex_peek l0)
        then Inl (lex_unexpected (lex_peek l0) ''integer part of number'' expectedDigitChars l0)
      else Inr (eat_while isNum l0))"
    using False by (simp add: lexNum_integer_def Let_def)
  ultimately show ?thesis using integer_part_ends [of l0 "[]" l0 "lex_peek l0"] by blast
qed

lemma fails_unexpected: "consumes l0 w l1 \<Longrightarrow> lex_unexpected r a b l1 = (t, l') \<Longrightarrow> fails l0 t l'"
  unfolding fails_def lex_unexpected_def Let_def by auto

lemma fails_prefix: "consumes l0 w l \<Longrightarrow> fails l t l' \<Longrightarrow> fails l0 t l'"
  unfolding fails_def using consumes_trans by blast

lemma digits_spec:
  assumes "consumes l0 u l" and "isNum (lex_peek l)" and "eat_while isNum l = (r, l1)"
  shows "\<exists>d. consumes l0 (u @ d) l1 \<and> d \<noteq> [] \<and> all_digits d \<and> r = lex_peek l1"
proof -
  obtain c where c: "lex_peek l = rn c" "rn c < 128" "isNum (rn c)"
    using peek_class [of isNum l] assms(2) by auto
  obtain w where "consumes l (c # w) l1" "\<forall>x \<in> set w. isNum (rn x)" "r = lex_peek l1"
    using eat_while_spec [OF ascii_classes(1) c(1,2) assms(3)] by auto
  then show ?thesis using c consumes_trans [OF assms(1)]
    by (intro exI [of _ "c # w"]) (simp add: all_digits_def)
qed

lemma lexNum_fraction_ends:
  assumes "r = lex_peek l"
  shows "(\<exists>t l'. lexNum_fraction r l = Inl (t, l') \<and> fails l t l')
    \<or> (\<exists>k r' l' f. lexNum_fraction r l = Inr (k, r', l') \<and> consumes l f l' \<and> r' = lex_peek l'
        \<and> (f = [] \<and> k = TokenKindInt \<or> fraction_part f \<and> k = TokenKindFloat))"
proof (cases "r = rn CHR ''.''")
  case True
  obtain r1 l1 where e: "lex_eat l = (r1, l1)" by (cases "lex_eat l")
  have c: "consumes l ''.'' l1" and p: "lex_peek l1 = r1"
    using lex_eat_ascii [OF e, of "CHR ''.''"] True assms by auto
  show ?thesis
  proof (cases "isNum r1")
    case num: True
    obtain r2 l2 where w: "eat_while isNum l1 = (r2, l2)" by (cases "eat_while isNum l1")
    from digits_spec [OF c _ w] num p obtain d where
      d: "consumes l (''.'' @ d) l2" "d \<noteq> []" "all_digits d" "r2 = lex_peek l2" by auto
    then have "fraction_part (''.'' @ d)" by (auto simp: fraction_part_def)
    moreover have "lexNum_fraction r l = Inr (TokenKindFloat, r2, l2)"
      using True e num w by (simp add: lexNum_fraction_def)
    ultimately show ?thesis using d by blast
  next
    case False
    obtain t l' where u: "lex_unexpected r1 ''fraction part of float number'' expectedDigitChars l1 = (t, l')"
      by fastforce
    then show ?thesis using True e False fails_unexpected [OF c u]
      by (simp add: lexNum_fraction_def)
  qed
next
  case False
  then show ?thesis using assms by (auto simp: lexNum_fraction_def)
qed

lemma exponent_sign:
  assumes "consumes l (e # []) l1" and "r1 = lex_peek l1"
    and "(r2, l2) = (if r1 = rn CHR ''-'' \<or> r1 = rn CHR ''+'' then lex_eat l1 else (r1, l1))"
  shows "\<exists>sgn. sgn \<in> {[], ''-'', ''+''} \<and> consumes l (e # sgn) l2 \<and> r2 = lex_peek l2"
proof -
  consider "r1 = rn CHR ''-''" | "r1 = rn CHR ''+''" | "r1 \<noteq> rn CHR ''-''" "r1 \<noteq> rn CHR ''+''"
    by blast
  then show ?thesis
  proof cases
    case 1
    then have "consumes l1 ''-'' l2" "r2 = lex_peek l2"
      using lex_eat_ascii [of l1 r2 l2 "CHR ''-''"] assms by auto
    then show ?thesis using consumes_trans [OF assms(1), of "''-''" l2]
      by (intro exI [of _ "''-''"]) simp
  next
    case 2
    then have "consumes l1 ''+'' l2" "r2 = lex_peek l2"
      using lex_eat_ascii [of l1 r2 l2 "CHR ''+''"] assms by auto
    then show ?thesis using consumes_trans [OF assms(1), of "''+''" l2]
      by (intro exI [of _ "''+''"]) simp
  next
    case 3
    then show ?thesis using assms by (intro exI [of _ "[]"]) simp
  qed
qed

lemma lexNum_exponent_ends:
  assumes "r = lex_peek l"
  shows "(\<exists>t l'. lexNum_exponent k r l = Inl (t, l') \<and> fails l t l')
    \<or> (\<exists>k' r' l' x. lexNum_exponent k r l = Inr (k', r', l') \<and> consumes l x l' \<and> r' = lex_peek l'
        \<and> (x = [] \<and> k' = k \<or> exponent_part x \<and> k' = TokenKindFloat))"
proof (cases "r = rn CHR ''e'' \<or> r = rn CHR ''E''")
  case True
  then obtain ec where ec: "ec \<in> {CHR ''e'', CHR ''E''}" "r = rn ec" by blast
  have asc: "rn ec < 128" using ec(1) by auto
  obtain r1 l1 where e: "lex_eat l = (r1, l1)" by (cases "lex_eat l")
  have c: "consumes l [ec] l1" and p: "r1 = lex_peek l1"
    using lex_eat_ascii [OF e, of ec] ec(2) assms asc by simp_all
  define res where "res = (if r1 = rn CHR ''-'' \<or> r1 = rn CHR ''+'' then lex_eat l1 else (r1, l1))"
  obtain r2 l2 where "res = (r2, l2)" by (cases res)
  then have s: "(r2, l2) = (if r1 = rn CHR ''-'' \<or> r1 = rn CHR ''+'' then lex_eat l1 else (r1, l1))"
    unfolding res_def by (rule sym)
  obtain sgn where sgn: "sgn \<in> {[], ''-'', ''+''}" "consumes l (ec # sgn) l2" "r2 = lex_peek l2"
    using exponent_sign [OF c p s] by blast
  show ?thesis
  proof (cases "isNum r2")
    case num: True
    obtain r3 l3 where w: "eat_while isNum l2 = (r3, l3)" by (cases "eat_while isNum l2")
    from digits_spec [OF sgn(2) _ w] num sgn(3) obtain d where
      d: "consumes l ((ec # sgn) @ d) l3" "d \<noteq> []" "all_digits d" "r3 = lex_peek l3" by auto
    then have "exponent_part ((ec # sgn) @ d)" using sgn(1) ec(1) by (auto simp: exponent_part_def)
    moreover have "lexNum_exponent k r l = Inr (TokenKindFloat, r3, l3)"
      using True e num w s [symmetric] by (simp add: lexNum_exponent_def)
    ultimately show ?thesis using d by blast
  next
    case False
    obtain t l' where u: "lex_unexpected r2 ''exponent part of float number'' expectedDigitChars l2 = (t, l')"
      by fastforce
    have "lexNum_exponent k r l = Inl (t, l')"
      using True e False u s [symmetric] by (simp add: lexNum_exponent_def)
    then show ?thesis using fails_unexpected [OF sgn(2) u] by blast
  qed
next
  case False
  then show ?thesis using assms by (auto simp: lexNum_exponent_def)
qed

lemma lexNum_ends:
  assumes "isNum (lex_peek l0) \<or> lex_peek l0 = rn CHR ''-''"
  shows "lex_ends l0 (lexNum l0)"
  using lexNum_integer_ends [OF assms]
proof (elim disjE exE conjE)
  fix t
  assume "lexNum_integer l0 = Inl t" "lex_ends l0 t"
  then show ?thesis by (simp add: lexNum_def)
next
  fix r l sg i
  assume int: "lexNum_integer l0 = Inr (r, l)" and "starts_number l0 sg i r l"
  then have c1: "consumes l0 (sg @ i) l" and sg: "sg \<in> {[], ''-''}" and i: "decimal_int i"
    and r: "r = lex_peek l" by (simp_all add: starts_number_def)
  show ?thesis
    using lexNum_fraction_ends [OF r]
  proof (rule disjE; elim exE conjE)
    fix t l'
    assume "lexNum_fraction r l = Inl (t, l')" "fails l t l'"
    then show ?thesis using int fails_prefix [OF c1] by (simp add: lexNum_def lex_ends_def)
  next
    fix k r' l' f
    assume fr: "lexNum_fraction r l = Inr (k, r', l')" and c2: "consumes l f l'"
      and r': "r' = lex_peek l'"
      and f: "f = [] \<and> k = TokenKindInt \<or> fraction_part f \<and> k = TokenKindFloat"
    show ?thesis
      using lexNum_exponent_ends [OF r', of k]
    proof (rule disjE; elim exE conjE)
      fix t l''
      assume "lexNum_exponent k r' l' = Inl (t, l'')" "fails l' t l''"
      then show ?thesis using int fr fails_prefix [OF consumes_trans [OF c1 c2]]
        by (simp add: lexNum_def lex_ends_def)
    next
      fix k' r'' l'' x
      assume ex: "lexNum_exponent k r' l' = Inr (k', r'', l'')" and c3: "consumes l' x l''"
        and x: "x = [] \<and> k' = k \<or> exponent_part x \<and> k' = TokenKindFloat"
      have c: "consumes l0 (sg @ i @ f @ x) l''"
        using consumes_trans [OF consumes_trans [OF c1 c2] c3] by simp
      have ne: "sg @ i @ f @ x \<noteq> []" using i by (auto simp: decimal_int_def)
      have "kind_lang k' (sg @ i @ f @ x)"
      proof (cases "f @ x = []")
        case True
        then have "k' = TokenKindInt"
          using f x by (auto simp: fraction_part_def exponent_part_def)
        then show ?thesis using True sg i by (auto simp: signed_by_def)
      next
        case False
        then have "k' = TokenKindFloat" and "float_number (i @ f @ x)"
          using f x i by (auto simp: float_number_def)
        then show ?thesis using sg by (auto simp: signed_by_def)
      qed
      from finish_number_ends [OF c ne this] show ?thesis
        using int fr ex by (simp add: lexNum_def)
    qed
  qed
qed

subsection \<open>String literals\<close>

lemma ascii_quote: "rn CHR 0x27 < 128"
  by simp

lemma decode_bytes:
  assumes "s \<noteq> []"
  shows "(\<exists>c. take (snd (decode_rune s)) s = [c] \<and> rn c < 128 \<and> fst (decode_rune s) = rn c)
    \<or> (\<forall>c \<in> set (take (snd (decode_rune s)) s). 128 \<le> rn c)"
proof -
  obtain c cs where s: "s = c # cs" using assms by (cases s) auto
  show ?thesis
    unfolding s
    by (auto simp: Let_def is_cont_def second_ok_def second_lo_def split: list.splits)
qed

lemma lexString_spec:
  "lex_peek l \<noteq> rune_EOF \<Longrightarrow> lexString l = (t, l') \<Longrightarrow>
     fails l t l' \<or> (\<exists>b l1. consumes l (take (snd (decode_rune (sc_rest (lx_scan l))))
         (sc_rest (lx_scan l)) @ b @ [CHR 0x27]) l1
       \<and> string_body b \<and> (t, l') = lex_token TokenKindString l1)"
proof (induction l arbitrary: t l' rule: lexString.induct)
  case (1 l)
  define w0 where "w0 = take (snd (decode_rune (sc_rest (lx_scan l)))) (sc_rest (lx_scan l))"
  obtain r l1 where e: "lex_eat l = (r, l1)" by (cases "lex_eat l")
  then have l1: "l1 = scan_next l" "r = lex_peek l1" by (auto simp: lex_eat_def Let_def)
  have c0: "consumes l w0 l1" using consumes_next [of l] l1 by (simp add: w0_def)
  show ?case
  proof (cases "r = rn CHR 0x27")
    case quote: True
    obtain r2 l2 where e2: "lex_eat l1 = (r2, l2)" by (cases "lex_eat l1")
    have cq: "consumes l1 [CHR 0x27] l2" and p2: "lex_peek l2 = r2"
      using lex_eat_ascii [OF e2, of "CHR 0x27"] quote l1 by auto
    note cq' = consumes_trans [OF c0 cq]
    show ?thesis
    proof (cases "r2 = rn CHR 0x27")
      case again: True
      then have "lexString l2 = (t, l')"
        using "1.prems"(2) e e2 quote by (subst (asm) lexString.simps) simp
      moreover have "lex_peek l2 \<noteq> rune_EOF" using again p2 by simp
      ultimately have ih: "fails l2 t l' \<or> (\<exists>b l1. consumes l2
          (take (snd (decode_rune (sc_rest (lx_scan l2)))) (sc_rest (lx_scan l2)) @ b @ [CHR 0x27]) l1
          \<and> string_body b \<and> (t, l') = lex_token TokenKindString l1)"
        using "1.IH"(1) [OF e [symmetric] quote e2 [symmetric]] again by simp
      have "sc_ch (lx_scan l2) = rn CHR 0x27" using again p2 by (simp add: lex_peek_def)
      then obtain cs where "sc_rest (lx_scan l2) = CHR 0x27 # cs"
        using sc_advance_ascii [of "lx_scan l2" "rn CHR 0x27"]
        by (metis rn_eq_iff rn_nonneg ascii_quote)
      then have tk: "take (snd (decode_rune (sc_rest (lx_scan l2)))) (sc_rest (lx_scan l2)) = [CHR 0x27]"
        by simp
      from ih show ?thesis
      proof (elim disjE exE conjE)
        assume "fails l2 t l'"
        then show ?thesis using fails_prefix [OF cq'] by blast
      next
        fix b l3
        assume b: "consumes l2 (take (snd (decode_rune (sc_rest (lx_scan l2)))) (sc_rest (lx_scan l2))
            @ b @ [CHR 0x27]) l3" "string_body b" "(t, l') = lex_token TokenKindString l3"
        have "consumes l (w0 @ (CHR 0x27 # CHR 0x27 # b) @ [CHR 0x27]) l3"
          using consumes_trans [OF cq' b(1)] tk by simp
        moreover have "string_body (CHR 0x27 # CHR 0x27 # b)" using b(2) by simp
        ultimately show ?thesis using b(3) unfolding w0_def by blast
      qed
    next
      case False
      then have "(t, l') = lex_token TokenKindString l2"
        using "1.prems"(2) e e2 quote by (subst (asm) lexString.simps) simp
      moreover have "consumes l (w0 @ [] @ [CHR 0x27]) l2" using cq' by simp
      ultimately show ?thesis unfolding w0_def by (metis string_body.simps(1))
    qed
  next
    case noquote: False
    show ?thesis
    proof (cases "r = rune_EOF")
      case True
      then have "lex_unexpected rune_EOF ''end of string literal'' (quoted CHR 0x27) l1 = (t, l')"
        using "1.prems"(2) e noquote by (subst (asm) lexString.simps) simp
      then show ?thesis using fails_unexpected [OF c0] by blast
    next
      case False
      then have "lexString l1 = (t, l')"
        using "1.prems"(2) e noquote by (subst (asm) lexString.simps) simp
      then have ih: "fails l1 t l' \<or> (\<exists>b l2. consumes l1
          (take (snd (decode_rune (sc_rest (lx_scan l1)))) (sc_rest (lx_scan l1)) @ b @ [CHR 0x27]) l2
          \<and> string_body b \<and> (t, l') = lex_token TokenKindString l2)"
        using "1.IH"(2) [OF e [symmetric] noquote False] False l1 by simp
      define w1 where "w1 = take (snd (decode_rune (sc_rest (lx_scan l1)))) (sc_rest (lx_scan l1))"
      have ne: "sc_rest (lx_scan l1) \<noteq> []" using False l1 by (simp add: lex_peek_def sc_ch_EOF_iff)
      have "CHR 0x27 \<notin> set w1"
        using decode_bytes [OF ne] noquote l1 ne unfolding w1_def
        by (auto simp: lex_peek_def sc_ch_def)
      then have sb: "string_body w1" by (rule string_body_noquote)
      from ih show ?thesis
      proof (elim disjE exE conjE)
        assume "fails l1 t l'"
        then show ?thesis using fails_prefix [OF c0] by blast
      next
        fix b l3
        assume b: "consumes l1 (take (snd (decode_rune (sc_rest (lx_scan l1)))) (sc_rest (lx_scan l1))
            @ b @ [CHR 0x27]) l3" "string_body b" "(t, l') = lex_token TokenKindString l3"
        have "consumes l (w0 @ (w1 @ b) @ [CHR 0x27]) l3"
          using consumes_trans [OF c0 b(1)] by (simp add: w1_def)
        then show ?thesis using b(3) string_body_append_pair [OF sb b(2)] unfolding w0_def by blast
      qed
    qed
  qed
qed

lemma lexString_ends:
  assumes "lex_peek l = rn CHR 0x27"
  shows "lex_ends l (lexString l)"
proof -
  obtain t l' where s: "lexString l = (t, l')" by (cases "lexString l")
  obtain cs where "sc_rest (lx_scan l) = CHR 0x27 # cs"
    using sc_advance_ascii [of "lx_scan l" "rn CHR 0x27"] assms
    by (metis lex_peek_def rn_eq_iff rn_nonneg ascii_quote)
  then have "take (snd (decode_rune (sc_rest (lx_scan l)))) (sc_rest (lx_scan l)) = [CHR 0x27]"
    by simp
  moreover have "lex_peek l \<noteq> rune_EOF" using assms by simp
  ultimately have "fails l t l' \<or> (\<exists>b l1. consumes l (CHR 0x27 # b @ [CHR 0x27]) l1
       \<and> string_body b \<and> (t, l') = lex_token TokenKindString l1)"
    using lexString_spec [OF _ s] by simp
  then show ?thesis
  proof (elim disjE exE conjE)
    assume "fails l t l'"
    then show ?thesis by (simp add: s lex_ends_def)
  next
    fix b l1
    assume "consumes l (CHR 0x27 # b @ [CHR 0x27]) l1" "string_body b"
      "(t, l') = lex_token TokenKindString l1"
    then show ?thesis
      using lex_ends_token [of l "CHR 0x27 # b @ [CHR 0x27]" l1 TokenKindString]
      by (auto simp: s string_lang_def)
  qed
qed

subsection \<open>The next token\<close>

definition all_white :: "string \<Rightarrow> bool" where
  "all_white s \<longleftrightarrow> (\<forall>c \<in> set s. isWhitespace (rn c))"

text \<open>White space moves the start of the next token along; nothing else changes.\<close>

definition skips :: "lexer \<Rightarrow> string \<Rightarrow> lexer \<Rightarrow> bool" where
  "skips l ws l' \<longleftrightarrow> consumes l ws (l'\<lparr>lx_start := lx_start l\<rparr>)
     \<and> (if ws = [] then l' = l else lx_start l' = scan_pos l')"

lemma lex_wf_start [simp]: "lex_wf (l\<lparr>lx_start := p\<rparr>) = lex_wf l"
  by (simp add: lex_wf_def)

lemma skip_white_loop_spec:
  "\<exists>ws. skips l ws (skip_white_loop l) \<and> all_white ws
     \<and> \<not> isWhitespace (lex_peek (skip_white_loop l))"
proof (induction l rule: skip_white_loop.induct)
  case (1 l)
  show ?case
  proof (cases "isWhitespace (lex_peek l)")
    case True
    define l1 where "l1 = scan_next l"
    define l2 where "l2 = l1\<lparr>lx_start := scan_pos l1\<rparr>"
    obtain ws where ws: "skips l2 ws (skip_white_loop l2)" "all_white ws"
      "\<not> isWhitespace (lex_peek (skip_white_loop l2))"
      using 1 [OF True l1_def] by (auto simp: l2_def)
    have "ascii_class isWhitespace" by (auto simp: ascii_class_def isWhitespace_def)
    then obtain c where c: "lex_peek l = rn c" "rn c < 128" "isWhitespace (rn c)"
      using peek_class [of isWhitespace l] True by blast
    have "consumes l [c] l1" unfolding l1_def by (rule consumes_next_ascii [OF c(1,2)])
    moreover have "consumes l1 ws ((skip_white_loop l2)\<lparr>lx_start := lx_start l1\<rparr>)"
      using ws(1) by (auto simp: skips_def consumes_def l2_def)
    ultimately have "consumes l ([c] @ ws) ((skip_white_loop l2)\<lparr>lx_start := lx_start l1\<rparr>)"
      by (rule consumes_trans)
    moreover have "lx_start (skip_white_loop l2) = scan_pos (skip_white_loop l2)"
      using ws(1) by (cases "ws = []") (auto simp: skips_def l2_def scan_pos_def)
    moreover have "lx_start l1 = lx_start l" by (simp add: l1_def)
    ultimately have "skips l (c # ws) (skip_white_loop l2)" by (simp add: skips_def)
    moreover have "skip_white_loop l = skip_white_loop l2"
      using True by (subst skip_white_loop.simps) (simp add: l2_def l1_def Let_def)
    moreover have "all_white (c # ws)" using ws(2) c(3) by (simp add: all_white_def)
    ultimately show ?thesis using ws(3) by metis
  next
    case False
    then have "skip_white_loop l = l" by (subst skip_white_loop.simps) simp
    moreover have "skips l [] l" by (simp add: skips_def consumes_refl)
    ultimately show ?thesis using False by (metis all_white_def empty_iff list.set(1))
  qed
qed

lemma lex_dispatch:
  assumes "l = lex_skipWhite l0"
  shows "(lex_peek l = rune_EOF \<and> lex_next l0 = lex_unexpectedEOF l) \<or> lex_ends l (lex_next l0)"
proof -
  define r where "r = lex_peek l"
  have nx: "lex_next l0 =
     (if r = rune_EOF then lex_unexpectedEOF l
      else if isAlpha r \<or> r = rn CHR ''_'' then lexIdent l
      else if isNum r \<or> r = rn CHR ''-'' then lexNum l
      else if r = rn CHR 0x27 then lexString l
      else if r = rn CHR ''}'' then lexEnd l
      else if r = rn CHR ''!'' then lexBang l
      else if r = rn CHR ''<'' then lexLess l
      else if r = rn CHR ''>'' then lexGreater l
      else if r = rn CHR ''='' then lexEq l
      else if r = rn CHR ''&'' then lexAnd l
      else if r = rn CHR ''|'' then lexOr l
      else if r = rn CHR ''('' then lexChar TokenKindLeftParen l
      else if r = rn CHR '')'' then lexChar TokenKindRightParen l
      else if r = rn CHR ''['' then lexChar TokenKindLeftBracket l
      else if r = rn CHR '']'' then lexChar TokenKindRightBracket l
      else if r = rn CHR ''.'' then lexChar TokenKindDot l
      else if r = rn CHR ''*'' then lexChar TokenKindStar l
      else if r = rn CHR '','' then lexChar TokenKindComma l
      else lex_unexpected r ''expression'' expectedAllChars l)"
    unfolding lex_next_def Let_def assms [symmetric] r_def [symmetric] by (rule refl)
  note one = lexChar_ends [of l, folded r_def]
  show ?thesis
    unfolding nx r_def [symmetric]
    using lexIdent_ends [of l] lexNum_ends [of l] lexString_ends [of l] lexEnd_ends [of l]
      lexBang_ends [of l] lexLess_ends [of l] lexGreater_ends [of l] lexEq_ends [of l]
      lexAnd_ends [of l] lexOr_ends [of l] lex_ends_unexpected [OF consumes_refl, of l]
      one [of "CHR ''(''" TokenKindLeftParen] one [of "CHR '')''" TokenKindRightParen]
      one [of "CHR ''[''" TokenKindLeftBracket] one [of "CHR '']''" TokenKindRightBracket]
      one [of "CHR ''.''" TokenKindDot] one [of "CHR ''*''" TokenKindStar]
      one [of "CHR '',''" TokenKindComma]
    unfolding r_def [symmetric]
    by (simp split del: if_split split: if_split)
qed

lemma lex_error_some: "lx_err (lex_error m l) \<noteq> None"
  by (auto simp: lex_error_def Let_def split: option.splits)

lemma scan_load_left: "lex_left (scan_load l) \<le> lex_left l"
  using sc_load_le [of "lx_scan l"] by (simp add: scan_load_def lex_left_def)

lemma skips_left: "skips l ws l' \<Longrightarrow> lex_left l = length ws + lex_left l'"
  by (auto simp: skips_def consumes_def lex_left_def)

lemma skipWhite_left: "lex_left (lex_skipWhite l) \<le> lex_left l"
  using skip_white_loop_spec [of "scan_load l"] scan_load_left [of l]
  by (auto simp: lex_skipWhite_def dest: skips_left)

lemma emits_left: "emits l t l' \<Longrightarrow> lex_left l' < lex_left l"
  by (auto simp: emits_def lex_token_def Let_def lex_left_def consumes_def)

lemma fails_left: "fails l t l' \<Longrightarrow> lex_left l' \<le> lex_left l"
  by (auto simp: fails_def lex_left_def consumes_def)

lemma fails_end: "fails l t l' \<Longrightarrow> tk_kind t = TokenKindEnd \<and> lx_err l' \<noteq> None"
  using lex_error_some by (auto simp: fails_def lex_eof_def)

lemma fails_EOF: "lex_unexpectedEOF l = (t, l') \<Longrightarrow> fails l t l'"
  unfolding fails_def lex_unexpectedEOF_def Let_def using consumes_refl [of l] by blast

lemma lex_next_emits_or_fails:
  assumes "lex_next l = (t, l')"
  shows "emits (lex_skipWhite l) t l' \<or> fails (lex_skipWhite l) t l'"
  using lex_dispatch [OF refl, of l] fails_EOF assms by (auto simp: lex_ends_def)

lemma lex_next_progress [progress]:
  assumes "lex_next l = (t, l')" and "tk_kind t \<noteq> TokenKindEnd \<or> lx_err l' = None"
  shows "lex_left l' < lex_left l"
  using lex_next_emits_or_fails [OF assms(1)] assms(2) skipWhite_left [of l]
  by (auto dest: emits_left fails_end)

lemma lex_next_le [progress]: "lex_next l = (t, l') \<Longrightarrow> lex_left l' \<le> lex_left l"
  using lex_next_emits_or_fails [of l t l'] skipWhite_left [of l]
  by (auto dest: emits_left fails_left)

subsection \<open>LexExpression\<close>

function lex_expression_loop ::
    "lexer \<Rightarrow> token list \<Rightarrow> token list option \<times> nat \<times> expr_error option" where
  "lex_expression_loop l ts =
     (case lex_next l of (t, l') \<Rightarrow>
        (case lx_err l' of
           Some e \<Rightarrow> (None, lex_offset l', Some e)
         | None \<Rightarrow>
             if tk_kind t = TokenKindEnd then (Some (ts @ [t]), lex_offset l', None)
             else lex_expression_loop l' (ts @ [t])))"
  by pat_completeness auto
termination
  by (relation "measure (\<lambda>(l, ts). lex_left l)") (auto dest: lex_next_progress [OF sym])

declare lex_expression_loop.simps [simp del]

definition lexExpression :: "string \<Rightarrow> token list option \<times> nat \<times> expr_error option" where
  "lexExpression src = lex_expression_loop (new_lexer src) []"

text \<open>
  The invariant of the loop on a source without a byte order mark: the next token starts
  at the look-ahead, and the state is in step with the source.
\<close>

definition lex_inv :: "lexer \<Rightarrow> bool" where
  "lex_inv l \<longleftrightarrow> lex_wf l \<and> lx_start l = scan_pos l
     \<and> (\<not> sc_loaded (lx_scan l) \<longrightarrow> \<not> has_bom (sc_rest (lx_scan l)))"

lemma lex_inv_new: "\<not> has_bom src \<Longrightarrow> lex_inv (new_lexer src)"
  by (simp add: lex_inv_def lex_wf_def new_lexer_def sc_wf_init scan_pos_def)
    (simp add: sc_init_def)

lemma scan_load_inv:
  assumes "lex_inv l"
  shows "lex_inv (scan_load l) \<and> sc_loaded (lx_scan (scan_load l))
    \<and> lx_src (scan_load l) = lx_src l \<and> sc_off (lx_scan (scan_load l)) = sc_off (lx_scan l)
    \<and> sc_rest (lx_scan (scan_load l)) = sc_rest (lx_scan l)"
proof (cases "sc_loaded (lx_scan l)")
  case True
  then show ?thesis using assms by (simp add: scan_load_def)
next
  case False
  then have nb: "\<not> has_bom (sc_rest (lx_scan l))" using assms by (simp add: lex_inv_def)
  then have "sc_ch (lx_scan l) \<noteq> 65279" by (auto simp: has_bom_def sc_ch_def)
  then have ld: "sc_load (lx_scan l) = (lx_scan l)\<lparr>sc_loaded := True\<rparr>"
    using False by (simp add: sc_load_def)
  have "sc_wf (lx_src l) (sc_load (lx_scan l))"
    using assms by (intro sc_wf_load) (simp add: lex_inv_def lex_wf_def)
  then have "lex_wf (set_scan (sc_load (lx_scan l)) l)"
    using assms by (intro lex_wf_set_scan) (simp_all add: lex_inv_def)
  then show ?thesis using False assms ld
    by (simp add: scan_load_def lex_inv_def scan_pos_def)
qed

text \<open>One token of a well-formed state, on a source without a byte order mark.\<close>

lemma lex_next_token:
  assumes inv: "lex_inv l" and nx: "lex_next l = (t, l')" and ok: "lx_err l' = None"
  shows "\<exists>ws. sc_rest (lx_scan l) = ws @ tk_value t @ sc_rest (lx_scan l') \<and> all_white ws
    \<and> tk_offset t = sc_off (lx_scan l) + length ws
    \<and> sc_off (lx_scan l') = tk_offset t + length (tk_value t)
    \<and> kind_lang (tk_kind t) (tk_value t) \<and> lex_inv l' \<and> lx_src l' = lx_src l"
proof -
  define l0 where "l0 = scan_load l"
  define l1 where "l1 = lex_skipWhite l"
  have l0: "lex_inv l0" "sc_loaded (lx_scan l0)" "lx_src l0 = lx_src l"
    "sc_off (lx_scan l0) = sc_off (lx_scan l)" "sc_rest (lx_scan l0) = sc_rest (lx_scan l)"
    using scan_load_inv [OF inv] by (simp_all add: l0_def)
  obtain ws where ws: "skips l0 ws l1" "all_white ws"
    using skip_white_loop_spec [of l0] by (auto simp: l1_def lex_skipWhite_def l0_def)
  have st1: "lx_start l1 = scan_pos l1"
    using ws(1) l0(1) by (auto simp: skips_def lex_inv_def split: if_splits)
  have "emits l1 t l'"
    using lex_next_emits_or_fails [OF nx] ok fails_end unfolding l1_def by blast
  then obtain w l2 k where w: "consumes l1 w l2" "w \<noteq> []" "kind_lang k w"
    "(t, l') = lex_token k l2" by (auto simp: emits_def)
  have c1: "sc_rest (lx_scan l0) = ws @ sc_rest (lx_scan l1)" "lx_src l1 = lx_src l0"
    "sc_off (lx_scan l1) = sc_off (lx_scan l0) + length ws" "sc_loaded (lx_scan l1)"
    "lex_wf l1"
    using ws(1) l0 by (auto simp: skips_def consumes_def lex_inv_def)
  have wf2: "lex_wf l2" "lx_src l2 = lx_src l" "sc_loaded (lx_scan l2)"
    using w(1) c1 l0 by (auto simp: consumes_def)
  have val: "slice (lx_src l2) (sc_off (lx_scan l1)) (sc_off (lx_scan l2)) = w"
  proof -
    have "drop (sc_off (lx_scan l1)) (lx_src l2) = w @ sc_rest (lx_scan l2)"
      using c1 w(1) by (auto simp: lex_wf_def sc_wf_def consumes_def)
    then show ?thesis using w(1) slice_prefix by (simp add: consumes_def)
  qed
  have st2: "pos_offset (lx_start l2) = sc_off (lx_scan l1)"
    using w(1) st1 by (simp add: consumes_def scan_pos_def)
  have t: "tk_value t = w" "tk_kind t = k" "tk_offset t = sc_off (lx_scan l1)"
    "l' = l2\<lparr>lx_start := scan_pos l2\<rparr>"
    using w(4) st2 val by (auto simp: lex_token_def Let_def scan_pos_def)
  show ?thesis
    using t w c1 l0 ws(2) wf2
    by (intro exI [of _ ws]) (auto simp: lex_inv_def consumes_def scan_pos_def)
qed

text \<open>A token list that tiles the source: only white space lies between two tokens, and a
  token's value is exactly the source text of its range, in the language of its kind.\<close>

fun tiles :: "string \<Rightarrow> nat \<Rightarrow> token list \<Rightarrow> nat \<Rightarrow> bool" where
  "tiles src p [] q = (p = q)"
| "tiles src p (t # ts) q =
     (p \<le> tk_offset t \<and> all_white (slice src p (tk_offset t))
      \<and> tk_offset t + length (tk_value t) \<le> length src
      \<and> tk_value t = slice src (tk_offset t) (tk_offset t + length (tk_value t))
      \<and> kind_lang (tk_kind t) (tk_value t)
      \<and> tiles src (tk_offset t + length (tk_value t)) ts q)"

lemma tiles_snoc:
  "tiles src p ts q \<Longrightarrow> tiles src q [t] r \<Longrightarrow> tiles src p (ts @ [t]) r"
  by (induction ts arbitrary: p) auto

lemma lex_next_tiles:
  assumes "lex_inv l" and "lex_next l = (t, l')" and "lx_err l' = None"
  shows "tiles (lx_src l) (sc_off (lx_scan l)) [t] (sc_off (lx_scan l'))"
proof -
  obtain ws where ws: "sc_rest (lx_scan l) = ws @ tk_value t @ sc_rest (lx_scan l')"
    "all_white ws" "tk_offset t = sc_off (lx_scan l) + length ws"
    "sc_off (lx_scan l') = tk_offset t + length (tk_value t)"
    "kind_lang (tk_kind t) (tk_value t)" "lex_inv l'" "lx_src l' = lx_src l"
    using lex_next_token [OF assms] by blast
  have d: "drop (sc_off (lx_scan l)) (lx_src l) = ws @ tk_value t @ sc_rest (lx_scan l')"
    using assms(1) ws(1) by (simp add: lex_inv_def lex_wf_def sc_wf_def)
  have le: "sc_off (lx_scan l) \<le> length (lx_src l)" "sc_off (lx_scan l') \<le> length (lx_src l)"
    using assms(1) ws(6,7) by (simp_all add: lex_inv_def lex_wf_def sc_wf_def)
  have "slice (lx_src l) (sc_off (lx_scan l)) (tk_offset t) = ws"
    using slice_prefix [OF d] ws(3) by simp
  moreover have "drop (tk_offset t) (lx_src l) = tk_value t @ sc_rest (lx_scan l')"
    using slice_drop_take [OF d le(1)] ws(3) by simp
  then have "slice (lx_src l) (tk_offset t) (tk_offset t + length (tk_value t)) = tk_value t"
    by (rule slice_prefix)
  ultimately show ?thesis using ws le by simp
qed

lemma lex_expression_loop_ok:
  assumes "lex_inv l" and "lex_expression_loop l ts = (Some us, q, None)"
    and "tiles (lx_src l) p ts (sc_off (lx_scan l))"
    and "\<forall>t \<in> set ts. tk_kind t \<noteq> TokenKindEnd"
  shows "tiles (lx_src l) p us q
    \<and> (\<exists>vs t. us = vs @ [t] \<and> tk_kind t = TokenKindEnd \<and> (\<forall>t \<in> set vs. tk_kind t \<noteq> TokenKindEnd))"
  using assms
proof (induction l ts rule: lex_expression_loop.induct)
  case (1 l ts)
  obtain t l' where nx: "lex_next l = (t, l')" by (cases "lex_next l")
  have ok: "lx_err l' = None"
    using "1.prems"(2) nx by (subst (asm) lex_expression_loop.simps) (simp split: option.splits)
  have t: "tiles (lx_src l) p (ts @ [t]) (sc_off (lx_scan l'))"
    using tiles_snoc [OF "1.prems"(3) lex_next_tiles [OF "1.prems"(1) nx ok]] .
  have inv: "lex_inv l'" "lx_src l' = lx_src l"
    using lex_next_token [OF "1.prems"(1) nx ok] by auto
  show ?case
  proof (cases "tk_kind t = TokenKindEnd")
    case True
    then have "us = ts @ [t]" "q = sc_off (lx_scan l')"
      using "1.prems"(2) nx ok by (subst (asm) lex_expression_loop.simps; simp add: lex_offset_def)+
    then show ?thesis using t True "1.prems"(4) by blast
  next
    case False
    then have "lex_expression_loop l' (ts @ [t]) = (Some us, q, None)"
      using "1.prems"(2) nx ok by (subst (asm) lex_expression_loop.simps) simp
    then show ?thesis
      using "1.IH" [OF nx [symmetric] ok False inv(1)] t inv(2) False "1.prems"(4) by auto
  qed
qed

lemma lex_wf_load: "lex_wf l \<Longrightarrow> lex_wf (scan_load l) \<and> lx_src (scan_load l) = lx_src l"
  using lex_wf_set_scan [of l "sc_load (lx_scan l)"] sc_wf_load
  by (auto simp: scan_load_def lex_wf_def)

lemma skips_wf: "skips l ws l' \<Longrightarrow> lex_wf l \<Longrightarrow> lex_wf l' \<and> lx_src l' = lx_src l"
  by (auto simp: skips_def consumes_def)

lemma skipWhite_wf:
  "lex_wf l \<Longrightarrow> lex_wf (lex_skipWhite l) \<and> lx_src (lex_skipWhite l) = lx_src l"
  using skip_white_loop_spec [of "scan_load l"] lex_wf_load [of l]
  by (metis lex_skipWhite_def skips_wf)

lemma lex_next_wf:
  assumes "lex_wf l" and "lex_next l = (t, l')"
  shows "lex_wf l' \<and> lx_src l' = lx_src l"
  using lex_next_emits_or_fails [OF assms(2)] skipWhite_wf [OF assms(1)]
  by (auto simp: emits_def fails_def consumes_def lex_token_def Let_def lex_wf_error)

lemma lex_expression_loop_total:
  assumes "lex_wf l"
  shows "(\<exists>us q. lex_expression_loop l ts = (Some us, q, None))
    \<or> (\<exists>q e. lex_expression_loop l ts = (None, q, Some e) \<and> error_in (lx_src l) e)"
  using assms
proof (induction l ts rule: lex_expression_loop.induct)
  case (1 l ts)
  obtain t l' where nx: "lex_next l = (t, l')" by (cases "lex_next l")
  have wf: "lex_wf l'" "lx_src l' = lx_src l" using lex_next_wf [OF "1.prems" nx] by auto
  show ?case
  proof (cases "lx_err l'")
    case (Some e)
    then have "lex_expression_loop l ts = (None, lex_offset l', Some e)"
      using nx by (subst lex_expression_loop.simps) simp
    then show ?thesis using wf Some by (auto simp: lex_wf_def)
  next
    case None
    show ?thesis
    proof (cases "tk_kind t = TokenKindEnd")
      case True
      then show ?thesis using nx None by (subst lex_expression_loop.simps) simp
    next
      case False
      have "lex_expression_loop l ts = lex_expression_loop l' (ts @ [t])"
        using nx None False by (subst lex_expression_loop.simps) simp
      then show ?thesis using "1.IH" [OF nx [symmetric] None False wf(1)] wf(2) by simp
    qed
  qed
qed

lemma lex_wf_new: "lex_wf (new_lexer src)"
  by (simp add: lex_wf_def new_lexer_def sc_wf_init)

lemma lexExpression_tokens_tile_end:
  assumes "\<not> has_bom src" and "lexExpression src = (Some ts, q, None)"
  shows "tiles src 0 ts q \<and> (\<exists>us t. ts = us @ [t] \<and> tk_kind t = TokenKindEnd
    \<and> (\<forall>u \<in> set us. tk_kind u \<noteq> TokenKindEnd))"
  using lex_expression_loop_ok [OF lex_inv_new [OF assms(1)], of "[]" ts q 0] assms(2)
  by (simp add: lexExpression_def new_lexer_def sc_init_def)

lemmas lexExpression_tokens_tile = lexExpression_tokens_tile_end [THEN conjunct1]

subsection \<open>Properties\<close>

text \<open>
  (C31) \<open>LexExpression\<close> terminates on every byte string, and returns either a token list or
  one error; the byte range of the error lies inside the source.
\<close>

theorem lexExpression_total:
  "(\<exists>ts q. lexExpression src = (Some ts, q, None))
   \<or> (\<exists>q e. lexExpression src = (None, q, Some e)
        \<and> e_offset e \<le> e_end_offset e \<and> e_end_offset e \<le> length src)"
  using lex_expression_loop_total [OF lex_wf_new, of src "[]"]
  by (simp add: lexExpression_def error_in_def new_lexer_def)

text \<open>
  (C3) The tokens \<open>LexExpression\<close> returns tile the consumed prefix of the source: each token's
  value is the source text of its range and belongs to the language of its kind, nothing
  but white space is skipped between tokens, the list ends at the returned offset, and
  the last token, and only it, is the end marker \<open>}}\<close>. (A source that starts with a byte
  order mark is excluded: its first token's text includes the mark.)
\<close>

theorem lexExpression_tiles:
  assumes "\<not> has_bom src" and "lexExpression src = (Some ts, q, None)"
  shows "tiles src 0 ts q \<and> (\<exists>us t. ts = us @ [t] \<and> tk_kind t = TokenKindEnd
    \<and> (\<forall>u \<in> set us. tk_kind u \<noteq> TokenKindEnd))"
  by (rule lexExpression_tokens_tile_end [OF assms])

theorem lexExpression_tiles_witness:
  "case lexExpression ''a.b == -1.5e3 }}'' of
     (Some ts, q, None) \<Rightarrow> length ts = 6 \<and> tiles ''a.b == -1.5e3 }}'' 0 ts q
   | _ \<Rightarrow> False"
proof -
  have nb: "\<not> has_bom ''a.b == -1.5e3 }}''" by (simp add: has_bom_def)
  have "case lexExpression ''a.b == -1.5e3 }}'' of (Some ts, q, None) \<Rightarrow> length ts = 6 | _ \<Rightarrow> False"
    by code_simp
  then show ?thesis
    using lexExpression_tiles [OF nb] by (auto split: prod.splits option.splits)
qed

end
