(* ===== verification/Go_Number.thy ===== *)
theory Go_Number
  imports Complex_Main Lexer_Spec
begin

text \<open>
  Go's numbers as the expression package uses them. A \<open>float64\<close> is \<open>f64\<close>: NaN, an
  infinity, or a sign and a nonnegative rational magnitude (so that minus zero is a value
  of its own). \<open>strconv.ParseFloat\<close> on decimal syntax rounds the exact rational to the
  nearest binary64 value, ties to even; \<open>strconv.ParseInt(s, 0, 32)\<close> is \<open>parse_int32\<close>. The
  underscores, infinities and hexadecimal floats those library functions also accept never
  reach them here: the lexer's numbers and \<open>IsCoreSchemaDecimal\<close> exclude them.
\<close>

subsection \<open>Digits\<close>

definition is_digit :: "char \<Rightarrow> bool" where
  "is_digit c \<longleftrightarrow> 48 \<le> rn c \<and> rn c \<le> 57"

text \<open>The value of a digit in a base up to 36, \<open>None\<close> for another character.\<close>

definition digit_value :: "char \<Rightarrow> nat option" where
  "digit_value c =
     (let r = rn c in
      if 48 \<le> r \<and> r \<le> 57 then Some (nat (r - 48))
      else if 97 \<le> r \<and> r \<le> 122 then Some (nat (r - 87))
      else if 65 \<le> r \<and> r \<le> 90 then Some (nat (r - 55))
      else None)"

text \<open>\<open>strconv.ParseUint\<close> in a known base, without the range check: \<open>None\<close> on bad syntax.\<close>

fun parse_digits :: "nat \<Rightarrow> nat \<Rightarrow> string \<Rightarrow> nat option" where
  "parse_digits base n [] = Some n"
| "parse_digits base n (c # s) =
     (case digit_value c of
        None \<Rightarrow> None
      | Some d \<Rightarrow> if base \<le> d then None else parse_digits base (n * base + d) s)"

text \<open>\<open>strconv.ParseUint(s, 0, _)\<close>: the prefix selects the base.\<close>

definition parse_uint0 :: "string \<Rightarrow> nat option" where
  "parse_uint0 s =
     (if s = [] then None
      else if hd s = CHR ''0'' then
        (if 3 \<le> length s \<and> lower_char (s ! 1) = CHR ''b'' then parse_digits 2 0 (drop 2 s)
         else if 3 \<le> length s \<and> lower_char (s ! 1) = CHR ''o'' then parse_digits 8 0 (drop 2 s)
         else if 3 \<le> length s \<and> lower_char (s ! 1) = CHR ''x'' then parse_digits 16 0 (drop 2 s)
         else parse_digits 8 0 (tl s))
      else parse_digits 10 0 s)"

text \<open>\<open>strconv.ParseInt(s, 0, 32)\<close>: \<open>None\<close> for its syntax and range errors.\<close>

definition parse_int32 :: "string \<Rightarrow> int option" where
  "parse_int32 s =
     (if s = [] then None
      else
        let neg = hd s = CHR ''-'';
            u = (if hd s = CHR ''-'' \<or> hd s = CHR ''+'' then tl s else s)
        in (case parse_uint0 u of
              None \<Rightarrow> None
            | Some n \<Rightarrow>
                if neg then (if 2 ^ 31 < n then None else Some (- int n))
                else (if 2 ^ 31 \<le> n then None else Some (int n))))"

lemma parse_int32_range: "parse_int32 s = Some i \<Longrightarrow> - (2 ^ 31) \<le> i \<and> i < 2 ^ 31"
proof -
  assume a: "parse_int32 s = Some i"
  then obtain n where "i = - int n \<and> n \<le> 2 ^ 31 \<or> i = int n \<and> n < 2 ^ 31"
    by (auto simp: parse_int32_def Let_def not_less not_le split: if_splits option.splits)
  then have "i = - int n \<and> int n \<le> int (2 ^ 31) \<or> i = int n \<and> int n < int (2 ^ 31)"
    by (metis of_nat_le_iff of_nat_less_iff)
  then show ?thesis by auto
qed

subsection \<open>float64\<close>

datatype f64 = F64NaN | F64Inf bool | F64Fin bool rat

definition f64_signed :: "bool \<Rightarrow> rat \<Rightarrow> rat" where
  "f64_signed neg r = (if neg then - r else r)"

fun f64_eq :: "f64 \<Rightarrow> f64 \<Rightarrow> bool" where
  "f64_eq (F64Inf a) (F64Inf b) = (a = b)"
| "f64_eq (F64Fin a r) (F64Fin b s) = (f64_signed a r = f64_signed b s)"
| "f64_eq _ _ = False"

fun f64_less :: "f64 \<Rightarrow> f64 \<Rightarrow> bool" where
  "f64_less (F64Inf a) (F64Inf b) = (a \<and> \<not> b)"
| "f64_less (F64Inf a) (F64Fin b s) = a"
| "f64_less (F64Fin a r) (F64Inf b) = (\<not> b)"
| "f64_less (F64Fin a r) (F64Fin b s) = (f64_signed a r < f64_signed b s)"
| "f64_less _ _ = False"

definition f64_less_eq :: "f64 \<Rightarrow> f64 \<Rightarrow> bool" where
  "f64_less_eq a b \<longleftrightarrow> f64_less a b \<or> f64_eq a b"

definition f64_of_int :: "int \<Rightarrow> f64" where
  "f64_of_int i = F64Fin (i < 0) (of_int \<bar>i\<bar>)"

abbreviation f64_zero :: f64 where
  "f64_zero \<equiv> F64Fin False 0"

abbreviation f64_minus_zero :: f64 where
  "f64_minus_zero \<equiv> F64Fin True 0"

lemma f64_signed_of_int: "f64_signed (i < 0) \<bar>of_int i\<bar> = of_int i"
  by (simp add: f64_signed_def)

lemma f64_of_int_eq [go_simps]: "f64_eq (f64_of_int i) (f64_of_int j) \<longleftrightarrow> i = j"
  by (simp add: f64_of_int_def f64_signed_of_int)

lemma f64_of_int_less [go_simps]: "f64_less (f64_of_int i) (f64_of_int j) \<longleftrightarrow> i < j"
  by (simp add: f64_of_int_def f64_signed_of_int)

lemma f64_trichotomy:
  "a \<noteq> F64NaN \<Longrightarrow> b \<noteq> F64NaN \<Longrightarrow> f64_less a b \<or> f64_eq a b \<or> f64_less b a"
  by (cases a; cases b) auto

lemma f64_exclusive:
  "\<not> (f64_less a b \<and> f64_eq a b)" "\<not> (f64_less a b \<and> f64_less b a)"
  by (cases a; cases b; auto)+

lemma f64_NaN_unordered:
  "\<not> f64_eq F64NaN b" "\<not> f64_less F64NaN b" "\<not> f64_less b F64NaN" "\<not> f64_eq b F64NaN"
  by (cases b; simp)+

subsection \<open>Rounding to binary64\<close>

fun ilog2 :: "nat \<Rightarrow> nat" where
  "ilog2 n = (if n < 2 then 0 else Suc (ilog2 (n div 2)))"

declare ilog2.simps [simp del]

definition pow2 :: "int \<Rightarrow> rat" where
  "pow2 k = (if 0 \<le> k then 2 ^ nat k else 1 / 2 ^ nat (- k))"

text \<open>The exponent of a positive rational: \<open>pow2 e \<le> r < pow2 (e + 1)\<close>.\<close>

definition rat_exponent :: "rat \<Rightarrow> int" where
  "rat_exponent r =
     (if 1 \<le> r then int (ilog2 (nat \<lfloor>r\<rfloor>)) else - int (ilog2 (nat (\<lceil>1 / r\<rceil> - 1))) - 1)"

definition round_half_even :: "rat \<Rightarrow> int" where
  "round_half_even x =
     (let f = \<lfloor>x\<rfloor>; d = x - of_int f in
      if d < 1 / 2 then f else if 1 / 2 < d then f + 1 else if even f then f else f + 1)"

definition f64_round :: "bool \<Rightarrow> rat \<Rightarrow> f64" where
  "f64_round neg r =
     (if r = 0 then F64Fin neg 0
      else let k = max (rat_exponent r - 52) (- 1074);
               v = of_int (round_half_even (r / pow2 k)) * pow2 k
           in if 2 ^ 1024 \<le> v then F64Inf neg else F64Fin neg v)"

text \<open>\<open>readFloat\<close> stops accumulating an exponent at 10000.\<close>

definition exponent_digits :: "string \<Rightarrow> nat" where
  "exponent_digits s =
     fold (\<lambda>c e. if e < 10000 then e * 10 + the (digit_value c) else e) s 0"

text \<open>The decimal syntax of \<open>readFloat\<close>: sign, exact magnitude; \<open>None\<close> on bad syntax.\<close>

definition parse_decimal :: "string \<Rightarrow> (bool \<times> rat) option" where
  "parse_decimal s =
     (let neg = (s \<noteq> [] \<and> hd s = CHR ''-'');
          u = (if s \<noteq> [] \<and> (hd s = CHR ''-'' \<or> hd s = CHR ''+'') then tl s else s);
          i = takeWhile is_digit u;
          v = dropWhile is_digit u;
          f = (if v \<noteq> [] \<and> hd v = CHR ''.'' then takeWhile is_digit (tl v) else []);
          w = (if v \<noteq> [] \<and> hd v = CHR ''.'' then dropWhile is_digit (tl v) else v);
          m = (of_nat (the (parse_digits 10 0 (i @ f))) :: rat) / 10 ^ length f
      in if i @ f = [] then None
         else if w = [] then Some (neg, m)
         else if hd w = CHR ''e'' \<or> hd w = CHR ''E'' then
           (let x = tl w;
                eneg = (x \<noteq> [] \<and> hd x = CHR ''-'');
                y = (if x \<noteq> [] \<and> (hd x = CHR ''-'' \<or> hd x = CHR ''+'') then tl x else x)
            in if y = [] \<or> \<not> list_all is_digit y then None
               else if eneg then Some (neg, m / 10 ^ exponent_digits y)
               else Some (neg, m * 10 ^ exponent_digits y))
         else None)"

text \<open>\<open>strconv.ParseFloat(s, 64)\<close>: the value and whether the error is nil; an overflow
  returns an infinity with a range error.\<close>

definition parse_float :: "string \<Rightarrow> (f64 \<times> bool) option" where
  "parse_float s =
     (case parse_decimal s of
        None \<Rightarrow> None
      | Some (neg, r) \<Rightarrow>
          let v = f64_round neg r in Some (v, case v of F64Inf _ \<Rightarrow> False | _ \<Rightarrow> True))"

subsection \<open>Rounding is exact on the integers below 2 to the 53rd\<close>

lemma ilog2_bounds: "0 < n \<Longrightarrow> 2 ^ ilog2 n \<le> n \<and> n < 2 ^ Suc (ilog2 n)"
proof (induction n rule: ilog2.induct)
  case (1 n)
  show ?case
  proof (cases "n < 2")
    case True
    then show ?thesis using "1.prems" by (subst (1 2) ilog2.simps) auto
  next
    case False
    then have "2 ^ ilog2 (n div 2) \<le> n div 2 \<and> n div 2 < 2 ^ Suc (ilog2 (n div 2))"
      using "1.IH" by simp
    moreover have "ilog2 n = Suc (ilog2 (n div 2))"
      using False by (subst ilog2.simps) simp
    ultimately show ?thesis by auto
  qed
qed

lemma f64_round_int:
  assumes "0 < n" and "n < 2 ^ 53"
  shows "f64_round neg (of_nat n) = F64Fin neg (of_nat n)"
proof -
  have e: "rat_exponent (of_nat n) = int (ilog2 n)"
    using assms(1) by (simp add: rat_exponent_def)
  have "(2::nat) ^ ilog2 n < 2 ^ 53"
    using ilog2_bounds [OF assms(1)] assms(2) by linarith
  then have l: "ilog2 n < 53" by (metis power_strict_increasing_iff one_less_numeral_iff semiring_norm(76))
  define k where "k = max (int (ilog2 n) - 52) (- 1074)"
  have k: "k \<le> 0" using l by (simp add: k_def)
  have p: "pow2 k = 1 / 2 ^ nat (- k)" using k by (cases "k = 0") (auto simp: pow2_def)
  have "of_nat n / pow2 k = (of_int (int n * 2 ^ nat (- k)) :: rat)"
    by (simp add: p)
  then have "round_half_even (of_nat n / pow2 k) = int n * 2 ^ nat (- k)"
    unfolding round_half_even_def by (simp only: floor_of_int) simp
  then have v: "of_int (round_half_even (of_nat n / pow2 k)) * pow2 k = (of_nat n :: rat)"
    by (simp add: p)
  have "(of_nat n :: rat) < of_nat (2 ^ 53)" using assms(2) by (simp only: of_nat_less_iff)
  also have "(of_nat (2 ^ 53) :: rat) = 2 ^ 53" by simp
  also have "(2 :: rat) ^ 53 < 2 ^ 1024" by (rule power_strict_increasing) auto
  finally have "\<not> (2 :: rat) ^ 1024 \<le> of_nat n" by simp
  with v assms(1) show ?thesis
    by (simp add: f64_round_def e Let_def k_def [symmetric])
qed

lemma f64_round_sign:
  "\<exists>r. f64_round neg q = F64Fin neg r \<or> f64_round neg q = F64Inf neg"
  by (simp add: f64_round_def Let_def)

end
