(* ===== verification/Expr_Ast.thy ===== *)
theory Expr_Ast
  imports Go_Number
begin

text \<open>
  The syntax tree of expressions (\<open>internal/expression/expr_ast.go\<close>): the node structs as
  one datatype, each with the span that \<open>exprNodeSpan\<close> embeds first and the token fields
  the parser fills in. Every node of the program comes from the parser, so the token
  pointers are never nil and are plain tokens here.
\<close>

record span =
  sp_start :: nat
  sp_end :: nat
  sp_line :: nat
  sp_column :: nat

datatype compare_kind =
    CmpLess | CmpLessEq | CmpGreater | CmpGreaterEq | CmpEq | CmpNotEq

datatype logical_kind = LogicalAnd | LogicalOr

datatype node =
    VariableNode span string token
  | NullNode span token
  | BoolNode span bool token
  | IntNode span int token
  | FloatNode span f64 token
  | StringNode span string token
  | ObjectDerefNode span node string token
  | ArrayDerefNode span node
  | IndexAccessNode span node node
  | NotOpNode span node token
  | CompareOpNode span compare_kind node node
  | LogicalOpNode span logical_kind node node
  | FuncCallNode span string "node list" token

definition IsEqualityOp :: "compare_kind \<Rightarrow> bool" where
  "IsEqualityOp k \<longleftrightarrow> k = CmpEq \<or> k = CmpNotEq"

fun compare_kind_string :: "compare_kind \<Rightarrow> string" where
  "compare_kind_string CmpLess = ''<''"
| "compare_kind_string CmpLessEq = ''<=''"
| "compare_kind_string CmpGreater = ''>''"
| "compare_kind_string CmpGreaterEq = ''>=''"
| "compare_kind_string CmpEq = ''==''"
| "compare_kind_string CmpNotEq = ''!=''"

fun logical_kind_string :: "logical_kind \<Rightarrow> string" where
  "logical_kind_string LogicalAnd = ''&&''"
| "logical_kind_string LogicalOr = ''||''"

text \<open>\<open>Token\<close>: the first token of a node.\<close>

fun node_token :: "node \<Rightarrow> token" where
  "node_token (VariableNode _ _ t) = t"
| "node_token (NullNode _ t) = t"
| "node_token (BoolNode _ _ t) = t"
| "node_token (IntNode _ _ t) = t"
| "node_token (FloatNode _ _ t) = t"
| "node_token (StringNode _ _ t) = t"
| "node_token (ObjectDerefNode _ r _ _) = node_token r"
| "node_token (ArrayDerefNode _ r) = node_token r"
| "node_token (IndexAccessNode _ r _) = node_token r"
| "node_token (NotOpNode _ _ t) = t"
| "node_token (CompareOpNode _ _ l _) = node_token l"
| "node_token (LogicalOpNode _ _ l _) = node_token l"
| "node_token (FuncCallNode _ _ _ t) = t"

fun node_span :: "node \<Rightarrow> span" where
  "node_span (VariableNode s _ _) = s"
| "node_span (NullNode s _) = s"
| "node_span (BoolNode s _ _) = s"
| "node_span (IntNode s _ _) = s"
| "node_span (FloatNode s _ _) = s"
| "node_span (StringNode s _ _) = s"
| "node_span (ObjectDerefNode s _ _ _) = s"
| "node_span (ArrayDerefNode s _) = s"
| "node_span (IndexAccessNode s _ _) = s"
| "node_span (NotOpNode s _ _) = s"
| "node_span (CompareOpNode s _ _ _) = s"
| "node_span (LogicalOpNode s _ _ _) = s"
| "node_span (FuncCallNode s _ _ _) = s"

fun set_span :: "span \<Rightarrow> node \<Rightarrow> node" where
  "set_span s (VariableNode _ n t) = VariableNode s n t"
| "set_span s (NullNode _ t) = NullNode s t"
| "set_span s (BoolNode _ b t) = BoolNode s b t"
| "set_span s (IntNode _ i t) = IntNode s i t"
| "set_span s (FloatNode _ f t) = FloatNode s f t"
| "set_span s (StringNode _ v t) = StringNode s v t"
| "set_span s (ObjectDerefNode _ r p t) = ObjectDerefNode s r p t"
| "set_span s (ArrayDerefNode _ r) = ArrayDerefNode s r"
| "set_span s (IndexAccessNode _ r i) = IndexAccessNode s r i"
| "set_span s (NotOpNode _ r t) = NotOpNode s r t"
| "set_span s (CompareOpNode _ k l r) = CompareOpNode s k l r"
| "set_span s (LogicalOpNode _ k l r) = LogicalOpNode s k l r"
| "set_span s (FuncCallNode _ c as t) = FuncCallNode s c as t"

text \<open>\<open>PropertyName\<close> keeps the source spelling of a dereferenced property.\<close>

definition property_name :: "string \<Rightarrow> token \<Rightarrow> string" where
  "property_name prop tok = tk_value tok"

definition no_span :: span where
  "no_span = \<lparr>sp_start = 0, sp_end = 0, sp_line = 0, sp_column = 0\<rparr>"

text \<open>\<open>ExpressionSpan\<close>: the parser's span, or the first token where none was set.\<close>

definition expression_span :: "node \<Rightarrow> span" where
  "expression_span n =
     (if sp_line (node_span n) \<noteq> 0 then node_span n
      else let t = node_token n in
        \<lparr>sp_start = tk_offset t, sp_end = tk_offset t + length (tk_value t),
         sp_line = tk_line t, sp_column = tk_column t\<rparr>)"

text \<open>
  \<open>visitExprNode\<close> calls its function on entering and on leaving each node, an index before
  its operand. The model returns the calls in their order: node, parent, entering.
\<close>

type_synonym visit_event = "node \<times> node option \<times> bool"

fun visit_expr_node :: "node \<Rightarrow> node option \<Rightarrow> visit_event list" where
  "visit_expr_node n p =
     (n, p, True) #
     (case n of
        ObjectDerefNode _ r _ _ \<Rightarrow> visit_expr_node r (Some n)
      | ArrayDerefNode _ r \<Rightarrow> visit_expr_node r (Some n)
      | IndexAccessNode _ r i \<Rightarrow> visit_expr_node i (Some n) @ visit_expr_node r (Some n)
      | NotOpNode _ r _ \<Rightarrow> visit_expr_node r (Some n)
      | CompareOpNode _ _ l r \<Rightarrow> visit_expr_node l (Some n) @ visit_expr_node r (Some n)
      | LogicalOpNode _ _ l r \<Rightarrow> visit_expr_node l (Some n) @ visit_expr_node r (Some n)
      | FuncCallNode _ _ as _ \<Rightarrow> concat (map (\<lambda>a. visit_expr_node a (Some n)) as)
      | _ \<Rightarrow> []) @
     [(n, p, False)]"

declare visit_expr_node.simps [simp del]

definition visit :: "node \<Rightarrow> visit_event list" where
  "visit n = visit_expr_node n None"

text \<open>The children of a node in source order, and all nodes below it.\<close>

fun children :: "node \<Rightarrow> node list" where
  "children (ObjectDerefNode _ r _ _) = [r]"
| "children (ArrayDerefNode _ r) = [r]"
| "children (IndexAccessNode _ r i) = [r, i]"
| "children (NotOpNode _ r _) = [r]"
| "children (CompareOpNode _ _ l r) = [l, r]"
| "children (LogicalOpNode _ _ l r) = [l, r]"
| "children (FuncCallNode _ _ as _) = as"
| "children _ = []"

lemma children_size [termination_simp]: "c \<in> set (children n) \<Longrightarrow> size c < size n"
  by (cases n) (auto simp: less_Suc_eq_le size_list_estimation' intro!: le_imp_less_Suc)

fun subnodes :: "node \<Rightarrow> node set" where
  "subnodes n = insert n (\<Union>c \<in> set (children n). subnodes c)"

declare subnodes.simps [simp del]

lemma subnodes_self [simp, intro]: "n \<in> subnodes n"
  by (subst subnodes.simps) simp

lemma subnodes_child: "c \<in> set (children n) \<Longrightarrow> m \<in> subnodes c \<Longrightarrow> m \<in> subnodes n"
  by (subst subnodes.simps) auto

lemma node_span_set_span [simp]: "node_span (set_span s n) = s"
  by (cases n) auto

lemma node_token_set_span [simp]: "node_token (set_span s n) = node_token n"
  by (cases n) auto

lemma children_set_span [simp]: "children (set_span s n) = children n"
  by (cases n) auto

lemma set_span_twice [simp]: "set_span s (set_span s' n) = set_span s n"
  by (cases n) auto

text \<open>The visitor enters and leaves exactly the nodes of the tree, each with its parent.\<close>

lemma visit_expr_node_unfold:
  "set (map fst (visit_expr_node n p)) = subnodes n"
proof (induction n arbitrary: p rule: subnodes.induct)
  case (1 n)
  have "set (map fst (visit_expr_node n p))
      = insert n (\<Union>c \<in> set (children n). set (map fst (visit_expr_node c (Some n))))"
    by (subst visit_expr_node.simps) (cases n; auto)
  also have "\<dots> = insert n (\<Union>c \<in> set (children n). subnodes c)"
    using 1 by simp
  also have "\<dots> = subnodes n" by (subst subnodes.simps) simp
  finally show ?case .
qed

end
