(* ===== verification/Expr_Parser.thy ===== *)
theory Expr_Parser
  imports Expr_Ast
begin

text \<open>
  The recursive-descent parser of \<open>internal/expression/expr_parser.go\<close>: the \<open>Parser\<close>
  struct as the record \<open>parser\<close> (which pulls tokens from its lexer one at a time), one
  definition per method. A method that may return nil returns a node option; the outer
  option is the fuel that makes the mutual recursion structural, \<open>None\<close> for "out of fuel".
  \<open>parse_fuel\<close> is enough for every source (\<open>Parser_Total\<close>). \<open>Parser.last\<close> is nil before
  the first \<open>next\<close>, and no method reads it before that; the model starts it at the first
  token.
\<close>

record parser =
  ps_cur :: token
  ps_lexer :: lexer
  ps_err :: "expr_error option"
  ps_last :: token

definition error_at_token :: "finding_kind \<Rightarrow> token \<Rightarrow> msg \<Rightarrow> expr_error" where
  "error_at_token k t m =
     \<lparr>e_message = m, e_offset = tk_offset t, e_end_offset = tk_offset t + length (tk_value t),
      e_line = tk_line t, e_column = tk_column t, e_rule = fk_rule k, e_code = fk_code k\<rparr>"

definition parser_error :: "parse_msg \<Rightarrow> parser \<Rightarrow> parser" where
  "parser_error m p =
     (case ps_err p of
        Some _ \<Rightarrow> p
      | None \<Rightarrow> p\<lparr>ps_err := Some (error_at_token fk_syntax (ps_cur p) (ParseMsg m))\<rparr>)"

definition parser_unexpected :: "string \<Rightarrow> token_kind list \<Rightarrow> parser \<Rightarrow> parser" where
  "parser_unexpected ctx expected p =
     (case ps_err p of
        Some _ \<Rightarrow> p
      | None \<Rightarrow> parser_error (ParseUnexpected (tk_kind (ps_cur p)) ctx expected) p)"

definition parser_next :: "parser \<Rightarrow> token \<times> parser" where
  "parser_next p =
     (case lex_next (ps_lexer p) of (t, l) \<Rightarrow>
        (ps_cur p, p\<lparr>ps_last := ps_cur p, ps_cur := t, ps_lexer := l\<rparr>))"

abbreviation advance :: "parser \<Rightarrow> parser" where
  "advance p \<equiv> snd (parser_next p)"

abbreviation cur_kind :: "parser \<Rightarrow> token_kind" where
  "cur_kind p \<equiv> tk_kind (ps_cur p)"

definition span_between :: "token \<Rightarrow> token \<Rightarrow> span" where
  "span_between start lst =
     \<lparr>sp_start = tk_offset start, sp_end = tk_offset lst + length (tk_value lst),
      sp_line = tk_line start, sp_column = tk_column start\<rparr>"

text \<open>\<open>Parser.node\<close>: the span runs from \<open>start\<close> to the last token eaten.\<close>

definition p_node :: "parser \<Rightarrow> node \<Rightarrow> token \<Rightarrow> node" where
  "p_node p n start = set_span (span_between start (ps_last p)) n"

type_synonym parse_result = "(node option \<times> parser) option"

definition parse_ok :: "node \<Rightarrow> parser \<Rightarrow> parse_result" where
  "parse_ok n p = Some (Some n, p)"

definition parse_nil :: "parser \<Rightarrow> parse_result" where
  "parse_nil p = Some (None, p)"

text \<open>\<open>x := parse(); if x == nil { return nil }\<close>.\<close>

definition parse_bind ::
    "('a option \<times> parser) option \<Rightarrow> ('a \<Rightarrow> parser \<Rightarrow> parse_result) \<Rightarrow> parse_result" where
  "parse_bind r f =
     (case r of
        None \<Rightarrow> None
      | Some (None, p) \<Rightarrow> Some (None, p)
      | Some (Some x, p) \<Rightarrow> f x p)"

lemma parse_bind_simps [simp]:
  "parse_bind None f = None"
  "parse_bind (Some (None, p)) f = Some (None, p)"
  "parse_bind (Some (Some x, p)) f = f x p"
  by (simp_all add: parse_bind_def)

subsection \<open>Literals\<close>

text \<open>\<open>strings.ReplaceAll(s, "''", "'")\<close>.\<close>

fun unescape :: "string \<Rightarrow> string" where
  "unescape [] = []"
| "unescape (c # s) =
     (case s of
        [] \<Rightarrow> [c]
      | d # s' \<Rightarrow>
          if c = CHR 0x27 \<and> d = CHR 0x27 then CHR 0x27 # unescape s' else c # unescape s)"

definition string_literal :: "string \<Rightarrow> string" where
  "string_literal v = unescape (slice v 1 (length v - 1))"

definition parseInt :: "parser \<Rightarrow> parse_result" where
  "parseInt p =
     (let t = ps_cur p in
      case parse_int32 (tk_value t) of
        None \<Rightarrow> parse_nil (parser_error (ParseInvalidInt (tk_value t)) p)
      | Some i \<Rightarrow> let p = advance p in parse_ok (p_node p (IntNode no_span i t) t) p)"

definition parseFloat :: "parser \<Rightarrow> parse_result" where
  "parseFloat p =
     (let t = ps_cur p in
      case parse_float (tk_value t) of
        Some (f, True) \<Rightarrow> let p = advance p in parse_ok (p_node p (FloatNode no_span f t) t) p
      | _ \<Rightarrow> parse_nil (parser_error (ParseInvalidFloat (tk_value t)) p))"

definition parseString :: "parser \<Rightarrow> parse_result" where
  "parseString p =
     (case parser_next p of (t, p) \<Rightarrow>
        parse_ok (p_node p (StringNode no_span (string_literal (tk_value t)) t) t) p)"

text \<open>The keywords of \<open>parseIdent\<close>; a variable's name is lowered.\<close>

definition ident_node :: "token \<Rightarrow> node" where
  "ident_node t =
     (if tk_value t = ''null'' then NullNode no_span t
      else if tk_value t = ''true'' then BoolNode no_span True t
      else if tk_value t = ''false'' then BoolNode no_span False t
      else VariableNode no_span (to_lower (tk_value t)) t)"

fun compare_op_of :: "token_kind \<Rightarrow> compare_kind option" where
  "compare_op_of TokenKindLess = Some CmpLess"
| "compare_op_of TokenKindLessEq = Some CmpLessEq"
| "compare_op_of TokenKindGreater = Some CmpGreater"
| "compare_op_of TokenKindGreaterEq = Some CmpGreaterEq"
| "compare_op_of TokenKindEq = Some CmpEq"
| "compare_op_of TokenKindNotEq = Some CmpNotEq"
| "compare_op_of _ = None"

text \<open>The texts of \<open>unexpected\<close> that hold quotes.\<close>

definition in_quotes :: "string \<Rightarrow> string" where
  "in_quotes s = CHR 0x27 # s @ [CHR 0x27]"

definition where_dot :: string where
  "where_dot = ''object property dereference like '' @ in_quotes ''a.b'' @
     '' or array element dereference like '' @ in_quotes ''a.*''"

definition where_bracket :: string where
  "where_bracket = ''closing bracket '' @ in_quotes '']'' @ '' for index access''"

definition where_nested :: string where
  "where_nested = ''closing '' @ in_quotes '')'' @ '' of nested expression (...)''"

subsection \<open>The recursive descent\<close>

fun parseLogicalOr :: "nat \<Rightarrow> parser \<Rightarrow> parse_result"
  and parseLogicalAnd :: "nat \<Rightarrow> parser \<Rightarrow> parse_result"
  and parseCompareBinOp :: "nat \<Rightarrow> parser \<Rightarrow> parse_result"
  and parsePrefixOp :: "nat \<Rightarrow> parser \<Rightarrow> parse_result"
  and parsePostfixOp :: "nat \<Rightarrow> parser \<Rightarrow> parse_result"
  and postfix_loop :: "nat \<Rightarrow> token \<Rightarrow> node \<Rightarrow> parser \<Rightarrow> parse_result"
  and parsePrimaryExpr :: "nat \<Rightarrow> parser \<Rightarrow> parse_result"
  and parseIdent :: "nat \<Rightarrow> parser \<Rightarrow> parse_result"
  and parse_args :: "nat \<Rightarrow> node list \<Rightarrow> parser \<Rightarrow> (node list option \<times> parser) option"
  and parseNestedExpr :: "nat \<Rightarrow> parser \<Rightarrow> parse_result"
where
  "parseLogicalOr 0 p = None"
| "parseLogicalOr (Suc n) p =
     (let start = ps_cur p in
      parse_bind (parseLogicalAnd n p) (\<lambda>l p.
        if cur_kind p \<noteq> TokenKindOr then parse_ok l p
        else parse_bind (parseLogicalOr n (advance p)) (\<lambda>r p.
          parse_ok (p_node p (LogicalOpNode no_span LogicalOr l r) start) p)))"
| "parseLogicalAnd 0 p = None"
| "parseLogicalAnd (Suc n) p =
     (let start = ps_cur p in
      parse_bind (parseCompareBinOp n p) (\<lambda>l p.
        if cur_kind p \<noteq> TokenKindAnd then parse_ok l p
        else parse_bind (parseLogicalAnd n (advance p)) (\<lambda>r p.
          parse_ok (p_node p (LogicalOpNode no_span LogicalAnd l r) start) p)))"
| "parseCompareBinOp 0 p = None"
| "parseCompareBinOp (Suc n) p =
     (let start = ps_cur p in
      parse_bind (parsePrefixOp n p) (\<lambda>l p.
        case compare_op_of (cur_kind p) of
          None \<Rightarrow> parse_ok l p
        | Some k \<Rightarrow> parse_bind (parseCompareBinOp n (advance p)) (\<lambda>r p.
            parse_ok (p_node p (CompareOpNode no_span k l r) start) p)))"
| "parsePrefixOp 0 p = None"
| "parsePrefixOp (Suc n) p =
     (let t = ps_cur p in
      if tk_kind t \<noteq> TokenKindNot then parsePostfixOp n p
      else parse_bind (parsePrefixOp n (advance p)) (\<lambda>e p.
        parse_ok (p_node p (NotOpNode no_span e t) t) p))"
| "parsePostfixOp 0 p = None"
| "parsePostfixOp (Suc n) p =
     (let start = ps_cur p in
      parse_bind (parsePrimaryExpr n p) (\<lambda>ret p. postfix_loop n start ret p))"
| "postfix_loop 0 start ret p = None"
| "postfix_loop (Suc n) start ret p =
     (if cur_kind p = TokenKindDot then
        (let p = advance p in
         if cur_kind p = TokenKindStar then
           (let p = advance p in
            postfix_loop n start (p_node p (ArrayDerefNode no_span ret) start) p)
         else if cur_kind p = TokenKindIdent then
           (case parser_next p of (t, p) \<Rightarrow>
              postfix_loop n start
                (p_node p (ObjectDerefNode no_span ret (to_lower (tk_value t)) t) start) p)
         else parse_nil (parser_unexpected where_dot
                [TokenKindIdent, TokenKindStar] p))
      else if cur_kind p = TokenKindLeftBracket then
        parse_bind (parseLogicalOr n (advance p)) (\<lambda>idx p.
          if cur_kind p \<noteq> TokenKindRightBracket
          then parse_nil (parser_unexpected where_bracket [TokenKindRightBracket] p)
          else let p = advance p in
            postfix_loop n start (p_node p (IndexAccessNode no_span ret idx) start) p)
      else parse_ok ret p)"
| "parsePrimaryExpr 0 p = None"
| "parsePrimaryExpr (Suc n) p =
     (case cur_kind p of
        TokenKindIdent \<Rightarrow> parseIdent n p
      | TokenKindLeftParen \<Rightarrow> parseNestedExpr n p
      | TokenKindInt \<Rightarrow> parseInt p
      | TokenKindFloat \<Rightarrow> parseFloat p
      | TokenKindString \<Rightarrow> parseString p
      | _ \<Rightarrow> parse_nil (parser_unexpected
               ''variable access, function call, null, bool, int, float or string''
               [TokenKindIdent, TokenKindLeftParen, TokenKindInt, TokenKindFloat, TokenKindString] p))"
| "parseIdent 0 p = None"
| "parseIdent (Suc n) p =
     (case parser_next p of (ident, p) \<Rightarrow>
        if cur_kind p = TokenKindLeftParen then
          (let p = advance p in
           if cur_kind p = TokenKindRightParen then
             (let p = advance p in
              parse_ok (p_node p (FuncCallNode no_span (tk_value ident) [] ident) ident) p)
           else parse_bind (parse_args n [] p) (\<lambda>args p.
             parse_ok (p_node p (FuncCallNode no_span (tk_value ident) args ident) ident) p))
        else parse_ok (p_node p (ident_node ident) ident) p)"
| "parse_args 0 args p = None"
| "parse_args (Suc n) args p =
     (case parseLogicalOr n p of
        None \<Rightarrow> None
      | Some (None, p) \<Rightarrow> Some (None, p)
      | Some (Some arg, p) \<Rightarrow>
          if cur_kind p = TokenKindComma then parse_args n (args @ [arg]) (advance p)
          else if cur_kind p = TokenKindRightParen then Some (Some (args @ [arg]), advance p)
          else Some (None, parser_unexpected ''arguments of function call''
                 [TokenKindComma, TokenKindRightParen] p))"
| "parseNestedExpr 0 p = None"
| "parseNestedExpr (Suc n) p =
     (case parser_next p of (start, p) \<Rightarrow>
        parse_bind (parseLogicalOr n p) (\<lambda>nested p.
          if cur_kind p = TokenKindRightParen
          then (let p = advance p in parse_ok (p_node p nested start) p)
          else parse_nil (parser_unexpected where_nested
                 [TokenKindRightParen] p)))"

subsection \<open>The depth limit and Parse\<close>

text \<open>
  \<open>expressionExceedingDepth\<close>: a depth-first search with an explicit stack; a nested
  \<open>&&\<close> or \<open>||\<close> directly below one of the same kind stays on its parent's level.
\<close>

definition child_depth :: "node \<Rightarrow> nat \<Rightarrow> node \<Rightarrow> nat" where
  "child_depth parent depth child =
     (case (parent, child) of
        (LogicalOpNode _ k _ _, LogicalOpNode _ k' _ _) \<Rightarrow> if k' = k then depth else depth + 1
      | _ \<Rightarrow> depth + 1)"

definition node_weight :: "node \<Rightarrow> nat" where
  "node_weight n = Suc (2 * size n)"

lemma children_weight: "sum_list (map node_weight (children n)) < node_weight n"
proof (cases n)
  case (FuncCallNode s c args t)
  have "sum_list (map node_weight args) \<le> 2 * size_list size args"
    by (induction args) (auto simp: node_weight_def)
  then show ?thesis using FuncCallNode by (simp add: node_weight_def)
qed (simp_all add: node_weight_def)

function exceeding_loop :: "(node \<times> nat) list \<Rightarrow> node option" where
  "exceeding_loop [] = None"
| "exceeding_loop ((n, depth) # stack) =
     (if depth > 50 then Some n
      else exceeding_loop
        (rev (map (\<lambda>c. (c, child_depth n depth c)) (children n)) @ stack))"
  by pat_completeness auto

termination
proof (relation "measure (\<lambda>stack. sum_list (map (node_weight \<circ> fst) stack))")
  fix n :: node and depth and stack :: "(node \<times> nat) list"
  have "sum_list (map (node_weight \<circ> fst) (rev (map (\<lambda>c. (c, child_depth n depth c)) (children n))))
      = sum_list (map node_weight (children n))"
    by (simp add: rev_map [symmetric] comp_def)
  then show "(rev (map (\<lambda>c. (c, child_depth n depth c)) (children n)) @ stack, (n, depth) # stack)
      \<in> measure (\<lambda>stack. sum_list (map (node_weight \<circ> fst) stack))"
    using children_weight [of n] by simp
qed simp

declare exceeding_loop.simps [simp del]

definition expressionExceedingDepth :: "node \<Rightarrow> node option" where
  "expressionExceedingDepth n = exceeding_loop [(n, 1)]"

text \<open>The tokens left after a complete expression, up to the end marker.\<close>

function remaining_kinds :: "lexer \<Rightarrow> token_kind list \<Rightarrow> token_kind list \<times> lexer" where
  "remaining_kinds l ks =
     (case lex_next l of (t, l') \<Rightarrow>
        if tk_kind t = TokenKindEnd then (ks, l') else remaining_kinds l' (ks @ [tk_kind t]))"
  by pat_completeness auto
termination
  by (relation "measure (\<lambda>(l, ks). lex_left l)") (auto dest: lex_next_progress [OF sym])

declare remaining_kinds.simps [simp del]

definition parser_err :: "parser \<Rightarrow> expr_error option" where
  "parser_err p = (case lx_err (ps_lexer p) of Some e \<Rightarrow> Some e | None \<Rightarrow> ps_err p)"

definition parser_init :: "lexer \<Rightarrow> parser" where
  "parser_init l =
     (case lex_next l of (t, l') \<Rightarrow> \<lparr>ps_cur = t, ps_lexer = l', ps_err = None, ps_last = t\<rparr>)"

definition parse_fuel :: "lexer \<Rightarrow> nat" where
  "parse_fuel l = 8 * (lex_left l + 2)"

text \<open>\<open>Parse\<close>: the node or the error, and the lexer afterwards (its \<open>Offset\<close> is read).\<close>

definition parse :: "lexer \<Rightarrow> ((expr_error + node) \<times> lexer) option" where
  "parse l =
     (case parseLogicalOr (parse_fuel l) (parser_init l) of
        None \<Rightarrow> None
      | Some (res, p) \<Rightarrow>
          (case parser_err p of
             Some e \<Rightarrow> Some (Inl e, ps_lexer p)
           | None \<Rightarrow>
               (case res of
                  None \<Rightarrow> None
                | Some ast \<Rightarrow>
                    if cur_kind p \<noteq> TokenKindEnd then
                      (case remaining_kinds (ps_lexer p) [cur_kind p] of (ks, l') \<Rightarrow>
                         Some (Inl (error_at_token fk_syntax (ps_cur p)
                           (ParseMsg (ParseNotAtEnd (length ks) ks))), l'))
                    else (case expressionExceedingDepth ast of
                        Some n \<Rightarrow> Some (Inl (error_at_token fk_syntax (node_token n) (ParseMsg ParseDepth)),
                                     ps_lexer p)
                      | None \<Rightarrow> Some (Inr ast, ps_lexer p)))))"

subsection \<open>Complete expressions in a template\<close>

text \<open>\<open>ParseAssignedExpression\<close>, nil as \<open>None\<close> (also for out of fuel).\<close>

definition parseAssignedExpression :: "string \<Rightarrow> node option" where
  "parseAssignedExpression s =
     (if \<not> has_prefix s ''${{'' then None
      else (case parse (new_lexer (drop 3 s)) of
          Some (Inr e, l) \<Rightarrow> if lex_offset l \<noteq> length s - 3 then None else Some e
        | _ \<Rightarrow> None))"

definition isMappingInsertion :: "string \<Rightarrow> bool" where
  "isMappingInsertion s =
     (case parseAssignedExpression (trim_space s) of
        Some (VariableNode _ _ t) \<Rightarrow> tk_value t = ''insert''
      | _ \<Rightarrow> False)"

definition literalExpressionValue :: "string \<Rightarrow> string option" where
  "literalExpressionValue s =
     (case parseAssignedExpression s of
        Some (StringNode _ v _) \<Rightarrow> Some v
      | _ \<Rightarrow> None)"

end
