(* ===== verification/Parser_Spec.thy ===== *)
theory Parser_Spec
  imports Expr_Parser Lexer_Spec
begin

text \<open>
  What the parser promises: the grammar of GitHub expressions as inductive predicates over
  token lists (with the spans and the trees \<open>expr_parser.go\<close> builds), and the proof that
  the recursive descent returns on every source within \<open>parse_fuel\<close>, either with an error
  or with the tree of a derivation that consumes exactly the tokens before the end marker.
\<close>

subsection \<open>The grammar\<close>

text \<open>A node that covers the tokens \<open>ts\<close>.\<close>

definition covering :: "token list \<Rightarrow> node \<Rightarrow> node" where
  "covering ts n = set_span (span_between (hd ts) (last ts)) n"

abbreviation is_tok :: "token_kind \<Rightarrow> token \<Rightarrow> bool" where
  "is_tok k t \<equiv> tk_kind t = k"

inductive g_prim :: "token list \<Rightarrow> node \<Rightarrow> bool"
  and g_args :: "token list \<Rightarrow> node list \<Rightarrow> bool"
  and g_post :: "token list \<Rightarrow> node \<Rightarrow> bool"
  and g_pre :: "token list \<Rightarrow> node \<Rightarrow> bool"
  and g_cmp :: "token list \<Rightarrow> node \<Rightarrow> bool"
  and g_and :: "token list \<Rightarrow> node \<Rightarrow> bool"
  and g_or :: "token list \<Rightarrow> node \<Rightarrow> bool"
where
  prim_ident: "is_tok TokenKindIdent t \<Longrightarrow> g_prim [t] (covering [t] (ident_node t))"
| prim_call0: "is_tok TokenKindIdent t \<Longrightarrow> is_tok TokenKindLeftParen lp
    \<Longrightarrow> is_tok TokenKindRightParen rp
    \<Longrightarrow> g_prim [t, lp, rp] (covering [t, lp, rp] (FuncCallNode no_span (tk_value t) [] t))"
| prim_call: "is_tok TokenKindIdent t \<Longrightarrow> is_tok TokenKindLeftParen lp \<Longrightarrow> g_args ts args
    \<Longrightarrow> is_tok TokenKindRightParen rp
    \<Longrightarrow> g_prim (t # lp # ts @ [rp])
          (covering (t # lp # ts @ [rp]) (FuncCallNode no_span (tk_value t) args t))"
| prim_int: "is_tok TokenKindInt t \<Longrightarrow> parse_int32 (tk_value t) = Some i
    \<Longrightarrow> g_prim [t] (covering [t] (IntNode no_span i t))"
| prim_float: "is_tok TokenKindFloat t \<Longrightarrow> parse_float (tk_value t) = Some (f, True)
    \<Longrightarrow> g_prim [t] (covering [t] (FloatNode no_span f t))"
| prim_string: "is_tok TokenKindString t
    \<Longrightarrow> g_prim [t] (covering [t] (StringNode no_span (string_literal (tk_value t)) t))"
| prim_paren: "is_tok TokenKindLeftParen lp \<Longrightarrow> g_or ts n \<Longrightarrow> is_tok TokenKindRightParen rp
    \<Longrightarrow> g_prim (lp # ts @ [rp]) (covering (lp # ts @ [rp]) n)"
| args_one: "g_or ts n \<Longrightarrow> g_args ts [n]"
| args_more: "g_args ts args \<Longrightarrow> is_tok TokenKindComma c \<Longrightarrow> g_or us n
    \<Longrightarrow> g_args (ts @ c # us) (args @ [n])"
| post_prim: "g_prim ts n \<Longrightarrow> g_post ts n"
| post_star: "g_post ts n \<Longrightarrow> is_tok TokenKindDot d \<Longrightarrow> is_tok TokenKindStar s
    \<Longrightarrow> g_post (ts @ [d, s]) (covering (ts @ [d, s]) (ArrayDerefNode no_span n))"
| post_prop: "g_post ts n \<Longrightarrow> is_tok TokenKindDot d \<Longrightarrow> is_tok TokenKindIdent t
    \<Longrightarrow> g_post (ts @ [d, t])
          (covering (ts @ [d, t]) (ObjectDerefNode no_span n (to_lower (tk_value t)) t))"
| post_index: "g_post ts n \<Longrightarrow> is_tok TokenKindLeftBracket lb \<Longrightarrow> g_or us i
    \<Longrightarrow> is_tok TokenKindRightBracket rb
    \<Longrightarrow> g_post (ts @ lb # us @ [rb])
          (covering (ts @ lb # us @ [rb]) (IndexAccessNode no_span n i))"
| pre_post: "g_post ts n \<Longrightarrow> g_pre ts n"
| pre_not: "is_tok TokenKindNot t \<Longrightarrow> g_pre ts n
    \<Longrightarrow> g_pre (t # ts) (covering (t # ts) (NotOpNode no_span n t))"
| cmp_pre: "g_pre ts n \<Longrightarrow> g_cmp ts n"
| cmp_op: "g_pre ts l \<Longrightarrow> compare_op_of (tk_kind t) = Some k \<Longrightarrow> g_cmp us r
    \<Longrightarrow> g_cmp (ts @ t # us) (covering (ts @ t # us) (CompareOpNode no_span k l r))"
| and_cmp: "g_cmp ts n \<Longrightarrow> g_and ts n"
| and_op: "g_cmp ts l \<Longrightarrow> is_tok TokenKindAnd t \<Longrightarrow> g_and us r
    \<Longrightarrow> g_and (ts @ t # us) (covering (ts @ t # us) (LogicalOpNode no_span LogicalAnd l r))"
| or_and: "g_and ts n \<Longrightarrow> g_or ts n"
| or_op: "g_and ts l \<Longrightarrow> is_tok TokenKindOr t \<Longrightarrow> g_or us r
    \<Longrightarrow> g_or (ts @ t # us) (covering (ts @ t # us) (LogicalOpNode no_span LogicalOr l r))"

subsection \<open>The token stream of a parser\<close>

text \<open>
  The interface between the parser and its lexer: a current token, a step to the next one,
  and a measure that each step away from a token other than the end marker decreases.
\<close>

locale token_stream =
  fixes cur :: "'p \<Rightarrow> token" and step :: "'p \<Rightarrow> 'p" and left :: "'p \<Rightarrow> nat"
  assumes step_less: "tk_kind (cur p) \<noteq> TokenKindEnd \<Longrightarrow> left (step p) < left p"
begin

fun pull :: "'p \<Rightarrow> token list \<Rightarrow> 'p \<Rightarrow> bool" where
  "pull p [] p' \<longleftrightarrow> p' = p"
| "pull p (t # ts) p' \<longleftrightarrow> t = cur p \<and> tk_kind t \<noteq> TokenKindEnd \<and> pull (step p) ts p'"

lemma pull_append: "pull p (ts @ us) p' \<longleftrightarrow> (\<exists>q. pull p ts q \<and> pull q us p')"
  by (induction ts arbitrary: p) auto

lemma pull_left: "pull p ts p' \<Longrightarrow> left p' + length ts \<le> left p"
proof (induction ts arbitrary: p)
  case (Cons t ts)
  then have "left p' + length ts \<le> left (step p)" by simp
  moreover have "left (step p) < left p" using Cons.prems step_less [of p] by auto
  ultimately show ?case by simp
qed simp

lemma pull_step: "pull p ts q \<Longrightarrow> tk_kind (cur q) \<noteq> TokenKindEnd \<Longrightarrow> pull p (ts @ [cur q]) (step q)"
  by (auto simp: pull_append)

lemma pull_trans: "pull p ts q \<Longrightarrow> pull q us p' \<Longrightarrow> pull p (ts @ us) p'"
  by (auto simp: pull_append)

lemma pull_hd: "pull p ts p' \<Longrightarrow> ts \<noteq> [] \<Longrightarrow> hd ts = cur p"
  by (cases ts) auto

lemma pull_no_end: "pull p ts p' \<Longrightarrow> t \<in> set ts \<Longrightarrow> tk_kind t \<noteq> TokenKindEnd"
  by (induction ts arbitrary: p) auto

text \<open>Two runs of the stream: one is a prefix of the other.\<close>

lemma pull_linear:
  "pull p ts q \<Longrightarrow> pull p us r \<Longrightarrow> length ts \<le> length us \<Longrightarrow> \<exists>vs. us = ts @ vs \<and> pull q vs r"
proof (induction ts arbitrary: p us)
  case (Cons t ts)
  then obtain u us' where us: "us = u # us'" by (cases us) auto
  then show ?case using Cons.IH [of "step p" us'] Cons.prems by auto
qed simp

end

definition tokens_left :: "parser \<Rightarrow> nat" where
  "tokens_left p = lex_left (ps_lexer p) + (if cur_kind p = TokenKindEnd then 0 else 1)"

lemma advance_less:
  assumes "cur_kind p \<noteq> TokenKindEnd"
  shows "tokens_left (advance p) < tokens_left p"
proof -
  obtain t l where nx: "lex_next (ps_lexer p) = (t, l)" by (cases "lex_next (ps_lexer p)")
  then show ?thesis using assms lex_next_progress [OF nx] lex_next_le [OF nx]
    by (cases "tk_kind t = TokenKindEnd") (auto simp: tokens_left_def parser_next_def)
qed

interpretation ps: token_stream ps_cur advance tokens_left
  by unfold_locales (rule advance_less)

lemma parser_next_pair:
  "(case parser_next p of (t, q) \<Rightarrow> f t q) = f (ps_cur p) (advance p)"
  by (simp add: parser_next_def split: prod.splits)

lemma advance_fields [simp]:
  "ps_err (advance p) = ps_err p" "ps_last (advance p) = ps_cur p"
  by (simp_all add: parser_next_def split: prod.splits)

lemma pull_fields:
  "ps.pull p ts p' \<Longrightarrow> ps_err p' = ps_err p \<and> (ts \<noteq> [] \<longrightarrow> ps_last p' = last ts)"
proof (induction ts arbitrary: p)
  case (Cons t ts)
  then show ?case using Cons.IH [of "advance p"] by (cases ts) auto
qed simp

lemma p_node_covering:
  "ps.pull p ts p' \<Longrightarrow> ts \<noteq> [] \<Longrightarrow> p_node p' n (ps_cur p) = covering ts n"
  using pull_fields [of p ts p'] ps.pull_hd [of p ts p'] by (simp add: p_node_def covering_def)


subsection \<open>Every run of the descent\<close>

text \<open>
  A run that started at \<open>p0\<close> delivers a phrase of \<open>g\<close>: it has not run out of fuel, a nil
  result leaves an error behind, and a node is a derivation of the tokens pulled since.
\<close>

definition delivers ::
    "(token list \<Rightarrow> 'a \<Rightarrow> bool) \<Rightarrow> parser \<Rightarrow> ('a option \<times> parser) option \<Rightarrow> bool" where
  "delivers g p0 r \<longleftrightarrow>
     (case r of
        None \<Rightarrow> False
      | Some (None, p) \<Rightarrow> ps_err p \<noteq> None
      | Some (Some x, p) \<Rightarrow> \<exists>ts. g ts x \<and> ts \<noteq> [] \<and> ps.pull p0 ts p)"

lemma parser_unexpected_err: "ps_err (parser_unexpected c ks p) \<noteq> None"
  by (auto simp: parser_unexpected_def parser_error_def split: option.splits)

lemma parser_error_err: "ps_err (parser_error m p) \<noteq> None"
  by (auto simp: parser_error_def split: option.splits)

lemma delivers_unexpected: "delivers g p0 (parse_nil (parser_unexpected c ks p))"
  by (simp add: delivers_def parse_nil_def parser_unexpected_err [simplified])

lemma delivers_error: "delivers g p0 (parse_nil (parser_error m p))"
  by (simp add: delivers_def parse_nil_def parser_error_err [simplified])

lemma delivers_ok: "g ts x \<Longrightarrow> ts \<noteq> [] \<Longrightarrow> ps.pull p0 ts p \<Longrightarrow> delivers g p0 (parse_ok x p)"
  by (auto simp: delivers_def parse_ok_def)

lemma delivers_node:
  assumes "ps.pull p0 ts p" and "ts \<noteq> []" and "g ts (covering ts n)"
  shows "delivers g p0 (parse_ok (p_node p n (ps_cur p0)) p)"
  using delivers_ok [of g, OF assms(3,2,1)] p_node_covering [OF assms(1,2)] by simp

lemma delivers_bind:
  assumes "delivers g p r"
    and "\<And>x q ts. g ts x \<Longrightarrow> ts \<noteq> [] \<Longrightarrow> ps.pull p ts q \<Longrightarrow> tokens_left q < tokens_left p
           \<Longrightarrow> delivers h p0 (f x q)"
  shows "delivers h p0 (parse_bind r f)"
proof -
  obtain v q where r: "r = Some (v, q)"
    using assms(1) by (cases r) (auto simp: delivers_def)
  show ?thesis
  proof (cases v)
    case None
    then show ?thesis using assms(1) r by (simp add: delivers_def)
  next
    case (Some x)
    then obtain ts where ts: "g ts x" "ts \<noteq> []" "ps.pull p ts q"
      using assms(1) r by (auto simp: delivers_def)
    then have "tokens_left q < tokens_left p"
      using ps.pull_left [OF ts(3)] by (cases ts) auto
    then show ?thesis using assms(2) [OF ts] r Some by simp
  qed
qed

lemma delivers_mono:
  "delivers g p r \<Longrightarrow> (\<And>ts x. g ts x \<Longrightarrow> h ts x) \<Longrightarrow> delivers h p r"
  by (fastforce simp: delivers_def split: option.splits prod.splits)

text \<open>The same from a later point: the phrase extends the tokens \<open>us\<close> pulled before.\<close>

lemma delivers_after:
  assumes "ps.pull p0 us p" and "delivers g p r"
    and "\<And>ts x. g ts x \<Longrightarrow> ts \<noteq> [] \<Longrightarrow> h (us @ ts) x"
  shows "delivers h p0 r"
  using assms by (fastforce simp: delivers_def ps.pull_append split: option.splits prod.splits)

text \<open>\<open>f\<close> with fuel \<open>n\<close> delivers \<open>g\<close> wherever \<open>8 * tokens_left p + k\<close> is at most \<open>n\<close>.\<close>

definition descends ::
    "nat \<Rightarrow> nat \<Rightarrow> (token list \<Rightarrow> 'a \<Rightarrow> bool) \<Rightarrow> (nat \<Rightarrow> parser \<Rightarrow> ('a option \<times> parser) option) \<Rightarrow> bool"
  where
  "descends n k g f \<longleftrightarrow> (\<forall>p. 8 * tokens_left p + k \<le> n \<longrightarrow> delivers g p (f n p))"

lemma descendsD: "descends n k g f \<Longrightarrow> 8 * tokens_left p + k \<le> n \<Longrightarrow> delivers g p (f n p)"
  by (simp add: descends_def)

lemma advance_lessI: "cur_kind p = k \<Longrightarrow> k \<noteq> TokenKindEnd \<Longrightarrow> tokens_left (advance p) < tokens_left p"
  using advance_less by blast

lemma pull_one:
  "ps.pull p ts q \<Longrightarrow> cur_kind q \<noteq> TokenKindEnd \<Longrightarrow> ps.pull (advance q) us q'
   \<Longrightarrow> ps.pull p (ts @ ps_cur q # us) q'"
  by (auto simp: ps.pull_append)

text \<open>The three layers of binary operators have one form.\<close>

definition binary_layer ::
    "(nat \<Rightarrow> parser \<Rightarrow> parse_result) \<Rightarrow> (nat \<Rightarrow> parser \<Rightarrow> parse_result)
     \<Rightarrow> (token_kind \<Rightarrow> 'c option) \<Rightarrow> ('c \<Rightarrow> node \<Rightarrow> node \<Rightarrow> node) \<Rightarrow> bool" where
  "binary_layer f f_sub oper mk \<longleftrightarrow>
     (\<forall>n p. f (Suc n) p = parse_bind (f_sub n p) (\<lambda>l q.
        case oper (cur_kind q) of
          None \<Rightarrow> parse_ok l q
        | Some c \<Rightarrow> parse_bind (f n (advance q)) (\<lambda>r q'.
            parse_ok (p_node q' (mk c l r) (ps_cur p)) q')))"

lemma binary_layerD:
  "binary_layer f f_sub oper mk \<Longrightarrow> f (Suc n) p = parse_bind (f_sub n p) (\<lambda>l q.
      case oper (cur_kind q) of
        None \<Rightarrow> parse_ok l q
      | Some c \<Rightarrow> parse_bind (f n (advance q)) (\<lambda>r q'.
          parse_ok (p_node q' (mk c l r) (ps_cur p)) q'))"
  by (simp add: binary_layer_def)

definition only :: "token_kind \<Rightarrow> token_kind \<Rightarrow> unit option" where
  "only k k' = (if k' = k then Some () else None)"

lemma only_iff [simp]: "only k k' = None \<longleftrightarrow> k' \<noteq> k" "only k k' = Some u \<longleftrightarrow> k' = k"
  by (auto simp: only_def)

lemma or_layer:
  "binary_layer parseLogicalOr parseLogicalAnd (only TokenKindOr)
     (\<lambda>_. LogicalOpNode no_span LogicalOr)"
  by (auto simp: binary_layer_def only_def Let_def intro!: arg_cong2 [where f = parse_bind] ext)

lemma and_layer:
  "binary_layer parseLogicalAnd parseCompareBinOp (only TokenKindAnd)
     (\<lambda>_. LogicalOpNode no_span LogicalAnd)"
  by (auto simp: binary_layer_def only_def Let_def intro!: arg_cong2 [where f = parse_bind] ext)

lemma compare_layer:
  "binary_layer parseCompareBinOp parsePrefixOp compare_op_of (CompareOpNode no_span)"
  by (simp add: binary_layer_def Let_def)

text \<open>The three right-associative layers of binary operators.\<close>

lemma binary_step:
  assumes sub: "descends n k g_sub f_sub" and self: "descends n (Suc k) g f"
    and f: "binary_layer f f_sub oper mk"
    and no_end: "oper TokenKindEnd = None"
    and up: "\<And>ts x. g_sub ts x \<Longrightarrow> g ts x"
    and bin: "\<And>ts l t c us r. g_sub ts l \<Longrightarrow> oper (tk_kind t) = Some c \<Longrightarrow> g us r
      \<Longrightarrow> g (ts @ t # us) (covering (ts @ t # us) (mk c l r))"
  shows "descends (Suc n) (Suc k) g f"
  unfolding descends_def
proof (intro allI impI)
  fix p
  assume n: "8 * tokens_left p + Suc k \<le> Suc n"
  show "delivers g p (f (Suc n) p)"
    unfolding binary_layerD [OF f]
  proof (rule delivers_bind [OF descendsD [OF sub]], goal_cases)
    case 1
    show ?case using n by simp
  next
    case l: (2 l q ts)
    show ?case
    proof (cases "oper (cur_kind q)")
      case None
      then show ?thesis using l by (simp add: delivers_ok [OF up])
    next
      case (Some c)
      then have ne: "cur_kind q \<noteq> TokenKindEnd" using no_end by auto
      have "delivers g p (parse_bind (f n (advance q)) (\<lambda>r q'.
          parse_ok (p_node q' (mk c l r) (ps_cur p)) q'))"
      proof (rule delivers_bind [OF descendsD [OF self]], goal_cases)
        case 1
        show ?case using n l(4) advance_less [OF ne] by simp
      next
        case r: (2 r q' us)
        show ?case
          by (rule delivers_node [where g = g, OF pull_one [OF l(3) ne r(3)] _ bin [OF l(1) Some r(1)]]) simp
      qed
      then show ?thesis using Some by simp
    qed
  qed
qed

lemma logical_or_step:
  assumes "descends n 6 g_and parseLogicalAnd" and "descends n 7 g_or parseLogicalOr"
  shows "descends (Suc n) 7 g_or parseLogicalOr"
  using binary_step [OF assms(1) _ or_layer, of g_or] assms(2) by (auto intro: or_and or_op)

lemma logical_and_step:
  assumes "descends n 5 g_cmp parseCompareBinOp" and "descends n 6 g_and parseLogicalAnd"
  shows "descends (Suc n) 6 g_and parseLogicalAnd"
  using binary_step [OF assms(1) _ and_layer, of g_and] assms(2) by (auto intro: and_cmp and_op)

lemma compare_step:
  assumes "descends n 4 g_pre parsePrefixOp" and "descends n 5 g_cmp parseCompareBinOp"
  shows "descends (Suc n) 5 g_cmp parseCompareBinOp"
  using binary_step [OF assms(1) _ compare_layer, of g_cmp] assms(2)
  by (auto intro: cmp_pre cmp_op)

lemma prefix_step:
  assumes "descends n 3 g_post parsePostfixOp" and "descends n 4 g_pre parsePrefixOp"
  shows "descends (Suc n) 4 g_pre parsePrefixOp"
  unfolding descends_def
proof (intro allI impI)
  fix p
  assume n: "8 * tokens_left p + 4 \<le> Suc n"
  show "delivers g_pre p (parsePrefixOp (Suc n) p)"
  proof (cases "cur_kind p = TokenKindNot")
    case True
    then have ne: "cur_kind p \<noteq> TokenKindEnd" by simp
    have "delivers g_pre p (parse_bind (parsePrefixOp n (advance p)) (\<lambda>e q.
        parse_ok (p_node q (NotOpNode no_span e (ps_cur p)) (ps_cur p)) q))"
    proof (rule delivers_bind [OF descendsD [OF assms(2)]], goal_cases)
      case 1
      show ?case using n advance_less [OF ne] by simp
    next
      case (2 e q us)
      have "ps.pull p (ps_cur p # us) q" using pull_one [of p "[]"] ne 2(3) by simp
      then show ?case
        by (rule delivers_node) (use 2(1) True in \<open>auto intro: pre_not\<close>)
    qed
    then show ?thesis using True by (simp add: Let_def)
  next
    case False
    have "delivers g_post p (parsePostfixOp n p)"
      using descendsD [OF assms(1)] n by simp
    then show ?thesis using False by (auto intro: delivers_mono pre_post)
  qed
qed


lemma nested_step:
  assumes "descends n 7 g_or parseLogicalOr"
  shows "\<forall>p. 8 * tokens_left p + 1 \<le> Suc n \<and> cur_kind p = TokenKindLeftParen
    \<longrightarrow> delivers g_prim p (parseNestedExpr (Suc n) p)"
proof (intro allI impI, elim conjE)
  fix p
  assume n: "8 * tokens_left p + 1 \<le> Suc n" and k: "cur_kind p = TokenKindLeftParen"
  then have ne: "cur_kind p \<noteq> TokenKindEnd" by simp
  have "delivers g_prim p (parse_bind (parseLogicalOr n (advance p)) (\<lambda>nested q.
      if cur_kind q = TokenKindRightParen
      then (let q = advance q in parse_ok (p_node q nested (ps_cur p)) q)
      else parse_nil (parser_unexpected where_nested [TokenKindRightParen] q)))"
  proof (rule delivers_bind [OF descendsD [OF assms]], goal_cases)
    case 1
    show ?case using n advance_less [OF ne] by simp
  next
    case (2 x q us)
    show ?case
    proof (cases "cur_kind q = TokenKindRightParen")
      case True
      have "ps.pull p (ps_cur p # us) q" using pull_one [of p "[]"] ne 2(3) by simp
      then have "ps.pull p ((ps_cur p # us) @ ps_cur q # []) (advance q)"
        by (rule pull_one) (simp_all add: True)
      then have all: "ps.pull p (ps_cur p # us @ [ps_cur q]) (advance q)" by simp
      show ?thesis
        using True delivers_node [where g = g_prim, OF all _ prim_paren [OF k 2(1) True]]
        by (simp add: Let_def)
    qed (simp add: delivers_unexpected)
  qed
  then show "delivers g_prim p (parseNestedExpr (Suc n) p)" by (simp add: parser_next_pair)
qed

lemma args_step:
  assumes or: "descends n 7 g_or parseLogicalOr"
    and args: "\<forall>p0 us as p. 8 * tokens_left p + 8 \<le> n \<and> ps.pull p0 us p
      \<and> (as = [] \<and> us = [] \<or> (\<exists>ts c. us = ts @ [c] \<and> g_args ts as \<and> is_tok TokenKindComma c))
      \<longrightarrow> delivers (\<lambda>ts as. \<exists>us rp. ts = us @ [rp] \<and> g_args us as \<and> is_tok TokenKindRightParen rp)
            p0 (parse_args n as p)"
    and n: "8 * tokens_left p + 8 \<le> Suc n" and us: "ps.pull p0 us p"
    and as: "as = [] \<and> us = [] \<or> (\<exists>ts c. us = ts @ [c] \<and> g_args ts as \<and> is_tok TokenKindComma c)"
  shows "delivers (\<lambda>ts as. \<exists>us rp. ts = us @ [rp] \<and> g_args us as \<and> is_tok TokenKindRightParen rp)
      p0 (parse_args (Suc n) as p)"
proof -
  have d: "delivers g_or p (parseLogicalOr n p)" using descendsD [OF or] n by simp
  then obtain v q where r: "parseLogicalOr n p = Some (v, q)"
    by (cases "parseLogicalOr n p") (auto simp: delivers_def)
  show ?thesis
  proof (cases v)
    case None
    then show ?thesis using d r by (simp add: delivers_def)
  next
    case (Some x)
    then obtain ts where ts: "g_or ts x" "ts \<noteq> []" "ps.pull p ts q"
      using d r by (auto simp: delivers_def)
    have le: "tokens_left q \<le> tokens_left p" using ps.pull_left [OF ts(3)] by simp
    have all: "ps.pull p0 (us @ ts) q" using ps.pull_trans [OF us ts(3)] .
    have ga: "g_args (us @ ts) (as @ [x])"
      using as ts(1) by (auto intro: args_one args_more)
    consider (comma) "cur_kind q = TokenKindComma" | (paren) "cur_kind q = TokenKindRightParen"
      | (other) "cur_kind q \<noteq> TokenKindComma" "cur_kind q \<noteq> TokenKindRightParen" by blast
    then show ?thesis
    proof cases
      case comma
      have "tokens_left (advance q) < tokens_left q" by (rule advance_lessI [OF comma]) simp
      then have "8 * tokens_left (advance q) + 8 \<le> n" using le n by simp
      moreover have "ps.pull p0 ((us @ ts) @ [ps_cur q]) (advance q)"
        by (rule ps.pull_step [OF all]) (simp add: comma)
      ultimately have "delivers
          (\<lambda>ts as. \<exists>us rp. ts = us @ [rp] \<and> g_args us as \<and> is_tok TokenKindRightParen rp)
          p0 (parse_args n (as @ [x]) (advance q))"
        using args ga comma by blast
      then show ?thesis using r Some comma by simp
    next
      case paren
      have "ps.pull p0 ((us @ ts) @ [ps_cur q]) (advance q)"
        by (rule ps.pull_step [OF all]) (simp add: paren)
      then show ?thesis using r Some paren ga by (fastforce simp: delivers_def)
    next
      case other
      then show ?thesis using r Some parser_unexpected_err by (simp add: delivers_def)
    qed
  qed
qed


lemma pull_cur:
  "cur_kind p \<noteq> TokenKindEnd \<Longrightarrow> ps.pull p [ps_cur p] (advance p)"
  by simp

lemma ident_step:
  assumes args: "\<forall>p0 us as p. 8 * tokens_left p + 8 \<le> n \<and> ps.pull p0 us p
      \<and> (as = [] \<and> us = [] \<or> (\<exists>ts c. us = ts @ [c] \<and> g_args ts as \<and> is_tok TokenKindComma c))
      \<longrightarrow> delivers (\<lambda>ts as. \<exists>us rp. ts = us @ [rp] \<and> g_args us as \<and> is_tok TokenKindRightParen rp)
            p0 (parse_args n as p)"
    and n: "8 * tokens_left p + 1 \<le> Suc n" and k: "cur_kind p = TokenKindIdent"
  shows "delivers g_prim p (parseIdent (Suc n) p)"
proof (cases "cur_kind (advance p) = TokenKindLeftParen")
  case False
  have "ps.pull p [ps_cur p] (advance p)" using pull_cur [of p] k by simp
  then have "delivers g_prim p
      (parse_ok (p_node (advance p) (ident_node (ps_cur p)) (ps_cur p)) (advance p))"
    by (rule delivers_node) (use k in \<open>auto intro: prim_ident\<close>)
  then show ?thesis using False by (simp add: parser_next_pair)
next
  case True
  define q where "q = advance (advance p)"
  have two: "ps.pull p [ps_cur p, ps_cur (advance p)] q" using k True by (simp add: q_def)
  have less: "tokens_left q + 2 \<le> tokens_left p" using ps.pull_left [OF two] by simp
  show ?thesis
  proof (cases "cur_kind q = TokenKindRightParen")
    case rp: True
    have "ps.pull p ([ps_cur p, ps_cur (advance p)] @ [ps_cur q]) (advance q)"
      by (rule ps.pull_step [OF two]) (simp add: rp)
    then have all: "ps.pull p [ps_cur p, ps_cur (advance p), ps_cur q] (advance q)"
      by (simp add: q_def)
    show ?thesis
      using delivers_node [where g = g_prim, OF all _ prim_call0 [OF k True rp]] True rp
      by (simp add: parser_next_pair q_def Let_def)
  next
    case rp: False
    have "delivers g_prim p (parse_bind (parse_args n [] q) (\<lambda>args q'.
        parse_ok (p_node q' (FuncCallNode no_span (tk_value (ps_cur p)) args (ps_cur p)) (ps_cur p)) q'))"
    proof (rule delivers_bind [where g = "\<lambda>ts as. \<exists>us rp. ts = us @ [rp] \<and> g_args us as
        \<and> is_tok TokenKindRightParen rp" and p = q], goal_cases)
      case 1
      show ?case using args less n by (auto intro!: args [rule_format])
    next
      case (2 as q' ts)
      then obtain us r where us: "ts = us @ [r]" "g_args us as" "is_tok TokenKindRightParen r"
        by blast
      have "ps.pull p ([ps_cur p, ps_cur (advance p)] @ us @ [r]) q'"
        using ps.pull_trans [OF two 2(3)] us by simp
      then have all: "ps.pull p (ps_cur p # ps_cur (advance p) # us @ [r]) q'" by simp
      show ?case
        using delivers_node [where g = g_prim, OF all _ prim_call [OF k True us(2,3)]] by simp
    qed
    then show ?thesis using True rp by (simp add: parser_next_pair q_def)
  qed
qed

lemma primary_step:
  assumes "\<forall>p. 8 * tokens_left p + 1 \<le> n \<and> cur_kind p = TokenKindIdent
      \<longrightarrow> delivers g_prim p (parseIdent n p)"
    and "\<forall>p. 8 * tokens_left p + 1 \<le> n \<and> cur_kind p = TokenKindLeftParen
      \<longrightarrow> delivers g_prim p (parseNestedExpr n p)"
  shows "descends (Suc n) 2 g_prim parsePrimaryExpr"
  unfolding descends_def
proof (intro allI impI)
  fix p
  assume n: "8 * tokens_left p + 2 \<le> Suc n"
  have one: "ps.pull p [ps_cur p] (advance p)" if "cur_kind p \<noteq> TokenKindEnd"
    using pull_cur [OF that] .
  show "delivers g_prim p (parsePrimaryExpr (Suc n) p)"
  proof (cases "cur_kind p")
    case TokenKindInt
    show ?thesis
    proof (cases "parse_int32 (tk_value (ps_cur p))")
      case (Some i)
      then show ?thesis
        using delivers_node [where g = g_prim, OF one _ prim_int [OF TokenKindInt Some]] TokenKindInt
        by (simp add: parseInt_def Let_def)
    qed (simp add: TokenKindInt parseInt_def delivers_error)
  next
    case TokenKindFloat
    show ?thesis
    proof (cases "\<exists>f. parse_float (tk_value (ps_cur p)) = Some (f, True)")
      case True
      then obtain f where f: "parse_float (tk_value (ps_cur p)) = Some (f, True)" by blast
      then show ?thesis
        using delivers_node [where g = g_prim, OF one _ prim_float [OF TokenKindFloat f]]
          TokenKindFloat
        by (simp add: parseFloat_def Let_def)
    next
      case False
      then show ?thesis using TokenKindFloat
        by (auto simp: parseFloat_def Let_def delivers_error split: option.splits prod.splits bool.splits)
    qed
  next
    case TokenKindString
    then show ?thesis
      using delivers_node [where g = g_prim, OF one _ prim_string [OF TokenKindString]]
      by (simp add: parseString_def parser_next_pair)
  qed (use assms n in \<open>simp_all add: delivers_unexpected\<close>)
qed


text \<open>The loop of \<open>parsePostfixOp\<close>, started after the phrase \<open>us\<close> with the node \<open>ret\<close>.\<close>

abbreviation postfix_ok :: "nat \<Rightarrow> bool" where
  "postfix_ok n \<equiv> \<forall>p0 us ret p. 8 * tokens_left p + 1 \<le> n \<and> ps.pull p0 us p \<and> us \<noteq> []
     \<and> g_post us ret \<longrightarrow> delivers g_post p0 (postfix_loop n (ps_cur p0) ret p)"

lemma postfix_loop_step:
  assumes loop: "postfix_ok n" and or: "descends n 7 g_or parseLogicalOr"
    and n: "8 * tokens_left p + 1 \<le> Suc n" and us: "ps.pull p0 us p" "us \<noteq> []" "g_post us ret"
  shows "delivers g_post p0 (postfix_loop (Suc n) (ps_cur p0) ret p)"
proof -
  consider (dot) "cur_kind p = TokenKindDot" | (bracket) "cur_kind p = TokenKindLeftBracket"
    | (other) "cur_kind p \<noteq> TokenKindDot" "cur_kind p \<noteq> TokenKindLeftBracket" by blast
  then show ?thesis
  proof cases
    case dot
    have le: "tokens_left (advance p) < tokens_left p" by (rule advance_lessI [OF dot]) simp
    have one: "ps.pull p0 (us @ [ps_cur p]) (advance p)"
      by (rule ps.pull_step [OF us(1)]) (simp add: dot)
    have two: "ps.pull p0 (us @ [ps_cur p, ps_cur (advance p)]) (advance (advance p))"
      if "cur_kind (advance p) \<noteq> TokenKindEnd"
      using ps.pull_step [OF one that] by simp
    have node: "delivers g_post p0 (postfix_loop n (ps_cur p0)
        (p_node (advance (advance p)) m (ps_cur p0)) (advance (advance p)))"
      if "cur_kind (advance p) \<noteq> TokenKindEnd"
        and g: "g_post (us @ [ps_cur p, ps_cur (advance p)])
                 (covering (us @ [ps_cur p, ps_cur (advance p)]) m)" for m
    proof -
      have "tokens_left (advance (advance p)) < tokens_left (advance p)"
        using that(1) by (rule advance_less)
      then show ?thesis
        using loop two [OF that(1)] g n le p_node_covering [OF two [OF that(1)], of m]
        by (auto intro!: loop [rule_format])
    qed
    consider (star) "cur_kind (advance p) = TokenKindStar"
      | (property) "cur_kind (advance p) = TokenKindIdent"
      | (bad) "cur_kind (advance p) \<noteq> TokenKindStar" "cur_kind (advance p) \<noteq> TokenKindIdent" by blast
    then show ?thesis
    proof cases
      case star
      then show ?thesis using node [OF _ post_star [OF us(3) dot star]] dot
        by (simp add: Let_def)
    next
      case property
      then show ?thesis using node [OF _ post_prop [OF us(3) dot property]] dot
        by (simp add: Let_def parser_next_pair)
    next
      case bad
      then show ?thesis using dot by (simp add: Let_def delivers_unexpected)
    qed
  next
    case bracket
    then have ne: "cur_kind p \<noteq> TokenKindEnd" by simp
    have "delivers g_post p0 (parse_bind (parseLogicalOr n (advance p)) (\<lambda>idx p.
          if cur_kind p \<noteq> TokenKindRightBracket
          then parse_nil (parser_unexpected where_bracket [TokenKindRightBracket] p)
          else let p = advance p in
            postfix_loop n (ps_cur p0) (p_node p (IndexAccessNode no_span ret idx) (ps_cur p0)) p))"
    proof (rule delivers_bind [OF descendsD [OF or]], goal_cases)
      case 1
      show ?case using n advance_less [OF ne] by simp
    next
      case (2 i q vs)
      show ?case
      proof (cases "cur_kind q = TokenKindRightBracket")
        case True
        have "ps.pull p0 (us @ ps_cur p # vs) q" by (rule pull_one [OF us(1) ne 2(3)])
        then have "ps.pull p0 ((us @ ps_cur p # vs) @ [ps_cur q]) (advance q)"
          by (rule ps.pull_step) (simp add: True)
        then have all: "ps.pull p0 (us @ ps_cur p # vs @ [ps_cur q]) (advance q)" by simp
        have "tokens_left (advance q) < tokens_left q" by (rule advance_lessI [OF True]) simp
        then have "8 * tokens_left (advance q) + 1 \<le> n" using 2(4) n advance_less [OF ne] by simp
        then show ?thesis
          using True loop all post_index [OF us(3) bracket 2(1) True]
            p_node_covering [OF all, of "IndexAccessNode no_span ret i"]
          by (auto simp: Let_def intro!: loop [rule_format])
      qed (simp add: delivers_unexpected)
    qed
    then show ?thesis using bracket by simp
  next
    case other
    then show ?thesis using us by (simp add: delivers_ok)
  qed
qed

lemma postfix_step:
  assumes "descends n 2 g_prim parsePrimaryExpr" and "postfix_ok n"
  shows "descends (Suc n) 3 g_post parsePostfixOp"
  unfolding descends_def
proof (intro allI impI)
  fix p
  assume n: "8 * tokens_left p + 3 \<le> Suc n"
  have "delivers g_post p (parse_bind (parsePrimaryExpr n p) (postfix_loop n (ps_cur p)))"
    by (rule delivers_bind [OF descendsD [OF assms(1)]])
      (use n in \<open>auto intro!: assms(2) [rule_format] intro: post_prim\<close>)
  then show "delivers g_post p (parsePostfixOp (Suc n) p)" by (simp add: Let_def)
qed

abbreviation args_ok :: "nat \<Rightarrow> bool" where
  "args_ok n \<equiv> \<forall>p0 us as p. 8 * tokens_left p + 8 \<le> n \<and> ps.pull p0 us p
      \<and> (as = [] \<and> us = [] \<or> (\<exists>ts c. us = ts @ [c] \<and> g_args ts as \<and> is_tok TokenKindComma c))
      \<longrightarrow> delivers (\<lambda>ts as. \<exists>us rp. ts = us @ [rp] \<and> g_args us as \<and> is_tok TokenKindRightParen rp)
            p0 (parse_args n as p)"

text \<open>All methods of the descent, by induction on the fuel.\<close>

lemma descent:
  "descends n 7 g_or parseLogicalOr \<and> descends n 6 g_and parseLogicalAnd
   \<and> descends n 5 g_cmp parseCompareBinOp \<and> descends n 4 g_pre parsePrefixOp
   \<and> descends n 3 g_post parsePostfixOp \<and> descends n 2 g_prim parsePrimaryExpr
   \<and> (\<forall>p. 8 * tokens_left p + 1 \<le> n \<and> cur_kind p = TokenKindIdent
        \<longrightarrow> delivers g_prim p (parseIdent n p))
   \<and> (\<forall>p. 8 * tokens_left p + 1 \<le> n \<and> cur_kind p = TokenKindLeftParen
        \<longrightarrow> delivers g_prim p (parseNestedExpr n p))
   \<and> postfix_ok n \<and> args_ok n"
proof (induction n)
  case 0
  show ?case by (simp add: descends_def)
next
  case (Suc n)
  then have or: "descends n 7 g_or parseLogicalOr" and ao: "descends n 6 g_and parseLogicalAnd"
    and co: "descends n 5 g_cmp parseCompareBinOp" and pre: "descends n 4 g_pre parsePrefixOp"
    and post: "descends n 3 g_post parsePostfixOp" and prim: "descends n 2 g_prim parsePrimaryExpr"
    and ident: "\<forall>p. 8 * tokens_left p + 1 \<le> n \<and> cur_kind p = TokenKindIdent
        \<longrightarrow> delivers g_prim p (parseIdent n p)"
    and nested: "\<forall>p. 8 * tokens_left p + 1 \<le> n \<and> cur_kind p = TokenKindLeftParen
        \<longrightarrow> delivers g_prim p (parseNestedExpr n p)"
    and loop: "postfix_ok n" and args: "args_ok n" by blast+
  have "postfix_ok (Suc n)" using postfix_loop_step [OF loop or] by blast
  moreover have "args_ok (Suc n)" using args_step [OF or args] by blast
  ultimately show ?case
    using logical_or_step [OF ao or] logical_and_step [OF co ao] compare_step [OF pre co]
      prefix_step [OF post pre] postfix_step [OF prim loop] primary_step [OF ident nested]
      ident_step [OF args] nested_step [OF or]
    by blast
qed


subsection \<open>Completeness: every derivation is found\<close>

text \<open>A run settles on a result when every large enough fuel gives it.\<close>

definition settles :: "(nat \<Rightarrow> 'r option) \<Rightarrow> 'r \<Rightarrow> bool" where
  "settles F r \<longleftrightarrow> (\<exists>n. \<forall>m \<ge> n. F m = Some r)"

lemma settles_Suc: "settles (\<lambda>m. F (Suc m)) r \<Longrightarrow> settles F r"
  unfolding settles_def by (metis Suc_le_D Suc_le_mono)

lemma settles_const: "settles (\<lambda>m. Some r) r"
  by (simp add: settles_def)

lemma settles_ok: "settles (\<lambda>m. parse_ok x q) (Some x, q)"
  by (simp add: settles_def parse_ok_def)

lemma settles_join:
  assumes "settles F u" and "settles G r" and "\<And>m. F m = Some u \<Longrightarrow> H m = G m"
  shows "settles H r"
proof -
  obtain a b where "\<forall>m \<ge> a. F m = Some u" "\<forall>m \<ge> b. G m = Some r"
    using assms(1,2) by (auto simp: settles_def)
  then have "\<forall>m \<ge> max a b. H m = Some r" using assms(3) by auto
  then show ?thesis unfolding settles_def by blast
qed

lemma settles_bind:
  assumes "settles F (Some x, q)" and "settles (\<lambda>m. G m x q) r"
  shows "settles (\<lambda>m. parse_bind (F m) (G m)) r"
  by (rule settles_join [OF assms]) simp

text \<open>The tokens that would continue a phrase of each layer.\<close>

definition follow_post :: "token_kind \<Rightarrow> bool" where
  "follow_post k \<longleftrightarrow> k \<noteq> TokenKindLeftParen \<and> k \<noteq> TokenKindDot \<and> k \<noteq> TokenKindLeftBracket"

definition follow_cmp :: "token_kind \<Rightarrow> bool" where
  "follow_cmp k \<longleftrightarrow> follow_post k \<and> compare_op_of k = None"

definition follow_and :: "token_kind \<Rightarrow> bool" where
  "follow_and k \<longleftrightarrow> follow_cmp k \<and> k \<noteq> TokenKindAnd"

definition follow_or :: "token_kind \<Rightarrow> bool" where
  "follow_or k \<longleftrightarrow> follow_and k \<and> k \<noteq> TokenKindOr"

lemmas follow_defs = follow_or_def follow_and_def follow_cmp_def follow_post_def

lemma follow_kinds [simp]:
  "follow_or TokenKindRightParen" "follow_or TokenKindRightBracket" "follow_or TokenKindComma"
  "follow_or TokenKindEnd" "follow_and TokenKindOr" "follow_cmp TokenKindAnd"
  by (simp_all add: follow_defs)

lemma follow_compare: "compare_op_of k = Some c \<Longrightarrow> follow_post k"
  by (cases k) (simp_all add: follow_defs)

definition finds ::
    "(token_kind \<Rightarrow> bool) \<Rightarrow> (nat \<Rightarrow> parser \<Rightarrow> parse_result) \<Rightarrow> token list \<Rightarrow> node \<Rightarrow> bool" where
  "finds follow f ts x \<longleftrightarrow>
     (\<forall>p q. ps.pull p ts q \<longrightarrow> follow (cur_kind q) \<longrightarrow> settles (\<lambda>m. f m p) (Some x, q))"

text \<open>\<open>parsePostfixOp\<close> reaches its loop with the phrase read so far.\<close>

definition finds_post :: "token list \<Rightarrow> node \<Rightarrow> bool" where
  "finds_post ts x \<longleftrightarrow> ts \<noteq> [] \<and> tk_kind (hd ts) \<noteq> TokenKindNot \<and>
     (\<forall>p q r. ps.pull p ts q \<longrightarrow> cur_kind q \<noteq> TokenKindLeftParen
        \<longrightarrow> settles (\<lambda>m. postfix_loop m (ps_cur p) x q) r \<longrightarrow> settles (\<lambda>m. parsePostfixOp m p) r)"

definition finds_args :: "token list \<Rightarrow> node list \<Rightarrow> bool" where
  "finds_args ts xs \<longleftrightarrow>
     (\<forall>p q acc. ps.pull p ts q \<longrightarrow>
        (cur_kind q = TokenKindRightParen
           \<longrightarrow> settles (\<lambda>m. parse_args m acc p) (Some (acc @ xs), advance q))
      \<and> (cur_kind q = TokenKindComma
           \<longrightarrow> (\<forall>r. settles (\<lambda>m. parse_args m (acc @ xs) (advance q)) r
                 \<longrightarrow> settles (\<lambda>m. parse_args m acc p) r)))"

lemma findsD:
  "finds fo f ts x \<Longrightarrow> ps.pull p ts q \<Longrightarrow> fo (cur_kind q) \<Longrightarrow> settles (\<lambda>m. f m p) (Some x, q)"
  by (simp add: finds_def)

lemma pull_split:
  assumes "ps.pull p (ts @ t # us) q"
  obtains q1 where "ps.pull p ts q1" "t = ps_cur q1" "cur_kind q1 \<noteq> TokenKindEnd"
    "ps.pull (advance q1) us q"
  using assms by (auto simp: ps.pull_append)

lemma finds_binary:
  assumes l: "finds fo_sub f_sub ts l" and r: "finds fo f us r" and c: "oper (tk_kind t) = Some c"
    and f: "binary_layer f f_sub oper mk"
    and fo: "\<And>k c. oper k = Some c \<Longrightarrow> fo_sub k"
  shows "finds fo f (ts @ t # us) (covering (ts @ t # us) (mk c l r))"
  unfolding finds_def
proof (intro allI impI)
  fix p q
  assume q: "ps.pull p (ts @ t # us) q" "fo (cur_kind q)"
  then obtain q1 where q1: "ps.pull p ts q1" "t = ps_cur q1" "ps.pull (advance q1) us q"
    by (auto elim: pull_split)
  have "settles (\<lambda>m. f (Suc m) p) (Some (covering (ts @ t # us) (mk c l r)), q)"
    unfolding binary_layerD [OF f]
    by (rule settles_bind [OF findsD [OF l q1(1)]])
      (use q1(2) c fo settles_bind [OF findsD [OF r q1(3) q(2)] settles_ok]
         p_node_covering [OF q(1), symmetric] in auto)
  then show "settles (\<lambda>m. f m p) (Some (covering (ts @ t # us) (mk c l r)), q)"
    by (rule settles_Suc)
qed

lemma finds_single:
  assumes l: "finds fo_sub f_sub ts l"
    and f: "binary_layer f f_sub oper mk"
    and fo: "\<And>k. fo k \<Longrightarrow> fo_sub k \<and> oper k = None"
  shows "finds fo f ts l"
  unfolding finds_def
proof (intro allI impI)
  fix p q
  assume q: "ps.pull p ts q" "fo (cur_kind q)"
  have "settles (\<lambda>m. f (Suc m) p) (Some l, q)"
    unfolding binary_layerD [OF f]
    by (rule settles_bind [OF findsD [OF l q(1)]]) (use fo [OF q(2)] in \<open>auto simp: settles_ok\<close>)
  then show "settles (\<lambda>m. f m p) (Some l, q)" by (rule settles_Suc)
qed


lemma finds_or: "finds follow_and parseLogicalAnd ts l \<Longrightarrow> finds follow_or parseLogicalOr ts l"
  by (rule finds_single [where fo_sub = follow_and, OF _ or_layer]) (auto simp: follow_or_def)

lemma finds_and: "finds follow_cmp parseCompareBinOp ts l \<Longrightarrow> finds follow_and parseLogicalAnd ts l"
  by (rule finds_single [where fo_sub = follow_cmp, OF _ and_layer]) (auto simp: follow_and_def)

lemma finds_compare: "finds follow_post parsePrefixOp ts l \<Longrightarrow> finds follow_cmp parseCompareBinOp ts l"
  by (rule finds_single [where fo_sub = follow_post, OF _ compare_layer]) (auto simp: follow_cmp_def)

lemma finds_or_op:
  "finds follow_and parseLogicalAnd ts l \<Longrightarrow> is_tok TokenKindOr t \<Longrightarrow> finds follow_or parseLogicalOr us r
   \<Longrightarrow> finds follow_or parseLogicalOr (ts @ t # us)
         (covering (ts @ t # us) (LogicalOpNode no_span LogicalOr l r))"
  by (rule finds_binary [where fo_sub = follow_and, OF _ _ _ or_layer])
    (auto split: if_splits)

lemma finds_and_op:
  "finds follow_cmp parseCompareBinOp ts l \<Longrightarrow> is_tok TokenKindAnd t
   \<Longrightarrow> finds follow_and parseLogicalAnd us r
   \<Longrightarrow> finds follow_and parseLogicalAnd (ts @ t # us)
         (covering (ts @ t # us) (LogicalOpNode no_span LogicalAnd l r))"
  by (rule finds_binary [where fo_sub = follow_cmp, OF _ _ _ and_layer])
    (auto split: if_splits)

lemma finds_cmp_op:
  "finds follow_post parsePrefixOp ts l \<Longrightarrow> compare_op_of (tk_kind t) = Some k
   \<Longrightarrow> finds follow_cmp parseCompareBinOp us r
   \<Longrightarrow> finds follow_cmp parseCompareBinOp (ts @ t # us)
         (covering (ts @ t # us) (CompareOpNode no_span k l r))"
  by (rule finds_binary [where fo_sub = follow_post, OF _ _ _ compare_layer]) (auto simp: follow_compare)

lemma finds_postD:
  assumes "finds_post ts x" and "ps.pull p ts q" and "cur_kind q \<noteq> TokenKindLeftParen"
    and "settles (\<lambda>m. postfix_loop (Suc m) (ps_cur p) x q) r"
  shows "settles (\<lambda>m. parsePostfixOp m p) r"
  using assms settles_Suc [of "\<lambda>m. postfix_loop m (ps_cur p) x q" r] unfolding finds_post_def by blast

lemma finds_pre_post:
  assumes f: "finds_post ts x"
  shows "finds follow_post parsePrefixOp ts x"
  unfolding finds_def
proof (intro allI impI)
  fix p q
  assume q: "ps.pull p ts q" "follow_post (cur_kind q)"
  have "settles (\<lambda>m. parsePostfixOp m p) (Some x, q)"
    by (rule finds_postD [OF f q(1)]) (use q(2) in \<open>simp_all add: follow_defs settles_ok\<close>)
  moreover have "cur_kind p \<noteq> TokenKindNot"
    using ps.pull_hd [OF q(1)] f by (auto simp: finds_post_def)
  ultimately have "settles (\<lambda>m. parsePrefixOp (Suc m) p) (Some x, q)" by simp
  then show "settles (\<lambda>m. parsePrefixOp m p) (Some x, q)" by (rule settles_Suc)
qed

lemma finds_pre_not:
  assumes t: "is_tok TokenKindNot t" and f: "finds follow_post parsePrefixOp ts n"
  shows "finds follow_post parsePrefixOp (t # ts) (covering (t # ts) (NotOpNode no_span n t))"
  unfolding finds_def
proof (intro allI impI)
  fix p q
  assume q: "ps.pull p (t # ts) q" "follow_post (cur_kind q)"
  then have q1: "t = ps_cur p" "ps.pull (advance p) ts q" by auto
  have "settles (\<lambda>m. parse_bind (parsePrefixOp m (advance p)) (\<lambda>e q.
      parse_ok (p_node q (NotOpNode no_span e t) t) q))
      (Some (covering (t # ts) (NotOpNode no_span n t)), q)"
    by (rule settles_bind [OF findsD [OF f q1(2) q(2)]])
      (use p_node_covering [OF q(1)] q1(1) in \<open>simp add: settles_ok\<close>)
  then have "settles (\<lambda>m. parsePrefixOp (Suc m) p)
      (Some (covering (t # ts) (NotOpNode no_span n t)), q)"
    using t q1(1) by (simp add: Let_def)
  then show "settles (\<lambda>m. parsePrefixOp m p) (Some (covering (t # ts) (NotOpNode no_span n t)), q)"
    by (rule settles_Suc)
qed

text \<open>A primary expression, and the ways to go on after it.\<close>

definition finds_prim :: "token list \<Rightarrow> node \<Rightarrow> bool" where
  "finds_prim ts x \<longleftrightarrow> ts \<noteq> [] \<and> tk_kind (hd ts) \<noteq> TokenKindNot \<and>
     (\<forall>p q. ps.pull p ts q \<longrightarrow> cur_kind q \<noteq> TokenKindLeftParen
        \<longrightarrow> settles (\<lambda>m. parsePrimaryExpr m p) (Some x, q))"

lemma finds_post_prim:
  assumes f: "finds_prim ts x"
  shows "finds_post ts x"
proof -
  have "settles (\<lambda>m. parsePostfixOp m p) r"
    if q: "ps.pull p ts q" "cur_kind q \<noteq> TokenKindLeftParen"
      and r: "settles (\<lambda>m. postfix_loop m (ps_cur p) x q) r" for p q r
  proof -
    have "settles (\<lambda>m. parse_bind (parsePrimaryExpr m p) (postfix_loop m (ps_cur p))) r"
      by (rule settles_bind [where x = x and q = q])
        (use f q r in \<open>auto simp: finds_prim_def\<close>)
    then have "settles (\<lambda>m. parsePostfixOp (Suc m) p) r" by (simp add: Let_def)
    then show ?thesis by (rule settles_Suc)
  qed
  then show ?thesis using f by (auto simp: finds_post_def finds_prim_def)
qed

lemma finds_postI:
  assumes "finds_post ts n"
    and "\<And>p q r. ps.pull p (ts @ us) q \<Longrightarrow> cur_kind q \<noteq> TokenKindLeftParen
      \<Longrightarrow> settles (\<lambda>m. postfix_loop m (ps_cur p) x q) r \<Longrightarrow> settles (\<lambda>m. parsePostfixOp m p) r"
  shows "finds_post (ts @ us) x"
  using assms by (auto simp: finds_post_def)

lemma finds_post_dot:
  assumes f: "finds_post ts n" and d: "is_tok TokenKindDot d"
    and t: "is_tok TokenKindStar t \<and> m = ArrayDerefNode no_span n
      \<or> is_tok TokenKindIdent t \<and> m = ObjectDerefNode no_span n (to_lower (tk_value t)) t"
  shows "finds_post (ts @ [d, t]) (covering (ts @ [d, t]) m)"
proof (rule finds_postI [OF f])
  fix p q r
  assume q: "ps.pull p (ts @ [d, t]) q"
    and r: "settles (\<lambda>k. postfix_loop k (ps_cur p) (covering (ts @ [d, t]) m) q) r"
  obtain q1 where q1: "ps.pull p ts q1" "d = ps_cur q1" "t = ps_cur (advance q1)"
    "q = advance (advance q1)" using q by (auto simp: ps.pull_append)
  have x: "covering (ts @ [d, t]) m = p_node q m (ps_cur p)"
    using p_node_covering [OF q] by simp
  show "settles (\<lambda>m. parsePostfixOp m p) r"
    by (rule finds_postD [OF f q1(1)]) (use r d t q1 x in \<open>auto simp: Let_def parser_next_pair\<close>)
qed

lemma finds_post_index:
  assumes f: "finds_post ts n" and lb: "is_tok TokenKindLeftBracket lb"
    and i: "finds follow_or parseLogicalOr us i" and rb: "is_tok TokenKindRightBracket rb"
  shows "finds_post (ts @ lb # us @ [rb])
    (covering (ts @ lb # us @ [rb]) (IndexAccessNode no_span n i))"
proof (rule finds_postI [OF f])
  fix p q r
  let ?x = "covering (ts @ lb # us @ [rb]) (IndexAccessNode no_span n i)"
  assume q: "ps.pull p (ts @ lb # us @ [rb]) q"
    and r: "settles (\<lambda>k. postfix_loop k (ps_cur p) ?x q) r"
  obtain q1 q2 where q1: "ps.pull p ts q1" "lb = ps_cur q1" "ps.pull (advance q1) us q2"
    "rb = ps_cur q2" "q = advance q2" using q by (auto simp: ps.pull_append)
  have x: "?x = p_node q (IndexAccessNode no_span n i) (ps_cur p)"
    using p_node_covering [OF q] by simp
  have fo: "follow_or (cur_kind q2)" using rb q1(4) by simp
  have "settles (\<lambda>m. parse_bind (parseLogicalOr m (advance q1)) (\<lambda>idx p'.
      if cur_kind p' \<noteq> TokenKindRightBracket
      then parse_nil (parser_unexpected where_bracket [TokenKindRightBracket] p')
      else let p' = advance p' in
        postfix_loop m (ps_cur p) (p_node p' (IndexAccessNode no_span n idx) (ps_cur p)) p')) r"
    by (rule settles_bind [OF findsD [OF i q1(3) fo]])
      (use r x rb q1(4,5) in \<open>simp add: Let_def\<close>)
  then show "settles (\<lambda>m. parsePostfixOp m p) r"
    using lb q1(2) by (intro finds_postD [OF f q1(1)]) auto
qed


lemma finds_primI:
  assumes "ts \<noteq> []" and "tk_kind (hd ts) \<noteq> TokenKindNot"
    and "\<And>p q. ps.pull p ts q \<Longrightarrow> cur_kind q \<noteq> TokenKindLeftParen
      \<Longrightarrow> settles (\<lambda>m. parsePrimaryExpr (Suc m) p) (Some x, q)"
  shows "finds_prim ts x"
  using assms settles_Suc [of "\<lambda>m. parsePrimaryExpr m p" for p] by (auto simp: finds_prim_def)

text \<open>A token that is a literal.\<close>

lemma finds_literal:
  assumes "tk_kind t \<noteq> TokenKindNot"
    and "\<And>m p. ps_cur p = t
      \<Longrightarrow> parsePrimaryExpr (Suc m) p = parse_ok (p_node (advance p) x t) (advance p)"
  shows "finds_prim [t] (covering [t] x)"
proof (rule finds_primI)
  fix p q
  assume q: "ps.pull p [t] q"
  then show "settles (\<lambda>m. parsePrimaryExpr (Suc m) p) (Some (covering [t] x), q)"
    using assms(2) [of p] p_node_covering [OF q] by (simp add: settles_ok)
qed (use assms(1) in simp_all)

lemma finds_ident:
  assumes t: "is_tok TokenKindIdent t"
    and f: "\<And>p q. ps.pull p (t # ts) q \<Longrightarrow> cur_kind q \<noteq> TokenKindLeftParen
      \<Longrightarrow> settles (\<lambda>m. parseIdent (Suc m) p) (Some x, q)"
  shows "finds_prim (t # ts) x"
proof (rule finds_primI)
  fix p q
  assume q: "ps.pull p (t # ts) q" "cur_kind q \<noteq> TokenKindLeftParen"
  show "settles (\<lambda>m. parsePrimaryExpr (Suc m) p) (Some x, q)"
    using settles_Suc [OF f [OF q]] q t by auto
qed (use t in simp_all)

lemma finds_variable:
  "is_tok TokenKindIdent t \<Longrightarrow> finds_prim [t] (covering [t] (ident_node t))"
  by (rule finds_ident) (auto simp: parser_next_pair settles_ok p_node_def covering_def)

lemma finds_call0:
  assumes t: "is_tok TokenKindIdent t" "is_tok TokenKindLeftParen lp" "is_tok TokenKindRightParen rp"
  shows "finds_prim [t, lp, rp] (covering [t, lp, rp] (FuncCallNode no_span (tk_value t) [] t))"
proof (rule finds_ident [OF t(1)])
  fix p q
  assume q: "ps.pull p [t, lp, rp] q"
  then have "t = ps_cur p" "lp = ps_cur (advance p)" "rp = ps_cur (advance (advance p))"
    "q = advance (advance (advance p))" by auto
  then show "settles (\<lambda>m. parseIdent (Suc m) p)
      (Some (covering [t, lp, rp] (FuncCallNode no_span (tk_value t) [] t)), q)"
    using t p_node_covering [OF q] by (auto simp: parser_next_pair Let_def settles_ok)
qed

text \<open>No phrase is empty or starts with a closing parenthesis.\<close>

lemma phrase_first:
  "g_prim ts n \<Longrightarrow> ts \<noteq> [] \<and> tk_kind (hd ts) \<noteq> TokenKindRightParen"
  "g_args ts as \<Longrightarrow> ts \<noteq> [] \<and> tk_kind (hd ts) \<noteq> TokenKindRightParen"
  "g_post ts n \<Longrightarrow> ts \<noteq> [] \<and> tk_kind (hd ts) \<noteq> TokenKindRightParen"
  "g_pre ts n \<Longrightarrow> ts \<noteq> [] \<and> tk_kind (hd ts) \<noteq> TokenKindRightParen"
  "g_cmp ts n \<Longrightarrow> ts \<noteq> [] \<and> tk_kind (hd ts) \<noteq> TokenKindRightParen"
  "g_and ts n \<Longrightarrow> ts \<noteq> [] \<and> tk_kind (hd ts) \<noteq> TokenKindRightParen"
  "g_or ts n \<Longrightarrow> ts \<noteq> [] \<and> tk_kind (hd ts) \<noteq> TokenKindRightParen"
  by (induction rule: g_prim_g_args_g_post_g_pre_g_cmp_g_and_g_or.inducts) auto

lemma finds_call:
  assumes t: "is_tok TokenKindIdent t" "is_tok TokenKindLeftParen lp"
    and as: "finds_args ts as" "g_args ts as" and rp: "is_tok TokenKindRightParen rp"
  shows "finds_prim (t # lp # ts @ [rp])
    (covering (t # lp # ts @ [rp]) (FuncCallNode no_span (tk_value t) as t))"
proof (rule finds_ident [OF t(1)])
  fix p q
  let ?x = "covering (t # lp # ts @ [rp]) (FuncCallNode no_span (tk_value t) as t)"
  assume q: "ps.pull p (t # lp # ts @ [rp]) q"
  then obtain q1 where q1: "t = ps_cur p" "lp = ps_cur (advance p)"
    "ps.pull (advance (advance p)) ts q1" "rp = ps_cur q1" "q = advance q1"
    by (auto simp: ps.pull_append)
  have ne: "cur_kind (advance (advance p)) \<noteq> TokenKindRightParen"
    using ps.pull_hd [OF q1(3)] phrase_first(2) [OF as(2)] by simp
  have "settles (\<lambda>m. parse_args m [] (advance (advance p))) (Some ([] @ as), q)"
    using as(1) q1(3,4,5) rp unfolding finds_args_def by blast
  then have "settles (\<lambda>m. parse_bind (parse_args m [] (advance (advance p))) (\<lambda>args q'.
      parse_ok (p_node q' (FuncCallNode no_span (tk_value t) args t) t) q')) (Some ?x, q)"
    by (rule settles_bind [OF _ settles_join [OF settles_ok settles_ok]])
      (use p_node_covering [OF q] q1(1) in simp)
  then show "settles (\<lambda>m. parseIdent (Suc m) p) (Some ?x, q)"
    using ne q1(1,2) t by (simp add: parser_next_pair Let_def)
qed

lemma finds_nested:
  assumes t: "is_tok TokenKindLeftParen lp" "finds follow_or parseLogicalOr ts n"
    "is_tok TokenKindRightParen rp"
  shows "finds_prim (lp # ts @ [rp]) (covering (lp # ts @ [rp]) n)"
proof (rule finds_primI)
  fix p q
  assume q: "ps.pull p (lp # ts @ [rp]) q"
  then obtain q1 where q1: "lp = ps_cur p" "ps.pull (advance p) ts q1" "rp = ps_cur q1"
    "q = advance q1" by (auto simp: ps.pull_append)
  have fo: "follow_or (cur_kind q1)" using t(3) q1(3) by simp
  have "settles (\<lambda>m. parse_bind (parseLogicalOr m (advance p)) (\<lambda>nested q.
      if cur_kind q = TokenKindRightParen
      then (let q = advance q in parse_ok (p_node q nested lp) q)
      else parse_nil (parser_unexpected where_nested [TokenKindRightParen] q)))
      (Some (covering (lp # ts @ [rp]) n), q)"
    by (rule settles_bind [OF findsD [OF t(2) q1(2) fo]])
      (use p_node_covering [OF q] q1 t(3) in \<open>simp add: Let_def settles_ok\<close>)
  then have "settles (\<lambda>m. parseNestedExpr (Suc m) p) (Some (covering (lp # ts @ [rp]) n), q)"
    by (simp only: parseNestedExpr.simps parser_next_pair q1(1))
  then have "settles (\<lambda>m. parseNestedExpr m p) (Some (covering (lp # ts @ [rp]) n), q)"
    by (rule settles_Suc)
  then show "settles (\<lambda>m. parsePrimaryExpr (Suc m) p) (Some (covering (lp # ts @ [rp]) n), q)"
    using t(1) q1(1) by simp
qed (use t in simp_all)


lemma finds_args_one:
  assumes f: "finds follow_or parseLogicalOr ts n"
  shows "finds_args ts [n]"
  unfolding finds_args_def
proof (intro allI impI conjI)
  fix p q acc
  assume q: "ps.pull p ts q" "cur_kind q = TokenKindRightParen"
  have "settles (\<lambda>m. parseLogicalOr m p) (Some n, q)" using findsD [OF f q(1)] q(2) by simp
  then have "settles (\<lambda>m. parse_args (Suc m) acc p) (Some (acc @ [n]), advance q)"
    by (rule settles_join [OF _ settles_const]) (simp add: q(2))
  then show "settles (\<lambda>m. parse_args m acc p) (Some (acc @ [n]), advance q)" by (rule settles_Suc)
next
  fix p q acc r
  assume q: "ps.pull p ts q" "cur_kind q = TokenKindComma"
    and r: "settles (\<lambda>m. parse_args m (acc @ [n]) (advance q)) r"
  have "settles (\<lambda>m. parseLogicalOr m p) (Some n, q)" using findsD [OF f q(1)] q(2) by simp
  then have "settles (\<lambda>m. parse_args (Suc m) acc p) r"
    by (rule settles_join [OF _ r]) (simp add: q(2))
  then show "settles (\<lambda>m. parse_args m acc p) r" by (rule settles_Suc)
qed

lemma finds_args_more:
  assumes as: "finds_args ts as" and c: "is_tok TokenKindComma c" and n: "finds_args us [n]"
  shows "finds_args (ts @ c # us) (as @ [n])"
  unfolding finds_args_def
proof (intro allI)
  fix p q acc
  show "ps.pull p (ts @ c # us) q \<longrightarrow>
      (cur_kind q = TokenKindRightParen
        \<longrightarrow> settles (\<lambda>m. parse_args m acc p) (Some (acc @ as @ [n]), advance q))
    \<and> (cur_kind q = TokenKindComma
        \<longrightarrow> (\<forall>r. settles (\<lambda>m. parse_args m (acc @ as @ [n]) (advance q)) r
              \<longrightarrow> settles (\<lambda>m. parse_args m acc p) r))"
  proof
    assume "ps.pull p (ts @ c # us) q"
    then obtain q1 where q1: "ps.pull p ts q1" "c = ps_cur q1" "ps.pull (advance q1) us q"
      by (auto elim: pull_split)
    have go: "settles (\<lambda>m. parse_args m acc p) r"
      if "settles (\<lambda>m. parse_args m (acc @ as) (advance q1)) r" for r
      using as q1(1,2) c that unfolding finds_args_def by blast
    show "(cur_kind q = TokenKindRightParen
        \<longrightarrow> settles (\<lambda>m. parse_args m acc p) (Some (acc @ as @ [n]), advance q))
      \<and> (cur_kind q = TokenKindComma
        \<longrightarrow> (\<forall>r. settles (\<lambda>m. parse_args m (acc @ as @ [n]) (advance q)) r
              \<longrightarrow> settles (\<lambda>m. parse_args m acc p) r))"
      using n [unfolded finds_args_def, rule_format, OF q1(3), of "acc @ as"] go by auto
  qed
qed

text \<open>Every derivation is found by the run of its layer.\<close>

lemma completeness:
  "g_prim ts n \<Longrightarrow> finds_prim ts n"
  "g_args ts as \<Longrightarrow> finds_args ts as"
  "g_post ts n \<Longrightarrow> finds_post ts n"
  "g_pre ts n \<Longrightarrow> finds follow_post parsePrefixOp ts n"
  "g_cmp ts n \<Longrightarrow> finds follow_cmp parseCompareBinOp ts n"
  "g_and ts n \<Longrightarrow> finds follow_and parseLogicalAnd ts n"
  "g_or ts n \<Longrightarrow> finds follow_or parseLogicalOr ts n"
proof (induction rule: g_prim_g_args_g_post_g_pre_g_cmp_g_and_g_or.inducts)
  case (prim_int t i)
  then show ?case by (intro finds_literal) (auto simp: parseInt_def Let_def)
next
  case (prim_float t f)
  then show ?case by (intro finds_literal) (auto simp: parseFloat_def Let_def)
next
  case (prim_string t)
  then show ?case by (intro finds_literal) (auto simp: parseString_def parser_next_pair)
next
  case (post_star ts n d s)
  then show ?case by (intro finds_post_dot) auto
next
  case (post_prop ts n d t)
  then show ?case by (intro finds_post_dot) auto
qed (simp_all add: finds_variable finds_call0 finds_call finds_nested finds_args_one
    finds_args_more finds_post_prim finds_post_index finds_pre_post finds_pre_not
    finds_compare finds_cmp_op finds_and finds_and_op finds_or finds_or_op)


subsection \<open>More fuel does not change a result\<close>

definition refines :: "'r option \<Rightarrow> 'r option \<Rightarrow> bool" where
  "refines r r' \<longleftrightarrow> r = None \<or> r' = r"

lemma refines_refl [simp, intro]: "refines r r"
  by (simp add: refines_def)

lemma refines_None [simp, intro]: "refines None r"
  by (simp add: refines_def)

lemma refines_bind:
  "refines r r' \<Longrightarrow> (\<And>x q. refines (f x q) (f' x q)) \<Longrightarrow> refines (parse_bind r f) (parse_bind r' f')"
  by (cases r) (auto simp: refines_def parse_bind_def split: option.splits prod.splits)

lemma refines_case:
  "refines r r' \<Longrightarrow> (\<And>x q. refines (f x q) (f' x q)) \<Longrightarrow>
   refines (case r of None \<Rightarrow> None | Some (None, q) \<Rightarrow> Some (None, q) | Some (Some x, q) \<Rightarrow> f x q)
     (case r' of None \<Rightarrow> None | Some (None, q) \<Rightarrow> Some (None, q) | Some (Some x, q) \<Rightarrow> f' x q)"
  by (cases r) (auto simp: refines_def split: option.splits prod.splits)

lemma refines_let: "(\<And>x. refines (f x) (g x)) \<Longrightarrow> refines (let x = a in f x) (let x = a in g x)"
  by (simp add: Let_def)

lemma refines_if:
  "(c \<Longrightarrow> refines a a') \<Longrightarrow> (\<not> c \<Longrightarrow> refines b b') \<Longrightarrow> refines (if c then a else b) (if c then a' else b')"
  by simp

lemma refines_pair:
  "(\<And>t q. refines (f t q) (g t q)) \<Longrightarrow>
   refines (case r of (t, q) \<Rightarrow> f t q) (case r of (t, q) \<Rightarrow> g t q)"
  by (cases r) simp

lemma refines_option:
  "refines a a' \<Longrightarrow> (\<And>k. refines (b k) (b' k)) \<Longrightarrow>
   refines (case r of None \<Rightarrow> a | Some k \<Rightarrow> b k) (case r of None \<Rightarrow> a' | Some k \<Rightarrow> b' k)"
  by (cases r) simp_all

lemmas refines_intros = refines_let refines_if refines_pair refines_option refines_bind

lemma more_fuel:
  "(\<forall>p. refines (parseLogicalOr n p) (parseLogicalOr (Suc n) p))
   \<and> (\<forall>p. refines (parseLogicalAnd n p) (parseLogicalAnd (Suc n) p))
   \<and> (\<forall>p. refines (parseCompareBinOp n p) (parseCompareBinOp (Suc n) p))
   \<and> (\<forall>p. refines (parsePrefixOp n p) (parsePrefixOp (Suc n) p))
   \<and> (\<forall>p. refines (parsePostfixOp n p) (parsePostfixOp (Suc n) p))
   \<and> (\<forall>s x p. refines (postfix_loop n s x p) (postfix_loop (Suc n) s x p))
   \<and> (\<forall>p. refines (parsePrimaryExpr n p) (parsePrimaryExpr (Suc n) p))
   \<and> (\<forall>p. refines (parseIdent n p) (parseIdent (Suc n) p))
   \<and> (\<forall>as p. refines (parse_args n as p) (parse_args (Suc n) as p))
   \<and> (\<forall>p. refines (parseNestedExpr n p) (parseNestedExpr (Suc n) p))"
proof (induction n)
  case (Suc n)
  define m where "m = Suc n"
  from Suc have IH [intro!]: "refines (parseLogicalOr n p) (parseLogicalOr m p)"
    "refines (parseLogicalAnd n p) (parseLogicalAnd m p)"
    "refines (parseCompareBinOp n p) (parseCompareBinOp m p)"
    "refines (parsePrefixOp n p) (parsePrefixOp m p)"
    "refines (parsePostfixOp n p) (parsePostfixOp m p)"
    "refines (postfix_loop n s x p) (postfix_loop m s x p)"
    "refines (parsePrimaryExpr n p) (parsePrimaryExpr m p)"
    "refines (parseIdent n p) (parseIdent m p)"
    "refines (parse_args n as p) (parse_args m as p)"
    "refines (parseNestedExpr n p) (parseNestedExpr m p)" for p s x as unfolding m_def by blast+
  have "refines (parse_args (Suc n) as p) (parse_args (Suc m) as p)" for as p
    unfolding parse_args.simps(2) by (intro refines_case refines_if IH refines_refl)
  moreover have "refines (parsePrimaryExpr (Suc n) p) (parsePrimaryExpr (Suc m) p)" for p
    using IH(8,10) by (simp only: parsePrimaryExpr.simps(2) split: token_kind.splits) auto
  moreover have "refines (parseLogicalOr (Suc n) p) (parseLogicalOr (Suc m) p)"
    "refines (parseLogicalAnd (Suc n) p) (parseLogicalAnd (Suc m) p)"
    "refines (parseCompareBinOp (Suc n) p) (parseCompareBinOp (Suc m) p)"
    "refines (parsePrefixOp (Suc n) p) (parsePrefixOp (Suc m) p)"
    "refines (parsePostfixOp (Suc n) p) (parsePostfixOp (Suc m) p)"
    "refines (postfix_loop (Suc n) s x p) (postfix_loop (Suc m) s x p)"
    "refines (parseIdent (Suc n) p) (parseIdent (Suc m) p)"
    "refines (parseNestedExpr (Suc n) p) (parseNestedExpr (Suc m) p)" for s x p
    by (simp_all only: parseLogicalOr.simps(2) parseLogicalAnd.simps(2) parseCompareBinOp.simps(2)
        parsePrefixOp.simps(2) parsePostfixOp.simps(2) postfix_loop.simps(2) parseIdent.simps(2)
        parseNestedExpr.simps(2))
      (intro refines_intros IH refines_refl)+
  ultimately show ?case unfolding m_def by blast
qed simp

lemma fuel_mono: "parseLogicalOr n p = Some r \<Longrightarrow> n \<le> m \<Longrightarrow> parseLogicalOr m p = Some r"
proof (induction m)
  case (Suc m)
  have "refines (parseLogicalOr m p) (parseLogicalOr (Suc m) p)" using more_fuel by blast
  then show ?case using Suc by (cases "n = Suc m") (simp_all add: refines_def del: parseLogicalOr.simps)
qed simp

lemma settles_unique: "settles (\<lambda>m. parseLogicalOr m p) r \<Longrightarrow> parseLogicalOr n p = Some u \<Longrightarrow> u = r"
proof -
  assume "settles (\<lambda>m. parseLogicalOr m p) r"
  then obtain k where k: "\<forall>m \<ge> k. parseLogicalOr m p = Some r" by (auto simp: settles_def)
  assume "parseLogicalOr n p = Some u"
  then have "parseLogicalOr (max n k) p = Some u" by (rule fuel_mono) simp
  then show "u = r" using k by simp
qed

end
