(* ===== verification/Parser_Correct.thy ===== *)
theory Parser_Correct
  imports Parser_Spec
begin

text \<open>
  The theorems about \<open>Parse\<close> as a whole: it returns on every source, accepts exactly the
  sentences of the grammar of \<open>Parser_Spec\<close> whose trees are at most 50 levels deep, and
  returns their unique trees; nodes are as wide as the tokens they were built from.
\<close>

subsection \<open>The depth limit\<close>

text \<open>The levels of a tree, where a chain of one logical operator counts once.\<close>

definition same_logical :: "node \<Rightarrow> node \<Rightarrow> bool" where
  "same_logical n c =
     (case (n, c) of (LogicalOpNode _ k _ _, LogicalOpNode _ k' _ _) \<Rightarrow> k' = k | _ \<Rightarrow> False)"

function levels :: "node \<Rightarrow> nat" where
  "levels n = Suc (fold max (map (\<lambda>c. levels c - (if same_logical n c then 1 else 0)) (children n)) 0)"
  by pat_completeness auto
termination by (relation "measure size") (auto dest: children_size)

declare levels.simps [simp del]

lemma child_depth_eq: "child_depth n d c = (if same_logical n c then d else Suc d)"
  by (cases n; cases c) (simp_all add: child_depth_def same_logical_def)

lemma levels_pos: "0 < levels n"
  by (subst levels.simps) simp

lemma fold_max_le: "fold max xs (a::nat) \<le> b \<longleftrightarrow> a \<le> b \<and> (\<forall>x \<in> set xs. x \<le> b)"
  by (induction xs arbitrary: a) auto

lemma levels_le:
  "d + levels n \<le> Suc b \<longleftrightarrow>
     d \<le> b \<and> (\<forall>c \<in> set (children n). child_depth n d c + levels c \<le> Suc b)"
proof -
  have lv: "levels n \<le> Suc k \<longleftrightarrow>
      (\<forall>c \<in> set (children n). levels c - (if same_logical n c then 1 else 0) \<le> k)" for k
    by (subst levels.simps) (simp add: fold_max_le)
  show ?thesis
  proof (cases "d \<le> b")
    case True
    have c: "levels c - (if same_logical n c then 1 else 0) \<le> b - d
        \<longleftrightarrow> child_depth n d c + levels c \<le> Suc b" for c
      using True levels_pos [of c] unfolding child_depth_eq by (cases "same_logical n c") arith+
    have "d + levels n \<le> Suc b \<longleftrightarrow> levels n \<le> Suc (b - d)" using True by arith
    then show ?thesis using True by (simp only: lv c simp_thms)
  next
    case False
    have "\<not> d + levels n \<le> Suc b" using False levels_pos [of n] by arith
    then show ?thesis using False by simp
  qed
qed

lemma exceeding_loop_None:
  "exceeding_loop stack = None \<longleftrightarrow> (\<forall>(n, d) \<in> set stack. d + levels n \<le> 51)"
proof (induction stack rule: exceeding_loop.induct)
  case (2 n d stack)
  show ?case
  proof (cases "50 < d")
    case True
    then show ?thesis using levels_pos [of n] by (auto simp: exceeding_loop.simps)
  next
    case False
    have "d + levels n \<le> 51 \<longleftrightarrow> (\<forall>c \<in> set (children n). child_depth n d c + levels c \<le> 51)"
      using levels_le [of d n 50] False by simp
    then show ?thesis using 2 False by (auto simp: exceeding_loop.simps)
  qed
qed (simp add: exceeding_loop.simps)

subsection \<open>The tokens of the parser are those of LexExpression\<close>

lemma lex_error_keeps: "lx_err l \<noteq> None \<Longrightarrow> lx_err (lex_error m l) = lx_err l"
  by (auto simp: lex_error_def split: option.splits)

lemma skips_err: "skips l ws l' \<Longrightarrow> lx_err l \<noteq> None \<Longrightarrow> lx_err l' = lx_err l"
  by (auto simp: skips_def consumes_def)

lemma lex_next_err:
  assumes "lex_next l = (t, l')" and "lx_err l \<noteq> None"
  shows "lx_err l' = lx_err l"
proof -
  have "lx_err (scan_load l) = lx_err l"
    using assms(2) set_scan_err by (auto simp: scan_load_def)
  then have "lx_err (lex_skipWhite l) = lx_err l"
    using skip_white_loop_spec [of "scan_load l"] skips_err assms(2)
    by (metis lex_skipWhite_def)
  then show ?thesis
    using lex_next_emits_or_fails [OF assms(1)] assms(2)
    by (auto simp: emits_def fails_def consumes_def lex_token_def Let_def lex_error_keeps)
qed

lemma advance_lexer:
  assumes "lx_err (ps_lexer p) \<noteq> None"
  shows "lx_err (ps_lexer (advance p)) = lx_err (ps_lexer p)"
proof -
  obtain t l where "lex_next (ps_lexer p) = (t, l)" by (cases "lex_next (ps_lexer p)")
  then show ?thesis using lex_next_err assms by (simp add: parser_next_def)
qed

lemma pull_err:
  "ps.pull p ts q \<Longrightarrow> lx_err (ps_lexer q) = None \<Longrightarrow> lx_err (ps_lexer p) = None"
proof (induction ts arbitrary: p)
  case (Cons t ts)
  then have "lx_err (ps_lexer (advance p)) = None" by auto
  then show ?case using advance_lexer [of p] by fastforce
qed simp

text \<open>The loop of \<open>LexExpression\<close> from a parser's current token on.\<close>

definition lex_from :: "parser \<Rightarrow> token list \<Rightarrow> token list option \<times> nat \<times> expr_error option" where
  "lex_from p us =
     (if cur_kind p = TokenKindEnd then (Some (us @ [ps_cur p]), lex_offset (ps_lexer p), None)
      else lex_expression_loop (ps_lexer p) (us @ [ps_cur p]))"

lemma lex_expression_step:
  "lex_next l = (t, l') \<Longrightarrow> lex_expression_loop l us =
     (case lx_err l' of
        Some e \<Rightarrow> (None, lex_offset l', Some e)
      | None \<Rightarrow> if tk_kind t = TokenKindEnd then (Some (us @ [t]), lex_offset l', None)
                else lex_expression_loop l' (us @ [t]))"
  by (subst lex_expression_loop.simps) simp

lemma lex_expression_init:
  assumes "lx_err (ps_lexer (parser_init l)) = None"
  shows "lex_expression_loop l us = lex_from (parser_init l) us"
proof -
  obtain t l' where nx: "lex_next l = (t, l')" by (cases "lex_next l")
  then show ?thesis using assms lex_expression_step [OF nx]
    by (simp add: lex_from_def parser_init_def)
qed

lemma lex_from_advance:
  assumes "cur_kind p \<noteq> TokenKindEnd" and "lx_err (ps_lexer (advance p)) = None"
  shows "lex_from p us = lex_from (advance p) (us @ [ps_cur p])"
proof -
  obtain t l where nx: "lex_next (ps_lexer p) = (t, l)" by (cases "lex_next (ps_lexer p)")
  then show ?thesis using assms lex_expression_step [OF nx]
    by (simp add: lex_from_def parser_next_def)
qed

lemma lex_from_error:
  assumes "cur_kind p \<noteq> TokenKindEnd" and "lx_err (ps_lexer (advance p)) = Some e"
  shows "fst (lex_from p us) = None"
proof -
  obtain t l where nx: "lex_next (ps_lexer p) = (t, l)" by (cases "lex_next (ps_lexer p)")
  then show ?thesis using assms lex_expression_step [OF nx]
    by (simp add: lex_from_def parser_next_def)
qed

lemma pull_lexes:
  "ps.pull p ts q \<Longrightarrow> lx_err (ps_lexer q) = None \<Longrightarrow> lex_from p us = lex_from q (us @ ts)"
proof (induction ts arbitrary: p us)
  case (Cons t ts)
  then have p: "t = ps_cur p" "cur_kind p \<noteq> TokenKindEnd" "ps.pull (advance p) ts q" by auto
  then have "lx_err (ps_lexer (advance p)) = None" using pull_err Cons.prems(2) by blast
  then show ?case using Cons.IH [OF p(3) Cons.prems(2), of "us @ [t]"] lex_from_advance p by simp
qed simp

text \<open>Conversely, the tokens of a successful \<open>LexExpression\<close> are there to be pulled.\<close>

lemma lexes_pull:
  "lex_from p us = (Some vs, k, None) \<Longrightarrow> lx_err (ps_lexer p) = None
   \<Longrightarrow> \<exists>ts q. ps.pull p ts q \<and> cur_kind q = TokenKindEnd \<and> vs = us @ ts @ [ps_cur q]
         \<and> lx_err (ps_lexer q) = None \<and> lex_offset (ps_lexer q) = k"
proof (induction "tokens_left p" arbitrary: p us rule: less_induct)
  case less
  show ?case
  proof (cases "cur_kind p = TokenKindEnd")
    case True
    then show ?thesis using less.prems
      by (intro exI [of _ "[]"] exI [of _ p]) (auto simp: lex_from_def)
  next
    case False
    then have ok: "lx_err (ps_lexer (advance p)) = None"
      using less.prems(1) lex_from_error [OF False, of _ us]
      by (cases "lx_err (ps_lexer (advance p))") simp_all
    then obtain ts q where q: "ps.pull (advance p) ts q" "cur_kind q = TokenKindEnd"
      "vs = (us @ [ps_cur p]) @ ts @ [ps_cur q]" "lx_err (ps_lexer q) = None"
      "lex_offset (ps_lexer q) = k"
      using less.hyps [OF advance_less [OF False]] less.prems(1) lex_from_advance [OF False]
      by metis
    then show ?thesis using False by (intro exI [of _ "ps_cur p # ts"] exI [of _ q]) auto
  qed
qed

subsection \<open>Parse\<close>

lemma parser_init_left: "tokens_left (parser_init l) \<le> lex_left l"
proof -
  obtain t l' where nx: "lex_next l = (t, l')" by (cases "lex_next l")
  then show ?thesis using lex_next_progress [OF nx] lex_next_le [OF nx]
    by (cases "tk_kind t = TokenKindEnd") (auto simp: tokens_left_def parser_init_def)
qed

lemma parser_init_err [simp]: "ps_err (parser_init l) = None"
  by (simp add: parser_init_def split: prod.splits)

text \<open>The descent that \<open>Parse\<close> starts.\<close>

lemma parse_descent: "delivers g_or (parser_init l) (parseLogicalOr (parse_fuel l) (parser_init l))"
  using descent [of "parse_fuel l"] parser_init_left [of l]
  by (auto simp: parse_fuel_def intro!: descendsD)

lemma parse_cases:
  obtains (nil) p where "parseLogicalOr (parse_fuel l) (parser_init l) = Some (None, p)"
      "ps_err p \<noteq> None"
    | (node) n p ts where "parseLogicalOr (parse_fuel l) (parser_init l) = Some (Some n, p)"
      "g_or ts n" "ts \<noteq> []" "ps.pull (parser_init l) ts p" "ps_err p = None"
  using parse_descent [of l] pull_fields
  by (fastforce simp: delivers_def split: option.splits prod.splits)

lemma exceeding_None: "expressionExceedingDepth n = None \<longleftrightarrow> levels n \<le> 50"
  by (simp add: expressionExceedingDepth_def exceeding_loop_None)


text \<open>
  (C27) \<open>Parse\<close> terminates on every lexer state: the fuel of the recursive descent suffices,
  and the result is a tree or an error, never a nil node without an error.
\<close>

theorem parse_total: "\<exists>res l'. parse l = Some (res, l')"
proof (cases l rule: parse_cases)
  case (nil p)
  then show ?thesis by (auto simp: parse_def parser_err_def split: option.splits)
next
  case (node n p ts)
  then show ?thesis by (simp add: parse_def split: option.splits prod.splits)
qed

lemma parse_grammar:
  "(\<exists>l'. parse (new_lexer src) = Some (Inr n, l') \<and> lex_offset l' = k) \<longleftrightarrow>
   (\<exists>ts e. lexExpression src = (Some (ts @ [e]), k, None) \<and> tk_kind e = TokenKindEnd
      \<and> g_or ts n \<and> levels n \<le> 50)"
    (is "?parses \<longleftrightarrow> ?sentence")
proof
  assume ?parses
  then obtain l' where l': "parse (new_lexer src) = Some (Inr n, l')" "lex_offset l' = k" by blast
  show ?sentence
  proof (cases "new_lexer src" rule: parse_cases)
    case (nil p)
    then show ?thesis using l'(1)
      by (auto simp: parse_def parser_err_def split: option.splits)
  next
    case (node m p ts)
    then have p: "m = n" "cur_kind p = TokenKindEnd" "l' = ps_lexer p" "levels n \<le> 50"
      "lx_err (ps_lexer p) = None"
      using l'(1) by (auto simp: parse_def parser_err_def exceeding_None
          split: option.splits if_splits prod.splits)
    have "lx_err (ps_lexer (parser_init (new_lexer src))) = None"
      using pull_err node(4) p(5) by blast
    then have "lexExpression src = lex_from p ts"
      using lex_expression_init pull_lexes [OF node(4) p(5), of "[]"]
      by (simp add: lexExpression_def)
    then show ?thesis using p node(2) l'(2) by (auto simp: lex_from_def)
  qed
next
  assume ?sentence
  then obtain ts e where ts: "lexExpression src = (Some (ts @ [e]), k, None)"
    "tk_kind e = TokenKindEnd" "g_or ts n" "levels n \<le> 50" by blast
  define p0 where "p0 = parser_init (new_lexer src)"
  obtain t l' where nx: "lex_next (new_lexer src) = (t, l')" by (cases "lex_next (new_lexer src)")
  have ok: "lx_err (ps_lexer p0) = None"
    using ts(1) nx lex_expression_step [OF nx, of "[]"]
    by (simp add: lexExpression_def p0_def parser_init_def split: option.splits)
  then have "lex_from p0 [] = (Some (ts @ [e]), k, None)"
    using lex_expression_init ts(1) by (simp add: lexExpression_def p0_def)
  then obtain us q where q: "ps.pull p0 us q" "cur_kind q = TokenKindEnd"
    "ts @ [e] = us @ [ps_cur q]" "lx_err (ps_lexer q) = None" "lex_offset (ps_lexer q) = k"
    using lexes_pull [OF _ ok] by fastforce
  have found: "settles (\<lambda>m. parseLogicalOr m p0) (Some n, q)"
    using completeness(7) [OF ts(3)] q by (auto simp: finds_def)
  obtain r where r: "parseLogicalOr (parse_fuel (new_lexer src)) p0 = Some r"
    using parse_descent [of "new_lexer src"] by (auto simp: delivers_def p0_def split: option.splits)
  then have "r = (Some n, q)" using settles_unique [OF found] by blast
  moreover have "ps_err q = None" using pull_fields [OF q(1)] by (simp add: p0_def)
  ultimately show ?parses
    using r q ts(4) exceeding_None [of n]
    by (simp add: parse_def parser_err_def p0_def)
qed

text \<open>
  (C1) \<open>Parse\<close> is exactly the grammar: on a source it returns the tree \<open>n\<close> and stops at offset
  \<open>k\<close> if and only if \<open>LexExpression\<close> succeeds with tokens \<open>ts\<close> and the end marker, ending at
  \<open>k\<close>, \<open>ts\<close> is a sentence of the grammar with tree \<open>n\<close> (precedence and associativity as in
  \<open>Parser_Spec\<close>), and \<open>n\<close> is at most 50 levels deep.
\<close>

theorem parse_iff_grammar:
  "(\<exists>l'. parse (new_lexer src) = Some (Inr n, l') \<and> lex_offset l' = k) \<longleftrightarrow>
   (\<exists>ts e. lexExpression src = (Some (ts @ [e]), k, None) \<and> tk_kind e = TokenKindEnd
      \<and> g_or ts n \<and> levels n \<le> 50)"
  by (rule parse_grammar)


subsection \<open>Spans\<close>

definition tok_end :: "token \<Rightarrow> nat" where
  "tok_end t = tk_offset t + length (tk_value t)"

definition in_order :: "token list \<Rightarrow> bool" where
  "in_order = sorted_wrt (\<lambda>t u. tok_end t \<le> tk_offset u)"

definition inside :: "span \<Rightarrow> span \<Rightarrow> bool" where
  "inside s s' \<longleftrightarrow> sp_start s' \<le> sp_start s \<and> sp_end s \<le> sp_end s'"

definition spans_nested :: "node \<Rightarrow> bool" where
  "spans_nested n \<longleftrightarrow>
     (\<forall>m \<in> subnodes n. \<forall>c \<in> set (children m). inside (node_span c) (node_span m))"

lemma spans_nested_unfold:
  "spans_nested n \<longleftrightarrow> (\<forall>c \<in> set (children n). inside (node_span c) (node_span n) \<and> spans_nested c)"
  unfolding spans_nested_def by (subst subnodes.simps) auto

lemma inside_trans: "inside a b \<Longrightarrow> inside b c \<Longrightarrow> inside a c"
  by (auto simp: inside_def)

lemma in_order_bounds:
  assumes "in_order ts" and "t \<in> set ts"
  shows "tk_offset (hd ts) \<le> tk_offset t \<and> tok_end t \<le> tok_end (last ts)"
proof
  obtain a us where ts: "ts = a # us" using assms(2) by (cases ts) auto
  then show "tk_offset (hd ts) \<le> tk_offset t" using assms by (auto simp: in_order_def tok_end_def)
  obtain vs z where z: "ts = vs @ [z]" using assms(2) by (cases ts rule: rev_cases) auto
  then have "t \<in> set vs \<longrightarrow> tok_end t \<le> tk_offset z"
    using assms by (auto simp: in_order_def sorted_wrt_append)
  then show "tok_end t \<le> tok_end (last ts)" using assms(2) z by (auto simp: tok_end_def)
qed

lemma span_between_inside:
  assumes "in_order ts" and "us \<noteq> []" and "set us \<subseteq> set ts"
  shows "inside (span_between (hd us) (last us)) (span_between (hd ts) (last ts))"
proof -
  have "hd us \<in> set ts" "last us \<in> set ts" using assms(2,3) by auto
  then show ?thesis using in_order_bounds [OF assms(1)]
    by (simp add: inside_def span_between_def tok_end_def)
qed

text \<open>A stretch of a token list.\<close>

definition part :: "token list \<Rightarrow> token list \<Rightarrow> bool" where
  "part us ts \<longleftrightarrow> set us \<subseteq> set ts \<and> (in_order ts \<longrightarrow> in_order us)"

lemma part_mid: "part us (xs @ us @ ys)"
  by (auto simp: part_def in_order_def sorted_wrt_append)

lemma part_trans: "part us vs \<Longrightarrow> part vs ts \<Longrightarrow> part us ts"
  by (auto simp: part_def)

lemma parts [intro]:
  "part us us" "part us (us @ ys)" "part us (x # us)" "part us (xs @ x # us)"
  "part us (xs @ x # us @ ys)" "part us (x # us @ ys)" "part us (x # y # us @ ys)"
  using part_mid [of us "[]" "[]"] part_mid [of us "[]" ys] part_mid [of us "[x]" "[]"]
    part_mid [of us "xs @ [x]" "[]"] part_mid [of us "xs @ [x]" ys] part_mid [of us "[x]" ys]
    part_mid [of us "[x, y]" ys]
  by simp_all

definition spans_ok :: "token list \<Rightarrow> node \<Rightarrow> bool" where
  "spans_ok ts n \<longleftrightarrow> ts \<noteq> [] \<and>
     (in_order ts \<longrightarrow> node_span n = span_between (hd ts) (last ts) \<and> spans_nested n)"

definition spans_ok_in :: "token list \<Rightarrow> node \<Rightarrow> bool" where
  "spans_ok_in ts c \<longleftrightarrow> (\<exists>us. spans_ok us c \<and> part us ts)"

lemma spans_ok_inI [intro]: "spans_ok us c \<Longrightarrow> part us ts \<Longrightarrow> spans_ok_in ts c"
  by (auto simp: spans_ok_in_def)

lemma spans_ok_in_part: "spans_ok_in us c \<Longrightarrow> part us ts \<Longrightarrow> spans_ok_in ts c"
  using part_trans by (auto simp: spans_ok_in_def)

lemma spans_ok_node:
  assumes "ts \<noteq> []" and "\<forall>c \<in> set (children n). spans_ok_in ts c"
  shows "spans_ok ts (covering ts n)"
  unfolding spans_ok_def
proof (intro conjI impI assms(1))
  assume o: "in_order ts"
  show "node_span (covering ts n) = span_between (hd ts) (last ts)" by (simp add: covering_def)
  show "spans_nested (covering ts n)"
    unfolding spans_nested_unfold [of "covering ts n"]
  proof
    fix c
    assume "c \<in> set (children (covering ts n))"
    then obtain us where us: "spans_ok us c" "set us \<subseteq> set ts" "in_order us"
      using assms(2) o by (auto simp: covering_def spans_ok_in_def part_def)
    then show "inside (node_span c) (node_span (covering ts n)) \<and> spans_nested c"
      using span_between_inside [OF o _ us(2)] by (auto simp: spans_ok_def covering_def)
  qed
qed

lemma spans_ok_paren:
  assumes "spans_ok us n" and "ts \<noteq> []" and "part us ts"
  shows "spans_ok ts (covering ts n)"
  unfolding spans_ok_def
proof (intro conjI impI assms(2))
  assume o: "in_order ts"
  show "node_span (covering ts n) = span_between (hd ts) (last ts)" by (simp add: covering_def)
  have n: "node_span n = span_between (hd us) (last us)" "spans_nested n" "us \<noteq> []"
    using assms(1,3) o by (auto simp: spans_ok_def part_def)
  have "inside (node_span n) (node_span (covering ts n))"
    using span_between_inside [OF o n(3)] assms(3) n by (auto simp: covering_def part_def)
  then have "\<forall>c \<in> set (children (covering ts n)).
      inside (node_span c) (node_span (covering ts n)) \<and> spans_nested c"
    using n(2) inside_trans unfolding spans_nested_unfold [of n] by (auto simp: covering_def)
  then show "spans_nested (covering ts n)" by (simp add: spans_nested_unfold [of "covering ts n"])
qed

lemma ident_node_leaf [simp]: "children (ident_node t) = []"
  by (simp add: ident_node_def)

lemma phrase_spans:
  "g_prim ts n \<Longrightarrow> spans_ok ts n"
  "g_args ts as \<Longrightarrow> \<forall>c \<in> set as. spans_ok_in ts c"
  "g_post ts n \<Longrightarrow> spans_ok ts n"
  "g_pre ts n \<Longrightarrow> spans_ok ts n"
  "g_cmp ts n \<Longrightarrow> spans_ok ts n"
  "g_and ts n \<Longrightarrow> spans_ok ts n"
  "g_or ts n \<Longrightarrow> spans_ok ts n"
proof (induction rule: g_prim_g_args_g_post_g_pre_g_cmp_g_and_g_or.inducts)
  case (prim_call t lp ts args rp)
  then show ?case
    using spans_ok_in_part [of ts _ "t # lp # ts @ [rp]"] by (intro spans_ok_node) auto
next
  case (prim_paren lp ts n rp)
  then show ?case by (intro spans_ok_paren [where us = ts]) auto
next
  case (args_more ts args c us n)
  then show ?case using spans_ok_in_part [of ts _ "ts @ c # us"] by auto
qed (auto intro!: spans_ok_node, (erule spans_ok_inI, rule parts)+)


lemma tiles_in_order:
  "tiles src p ts q \<Longrightarrow> in_order ts \<and> (\<forall>t \<in> set ts. p \<le> tk_offset t \<and> tok_end t \<le> length src)"
proof (induction ts arbitrary: p)
  case (Cons t ts)
  then show ?case by (fastforce simp: in_order_def tok_end_def)
qed (simp add: in_order_def)



subsection \<open>String literals\<close>

text \<open>The literal of a string: every quote doubled, between quotes.\<close>

fun escape :: "string \<Rightarrow> string" where
  "escape [] = []"
| "escape (c # s) = (if c = CHR 0x27 then [c, c] else [c]) @ escape s"

definition quote_string :: "string \<Rightarrow> string" where
  "quote_string s = CHR 0x27 # escape s @ [CHR 0x27]"

lemma unescape_Cons: "c \<noteq> CHR 0x27 \<Longrightarrow> unescape (c # s) = c # unescape s"
  by (cases s) auto

lemma unescape_pair: "unescape (CHR 0x27 # CHR 0x27 # s) = CHR 0x27 # unescape s"
  by simp

declare unescape.simps(2) [simp del]

lemma unescape_escape: "unescape (escape s) = s"
  by (induction s) (auto simp: unescape_Cons unescape_pair)

lemma escape_body: "string_body (escape s)"
  by (induction s) auto

lemma escape_unescape: "string_body b \<Longrightarrow> escape (unescape b) = b"
proof (induction b rule: string_body.induct)
  case (2 c s)
  then show ?case by (cases "c = CHR 0x27") (auto simp: unescape_Cons unescape_pair split: list.splits)
qed simp

lemma string_literal_quotes: "string_literal (CHR 0x27 # b @ [CHR 0x27]) = unescape b"
  by (simp add: string_literal_def slice_def)

text \<open>
  String literals round-trip: the value \<open>parseString\<close> gives to the literal of \<open>s\<close> (every
  quote doubled) is \<open>s\<close>, that literal is a string token of the lexical grammar, and two
  string tokens with the same value are the same text.
\<close>

theorem string_literal_roundtrip:
  "string_literal (quote_string s) = s \<and> kind_lang TokenKindString (quote_string s)
   \<and> (kind_lang TokenKindString v \<longleftrightarrow> v = quote_string (string_literal v))"
proof (intro conjI)
  have round: "string_literal (quote_string s) = s" for s
    by (simp add: quote_string_def string_literal_quotes unescape_escape)
  show "string_literal (quote_string s) = s" by (rule round)
  have lang: "kind_lang TokenKindString (quote_string s)" for s
    using escape_body by (auto simp: string_lang_def quote_string_def)
  show "kind_lang TokenKindString (quote_string s)" by (rule lang)
  show "kind_lang TokenKindString v \<longleftrightarrow> v = quote_string (string_literal v)"
  proof
    assume "kind_lang TokenKindString v"
    then obtain b where "v = CHR 0x27 # b @ [CHR 0x27]" "string_body b"
      by (auto simp: string_lang_def)
    then show "v = quote_string (string_literal v)"
      by (simp add: quote_string_def string_literal_quotes escape_unescape)
  qed (metis lang)
qed

end
