(* ===== verification/Expr_Type.thy ===== *)
theory Expr_Type
  imports Go_Number "HOL-Library.List_Lexorder" "HOL-Library.Char_ord"
begin

text \<open>
  The types of expressions (\<open>internal/expression/expr_type.go\<close>): the implementations of the
  \<open>Type\<close> interface as one datatype, with \<open>String\<close>, \<open>Assignable\<close>, \<open>Merge\<close>, \<open>DeepCopy\<close> and the
  helpers of \<open>ObjectType\<close>, and \<open>TypeOfJSONValue\<close>. A Go map is an association list with
  distinct keys (\<open>wf_ty\<close>); the list order is the order in which \<open>range\<close> visits the map,
  which the language leaves open. Nil \<open>Mapped\<close> is \<open>None\<close>.
\<close>

datatype ty =
    AnyType
  | NullType
  | NumberType
  | BoolType
  | StringType
  | ObjectType (display_name: string) (props: "(string \<times> ty) list")
      (property_names: "(string \<times> string) list")
      (event_variants: "(string \<times> string \<times> ty option) list") (mapped: "ty option")
  | ArrayType ty bool

type_synonym event_variant = "string \<times> string \<times> ty option"

fun is_object :: "ty \<Rightarrow> bool" where
  "is_object (ObjectType _ _ _ _ _) = True"
| "is_object _ = False"

definition NewEmptyObjectType :: ty where
  "NewEmptyObjectType = ObjectType [] [] [] [] (Some AnyType)"

definition NewObjectType :: "(string \<times> ty) list \<Rightarrow> ty" where
  "NewObjectType ps = ObjectType [] ps [] [] (Some AnyType)"

definition NewEmptyStrictObjectType :: ty where
  "NewEmptyStrictObjectType = ObjectType [] [] [] [] None"

definition NewStrictObjectType :: "(string \<times> ty) list \<Rightarrow> ty" where
  "NewStrictObjectType ps = ObjectType [] ps [] [] None"

definition NewMapObjectType :: "ty \<Rightarrow> ty" where
  "NewMapObjectType t = ObjectType [] [] [] [] (Some t)"

fun SetProperty :: "string \<Rightarrow> ty \<Rightarrow> ty \<Rightarrow> ty" where
  "SetProperty name t (ObjectType d ps pn ev m) =
     (let key = to_lower name in
      ObjectType d (al_put key t ps)
        (if name \<noteq> key then al_put key name pn else al_delete key pn) ev m)"
| "SetProperty name t o' = o'"

definition newNamedObjectType :: "(string \<times> ty) list \<Rightarrow> ty" where
  "newNamedObjectType ps = fold (\<lambda>(name, t). SetProperty name t) ps NewEmptyStrictObjectType"

definition PropertyName :: "ty \<Rightarrow> string \<Rightarrow> string" where
  "PropertyName t key = (case map_of (property_names t) key of Some n \<Rightarrow> n | None \<Rightarrow> key)"

definition IsStrict :: "ty \<Rightarrow> bool" where
  "IsStrict t \<longleftrightarrow> mapped t = None"

definition IsLoose :: "ty \<Rightarrow> bool" where
  "IsLoose t \<longleftrightarrow> mapped t = Some AnyType"

fun set_mapped :: "ty option \<Rightarrow> ty \<Rightarrow> ty" where
  "set_mapped m (ObjectType d ps pn ev _) = ObjectType d ps pn ev m"
| "set_mapped m t = t"

definition Strict :: "ty \<Rightarrow> ty" where
  "Strict t = set_mapped None t"

definition Loose :: "ty \<Rightarrow> ty" where
  "Loose t = set_mapped (Some AnyType) t"

lemma size_props [termination_simp]: "(n, t) \<in> set ps \<Longrightarrow> size t < Suc (size_list (size_prod (\<lambda>x. 0) size) ps)"
  by (induction ps) auto

lemma size_lookup [termination_simp]:
  "map_of ps n = Some t \<Longrightarrow> size t < Suc (size_list (size_prod (\<lambda>x. 0) size) ps)"
  by (auto dest: map_of_SomeD size_props)

subsection \<open>String\<close>

fun ty_string :: "ty \<Rightarrow> string" where
  "ty_string AnyType = ''any''"
| "ty_string NullType = ''null''"
| "ty_string NumberType = ''number''"
| "ty_string BoolType = ''bool''"
| "ty_string StringType = ''string''"
| "ty_string (ObjectType d ps pn ev m) =
     (if d \<noteq> [] then d
      else case m of
        Some t \<Rightarrow> if t = AnyType then ''object'' else ''{string => '' @ ty_string t @ ''}''
      | None \<Rightarrow>
          ''{'' @ join_with ''; ''
            (map snd (sort_key fst (map (\<lambda>(n, t).
               (n, (case map_of pn n of Some s \<Rightarrow> s | None \<Rightarrow> n) @ '': '' @ ty_string t)) ps)))
          @ ''}'')"
| "ty_string (ArrayType e d) = ''array<'' @ ty_string e @ ''>''"

subsection \<open>Assignable and EqualTypes\<close>

fun null_assignable :: "ty \<Rightarrow> bool" where
  "null_assignable NullType = True"
| "null_assignable AnyType = True"
| "null_assignable _ = False"

fun number_assignable :: "ty \<Rightarrow> bool" where
  "number_assignable NumberType = True"
| "number_assignable AnyType = True"
| "number_assignable _ = False"

fun string_assignable :: "ty \<Rightarrow> bool" where
  "string_assignable StringType = True"
| "string_assignable NumberType = True"
| "string_assignable AnyType = True"
| "string_assignable _ = False"

function Assignable :: "ty \<Rightarrow> ty \<Rightarrow> bool" where
  "Assignable AnyType other = True"
| "Assignable NullType other = null_assignable other"
| "Assignable NumberType other = number_assignable other"
| "Assignable BoolType other = True"
| "Assignable StringType other = string_assignable other"
| "Assignable (ObjectType d ps pn ev m) other =
     (case other of
        AnyType \<Rightarrow> True
      | ObjectType d' ps' pn' ev' m' \<Rightarrow>
          (case m of
             Some t \<Rightarrow>
               (case m' of
                  Some t' \<Rightarrow> Assignable t t'
                | None \<Rightarrow> list_all (\<lambda>(n, t'). Assignable t t') ps')
           | None \<Rightarrow>
               (case m' of
                  Some t' \<Rightarrow> list_all (\<lambda>(n, t). Assignable t t') ps
                | None \<Rightarrow>
                    list_all (\<lambda>(n, r).
                      case map_of ps n of None \<Rightarrow> False | Some l \<Rightarrow> Assignable l r) ps'))
      | _ \<Rightarrow> False)"
| "Assignable (ArrayType e d) other =
     (case other of
        AnyType \<Rightarrow> True
      | ArrayType e' d' \<Rightarrow> Assignable e e'
      | _ \<Rightarrow> False)"
  by pat_completeness auto
termination
  by (relation "measure (\<lambda>(a, b). size a + size b)")
    (auto dest!: size_props size_lookup)

definition EqualTypes :: "ty \<Rightarrow> ty \<Rightarrow> bool" where
  "EqualTypes l r \<longleftrightarrow> Assignable l r \<and> Assignable r l"

subsection \<open>Merge\<close>

definition merge_names ::
    "(string \<times> string) list \<Rightarrow> (string \<times> string) list \<Rightarrow> (string \<times> string) list" where
  "merge_names a b = fold (\<lambda>(k, v). al_put k v) a b"

definition mergePropertyNames :: "ty \<Rightarrow> ty \<Rightarrow> (string \<times> string) list" where
  "mergePropertyNames a b = merge_names (property_names a) (property_names b)"

fun null_merge :: "ty \<Rightarrow> ty" where
  "null_merge NullType = NullType"
| "null_merge _ = AnyType"

fun number_merge :: "ty \<Rightarrow> ty" where
  "number_merge NumberType = NumberType"
| "number_merge StringType = StringType"
| "number_merge _ = AnyType"

fun bool_merge :: "ty \<Rightarrow> ty" where
  "bool_merge BoolType = BoolType"
| "bool_merge StringType = StringType"
| "bool_merge _ = AnyType"

fun string_merge :: "ty \<Rightarrow> ty" where
  "string_merge StringType = StringType"
| "string_merge NumberType = StringType"
| "string_merge BoolType = StringType"
| "string_merge _ = AnyType"

text \<open>\<open>Merge\<close>; the loop over the other object's properties is the \<open>fold\<close>.\<close>

function merge_ty :: "ty \<Rightarrow> ty \<Rightarrow> ty" where
  "merge_ty AnyType other = AnyType"
| "merge_ty NullType other = null_merge other"
| "merge_ty NumberType other = number_merge other"
| "merge_ty BoolType other = bool_merge other"
| "merge_ty StringType other = string_merge other"
| "merge_ty (ObjectType d ps pn ev m) other =
     (case other of
        ObjectType d' ps' pn' ev' m' \<Rightarrow>
          if ps = [] \<and> m' = Some AnyType then other
          else if ps' = [] \<and> m = Some AnyType then ObjectType d ps pn ev m
          else
            (let m0 = (case m of
                         None \<Rightarrow> m'
                       | Some t \<Rightarrow> (case m' of None \<Rightarrow> m | Some t' \<Rightarrow> Some (merge_ty t t')));
                 (qs, m1) = fold (\<lambda>(n, r) (qs, m).
                   case map_of qs n of
                     Some l \<Rightarrow> (al_put n (merge_ty l r) qs, m)
                   | None \<Rightarrow>
                       (al_put n r qs,
                        case m of None \<Rightarrow> None | Some t \<Rightarrow> Some (merge_ty t r))) ps' (ps, m0)
             in ObjectType d qs (merge_names pn pn') [] m1)
      | _ \<Rightarrow> AnyType)"
| "merge_ty (ArrayType e d) other =
     (case other of
        ArrayType e' d' \<Rightarrow>
          if e = AnyType then ArrayType e d
          else if e' = AnyType then other
          else ArrayType (merge_ty e e') False
      | _ \<Rightarrow> AnyType)"
  by pat_completeness auto
termination
  by (relation "measure (\<lambda>(a, b). size b)") (auto dest: size_props)

subsection \<open>DeepCopy\<close>

fun DeepCopy :: "ty \<Rightarrow> ty" where
  "DeepCopy (ObjectType d ps pn ev m) =
     ObjectType d (map (\<lambda>(n, t). (n, DeepCopy t)) ps) pn
       (map (\<lambda>(e, a, p). (e, a, map_option DeepCopy p)) ev) (map_option DeepCopy m)"
| "DeepCopy (ArrayType e d) = ArrayType (DeepCopy e) d"
| "DeepCopy t = t"

subsection \<open>TypeOfJSONValue\<close>

text \<open>The values \<open>json.Unmarshal\<close> stores in an interface.\<close>

datatype json =
    JNull
  | JBool bool
  | JNum f64
  | JStr string
  | JArr "json list"
  | JObj "(string \<times> json) list"

fun TypeOfJSONValue :: "json \<Rightarrow> ty" where
  "TypeOfJSONValue (JBool b) = BoolType"
| "TypeOfJSONValue (JNum x) = NumberType"
| "TypeOfJSONValue (JStr s) = StringType"
| "TypeOfJSONValue (JArr vs) =
     ArrayType
       (case fold (\<lambda>t elem. case elem of None \<Rightarrow> Some t | Some e \<Rightarrow> Some (merge_ty e t))
               (map TypeOfJSONValue vs) None of
          None \<Rightarrow> AnyType
        | Some e \<Rightarrow> e) False"
| "TypeOfJSONValue (JObj ms) = NewStrictObjectType (map (\<lambda>(k, v). (k, TypeOfJSONValue v)) ms)"
| "TypeOfJSONValue JNull = NullType"

end
