(* ===== verification/Type_Spec.thy ===== *)
theory Type_Spec
  imports Expr_Type
begin

text \<open>
  What the type operations promise: \<open>Assignable\<close> is reflexive, \<open>Merge\<close> covers both types on
  strict types, the type of a JSON value covers the value, \<open>DeepCopy\<close> copies every field,
  and where \<open>Merge\<close> departs from its documentation.
\<close>

subsection \<open>Well-formed types\<close>

text \<open>Maps have distinct keys, at every level.\<close>

fun wf_ty :: "ty \<Rightarrow> bool" where
  "wf_ty (ObjectType d ps pn ev m) \<longleftrightarrow>
     distinct (map fst ps) \<and> list_all (\<lambda>(n, t). wf_ty t) ps \<and> pred_option wf_ty m"
| "wf_ty (ArrayType e d) \<longleftrightarrow> wf_ty e"
| "wf_ty _ \<longleftrightarrow> True"

lemma Assignable_AnyType [simp]: "Assignable t AnyType"
  by (cases t) simp_all

lemma Assignable_wf_refl: "wf_ty t \<Longrightarrow> Assignable t t"
proof (induction t rule: wf_ty.induct)
  case (1 d ps pn ev m)
  show ?case
  proof (cases m)
    case None
    have "map_of ps n = Some t" if "(n, t) \<in> set ps" for n t
      using 1(3) that by (simp add: map_of_eq_Some_iff)
    then show ?thesis using 1 None by (auto simp: list_all_iff)
  next
    case (Some t)
    then show ?thesis using 1 by simp
  qed
qed simp_all

lemma DeepCopy_id: "DeepCopy t = t"
proof (induction t rule: DeepCopy.induct)
  case (1 d ps pn ev m)
  have "map (\<lambda>(n, t). (n, DeepCopy t)) ps = ps"
    using 1(1) by (auto intro!: map_idI)
  moreover have "map_option DeepCopy p = p" if "(e, a, p) \<in> set ev" for e a p
    using 1(2) that by (cases p) auto
  then have "map (\<lambda>(e, a, p). (e, a, map_option DeepCopy p)) ev = ev"
    by (auto intro!: map_idI)
  moreover have "map_option DeepCopy m = m"
    using 1(3) by (cases m) auto
  ultimately show ?case by simp
qed simp_all

subsection \<open>The values of a type\<close>

text \<open>
  The JSON values a type stands for. A number or a boolean is also a string: the runner
  converts it. An object type bounds the members an object has, it does not require any.
\<close>

fun has_type :: "json \<Rightarrow> ty \<Rightarrow> bool" where
  "has_type v AnyType = True"
| "has_type v NullType = (v = JNull)"
| "has_type v NumberType = (\<exists>x. v = JNum x)"
| "has_type v BoolType = (\<exists>b. v = JBool b)"
| "has_type v StringType = ((\<exists>s. v = JStr s) \<or> (\<exists>x. v = JNum x) \<or> (\<exists>b. v = JBool b))"
| "has_type (JObj ms) (ObjectType d ps pn ev m) =
     list_all (\<lambda>(k, x). case map_of ps k of
         Some t \<Rightarrow> has_type x t
       | None \<Rightarrow> (case m of None \<Rightarrow> False | Some t \<Rightarrow> has_type x t)) ms"
| "has_type (JArr vs) (ArrayType e d) = list_all (\<lambda>v. has_type v e) vs"
| "has_type v t = False"

text \<open>Types without a \<open>Mapped\<close> at any level: what the type of a JSON value is made of.\<close>

fun strict_ty :: "ty \<Rightarrow> bool" where
  "strict_ty (ObjectType d ps pn ev m) \<longleftrightarrow>
     m = None \<and> distinct (map fst ps) \<and> list_all (\<lambda>(n, t). strict_ty t) ps"
| "strict_ty (ArrayType e d) \<longleftrightarrow> strict_ty e"
| "strict_ty _ \<longleftrightarrow> True"

text \<open>The loop of \<open>ObjectType.Merge\<close>, property by property.\<close>

abbreviation merge_step ::
    "(string \<times> ty) \<Rightarrow> (string \<times> ty) list \<times> ty option \<Rightarrow> (string \<times> ty) list \<times> ty option" where
  "merge_step \<equiv> (\<lambda>(n, r) (qs, m).
     case map_of qs n of
       Some l \<Rightarrow> (al_put n (merge_ty l r) qs, m)
     | None \<Rightarrow> (al_put n r qs, case m of None \<Rightarrow> None | Some t \<Rightarrow> Some (merge_ty t r)))"

lemma merge_props:
  assumes "distinct (map fst ps')"
  shows "map_of (fst (fold merge_step ps' (ps, m))) n =
    (case map_of ps' n of
       None \<Rightarrow> map_of ps n
     | Some r \<Rightarrow> Some (case map_of ps n of None \<Rightarrow> r | Some l \<Rightarrow> merge_ty l r))"
  using assms
proof (induction ps' arbitrary: ps m)
  case (Cons p ps')
  obtain k r where p: "p = (k, r)" by (cases p)
  have new: "map_of ps' k = None" using Cons.prems p by (simp add: map_of_eq_None_iff)
  show ?case
  proof (cases "map_of ps k")
    case None
    then show ?thesis using Cons p new by (auto split: option.splits)
  next
    case (Some l)
    then show ?thesis using Cons p new by (auto split: option.splits)
  qed
qed simp

lemma merge_props_distinct:
  "distinct (map fst ps) \<Longrightarrow> distinct (map fst (fst (fold merge_step ps' (ps, m))))"
proof (induction ps' arbitrary: ps m)
  case (Cons p ps')
  obtain k r where p: "p = (k, r)" by (cases p)
  have "distinct (map fst (al_put k t ps))" for t
    using Cons.prems distinct_al_put [of ps k t] by (simp add: al_keys_def)
  then show ?case using Cons.IH p by (simp split: option.splits)
qed simp

lemma merge_props_strict: "snd (fold merge_step ps' (ps, None)) = None"
proof (induction ps' arbitrary: ps)
  case (Cons p ps')
  then show ?case by (cases p) (simp split: option.splits)
qed simp

lemma merge_strict_objects:
  assumes "distinct (map fst ps')"
  obtains qs where "merge_ty (ObjectType d ps pn ev None) (ObjectType d' ps' pn' ev' None)
      = ObjectType d qs (merge_names pn pn') [] None"
    "\<And>n. map_of qs n = (case map_of ps' n of
       None \<Rightarrow> map_of ps n
     | Some r \<Rightarrow> Some (case map_of ps n of None \<Rightarrow> r | Some l \<Rightarrow> merge_ty l r))"
    "distinct (map fst ps) \<Longrightarrow> distinct (map fst qs)"
proof -
  define qs where "qs = fst (fold merge_step ps' (ps, None))"
  have "fold merge_step ps' (ps, None) = (qs, None)"
    using merge_props_strict [of ps' ps] by (simp add: qs_def prod_eq_iff)
  then have "merge_ty (ObjectType d ps pn ev None) (ObjectType d' ps' pn' ev' None)
      = ObjectType d qs (merge_names pn pn') [] None" by simp
  then show ?thesis
    using that merge_props [OF assms, of ps None] merge_props_distinct [of ps ps' None]
    by (simp add: qs_def)
qed

lemma map_of_list_all:
  "distinct (map fst ps) \<Longrightarrow> list_all (\<lambda>(n, t). P t) ps \<longleftrightarrow> (\<forall>n t. map_of ps n = Some t \<longrightarrow> P t)"
  by (auto simp: list_all_iff)

definition covers :: "ty \<Rightarrow> ty \<Rightarrow> bool" where
  "covers a b \<longleftrightarrow> strict_ty (merge_ty a b)
    \<and> (\<forall>v. has_type v a \<or> has_type v b \<longrightarrow> has_type v (merge_ty a b))"

lemma covers_any: "merge_ty a b = AnyType \<Longrightarrow> covers a b"
  by (simp add: covers_def)

lemma has_type_object:
  "has_type v (ObjectType d ps pn ev None) \<longleftrightarrow>
     (\<exists>ms. v = JObj ms \<and> (\<forall>(k, x) \<in> set ms. \<exists>t. map_of ps k = Some t \<and> has_type x t))"
  by (cases v) (auto simp: list_all_iff split: option.splits)

lemma has_type_array:
  "has_type v (ArrayType e d) \<longleftrightarrow> (\<exists>vs. v = JArr vs \<and> (\<forall>x \<in> set vs. has_type x e))"
  by (cases v) (auto simp: list_all_iff)

lemma covers_objects:
  assumes a: "distinct (map fst ps)" "\<And>n t. map_of ps n = Some t \<Longrightarrow> strict_ty t"
    and b: "distinct (map fst ps')" "\<And>n t. map_of ps' n = Some t \<Longrightarrow> strict_ty t"
    and sub: "\<And>n l r. map_of ps n = Some l \<Longrightarrow> map_of ps' n = Some r \<Longrightarrow> covers l r"
  shows "covers (ObjectType d ps pn ev None) (ObjectType d' ps' pn' ev' None)"
proof -
  obtain qs where qs: "merge_ty (ObjectType d ps pn ev None) (ObjectType d' ps' pn' ev' None)
      = ObjectType d qs (merge_names pn pn') [] None"
    "\<And>n. map_of qs n = (case map_of ps' n of
       None \<Rightarrow> map_of ps n
     | Some r \<Rightarrow> Some (case map_of ps n of None \<Rightarrow> r | Some l \<Rightarrow> merge_ty l r))"
    "distinct (map fst ps) \<Longrightarrow> distinct (map fst qs)"
    using merge_strict_objects [OF b(1), of d ps pn ev d' pn' ev'] by blast
  have "strict_ty t" if "map_of qs n = Some t" for n t
    using that qs(2) [of n] a(2) [of n] b(2) [of n] sub [of n]
    by (auto simp: covers_def split: option.splits)
  then have "strict_ty (ObjectType d qs (merge_names pn pn') [] None)"
    using map_of_list_all [OF qs(3) [OF a(1)], of strict_ty] qs(3) [OF a(1)] by simp
  moreover have "\<exists>t. map_of qs k = Some t \<and> has_type x t"
    if "(\<exists>t. map_of ps k = Some t \<and> has_type x t) \<or> (\<exists>t. map_of ps' k = Some t \<and> has_type x t)" for k x
    using that qs(2) [of k] sub [of k] by (auto simp: covers_def split: option.splits)
  ultimately show ?thesis
    unfolding covers_def qs(1) has_type_object by fastforce
qed

lemma covers_arrays: "covers e e' \<Longrightarrow> strict_ty e \<Longrightarrow> strict_ty e' \<Longrightarrow> covers (ArrayType e d) (ArrayType e' d')"
  by (auto simp: covers_def has_type_array)

lemma merge_strict_ty: "strict_ty a \<Longrightarrow> strict_ty b \<Longrightarrow> covers a b"
proof (induction "size b" arbitrary: a b rule: less_induct)
  case less
  note IH = less.hyps and sa = less.prems(1) and sb = less.prems(2)
  show ?case
  proof (cases "merge_ty a b = AnyType")
    case False
    show ?thesis
    proof (cases a)
      case (ObjectType d ps pn ev m)
      then obtain d' ps' pn' ev' m' where b: "b = ObjectType d' ps' pn' ev' m'"
        using False by (cases b) auto
      have m: "m = None" "m' = None" "distinct (map fst ps)" "distinct (map fst ps')"
        using sa sb ObjectType b by auto
      have s: "map_of ps n = Some t \<Longrightarrow> strict_ty t" "map_of ps' n = Some t \<Longrightarrow> strict_ty t" for n t
        using sa sb ObjectType b map_of_list_all [OF m(3), of strict_ty]
          map_of_list_all [OF m(4), of strict_ty] by auto
      have "covers l r" if l: "map_of ps n = Some l" and r: "map_of ps' n = Some r" for n l r
        using IH [of r l] size_lookup [OF r] s(1) [OF l] s(2) [OF r] b by simp
      then show ?thesis
        unfolding ObjectType b m(1,2) using m(3,4) s by (intro covers_objects) auto
    next
      case (ArrayType e d)
      then obtain e' d' where b: "b = ArrayType e' d'" using False by (cases b) auto
      then show ?thesis
        using IH [of e' e] sa sb ArrayType by (auto intro: covers_arrays)
    qed (use False in \<open>cases b; simp add: covers_def; fail\<close>)+
  qed (simp add: covers_any)
qed

text \<open>A decoded value: a Go map has distinct keys.\<close>

fun wf_json :: "json \<Rightarrow> bool" where
  "wf_json (JArr vs) \<longleftrightarrow> list_all wf_json vs"
| "wf_json (JObj ms) \<longleftrightarrow> distinct (map fst ms) \<and> list_all (\<lambda>(k, v). wf_json v) ms"
| "wf_json _ \<longleftrightarrow> True"

abbreviation elem_step :: "ty \<Rightarrow> ty option \<Rightarrow> ty option" where
  "elem_step \<equiv> (\<lambda>t elem. case elem of None \<Rightarrow> Some t | Some e \<Rightarrow> Some (merge_ty e t))"

lemma elem_fold:
  assumes "\<forall>t \<in> set ts. strict_ty t" and "pred_option strict_ty e"
  shows "pred_option strict_ty (fold elem_step ts e)
    \<and> (\<forall>t u v. (t \<in> set ts \<or> e = Some t) \<longrightarrow> fold elem_step ts e = Some u \<longrightarrow> has_type v t \<longrightarrow> has_type v u)
    \<and> (ts \<noteq> [] \<longrightarrow> fold elem_step ts e \<noteq> None)"
  using assms
proof (induction ts arbitrary: e)
  case (Cons t ts)
  define e' where "e' = elem_step t e"
  have e': "pred_option strict_ty e'" "e' \<noteq> None"
    "\<forall>v u. e' = Some u \<longrightarrow> (has_type v t \<or> (\<exists>x. e = Some x \<and> has_type v x)) \<longrightarrow> has_type v u"
    using Cons.prems merge_strict_ty by (auto simp: e'_def covers_def split: option.splits)
  then have "\<exists>u. fold elem_step ts e' = Some u"
    using Cons.IH [of e'] Cons.prems by (cases ts) auto
  then show ?case
    using Cons.IH [of e'] Cons.prems e' unfolding e'_def [symmetric] fold_simps comp_apply
    by fastforce
qed simp

lemma json_type_covers:
  "wf_json v \<Longrightarrow> strict_ty (TypeOfJSONValue v) \<and> has_type v (TypeOfJSONValue v)"
proof (induction v rule: TypeOfJSONValue.induct)
  case (4 vs)
  have "\<forall>t \<in> set (map TypeOfJSONValue vs). strict_ty t" using 4 by (auto simp: list_all_iff)
  from elem_fold [OF this, of None] 4 show ?case
    by (cases "fold elem_step (map TypeOfJSONValue vs) None") (auto simp: list_all_iff)
next
  case (5 ms)
  have d: "distinct (map fst ms)" using 5(2) by simp
  define ps where "ps = map (\<lambda>(k, v). (k, TypeOfJSONValue v)) ms"
  have keys: "map fst ps = map fst ms" by (auto simp: ps_def)
  have look: "map_of ps k = Some (TypeOfJSONValue x)" if "(k, x) \<in> set ms" for k x
  proof (rule map_of_is_SomeI)
    show "distinct (map fst ps)" using d keys by simp
    show "(k, TypeOfJSONValue x) \<in> set ps" using that by (force simp: ps_def)
  qed
  have sub: "strict_ty (TypeOfJSONValue x) \<and> has_type x (TypeOfJSONValue x)"
    if "(k, x) \<in> set ms" for k x using 5 that by (fastforce simp: list_all_iff)
  have "TypeOfJSONValue (JObj ms) = ObjectType [] ps [] [] None"
    by (simp add: NewStrictObjectType_def ps_def)
  moreover have "list_all (\<lambda>(n, t). strict_ty t) ps"
    using sub by (auto simp: list_all_iff ps_def)
  moreover have "has_type (JObj ms) (ObjectType [] ps [] [] None)"
    unfolding has_type_object using look sub by blast
  ultimately show ?case using d keys by simp
qed simp_all

subsection \<open>Properties\<close>

text \<open>
  \<open>Assignable\<close> is reflexive on well-formed types (so \<open>EqualTypes\<close> is reflexive), and
  \<open>EqualTypes\<close> is symmetric.
\<close>

theorem EqualTypes_refl_sym:
  "(wf_ty t \<longrightarrow> EqualTypes t t) \<and> (EqualTypes t u \<longleftrightarrow> EqualTypes u t)"
  using Assignable_wf_refl by (auto simp: EqualTypes_def)

theorem EqualTypes_refl_sym_witness:
  "EqualTypes (NewStrictObjectType [(''a'', ArrayType StringType False)])
     (NewStrictObjectType [(''a'', ArrayType StringType False)])"
  using EqualTypes_refl_sym [of "NewStrictObjectType [(''a'', ArrayType StringType False)]" AnyType]
  by (simp add: NewStrictObjectType_def)

text \<open>
  (C28) The type of a JSON value covers the value: for every decoded JSON value,
  \<open>TypeOfJSONValue\<close> is a type whose values include it, where array elements are joined with
  \<open>Merge\<close> and objects are strict at every level.
\<close>

theorem TypeOfJSONValue_sound:
  assumes "wf_json v"
  shows "has_type v (TypeOfJSONValue v) \<and> strict_ty (TypeOfJSONValue v)"
  using json_type_covers [OF assms] by blast

theorem TypeOfJSONValue_sound_witness:
  "has_type (JObj [(''a'', JArr [JNum (f64_of_int 1), JStr ''x'']), (''b'', JArr [])])
     (TypeOfJSONValue (JObj [(''a'', JArr [JNum (f64_of_int 1), JStr ''x'']), (''b'', JArr [])]))"
  using TypeOfJSONValue_sound
    [of "JObj [(''a'', JArr [JNum (f64_of_int 1), JStr ''x'']), (''b'', JArr [])]"]
  by simp

text \<open>
  (C29) \<open>Merge\<close> is an upper bound on strict types: every value of either type is a value of the
  merged type, whatever objects and arrays are nested in them.
\<close>

theorem merge_upper_bound:
  assumes "strict_ty a" and "strict_ty b" and "has_type v a \<or> has_type v b"
  shows "has_type v (merge_ty a b)"
  using merge_strict_ty [OF assms(1,2)] assms(3) by (auto simp: covers_def)

theorem merge_upper_bound_witness:
  "has_type (JObj [(''a'', JNum (f64_of_int 3))])
     (merge_ty (NewStrictObjectType [(''a'', StringType)])
        (NewStrictObjectType [(''a'', NumberType), (''b'', BoolType)]))"
  by (rule merge_upper_bound) (simp_all add: NewStrictObjectType_def)

text \<open>
  \<open>Merge\<close> does not keep the documented invariant of \<open>ObjectType\<close>, that the types of all
  properties are assignable to \<open>Mapped\<close>: merging a strict object with a map of strings keeps
  the strict object's array property next to \<open>Mapped = string\<close>, although both operands
  satisfy the invariant; and the result does not accept the first operand.
\<close>

fun mapped_invariant :: "ty \<Rightarrow> bool" where
  "mapped_invariant (ObjectType d ps pn ev m) \<longleftrightarrow>
     (case m of None \<Rightarrow> True | Some t \<Rightarrow> list_all (\<lambda>(n, p). Assignable t p) ps)"
| "mapped_invariant _ \<longleftrightarrow> True"

theorem merge_breaks_mapped_invariant:
  "let a = NewStrictObjectType [(''p'', ArrayType NumberType False)];
       b = NewMapObjectType StringType in
   mapped_invariant a \<and> mapped_invariant b \<and> \<not> mapped_invariant (merge_ty a b)
   \<and> \<not> Assignable (merge_ty a b) a"
  by (simp add: Let_def NewStrictObjectType_def NewMapObjectType_def merge_names_def)

text \<open>
  The result of \<open>Merge\<close> depends on the iteration order of the Go map of properties: two
  visits of the same two properties give a \<open>Mapped\<close> of any in one order and of string in the
  other.
\<close>

theorem merge_depends_on_iteration_order:
  "let a = NewMapObjectType NumberType;
       b = NewStrictObjectType [(''x'', BoolType), (''y'', StringType)];
       b' = NewStrictObjectType [(''y'', StringType), (''x'', BoolType)] in
   map_of (props b) = map_of (props b')
   \<and> mapped (merge_ty a b) = Some AnyType \<and> mapped (merge_ty a b') = Some StringType"
  by (auto simp: Let_def NewStrictObjectType_def NewMapObjectType_def merge_names_def)

text \<open>
  A declared property is found under every spelling of its name, keeps its declared
  spelling, and leaves the other properties alone.
\<close>

theorem SetProperty_lookup:
  "let o' = SetProperty name t (ObjectType d ps pn ev m) in
   map_of (props o') (to_lower name) = Some t
   \<and> PropertyName o' (to_lower name) = name
   \<and> (\<forall>k. k \<noteq> to_lower name \<longrightarrow> map_of (props o') k = map_of ps k
        \<and> PropertyName o' k = PropertyName (ObjectType d ps pn ev m) k)"
  by (simp add: Let_def PropertyName_def map_of_al_delete)

theorem SetProperty_lookup_witness:
  "let o' = SetProperty ''Foo'' StringType
              (ObjectType [] [(''foo'', NumberType), (''bar'', BoolType)] [] [] None) in
   map_of (props o') (to_lower ''Foo'') = Some StringType
   \<and> PropertyName o' (to_lower ''Foo'') = ''Foo'' \<and> map_of (props o') ''bar'' = Some BoolType"
proof -
  have "to_lower ''Foo'' = ''foo''" by code_simp
  moreover have "(''bar''::string) \<noteq> ''foo''" by simp
  ultimately show ?thesis
    using SetProperty_lookup [of "''Foo''" StringType "[]"
        "[(''foo'', NumberType), (''bar'', BoolType)]" "[]" "[]" None]
    by (simp add: Let_def)
qed

end
