(* ===== verification/Go_Json.thy ===== *)
theory Go_Json
  imports Expr_Type Rune_Scanner
begin

text \<open>
  What the package uses of \<open>encoding/json\<close>: the decoding of a JSON text into an interface
  value (\<open>json.Unmarshal\<close>), and the members of its objects in the order of the text, which
  \<open>JSONMemberCollisions\<close> of \<open>expr_json.go\<close> walks. The text is first read into a tree that keeps
  repeated members; a member carries the text left after its name, for the decoder's
  \<open>InputOffset\<close>. The reader recurses on fuel, and \<open>json_fuel\<close> is enough for every text.
\<close>

subsection \<open>Runes\<close>

definition encode_rune :: "rune \<Rightarrow> string" where
  "encode_rune r =
     (if 0 \<le> r \<and> r < 128 then [char_of r]
      else if 0 \<le> r \<and> r < 2048 then [char_of (192 + r div 64), char_of (128 + r mod 64)]
      else if r < 0 \<or> 1114112 \<le> r \<or> (55296 \<le> r \<and> r < 57344)
      then [CHR 0xEF, CHR 0xBF, CHR 0xBD]
      else if r < 65536
      then [char_of (224 + r div 4096), char_of (128 + r div 64 mod 64), char_of (128 + r mod 64)]
      else [char_of (240 + r div 262144), char_of (128 + r div 4096 mod 64),
            char_of (128 + r div 64 mod 64), char_of (128 + r mod 64)])"

text \<open>\<open>[]rune(s)\<close>.\<close>

function runes :: "string \<Rightarrow> rune list" where
  "runes [] = []"
| "runes (c # s) = (case decode_rune (c # s) of (r, w) \<Rightarrow> r # runes (drop (w - 1) s))"
  by pat_completeness auto
termination by (relation "measure length") auto

declare runes.simps(2) [simp del]

text \<open>\<open>utf16.Encode\<close>.\<close>

definition utf16_units :: "rune \<Rightarrow> int list" where
  "utf16_units r =
     (if (0 \<le> r \<and> r < 55296) \<or> (57344 \<le> r \<and> r < 65536) then [r]
      else if 65536 \<le> r \<and> r < 1114112
      then [55296 + (r - 65536) div 1024, 56320 + (r - 65536) mod 1024]
      else [rune_error])"

definition utf16_encode :: "rune list \<Rightarrow> int list" where
  "utf16_encode rs = concat (map utf16_units rs)"

subsection \<open>The reader\<close>

datatype raw_json =
    RNull
  | RBool bool
  | RNum string
  | RStr string
  | RArr "raw_json list"
  | RObj "(string \<times> string \<times> raw_json) list"

fun json_ws :: "string \<Rightarrow> string" where
  "json_ws [] = []"
| "json_ws (c # s) = (if rn c \<in> {32, 9, 10, 13} then json_ws s else c # s)"

definition hex4 :: "string \<Rightarrow> rune option" where
  "hex4 s = (if length s < 4 then None else map_option int (parse_digits 16 0 (take 4 s)))"

text \<open>A string after its opening quote: its value and the text after the closing quote.\<close>

definition json_escape :: "char \<Rightarrow> char option" where
  "json_escape c =
     map_of [(CHR 0x22, CHR 0x22), (CHR 0x5C, CHR 0x5C), (CHR ''/'', CHR ''/''),
       (CHR ''b'', CHR 0x08), (CHR ''f'', CHR 0x0C), (CHR ''n'', CHR 0x0A),
       (CHR ''r'', CHR 0x0D), (CHR ''t'', CHR 0x09)] c"

definition json_unicode :: "string \<Rightarrow> (string \<times> nat) option" where
  "json_unicode s =
     (case hex4 s of
        None \<Rightarrow> None
      | Some r \<Rightarrow>
          let t = drop 4 s in
          if 55296 \<le> r \<and> r < 57344 then
            (case (if r < 56320 \<and> has_prefix t [CHR 0x5C, CHR ''u''] then hex4 (drop 2 t) else None) of
               Some r2 \<Rightarrow>
                 if 56320 \<le> r2 \<and> r2 < 57344
                 then Some (encode_rune ((r - 55296) * 1024 + (r2 - 56320) + 65536), 12)
                 else Some (encode_rune rune_error, 6)
             | None \<Rightarrow> Some (encode_rune rune_error, 6))
          else Some (encode_rune r, 6))"

text \<open>The next character or escape: its text and the bytes it takes.\<close>

definition json_piece :: "char \<Rightarrow> string \<Rightarrow> (string \<times> nat) option" where
  "json_piece c s =
     (if rn c < 32 then None
      else if c = CHR 0x5C then
        (case s of
           [] \<Rightarrow> None
         | e # s' \<Rightarrow>
             if e = CHR ''u'' then json_unicode s'
             else map_option (\<lambda>x. ([x], 2)) (json_escape e))
      else (case decode_rune (c # s) of (r, w) \<Rightarrow> Some (encode_rune r, w)))"

function json_text :: "string \<Rightarrow> (string \<times> string) option" where
  "json_text [] = None"
| "json_text (c # s) =
     (if c = CHR 0x22 then Some ([], s)
      else (case json_piece c s of
          None \<Rightarrow> None
        | Some (t, w) \<Rightarrow> map_option (\<lambda>(v, u). (t @ v, u)) (json_text (drop (w - 1) s))))"
  by pat_completeness auto
termination by (relation "measure length") auto

declare json_text.simps(2) [simp del]

text \<open>A number: its text and the rest.\<close>

definition json_digits :: "string \<Rightarrow> (string \<times> string) option" where
  "json_digits s = (case takeWhile is_digit s of [] \<Rightarrow> None | d \<Rightarrow> Some (d, dropWhile is_digit s))"

definition json_int :: "string \<Rightarrow> (string \<times> string) option" where
  "json_int s =
     (case json_digits s of
        None \<Rightarrow> None
      | Some (d, r) \<Rightarrow> if hd d = CHR ''0'' then Some (''0'', tl s) else Some (d, r))"

definition json_frac :: "string \<Rightarrow> (string \<times> string) option" where
  "json_frac s =
     (case s of
        [] \<Rightarrow> Some ([], s)
      | c # t \<Rightarrow>
          if c = CHR ''.'' then map_option (\<lambda>(f, t). (c # f, t)) (json_digits t)
          else Some ([], s))"

definition json_exponent :: "string \<Rightarrow> (string \<times> string) option" where
  "json_exponent s =
     (case s of
        [] \<Rightarrow> Some ([], s)
      | e # t \<Rightarrow>
          if e = CHR ''e'' \<or> e = CHR ''E'' then
            (if t \<noteq> [] \<and> (hd t = CHR ''-'' \<or> hd t = CHR ''+'')
             then map_option (\<lambda>(d, u). (e # hd t # d, u)) (json_digits (tl t))
             else map_option (\<lambda>(d, u). (e # d, u)) (json_digits t))
          else Some ([], s))"

definition json_number :: "string \<Rightarrow> (string \<times> string) option" where
  "json_number s =
     (let neg = (s \<noteq> [] \<and> hd s = CHR ''-'') in
      case json_int (if neg then tl s else s) of
        None \<Rightarrow> None
      | Some (i, r) \<Rightarrow>
          (case json_frac r of
             None \<Rightarrow> None
           | Some (f, r) \<Rightarrow>
               (case json_exponent r of
                  None \<Rightarrow> None
                | Some (e, r) \<Rightarrow> Some ((if neg then ''-'' else []) @ i @ f @ e, r))))"

fun json_value :: "nat \<Rightarrow> string \<Rightarrow> (raw_json \<times> string) option"
  and json_elems :: "nat \<Rightarrow> string \<Rightarrow> (raw_json list \<times> string) option"
  and json_members :: "nat \<Rightarrow> string \<Rightarrow> ((string \<times> string \<times> raw_json) list \<times> string) option"
where
  "json_value 0 s = None"
| "json_value (Suc n) s0 =
     (case json_ws s0 of
        [] \<Rightarrow> None
      | c # s \<Rightarrow>
          if c = CHR ''{'' then
            (case json_ws s of
               [] \<Rightarrow> None
             | d # t \<Rightarrow>
                 if d = CHR ''}'' then Some (RObj [], t)
                 else map_option (\<lambda>(ms, t). (RObj ms, t)) (json_members n (d # t)))
          else if c = CHR ''['' then
            (case json_ws s of
               [] \<Rightarrow> None
             | d # t \<Rightarrow>
                 if d = CHR '']'' then Some (RArr [], t)
                 else map_option (\<lambda>(vs, t). (RArr vs, t)) (json_elems n (d # t)))
          else if c = CHR 0x22 then map_option (\<lambda>(v, t). (RStr v, t)) (json_text s)
          else if has_prefix (c # s) ''true'' then Some (RBool True, drop 3 s)
          else if has_prefix (c # s) ''false'' then Some (RBool False, drop 4 s)
          else if has_prefix (c # s) ''null'' then Some (RNull, drop 3 s)
          else map_option (\<lambda>(x, t). (RNum x, t)) (json_number (c # s)))"
| "json_elems 0 s = None"
| "json_elems (Suc n) s =
     (case json_value n s of
        None \<Rightarrow> None
      | Some (v, t) \<Rightarrow>
          (case json_ws t of
             [] \<Rightarrow> None
           | d # u \<Rightarrow>
               if d = CHR '','' then map_option (\<lambda>(vs, w). (v # vs, w)) (json_elems n u)
               else if d = CHR '']'' then Some ([v], u) else None))"
| "json_members 0 s = None"
| "json_members (Suc n) s0 =
     (case json_ws s0 of
        [] \<Rightarrow> None
      | q # s \<Rightarrow>
          if q \<noteq> CHR 0x22 then None
          else (case json_text s of
              None \<Rightarrow> None
            | Some (k, t) \<Rightarrow>
                (case json_ws t of
                   [] \<Rightarrow> None
                 | c # u \<Rightarrow>
                     if c \<noteq> CHR '':'' then None
                     else (case json_value n u of
                         None \<Rightarrow> None
                       | Some (v, w) \<Rightarrow>
                           (case json_ws w of
                              [] \<Rightarrow> None
                            | d # x \<Rightarrow>
                                if d = CHR '',''
                                then map_option (\<lambda>(ms, y). ((k, t, v) # ms, y)) (json_members n x)
                                else if d = CHR ''}'' then Some ([(k, t, v)], x) else None)))))"

definition json_fuel :: "string \<Rightarrow> nat" where
  "json_fuel s = 2 * length s + 2"

text \<open>The reader consumes its text, and more fuel than \<open>json_fuel\<close> does not change its result.\<close>

lemma json_ws_length: "length (json_ws s) \<le> length s"
  by (induction s) auto

lemma json_ws_Cons: "json_ws s = c # t \<Longrightarrow> length t < length s"
  using json_ws_length [of s] by simp

lemma json_text_length: "json_text s = Some (v, t) \<Longrightarrow> length t < length s"
proof (induction s arbitrary: v rule: json_text.induct)
  case (2 c s)
  show ?case
  proof (cases "c = CHR 0x22")
    case True
    then show ?thesis using "2.prems" by (simp add: json_text.simps)
  next
    case False
    then obtain x w where xw: "json_piece c s = Some (x, w)"
      using "2.prems" by (auto simp: json_text.simps split: option.splits)
    then obtain v' where "json_text (drop (w - 1) s) = Some (v', t)"
      using "2.prems" False by (auto simp: json_text.simps)
    then have "length t < length (drop (w - 1) s)" using "2.IH" [OF False xw] by blast
    then show ?thesis by simp
  qed
qed simp

lemma json_digits_length: "json_digits s = Some (d, t) \<Longrightarrow> length t < length s"
  by (cases s) (auto simp: json_digits_def le_imp_less_Suc length_dropWhile_le split: list.splits if_splits)

lemma json_number_length: "json_number s = Some (x, t) \<Longrightarrow> length t < length s"
proof -
  assume n: "json_number s = Some (x, t)"
  define u where "u = (if s \<noteq> [] \<and> hd s = CHR ''-'' then tl s else s)"
  have u: "u = s \<or> u = tl s" by (simp add: u_def)
  obtain i f e r r' where i: "json_int u = Some (i, r)"
    and f: "json_frac r = Some (f, r')" and e: "json_exponent r' = Some (e, t)"
    using n unfolding json_number_def Let_def u_def [symmetric]
    by (force split: option.splits prod.splits)
  have "length r < length u" using i json_digits_length [of u]
    by (cases u) (auto simp: json_int_def split: option.splits prod.splits if_splits)
  moreover have "length r' \<le> length r" using f
    by (cases r) (auto simp: json_frac_def dest!: json_digits_length split: if_splits)
  moreover have "length t \<le> length r'" using e
    by (cases r') (auto simp: json_exponent_def dest!: json_digits_length split: if_splits)
  ultimately show "length t < length s" using u by (cases s) auto
qed

lemma json_reads:
  "(\<forall>s v t. json_value n s = Some (v, t) \<longrightarrow> length t < length s)
   \<and> (\<forall>s v t. json_elems n s = Some (v, t) \<longrightarrow> length t < length s)
   \<and> (\<forall>s v t. json_members n s = Some (v, t) \<longrightarrow> length t < length s)"
proof (induction n)
  case (Suc n)
  then have v: "json_value n s = Some (v, t) \<Longrightarrow> length t < length s"
    and e: "json_elems n s = Some (vs, t) \<Longrightarrow> length t < length s"
    and m: "json_members n s = Some (ms, t) \<Longrightarrow> length t < length s" for s v vs ms t
    by blast+
  have "length t < length s" if val: "json_value (Suc n) s = Some (v, t)" for s v t
  proof -
    have "json_ws s \<noteq> []" using val by auto
    then obtain c u where u: "json_ws s = c # u" by (auto simp: neq_Nil_conv)
    have "length t \<le> length u"
      using val u json_ws_length [of u] e [of "json_ws u"] m [of "json_ws u"]
        json_text_length [of u] json_number_length [of "c # u"]
      by (fastforce split: if_splits list.splits option.splits)
    then show ?thesis using json_ws_Cons [OF u] by simp
  qed
  moreover have "length t < length s" if "json_elems (Suc n) s = Some (vs, t)" for s vs t
    using that by (auto dest!: v e json_ws_Cons split: if_splits list.splits option.splits)
  moreover have "length t < length s" if "json_members (Suc n) s = Some (ms, t)" for s ms t
    using that
    by (auto dest!: v m json_ws_Cons json_text_length split: if_splits list.splits option.splits)
  ultimately show ?case by blast
qed simp


lemma json_fuel_step:
  "(\<forall>s. 2 * length s + 1 \<le> n \<longrightarrow> json_value (Suc n) s = json_value n s)
   \<and> (\<forall>s. 2 * length s + 2 \<le> n \<longrightarrow> json_elems (Suc n) s = json_elems n s)
   \<and> (\<forall>s. 2 * length s + 2 \<le> n \<longrightarrow> json_members (Suc n) s = json_members n s)"
proof (induction n)
  case (Suc n)
  define m where "m = Suc n"
  from Suc have v: "2 * length s + 1 \<le> n \<Longrightarrow> json_value m s = json_value n s"
    and e: "2 * length s + 2 \<le> n \<Longrightarrow> json_elems m s = json_elems n s"
    and o': "2 * length s + 2 \<le> n \<Longrightarrow> json_members m s = json_members n s" for s
    unfolding m_def by blast+
  have "json_value (Suc m) s = json_value (Suc n) s" if l: "2 * length s + 1 \<le> Suc n" for s
  proof (cases "json_ws s")
    case (Cons c u)
    have "length (json_ws u) < length s"
      using json_ws_Cons [OF Cons] json_ws_length [of u] by simp
    then have "json_elems m (json_ws u) = json_elems n (json_ws u)"
      "json_members m (json_ws u) = json_members n (json_ws u)"
      using l by (auto intro!: e o')
    then show ?thesis using Cons by (cases "json_ws u") auto
  qed simp
  moreover have "json_elems (Suc m) s = json_elems (Suc n) s" if l: "2 * length s + 2 \<le> Suc n" for s
  proof -
    have "json_elems m u = json_elems n u" if "json_value n s = Some (x, t)" "json_ws t = d # u" for x t d u
      using l that json_reads [of n] json_ws_Cons [OF that(2)] by (intro e) fastforce
    then show ?thesis using v [of s] l by (auto split: option.splits list.splits)
  qed
  moreover have "json_members (Suc m) s = json_members (Suc n) s"
    if l: "2 * length s + 2 \<le> Suc n" for s
  proof (cases "json_ws s")
    case (Cons q s')
    have s': "length s' < length s" by (rule json_ws_Cons [OF Cons])
    have val: "json_value m u = json_value n u"
      if "json_text s' = Some (k, t)" "json_ws t = d # u" for k t d u
      using l s' json_text_length [OF that(1)] json_ws_Cons [OF that(2)] by (intro v) simp
    have mem: "json_members m y = json_members n y"
      if "json_text s' = Some (k, t)" "json_ws t = d # u" "json_value n u = Some (x, w)"
        "json_ws w = d' # y" for k t d u x w d' y
      using l s' json_text_length [OF that(1)] json_ws_Cons [OF that(2)] json_ws_Cons [OF that(4)]
        json_reads [of n] that(3)
      by (intro o') fastforce
    show ?thesis using Cons val mem by (auto split: option.splits list.splits)
  qed simp
  ultimately show ?case unfolding m_def by blast
qed simp

lemma json_fuel_enough: "json_value (json_fuel s + k) s = json_value (json_fuel s) s"
proof (induction k)
  case (Suc k)
  have "json_value (Suc (json_fuel s + k)) s = json_value (json_fuel s + k) s"
    using json_fuel_step by (simp add: json_fuel_def)
  then show ?case using Suc by simp
qed simp

subsection \<open>Reading and Unmarshal\<close>

definition json_read :: "string \<Rightarrow> raw_json option" where
  "json_read s =
     (case json_value (json_fuel s) s of
        Some (v, t) \<Rightarrow> if json_ws t = [] then Some v else None
      | None \<Rightarrow> None)"

text \<open>Nested arrays and objects; the decoder stops at 10000.\<close>

fun raw_nesting :: "raw_json \<Rightarrow> nat" where
  "raw_nesting (RArr vs) = Suc (fold max (map raw_nesting vs) 0)"
| "raw_nesting (RObj ms) = Suc (fold max (map (\<lambda>(k, t, v). raw_nesting v) ms) 0)"
| "raw_nesting _ = 0"

text \<open>The decoded value: the last of repeated members wins, a number out of range is an error.\<close>

fun json_of :: "raw_json \<Rightarrow> json option" where
  "json_of RNull = Some JNull"
| "json_of (RBool b) = Some (JBool b)"
| "json_of (RNum x) = (case parse_float x of Some (f, True) \<Rightarrow> Some (JNum f) | _ \<Rightarrow> None)"
| "json_of (RStr s) = Some (JStr s)"
| "json_of (RArr vs) = map_option JArr (those (map json_of vs))"
| "json_of (RObj ms) =
     map_option (\<lambda>vs. JObj (fold (\<lambda>(k, v). al_put k v) (zip (map fst ms) vs) []))
       (those (map (\<lambda>(k, t, v). json_of v) ms))"

definition json_unmarshal :: "string \<Rightarrow> json option" where
  "json_unmarshal s =
     (case json_read s of
        None \<Rightarrow> None
      | Some v \<Rightarrow> if raw_nesting v \<le> 10000 then json_of v else None)"

subsection \<open>JSONMemberCollisions\<close>

text \<open>\<open>ordinalIgnoreCaseKey\<close>, on ASCII letters.\<close>

definition ordinalIgnoreCaseKey :: "string \<Rightarrow> string" where
  "ordinalIgnoreCaseKey s = to_upper s"

text \<open>The levels of values in a text; the walk stops at a value below level 10000.\<close>

fun raw_levels :: "raw_json \<Rightarrow> nat" where
  "raw_levels (RArr vs) = (if vs = [] then 0 else Suc (fold max (map raw_levels vs) 0))"
| "raw_levels (RObj ms) = (if ms = [] then 0 else Suc (fold max (map (\<lambda>(k, t, v). raw_levels v) ms) 0))"
| "raw_levels _ = 0"

type_synonym collision = "string \<times> string \<times> nat"

text \<open>\<open>walk\<close> on one value, and its loop over the members with the map \<open>seen\<close>. The offset of a
  collision is the position after the member's name.\<close>

fun walk_value :: "nat \<Rightarrow> raw_json \<Rightarrow> collision list"
  and walk_members :: "nat \<Rightarrow> (string \<times> string) list \<Rightarrow> (string \<times> string \<times> raw_json) list \<Rightarrow> collision list"
where
  "walk_value n (RObj ms) = walk_members n [] ms"
| "walk_value n (RArr vs) = concat (map (walk_value n) vs)"
| "walk_value n _ = []"
| "walk_members n seen [] = []"
| "walk_members n seen ((key, rest, v) # ms) =
     (let folded = ordinalIgnoreCaseKey key in
      case map_of seen folded of
        Some first \<Rightarrow>
          (first, key, n - length rest) # walk_value n v @ walk_members n seen ms
      | None \<Rightarrow> walk_value n v @ walk_members n ((folded, key) # seen) ms)"

definition JSONMemberCollisions :: "string \<Rightarrow> collision list" where
  "JSONMemberCollisions s =
     (case json_read s of
        None \<Rightarrow> []
      | Some v \<Rightarrow> if raw_levels v \<le> 10000 then walk_value (length s) v else [])"

end
