(* ===== verification/Expr_Const.thy ===== *)
theory Expr_Const
  imports Expr_Parser Go_Json
begin

text \<open>
  The constant evaluator shared by condition diagnostics and reachability:
  \<open>condition_constant.go\<close>, \<open>expr_number.go\<close> with the scalar productions of
  \<open>internal/yamlscalar\<close>, and the sources of conditions (\<open>condition.go\<close>). A Go \<open>any\<close> is a \<open>json\<close>
  value; a pair (value, known) is an option.
\<close>

subsection \<open>Scalar productions\<close>

definition all_in :: "(char \<Rightarrow> bool) \<Rightarrow> string \<Rightarrow> bool" where
  "all_in p s \<longleftrightarrow> s \<noteq> [] \<and> list_all p s"

definition is_hex_digit :: "char \<Rightarrow> bool" where
  "is_hex_digit c \<longleftrightarrow> (case digit_value c of Some d \<Rightarrow> d < 16 | None \<Rightarrow> False)"

definition is_octal_digit :: "char \<Rightarrow> bool" where
  "is_octal_digit c \<longleftrightarrow> 48 \<le> rn c \<and> rn c \<le> 55"

definition is_sign :: "char \<Rightarrow> bool" where
  "is_sign c \<longleftrightarrow> c = CHR ''-'' \<or> c = CHR ''+''"

text \<open>\<open>^(?:[0-9]+|[-+][0-9]+|0x[0-9a-fA-F]+|0o[0-7]+)$\<close>.\<close>

definition IsCoreSchemaInt :: "string \<Rightarrow> bool" where
  "IsCoreSchemaInt s \<longleftrightarrow>
     all_in is_digit s
     \<or> (s \<noteq> [] \<and> is_sign (hd s) \<and> all_in is_digit (tl s))
     \<or> (has_prefix s ''0x'' \<and> all_in is_hex_digit (drop 2 s))
     \<or> (has_prefix s ''0o'' \<and> all_in is_octal_digit (drop 2 s))"

definition unsigned_part :: "string \<Rightarrow> string" where
  "unsigned_part s = (if s \<noteq> [] \<and> is_sign (hd s) then tl s else s)"

text \<open>\<open>(?:[eE][-+]?[0-9]+)?$\<close>.\<close>

definition optional_exponent :: "string \<Rightarrow> bool" where
  "optional_exponent s \<longleftrightarrow>
     s = [] \<or> ((hd s = CHR ''e'' \<or> hd s = CHR ''E'') \<and> all_in is_digit (unsigned_part (tl s)))"

text \<open>\<open>^[-+]?(?:\.[0-9]+|[0-9]+(?:\.[0-9]*)?)(?:[eE][-+]?[0-9]+)?$\<close>.\<close>

definition IsCoreSchemaDecimal :: "string \<Rightarrow> bool" where
  "IsCoreSchemaDecimal s \<longleftrightarrow>
     (let u = unsigned_part s; i = takeWhile is_digit u; r = dropWhile is_digit u in
      if r \<noteq> [] \<and> hd r = CHR ''.''
      then (i \<noteq> [] \<or> takeWhile is_digit (tl r) \<noteq> []) \<and> optional_exponent (dropWhile is_digit (tl r))
      else i \<noteq> [] \<and> optional_exponent r)"

subsection \<open>ToNumber\<close>

definition ToNumber_string :: "string \<Rightarrow> f64" where
  "ToNumber_string s =
     (let v = trim_space s; l = to_lower v in
      if l = [] then f64_zero
      else if l = ''infinity'' \<or> l = ''+infinity'' then F64Inf False
      else if l = ''-infinity'' then F64Inf True
      else if IsCoreSchemaDecimal v then (case parse_float v of Some (x, _) \<Rightarrow> x | None \<Rightarrow> F64NaN)
      else if (has_prefix v ''0x'' \<or> has_prefix v ''0o'') \<and> IsCoreSchemaInt v then
        (case parse_uint0 v of
           Some n \<Rightarrow>
             if 2 ^ 32 \<le> n then F64NaN
             else if 2 ^ 31 - 1 < n then f64_of_int (int n - 2 ^ 32)
             else f64_of_int (int n)
         | None \<Rightarrow> F64NaN)
      else F64NaN)"

fun ToNumber :: "json \<Rightarrow> f64" where
  "ToNumber JNull = f64_zero"
| "ToNumber (JBool b) = f64_of_int (if b then 1 else 0)"
| "ToNumber (JNum x) = x"
| "ToNumber (JStr s) = ToNumber_string s"
| "ToNumber _ = F64NaN"

subsection \<open>Truthiness and comparison\<close>

fun ExpressionTruthy :: "json \<Rightarrow> bool" where
  "ExpressionTruthy JNull = False"
| "ExpressionTruthy (JBool b) = b"
| "ExpressionTruthy (JNum x) = (\<not> f64_eq x f64_zero \<and> x \<noteq> F64NaN)"
| "ExpressionTruthy (JStr s) = (s \<noteq> [])"
| "ExpressionTruthy _ = True"

fun compareConditionNumbers :: "compare_kind \<Rightarrow> f64 \<Rightarrow> f64 \<Rightarrow> bool" where
  "compareConditionNumbers CmpEq a b = f64_eq a b"
| "compareConditionNumbers CmpNotEq a b = (\<not> f64_eq a b)"
| "compareConditionNumbers CmpLess a b = f64_less a b"
| "compareConditionNumbers CmpLessEq a b = f64_less_eq a b"
| "compareConditionNumbers CmpGreater a b = f64_less b a"
| "compareConditionNumbers CmpGreaterEq a b = f64_less_eq b a"

text \<open>\<open>slices.Compare\<close>.\<close>

fun slices_compare :: "int list \<Rightarrow> int list \<Rightarrow> int" where
  "slices_compare [] [] = 0"
| "slices_compare [] (y # ys) = -1"
| "slices_compare (x # xs) [] = 1"
| "slices_compare (x # xs) (y # ys) =
     (if x < y then -1 else if y < x then 1 else slices_compare xs ys)"

fun composite :: "json \<Rightarrow> bool" where
  "composite (JObj _) = True"
| "composite (JArr _) = True"
| "composite _ = False"

definition string_order :: "string \<Rightarrow> string \<Rightarrow> int" where
  "string_order l r = slices_compare (utf16_encode (runes (ordinalIgnoreCaseKey l)))
     (utf16_encode (runes (ordinalIgnoreCaseKey r)))"

definition CompareConditionValues :: "compare_kind \<Rightarrow> json \<Rightarrow> json \<Rightarrow> bool option" where
  "CompareConditionValues k left right =
     (case (left, right) of
        (JStr l, JStr r) \<Rightarrow>
          Some (compareConditionNumbers k (f64_of_int (string_order l r)) (f64_of_int 0))
      | _ \<Rightarrow>
          if composite left \<and> composite right then None
          else Some (compareConditionNumbers k (ToNumber left) (ToNumber right)))"

subsection \<open>Strings of constants\<close>

definition FormatBool :: "bool \<Rightarrow> string" where
  "FormatBool b = (if b then ''true'' else ''false'')"

fun nat_digits :: "nat \<Rightarrow> string" where
  "nat_digits n =
     (if n < 10 then [char_of (48 + n)] else nat_digits (n div 10) @ [char_of (48 + n mod 10)])"

declare nat_digits.simps [simp del]

definition int_string :: "int \<Rightarrow> string" where
  "int_string i = (if i < 0 then CHR ''-'' # nat_digits (nat (- i)) else nat_digits (nat i))"

fun constantPredicateString :: "json \<Rightarrow> string option" where
  "constantPredicateString (JStr s) = Some s"
| "constantPredicateString JNull = Some []"
| "constantPredicateString (JBool b) = Some (FormatBool b)"
| "constantPredicateString (JNum (F64Fin neg r)) =
     (let x = f64_signed neg r in
      if \<bar>x\<bar> < 10 ^ 15 \<and> of_int \<lfloor>x\<rfloor> = x \<and> (x \<noteq> 0 \<or> \<not> neg)
      then Some (int_string \<lfloor>x\<rfloor>) else None)"
| "constantPredicateString _ = None"

fun constantJoinString :: "json \<Rightarrow> string option" where
  "constantJoinString (JStr s) = Some s"
| "constantJoinString JNull = Some []"
| "constantJoinString (JBool b) = Some (FormatBool b)"
| "constantJoinString (JArr _) = Some ''Array''"
| "constantJoinString (JObj _) = Some ''Object''"
| "constantJoinString (JNum _) = None"

text \<open>\<open>strconv.Atoi\<close> on the index of a placeholder: \<open>None\<close> on an error.\<close>

definition atoi :: "string \<Rightarrow> int option" where
  "atoi s =
     (let u = unsigned_part s in
      if \<not> all_in is_digit u then None
      else (case parse_digits 10 0 u of
          None \<Rightarrow> None
        | Some n \<Rightarrow>
            if s \<noteq> [] \<and> hd s = CHR ''-''
            then (if 2 ^ 63 < n then None else Some (- int n))
            else (if 2 ^ 63 \<le> n then None else Some (int n))))"

function format_loop :: "string \<Rightarrow> json list \<Rightarrow> string option" where
  "format_loop [] args = Some []"
| "format_loop (c # s) args =
     (if c \<noteq> CHR 0x7B \<and> c \<noteq> CHR 0x7D then map_option ((#) c) (format_loop s args)
      else if s \<noteq> [] \<and> hd s = c then map_option ((#) c) (format_loop (tl s) args)
      else (case str_index (c # s) [CHR 0x7D] of
          None \<Rightarrow> None
        | Some e \<Rightarrow>
            if c \<noteq> CHR 0x7B \<or> e < 2 then None
            else (case atoi (take (e - 1) s) of
                None \<Rightarrow> None
              | Some i \<Rightarrow>
                  if i < 0 \<or> int (length args) \<le> i then None
                  else (case constantPredicateString (args ! nat i) of
                      None \<Rightarrow> None
                    | Some v \<Rightarrow> map_option ((@) v) (format_loop (drop e s) args)))))"
  by pat_completeness auto
termination by (relation "measure (\<lambda>(s, args). length s)") auto

declare format_loop.simps(2) [simp del]

definition constantConditionFormat :: "string \<Rightarrow> json list \<Rightarrow> json option" where
  "constantConditionFormat format args = map_option JStr (format_loop format args)"

subsection \<open>Constant calls\<close>

text \<open>Only strings that need no escaping in either JSON engine are folded.\<close>

definition plain_json_char :: "char \<Rightarrow> bool" where
  "plain_json_char c \<longleftrightarrow> 32 \<le> rn c \<and> rn c \<le> 126
     \<and> c \<notin> {CHR 0x22, CHR 0x5C, CHR ''<'', CHR ''>'', CHR 0x26, CHR 0x27, CHR ''+'', CHR 0x60}"

fun constant_tojson :: "json list \<Rightarrow> json option" where
  "constant_tojson [JNull] = Some (JStr ''null'')"
| "constant_tojson [JBool b] = Some (JStr (FormatBool b))"
| "constant_tojson [JStr s] =
     (if list_all plain_json_char s then Some (JStr (CHR 0x22 # s @ [CHR 0x22])) else None)"
| "constant_tojson _ = None"

definition constant_join :: "json list \<Rightarrow> json option" where
  "constant_join args =
     (if args = [] \<or> 2 < length args then None
      else (case hd args of
          JArr items \<Rightarrow>
            (case (if length args = 2 \<and> 1 < length items
                   then (if composite (args ! 1) then Some '','' else constantJoinString (args ! 1))
                   else Some '','') of
               None \<Rightarrow> None
             | Some separator \<Rightarrow>
                 map_option (\<lambda>parts. JStr (join_with separator parts))
                   (those (map constantJoinString items)))
        | JObj _ \<Rightarrow> Some (JStr [])
        | v \<Rightarrow> map_option JStr (constantJoinString v)))"

fun constant_fromjson :: "json list \<Rightarrow> json option" where
  "constant_fromjson [JStr s] = (if JSONMemberCollisions s = [] then json_unmarshal s else None)"
| "constant_fromjson _ = None"

text \<open>The loop of \<open>contains\<close> over the items of an array.\<close>

fun contains_item :: "json list \<Rightarrow> json \<Rightarrow> bool \<Rightarrow> bool option" where
  "contains_item [] x known = (if known then Some False else None)"
| "contains_item (item # items) x known =
     (case CompareConditionValues CmpEq item x of
        Some True \<Rightarrow> Some True
      | Some False \<Rightarrow> contains_item items x known
      | None \<Rightarrow> contains_item items x False)"

definition constant_predicate :: "string \<Rightarrow> json \<Rightarrow> json \<Rightarrow> json option" where
  "constant_predicate f a b =
     (case (constantPredicateString a, constantPredicateString b) of
        (Some left, Some right) \<Rightarrow>
          (let l = ordinalIgnoreCaseKey left; r = ordinalIgnoreCaseKey right in
           Some (JBool
             (if f = ''contains'' then contains_str l r
              else if f = ''startswith'' then has_prefix l r
              else has_suffix l r)))
      | _ \<Rightarrow> None)"

definition constant_contains :: "string \<Rightarrow> json list \<Rightarrow> json option" where
  "constant_contains f args =
     (case args of
        [a, b] \<Rightarrow>
          (case (a, f = ''contains'') of
             (JArr items, True) \<Rightarrow> map_option JBool (contains_item items b True)
           | _ \<Rightarrow> constant_predicate f a b)
      | _ \<Rightarrow> None)"

fun constant_format :: "json list \<Rightarrow> json option" where
  "constant_format (JStr f # args) = constantConditionFormat f args"
| "constant_format _ = None"

definition constant_call :: "string \<Rightarrow> json list \<Rightarrow> json option" where
  "constant_call callee args =
     (let f = to_lower callee in
      if f = ''tojson'' then constant_tojson args
      else if f = ''join'' then constant_join args
      else if f = ''fromjson'' then constant_fromjson args
      else if f = ''contains'' \<or> f = ''startswith'' \<or> f = ''endswith'' then constant_contains f args
      else if f = ''format'' then constant_format args
      else None)"

subsection \<open>ConditionConstantValue\<close>

fun ConditionConstantValue :: "node \<Rightarrow> json option"
  and constant_case :: "node list \<Rightarrow> json option"
where
  "ConditionConstantValue (NullNode _ _) = Some JNull"
| "ConditionConstantValue (BoolNode _ b _) = Some (JBool b)"
| "ConditionConstantValue (IntNode _ i t) =
     (if i = 0 \<and> has_prefix (tk_value t) ''-'' then Some (JNum f64_minus_zero)
      else Some (JNum (f64_of_int i)))"
| "ConditionConstantValue (FloatNode _ x _) = Some (JNum x)"
| "ConditionConstantValue (StringNode _ s _) = Some (JStr s)"
| "ConditionConstantValue (NotOpNode _ e _) =
     map_option (\<lambda>v. JBool (\<not> ExpressionTruthy v)) (ConditionConstantValue e)"
| "ConditionConstantValue (LogicalOpNode _ k l r) =
     (case ConditionConstantValue l of
        None \<Rightarrow> None
      | Some left \<Rightarrow>
          if ExpressionTruthy left = (k = LogicalOr) then Some left else ConditionConstantValue r)"
| "ConditionConstantValue (CompareOpNode _ k l r) =
     (case (ConditionConstantValue l, ConditionConstantValue r) of
        (Some left, Some right) \<Rightarrow> map_option JBool (CompareConditionValues k left right)
      | _ \<Rightarrow> None)"
| "ConditionConstantValue (FuncCallNode _ callee args _) =
     (if equal_fold callee ''case'' then
        (if length args < 3 \<or> even (length args) then None else constant_case args)
      else (case those (map ConditionConstantValue args) of
          None \<Rightarrow> None
        | Some vs \<Rightarrow> constant_call callee vs))"
| "ConditionConstantValue _ = None"
| "constant_case (p # v # rest) =
     (case ConditionConstantValue p of
        Some (JBool True) \<Rightarrow> ConditionConstantValue v
      | Some (JBool False) \<Rightarrow> constant_case rest
      | _ \<Rightarrow> None)"
| "constant_case [e] = ConditionConstantValue e"
| "constant_case [] = None"

end
