(* ===== verification/Expr_Event.thy ===== *)
theory Expr_Event
  imports Expr_Const
begin

text \<open>
  Condition sources (\<open>condition.go\<close>), falsy middle operands (\<open>expr_ternary.go\<close>), secrets in
  script text (\<open>secret_interpolation.go\<close>), static references (\<open>expr_condition_checks.go\<close>),
  name suggestions and event payloads (\<open>event.go\<close>, \<open>event_variants.go\<close>).
\<close>

subsection \<open>Condition sources\<close>

definition ContainsExpression :: "string \<Rightarrow> bool" where
  "ContainsExpression s =
     (case str_index s ''${{'' of
        None \<Rightarrow> False
      | Some i \<Rightarrow> (case str_index s ''}}'' of None \<Rightarrow> False | Some j \<Rightarrow> i < j))"

definition ConditionSource :: "string \<Rightarrow> string" where
  "ConditionSource source =
     (let s = (case literalExpressionValue source of Some v \<Rightarrow> v | None \<Rightarrow> source) in
      if trim_space s = [] then ''success()'' else s)"

definition count_newlines :: "string \<Rightarrow> nat" where
  "count_newlines s = length (filter (\<lambda>c. c = CHR 0x0A) s)"

definition last_line :: "string \<Rightarrow> string" where
  "last_line s = rev (takeWhile (\<lambda>c. c \<noteq> CHR 0x0A) (rev s))"

text \<open>The closing delimiter of a bare condition is synthetic: errors stay before it.\<close>

definition clip_condition_error :: "string \<Rightarrow> expr_error \<Rightarrow> expr_error" where
  "clip_condition_error folded e =
     (let n = length folded - 2 in
      if e_end_offset e \<le> n then e
      else let e = e\<lparr>e_end_offset := n\<rparr> in
        if e_offset e \<le> n then e
        else let body = take n folded in
          e\<lparr>e_offset := n, e_line := count_newlines body + 1,
            e_column := length (runes (last_line body)) + 1\<rparr>)"

definition ParseConditionExpression :: "string \<Rightarrow> (node option \<times> expr_error option \<times> nat) option" where
  "ParseConditionExpression source =
     (if literalExpressionValue source \<noteq> None \<or> \<not> ContainsExpression source then
        (let folded = ConditionSource source @ ''}}'' in
         case parse (new_lexer folded) of
           None \<Rightarrow> None
         | Some (Inl e, l) \<Rightarrow> Some (None, Some (clip_condition_error folded e), 0)
         | Some (Inr n, l) \<Rightarrow>
             if lex_offset l \<noteq> length folded
             then Some (None, lx_err (lex_error (LexMsg LexTrailing) l), 0)
             else Some (Some n, None, 0))
      else if \<not> has_prefix source ''${{'' then Some (None, None, 0)
      else (case parse (new_lexer (drop 3 source)) of
          None \<Rightarrow> None
        | Some (Inl e, l) \<Rightarrow> Some (None, Some e, 3)
        | Some (Inr n, l) \<Rightarrow>
            if lex_offset l \<noteq> length source - 3 then Some (None, None, 0)
            else Some (Some n, None, 3)))"

subsection \<open>Errors at expressions\<close>

definition error_at_expr :: "finding_kind \<Rightarrow> node \<Rightarrow> msg \<Rightarrow> expr_error" where
  "error_at_expr k e m =
     (let s = expression_span e in
      \<lparr>e_message = m, e_offset = sp_start s, e_end_offset = sp_end s, e_line = sp_line s,
       e_column = sp_column s, e_rule = fk_rule k, e_code = fk_code k\<rparr>)"

definition error_at_callee :: "finding_kind \<Rightarrow> node \<Rightarrow> msg \<Rightarrow> expr_error" where
  "error_at_callee k n m = error_at_token k (node_token n) m"

subsection \<open>Falsy middle operands\<close>

definition logical_truthy :: "logical_kind \<Rightarrow> bool option \<Rightarrow> bool option \<Rightarrow> bool option" where
  "logical_truthy k left right =
     (let shortCircuit = (k = LogicalOr) in
      if left = Some shortCircuit then left
      else if left \<noteq> None \<or> right = Some shortCircuit then right
      else None)"

text \<open>The closure \<open>merge\<close> of \<open>ternaryCaseTruthy\<close>: \<open>None\<close> when it returns false.\<close>

definition merge_truthy :: "bool option \<Rightarrow> bool option \<Rightarrow> bool option" where
  "merge_truthy result v =
     (case v of
        None \<Rightarrow> None
      | Some truthy \<Rightarrow>
          (case result of
             Some r \<Rightarrow> if truthy \<noteq> r then None else Some truthy
           | None \<Rightarrow> Some truthy))"

fun ternaryOperandTruthy :: "node \<Rightarrow> bool option"
  and ternary_case_loop :: "bool option \<Rightarrow> node list \<Rightarrow> bool option"
where
  "ternaryOperandTruthy (NotOpNode _ e _) = map_option Not (ternaryOperandTruthy e)"
| "ternaryOperandTruthy (LogicalOpNode _ k l r) =
     logical_truthy k (ternaryOperandTruthy l) (ternaryOperandTruthy r)"
| "ternaryOperandTruthy (FuncCallNode s callee args t) =
     (if equal_fold callee ''case'' then
        (if length args < 3 \<or> even (length args) then None else ternary_case_loop None args)
      else map_option ExpressionTruthy (ConditionConstantValue (FuncCallNode s callee args t)))"
| "ternaryOperandTruthy n = map_option ExpressionTruthy (ConditionConstantValue n)"
| "ternary_case_loop result (p # v # rest) =
     (case ternaryOperandTruthy p of
        Some False \<Rightarrow> ternary_case_loop result rest
      | Some True \<Rightarrow> merge_truthy result (ternaryOperandTruthy v)
      | None \<Rightarrow>
          (case merge_truthy result (ternaryOperandTruthy v) of
             None \<Rightarrow> None
           | Some r \<Rightarrow> ternary_case_loop (Some r) rest))"
| "ternary_case_loop result [e] = merge_truthy result (ternaryOperandTruthy e)"
| "ternary_case_loop result [] = None"

text \<open>The check of one visited node.\<close>

definition unsound_ternary :: "node \<Rightarrow> expr_error list" where
  "unsound_ternary n =
     (case n of
        LogicalOpNode _ LogicalOr (LogicalOpNode _ LogicalAnd a b) c \<Rightarrow>
          if ternaryOperandTruthy b = Some False
          then [error_at_expr fk_unsoundTernary b (RuleMsg UnsoundTernary)] else []
      | _ \<Rightarrow> [])"

definition CheckUnsoundTernaries :: "node \<Rightarrow> expr_error list" where
  "CheckUnsoundTernaries e =
     concat (map (\<lambda>(n, p, entering). if entering then unsound_ternary n else []) (visit e))"

subsection \<open>Static references\<close>

fun conditionReference :: "node \<Rightarrow> string" where
  "conditionReference (VariableNode _ n _) = to_lower n"
| "conditionReference (ObjectDerefNode _ r p _) =
     (if conditionReference r = [] then [] else conditionReference r @ ''.'' @ to_lower p)"
| "conditionReference (IndexAccessNode _ r i) =
     (case i of
        StringNode _ k _ \<Rightarrow>
          if conditionReference r = [] then [] else conditionReference r @ ''.'' @ to_lower k
      | _ \<Rightarrow> [])"
| "conditionReference _ = []"

definition StaticReference :: "node \<Rightarrow> string" where
  "StaticReference e = conditionReference e"

definition event_text_paths :: "string list" where
  "event_text_paths =
     [''github.event.comment.body'', ''github.event.issue.title'', ''github.event.issue.body'',
      ''github.event.pull_request.title'', ''github.event.pull_request.body'',
      ''github.event.deployment.environment'', ''github.event.label.name'']"

definition conditionStringReference :: "node \<Rightarrow> ty \<Rightarrow> bool" where
  "conditionStringReference e t =
     (let path = conditionReference e in
      if path = [] then False
      else if t = StringType then True
      else path \<in> set event_text_paths)"

fun numericOrBooleanLiteral :: "node \<Rightarrow> bool" where
  "numericOrBooleanLiteral (BoolNode _ _ _) = True"
| "numericOrBooleanLiteral (IntNode _ _ _) = True"
| "numericOrBooleanLiteral (FloatNode _ _ _) = True"
| "numericOrBooleanLiteral _ = False"

definition identityConditionReference :: "node \<Rightarrow> bool" where
  "identityConditionReference e \<longleftrightarrow> conditionReference e \<in>
     {''github.ref'', ''github.ref_name'', ''github.head_ref'', ''github.base_ref'',
      ''github.actor'', ''github.triggering_actor'', ''github.event.sender.login'',
      ''github.event.deployment.environment'', ''github.event.label.name'',
      ''github.event.pull_request.head.ref'', ''github.event.pull_request.base.ref''}"

fun is_string_node :: "node \<Rightarrow> bool" where
  "is_string_node (StringNode _ _ _) = True"
| "is_string_node _ = False"

subsection \<open>Names that differ by one edit\<close>

text \<open>The loop of \<open>adjacentTypo\<close> at a position, \<open>x\<close> no longer than \<open>y\<close>; \<open>shorter\<close> and the
  final answer depend on the whole lengths.\<close>

fun typo_loop :: "bool \<Rightarrow> rune list \<Rightarrow> rune list \<Rightarrow> bool" where
  "typo_loop shorter (a # x) (b # y) =
     (if a = b then typo_loop shorter x y
      else if shorter then a # x = y
      else if x = y then True
      else (case (x, y) of
          (a' # x', b' # y') \<Rightarrow> a = b' \<and> a' = b \<and> x' = y'
        | _ \<Rightarrow> False))"
| "typo_loop shorter x y = shorter"

definition adjacentTypo :: "string \<Rightarrow> string \<Rightarrow> bool" where
  "adjacentTypo a b =
     (if a = b then False
      else
        (let (x, y) = (if length (runes b) < length (runes a) then (runes b, runes a)
                       else (runes a, runes b)) in
         if 1 < length y - length x then False
         else typo_loop (length x < length y) x y))"

fun close_name_loop :: "string \<Rightarrow> string \<Rightarrow> string list \<Rightarrow> string" where
  "close_name_loop name suggestion [] = suggestion"
| "close_name_loop name suggestion (candidate # cs) =
     (if \<not> adjacentTypo (to_lower name) (to_lower candidate)
      then close_name_loop name suggestion cs
      else if suggestion \<noteq> [] \<and> \<not> equal_fold suggestion candidate then []
      else close_name_loop name candidate cs)"

definition CloseName :: "string \<Rightarrow> string list \<Rightarrow> string" where
  "CloseName name candidates = close_name_loop name [] candidates"

subsection \<open>Event payloads\<close>

fun eventReference :: "node \<Rightarrow> string" where
  "eventReference (VariableNode _ _ t) = tk_value t"
| "eventReference (ArrayDerefNode _ r) =
     (let base = eventReference r in if base = [] then [] else base @ ''.*'')"
| "eventReference (IndexAccessNode _ r i) =
     (let base = eventReference r in
      if base = [] then []
      else (case i of StringNode _ v _ \<Rightarrow> base @ ''.'' @ v | _ \<Rightarrow> base @ ''[]''))"
| "eventReference (ObjectDerefNode _ r p t) =
     (let base = eventReference r in if base = [] then [] else base @ ''.'' @ property_name p t)"
| "eventReference _ = []"

definition copyEventObject :: "ty \<Rightarrow> ty" where
  "copyEventObject t =
     ObjectType (display_name t) (props t) (property_names t) (event_variants t) (mapped t)"

text \<open>
  \<open>combineEventTypes\<close> on two types that are not nil. \<open>same\<close> is Go's equality of the two
  interface values: equality of scalar types, identity of pointers.
\<close>

function combineEventTypes :: "(ty \<Rightarrow> ty \<Rightarrow> bool) \<Rightarrow> ty \<Rightarrow> ty \<Rightarrow> ty" where
  "combineEventTypes same a b =
     (if same a b then a
      else (case (a, b) of
          (ObjectType d ps pn ev m, ObjectType d' ps' pn' ev' m') \<Rightarrow>
            ObjectType ''object''
              (fold (\<lambda>(n, t) qs. al_put n
                 (case map_of qs n of None \<Rightarrow> t | Some u \<Rightarrow> combineEventTypes same u t) qs) ps' ps)
              (merge_names pn pn') []
              (case m of
                 None \<Rightarrow> m'
               | Some x \<Rightarrow> (case m' of None \<Rightarrow> m | Some y \<Rightarrow> Some (combineEventTypes same x y)))
        | (ArrayType e d, ArrayType e' d') \<Rightarrow> ArrayType (combineEventTypes same e e') False
        | _ \<Rightarrow> merge_ty a b))"
  by pat_completeness auto
termination
  by (relation "measure (\<lambda>(same, a, b). size b)") (auto dest: size_props)

declare combineEventTypes.simps [simp del]

text \<open>\<open>NewEventType\<close>; \<open>None\<close> is the panic on a nil payload.\<close>

definition NewEventType :: "(ty \<Rightarrow> ty \<Rightarrow> bool) \<Rightarrow> event_variant list \<Rightarrow> ty option" where
  "NewEventType same variants =
     (if \<exists>(e, a, p) \<in> set variants. p = None then None
      else
        (let result = fold (\<lambda>(e, a, p) r. case r of
               None \<Rightarrow> p
             | Some t \<Rightarrow> Some (combineEventTypes same t (the p))) variants None in
         case result of
           Some (ObjectType d ps pn ev m) \<Rightarrow> Some (ObjectType d ps pn variants m)
         | _ \<Rightarrow> Some NewEmptyObjectType))"

definition and_guard :: "bool option \<Rightarrow> bool option \<Rightarrow> bool option" where
  "and_guard l r =
     (if l = Some False \<or> r = Some False then Some False
      else case (l, r) of (Some a, Some b) \<Rightarrow> Some (a \<and> b) | _ \<Rightarrow> None)"

definition or_guard :: "bool option \<Rightarrow> bool option \<Rightarrow> bool option" where
  "or_guard l r =
     (if l = Some True \<or> r = Some True then Some True
      else case (l, r) of (Some a, Some b) \<Rightarrow> Some (a \<or> b) | _ \<Rightarrow> None)"

text \<open>The comparison of a reference with a constant text, for one variant.\<close>

definition guard_compare :: "compare_kind \<Rightarrow> node \<Rightarrow> string \<Rightarrow> event_variant \<Rightarrow> bool option" where
  "guard_compare k ref text variant =
     (case variant of (event, action, payload) \<Rightarrow>
        let path = to_lower (eventReference ref) in
        if path = ''github.event_name'' then
          (if event = [] then None else CompareConditionValues k (JStr event) (JStr text))
        else if path = ''github.event.action'' then
          (if action \<noteq> [] then CompareConditionValues k (JStr action) (JStr text)
           else (case payload of
               None \<Rightarrow> None
             | Some p \<Rightarrow>
                 if event = [] \<or> \<not> IsStrict p then None
                 else if map_of (props p) ''action'' \<noteq> None then None
                 else CompareConditionValues k JNull (JStr text)))
        else None)"

fun eventGuardValue :: "node \<Rightarrow> event_variant \<Rightarrow> bool option" where
  "eventGuardValue (NotOpNode _ e _) v = map_option Not (eventGuardValue e v)"
| "eventGuardValue (LogicalOpNode _ k l r) v =
     (case k of
        LogicalAnd \<Rightarrow> and_guard (eventGuardValue l v) (eventGuardValue r v)
      | LogicalOr \<Rightarrow> or_guard (eventGuardValue l v) (eventGuardValue r v))"
| "eventGuardValue (CompareOpNode _ k l r) v =
     (if \<not> IsEqualityOp k then None
      else (case ConditionConstantValue r of
          Some (JStr text) \<Rightarrow> guard_compare k l text v
        | Some _ \<Rightarrow> None
        | None \<Rightarrow>
            (case ConditionConstantValue l of
               Some (JStr text) \<Rightarrow> guard_compare k r text v
             | _ \<Rightarrow> None)))"
| "eventGuardValue _ v = None"

text \<open>
  What \<open>withEventGuard\<close> decides before it calls \<open>check\<close>: skip the branch, run it as it is,
  or run it with these variables and restore the old ones. The variants of an installed
  event come from \<open>NewEventType\<close>, which has already dereferenced every payload, so the
  branch for a nil payload is not reached.
\<close>

datatype guard_action = SkipBranch | RunHere | RunWith "(string \<times> ty) list"

definition withEventGuard ::
    "(ty \<Rightarrow> ty \<Rightarrow> bool) \<Rightarrow> (string \<times> ty) list \<Rightarrow> node \<Rightarrow> bool \<Rightarrow> guard_action" where
  "withEventGuard same vars guard truth =
     (case map_of vars ''github'' of
        Some (ObjectType d ps pn ev m) \<Rightarrow>
          (case map_of ps ''event'' of
             Some (ObjectType d' ps' pn' variants m') \<Rightarrow>
               if variants = [] then RunHere
               else
                 (let selected = filter (\<lambda>v. eventGuardValue guard v \<noteq> Some (\<not> truth)) variants in
                  if selected = [] then SkipBranch
                  else if length selected = length variants then RunHere
                  else (case NewEventType same selected of
                      None \<Rightarrow> RunHere
                    | Some t \<Rightarrow>
                        RunWith (al_put ''github'' (ObjectType d (al_put ''event'' t ps) pn ev m) vars)))
           | _ \<Rightarrow> RunHere)
      | _ \<Rightarrow> RunHere)"

subsection \<open>Secrets in script text\<close>

definition is_github :: "node \<Rightarrow> bool" where
  "is_github n = (case n of VariableNode _ name _ \<Rightarrow> equal_fold name ''github'' | _ \<Rightarrow> False)"

fun secretValue :: "node \<Rightarrow> bool" where
  "secretValue (VariableNode _ name _) = (name = ''secrets'')"
| "secretValue (ObjectDerefNode _ r p _) =
     (if is_github r \<and> equal_fold p ''token'' then True else secretValue r)"
| "secretValue (ArrayDerefNode _ r) = secretValue r"
| "secretValue (IndexAccessNode _ r i) =
     (if is_github r
         \<and> (case ConditionConstantValue i of Some (JStr k) \<Rightarrow> equal_fold k ''token'' | _ \<Rightarrow> False)
      then True else secretValue r)"
| "secretValue _ = False"

text \<open>\<open>isSafeFuncCall\<close> of \<open>expr_insecure.go\<close>.\<close>

definition isSafeFuncCall :: "string \<Rightarrow> bool" where
  "isSafeFuncCall callee = (to_lower callee \<in> {''contains'', ''startswith'', ''endswith''})"

definition secret_finding :: "node \<Rightarrow> expr_error" where
  "secret_finding n =
     error_at_expr fk_secretInterpolation n
       (RuleMsg (SecretInterpolated (if eventReference n = [] then ''secrets'' else eventReference n)))"

fun visit_secrets :: "node \<Rightarrow> expr_error list"
  and visit_secret_cases :: "node list \<Rightarrow> expr_error list"
where
  "visit_secrets (LogicalOpNode _ k l r) =
     (case ConditionConstantValue l of
        Some v \<Rightarrow> if ExpressionTruthy v \<noteq> (k = LogicalOr) then visit_secrets r else []
      | None \<Rightarrow> (if k = LogicalOr then visit_secrets l else []) @ visit_secrets r)"
| "visit_secrets (FuncCallNode _ callee args _) =
     (if isSafeFuncCall callee \<or> equal_fold callee ''hashFiles'' then []
      else if equal_fold callee ''case'' \<and> 3 \<le> length args \<and> odd (length args)
      then visit_secret_cases args
      else concat (map visit_secrets args))"
| "visit_secrets (VariableNode s name t) =
     (if secretValue (VariableNode s name t) then [secret_finding (VariableNode s name t)] else [])"
| "visit_secrets (ObjectDerefNode s r p t) =
     (if secretValue (ObjectDerefNode s r p t) then [secret_finding (ObjectDerefNode s r p t)]
      else visit_secrets r)"
| "visit_secrets (ArrayDerefNode s r) =
     (if secretValue (ArrayDerefNode s r) then [secret_finding (ArrayDerefNode s r)]
      else visit_secrets r)"
| "visit_secrets (IndexAccessNode s r i) =
     (if secretValue (IndexAccessNode s r i) then [secret_finding (IndexAccessNode s r i)]
      else visit_secrets r)"
| "visit_secrets _ = []"
| "visit_secret_cases (p # v # rest) =
     (case ConditionConstantValue p of
        Some x \<Rightarrow> if ExpressionTruthy x then visit_secrets v else visit_secret_cases rest
      | None \<Rightarrow> visit_secrets v @ visit_secret_cases rest)"
| "visit_secret_cases [e] = visit_secrets e"
| "visit_secret_cases [] = []"

definition CheckSecretInterpolations :: "node \<Rightarrow> expr_error list" where
  "CheckSecretInterpolations e = visit_secrets e"

end
