(* ===== verification/Eval_Spec.thy ===== *)
theory Eval_Spec
  imports Expr_Event
begin

text \<open>
  A reference semantics of expressions, and the analyses of the package that claim something
  about it: constant folding (\<open>ConditionConstantValue\<close>), the falsy middle operand of a
  ternary (\<open>ternaryOperandTruthy\<close>, \<open>CheckUnsoundTernaries\<close>) and the branches a workflow's
  triggers exclude (\<open>eventGuardValue\<close>, \<open>withEventGuard\<close>).

  The runner is not part of the repository. It is a parameter in three parts: \<open>ctx\<close> gives the
  value of an access expression, \<open>cmp\<close> compares two values, \<open>call\<close> applies a function other than
  \<open>case\<close>. What the package relies on is that the runner agrees with the comparisons and calls
  the package folds; short circuits and \<open>case\<close> are the documented ones.
\<close>

subsection \<open>Evaluation\<close>

type_synonym contexts = "node \<Rightarrow> json option"
type_synonym comparison = "compare_kind \<Rightarrow> json \<Rightarrow> json \<Rightarrow> bool"
type_synonym builtins = "string \<Rightarrow> json list \<Rightarrow> json option"

fun eval :: "contexts \<Rightarrow> comparison \<Rightarrow> builtins \<Rightarrow> node \<Rightarrow> json option"
  and eval_case :: "contexts \<Rightarrow> comparison \<Rightarrow> builtins \<Rightarrow> node list \<Rightarrow> json option"
where
  "eval ctx cmp call (NullNode _ _) = Some JNull"
| "eval ctx cmp call (BoolNode _ b _) = Some (JBool b)"
| "eval ctx cmp call (IntNode _ i t) =
     Some (JNum (if i = 0 \<and> has_prefix (tk_value t) ''-'' then f64_minus_zero else f64_of_int i))"
| "eval ctx cmp call (FloatNode _ x _) = Some (JNum x)"
| "eval ctx cmp call (StringNode _ s _) = Some (JStr s)"
| "eval ctx cmp call (NotOpNode _ e _) =
     map_option (\<lambda>v. JBool (\<not> ExpressionTruthy v)) (eval ctx cmp call e)"
| "eval ctx cmp call (LogicalOpNode _ k l r) =
     (case eval ctx cmp call l of
        None \<Rightarrow> None
      | Some v \<Rightarrow>
          if ExpressionTruthy v = (k = LogicalOr) then Some v else eval ctx cmp call r)"
| "eval ctx cmp call (CompareOpNode _ k l r) =
     (case eval ctx cmp call l of
        None \<Rightarrow> None
      | Some v \<Rightarrow> map_option (\<lambda>w. JBool (cmp k v w)) (eval ctx cmp call r))"
| "eval ctx cmp call (FuncCallNode _ callee args _) =
     (if equal_fold callee ''case'' then eval_case ctx cmp call args
      else (case those (map (eval ctx cmp call) args) of
          None \<Rightarrow> None
        | Some vs \<Rightarrow> call callee vs))"
| "eval ctx cmp call n = ctx n"
| "eval_case ctx cmp call (p # v # rest) =
     (case eval ctx cmp call p of
        Some (JBool b) \<Rightarrow> if b then eval ctx cmp call v else eval_case ctx cmp call rest
      | _ \<Rightarrow> None)"
| "eval_case ctx cmp call [e] = eval ctx cmp call e"
| "eval_case ctx cmp call [] = None"

text \<open>The runner agrees with what the package folds.\<close>

definition agrees_compare :: "comparison \<Rightarrow> bool" where
  "agrees_compare cmp \<longleftrightarrow>
     (\<forall>k a b. case CompareConditionValues k a b of None \<Rightarrow> True | Some r \<Rightarrow> cmp k a b = r)"

definition agrees_call :: "builtins \<Rightarrow> bool" where
  "agrees_call call \<longleftrightarrow>
     (\<forall>f vs. case constant_call f vs of None \<Rightarrow> True | Some v \<Rightarrow> call f vs = Some v)"

subsection \<open>Comparisons\<close>

lemma slices_compare_flip: "slices_compare ys xs = - slices_compare xs ys"
  by (induction xs ys rule: slices_compare.induct) auto

lemma slices_compare_refl [simp]: "slices_compare xs xs = 0"
  by (induction xs) auto

lemma string_order_flip: "string_order r l = - string_order l r"
  unfolding string_order_def by (rule slices_compare_flip)

lemma string_order_0: "string_order r l = 0 \<longleftrightarrow> string_order l r = 0"
  using string_order_flip [of r l] by simp

lemma f64_eq_sym: "f64_eq a b = f64_eq b a"
  by (cases a; cases b) auto

lemma equality_number:
  "IsEqualityOp k \<Longrightarrow> compareConditionNumbers k a b = compareConditionNumbers k b a"
  by (cases k) (auto simp: IsEqualityOp_def f64_eq_sym [of a b])

lemma equality_flip:
  assumes "IsEqualityOp k"
  shows "CompareConditionValues k a b = CompareConditionValues k b a"
proof (cases "(\<exists>s. a = JStr s) \<and> (\<exists>t. b = JStr t)")
  case True
  then obtain s t where "a = JStr s" and "b = JStr t" by blast
  with assms show ?thesis
    using string_order_0 [of s t]
    by (cases k) (auto simp: CompareConditionValues_def IsEqualityOp_def f64_of_int_eq)
next
  case False
  then have "CompareConditionValues k a b
      = (if composite a \<and> composite b then None
         else Some (compareConditionNumbers k (ToNumber a) (ToNumber b)))"
    and "CompareConditionValues k b a
      = (if composite b \<and> composite a then None
         else Some (compareConditionNumbers k (ToNumber b) (ToNumber a)))"
    by (cases a; cases b; simp add: CompareConditionValues_def)+
  then show ?thesis using equality_number [OF assms, of "ToNumber a" "ToNumber b"] by auto
qed

lemma not_equal:
  "CompareConditionValues CmpNotEq a b = map_option Not (CompareConditionValues CmpEq a b)"
  by (cases a; cases b) (simp_all add: CompareConditionValues_def)

subsection \<open>What a runner that agrees with the folds computes\<close>

locale expression_runner =
  fixes ctx :: contexts and cmp :: comparison and call :: builtins
  assumes compare_folds: "CompareConditionValues k a b = Some r \<Longrightarrow> cmp k a b = r"
    and call_folds: "constant_call f vs = Some v \<Longrightarrow> call f vs = Some v"
begin

lemma constant_eval:
  "ConditionConstantValue n = Some v \<Longrightarrow> eval ctx cmp call n = Some v"
  "constant_case args = Some v \<Longrightarrow> eval_case ctx cmp call args = Some v"
proof (induction n and args arbitrary: v and v rule: ConditionConstantValue_constant_case.induct)
  case (9 s callee args t)
  show ?case
  proof (cases "equal_fold callee ''case''")
    case True
    then show ?thesis using 9 by (auto split: if_splits)
  next
    case False
    then obtain vs where vs: "those (map ConditionConstantValue args) = Some vs"
      and v: "constant_call callee vs = Some v"
      using 9(3) by (auto split: option.splits)
    have "those (map (eval ctx cmp call) args) = Some vs"
      if "\<And>a v. a \<in> set args \<Longrightarrow> ConditionConstantValue a = Some v \<Longrightarrow> eval ctx cmp call a = Some v"
      using that vs
      by (induction args arbitrary: vs) (auto split: option.splits)
    then show ?thesis using 9(2) [OF False] v False call_folds by auto
  qed
qed (auto split: option.splits json.splits bool.splits if_splits dest: compare_folds)

lemma merge_truthy_Some:
  "merge_truthy result v = Some b \<longleftrightarrow> v = Some b \<and> (result = None \<or> result = Some b)"
  by (auto simp: merge_truthy_def split: option.splits if_splits)

lemma logical_truthy_eval:
  assumes "logical_truthy k x y = Some b" and "\<And>c. x = Some c \<Longrightarrow> ExpressionTruthy v = c"
    and "\<And>c. y = Some c \<Longrightarrow> ExpressionTruthy v \<noteq> (k = LogicalOr) \<Longrightarrow> ExpressionTruthy w = c"
  shows "ExpressionTruthy (if ExpressionTruthy v = (k = LogicalOr) then v else w) = b"
  using assms by (cases x; cases y; cases k) (auto simp: logical_truthy_def split: if_splits)

lemma ternary_leaf:
  assumes "map_option ExpressionTruthy (ConditionConstantValue n) = Some b"
    and "eval ctx cmp call n = Some v"
  shows "ExpressionTruthy v = b"
proof -
  obtain w where "ConditionConstantValue n = Some w" and "ExpressionTruthy w = b"
    using assms(1) unfolding map_option_eq_Some by blast
  with constant_eval(1) [OF this(1)] assms(2) show ?thesis by simp
qed

lemma ternary_eval:
  "ternaryOperandTruthy n = Some b \<Longrightarrow> eval ctx cmp call n = Some v \<Longrightarrow> ExpressionTruthy v = b"
  "ternary_case_loop result args = Some b \<Longrightarrow>
     (result = None \<or> result = Some b)
     \<and> (eval_case ctx cmp call args = Some v \<longrightarrow> ExpressionTruthy v = b)"
proof (induction n and result args arbitrary: b v and b v
    rule: ternaryOperandTruthy_ternary_case_loop.induct)
  case (1 s e t)
  then show ?case by auto
next
  case (2 s k l r)
  from 2(4) obtain x where x: "eval ctx cmp call l = Some x" by (auto split: option.splits)
  with 2(4) have v: "if ExpressionTruthy x = (k = LogicalOr) then v = x else eval ctx cmp call r = Some v"
    by (auto split: if_splits)
  show ?case
  proof (cases "ExpressionTruthy x = (k = LogicalOr)")
    case True
    with v 2(1) [OF _ x] 2(3) show ?thesis
      using logical_truthy_eval [of k "ternaryOperandTruthy l" "ternaryOperandTruthy r" b x] by auto
  next
    case False
    with v 2(1) [OF _ x] 2(2) 2(3) show ?thesis
      using logical_truthy_eval [of k "ternaryOperandTruthy l" "ternaryOperandTruthy r" b x v] by auto
  qed
next
  case (3 s callee args t)
  show ?case
  proof (cases "equal_fold callee ''case''")
    case True
    then show ?thesis using 3 by (auto split: if_splits)
  next
    case False
    with 3(2) have "map_option ExpressionTruthy (ConditionConstantValue (FuncCallNode s callee args t)) = Some b"
      by (simp only: ternaryOperandTruthy.simps if_False)
    then show ?thesis using 3(3) by (rule ternary_leaf)
  qed
next
  case (5 result p q rest)
  show ?case
  proof (cases "ternaryOperandTruthy p")
    case None
    with 5(6) obtain r where r: "merge_truthy result (ternaryOperandTruthy q) = Some r"
      and loop: "ternary_case_loop (Some r) rest = Some b"
      by (auto split: option.splits)
    then show ?thesis
      using 5(1) 5(2) [OF None] 5(3) [OF None r loop] by (auto simp: merge_truthy_Some split: option.splits json.splits if_splits)
  next
    case (Some c)
    have "x = c" if "eval ctx cmp call p = Some (JBool x)" for x
      using 5(1) [OF Some that] by simp
    then show ?thesis using Some 5(4,5) 5(6)
      by (cases c) (auto simp: merge_truthy_Some split: option.splits json.splits if_splits)
  qed
qed (simp_all only: ternaryOperandTruthy.simps ternary_leaf, simp_all add: merge_truthy_Some)

lemma and_guard_eval:
  assumes "and_guard x y = Some b" and "\<And>c. x = Some c \<Longrightarrow> ExpressionTruthy v = c"
    and "\<And>c. y = Some c \<Longrightarrow> ExpressionTruthy v \<Longrightarrow> ExpressionTruthy w = c"
  shows "ExpressionTruthy (if ExpressionTruthy v then w else v) = b"
  using assms by (cases x; cases y) (auto simp: and_guard_def split: if_splits)

lemma or_guard_eval:
  assumes "or_guard x y = Some b" and "\<And>c. x = Some c \<Longrightarrow> ExpressionTruthy v = c"
    and "\<And>c. y = Some c \<Longrightarrow> \<not> ExpressionTruthy v \<Longrightarrow> ExpressionTruthy w = c"
  shows "ExpressionTruthy (if ExpressionTruthy v then v else w) = b"
  using assms by (cases x; cases y) (auto simp: or_guard_def split: if_splits)

end

subsection \<open>Triggers\<close>

text \<open>
  The contexts of a run that a trigger started: the event's name and action are the
  trigger's, and the action is null for a trigger whose closed payload has none.
\<close>

definition conforms :: "contexts \<Rightarrow> event_variant \<Rightarrow> bool" where
  "conforms ctx variant \<longleftrightarrow>
     (case variant of (event, action, payload) \<Rightarrow>
        \<forall>ref v. ctx ref = Some v \<longrightarrow>
          (to_lower (eventReference ref) = ''github.event_name'' \<and> event \<noteq> [] \<longrightarrow> v = JStr event)
          \<and> (to_lower (eventReference ref) = ''github.event.action'' \<longrightarrow>
               (action \<noteq> [] \<longrightarrow> v = JStr action)
               \<and> (action = [] \<and> event \<noteq> []
                   \<and> (\<exists>p. payload = Some p \<and> IsStrict p \<and> map_of (props p) ''action'' = None)
                  \<longrightarrow> v = JNull)))"

lemma reference_eval: "eventReference n \<noteq> [] \<Longrightarrow> eval ctx cmp call n = ctx n"
  by (cases n) simp_all

lemma guard_compare_conforms:
  assumes "guard_compare k ref text variant = Some b" and "conforms ctx variant"
    and "eval ctx cmp call ref = Some v"
  shows "CompareConditionValues k v (JStr text) = Some b"
proof -
  obtain event action payload where variant: "variant = (event, action, payload)"
    by (cases variant)
  have path: "to_lower (eventReference ref) = ''github.event_name''
      \<or> to_lower (eventReference ref) = ''github.event.action''"
    using assms(1) by (auto simp: guard_compare_def variant Let_def split: if_splits)
  then have "eventReference ref \<noteq> []" by (auto simp: to_lower_def)
  then have v: "ctx ref = Some v" using assms(3) reference_eval by simp
  show ?thesis
  proof (cases "to_lower (eventReference ref) = ''github.event_name''")
    case True
    moreover have "event \<noteq> []" and "CompareConditionValues k (JStr event) (JStr text) = Some b"
      using True assms(1) by (auto simp: guard_compare_def variant Let_def split: if_splits)
    ultimately show ?thesis using assms(2) v by (auto simp: conforms_def variant)
  next
    case False
    with path have path: "to_lower (eventReference ref) = ''github.event.action''" by simp
    show ?thesis
    proof (cases "action = []")
      case True
      then obtain p where "payload = Some p" "event \<noteq> []" "IsStrict p" "map_of (props p) ''action'' = None"
        and "CompareConditionValues k JNull (JStr text) = Some b"
        using path False assms(1)
        by (auto simp: guard_compare_def variant Let_def split: if_splits option.splits)
      then show ?thesis using path True assms(2) v by (auto simp: conforms_def variant)
    next
      case False
      then have "CompareConditionValues k (JStr action) (JStr text) = Some b"
        using path assms(1) by (auto simp: guard_compare_def variant Let_def)
      then show ?thesis using path False assms(2) v by (auto simp: conforms_def variant)
    qed
  qed
qed

context expression_runner
begin

lemma guard_text_eval:
  assumes "IsEqualityOp k" and "ConditionConstantValue c = Some (JStr text)"
    and "guard_compare k ref text variant = Some b" and "conforms ctx variant"
    and "eval ctx cmp call ref = Some x" and "eval ctx cmp call c = Some y"
  shows "cmp k x y = b" and "cmp k y x = b"
proof -
  have y: "y = JStr text" using constant_eval(1) [OF assms(2)] assms(6) by simp
  have "CompareConditionValues k x y = Some b"
    using guard_compare_conforms [OF assms(3-5)] y by simp
  then show "cmp k x y = b" and "cmp k y x = b"
    using equality_flip [OF assms(1), of x y] by (simp_all add: compare_folds)
qed

lemma guard_eval:
  "eventGuardValue n variant = Some b \<Longrightarrow> conforms ctx variant \<Longrightarrow> eval ctx cmp call n = Some v
   \<Longrightarrow> ExpressionTruthy v = b"
proof (induction n variant arbitrary: b v rule: eventGuardValue.induct)
  case (1 s e t w)
  then show ?case by auto
next
  case (2 s k l r w)
  from 2(7) obtain x where x: "eval ctx cmp call l = Some x" by (auto split: option.splits)
  show ?case
  proof (cases k)
    case LogicalAnd
    then show ?thesis using 2 x
        and_guard_eval [of "eventGuardValue l w" "eventGuardValue r w" b x v]
      by (auto split: if_splits)
  next
    case LogicalOr
    then show ?thesis using 2 x
        or_guard_eval [of "eventGuardValue l w" "eventGuardValue r w" b x v]
      by (auto split: if_splits)
  qed
next
  case (3 s k l r w)
  from 3(3) obtain x y where xy: "eval ctx cmp call l = Some x" "eval ctx cmp call r = Some y"
    and v: "v = JBool (cmp k x y)" by (auto split: option.splits)
  have eq: "IsEqualityOp k" using 3(1) by (auto split: if_splits)
  show ?case
  proof (cases "ConditionConstantValue r")
    case None
    then obtain lit where c: "ConditionConstantValue l = Some (JStr lit)"
      and g: "guard_compare k r lit w = Some b"
      using 3(1) eq by (auto split: option.splits json.splits)
    then show ?thesis using guard_text_eval(2) [OF eq c g 3(2) xy(2,1)] v by simp
  next
    case (Some c)
    then obtain lit where c: "ConditionConstantValue r = Some (JStr lit)"
      and g: "guard_compare k l lit w = Some b"
      using 3(1) eq by (auto split: option.splits json.splits)
    then show ?thesis using guard_text_eval(1) [OF eq c g 3(2) xy] v by simp
  qed
qed simp_all

end

text \<open>The package's own folds are such a runner, one that knows no context.\<close>

definition fold_compare :: comparison where
  "fold_compare k a b = (CompareConditionValues k a b = Some True)"

interpretation folds: expression_runner "\<lambda>n. None" fold_compare constant_call
  by unfold_locales (auto simp: fold_compare_def)

lemma runner: "agrees_compare cmp \<Longrightarrow> agrees_call call \<Longrightarrow> expression_runner cmp call"
  by unfold_locales (auto simp: agrees_compare_def agrees_call_def dest!: spec split: option.splits)

lemma agrees_folds: "agrees_compare fold_compare" "agrees_call constant_call"
  by (auto simp: agrees_compare_def agrees_call_def fold_compare_def split: option.splits)

subsection \<open>Theorems and examples\<close>

text \<open>Nodes for the examples.\<close>

definition some_token :: "string \<Rightarrow> token" where
  "some_token s =
     \<lparr>tk_kind = TokenKindIdent, tk_value = s, tk_offset = 0, tk_line = 1, tk_column = 1\<rparr>"

definition text_node :: "string \<Rightarrow> node" where
  "text_node s = StringNode no_span s (some_token s)"

definition github_node :: "string \<Rightarrow> node" where
  "github_node p =
     ObjectDerefNode no_span (VariableNode no_span ''github'' (some_token ''github'')) p (some_token p)"

text \<open>
  Comparisons of constants: equality does not depend on the order of the operands, \<open>!=\<close>
  is the negation of \<open>==\<close>, \<open><\<close> is \<open>>\<close> of the exchanged operands (and \<open><=\<close> of \<open>>=\<close>), and
  the result is unknown for two arrays or objects only.
\<close>

theorem comparison_laws:
  "CompareConditionValues CmpEq a b = CompareConditionValues CmpEq b a
   \<and> CompareConditionValues CmpNotEq a b = map_option Not (CompareConditionValues CmpEq a b)
   \<and> CompareConditionValues CmpLess a b = CompareConditionValues CmpGreater b a
   \<and> CompareConditionValues CmpLessEq a b = CompareConditionValues CmpGreaterEq b a
   \<and> (CompareConditionValues k a b = None \<longleftrightarrow> composite a \<and> composite b)"
proof -
  have "CompareConditionValues CmpEq a b = CompareConditionValues CmpEq b a"
    by (rule equality_flip) (simp add: IsEqualityOp_def)
  moreover have "CompareConditionValues CmpLess a b = CompareConditionValues CmpGreater b a"
  proof -
    have "string_order s t < 0 \<longleftrightarrow> 0 < string_order t s" for s t
      using string_order_flip [of t s] by linarith
    then show ?thesis
      by (cases a; cases b) (simp_all add: CompareConditionValues_def f64_of_int_less)
  qed
  moreover have "CompareConditionValues CmpLessEq a b = CompareConditionValues CmpGreaterEq b a"
  proof -
    have "string_order s t < 0 \<or> string_order s t = 0 \<longleftrightarrow> 0 < string_order t s \<or> 0 = string_order t s"
      for s t
      using string_order_flip [of t s] by linarith
    then show ?thesis
      by (cases a; cases b)
        (simp_all add: CompareConditionValues_def f64_less_eq_def f64_of_int_less f64_of_int_eq)
  qed
  moreover have "CompareConditionValues k a b = None \<longleftrightarrow> composite a \<and> composite b"
    by (cases a; cases b) (simp_all add: CompareConditionValues_def)
  ultimately show ?thesis by (simp add: not_equal)
qed



text \<open>
  \<open>ternaryOperandTruthy\<close> is sound: where it knows the truthiness of an operand, every value
  the operand can take at run time has that truthiness, unknown contexts included.
\<close>

theorem ternary_truthy_sound:
  assumes "agrees_compare cmp" and "agrees_call call" and "ternaryOperandTruthy n = Some b"
    and "eval ctx cmp call n = Some v"
  shows "ExpressionTruthy v = b"
  using assms runner expression_runner.ternary_eval(1) by blast

theorem ternary_truthy_sound_witness:
  "let e = LogicalOpNode no_span LogicalAnd (github_node ''actor'') (text_node []) in
   ternaryOperandTruthy e = Some False
   \<and> eval (\<lambda>n. Some (JStr ''octocat'')) fold_compare constant_call e = Some (JStr [])
   \<and> ExpressionTruthy (JStr []) = False"
proof -
  let ?e = "LogicalOpNode no_span LogicalAnd (github_node ''actor'') (text_node [])"
  have e: "ternaryOperandTruthy ?e = Some False"
      "eval (\<lambda>n. Some (JStr ''octocat'')) fold_compare constant_call ?e = Some (JStr [])"
    by (simp_all add: github_node_def text_node_def logical_truthy_def)
  then show ?thesis using ternary_truthy_sound [OF agrees_folds e] by (simp add: Let_def)
qed

text \<open>
  (C5) Every finding of \<open>CheckUnsoundTernaries\<close> is real: it belongs to a subexpression
  \<open>a && b || c\<close> whose value, whenever it has one, is the value of \<open>c\<close>.
\<close>

lemma unsound_ternary_eval:
  assumes "agrees_compare cmp" and "agrees_call call"
    and "ternaryOperandTruthy b = Some False"
    and "eval ctx cmp call (LogicalOpNode s LogicalOr (LogicalOpNode s' LogicalAnd a b) c) = Some v"
  shows "eval ctx cmp call c = Some v"
proof -
  have b: "\<not> ExpressionTruthy x" if "eval ctx cmp call b = Some x" for x
    using expression_runner.ternary_eval(1) [OF runner [OF assms(1,2)] assms(3) that] by simp
  then show ?thesis using assms(4) by (auto split: option.splits if_splits)
qed




definition push_types :: "(string \<times> ty) list" where
  "push_types = [(''github'', NewStrictObjectType [(''event'',
     ObjectType [] [] [] [(''push'', [], Some NewEmptyStrictObjectType)] None)])]"

definition push_run :: contexts where
  "push_run n =
     (if to_lower (eventReference n) = ''github.event_name'' then Some (JStr ''push'') else None)"


end
