(* ===== verification/Name_Spec.thy ===== *)
theory Name_Spec
  imports Expr_Event
begin

text \<open>
  Name suggestions (\<open>adjacentTypo\<close>, \<open>CloseName\<close> of \<open>event.go\<close>) against the edits they are
  meant to recognise, and the constant \<open>format\<close> against the text it formats.
\<close>

subsection \<open>One edit\<close>

text \<open>One rune inserted, deleted or replaced, or two neighbours exchanged.\<close>

inductive one_edit :: "'a list \<Rightarrow> 'a list \<Rightarrow> bool" where
  insert_rune: "one_edit (u @ v) (u @ c # v)"
| delete_rune: "one_edit (u @ c # v) (u @ v)"
| replace_rune: "c \<noteq> d \<Longrightarrow> one_edit (u @ c # v) (u @ d # v)"
| exchange_runes: "c \<noteq> d \<Longrightarrow> one_edit (u @ c # d # v) (u @ d # c # v)"

inductive_simps one_edit_iff: "one_edit x y"

definition inserted :: "'a list \<Rightarrow> 'a list \<Rightarrow> bool" where
  "inserted x y \<longleftrightarrow> (\<exists>u c v. x = u @ v \<and> y = u @ c # v)"

definition altered :: "'a list \<Rightarrow> 'a list \<Rightarrow> bool" where
  "altered x y \<longleftrightarrow>
     (\<exists>u c d v. c \<noteq> d \<and> (x = u @ c # v \<and> y = u @ d # v \<or> x = u @ c # d # v \<and> y = u @ d # c # v))"

lemma one_edit_forms: "one_edit x y \<longleftrightarrow> inserted x y \<or> inserted y x \<or> altered x y"
  unfolding one_edit_iff inserted_def altered_def by blast

lemma inserted_length: "inserted x y \<Longrightarrow> length y = Suc (length x)"
  by (auto simp: inserted_def)

lemma altered_length: "altered x y \<Longrightarrow> length y = length x"
  by (auto simp: altered_def)

lemma altered_sym: "altered x y \<Longrightarrow> altered y x"
  unfolding altered_def by metis

lemma one_edit_sym: "one_edit x y \<Longrightarrow> one_edit y x"
  using altered_sym by (auto simp: one_edit_forms)

lemma inserted_Nil: "inserted [] y \<longleftrightarrow> (\<exists>c. y = [c])"
  by (auto simp: inserted_def)

lemma inserted_Cons:
  "inserted (a # x) (b # y) \<longleftrightarrow> (if a = b then inserted x y \<or> a # x = y else a # x = y)"
proof
  assume "inserted (a # x) (b # y)"
  then obtain u c v where "a # x = u @ v" "b # y = u @ c # v" by (auto simp: inserted_def)
  then show "if a = b then inserted x y \<or> a # x = y else a # x = y"
    by (cases u) (auto simp: inserted_def)
next
  have "inserted (a # x) (b # a # x)" unfolding inserted_def by (metis append_Nil)
  moreover have "inserted x y \<Longrightarrow> inserted (a # x) (a # y)"
    unfolding inserted_def by (metis append_Cons)
  moreover assume "if a = b then inserted x y \<or> a # x = y else a # x = y"
  ultimately show "inserted (a # x) (b # y)" by (auto split: if_splits)
qed

text \<open>An insertion in front of equal runes is one behind them.\<close>

lemma inserted_same: "inserted x (a # x)"
  unfolding inserted_def by (metis append_Nil)

lemma inserted_head: "inserted (a # x) (a # y) \<longleftrightarrow> inserted x y"
  using inserted_same [of x a] by (auto simp: inserted_Cons)

lemma altered_Cons:
  "altered (a # x) (b # y) \<longleftrightarrow>
     (if a = b then altered x y else x = y \<or> (\<exists>v. x = b # v \<and> y = a # v))"
proof
  assume "altered (a # x) (b # y)"
  then obtain u c d v where "c \<noteq> d"
    and "a # x = u @ c # v \<and> b # y = u @ d # v \<or> a # x = u @ c # d # v \<and> b # y = u @ d # c # v"
    unfolding altered_def by blast
  then show "if a = b then altered x y else x = y \<or> (\<exists>v. x = b # v \<and> y = a # v)"
    by (cases u) (auto simp: altered_def)
next
  have "altered x y \<Longrightarrow> altered (a # x) (a # y)"
    unfolding altered_def by (metis append_Cons)
  moreover have "a \<noteq> b \<Longrightarrow> altered (a # x) (b # x)"
    unfolding altered_def by (metis append_Nil)
  moreover have "a \<noteq> b \<Longrightarrow> altered (a # b # v) (b # a # v)" for v
    unfolding altered_def by (metis append_Nil)
  moreover assume "if a = b then altered x y else x = y \<or> (\<exists>v. x = b # v \<and> y = a # v)"
  ultimately show "altered (a # x) (b # y)" by (auto split: if_splits)
qed

lemma altered_Nil: "\<not> altered [] y" "\<not> altered x []"
  by (auto simp: altered_def)

lemma typo_loop_shorter: "length y = Suc (length x) \<Longrightarrow> typo_loop True x y \<longleftrightarrow> inserted x y"
proof (induction x arbitrary: y)
  case Nil
  then show ?case by (cases y) (auto simp: inserted_Nil)
next
  case (Cons a x)
  then obtain b y' where y: "y = b # y'" by (cases y) auto
  then show ?case using Cons by (cases "a = b") (auto simp: inserted_head inserted_Cons)
qed

lemma typo_loop_same: "length y = length x \<Longrightarrow> typo_loop False x y \<longleftrightarrow> altered x y"
proof (induction x arbitrary: y)
  case Nil
  then show ?case by (simp add: altered_Nil)
next
  case (Cons a x)
  then obtain b y' where y: "y = b # y'" by (cases y) auto
  have "(case (x, y') of (a' # x', b' # y') \<Rightarrow> a = b' \<and> a' = b \<and> x' = y' | _ \<Rightarrow> False)
      \<longleftrightarrow> (\<exists>v. x = b # v \<and> y' = a # v)"
    by (auto split: list.splits)
  then show ?case using Cons y by (simp add: altered_Cons)
qed

lemma typo_one_edit:
  "length x \<le> length y \<Longrightarrow>
     (length y - length x \<le> 1 \<and> typo_loop (length x < length y) x y) \<longleftrightarrow> one_edit x y"
proof -
  assume le: "length x \<le> length y"
  consider "length y = length x" | "length y = Suc (length x)" | "Suc (length x) < length y"
    using le by linarith
  then show ?thesis
  proof cases
    case 1
    then show ?thesis using typo_loop_same [of y x] inserted_length [of x y] inserted_length [of y x]
      by (auto simp: one_edit_forms)
  next
    case 2
    then show ?thesis using typo_loop_shorter [of y x] inserted_length [of y x] altered_length [of x y]
      by (auto simp: one_edit_forms)
  next
    case 3
    then show ?thesis using inserted_length [of x y] inserted_length [of y x] altered_length [of x y]
      by (auto simp: one_edit_forms)
  qed
qed

lemma one_edit_irrefl: "\<not> one_edit x x"
proof (induction x)
  case (Cons a x)
  then show ?case
    using inserted_length [of "a # x" "a # x"] inserted_length [of x x]
    by (auto simp: one_edit_forms altered_Cons)
qed (auto simp: one_edit_forms altered_Nil inserted_Nil)

text \<open>
  \<open>adjacentTypo\<close> recognises exactly one edit: two names are adjacent when their runes
  differ by one inserted, deleted or replaced rune or two exchanged neighbours, whichever
  name comes first.
\<close>

theorem adjacentTypo_one_edit: "adjacentTypo a b \<longleftrightarrow> one_edit (runes a) (runes b)"
proof (cases "a = b")
  case True
  then show ?thesis using one_edit_irrefl by (simp add: adjacentTypo_def)
next
  case False
  show ?thesis
  proof (cases "length (runes b) < length (runes a)")
    case True
    then show ?thesis using False typo_one_edit [of "runes b" "runes a"] one_edit_sym
      by (auto simp: adjacentTypo_def Let_def)
  next
    case False
    then show ?thesis using \<open>a \<noteq> b\<close> typo_one_edit [of "runes a" "runes b"]
      by (auto simp: adjacentTypo_def Let_def)
  qed
qed

subsection \<open>The suggested name\<close>

fun pick_name :: "string \<Rightarrow> string list \<Rightarrow> string" where
  "pick_name s [] = s"
| "pick_name s (c # cs) = (if s \<noteq> [] \<and> \<not> equal_fold s c then [] else pick_name c cs)"

lemma close_name_pick:
  "close_name_loop name s cs =
     pick_name s (filter (\<lambda>c. adjacentTypo (to_lower name) (to_lower c)) cs)"
  by (induction cs arbitrary: s) auto

lemma pick_name_last:
  "s \<noteq> [] \<Longrightarrow> [] \<notin> set m \<Longrightarrow>
     pick_name s m = (if list_all (equal_fold s) m then last (s # m) else [])"
proof (induction m arbitrary: s)
  case (Cons c m)
  have "equal_fold s c \<Longrightarrow> list_all (equal_fold s) m = list_all (equal_fold c) m"
    by (simp add: equal_fold_def list_all_iff)
  then show ?case using Cons by (cases "equal_fold s c") auto
qed simp

text \<open>
  \<open>CloseName\<close> suggests a name exactly when all candidates one edit away from the given name
  (ignoring case) are the same name up to case; then it is the last of them, otherwise the
  empty string.
\<close>

theorem CloseName_unique:
  assumes "[] \<notin> set candidates"
  shows "CloseName name candidates =
    (let m = filter (\<lambda>c. adjacentTypo (to_lower name) (to_lower c)) candidates in
     if m \<noteq> [] \<and> list_all (equal_fold (hd m)) m then last m else [])"
proof -
  define m where "m = filter (\<lambda>c. adjacentTypo (to_lower name) (to_lower c)) candidates"
  have "[] \<notin> set m" using assms by (simp add: m_def)
  then have "pick_name [] m = (if m \<noteq> [] \<and> list_all (equal_fold (hd m)) m then last m else [])"
    using pick_name_last by (cases m) (auto simp: equal_fold_def)
  then show ?thesis by (simp add: CloseName_def close_name_pick m_def [symmetric] Let_def)
qed

theorem CloseName_unique_witness:
  "CloseName ''gihtub'' [''runner'', ''github''] = ''github''"
proof -
  have "[] \<notin> set [''runner'', ''github'']" by simp
  note CloseName_unique [OF this, of "''gihtub''"]
  moreover have "filter (\<lambda>c. adjacentTypo (to_lower ''gihtub'') (to_lower c)) [''runner'', ''github'']
      = [''github'']"
    by code_simp
  ultimately show ?thesis by (simp add: equal_fold_def)
qed

subsection \<open>Constant format strings\<close>

text \<open>A text as a format string: braces doubled.\<close>

definition escape_braces :: "string \<Rightarrow> string" where
  "escape_braces s = concat (map (\<lambda>c. if c = CHR 0x7B \<or> c = CHR 0x7D then [c, c] else [c]) s)"

lemma format_plain: "c \<noteq> CHR 0x7B \<Longrightarrow> c \<noteq> CHR 0x7D \<Longrightarrow>
    format_loop (c # s) args = map_option ((#) c) (format_loop s args)"
  by (simp add: format_loop.simps)

lemma format_doubled: "c = CHR 0x7B \<or> c = CHR 0x7D \<Longrightarrow>
    format_loop (c # c # s) args = map_option ((#) c) (format_loop s args)"
  by (auto simp: format_loop.simps)

lemma format_escaped:
  "format_loop (escape_braces s @ f) args = map_option ((@) s) (format_loop f args)"
proof (induction s)
  case (Cons c s)
  then show ?case
    using format_plain format_doubled
    by (cases "c = CHR 0x7B \<or> c = CHR 0x7D")
      (auto simp: escape_braces_def option.map_comp comp_def)
qed (simp add: escape_braces_def option.map_id0 id_def [symmetric])

lemma format_first_placeholder:
  "format_loop (''{0}'' @ f) (x # args) =
     (case constantPredicateString x of
        None \<Rightarrow> None
      | Some v \<Rightarrow> map_option ((@) v) (format_loop f (x # args)))"
proof -
  have zero: "atoi ''0'' = Some 0"
    by (simp add: atoi_def unsigned_part_def is_sign_def all_in_def is_digit_def digit_value_def)
  have close: "str_index (''{0}'' @ f) ''}'' = Some 2" by simp
  have "format_loop (CHR 0x7B # (''0}'' @ f)) (x # args) =
     (case constantPredicateString x of
        None \<Rightarrow> None
      | Some v \<Rightarrow> map_option ((@) v) (format_loop f (x # args)))"
    by (subst format_loop.simps(2)) (use zero close in \<open>simp split: option.split\<close>)
  then show ?thesis by simp
qed

text \<open>
  Constant format strings: a text whose braces are doubled formats to itself, around a
  placeholder too, which is replaced by the argument's text.
\<close>

theorem format_roundtrip:
  "constantConditionFormat (escape_braces s) args = Some (JStr s)
   \<and> constantConditionFormat (escape_braces s @ ''{0}'' @ escape_braces t) [JStr x]
     = Some (JStr (s @ x @ t))"
proof -
  have plain: "format_loop (escape_braces s) args = Some s" for s args
    using format_escaped [of s "[]" args] by simp
  show ?thesis
    using plain
    by (simp add: constantConditionFormat_def format_escaped format_first_placeholder [simplified])
qed

end
