(* ===== verification/Untrusted.thy ===== *)
theory Untrusted
  imports Expr_Event
begin

text \<open>
  Script injection (\<open>expr_insecure.go\<close>): the tree of untrusted inputs and the checker that
  follows property accesses while an expression is visited bottom-up. A cursor of the Go
  code is a pointer into the tree whose parents give the reported path; here it is the
  path with the subtree. The nodes the visitor compares by identity are distinct by their
  source ranges, so the comparison is equality of nodes.
\<close>

subsection \<open>The tree\<close>

datatype umap = UMap (umap_name: string) (umap_children: "umap list")

type_synonym cursor = "string \<times> umap"

fun find_named :: "string \<Rightarrow> umap list \<Rightarrow> umap option" where
  "find_named key [] = None"
| "find_named key (m # ms) = (if umap_name m = key then Some m else find_named key ms)"

definition child_cursor :: "string \<Rightarrow> umap \<Rightarrow> cursor" where
  "child_cursor path m = (path @ ''.'' @ umap_name m, m)"

definition findChild :: "string \<Rightarrow> cursor \<Rightarrow> cursor option" where
  "findChild key c = map_option (child_cursor (fst c)) (find_named key (umap_children (snd c)))"

definition findAnyProp :: "cursor \<Rightarrow> cursor option" where
  "findAnyProp c = findChild ''**'' c"

definition findObjectProp :: "string \<Rightarrow> cursor \<Rightarrow> cursor option" where
  "findObjectProp name c = (case findChild name c of Some d \<Rightarrow> Some d | None \<Rightarrow> findAnyProp c)"

definition findArrayElem :: "cursor \<Rightarrow> cursor option" where
  "findArrayElem c = findChild ''*'' c"

definition is_leaf :: "cursor \<Rightarrow> bool" where
  "is_leaf c \<longleftrightarrow> umap_children (snd c) = []"

definition BuiltinUntrustedInputs :: "umap list" where
  "BuiltinUntrustedInputs = [
    UMap ''github'' [
      UMap ''event'' [
        UMap ''issue'' [UMap ''title'' [], UMap ''body'' []],
        UMap ''pull_request'' [
          UMap ''title'' [],
          UMap ''body'' [],
          UMap ''head'' [
            UMap ''ref'' [],
            UMap ''label'' [],
            UMap ''repo'' [UMap ''default_branch'' []]]],
        UMap ''comment'' [UMap ''body'' []],
        UMap ''review'' [UMap ''body'' []],
        UMap ''review_comment'' [UMap ''body'' []],
        UMap ''pages'' [UMap ''*'' [UMap ''page_name'' []]],
        UMap ''commits'' [
          UMap ''*'' [
            UMap ''message'' [],
            UMap ''committer'' [UMap ''email'' [], UMap ''name'' []],
            UMap ''author'' [UMap ''email'' [], UMap ''name'' []]]],
        UMap ''head_commit'' [
          UMap ''message'' [],
          UMap ''committer'' [UMap ''email'' [], UMap ''name'' []],
          UMap ''author'' [UMap ''email'' [], UMap ''name'' []]],
        UMap ''discussion'' [UMap ''title'' [], UMap ''body'' []],
        UMap ''workflow'' [UMap ''name'' [], UMap ''path'' []],
        UMap ''workflow_run'' [
          UMap ''actor'' [UMap ''name'' [], UMap ''email'' []],
          UMap ''triggering_actor'' [UMap ''name'' [], UMap ''email'' []],
          UMap ''head_repository'' [
            UMap ''default_branch'' [],
            UMap ''description'' [],
            UMap ''homepage'' [],
            UMap ''owner'' [UMap ''name'' [], UMap ''email'' []]],
          UMap ''head_branch'' [],
          UMap ''name'' [],
          UMap ''path'' [],
          UMap ''referenced_workflows'' [UMap ''*'' [UMap ''ref'' [], UMap ''path'' []]],
          UMap ''pull_requests'' [UMap ''*'' [UMap ''head'' [UMap ''ref'' []]]],
          UMap ''display_title'' [],
          UMap ''head_commit'' [
            UMap ''message'' [],
            UMap ''author'' [UMap ''name'' [], UMap ''email'' []],
            UMap ''committer'' [UMap ''name'' [], UMap ''email'' []]]]],
      UMap ''head_ref'' []]]"

subsection \<open>The checker\<close>

record ucheck =
  u_roots :: "umap list"
  u_filtering :: bool
  u_cur :: "cursor list"
  u_start :: "node option"
  u_errs :: "expr_error list"
  u_safeCalls :: int
  u_booleanContexts :: int
  u_visits :: "(node \<times> bool) list"

definition NewUntrustedInputChecker :: "umap list \<Rightarrow> ucheck" where
  "NewUntrustedInputChecker roots =
     \<lparr>u_roots = roots, u_filtering = False, u_cur = [], u_start = None, u_errs = [],
      u_safeCalls = 0, u_booleanContexts = 0, u_visits = []\<rparr>"

definition u_reset :: "ucheck \<Rightarrow> ucheck" where
  "u_reset u = u\<lparr>u_start := None, u_filtering := False, u_cur := []\<rparr>"

text \<open>\<open>compact\<close> drops the cursors set to nil.\<close>

definition compact :: "cursor option list \<Rightarrow> cursor list" where
  "compact cs = map the (filter (\<lambda>c. c \<noteq> None) cs)"

definition onVar :: "node \<Rightarrow> string \<Rightarrow> ucheck \<Rightarrow> ucheck" where
  "onVar n name u =
     (case find_named name (u_roots u) of
        None \<Rightarrow> u
      | Some m \<Rightarrow> u\<lparr>u_start := Some n, u_cur := u_cur u @ [(umap_name m, m)]\<rparr>)"

definition onPropAccess :: "string \<Rightarrow> ucheck \<Rightarrow> ucheck" where
  "onPropAccess name u = u\<lparr>u_cur := compact (map (findObjectProp name) (u_cur u))\<rparr>"

definition onIndexAccess :: "ucheck \<Rightarrow> ucheck" where
  "onIndexAccess u =
     (if u_filtering u then u\<lparr>u_filtering := False\<rparr>
      else u\<lparr>u_cur := compact (map (\<lambda>c.
        case findArrayElem c of Some d \<Rightarrow> Some d | None \<Rightarrow> findAnyProp c) (u_cur u))\<rparr>)"

text \<open>
  An object filter moves each cursor to its array element, or to all its children: the
  first child replaces it and the others are appended.
\<close>

definition filter_first :: "cursor \<Rightarrow> cursor option" where
  "filter_first c =
     (case findArrayElem c of
        Some d \<Rightarrow> Some d
      | None \<Rightarrow> (case umap_children (snd c) of [] \<Rightarrow> None | m # _ \<Rightarrow> Some (child_cursor (fst c) m)))"

definition filter_rest :: "cursor \<Rightarrow> cursor list" where
  "filter_rest c =
     (case findArrayElem c of
        Some d \<Rightarrow> []
      | None \<Rightarrow> map (child_cursor (fst c)) (tl (umap_children (snd c))))"

definition onObjectFilter :: "ucheck \<Rightarrow> ucheck" where
  "onObjectFilter u =
     u\<lparr>u_filtering := True,
       u_cur := compact (map filter_first (u_cur u) @ map Some (concat (map filter_rest (u_cur u))))\<rparr>"

definition reportInputs :: "node option \<Rightarrow> string list \<Rightarrow> ucheck \<Rightarrow> ucheck" where
  "reportInputs start inputs u =
     (case start of
        None \<Rightarrow> u
      | Some n \<Rightarrow>
          (case inputs of
             [] \<Rightarrow> u
           | [i] \<Rightarrow> u\<lparr>u_errs := u_errs u @
               [error_at_expr fk_untrustedInterpolation n (RuleMsg (UntrustedInput i))]\<rparr>
           | _ \<Rightarrow> u\<lparr>u_errs := u_errs u @
               [error_at_expr fk_untrustedInterpolation n (RuleMsg (UntrustedFilter (sort inputs)))]\<rparr>))"

definition endInput :: "bool \<Rightarrow> ucheck \<Rightarrow> ucheck" where
  "endInput serialized u =
     u_reset (reportInputs (u_start u)
       (map fst (filter (\<lambda>c. is_leaf c \<or> serialized) (u_cur u))) u)"

abbreviation u_end :: "ucheck \<Rightarrow> ucheck" where
  "u_end \<equiv> endInput False"

text \<open>\<open>followAccess\<close>: the checker after a chain of accesses, \<open>None\<close> for false.\<close>

definition set_start :: "node \<Rightarrow> ucheck \<Rightarrow> ucheck" where
  "set_start n u = (if u_start u \<noteq> None then u\<lparr>u_start := Some n\<rparr> else u)"

definition index_step :: "node \<Rightarrow> ucheck \<Rightarrow> ucheck" where
  "index_step i u =
     (case i of StringNode _ k _ \<Rightarrow> onPropAccess (to_lower k) u | _ \<Rightarrow> onIndexAccess u)"

fun followAccess :: "node \<Rightarrow> ucheck \<Rightarrow> ucheck option" where
  "followAccess (VariableNode s name t) u =
     Some (set_start (VariableNode s name t) (onVar (VariableNode s name t) name u))"
| "followAccess (ObjectDerefNode s r p t) u =
     map_option (\<lambda>u. set_start (ObjectDerefNode s r p t) (onPropAccess p u)) (followAccess r u)"
| "followAccess (ArrayDerefNode s r) u =
     map_option (\<lambda>u. set_start (ArrayDerefNode s r) (onObjectFilter u)) (followAccess r u)"
| "followAccess (IndexAccessNode s r i) u =
     map_option (\<lambda>u. set_start (IndexAccessNode s r i) (index_step i u)) (followAccess r u)"
| "followAccess _ u = None"

definition report_containers :: "node \<Rightarrow> ucheck \<Rightarrow> ucheck" where
  "report_containers e u =
     (case followAccess e (NewUntrustedInputChecker (u_roots u)) of
        None \<Rightarrow> u
      | Some a \<Rightarrow> reportInputs (u_start a) (map fst (filter (\<lambda>c. \<not> is_leaf c) (u_cur a))) u)"

fun serializedContainers :: "node \<Rightarrow> ucheck \<Rightarrow> ucheck"
  and serialized_cases :: "node list \<Rightarrow> ucheck \<Rightarrow> ucheck"
where
  "serializedContainers (LogicalOpNode _ k l r) u =
     (case ConditionConstantValue l of
        Some v \<Rightarrow> if ExpressionTruthy v \<noteq> (k = LogicalOr) then serializedContainers r u else u
      | None \<Rightarrow>
          serializedContainers r (if k = LogicalOr then serializedContainers l u else u))"
| "serializedContainers (FuncCallNode _ callee args _) u =
     (if \<not> equal_fold callee ''case'' \<or> length args < 3 \<or> even (length args) then u
      else serialized_cases args u)"
| "serializedContainers e u = report_containers e u"
| "serialized_cases (p # v # rest) u =
     (case ConditionConstantValue p of
        Some x \<Rightarrow> if ExpressionTruthy x then serializedContainers v u else serialized_cases rest u
      | None \<Rightarrow> serialized_cases rest (serializedContainers v u))"
| "serialized_cases [e] u = serializedContainers e u"
| "serialized_cases [] u = u"

subsection \<open>Visiting\<close>

text \<open>The predicates of a \<open>case\<close> call: its arguments at even positions but the last.\<close>

fun case_predicates :: "node list \<Rightarrow> node list" where
  "case_predicates (p # v # rest) = p # case_predicates rest"
| "case_predicates _ = []"

definition boolean_context :: "node \<Rightarrow> ucheck \<Rightarrow> bool" where
  "boolean_context n u =
     ((case n of CompareOpNode _ _ _ _ \<Rightarrow> True | NotOpNode _ _ _ \<Rightarrow> True | _ \<Rightarrow> False)
      \<or> (case u_visits u of
           [] \<Rightarrow> False
         | (parent, _) # _ \<Rightarrow>
             (case parent of
                LogicalOpNode _ k l r \<Rightarrow> k = LogicalAnd \<and> l = n
              | FuncCallNode _ callee args _ \<Rightarrow>
                  equal_fold callee ''case'' \<and> n \<in> set (case_predicates args)
              | _ \<Rightarrow> False)))"

definition is_safe_call :: "node \<Rightarrow> bool" where
  "is_safe_call n = (case n of FuncCallNode _ callee _ _ \<Rightarrow> isSafeFuncCall callee | _ \<Rightarrow> False)"

definition OnVisitNodeEnter :: "node \<Rightarrow> ucheck \<Rightarrow> ucheck" where
  "OnVisitNodeEnter n u =
     (let b = boolean_context n u in
      u\<lparr>u_visits := (n, b) # u_visits u,
        u_booleanContexts := u_booleanContexts u + (if b then 1 else 0),
        u_safeCalls := u_safeCalls u + (if is_safe_call n then 1 else 0)\<rparr>)"

text \<open>The deferred function of \<open>OnVisitNodeLeave\<close>.\<close>

definition pop_visit :: "ucheck \<Rightarrow> ucheck" where
  "pop_visit u =
     (case u_visits u of
        [] \<Rightarrow> u
      | (n, b) # vs \<Rightarrow>
          u\<lparr>u_visits := vs, u_booleanContexts := u_booleanContexts u - (if b then 1 else 0)\<rparr>)"

fun is_access :: "node \<Rightarrow> bool" where
  "is_access (VariableNode _ _ _) = True"
| "is_access (ObjectDerefNode _ _ _ _) = True"
| "is_access (ArrayDerefNode _ _) = True"
| "is_access (IndexAccessNode _ _ _) = True"
| "is_access _ = False"

definition leave_call :: "string \<Rightarrow> node list \<Rightarrow> ucheck \<Rightarrow> ucheck" where
  "leave_call callee args u =
     (if u_booleanContexts u = 0 \<and> equal_fold callee ''toJSON'' \<and> length args = 1
      then (if is_access (hd args) then endInput True u else u_end (serializedContainers (hd args) u))
      else u_end u)"

fun leave_node :: "node \<Rightarrow> ucheck \<Rightarrow> ucheck" where
  "leave_node (VariableNode s name t) u = onVar (VariableNode s name t) name (u_end u)"
| "leave_node (ObjectDerefNode s r p t) u = set_start (ObjectDerefNode s r p t) (onPropAccess p u)"
| "leave_node (IndexAccessNode s r i) u = set_start (IndexAccessNode s r i) (index_step i u)"
| "leave_node (ArrayDerefNode s r) u = set_start (ArrayDerefNode s r) (onObjectFilter u)"
| "leave_node (FuncCallNode s callee args t) u = leave_call callee args u"
| "leave_node n u = u_end u"

definition OnVisitNodeLeave :: "node \<Rightarrow> ucheck \<Rightarrow> ucheck" where
  "OnVisitNodeLeave n u =
     pop_visit
       (if 0 < u_safeCalls u
        then (if is_safe_call n then u\<lparr>u_safeCalls := u_safeCalls u - 1\<rparr> else u)
        else leave_node n u)"

definition OnVisitEnd :: "ucheck \<Rightarrow> ucheck" where
  "OnVisitEnd u = u_end u"

definition u_Init :: "ucheck \<Rightarrow> ucheck" where
  "u_Init u = u_reset (u\<lparr>u_errs := [], u_safeCalls := 0, u_booleanContexts := 0, u_visits := []\<rparr>)"

end
