(* ===== verification/Availability.thy ===== *)
theory Availability
  imports Go_Base
begin

text \<open>
  Which contexts and special functions a workflow key allows: the tables of
  \<open>internal/expression/context/availability.gen.go\<close>. A nil slice and an empty one are both
  the empty list.
\<close>

definition WorkflowKeyAvailability :: "string \<Rightarrow> string list \<times> string list" where
  "WorkflowKeyAvailability key = (
     if key \<in> set
        [''jobs.<job_id>.outputs.<output_id>'']
     then (
        [''env'', ''github'', ''inputs'', ''job'', ''matrix'', ''needs'', ''runner'',
         ''secrets'', ''steps'', ''strategy'', ''vars''],
        [])
     else if key \<in> set
        [''jobs.<job_id>.steps.continue-on-error'', ''jobs.<job_id>.steps.env'',
         ''jobs.<job_id>.steps.name'', ''jobs.<job_id>.steps.run'',
         ''jobs.<job_id>.steps.timeout-minutes'', ''jobs.<job_id>.steps.with'',
         ''jobs.<job_id>.steps.working-directory'']
     then (
        [''env'', ''github'', ''inputs'', ''job'', ''matrix'', ''needs'', ''runner'',
         ''secrets'', ''steps'', ''strategy'', ''vars''],
        [''hashfiles''])
     else if key \<in> set
        [''jobs.<job_id>.container.env.<env_id>'',
         ''jobs.<job_id>.services.<service_id>.env.<env_id>'']
     then (
        [''env'', ''github'', ''inputs'', ''job'', ''matrix'', ''needs'', ''runner'',
         ''secrets'', ''strategy'', ''vars''],
        [])
     else if key \<in> set
        [''jobs.<job_id>.environment.url'']
     then (
        [''env'', ''github'', ''inputs'', ''job'', ''matrix'', ''needs'', ''runner'',
         ''steps'', ''strategy'', ''vars''],
        [])
     else if key \<in> set
        [''jobs.<job_id>.steps.if'']
     then (
        [''env'', ''github'', ''inputs'', ''job'', ''matrix'', ''needs'', ''runner'',
         ''steps'', ''strategy'', ''vars''],
        [''always'', ''cancelled'', ''failure'', ''hashfiles'', ''success''])
     else if key \<in> set
        [''jobs.<job_id>.container.credentials'',
         ''jobs.<job_id>.services.<service_id>.credentials'']
     then (
        [''env'', ''github'', ''inputs'', ''matrix'', ''needs'', ''secrets'', ''strategy'',
         ''vars''],
        [])
     else if key \<in> set
        [''jobs.<job_id>.defaults.run'']
     then (
        [''env'', ''github'', ''inputs'', ''matrix'', ''needs'', ''strategy'', ''vars''],
        [])
     else if key \<in> set
        [''on.workflow_call.outputs.<output_id>.value'']
     then (
        [''github'', ''inputs'', ''jobs'', ''vars''],
        [])
     else if key \<in> set
        [''jobs.<job_id>.env'', ''jobs.<job_id>.secrets.<secrets_id>'']
     then (
        [''github'', ''inputs'', ''matrix'', ''needs'', ''secrets'', ''strategy'', ''vars''],
        [])
     else if key \<in> set
        [''jobs.<job_id>.concurrency'', ''jobs.<job_id>.container'',
         ''jobs.<job_id>.container.image'', ''jobs.<job_id>.continue-on-error'',
         ''jobs.<job_id>.environment'', ''jobs.<job_id>.name'', ''jobs.<job_id>.runs-on'',
         ''jobs.<job_id>.services'', ''jobs.<job_id>.timeout-minutes'',
         ''jobs.<job_id>.with.<with_id>'']
     then (
        [''github'', ''inputs'', ''matrix'', ''needs'', ''strategy'', ''vars''],
        [])
     else if key \<in> set
        [''jobs.<job_id>.strategy'']
     then (
        [''github'', ''inputs'', ''needs'', ''vars''],
        [])
     else if key \<in> set
        [''jobs.<job_id>.if'']
     then (
        [''github'', ''inputs'', ''needs'', ''vars''],
        [''always'', ''cancelled'', ''failure'', ''success''])
     else if key \<in> set
        [''env'']
     then (
        [''github'', ''inputs'', ''secrets'', ''vars''],
        [])
     else if key \<in> set
        [''concurrency'', ''on.workflow_call.inputs.<inputs_id>.default'', ''run-name'']
     then (
        [''github'', ''inputs'', ''vars''],
        [])
     else if key \<in> set
        [''jobs.<job_id>.cancel-timeout-minutes'', ''jobs.<job_id>.snapshot'']
     then (
        [''github'', ''inputs'', ''matrix'', ''needs'', ''strategy'', ''vars''],
        [])
     else if key \<in> set
        [''jobs.<job_id>.snapshot.if'']
     then (
        [''env'', ''github'', ''inputs'', ''job'', ''matrix'', ''needs'', ''runner'',
         ''steps'', ''strategy'', ''vars''],
        [''always'', ''cancelled'', ''failure'', ''hashfiles'', ''success''])
     else ([], []))"

definition SpecialFunctionNames :: "(string \<times> string list) list" where
  "SpecialFunctionNames = [
      (''always'',
        [''jobs.<job_id>.if'', ''jobs.<job_id>.steps.if'', ''jobs.<job_id>.snapshot.if'']),
      (''cancelled'',
        [''jobs.<job_id>.if'', ''jobs.<job_id>.steps.if'', ''jobs.<job_id>.snapshot.if'']),
      (''failure'',
        [''jobs.<job_id>.if'', ''jobs.<job_id>.steps.if'', ''jobs.<job_id>.snapshot.if'']),
      (''hashfiles'',
        [''jobs.<job_id>.steps.continue-on-error'', ''jobs.<job_id>.steps.env'',
         ''jobs.<job_id>.steps.if'', ''jobs.<job_id>.steps.name'', ''jobs.<job_id>.steps.run'',
         ''jobs.<job_id>.steps.timeout-minutes'', ''jobs.<job_id>.steps.with'',
         ''jobs.<job_id>.steps.working-directory'', ''jobs.<job_id>.snapshot.if'']),
      (''success'',
        [''jobs.<job_id>.if'', ''jobs.<job_id>.steps.if'', ''jobs.<job_id>.snapshot.if''])]"

definition AllContexts :: "(string \<times> string list) list" where
  "AllContexts = [
      (''env'',
        [''jobs.<job_id>.container.credentials'', ''jobs.<job_id>.container.env.<env_id>'',
         ''jobs.<job_id>.defaults.run'', ''jobs.<job_id>.environment.url'',
         ''jobs.<job_id>.outputs.<output_id>'',
         ''jobs.<job_id>.services.<service_id>.credentials'',
         ''jobs.<job_id>.services.<service_id>.env.<env_id>'', ''jobs.<job_id>.snapshot.if'',
         ''jobs.<job_id>.steps.continue-on-error'', ''jobs.<job_id>.steps.env'',
         ''jobs.<job_id>.steps.if'', ''jobs.<job_id>.steps.name'', ''jobs.<job_id>.steps.run'',
         ''jobs.<job_id>.steps.timeout-minutes'', ''jobs.<job_id>.steps.with'',
         ''jobs.<job_id>.steps.working-directory'']),
      (''github'',
        [''concurrency'', ''env'', ''jobs.<job_id>.cancel-timeout-minutes'',
         ''jobs.<job_id>.concurrency'', ''jobs.<job_id>.container'',
         ''jobs.<job_id>.container.credentials'', ''jobs.<job_id>.container.env.<env_id>'',
         ''jobs.<job_id>.container.image'', ''jobs.<job_id>.continue-on-error'',
         ''jobs.<job_id>.defaults.run'', ''jobs.<job_id>.env'', ''jobs.<job_id>.environment'',
         ''jobs.<job_id>.environment.url'', ''jobs.<job_id>.if'', ''jobs.<job_id>.name'',
         ''jobs.<job_id>.outputs.<output_id>'', ''jobs.<job_id>.runs-on'',
         ''jobs.<job_id>.secrets.<secrets_id>'', ''jobs.<job_id>.services'',
         ''jobs.<job_id>.services.<service_id>.credentials'',
         ''jobs.<job_id>.services.<service_id>.env.<env_id>'', ''jobs.<job_id>.snapshot'',
         ''jobs.<job_id>.snapshot.if'', ''jobs.<job_id>.steps.continue-on-error'',
         ''jobs.<job_id>.steps.env'', ''jobs.<job_id>.steps.if'', ''jobs.<job_id>.steps.name'',
         ''jobs.<job_id>.steps.run'', ''jobs.<job_id>.steps.timeout-minutes'',
         ''jobs.<job_id>.steps.with'', ''jobs.<job_id>.steps.working-directory'',
         ''jobs.<job_id>.strategy'', ''jobs.<job_id>.timeout-minutes'',
         ''jobs.<job_id>.with.<with_id>'', ''on.workflow_call.inputs.<inputs_id>.default'',
         ''on.workflow_call.outputs.<output_id>.value'', ''run-name'']),
      (''inputs'',
        [''concurrency'', ''env'', ''jobs.<job_id>.cancel-timeout-minutes'',
         ''jobs.<job_id>.concurrency'', ''jobs.<job_id>.container'',
         ''jobs.<job_id>.container.credentials'', ''jobs.<job_id>.container.env.<env_id>'',
         ''jobs.<job_id>.container.image'', ''jobs.<job_id>.continue-on-error'',
         ''jobs.<job_id>.defaults.run'', ''jobs.<job_id>.env'', ''jobs.<job_id>.environment'',
         ''jobs.<job_id>.environment.url'', ''jobs.<job_id>.if'', ''jobs.<job_id>.name'',
         ''jobs.<job_id>.outputs.<output_id>'', ''jobs.<job_id>.runs-on'',
         ''jobs.<job_id>.secrets.<secrets_id>'', ''jobs.<job_id>.services'',
         ''jobs.<job_id>.services.<service_id>.credentials'',
         ''jobs.<job_id>.services.<service_id>.env.<env_id>'', ''jobs.<job_id>.snapshot'',
         ''jobs.<job_id>.snapshot.if'', ''jobs.<job_id>.steps.continue-on-error'',
         ''jobs.<job_id>.steps.env'', ''jobs.<job_id>.steps.if'', ''jobs.<job_id>.steps.name'',
         ''jobs.<job_id>.steps.run'', ''jobs.<job_id>.steps.timeout-minutes'',
         ''jobs.<job_id>.steps.with'', ''jobs.<job_id>.steps.working-directory'',
         ''jobs.<job_id>.strategy'', ''jobs.<job_id>.timeout-minutes'',
         ''jobs.<job_id>.with.<with_id>'', ''on.workflow_call.inputs.<inputs_id>.default'',
         ''on.workflow_call.outputs.<output_id>.value'', ''run-name'']),
      (''job'',
        [''jobs.<job_id>.container.env.<env_id>'', ''jobs.<job_id>.environment.url'',
         ''jobs.<job_id>.outputs.<output_id>'',
         ''jobs.<job_id>.services.<service_id>.env.<env_id>'', ''jobs.<job_id>.snapshot.if'',
         ''jobs.<job_id>.steps.continue-on-error'', ''jobs.<job_id>.steps.env'',
         ''jobs.<job_id>.steps.if'', ''jobs.<job_id>.steps.name'', ''jobs.<job_id>.steps.run'',
         ''jobs.<job_id>.steps.timeout-minutes'', ''jobs.<job_id>.steps.with'',
         ''jobs.<job_id>.steps.working-directory'']),
      (''jobs'',
        [''on.workflow_call.outputs.<output_id>.value'']),
      (''matrix'',
        [''jobs.<job_id>.cancel-timeout-minutes'', ''jobs.<job_id>.concurrency'',
         ''jobs.<job_id>.container'', ''jobs.<job_id>.container.credentials'',
         ''jobs.<job_id>.container.env.<env_id>'', ''jobs.<job_id>.container.image'',
         ''jobs.<job_id>.continue-on-error'', ''jobs.<job_id>.defaults.run'',
         ''jobs.<job_id>.env'', ''jobs.<job_id>.environment'',
         ''jobs.<job_id>.environment.url'', ''jobs.<job_id>.name'',
         ''jobs.<job_id>.outputs.<output_id>'', ''jobs.<job_id>.runs-on'',
         ''jobs.<job_id>.secrets.<secrets_id>'', ''jobs.<job_id>.services'',
         ''jobs.<job_id>.services.<service_id>.credentials'',
         ''jobs.<job_id>.services.<service_id>.env.<env_id>'', ''jobs.<job_id>.snapshot'',
         ''jobs.<job_id>.snapshot.if'', ''jobs.<job_id>.steps.continue-on-error'',
         ''jobs.<job_id>.steps.env'', ''jobs.<job_id>.steps.if'', ''jobs.<job_id>.steps.name'',
         ''jobs.<job_id>.steps.run'', ''jobs.<job_id>.steps.timeout-minutes'',
         ''jobs.<job_id>.steps.with'', ''jobs.<job_id>.steps.working-directory'',
         ''jobs.<job_id>.timeout-minutes'', ''jobs.<job_id>.with.<with_id>'']),
      (''needs'',
        [''jobs.<job_id>.cancel-timeout-minutes'', ''jobs.<job_id>.concurrency'',
         ''jobs.<job_id>.container'', ''jobs.<job_id>.container.credentials'',
         ''jobs.<job_id>.container.env.<env_id>'', ''jobs.<job_id>.container.image'',
         ''jobs.<job_id>.continue-on-error'', ''jobs.<job_id>.defaults.run'',
         ''jobs.<job_id>.env'', ''jobs.<job_id>.environment'',
         ''jobs.<job_id>.environment.url'', ''jobs.<job_id>.if'', ''jobs.<job_id>.name'',
         ''jobs.<job_id>.outputs.<output_id>'', ''jobs.<job_id>.runs-on'',
         ''jobs.<job_id>.secrets.<secrets_id>'', ''jobs.<job_id>.services'',
         ''jobs.<job_id>.services.<service_id>.credentials'',
         ''jobs.<job_id>.services.<service_id>.env.<env_id>'', ''jobs.<job_id>.snapshot'',
         ''jobs.<job_id>.snapshot.if'', ''jobs.<job_id>.steps.continue-on-error'',
         ''jobs.<job_id>.steps.env'', ''jobs.<job_id>.steps.if'', ''jobs.<job_id>.steps.name'',
         ''jobs.<job_id>.steps.run'', ''jobs.<job_id>.steps.timeout-minutes'',
         ''jobs.<job_id>.steps.with'', ''jobs.<job_id>.steps.working-directory'',
         ''jobs.<job_id>.strategy'', ''jobs.<job_id>.timeout-minutes'',
         ''jobs.<job_id>.with.<with_id>'']),
      (''runner'',
        [''jobs.<job_id>.container.env.<env_id>'', ''jobs.<job_id>.environment.url'',
         ''jobs.<job_id>.outputs.<output_id>'',
         ''jobs.<job_id>.services.<service_id>.env.<env_id>'', ''jobs.<job_id>.snapshot.if'',
         ''jobs.<job_id>.steps.continue-on-error'', ''jobs.<job_id>.steps.env'',
         ''jobs.<job_id>.steps.if'', ''jobs.<job_id>.steps.name'', ''jobs.<job_id>.steps.run'',
         ''jobs.<job_id>.steps.timeout-minutes'', ''jobs.<job_id>.steps.with'',
         ''jobs.<job_id>.steps.working-directory'']),
      (''secrets'',
        [''env'', ''jobs.<job_id>.container.credentials'',
         ''jobs.<job_id>.container.env.<env_id>'', ''jobs.<job_id>.env'',
         ''jobs.<job_id>.outputs.<output_id>'', ''jobs.<job_id>.secrets.<secrets_id>'',
         ''jobs.<job_id>.services.<service_id>.credentials'',
         ''jobs.<job_id>.services.<service_id>.env.<env_id>'',
         ''jobs.<job_id>.steps.continue-on-error'', ''jobs.<job_id>.steps.env'',
         ''jobs.<job_id>.steps.name'', ''jobs.<job_id>.steps.run'',
         ''jobs.<job_id>.steps.timeout-minutes'', ''jobs.<job_id>.steps.with'',
         ''jobs.<job_id>.steps.working-directory'']),
      (''steps'',
        [''jobs.<job_id>.environment.url'', ''jobs.<job_id>.outputs.<output_id>'',
         ''jobs.<job_id>.snapshot.if'', ''jobs.<job_id>.steps.continue-on-error'',
         ''jobs.<job_id>.steps.env'', ''jobs.<job_id>.steps.if'', ''jobs.<job_id>.steps.name'',
         ''jobs.<job_id>.steps.run'', ''jobs.<job_id>.steps.timeout-minutes'',
         ''jobs.<job_id>.steps.with'', ''jobs.<job_id>.steps.working-directory'']),
      (''strategy'',
        [''jobs.<job_id>.cancel-timeout-minutes'', ''jobs.<job_id>.concurrency'',
         ''jobs.<job_id>.container'', ''jobs.<job_id>.container.credentials'',
         ''jobs.<job_id>.container.env.<env_id>'', ''jobs.<job_id>.container.image'',
         ''jobs.<job_id>.continue-on-error'', ''jobs.<job_id>.defaults.run'',
         ''jobs.<job_id>.env'', ''jobs.<job_id>.environment'',
         ''jobs.<job_id>.environment.url'', ''jobs.<job_id>.name'',
         ''jobs.<job_id>.outputs.<output_id>'', ''jobs.<job_id>.runs-on'',
         ''jobs.<job_id>.secrets.<secrets_id>'', ''jobs.<job_id>.services'',
         ''jobs.<job_id>.services.<service_id>.credentials'',
         ''jobs.<job_id>.services.<service_id>.env.<env_id>'', ''jobs.<job_id>.snapshot'',
         ''jobs.<job_id>.snapshot.if'', ''jobs.<job_id>.steps.continue-on-error'',
         ''jobs.<job_id>.steps.env'', ''jobs.<job_id>.steps.if'', ''jobs.<job_id>.steps.name'',
         ''jobs.<job_id>.steps.run'', ''jobs.<job_id>.steps.timeout-minutes'',
         ''jobs.<job_id>.steps.with'', ''jobs.<job_id>.steps.working-directory'',
         ''jobs.<job_id>.timeout-minutes'', ''jobs.<job_id>.with.<with_id>'']),
      (''vars'',
        [''concurrency'', ''env'', ''jobs.<job_id>.cancel-timeout-minutes'',
         ''jobs.<job_id>.concurrency'', ''jobs.<job_id>.container'',
         ''jobs.<job_id>.container.credentials'', ''jobs.<job_id>.container.env.<env_id>'',
         ''jobs.<job_id>.container.image'', ''jobs.<job_id>.continue-on-error'',
         ''jobs.<job_id>.defaults.run'', ''jobs.<job_id>.env'', ''jobs.<job_id>.environment'',
         ''jobs.<job_id>.environment.url'', ''jobs.<job_id>.if'', ''jobs.<job_id>.name'',
         ''jobs.<job_id>.outputs.<output_id>'', ''jobs.<job_id>.runs-on'',
         ''jobs.<job_id>.secrets.<secrets_id>'', ''jobs.<job_id>.services'',
         ''jobs.<job_id>.services.<service_id>.credentials'',
         ''jobs.<job_id>.services.<service_id>.env.<env_id>'', ''jobs.<job_id>.snapshot'',
         ''jobs.<job_id>.snapshot.if'', ''jobs.<job_id>.steps.continue-on-error'',
         ''jobs.<job_id>.steps.env'', ''jobs.<job_id>.steps.if'', ''jobs.<job_id>.steps.name'',
         ''jobs.<job_id>.steps.run'', ''jobs.<job_id>.steps.timeout-minutes'',
         ''jobs.<job_id>.steps.with'', ''jobs.<job_id>.steps.working-directory'',
         ''jobs.<job_id>.strategy'', ''jobs.<job_id>.timeout-minutes'',
         ''jobs.<job_id>.with.<with_id>'', ''on.workflow_call.inputs.<inputs_id>.default'',
         ''on.workflow_call.outputs.<output_id>.value'', ''run-name''])]"

definition AllWorkflowKeys :: "string list" where
  "AllWorkflowKeys =
    [''concurrency'', ''env'', ''jobs.<job_id>.cancel-timeout-minutes'',
     ''jobs.<job_id>.concurrency'', ''jobs.<job_id>.container'',
     ''jobs.<job_id>.container.credentials'', ''jobs.<job_id>.container.env.<env_id>'',
     ''jobs.<job_id>.container.image'', ''jobs.<job_id>.continue-on-error'',
     ''jobs.<job_id>.defaults.run'', ''jobs.<job_id>.env'', ''jobs.<job_id>.environment'',
     ''jobs.<job_id>.environment.url'', ''jobs.<job_id>.if'', ''jobs.<job_id>.name'',
     ''jobs.<job_id>.outputs.<output_id>'', ''jobs.<job_id>.runs-on'',
     ''jobs.<job_id>.secrets.<secrets_id>'', ''jobs.<job_id>.services'',
     ''jobs.<job_id>.services.<service_id>.credentials'',
     ''jobs.<job_id>.services.<service_id>.env.<env_id>'', ''jobs.<job_id>.snapshot'',
     ''jobs.<job_id>.snapshot.if'', ''jobs.<job_id>.steps.continue-on-error'',
     ''jobs.<job_id>.steps.env'', ''jobs.<job_id>.steps.if'', ''jobs.<job_id>.steps.name'',
     ''jobs.<job_id>.steps.run'', ''jobs.<job_id>.steps.timeout-minutes'',
     ''jobs.<job_id>.steps.with'', ''jobs.<job_id>.steps.working-directory'',
     ''jobs.<job_id>.strategy'', ''jobs.<job_id>.timeout-minutes'',
     ''jobs.<job_id>.with.<with_id>'', ''on.workflow_call.inputs.<inputs_id>.default'',
     ''on.workflow_call.outputs.<output_id>.value'', ''run-name'']"

text \<open>
  The generated tables agree on special functions: a workflow key allows a function
  exactly if the function's own list names the key, and every key a function's list names is a workflow key.
\<close>

theorem special_functions_agree:
  "list_all (\<lambda>key. list_all (\<lambda>(f, keys).
       (f \<in> set (snd (WorkflowKeyAvailability key))) = (key \<in> set keys)) SpecialFunctionNames)
     AllWorkflowKeys
   \<and> list_all (\<lambda>(f, keys). list_all (\<lambda>k. k \<in> set AllWorkflowKeys) keys) SpecialFunctionNames"
  by code_simp

end
