(* ===== verification/Sema_Builtin.thy ===== *)
theory Sema_Builtin
  imports Untrusted Availability
begin

text \<open>
  The tables of \<open>expr_sema.go\<close>: signatures of the built-in functions and types of the
  contexts, and the checks that need no checker state: \<open>ordinal\<close>, the placeholders of a format
  string, \<open>checkFuncSignature\<close> and \<open>validateCompareOpOperands\<close>.
\<close>

subsection \<open>Ordinals and format strings\<close>

definition ordinal :: "nat \<Rightarrow> string" where
  "ordinal i = nat_digits i @
     (if i mod 10 = 1 then (if i mod 100 \<noteq> 11 then ''st'' else ''th'')
      else if i mod 10 = 2 then (if i mod 100 \<noteq> 12 then ''nd'' else ''th'')
      else if i mod 10 = 3 then (if i mod 100 \<noteq> 13 then ''rd'' else ''th'')
      else ''th'')"

text \<open>The runes of a string with their byte offsets, as \<open>range\<close> yields them.\<close>

function rune_positions :: "nat \<Rightarrow> string \<Rightarrow> (nat \<times> rune) list" where
  "rune_positions i [] = []"
| "rune_positions i (c # s) =
     (case decode_rune (c # s) of (r, w) \<Rightarrow> (i, r) # rune_positions (i + w) (drop (w - 1) s))"
  by pat_completeness auto
termination by (relation "measure (\<lambda>(i, s). length s)") auto

declare rune_positions.simps(2) [simp del]

text \<open>\<open>v, _ := strconv.Atoi(s)\<close> on digits: an overflow gives the largest integer.\<close>

definition atoi_digits :: "string \<Rightarrow> nat" where
  "atoi_digits s = (case parse_digits 10 0 s of Some n \<Rightarrow> min n (2 ^ 63 - 1) | None \<Rightarrow> 0)"

fun format_specifier_loop ::
    "string \<Rightarrow> (nat \<times> rune) list \<Rightarrow> nat option \<Rightarrow> nat option \<Rightarrow> nat list \<Rightarrow> nat list" where
  "format_specifier_loop f [] st en ret =
     (case (st, en) of
        (Some b, Some e) \<Rightarrow>
          if (length f - e) mod 2 = 1 then List.insert (atoi_digits (slice f b e)) ret else ret
      | _ \<Rightarrow> ret)"
| "format_specifier_loop f ((i, r) # rs) st en ret =
     (case st of
        None \<Rightarrow>
          format_specifier_loop f rs (if r = rn CHR 0x7B then Some (i + 1) else None) en ret
      | Some b \<Rightarrow>
          (case en of
             None \<Rightarrow>
               if r = rn CHR 0x7B \<and> i = b then format_specifier_loop f rs None None ret
               else if r = rn CHR 0x7D then
                 (if i = b then format_specifier_loop f rs None None ret
                  else format_specifier_loop f rs (Some b) (Some i) ret)
               else if r < rn CHR ''0'' \<or> rn CHR ''9'' < r then
                 format_specifier_loop f rs (if r = rn CHR 0x7B then Some (i + 1) else None) None ret
               else format_specifier_loop f rs (Some b) None ret
           | Some e \<Rightarrow>
               if r = rn CHR 0x7D then format_specifier_loop f rs (Some b) (Some e) ret
               else format_specifier_loop f rs (if r = rn CHR 0x7B then Some (i + 1) else None) None
                 (if (i - e) mod 2 = 1 then List.insert (atoi_digits (slice f b e)) ret else ret)))"

definition parseFormatFuncSpecifiers :: "string \<Rightarrow> nat list" where
  "parseFormatFuncSpecifiers f = format_specifier_loop f (rune_positions 0 f) None None []"

subsection \<open>Functions\<close>

record func_sig =
  fs_name :: string
  fs_ret :: ty
  fs_params :: "ty list"
  fs_variadic :: bool
  fs_const :: bool

definition sig_string :: "func_sig \<Rightarrow> string" where
  "sig_string s = fs_name s @ ''('' @ join_with '', '' (map ty_string (fs_params s)) @
     (if fs_variadic s then ''...'' else []) @ '') -> '' @ ty_string (fs_ret s)"

definition mk_sig :: "string \<Rightarrow> ty \<Rightarrow> ty list \<Rightarrow> bool \<Rightarrow> bool \<Rightarrow> func_sig" where
  "mk_sig n r ps v c = \<lparr>fs_name = n, fs_ret = r, fs_params = ps, fs_variadic = v, fs_const = c\<rparr>"

definition BuiltinFuncSignatures :: "(string \<times> func_sig list) list" where
  "BuiltinFuncSignatures = [
    (''contains'',
      [mk_sig ''contains'' BoolType [StringType, StringType] False True,
       mk_sig ''contains'' BoolType [ArrayType AnyType False, AnyType] False True]),
    (''startswith'', [mk_sig ''startsWith'' BoolType [StringType, StringType] False True]),
    (''endswith'', [mk_sig ''endsWith'' BoolType [StringType, StringType] False True]),
    (''format'',
      [mk_sig ''format'' StringType [StringType] False True,
       mk_sig ''format'' StringType [StringType, AnyType] True True]),
    (''join'',
      [mk_sig ''join'' StringType [StringType] False True,
       mk_sig ''join'' StringType [StringType, StringType] False True,
       mk_sig ''join'' StringType [ArrayType StringType False, StringType] False True,
       mk_sig ''join'' StringType [ArrayType StringType False] False True]),
    (''tojson'', [mk_sig ''toJSON'' StringType [AnyType] False True]),
    (''fromjson'', [mk_sig ''fromJSON'' AnyType [StringType] False True]),
    (''hashfiles'', [mk_sig ''hashFiles'' StringType [StringType] True False]),
    (''success'', [mk_sig ''success'' BoolType [] False False]),
    (''always'', [mk_sig ''always'' BoolType [] False False]),
    (''cancelled'', [mk_sig ''cancelled'' BoolType [] False False]),
    (''failure'', [mk_sig ''failure'' BoolType [] False False]),
    (''case'', [mk_sig ''case'' AnyType [BoolType, AnyType, AnyType] True True])]"

subsection \<open>Contexts\<close>

definition builtinSecretProps :: "(string \<times> ty) list" where
  "builtinSecretProps =
     [(''github_token'', StringType), (''actions_step_debug'', StringType),
      (''actions_runner_debug'', StringType)]"

definition BuiltinGlobalVariableTypes :: "(string \<times> ty) list" where
  "BuiltinGlobalVariableTypes = [
    (''github'', newNamedObjectType
       [(''action'', StringType), (''action_path'', StringType), (''action_ref'', StringType),
        (''action_repository'', StringType), (''action_status'', StringType),
        (''actor'', StringType), (''actor_id'', StringType), (''api_url'', StringType),
        (''artifact_cache_size_limit'', NumberType), (''artifacts'', StringType),
        (''artifacts_list'', StringType), (''base_ref'', StringType), (''env'', StringType),
        (''event'', NewEmptyObjectType), (''event_name'', StringType),
        (''event_path'', StringType), (''graphql_url'', StringType),
        (''head_ref'', StringType), (''job'', StringType), (''output'', StringType),
        (''path'', StringType), (''ref'', StringType), (''ref_name'', StringType),
        (''ref_protected'', BoolType), (''ref_type'', StringType),
        (''repository'', StringType), (''repository_id'', StringType),
        (''repository_owner'', StringType), (''repository_owner_id'', StringType),
        (''repository_visibility'', StringType), (''repositoryUrl'', StringType),
        (''retention_days'', StringType), (''run_attempt'', StringType),
        (''run_id'', StringType), (''run_number'', StringType),
        (''secret_source'', StringType), (''server_url'', StringType), (''sha'', StringType),
        (''state'', StringType), (''step_summary'', StringType), (''token'', StringType),
        (''triggering_actor'', StringType), (''workflow'', StringType),
        (''workflow_ref'', StringType), (''workflow_sha'', StringType),
        (''workspace'', StringType)]),
    (''env'', NewMapObjectType StringType),
    (''job'', NewStrictObjectType
       [(''check_run_id'', NumberType),
        (''container'', NewStrictObjectType [(''id'', StringType), (''network'', StringType)]),
        (''services'', NewMapObjectType (NewStrictObjectType
           [(''id'', StringType), (''network'', StringType), (''ports'', NewMapObjectType StringType)])),
        (''status'', StringType), (''workflow_file_path'', StringType), (''workflow_ref'', StringType),
        (''workflow_repository'', StringType), (''workflow_sha'', StringType)]),
    (''steps'', NewEmptyStrictObjectType),
    (''runner'', NewStrictObjectType
       [(''name'', StringType), (''os'', StringType), (''arch'', StringType), (''temp'', StringType),
        (''tool_cache'', StringType), (''debug'', StringType), (''environment'', StringType)]),
    (''secrets'', ObjectType [] builtinSecretProps [] [] (Some StringType)),
    (''strategy'', NewObjectType
       [(''fail-fast'', BoolType), (''job-index'', NumberType), (''job-total'', NumberType),
        (''max-parallel'', NumberType)]),
    (''matrix'', NewEmptyStrictObjectType),
    (''needs'', NewEmptyStrictObjectType),
    (''inputs'', NewEmptyStrictObjectType),
    (''vars'', NewMapObjectType StringType)]"

subsection \<open>Calls against a signature\<close>

definition argument_error ::
    "node list \<Rightarrow> func_sig \<Rightarrow> nat \<Rightarrow> ty \<Rightarrow> ty \<Rightarrow> expr_error" where
  "argument_error args sig i p a =
     error_at_expr fk_argumentType (args ! i)
       (CallMsg (ArgumentType (i + 1) (ty_string a) (ty_string p) (sig_string sig)))"

text \<open>The first argument of \<open>zip params args\<close> that is not assignable.\<close>

fun first_mismatch :: "nat \<Rightarrow> (ty \<times> ty) list \<Rightarrow> (nat \<times> ty \<times> ty) option" where
  "first_mismatch i [] = None"
| "first_mismatch i ((p, a) # xs) =
     (if Assignable p a then first_mismatch (Suc i) xs else Some (i, p, a))"

definition checkFuncSignature :: "node \<Rightarrow> node list \<Rightarrow> func_sig \<Rightarrow> ty list \<Rightarrow> expr_error option" where
  "checkFuncSignature n args sig tys =
     (let lp = length (fs_params sig); la = length tys in
      if fs_variadic sig \<and> la < lp \<or> \<not> fs_variadic sig \<and> lp \<noteq> la
      then Some (error_at_callee fk_argumentCount n
             (CallMsg (ArgumentCount (sig_string sig) (fs_variadic sig) lp la)))
      else (case first_mismatch 0 (zip (fs_params sig) tys) of
          Some (i, p, a) \<Rightarrow> Some (argument_error args sig i p a)
        | None \<Rightarrow>
            if fs_variadic sig then
              (case first_mismatch lp (map (\<lambda>a. (last (fs_params sig), a)) (drop lp tys)) of
                 Some (i, p, a) \<Rightarrow> Some (argument_error args sig i p a)
               | None \<Rightarrow> None)
            else None))"

subsection \<open>Comparable operands\<close>

fun equality_operands :: "ty \<Rightarrow> ty \<Rightarrow> bool" where
  "equality_operands (ObjectType _ _ _ _ _) r =
     (case r of ObjectType _ _ _ _ _ \<Rightarrow> True | NullType \<Rightarrow> True | AnyType \<Rightarrow> True | _ \<Rightarrow> False)"
| "equality_operands (ArrayType e _) r =
     (case r of
        ArrayType e' _ \<Rightarrow> equality_operands e e' | NullType \<Rightarrow> True | AnyType \<Rightarrow> True | _ \<Rightarrow> False)"
| "equality_operands AnyType r = True"
| "equality_operands NullType r = True"
| "equality_operands l r =
     (case r of ObjectType _ _ _ _ _ \<Rightarrow> False | ArrayType _ _ \<Rightarrow> False | _ \<Rightarrow> True)"

fun ordered_operand :: "ty \<Rightarrow> bool" where
  "ordered_operand AnyType = True"
| "ordered_operand NumberType = True"
| "ordered_operand StringType = True"
| "ordered_operand _ = False"

definition validateCompareOpOperands :: "compare_kind \<Rightarrow> ty \<Rightarrow> ty \<Rightarrow> bool" where
  "validateCompareOpOperands k l r =
     (if IsEqualityOp k then equality_operands l r else ordered_operand l \<and> ordered_operand r)"

end
