(* ===== verification/Expr_Sema.thy ===== *)
theory Expr_Sema
  imports Sema_Builtin
begin

text \<open>
  The semantics checker of \<open>expr_sema.go\<close> with its helpers of \<open>expr_condition_checks.go\<close>,
  \<open>event.go\<close> and \<open>expr_options.go\<close>. The checker is a record that every method takes and
  returns; errors are appended to \<open>ck_errs\<close>. \<open>ck_same\<close> stands for Go's comparison of two
  interface values that hold pointers, which a tree of types cannot express. The copies that
  \<open>ensureVarsCopied\<close> and \<open>ensureGithubVarCopied\<close> make protect the shared tables; values are
  immutable here, so only their flags and \<open>DeepCopy\<close> remain.
\<close>

subsection \<open>The checker\<close>

record checks =
  StringConditions :: bool
  MixedTypeComparisons :: bool
  CaseInsensitiveConditions :: bool

record sema_options =
  opt_variables :: "string list option"
  opt_secrets :: "string list option"
  opt_checks :: checks

record checker =
  ck_skip :: bool
  ck_funcs :: "(string \<times> func_sig list) list"
  ck_vars :: "(string \<times> ty) list"
  ck_errs :: "expr_error list"
  ck_varsCopied :: bool
  ck_githubVarCopied :: bool
  ck_untrusted :: "ucheck option"
  ck_contexts :: "string list"
  ck_special :: "string list"
  ck_jobCondition :: bool
  ck_configVars :: "string list option"
  ck_configSecrets :: "string list option"
  ck_condition :: bool
  ck_checks :: checks
  ck_same :: "ty \<Rightarrow> ty \<Rightarrow> bool"

definition no_checks :: checks where
  "no_checks = \<lparr>StringConditions = False, MixedTypeComparisons = False,
     CaseInsensitiveConditions = False\<rparr>"

definition NewChecker :: "(ty \<Rightarrow> ty \<Rightarrow> bool) \<Rightarrow> bool \<Rightarrow> sema_options option \<Rightarrow> checker" where
  "NewChecker same checkUntrustedInput cfg =
     \<lparr>ck_skip = False, ck_funcs = BuiltinFuncSignatures, ck_vars = BuiltinGlobalVariableTypes,
      ck_errs = [], ck_varsCopied = False, ck_githubVarCopied = False,
      ck_untrusted = (if checkUntrustedInput
                      then Some (NewUntrustedInputChecker BuiltinUntrustedInputs) else None),
      ck_contexts = [], ck_special = [], ck_jobCondition = False,
      ck_configVars = (case cfg of None \<Rightarrow> None | Some o' \<Rightarrow> opt_variables o'),
      ck_configSecrets = (case cfg of None \<Rightarrow> None | Some o' \<Rightarrow> opt_secrets o'),
      ck_condition = False,
      ck_checks = (case cfg of None \<Rightarrow> no_checks | Some o' \<Rightarrow> opt_checks o'),
      ck_same = same\<rparr>"

definition add_errors :: "expr_error list \<Rightarrow> checker \<Rightarrow> checker" where
  "add_errors es c = c\<lparr>ck_errs := ck_errs c @ es\<rparr>"

definition sema_error :: "finding_kind \<Rightarrow> node \<Rightarrow> msg \<Rightarrow> checker \<Rightarrow> checker" where
  "sema_error k e m = add_errors [error_at_expr k e m]"

definition callee_error :: "finding_kind \<Rightarrow> node \<Rightarrow> msg \<Rightarrow> checker \<Rightarrow> checker" where
  "callee_error k n m = add_errors [error_at_callee k n m]"

definition rule_error :: "node \<Rightarrow> string \<Rightarrow> rule_msg \<Rightarrow> checker \<Rightarrow> checker" where
  "rule_error n name m = sema_error \<lparr>fk_rule = name, fk_code = name\<rparr> n (RuleMsg m)"

subsection \<open>Contexts of the expression\<close>

definition ensureVarsCopied :: "checker \<Rightarrow> checker" where
  "ensureVarsCopied c = (if ck_varsCopied c then c else c\<lparr>ck_varsCopied := True\<rparr>)"

definition ensureGithubVarCopied :: "checker \<Rightarrow> checker" where
  "ensureGithubVarCopied c =
     (if ck_githubVarCopied c then c
      else (let c = ensureVarsCopied c in
        (case map_of (ck_vars c) ''github'' of
           None \<Rightarrow> c
         | Some t \<Rightarrow> c\<lparr>ck_vars := al_put ''github'' (DeepCopy t) (ck_vars c)\<rparr>)
        \<lparr>ck_githubVarCopied := True\<rparr>))"

definition SetContextTypes :: "(string \<times> ty) list \<Rightarrow> checker \<Rightarrow> checker" where
  "SetContextTypes contexts c =
     c\<lparr>ck_vars := fold (\<lambda>(n, t). al_put (to_lower n) t) contexts [],
       ck_varsCopied := True, ck_githubVarCopied := False\<rparr>"

definition update_var :: "string \<Rightarrow> ty \<Rightarrow> checker \<Rightarrow> checker" where
  "update_var n t c = (let c = ensureVarsCopied c in c\<lparr>ck_vars := al_put n t (ck_vars c)\<rparr>)"

definition UpdateMatrix :: "ty \<Rightarrow> checker \<Rightarrow> checker" where
  "UpdateMatrix t = update_var ''matrix'' t"

definition UpdateSteps :: "ty \<Rightarrow> checker \<Rightarrow> checker" where
  "UpdateSteps t = update_var ''steps'' t"

definition UpdateNeeds :: "ty \<Rightarrow> checker \<Rightarrow> checker" where
  "UpdateNeeds t = update_var ''needs'' t"

definition UpdateJobs :: "ty \<Rightarrow> checker \<Rightarrow> checker" where
  "UpdateJobs t = update_var ''jobs'' t"

definition UpdateSecrets :: "ty \<Rightarrow> checker \<Rightarrow> checker" where
  "UpdateSecrets t =
     update_var ''secrets''
       (ObjectType [] (fold (\<lambda>(n, u). al_put n u) (props t) builtinSecretProps)
          (property_names t) [] (mapped t))"

definition UpdateInputs :: "ty \<Rightarrow> checker \<Rightarrow> checker" where
  "UpdateInputs t c =
     (let c = ensureVarsCopied c in
      case map_of (ck_vars c) ''inputs'' of
        Some (ObjectType d ps pn ev m) \<Rightarrow>
          if ps = [] \<and> m = None then c\<lparr>ck_vars := al_put ''inputs'' t (ck_vars c)\<rparr>
          else c\<lparr>ck_vars := al_put ''inputs'' (merge_ty (ObjectType d ps pn ev m) t) (ck_vars c)\<rparr>
      | _ \<Rightarrow> c\<lparr>ck_vars := al_put ''inputs'' t (ck_vars c)\<rparr>)"

fun put_prop :: "string \<Rightarrow> ty \<Rightarrow> ty \<Rightarrow> ty" where
  "put_prop n t (ObjectType d ps pn ev m) = ObjectType d (al_put n t ps) pn ev m"
| "put_prop n t u = u"

definition dispatch_variants :: "ty \<Rightarrow> event_variant list \<Rightarrow> event_variant list" where
  "dispatch_variants t =
     map (\<lambda>(e, a, p).
       if e = ''workflow_dispatch''
       then (e, a, map_option (\<lambda>q. put_prop ''inputs'' t (copyEventObject q)) p)
       else (e, a, p))"

definition UpdateDispatchInputs :: "ty \<Rightarrow> checker \<Rightarrow> checker" where
  "UpdateDispatchInputs t c =
     (let c = UpdateInputs t c;
          t' = ObjectType [] (map (\<lambda>(n, u). (n, StringType)) (props t)) (property_names t) [] None;
          c = ensureGithubVarCopied c
      in case map_of (ck_vars c) ''github'' of
        Some (ObjectType d ps pn ev m) \<Rightarrow>
          (case map_of ps ''event'' of
             Some (ObjectType d' ps' pn' ev' m') \<Rightarrow>
               (let event = ObjectType d' (al_put ''inputs'' t' ps') pn' (dispatch_variants t' ev') m' in
                c\<lparr>ck_vars := al_put ''github'' (ObjectType d (al_put ''event'' event ps) pn ev m)
                   (ck_vars c)\<rparr>)
           | _ \<Rightarrow> c)
      | _ \<Rightarrow> c)"

definition UpdateEvent :: "ty \<Rightarrow> checker \<Rightarrow> checker" where
  "UpdateEvent event c =
     (let c = ensureGithubVarCopied c in
      case map_of (ck_vars c) ''github'' of
        Some (ObjectType d ps pn ev m) \<Rightarrow>
          c\<lparr>ck_vars := al_put ''github'' (ObjectType d (al_put ''event'' event ps) pn ev m) (ck_vars c)\<rparr>
      | _ \<Rightarrow> c)"

definition SetContextAvailability :: "string list \<Rightarrow> checker \<Rightarrow> checker" where
  "SetContextAvailability avail c = c\<lparr>ck_contexts := avail\<rparr>"

definition SetSpecialFunctionAvailability :: "string list \<Rightarrow> checker \<Rightarrow> checker" where
  "SetSpecialFunctionAvailability avail c = c\<lparr>ck_special := avail\<rparr>"

definition SetWorkflowKeyAvailability :: "string \<Rightarrow> checker \<Rightarrow> checker" where
  "SetWorkflowKeyAvailability key c =
     (case WorkflowKeyAvailability key of (contexts, functions) \<Rightarrow>
        (SetSpecialFunctionAvailability functions (SetContextAvailability contexts
           (c\<lparr>ck_condition := has_suffix key ''.if''\<rparr>)))
        \<lparr>ck_jobCondition := (key = ''jobs.<job_id>.if'')\<rparr>)"

definition checkAvailableContext :: "node \<Rightarrow> string \<Rightarrow> checker \<Rightarrow> checker" where
  "checkAvailableContext n name c =
     (if to_lower name \<in> set (ck_contexts c) then c
      else sema_error fk_unavailableContext n (NameMsg (ContextNotAllowed name (ck_contexts c))) c)"

definition checkSpecialFunctionAvailability :: "node \<Rightarrow> string \<Rightarrow> checker \<Rightarrow> checker" where
  "checkSpecialFunctionAvailability n callee c =
     (case map_of SpecialFunctionNames (to_lower callee) of
        None \<Rightarrow> c
      | Some allowed \<Rightarrow>
          if to_lower callee \<in> set (ck_special c) then c
          else callee_error fk_unavailableFunction n (NameMsg (FunctionNotAllowed callee allowed)) c)"

subsection \<open>Names\<close>

text \<open>The loop of \<open>missingProperty\<close>: the only property one edit away, or none.\<close>

fun suggest_property :: "string \<Rightarrow> string \<Rightarrow> string list \<Rightarrow> string" where
  "suggest_property name suggestion [] = suggestion"
| "suggest_property name suggestion (candidate # cs) =
     (if adjacentTypo (to_lower name) candidate
      then (if suggestion \<noteq> [] then [] else suggest_property name candidate cs)
      else suggest_property name suggestion cs)"

definition missingProperty :: "node \<Rightarrow> node \<Rightarrow> string \<Rightarrow> ty \<Rightarrow> checker \<Rightarrow> checker" where
  "missingProperty n receiver name object c =
     (let path = eventReference receiver; key = to_lower path;
          in_event = (key = ''github.event'' \<or> has_prefix key ''github.event.''
                       \<or> has_prefix key ''github.event['');
          kind = (if in_event then fk_unknownEventProperty else fk_unknownProperty);
          path = (if path = [] then ''this object'' else path);
          suggestion = suggest_property name [] (al_keys (props object))
      in if suggestion \<noteq> []
         then sema_error kind n
                (NameMsg (PropertyNotDefinedMean name path (PropertyName object suggestion))) c
         else sema_error kind n (NameMsg (PropertyNotDefined name path in_event)) c)"

fun context_property_loop ::
    "string \<Rightarrow> (string \<times> ty) list \<Rightarrow> string \<Rightarrow> string list \<Rightarrow> string" where
  "context_property_loop name vars suggestion [] = suggestion"
| "context_property_loop name vars suggestion (ctx # cs) =
     (if \<not> has_prefix name (ctx @ ''_'') then context_property_loop name vars suggestion cs
      else (case map_of vars ctx of
          Some (ObjectType d ps pn ev m) \<Rightarrow>
            (let property = drop (length ctx + 1) name in
             if map_of ps property = None then context_property_loop name vars suggestion cs
             else if suggestion \<noteq> [] then []
             else context_property_loop name vars (ctx @ ''.'' @ property) cs)
        | _ \<Rightarrow> context_property_loop name vars suggestion cs))"

definition ContextPropertySuggestion ::
    "string \<Rightarrow> string list \<Rightarrow> (string \<times> ty) list \<Rightarrow> string" where
  "ContextPropertySuggestion name contexts vars = context_property_loop name vars [] contexts"

definition contextPropertySuggestion :: "string \<Rightarrow> checker \<Rightarrow> string" where
  "contextPropertySuggestion name c = ContextPropertySuggestion name (ck_contexts c) (ck_vars c)"

definition declared_input :: "string \<Rightarrow> checker \<Rightarrow> bool" where
  "declared_input name c =
     (case map_of (ck_vars c) ''inputs'' of
        Some (ObjectType d ps pn ev m) \<Rightarrow>
          m = None \<and> ''inputs'' \<in> set (ck_contexts c) \<and> map_of ps name \<noteq> None
      | _ \<Rightarrow> False)"

definition undefined_variable :: "node \<Rightarrow> string \<Rightarrow> string \<Rightarrow> checker \<Rightarrow> checker" where
  "undefined_variable n name text c =
     (if declared_input name c
      then sema_error fk_unknownVariable n (NameMsg (UndefinedVariableMean text (''inputs.'' @ name))) c
      else let s = contextPropertySuggestion name c in
        if s \<noteq> [] then sema_error fk_unknownVariable n (NameMsg (UndefinedVariableMean text s)) c
        else let s = CloseName name
                       (filter (\<lambda>x. map_of (ck_vars c) x \<noteq> None) (ck_contexts c)) in
          if s \<noteq> [] then sema_error fk_unknownVariable n (NameMsg (UndefinedVariableMean text s)) c
          else sema_error fk_unknownVariable n
                 (NameMsg (UndefinedVariable text (sort (al_keys (ck_vars c))))) c)"

definition checkVariable :: "node \<Rightarrow> string \<Rightarrow> checker \<Rightarrow> ty \<times> checker" where
  "checkVariable n name c =
     (case map_of (ck_vars c) name of
        Some v \<Rightarrow> (v, checkAvailableContext n name c)
      | None \<Rightarrow>
          (let text = tk_value (node_token n) in
           (AnyType,
            case map_of (ck_funcs c) name of
              Some (sig # sigs) \<Rightarrow>
                if list_ex (\<lambda>s. fs_params s = []) (sig # sigs)
                then sema_error fk_missingCall n (NameMsg (CallParentheses text)) c
                else sema_error fk_missingCall n (NameMsg (CallParenthesesArgs text)) c
            | _ \<Rightarrow> undefined_variable n name text c)))"

text \<open>A character of a configuration variable's name, the name being in lower case.\<close>

definition config_name_rune :: "rune \<Rightarrow> bool" where
  "config_name_rune r \<longleftrightarrow>
     rn CHR ''0'' \<le> r \<and> r \<le> rn CHR ''9'' \<or> rn CHR ''a'' \<le> r \<and> r \<le> rn CHR ''z'' \<or> r = rn CHR ''_''"

definition checkConfigVariables :: "node \<Rightarrow> string \<Rightarrow> checker \<Rightarrow> checker" where
  "checkConfigVariables n p c =
     (if has_prefix p ''github_''
      then sema_error fk_invalidVariableName n (ConfigMsg (ConfigVariablePrefix p)) c
      else if \<not> list_all config_name_rune (runes p)
      then sema_error fk_invalidVariableName n (ConfigMsg (ConfigVariableChars p)) c
      else case ck_configVars c of
        None \<Rightarrow> c
      | Some names \<Rightarrow>
          if names = []
          then sema_error fk_unknownConfigVariable n (ConfigMsg (ConfigVariableNone p)) c
          else if list_ex (\<lambda>v. equal_fold v p) names then c
          else sema_error fk_unknownConfigVariable n
                 (ConfigMsg (ConfigVariableUndefined p (sort names))) c)"

definition checkConfigSecrets :: "node \<Rightarrow> string \<Rightarrow> checker \<Rightarrow> checker" where
  "checkConfigSecrets n p c =
     (case ck_configSecrets c of
        None \<Rightarrow> c
      | Some names \<Rightarrow>
          if names = [] then sema_error fk_unknownSecret n (ConfigMsg (SecretNone p)) c
          else if list_ex (\<lambda>s. equal_fold s p) names then c
          else sema_error fk_unknownSecret n (ConfigMsg (SecretUndefined p (sort names))) c)"

text \<open>The names the repository's configuration lists, when the receiver is their context.\<close>

definition check_config_name :: "node \<Rightarrow> node \<Rightarrow> string \<Rightarrow> checker \<Rightarrow> checker" where
  "check_config_name n receiver p c =
     (case receiver of
        VariableNode _ name _ \<Rightarrow>
          if name = ''vars'' then checkConfigVariables n p c
          else if name = ''secrets'' then checkConfigSecrets n p c
          else c
      | _ \<Rightarrow> c)"

subsection \<open>Access\<close>

text \<open>
  The methods for access expressions check their operands first; these definitions are what
  they do with the operands' types.
\<close>

definition suggests_context :: "node \<Rightarrow> bool" where
  "suggests_context receiver =
     (case receiver of
        VariableNode _ name _ \<Rightarrow> name \<in> {''github'', ''job'', ''runner'', ''strategy''}
      | _ \<Rightarrow> False)"

definition deref_strict ::
    "node \<Rightarrow> node \<Rightarrow> string \<Rightarrow> string \<Rightarrow> ty \<Rightarrow> checker \<Rightarrow> ty \<times> checker" where
  "deref_strict n receiver p name object c =
     (let s = (if suggests_context receiver then contextPropertySuggestion p c else []) in
      (AnyType,
       if s \<noteq> [] then sema_error fk_unknownProperty n (NameMsg (ContextPropertyMean name s)) c
       else missingProperty n receiver name object c))"

definition deref_elements ::
    "node \<Rightarrow> node \<Rightarrow> string \<Rightarrow> string \<Rightarrow> ty \<Rightarrow> checker \<Rightarrow> ty \<times> checker" where
  "deref_elements n receiver p name elem c =
     (case elem of
        AnyType \<Rightarrow> (ArrayType elem True, c)
      | ObjectType d ps pn ev m \<Rightarrow>
          (case map_of ps p of
             Some t \<Rightarrow> (ArrayType t True, c)
           | None \<Rightarrow>
               (case m of
                  Some t \<Rightarrow> (ArrayType t True, c)
                | None \<Rightarrow> (ArrayType AnyType True, missingProperty n receiver name elem c)))
      | _ \<Rightarrow>
          (AnyType, sema_error fk_operandType n (TypeMsg (FilteredProperty p (ty_string elem))) c))"

definition checkObjectDeref ::
    "node \<Rightarrow> node \<Rightarrow> string \<Rightarrow> token \<Rightarrow> ty \<Rightarrow> checker \<Rightarrow> ty \<times> checker" where
  "checkObjectDeref n receiver p tok t c =
     (case t of
        AnyType \<Rightarrow> (AnyType, c)
      | ObjectType d ps pn ev m \<Rightarrow>
          (case map_of ps p of
             Some u \<Rightarrow> (u, c)
           | None \<Rightarrow>
               (case m of
                  Some u \<Rightarrow> (u, check_config_name n receiver p c)
                | None \<Rightarrow> deref_strict n receiver p (property_name p tok) t c))
      | ArrayType e deref \<Rightarrow>
          if \<not> deref
          then (AnyType, sema_error fk_operandType n (TypeMsg (DerefReceiver p (ty_string t))) c)
          else deref_elements n receiver p (property_name p tok) e c
      | _ \<Rightarrow> (AnyType, sema_error fk_operandType n (TypeMsg (DerefReceiver p (ty_string t))) c))"

definition checkArrayDeref :: "node \<Rightarrow> node \<Rightarrow> ty \<Rightarrow> checker \<Rightarrow> ty \<times> checker" where
  "checkArrayDeref n receiver t c =
     (case t of
        AnyType \<Rightarrow> (ArrayType AnyType True, c)
      | ArrayType e deref \<Rightarrow> (ArrayType e True, c)
      | ObjectType d ps pn ev m \<Rightarrow>
          (case m of
             Some u \<Rightarrow>
               if u = AnyType then (ArrayType AnyType True, c)
               else if is_object u then (ArrayType u True, c)
               else (AnyType, sema_error fk_operandType n
                       (TypeMsg (FilterElements (ty_string u) (ty_string t))) c)
           | None \<Rightarrow>
               (let path = to_lower (eventReference receiver) in
                if path = ''github.event'' \<or> has_prefix path ''github.event.''
                   \<or> has_prefix path ''github.event[''
                then (ArrayType AnyType True, c)
                else if \<not> list_ex (\<lambda>(k, u). is_object u) ps
                then (AnyType, sema_error fk_operandType n (TypeMsg (FilterNoObject (ty_string t))) c)
                else (ArrayType AnyType True, c)))
      | _ \<Rightarrow> (AnyType, sema_error fk_operandType n (TypeMsg (FilterReceiver (ty_string t))) c))"

definition index_object :: "node \<Rightarrow> node \<Rightarrow> node \<Rightarrow> ty \<Rightarrow> checker \<Rightarrow> ty \<times> checker" where
  "index_object n operand index t c =
     (let fallback = (case mapped t of Some u \<Rightarrow> u | None \<Rightarrow> AnyType) in
      case index of
        StringNode _ v _ \<Rightarrow>
          (case map_of (props t) (to_lower v) of
             Some u \<Rightarrow> (u, c)
           | None \<Rightarrow>
               (case mapped t of
                  Some u \<Rightarrow> (u, check_config_name n operand (to_lower v) c)
                | None \<Rightarrow> (fallback, missingProperty n operand v t c)))
      | _ \<Rightarrow> (fallback, c))"

definition checkIndexAccess ::
    "node \<Rightarrow> node \<Rightarrow> node \<Rightarrow> ty \<Rightarrow> ty \<Rightarrow> checker \<Rightarrow> ty \<times> checker" where
  "checkIndexAccess n operand index idx t c =
     (case t of
        AnyType \<Rightarrow> (AnyType, c)
      | ArrayType e deref \<Rightarrow>
          if idx = AnyType \<or> idx = NumberType then (e, c)
          else (AnyType, sema_error fk_operandType index (TypeMsg (IndexNotNumber (ty_string idx))) c)
      | ObjectType d ps pn ev m \<Rightarrow>
          if idx = AnyType then (AnyType, c)
          else if idx = StringType then index_object n operand index t c
          else (AnyType, sema_error fk_operandType index (TypeMsg (IndexNotString (ty_string idx))) c)
      | _ \<Rightarrow> (AnyType, sema_error fk_operandType n (TypeMsg (IndexOperandType (ty_string t))) c))"

subsection \<open>Optional rules on conditions\<close>

definition checkIdentityComparison :: "node \<Rightarrow> node \<Rightarrow> node \<Rightarrow> checker \<Rightarrow> checker" where
  "checkIdentityComparison n left right c =
     (if identityConditionReference left \<and> is_string_node right
         \<or> identityConditionReference right \<and> is_string_node left
      then rule_error n ''case-insensitive-conditions'' RuleCaseInsensitive c
      else c)"

definition checkConditionComparison ::
    "node \<Rightarrow> compare_kind \<Rightarrow> node \<Rightarrow> node \<Rightarrow> ty \<Rightarrow> ty \<Rightarrow> checker \<Rightarrow> checker" where
  "checkConditionComparison n k l r left right c =
     (if \<not> ck_condition c then c
      else (let c = (if MixedTypeComparisons (ck_checks c)
                        \<and> (conditionStringReference l left \<and> numericOrBooleanLiteral r
                           \<or> conditionStringReference r right \<and> numericOrBooleanLiteral l)
                     then rule_error n ''mixed-type-comparisons'' RuleMixedTypes c else c)
            in if CaseInsensitiveConditions (ck_checks c) \<and> IsEqualityOp k
               then checkIdentityComparison n l r c else c))"

subsection \<open>Calls of built-in functions\<close>

definition check_format_call :: "node \<Rightarrow> string \<Rightarrow> nat \<Rightarrow> checker \<Rightarrow> checker" where
  "check_format_call n f l =
     (let holders = parseFormatFuncSpecifiers f in
      add_errors
        (map (\<lambda>i. error_at_callee fk_formatPlaceholder n (CallMsg (FormatUnusedArgument f i)))
           (filter (\<lambda>i. i \<notin> set holders) [0..<l]) @
         map (\<lambda>i. error_at_callee fk_formatPlaceholder n (CallMsg (FormatMissingArgument f i l)))
           (filter (\<lambda>i. l \<le> i) holders)))"

definition json_syntax_error :: "string \<Rightarrow> bool" where
  "json_syntax_error s =
     (case json_read s of None \<Rightarrow> True | Some v \<Rightarrow> 10000 < raw_nesting v)"

definition check_fromjson_call :: "node \<Rightarrow> string \<Rightarrow> ty \<Rightarrow> checker \<Rightarrow> ty \<times> checker" where
  "check_fromjson_call lit s ret c =
     (let collisions = JSONMemberCollisions s in
      if collisions \<noteq> []
      then (ret, add_errors (map (\<lambda>(first, second, offset).
              error_at_expr fk_jsonCollision lit (CallMsg (JsonCollision first second offset)))
              collisions) c)
      else (case json_unmarshal s of
          Some v \<Rightarrow> (TypeOfJSONValue v, c)
        | None \<Rightarrow>
            (ret, if json_syntax_error s then sema_error fk_invalidJSON lit (CallMsg JsonBroken) c
                  else c)))"

definition check_special_call ::
    "node \<Rightarrow> string \<Rightarrow> node list \<Rightarrow> func_sig \<Rightarrow> checker \<Rightarrow> ty \<times> checker" where
  "check_special_call n callee args sig c =
     (let f = to_lower callee; ret = fs_ret sig in
      if f = ''format'' then
        (case args ! 0 of
           StringNode _ v _ \<Rightarrow> (ret, check_format_call n v (length args - 1) c)
         | _ \<Rightarrow> (ret, c))
      else if f = ''fromjson'' then
        (case args ! 0 of
           StringNode _ v _ \<Rightarrow> check_fromjson_call (args ! 0) v ret c
         | _ \<Rightarrow> (ret, c))
      else if f = ''case'' \<and> even (length args) then
        (ret, callee_error fk_argumentCount n (CallMsg (CaseArguments (length args))) c)
      else (ret, c))"

definition checkBuiltinFuncCall ::
    "node \<Rightarrow> string \<Rightarrow> node list \<Rightarrow> func_sig \<Rightarrow> checker \<Rightarrow> ty \<times> checker" where
  "checkBuiltinFuncCall n callee args sig c =
     (if ck_skip c \<and> (equal_fold callee ''fromJSON'' \<or> equal_fold callee ''format'')
      then (fs_ret sig, c)
      else (let c = checkSpecialFunctionAvailability n callee c;
                c = (if ck_condition c \<and> CaseInsensitiveConditions (ck_checks c)
                        \<and> length args = 2
                        \<and> to_lower callee \<in> {''contains'', ''startswith'', ''endswith''}
                     then checkIdentityComparison n (args ! 0) (args ! 1) c else c)
            in check_special_call n callee args sig c))"

definition function_candidates :: "checker \<Rightarrow> string list" where
  "function_candidates c =
     concat (map (\<lambda>(name, sigs).
       if map_of SpecialFunctionNames name \<noteq> None \<and> name \<notin> set (ck_special c) then []
       else (case sigs of [] \<Rightarrow> [] | s # _ \<Rightarrow> [fs_name s])) (ck_funcs c))"

definition undefined_function :: "node \<Rightarrow> string \<Rightarrow> checker \<Rightarrow> checker" where
  "undefined_function n callee c =
     (let s = CloseName (to_lower callee) (function_candidates c) in
      if s \<noteq> [] then callee_error fk_unknownFunction n (NameMsg (UndefinedFunctionMean callee s)) c
      else callee_error fk_unknownFunction n
             (NameMsg (UndefinedFunction callee (sort (al_keys (ck_funcs c))))) c)"

text \<open>The first overload that fits, or the errors of all.\<close>

fun resolve_overload ::
    "node \<Rightarrow> node list \<Rightarrow> func_sig list \<Rightarrow> ty list \<Rightarrow> expr_error list + func_sig" where
  "resolve_overload n args [] tys = Inl []"
| "resolve_overload n args (sig # sigs) tys =
     (case checkFuncSignature n args sig tys of
        None \<Rightarrow> Inr sig
      | Some e \<Rightarrow>
          (case resolve_overload n args sigs tys of
             Inl es \<Rightarrow> Inl (e # es)
           | Inr s \<Rightarrow> Inr s))"

definition call_overload ::
    "node \<Rightarrow> string \<Rightarrow> node list \<Rightarrow> func_sig list \<Rightarrow> ty list \<Rightarrow> checker \<Rightarrow> ty \<times> checker" where
  "call_overload n callee args sigs tys c =
     (case resolve_overload n args sigs tys of
        Inr sig \<Rightarrow> checkBuiltinFuncCall n callee args sig c
      | Inl es \<Rightarrow> (AnyType, add_errors es c))"

text \<open>What \<open>checkFuncCall\<close> does before it checks the arguments: the errors on their number, and
  the signatures of a status function in a job's condition.\<close>

definition count_limit :: "node \<Rightarrow> string \<Rightarrow> node list \<Rightarrow> checker \<Rightarrow> checker" where
  "count_limit n callee args c =
     (if to_lower callee \<in> {''hashfiles'', ''format'', ''case''} \<and> 255 < length args
      then callee_error fk_argumentCount n (CallMsg (TooManyArguments callee (length args))) c
      else c)"

definition call_signatures :: "string \<Rightarrow> node list \<Rightarrow> func_sig list \<Rightarrow> checker \<Rightarrow> func_sig list" where
  "call_signatures callee args sigs c =
     (if ck_jobCondition c \<and> to_lower callee \<in> {''success'', ''failure''} \<and> args \<noteq> []
      then [mk_sig (to_lower callee) BoolType [StringType] True False]
      else sigs)"

subsection \<open>The traversal\<close>

definition visiting :: "node \<Rightarrow> (checker \<Rightarrow> 'a \<times> checker) \<Rightarrow> checker \<Rightarrow> 'a \<times> checker" where
  "visiting n f c =
     (case f (c\<lparr>ck_untrusted := map_option (OnVisitNodeEnter n) (ck_untrusted c)\<rparr>) of
        (t, d) \<Rightarrow> (t, d\<lparr>ck_untrusted := map_option (OnVisitNodeLeave n) (ck_untrusted d)\<rparr>))"

text \<open>\<open>checkExpressionBranch\<close> on a given check of the branch.\<close>

definition branch :: "bool \<Rightarrow> (checker \<Rightarrow> 'a \<times> checker) \<Rightarrow> checker \<Rightarrow> 'a \<times> checker" where
  "branch skipped f c =
     (case f (c\<lparr>ck_skip := ck_skip c \<or> skipped\<rparr>) of (t, d) \<Rightarrow> (t, d\<lparr>ck_skip := ck_skip c\<rparr>))"

definition guarded ::
    "node \<Rightarrow> bool \<Rightarrow> (checker \<Rightarrow> ty \<times> checker) \<Rightarrow> checker \<Rightarrow> ty \<times> checker" where
  "guarded guard truth f c =
     (case withEventGuard (ck_same c) (ck_vars c) guard truth of
        SkipBranch \<Rightarrow> (AnyType, c)
      | RunHere \<Rightarrow> f c
      | RunWith vs \<Rightarrow>
          (case f (c\<lparr>ck_vars := vs\<rparr>) of (t, d) \<Rightarrow> (t, d\<lparr>ck_vars := ck_vars c\<rparr>)))"

lemma visiting_cong [fundef_cong]:
  "n = n' \<Longrightarrow> c = c' \<Longrightarrow> (\<And>x. f x = f' x) \<Longrightarrow> visiting n f c = visiting n' f' c'"
  by (simp add: visiting_def)

lemma branch_cong [fundef_cong]:
  "s = s' \<Longrightarrow> c = c' \<Longrightarrow> (\<And>x. f x = f' x) \<Longrightarrow> branch s f c = branch s' f' c'"
  by (simp add: branch_def)

lemma guarded_cong [fundef_cong]:
  "g = g' \<Longrightarrow> b = b' \<Longrightarrow> c = c' \<Longrightarrow> (\<And>x. f x = f' x) \<Longrightarrow> guarded g b f c = guarded g' b' f' c'"
  by (simp add: guarded_def split: guard_action.split)

definition check_not_operand :: "node \<Rightarrow> ty \<Rightarrow> checker \<Rightarrow> checker" where
  "check_not_operand n t c =
     (if Assignable BoolType t then c
      else sema_error fk_operandType n (TypeMsg (NotOperandType (ty_string t))) c)"

definition checkCompareOp ::
    "node \<Rightarrow> compare_kind \<Rightarrow> node \<Rightarrow> node \<Rightarrow> ty \<Rightarrow> ty \<Rightarrow> checker \<Rightarrow> ty \<times> checker" where
  "checkCompareOp n k left right l r c =
     (let c = checkConditionComparison n k left right l r c in
      (BoolType,
       if validateCompareOpOperands k l r then c
       else sema_error fk_operandType n
              (TypeMsg (CompareOperands (ty_string l) (ty_string r) (compare_kind_string k))) c))"

definition check_case_predicate :: "node \<Rightarrow> bool \<Rightarrow> ty \<Rightarrow> checker \<Rightarrow> checker" where
  "check_case_predicate p remaining t c =
     (if remaining \<and> \<not> ck_skip c \<and> t \<noteq> BoolType \<and> t \<noteq> AnyType
      then sema_error fk_operandType p (TypeMsg (CasePredicate (ty_string t))) c else c)"

definition short_circuited :: "logical_kind \<Rightarrow> node \<Rightarrow> bool" where
  "short_circuited k l =
     (case ConditionConstantValue l of
        None \<Rightarrow> False
      | Some v \<Rightarrow> ExpressionTruthy v = (k = LogicalOr))"

text \<open>
  \<open>check\<close> with its cases (\<open>check_node\<close>), \<open>checkWithNarrowing\<close>, \<open>checkLogicalOp\<close>, the loop
  over the arguments of a call and \<open>checkCaseBranches\<close>.
\<close>

function (sequential) check :: "node \<Rightarrow> checker \<Rightarrow> ty \<times> checker"
  and check_node :: "node \<Rightarrow> checker \<Rightarrow> ty \<times> checker"
  and checkWithNarrowing :: "node \<Rightarrow> bool \<Rightarrow> checker \<Rightarrow> ty \<times> checker"
  and checkLogicalOp :: "logical_kind \<Rightarrow> node \<Rightarrow> node \<Rightarrow> checker \<Rightarrow> ty \<times> checker"
  and check_args :: "node list \<Rightarrow> checker \<Rightarrow> ty list \<times> checker"
  and checkCaseBranches :: "node list \<Rightarrow> bool \<Rightarrow> checker \<Rightarrow> ty \<times> checker"
where
  "check n c = visiting n (check_node n) c"
| "check_node (VariableNode s name t) c = checkVariable (VariableNode s name t) name c"
| "check_node (NullNode s t) c = (NullType, c)"
| "check_node (BoolNode s b t) c = (BoolType, c)"
| "check_node (StringNode s v t) c = (StringType, c)"
| "check_node (IntNode s i t) c = (NumberType, c)"
| "check_node (FloatNode s f t) c = (NumberType, c)"
| "check_node (ObjectDerefNode s r p t) c =
     (case check r c of (rt, c) \<Rightarrow> checkObjectDeref (ObjectDerefNode s r p t) r p t rt c)"
| "check_node (ArrayDerefNode s r) c =
     (case check r c of (rt, c) \<Rightarrow> checkArrayDeref (ArrayDerefNode s r) r rt c)"
| "check_node (IndexAccessNode s r i) c =
     (case check i c of (it, c) \<Rightarrow>
      case check r c of (rt, c) \<Rightarrow> checkIndexAccess (IndexAccessNode s r i) r i it rt c)"
| "check_node (FuncCallNode s callee args t) c =
     (let n = FuncCallNode s callee args t in
      case map_of (ck_funcs c) (to_lower callee) of
        None \<Rightarrow> (AnyType, undefined_function n callee c)
      | Some sigs \<Rightarrow>
          (let c = count_limit n callee args c; sigs = call_signatures callee args sigs c in
           if to_lower callee = ''case'' \<and> 3 \<le> length args \<and> odd (length args)
           then checkCaseBranches args True (checkSpecialFunctionAvailability n callee c)
           else (case check_args args c of (tys, c) \<Rightarrow> call_overload n callee args sigs tys c)))"
| "check_node (NotOpNode s e t) c =
     (case check e c of (et, c) \<Rightarrow> (BoolType, check_not_operand (NotOpNode s e t) et c))"
| "check_node (CompareOpNode s k l r) c =
     (case check l c of (lt, c) \<Rightarrow>
      case check r c of (rt, c) \<Rightarrow> checkCompareOp (CompareOpNode s k l r) k l r lt rt c)"
| "check_node (LogicalOpNode s k l r) c = checkLogicalOp k l r c"
| "checkWithNarrowing (LogicalOpNode s k l r) truthy c =
     (if k = LogicalAnd \<and> truthy \<or> k = LogicalOr \<and> \<not> truthy
      then (case check l c of (lt, c) \<Rightarrow> guarded l truthy (check r) c)
      else checkLogicalOp k l r c)"
| "checkWithNarrowing (NotOpNode s e t) truthy c = checkWithNarrowing e (\<not> truthy) c"
| "checkWithNarrowing n truthy c = check n c"
| "checkLogicalOp k l r c =
     (case checkWithNarrowing l (k = LogicalOr) c of (left, c) \<Rightarrow>
      case guarded l (k = LogicalAnd) (branch (short_circuited k l) (check r)) c of (right, c) \<Rightarrow>
        (merge_ty left right, c))"
| "check_args [] c = ([], c)"
| "check_args (a # as) c =
     (case check a c of (t, c) \<Rightarrow> case check_args as c of (ts, c) \<Rightarrow> (t # ts, c))"
| "checkCaseBranches (p # v # rest) remaining c =
     (case branch (\<not> remaining) (check p) c of (pt, c) \<Rightarrow>
        (let c = check_case_predicate p remaining pt c;
             value = ConditionConstantValue p in
         case guarded p True
                (branch (\<not> remaining \<or> value = Some (JBool False)) (check v)) c of (vt, c) \<Rightarrow>
           guarded p False
             (checkCaseBranches rest (remaining \<and> value \<noteq> Some (JBool True))) c))"
| "checkCaseBranches [e] remaining c =
     (case branch (\<not> remaining) (check e) c of (t, c) \<Rightarrow> (AnyType, c))"
| "checkCaseBranches [] remaining c = (AnyType, c)"
  by pat_completeness auto
termination
  by (relation "measure (\<lambda>x. case x of
        Inl (Inl (n, c)) \<Rightarrow> 4 * size n + 1
      | Inl (Inr (Inl (n, c))) \<Rightarrow> 4 * size n
      | Inl (Inr (Inr (n, b, c))) \<Rightarrow> 4 * size n + 2
      | Inr (Inl (k, l, r, c)) \<Rightarrow> 4 * (size l + size r) + 3
      | Inr (Inr (Inl (as, c))) \<Rightarrow> 4 * size_list size as + 1
      | Inr (Inr (Inr (as, b, c))) \<Rightarrow> 4 * size_list size as + 1)") auto

declare check.simps [simp del]
declare checkWithNarrowing.simps [simp del]
declare checkLogicalOp.simps [simp del]
declare checkCaseBranches.simps [simp del]

text \<open>\<open>Check\<close>. A secret's diagnostic is dropped where it overlaps a diagnostic of the checker.\<close>

definition overlaps :: "expr_error \<Rightarrow> expr_error \<Rightarrow> bool" where
  "overlaps err finding \<longleftrightarrow>
     e_offset err < e_end_offset finding \<and> e_offset finding < e_end_offset err"

definition Check :: "node \<Rightarrow> checker \<Rightarrow> (ty \<times> expr_error list) \<times> checker" where
  "Check e c =
     (case check e (c\<lparr>ck_errs := [], ck_untrusted := map_option u_Init (ck_untrusted c)\<rparr>) of
        (t, c) \<Rightarrow>
          (let c = (if ck_condition c \<and> StringConditions (ck_checks c) \<and> conditionStringReference e t
                    then rule_error e ''string-conditions'' RuleStringConditions c else c)
           in case ck_untrusted c of
             None \<Rightarrow> ((t, ck_errs c), c)
           | Some u \<Rightarrow>
               (let u = OnVisitEnd u in
                ((t, ck_errs c @ u_errs u @
                     filter (\<lambda>f. \<not> list_ex (\<lambda>err. overlaps err f) (ck_errs c))
                       (CheckSecretInterpolations e)),
                 c\<lparr>ck_untrusted := Some u\<rparr>))))"

fun IsConstant :: "(string \<times> func_sig list) list \<Rightarrow> node \<Rightarrow> bool" where
  "IsConstant fs (VariableNode _ _ _) = False"
| "IsConstant fs (ObjectDerefNode _ _ _ _) = False"
| "IsConstant fs (ArrayDerefNode _ _) = False"
| "IsConstant fs (IndexAccessNode _ _ _) = False"
| "IsConstant fs (NotOpNode _ e _) = IsConstant fs e"
| "IsConstant fs (CompareOpNode _ _ l r) = (IsConstant fs l \<and> IsConstant fs r)"
| "IsConstant fs (LogicalOpNode _ _ l r) = (IsConstant fs l \<and> IsConstant fs r)"
| "IsConstant fs (FuncCallNode _ callee args _) =
     (list_all (IsConstant fs) args \<and>
      (case map_of fs (to_lower callee) of
         None \<Rightarrow> False
       | Some sigs \<Rightarrow> list_all fs_const sigs))"
| "IsConstant fs _ = True"

end
