(* ===== verification/Sema_Spec.thy ===== *)
theory Sema_Spec
  imports Expr_Sema Eval_Spec
begin

text \<open>
  What the checker promises of its own state: a check appends diagnostics and leaves
  everything else as it was, whatever guards narrowed and whatever branches were skipped on
  the way; so one checker can be used for expression after expression.
\<close>

subsection \<open>The untrusted checker keeps its roots\<close>

named_theorems roots_simps

lemma u_reset_roots [roots_simps]: "u_roots (u_reset u) = u_roots u"
  by (simp add: u_reset_def)

lemma onVar_roots [roots_simps]: "u_roots (onVar n x u) = u_roots u"
  by (simp add: onVar_def split: option.splits)

lemma onPropAccess_roots [roots_simps]: "u_roots (onPropAccess x u) = u_roots u"
  by (simp add: onPropAccess_def)

lemma onIndexAccess_roots [roots_simps]: "u_roots (onIndexAccess u) = u_roots u"
  by (simp add: onIndexAccess_def)

lemma onObjectFilter_roots [roots_simps]: "u_roots (onObjectFilter u) = u_roots u"
  by (simp add: onObjectFilter_def)

lemma reportInputs_roots [roots_simps]: "u_roots (reportInputs s is u) = u_roots u"
  by (simp add: reportInputs_def split: option.splits list.splits)

lemma endInput_roots [roots_simps]: "u_roots (endInput b u) = u_roots u"
  by (simp add: endInput_def roots_simps)

lemma set_start_roots [roots_simps]: "u_roots (set_start n u) = u_roots u"
  by (simp add: set_start_def)

lemma index_step_roots [roots_simps]: "u_roots (index_step i u) = u_roots u"
  by (cases i) (simp_all add: index_step_def roots_simps)

lemma report_containers_roots [roots_simps]: "u_roots (report_containers e u) = u_roots u"
  by (simp add: report_containers_def roots_simps split: option.splits)

lemma serializedContainers_roots [roots_simps]:
  "u_roots (serializedContainers e u) = u_roots u"
  "u_roots (serialized_cases es u) = u_roots u"
  by (induction e u and es u rule: serializedContainers_serialized_cases.induct)
    (auto simp: roots_simps split: option.splits if_splits)

lemma leave_node_roots [roots_simps]: "u_roots (leave_node n u) = u_roots u"
  by (cases n) (simp_all add: leave_call_def roots_simps)

lemma pop_visit_roots [roots_simps]: "u_roots (pop_visit u) = u_roots u"
  by (simp add: pop_visit_def split: list.splits prod.splits)

lemma visit_roots [roots_simps]:
  "u_roots (OnVisitNodeEnter n u) = u_roots u"
  "u_roots (OnVisitNodeLeave n u) = u_roots u"
  "u_roots (OnVisitEnd u) = u_roots u"
  by (simp_all add: OnVisitNodeEnter_def OnVisitNodeLeave_def OnVisitEnd_def roots_simps Let_def)

subsection \<open>A check extends the diagnostics and nothing else\<close>

text \<open>Everything but the diagnostics and the untrusted checker's progress.\<close>

definition scope :: "checker \<Rightarrow> checker" where
  "scope c = c\<lparr>ck_errs := [], ck_untrusted := None\<rparr>"

definition extends :: "checker \<Rightarrow> checker \<Rightarrow> bool" where
  "extends c d \<longleftrightarrow>
     scope d = scope c \<and> (\<exists>es. ck_errs d = ck_errs c @ es)
     \<and> map_option u_roots (ck_untrusted d) = map_option u_roots (ck_untrusted c)"

lemma extends_refl [simp, intro]: "extends c c"
  by (simp add: extends_def)

lemma extends_trans [trans]: "extends c d \<Longrightarrow> extends d e \<Longrightarrow> extends c e"
  by (auto simp: extends_def)

lemma extends_errors [simp]: "extends c (add_errors es c)"
  by (simp add: extends_def add_errors_def scope_def)

lemma scope_errors [simp]: "scope (add_errors es c) = scope c"
  by (simp add: add_errors_def scope_def)

lemma extends_error [simp]: "extends c (sema_error k n m c)" "extends c (callee_error k n m c)"
    "extends c (rule_error n x r c)"
  by (simp_all add: sema_error_def callee_error_def rule_error_def)

definition keeps :: "(checker \<Rightarrow> 'a \<times> checker) \<Rightarrow> bool" where
  "keeps f \<longleftrightarrow> (\<forall>c. extends c (snd (f c)))"

lemma keepsD: "keeps f \<Longrightarrow> extends c (snd (f c))"
  by (simp add: keeps_def)

lemma keeps_bind:
  assumes "extends c (snd p)" and "\<And>t d. p = (t, d) \<Longrightarrow> extends d (snd (g t d))"
  shows "extends c (snd (case p of (t, d) \<Rightarrow> g t d))"
  using assms extends_trans [of c "snd p" "snd (g (fst p) (snd p))"] by (cases p) simp

lemma visiting_keeps:
  assumes "keeps f"
  shows "extends c (snd (visiting n f c))"
proof -
  let ?c = "c\<lparr>ck_untrusted := map_option (OnVisitNodeEnter n) (ck_untrusted c)\<rparr>"
  have "extends c ?c"
    by (cases "ck_untrusted c") (simp_all add: extends_def scope_def roots_simps)
  also have "extends ?c (snd (f ?c))" using assms by (rule keepsD)
  also have "extends (snd (f ?c)) (snd (visiting n f c))"
    by (cases "ck_untrusted (snd (f ?c))")
      (auto simp: visiting_def extends_def scope_def roots_simps split: prod.splits)
  finally show ?thesis .
qed

lemma branch_keeps:
  assumes "keeps f"
  shows "extends c (snd (branch b f c))"
proof -
  let ?c = "c\<lparr>ck_skip := ck_skip c \<or> b\<rparr>"
  obtain t d where d: "f ?c = (t, d)" by (cases "f ?c")
  then have "extends ?c d" using assms keepsD [of f ?c] by simp
  then have "extends c (d\<lparr>ck_skip := ck_skip c\<rparr>)"
    by (cases c; cases d) (auto simp: extends_def scope_def)
  then show ?thesis using d by (simp add: branch_def)
qed

lemma guarded_keeps:
  assumes "keeps f"
  shows "extends c (snd (guarded g b f c))"
proof (cases "withEventGuard (ck_same c) (ck_vars c) g b")
  case (RunWith vs)
  let ?c = "c\<lparr>ck_vars := vs\<rparr>"
  obtain t d where d: "f ?c = (t, d)" by (cases "f ?c")
  then have "extends ?c d" using assms keepsD [of f ?c] by simp
  then have "extends c (d\<lparr>ck_vars := ck_vars c\<rparr>)"
    by (cases c; cases d) (auto simp: extends_def scope_def)
  then show ?thesis using d RunWith by (simp add: guarded_def)
qed (use assms in \<open>simp_all add: guarded_def keepsD\<close>)

lemma undefined_variable_keeps [simp]: "extends c (undefined_variable n x t c)"
  by (simp add: undefined_variable_def Let_def)

lemma checkAvailableContext_keeps [simp]: "extends c (checkAvailableContext n x c)"
  by (simp add: checkAvailableContext_def)

lemma special_keeps [simp]: "extends c (checkSpecialFunctionAvailability n x c)"
  by (simp add: checkSpecialFunctionAvailability_def split: option.splits)

lemma missingProperty_keeps [simp]: "extends c (missingProperty n r x t c)"
  by (simp add: missingProperty_def Let_def)

lemma checkVariable_keeps [simp]: "extends c (snd (checkVariable n x c))"
  by (simp add: checkVariable_def Let_def split: option.splits list.splits)

lemma config_keeps [simp]:
  "extends c (checkConfigVariables n p c)" "extends c (checkConfigSecrets n p c)"
  "extends c (check_config_name n r p c)"
proof -
  show v: "extends c (checkConfigVariables n p c)" for p
    by (simp add: checkConfigVariables_def split: option.splits)
  show s: "extends c (checkConfigSecrets n p c)" for p
    by (simp add: checkConfigSecrets_def split: option.splits)
  show "extends c (check_config_name n r p c)"
    by (simp add: check_config_name_def v s split: node.splits)
qed

lemma checkObjectDeref_keeps [simp]: "extends c (snd (checkObjectDeref n r p tok t c))"
  by (simp add: checkObjectDeref_def deref_strict_def deref_elements_def Let_def
      split: ty.splits option.splits)

lemma checkArrayDeref_keeps [simp]: "extends c (snd (checkArrayDeref n r t c))"
  by (simp add: checkArrayDeref_def Let_def split: ty.splits option.splits)

lemma checkIndexAccess_keeps [simp]: "extends c (snd (checkIndexAccess n o' i it t c))"
  by (simp add: checkIndexAccess_def index_object_def Let_def
      split: ty.splits option.splits node.splits)

lemma identity_keeps [simp]: "extends c (checkIdentityComparison n l r c)"
  by (simp add: checkIdentityComparison_def)

lemma condition_keeps [simp]: "extends c (checkConditionComparison n k l r lt rt c)"
  using extends_trans [OF extends_error(3) identity_keeps]
  by (simp add: checkConditionComparison_def Let_def)

lemma checkCompareOp_keeps [simp]: "extends c (snd (checkCompareOp n k l r lt rt c))"
  using extends_trans [OF condition_keeps extends_error(1)]
  by (simp add: checkCompareOp_def Let_def)

lemma special_call_keeps [simp]: "extends c (snd (check_special_call n f args sig c))"
  by (simp add: check_special_call_def check_fromjson_call_def check_format_call_def Let_def
      split: node.splits option.splits)

lemma builtin_keeps [simp]: "extends c (snd (checkBuiltinFuncCall n f args sig c))"
proof -
  have "extends c (snd (check_special_call n f args sig d))" if "extends c d" for d
    using extends_trans [OF that special_call_keeps] .
  moreover have "extends c (checkIdentityComparison n l r (checkSpecialFunctionAvailability n f c))" for l r
    using extends_trans [OF special_keeps identity_keeps] .
  ultimately show ?thesis by (simp add: checkBuiltinFuncCall_def Let_def)
qed

lemma call_overload_keeps [simp]: "extends c (snd (call_overload n f args sigs tys c))"
  by (simp add: call_overload_def split: sum.splits)

lemma small_keeps [simp]:
  "extends c (count_limit n f args c)" "extends c (undefined_function n f c)"
  "extends c (check_not_operand n t c)" "extends c (check_case_predicate n b t c)"
  by (simp_all add: count_limit_def undefined_function_def check_not_operand_def
      check_case_predicate_def Let_def)

lemma extends_after:
  "extends (count_limit n f args c) (snd (check_args as (count_limit n f args c))) \<Longrightarrow>
     extends c (snd (check_args as (count_limit n f args c)))"
  "extends (checkSpecialFunctionAvailability n f (count_limit n f args c)) (snd (checkCaseBranches as b
       (checkSpecialFunctionAvailability n f (count_limit n f args c)))) \<Longrightarrow>
     extends c (snd (checkCaseBranches as b
       (checkSpecialFunctionAvailability n f (count_limit n f args c))))"
  "extends (check_case_predicate p r t c) (snd (guarded g b h (check_case_predicate p r t c))) \<Longrightarrow>
     extends c (snd (guarded g b h (check_case_predicate p r t c)))"
  using extends_trans small_keeps special_keeps by meson+

lemma check_keeps:
  "extends c (snd (check n c))"
  "extends c (snd (check_node n c))"
  "extends c (snd (checkWithNarrowing n b c))"
  "extends c (snd (checkLogicalOp k l r c))"
  "extends c (snd (check_args as c))"
  "extends c (snd (checkCaseBranches as b c))"
proof (induction n c and n c and n b c and k l r c and as c and as b c
    rule: check_check_node_checkWithNarrowing_checkLogicalOp_check_args_checkCaseBranches.induct)
  case (1 n c)
  then show ?case by (subst check.simps) (simp add: visiting_keeps keeps_def)
qed (auto simp: check.simps checkWithNarrowing.simps checkLogicalOp.simps checkCaseBranches.simps
   Let_def keeps_def split: option.splits intro!: keeps_bind guarded_keeps branch_keeps extends_after)

subsection \<open>One expression after another\<close>

lemma u_Init_roots: "u_roots u = u_roots u' \<Longrightarrow> u_Init u = u_Init u'"
  by (cases u; cases u') (simp add: u_Init_def u_reset_def)

lemma roots_init: "map_option u_roots x = map_option u_roots y \<Longrightarrow> map_option u_Init x = map_option u_Init y"
  by (cases x; cases y) (auto dest: u_Init_roots)

lemma Check_scope:
  "scope (snd (Check e c)) = scope c
   \<and> map_option u_roots (ck_untrusted (snd (Check e c))) = map_option u_roots (ck_untrusted c)"
proof -
  let ?c = "c\<lparr>ck_errs := [], ck_untrusted := map_option u_Init (ck_untrusted c)\<rparr>"
  obtain t d where d: "check e ?c = (t, d)" by (cases "check e ?c")
  define d' where "d' = (if ck_condition d \<and> StringConditions (ck_checks d) \<and> conditionStringReference e t
      then rule_error e ''string-conditions'' RuleStringConditions d else d)"
  have "extends ?c d'"
    using extends_trans [OF check_keeps(1) [of ?c e] extends_error(3)] check_keeps(1) [of ?c e] d
    by (auto simp: d'_def)
  then have scope: "scope d' = scope c"
    and roots: "map_option u_roots (ck_untrusted d') = map_option u_roots (ck_untrusted c)"
    by (cases "ck_untrusted c"; simp add: extends_def scope_def u_Init_def u_reset_def)+
  have "snd (Check e c) = (case ck_untrusted d' of
      None \<Rightarrow> d' | Some u \<Rightarrow> d'\<lparr>ck_untrusted := Some (OnVisitEnd u)\<rparr>)"
    unfolding Check_def d prod.case d'_def [symmetric] Let_def by (cases "ck_untrusted d'") simp_all
  with scope roots show ?thesis
    by (cases "ck_untrusted d'"; cases "ck_untrusted c") (simp_all add: scope_def roots_simps)
qed

text \<open>
  (C8) Checking an expression leaves the checker's configuration as it was (contexts, their
  types, skipped branches, availability), and the type and diagnostics of an expression do
  not depend on the expressions the same checker has checked before.
\<close>

theorem Check_independent:
  "scope (snd (Check e c)) = scope c \<and> fst (Check e (snd (Check e' c))) = fst (Check e c)"
proof -
  let ?start = "\<lambda>c. c\<lparr>ck_errs := [], ck_untrusted := map_option u_Init (ck_untrusted c)\<rparr>"
  let ?d = "snd (Check e' c)"
  have init: "map_option u_Init (ck_untrusted ?d) = map_option u_Init (ck_untrusted c)"
    by (rule roots_init) (rule Check_scope [THEN conjunct2])
  have scope: "scope ?d = scope c" by (rule Check_scope [THEN conjunct1])
  have start: "?start d = (scope d)\<lparr>ck_untrusted := map_option u_Init (ck_untrusted d)\<rparr>" for d
    by (simp add: scope_def)
  have "?start ?d = (scope ?d)\<lparr>ck_untrusted := map_option u_Init (ck_untrusted ?d)\<rparr>"
    by (rule start)
  also have "\<dots> = (scope c)\<lparr>ck_untrusted := map_option u_Init (ck_untrusted c)\<rparr>"
    by (simp only: init scope)
  also have "\<dots> = ?start c" by (rule start [symmetric])
  finally have "?start ?d = ?start c" .
  then have "Check e ?d = Check e c" unfolding Check_def by (rule arg_cong)
  then show ?thesis by (simp only: Check_scope)
qed

subsection \<open>Access chains and untrusted inputs\<close>

text \<open>A chain of named accesses: the variable and the names.\<close>

fun static_chain :: "node \<Rightarrow> (string \<times> string list) option" where
  "static_chain (VariableNode _ name _) = Some (name, [])"
| "static_chain (ObjectDerefNode _ r p _) = map_option (\<lambda>(v, ps). (v, ps @ [p])) (static_chain r)"
| "static_chain (IndexAccessNode _ r (StringNode _ k _)) =
     map_option (\<lambda>(v, ps). (v, ps @ [to_lower k])) (static_chain r)"
| "static_chain _ = None"

text \<open>Where the names lead in the tree of untrusted inputs.\<close>

definition untrusted_at :: "umap list \<Rightarrow> string \<Rightarrow> string list \<Rightarrow> cursor option" where
  "untrusted_at roots v ps =
     foldl (\<lambda>c p. Option.bind c (findObjectProp p))
       (map_option (\<lambda>m. (umap_name m, m)) (find_named v roots)) ps"

definition clean :: "ucheck \<Rightarrow> bool" where
  "clean u \<longleftrightarrow> u_start u = None \<and> u_cur u = [] \<and> \<not> u_filtering u \<and> u_safeCalls u = 0"

definition at_chain :: "node \<Rightarrow> string \<Rightarrow> string list \<Rightarrow> ucheck \<Rightarrow> ucheck" where
  "at_chain n v ps u =
     u\<lparr>u_start := (if find_named v (u_roots u) = None then None else Some n),
       u_cur := (case untrusted_at (u_roots u) v ps of None \<Rightarrow> [] | Some c \<Rightarrow> [c])\<rparr>"

lemma untrusted_at_snoc:
  "untrusted_at roots v (ps @ [p]) = Option.bind (untrusted_at roots v ps) (findObjectProp p)"
  by (simp add: untrusted_at_def)

lemma untrusted_at_var:
  "find_named v roots = None \<Longrightarrow> untrusted_at roots v ps = None"
proof -
  assume "find_named v roots = None"
  moreover have "foldl (\<lambda>c p. Option.bind c (findObjectProp p)) None ps = None" by (induction ps) auto
  ultimately show ?thesis by (simp add: untrusted_at_def)
qed

lemma u_end_clean: "clean u \<Longrightarrow> u_end u = u"
  by (cases u) (simp add: clean_def endInput_def reportInputs_def u_reset_def)

lemma clean_enter: "clean u \<Longrightarrow> \<not> is_safe_call n \<Longrightarrow> clean (OnVisitNodeEnter n u)"
  by (simp add: clean_def OnVisitNodeEnter_def Let_def)

lemma leave_entered:
  assumes "\<not> is_safe_call n" and "u_safeCalls w = 0"
    and "leave_node n w = at_chain n v qs (OnVisitNodeEnter n u)"
  shows "OnVisitNodeLeave n w = at_chain n v qs u"
proof -
  have "OnVisitNodeLeave n w = pop_visit (at_chain n v qs (OnVisitNodeEnter n u))"
    using assms by (simp add: OnVisitNodeLeave_def)
  also have "\<dots> = at_chain n v qs u"
    using assms(1) by (simp add: at_chain_def pop_visit_def OnVisitNodeEnter_def Let_def)
  finally show ?thesis .
qed

lemma var_leave:
  assumes "clean u"
  shows "OnVisitNodeLeave (VariableNode s v t) (OnVisitNodeEnter (VariableNode s v t) u)
    = at_chain (VariableNode s v t) v [] u"
proof (rule leave_entered)
  let ?n = "VariableNode s v t"
  show safe: "\<not> is_safe_call ?n" by (simp add: is_safe_call_def)
  then have c: "clean (OnVisitNodeEnter ?n u)" using assms clean_enter by blast
  then show "u_safeCalls (OnVisitNodeEnter ?n u) = 0" by (simp add: clean_def)
  show "leave_node ?n (OnVisitNodeEnter ?n u) = at_chain ?n v [] (OnVisitNodeEnter ?n u)"
    using c u_end_clean [OF c]
    by (cases "OnVisitNodeEnter ?n u")
      (simp add: onVar_def at_chain_def clean_def untrusted_at_def split: option.splits)
qed

lemma prop_leave:
  assumes "\<And>w. leave_node n w = set_start n (onPropAccess p w)" and "\<not> is_safe_call n" and "u_safeCalls u = 0"
  shows "OnVisitNodeLeave n (at_chain r v ps (OnVisitNodeEnter n u)) = at_chain n v (ps @ [p]) u"
proof (rule leave_entered)
  show "\<not> is_safe_call n" by fact
  show "u_safeCalls (at_chain r v ps (OnVisitNodeEnter n u)) = 0"
    using assms(2,3) by (simp add: at_chain_def OnVisitNodeEnter_def Let_def)
  show "leave_node n (at_chain r v ps (OnVisitNodeEnter n u)) = at_chain n v (ps @ [p]) (OnVisitNodeEnter n u)"
    using untrusted_at_var
    by (auto simp: assms(1) at_chain_def set_start_def onPropAccess_def untrusted_at_snoc compact_def
        split: option.splits)
qed

named_theorems untrusted_simps

lemma errors_untrusted [untrusted_simps]:
  "ck_untrusted (sema_error k n m c) = ck_untrusted c"
  "ck_untrusted (rule_error n x r c) = ck_untrusted c"
  by (simp_all add: sema_error_def rule_error_def add_errors_def)

lemma missingProperty_untrusted [untrusted_simps]:
  "ck_untrusted (missingProperty n r x t c) = ck_untrusted c"
  by (simp add: missingProperty_def Let_def untrusted_simps)

lemma checkVariable_untrusted [untrusted_simps]:
  "ck_untrusted (snd (checkVariable n x c)) = ck_untrusted c"
  by (simp add: checkVariable_def undefined_variable_def checkAvailableContext_def Let_def
      untrusted_simps split: option.splits list.splits)

lemma config_untrusted [untrusted_simps]:
  "ck_untrusted (check_config_name n r p c) = ck_untrusted c"
  by (simp add: check_config_name_def checkConfigVariables_def checkConfigSecrets_def
      untrusted_simps split: node.splits option.splits)

lemma access_untrusted [untrusted_simps]:
  "ck_untrusted (snd (checkObjectDeref n r p tok t c)) = ck_untrusted c"
  "ck_untrusted (snd (checkIndexAccess n r i it t c)) = ck_untrusted c"
  by (simp_all add: checkObjectDeref_def deref_strict_def deref_elements_def checkIndexAccess_def
      index_object_def Let_def untrusted_simps split: ty.splits option.splits node.splits)

lemma text_check:
  assumes "ck_untrusted c = Some u" and "clean u"
  shows "ck_untrusted (snd (check (StringNode s k t) c)) = Some u"
proof -
  let ?n = "StringNode s k t"
  have safe: "\<not> is_safe_call ?n" by (simp add: is_safe_call_def)
  then have "clean (OnVisitNodeEnter ?n u)" using assms(2) clean_enter by blast
  then have "leave_node ?n (OnVisitNodeEnter ?n u) = OnVisitNodeEnter ?n u"
    and "u_safeCalls (OnVisitNodeEnter ?n u) = 0"
    using u_end_clean by (auto simp: clean_def)
  then have "OnVisitNodeLeave ?n (OnVisitNodeEnter ?n u) = pop_visit (OnVisitNodeEnter ?n u)"
    by (simp add: OnVisitNodeLeave_def)
  also have "\<dots> = u" using safe by (simp add: pop_visit_def OnVisitNodeEnter_def Let_def)
  finally show ?thesis using assms(1) by (subst check.simps) (simp add: visiting_def)
qed

lemma chain_check:
  "static_chain n = Some (v, ps) \<Longrightarrow> ck_untrusted c = Some u \<Longrightarrow> clean u \<Longrightarrow>
     ck_untrusted (snd (check n c)) = Some (at_chain n v ps u)"
proof (induction n arbitrary: ps c u rule: static_chain.induct)
  case (1 s name t)
  let ?n = "VariableNode s name t"
  show ?case using 1 var_leave [of u s name t]
    by (subst check.simps) (simp add: visiting_def untrusted_simps case_prod_unfold)
next
  case (2 s r p t)
  let ?n = "ObjectDerefNode s r p t" and ?c = "\<lambda>n. c\<lparr>ck_untrusted := Some (OnVisitNodeEnter n u)\<rparr>"
  from 2(2) obtain qs where r: "static_chain r = Some (v, qs)" and ps: "ps = qs @ [p]" by auto
  have safe: "\<not> is_safe_call ?n" by (simp add: is_safe_call_def)
  obtain rt d where d: "check r (?c ?n) = (rt, d)" by (cases "check r (?c ?n)")
  have "ck_untrusted d = Some (at_chain r v qs (OnVisitNodeEnter ?n u))"
    using 2(1) [OF r, of "?c ?n"] d clean_enter [OF 2(4) safe] by simp
  then show ?case
    using 2(3) d prop_leave [of ?n p u r v qs] safe 2(4)
    by (subst check.simps) (simp add: visiting_def untrusted_simps ps clean_def case_prod_unfold)
next
  case (3 s r s' k t)
  let ?i = "StringNode s' k t"
  let ?n = "IndexAccessNode s r ?i" and ?c = "\<lambda>n. c\<lparr>ck_untrusted := Some (OnVisitNodeEnter n u)\<rparr>"
  from 3(2) obtain qs where r: "static_chain r = Some (v, qs)" and ps: "ps = qs @ [to_lower k]" by auto
  have safe: "\<not> is_safe_call ?n" by (simp add: is_safe_call_def)
  have clean: "clean (OnVisitNodeEnter ?n u)" by (rule clean_enter [OF 3(4) safe])
  obtain it b where b: "check ?i (?c ?n) = (it, b)" by (cases "check ?i (?c ?n)")
  have b': "ck_untrusted b = Some (OnVisitNodeEnter ?n u)"
    using text_check [of "?c ?n" _ s' k t, OF _ clean] b by simp
  obtain rt d where d: "check r b = (rt, d)" by (cases "check r b")
  have "ck_untrusted d = Some (at_chain r v qs (OnVisitNodeEnter ?n u))"
    using 3(1) [OF r b' clean] d by simp
  then show ?case
    using 3(3) b d prop_leave [of ?n "to_lower k" u r v qs] safe 3(4)
    by (subst check.simps)
      (simp add: visiting_def untrusted_simps ps clean_def index_step_def case_prod_unfold)
qed simp_all


definition issue_title :: node where
  "issue_title =
     IndexAccessNode no_span
       (ObjectDerefNode no_span
          (ObjectDerefNode no_span (VariableNode no_span ''github'' (some_token ''github''))
             ''event'' (some_token ''event''))
          ''issue'' (some_token ''issue''))
       (text_node ''Title'')"


subsection \<open>Signatures\<close>

lemma first_mismatch_None:
  "first_mismatch i xs = None \<longleftrightarrow> list_all (\<lambda>(p, a). Assignable p a) xs"
  by (induction i xs rule: first_mismatch.induct) auto

lemma list_all_zip_take:
  "length ps \<le> length as \<Longrightarrow>
     list_all (\<lambda>(p, a). P p a) (zip ps as) \<and> list_all (P q) (drop (length ps) as)
     \<longleftrightarrow> list_all2 P (ps @ replicate (length as - length ps) q) as"
proof (induction ps arbitrary: as)
  case Nil
  have "list_all2 P (replicate (length as) q) as \<longleftrightarrow> list_all (P q) as"
    by (induction as) auto
  then show ?case by simp
next
  case (Cons p ps)
  then show ?case by (cases as) auto
qed

lemma list_all_zip: "length ps = length as \<Longrightarrow>
    list_all (\<lambda>(p, a). P p a) (zip ps as) \<longleftrightarrow> list_all2 P ps as"
  using list_all_zip_take [of ps as P] by simp

text \<open>
  A call fits a signature exactly when every argument is assignable to its parameter, the
  last parameter of a variadic signature standing for all further arguments; otherwise
  \<open>checkFuncSignature\<close> gives one diagnostic.
\<close>

theorem signature_fits:
  "checkFuncSignature n args sig tys = None \<longleftrightarrow>
     list_all2 Assignable
       (if fs_variadic sig
        then fs_params sig @ replicate (length tys - length (fs_params sig)) (last (fs_params sig))
        else fs_params sig) tys"
proof -
  let ?ps = "fs_params sig"
  consider "fs_variadic sig" "length tys < length ?ps" | "fs_variadic sig" "length ?ps \<le> length tys"
    | "\<not> fs_variadic sig" "length ?ps \<noteq> length tys" | "\<not> fs_variadic sig" "length ?ps = length tys"
    by linarith
  then show ?thesis
  proof cases
    case 1
    then show ?thesis by (auto simp: checkFuncSignature_def Let_def dest: list_all2_lengthD)
  next
    case 2
    let ?rest = "first_mismatch (length ?ps) (map (\<lambda>a. (last ?ps, a)) (drop (length ?ps) tys))"
    have rest: "?rest = None \<longleftrightarrow> list_all (Assignable (last ?ps)) (drop (length ?ps) tys)"
      by (simp add: first_mismatch_None list.pred_map comp_def)
    have "checkFuncSignature n args sig tys = None \<longleftrightarrow>
        first_mismatch 0 (zip ?ps tys) = None \<and> ?rest = None"
      using 2 by (cases "first_mismatch 0 (zip ?ps tys)"; cases ?rest)
        (auto simp: checkFuncSignature_def Let_def)
    also have "\<dots> \<longleftrightarrow> list_all (\<lambda>(p, a). Assignable p a) (zip ?ps tys)
        \<and> list_all (Assignable (last ?ps)) (drop (length ?ps) tys)"
      by (simp only: first_mismatch_None [of 0] rest)
    also have "\<dots> \<longleftrightarrow> list_all2 Assignable (?ps @ replicate (length tys - length ?ps) (last ?ps)) tys"
      using 2(2) by (rule list_all_zip_take)
    finally show ?thesis using 2(1) by simp
  next
    case 3
    then show ?thesis by (auto simp: checkFuncSignature_def Let_def dest: list_all2_lengthD)
  next
    case 4
    then show ?thesis
      using first_mismatch_None [of 0 "zip ?ps tys"] list_all_zip [OF 4(2), of Assignable]
      by (auto simp: checkFuncSignature_def Let_def split: option.splits)
  qed
qed

subsection \<open>Availability before it is set\<close>

text \<open>
  Without a call of \<open>SetContextAvailability\<close> or \<open>SetWorkflowKeyAvailability\<close> no context is
  available: a fresh checker rejects \<open>github\<close>, although the comment on
  \<open>SetContextAvailability\<close> says that any context is available by default.
\<close>

theorem fresh_checker_rejects_contexts:
  "snd (fst (Check (VariableNode s ''github'' t) (NewChecker same False cfg))) =
     [error_at_expr fk_unavailableContext (VariableNode s ''github'' t)
        (NameMsg (ContextNotAllowed ''github'' []))]"
proof -
  have "\<exists>g. map_of BuiltinGlobalVariableTypes ''github'' = Some g"
    by (simp add: BuiltinGlobalVariableTypes_def)
  then show ?thesis
    by (auto simp: Check_def check.simps visiting_def checkVariable_def checkAvailableContext_def
        NewChecker_def sema_error_def add_errors_def)
qed

end
