(* ===== verification/Diagnostic.thy ===== *)
theory Diagnostic
  imports Go_Base "HOL-Library.List_Lexorder" "HOL-Library.Char_ord"
begin

text \<open>
  Findings of the rule packages under \<open>internal/semantics\<close> (\<open>diagnostic/diagnostic.go\<close>): a rule,
  a position and a message. A message is a value of the package's own datatype, one
  constructor per format string with the values formatted into it.
\<close>

record diag_pos =
  dp_line :: int
  dp_column :: int

record 'm diagnostic =
  dg_rule :: string
  dg_start :: diag_pos
  dg_message :: 'm

definition pos_before :: "diag_pos \<Rightarrow> diag_pos \<Rightarrow> bool" where
  "pos_before p q \<longleftrightarrow> dp_line p < dp_line q \<or> dp_line p = dp_line q \<and> dp_column p < dp_column q"

lemma pos_before_irrefl [simp]: "\<not> pos_before p p"
  by (simp add: pos_before_def)

lemma pos_before_trans: "pos_before p q \<Longrightarrow> pos_before q r \<Longrightarrow> pos_before p r"
  by (auto simp: pos_before_def)

lemma pos_before_negtrans: "\<not> pos_before p q \<Longrightarrow> \<not> pos_before q r \<Longrightarrow> \<not> pos_before p r"
  by (auto simp: pos_before_def)

end
