(* ===== verification/Job_Needs.thy ===== *)
theory Job_Needs
  imports Diagnostic
begin

text \<open>
  Dependencies between jobs (\<open>internal/semantics/jobneeds/check.go\<close>): duplicate and unknown
  names, then a depth-first search for a cycle. The closure \<open>visit\<close> with its captured
  variables is a recursive function on a state record; its recursion is bounded by fuel, and
  one unit per job is proved enough in \<open>Job_Needs_Spec\<close>.
\<close>

subsection \<open>Declarations\<close>

record job_name =
  jn_value :: string
  jn_start :: diag_pos

record job =
  jb_id :: job_name
  jb_needs :: "job_name list"

record job_node =
  nd_needs :: "string list"
  nd_start :: diag_pos

datatype needs_msg =
    DuplicateNeed string
  | DuplicateJob string diag_pos
  | UnknownJob string string
  | CyclicNeeds "string list"

type_synonym needs_diag = "needs_msg diagnostic"

definition needs_report :: "diag_pos \<Rightarrow> needs_msg \<Rightarrow> needs_diag" where
  "needs_report p m = \<lparr>dg_rule = ''job-needs'', dg_start = p, dg_message = m\<rparr>"

fun collect_needs :: "string list \<Rightarrow> job_name list \<Rightarrow> string list \<times> needs_diag list" where
  "collect_needs needs [] = (needs, [])"
| "collect_needs needs (dep # deps) =
     (let i = to_lower (jn_value dep) in
      if i \<in> set needs then
        (case collect_needs needs deps of
           (ns, fs) \<Rightarrow> (ns, needs_report (jn_start dep) (DuplicateNeed (jn_value dep)) # fs))
      else collect_needs (if i \<noteq> [] then needs @ [i] else needs) deps)"

type_synonym job_nodes = "(string \<times> job_node) list"

fun declare_jobs :: "job_nodes \<Rightarrow> job list \<Rightarrow> job_nodes \<times> needs_diag list" where
  "declare_jobs nodes [] = (nodes, [])"
| "declare_jobs nodes (j # js) =
     (case collect_needs [] (jb_needs j) of
        (needs, fs) \<Rightarrow>
          let i = to_lower (jn_value (jb_id j)) in
          if i = [] then (case declare_jobs nodes js of (ns, gs) \<Rightarrow> (ns, fs @ gs))
          else
            let ds = (case map_of nodes i of
                  Some previous \<Rightarrow>
                    [needs_report (jn_start (jb_id j))
                       (DuplicateJob (jn_value (jb_id j)) (nd_start previous))]
                | None \<Rightarrow> [])
            in (case declare_jobs
                   (al_put i \<lparr>nd_needs = needs, nd_start = jn_start (jb_id j)\<rparr> nodes) js of
                  (ns, gs) \<Rightarrow> (ns, fs @ ds @ gs)))"

definition needs_of :: "job_nodes \<Rightarrow> string \<Rightarrow> string list" where
  "needs_of nodes i = (case map_of nodes i of Some n \<Rightarrow> nd_needs n | None \<Rightarrow> [])"

definition start_of :: "job_nodes \<Rightarrow> string \<Rightarrow> diag_pos" where
  "start_of nodes i =
     (case map_of nodes i of Some n \<Rightarrow> nd_start n | None \<Rightarrow> \<lparr>dp_line = 0, dp_column = 0\<rparr>)"

definition unknown_jobs :: "job_nodes \<Rightarrow> needs_diag list" where
  "unknown_jobs nodes =
     concat (map (\<lambda>i.
       map (\<lambda>dep. needs_report (start_of nodes i) (UnknownJob i dep))
         (filter (\<lambda>dep. map_of nodes dep = None) (needs_of nodes i)))
       (sort (al_keys nodes)))"

subsection \<open>The search\<close>

datatype visit_state = Active | Done

record dfs =
  df_state :: "string \<rightharpoonup> visit_state"
  df_stack :: "string list"
  df_cycle :: "string list"

fun index_of :: "'a \<Rightarrow> 'a list \<Rightarrow> nat" where
  "index_of x [] = 0"
| "index_of x (y # ys) = (if x = y then 0 else Suc (index_of x ys))"

text \<open>\<open>visit\<close> and its loop over the needs; \<open>None\<close> when the fuel runs out.\<close>

fun visit_job :: "nat \<Rightarrow> (string \<Rightarrow> string list) \<Rightarrow> string \<Rightarrow> dfs \<Rightarrow> (bool \<times> dfs) option"
  and visit_needs :: "nat \<Rightarrow> (string \<Rightarrow> string list) \<Rightarrow> string list \<Rightarrow> dfs \<Rightarrow> (bool \<times> dfs) option"
where
  "visit_job 0 g i s = None"
| "visit_job (Suc n) g i s =
     (case visit_needs n g (g i)
             (s\<lparr>df_state := (df_state s)(i \<mapsto> Active), df_stack := df_stack s @ [i]\<rparr>) of
        None \<Rightarrow> None
      | Some (True, t) \<Rightarrow> Some (True, t)
      | Some (False, t) \<Rightarrow>
          Some (False, t\<lparr>df_stack := butlast (df_stack t), df_state := (df_state t)(i \<mapsto> Done)\<rparr>))"
| "visit_needs n g [] s = Some (False, s)"
| "visit_needs n g (dep # deps) s =
     (case df_state s dep of
        Some Active \<Rightarrow> Some (True, s\<lparr>df_cycle := drop (index_of dep (df_stack s)) (df_stack s)\<rparr>)
      | Some Done \<Rightarrow> visit_needs n g deps s
      | None \<Rightarrow>
          (case visit_job n g dep s of
             None \<Rightarrow> None
           | Some (True, t) \<Rightarrow> Some (True, t)
           | Some (False, t) \<Rightarrow> visit_needs n g deps t))"

text \<open>The loop over the jobs in the order of their names.\<close>

fun visit_jobs :: "nat \<Rightarrow> (string \<Rightarrow> string list) \<Rightarrow> string list \<Rightarrow> dfs \<Rightarrow> dfs option" where
  "visit_jobs n g [] s = Some s"
| "visit_jobs n g (i # is) s =
     (if df_state s i \<noteq> None then visit_jobs n g is s
      else (case visit_job n g i s of
          None \<Rightarrow> None
        | Some (True, t) \<Rightarrow> Some t
        | Some (False, t) \<Rightarrow> visit_jobs n g is t))"

definition dfs_init :: dfs where
  "dfs_init = \<lparr>df_state = Map.empty, df_stack = [], df_cycle = []\<rparr>"

definition find_cycle :: "job_nodes \<Rightarrow> string list option" where
  "find_cycle nodes =
     map_option df_cycle
       (visit_jobs (length nodes) (needs_of nodes) (sort (al_keys nodes)) dfs_init)"

subsection \<open>The report\<close>

text \<open>The position in the cycle of the job declared first.\<close>

fun first_declared :: "job_nodes \<Rightarrow> string list \<Rightarrow> nat \<Rightarrow> nat \<Rightarrow> string list \<Rightarrow> nat" where
  "first_declared nodes cycle best i [] = best"
| "first_declared nodes cycle best i (x # xs) =
     first_declared nodes cycle
       (if pos_before (start_of nodes x) (start_of nodes (cycle ! best)) then i else best)
       (Suc i) xs"

definition cycle_report :: "job_nodes \<Rightarrow> string list \<Rightarrow> needs_diag list" where
  "cycle_report nodes cycle =
     (if cycle = [] then []
      else (let first = first_declared nodes cycle 0 0 cycle;
                ordered = drop first cycle @ take first cycle
            in [needs_report (start_of nodes (hd ordered)) (CyclicNeeds (ordered @ [hd ordered]))]))"

definition check_needs :: "job list \<Rightarrow> needs_diag list" where
  "check_needs jobs =
     (case declare_jobs [] jobs of
        (nodes, fs) \<Rightarrow>
          let missing = unknown_jobs nodes in
          if missing \<noteq> [] then fs @ missing
          else (case find_cycle nodes of
              None \<Rightarrow> fs
            | Some cycle \<Rightarrow> fs @ cycle_report nodes cycle))"

end
