(* ===== verification/Job_Needs_Spec.thy ===== *)
theory Job_Needs_Spec
  imports Job_Needs
begin

text \<open>
  The search of \<open>Job_Needs\<close> finds a cycle exactly when the dependencies have one, what it
  reports is a cycle, and the fuel of one unit per job is enough.
\<close>

subsection \<open>Walks\<close>

definition edges :: "('a \<Rightarrow> 'a list) \<Rightarrow> ('a \<times> 'a) set" where
  "edges g = {(u, v). v \<in> set (g u)}"

text \<open>Each element of the list needs the next one.\<close>

fun walk :: "('a \<Rightarrow> 'a list) \<Rightarrow> 'a list \<Rightarrow> bool" where
  "walk g (u # v # w) \<longleftrightarrow> v \<in> set (g u) \<and> walk g (v # w)"
| "walk g _ \<longleftrightarrow> True"

lemma walk_append:
  "walk g (xs @ ys) \<longleftrightarrow> walk g xs \<and> walk g ys \<and> (xs \<noteq> [] \<and> ys \<noteq> [] \<longrightarrow> hd ys \<in> set (g (last xs)))"
  by (induction g xs rule: walk.induct) (auto, (cases ys; auto)+)

lemma walk_drop: "walk g xs \<Longrightarrow> walk g (drop n xs)"
  by (metis append_take_drop_id walk_append)

lemma walk_trancl: "walk g (u # xs) \<Longrightarrow> xs \<noteq> [] \<Longrightarrow> (u, last xs) \<in> (edges g)\<^sup>+"
proof (induction xs arbitrary: u)
  case (Cons v xs)
  then have e: "(u, v) \<in> edges g" by (simp add: edges_def)
  show ?case
  proof (cases "xs = []")
    case True
    then show ?thesis using e by simp
  next
    case False
    then have "(v, last xs) \<in> (edges g)\<^sup>+" using Cons by simp
    then show ?thesis using e False by (simp add: trancl_into_trancl2)
  qed
qed simp

definition closed_walk :: "('a \<Rightarrow> 'a list) \<Rightarrow> 'a list \<Rightarrow> bool" where
  "closed_walk g c \<longleftrightarrow> c \<noteq> [] \<and> distinct c \<and> walk g (c @ [hd c])"

lemma closed_walk_trancl: "closed_walk g c \<Longrightarrow> (hd c, hd c) \<in> (edges g)\<^sup>+"
  using walk_trancl [of g "hd c" "tl c @ [hd c]"] by (cases c) (auto simp: closed_walk_def)

lemma closed_walk_rotate:
  "closed_walk g c \<Longrightarrow> closed_walk g (drop n c @ take n c)"
proof (cases "n < length c \<and> n \<noteq> 0")
  case True
  assume c: "closed_walk g c"
  define a b where "a = take n c" and "b = drop n c"
  have ab: "c = a @ b" "a \<noteq> []" "b \<noteq> []" using True by (auto simp: a_def b_def)
  have "walk g ((a @ b) @ [hd a])" using c ab by (simp add: closed_walk_def)
  then have "walk g a" "walk g b" "hd b \<in> set (g (last a))" "hd a \<in> set (g (last b))"
    using ab by (auto simp: walk_append)
  then have "walk g ((b @ a) @ [hd b])" using ab by (simp only: walk_append) auto
  moreover have "distinct (b @ a)" using c ab by (auto simp: closed_walk_def)
  ultimately have "closed_walk g (b @ a)" using ab by (simp add: closed_walk_def)
  then show ?thesis by (simp add: a_def b_def)
next
  case False
  assume "closed_walk g c"
  with False show ?thesis by auto
qed

lemma index_of_less: "x \<in> set xs \<Longrightarrow> index_of x xs < length xs \<and> xs ! index_of x xs = x"
  by (induction xs) auto

subsection \<open>The search\<close>

definition done_jobs :: "dfs \<Rightarrow> string set" where
  "done_jobs s = {i. df_state s i = Some Done}"

definition active_jobs :: "dfs \<Rightarrow> string set" where
  "active_jobs s = {i. df_state s i = Some Active}"

text \<open>
  The active jobs are the stack, a walk; the jobs that are done only need jobs that are done
  and are on no cycle.
\<close>

definition dfs_inv :: "(string \<Rightarrow> string list) \<Rightarrow> dfs \<Rightarrow> bool" where
  "dfs_inv g s \<longleftrightarrow>
     distinct (df_stack s) \<and> set (df_stack s) = active_jobs s \<and> walk g (df_stack s)
     \<and> (\<forall>u \<in> done_jobs s. set (g u) \<subseteq> done_jobs s \<and> (u, u) \<notin> (edges g)\<^sup>+)
     \<and> df_cycle s = []"

definition finds_cycle :: "(string \<Rightarrow> string list) \<Rightarrow> dfs \<Rightarrow> bool" where
  "finds_cycle g s \<longleftrightarrow> closed_walk g (df_cycle s)"

definition goes_on :: "(string \<Rightarrow> string list) \<Rightarrow> dfs \<Rightarrow> dfs \<Rightarrow> bool" where
  "goes_on g s t \<longleftrightarrow>
     dfs_inv g t \<and> df_stack t = df_stack s \<and> done_jobs s \<subseteq> done_jobs t
     \<and> active_jobs t = active_jobs s"

lemma goes_on_trans: "goes_on g s t \<Longrightarrow> goes_on g t u \<Longrightarrow> goes_on g s u"
  by (auto simp: goes_on_def)

lemma closed_set_trancl:
  assumes "(u, v) \<in> (edges g)\<^sup>+" and "u \<in> D" and "\<And>x. x \<in> D \<Longrightarrow> set (g x) \<subseteq> D"
  shows "v \<in> D"
  using assms by (induction rule: trancl_induct) (auto simp: edges_def)

lemma back_edge_cycle:
  assumes "dfs_inv g s" and "df_stack s \<noteq> []" and "dep \<in> set (g (last (df_stack s)))"
    and "df_state s dep = Some Active"
  shows "closed_walk g (drop (index_of dep (df_stack s)) (df_stack s))"
proof -
  let ?st = "df_stack s" and ?k = "index_of dep (df_stack s)"
  have "dep \<in> set ?st" using assms(1,4) by (simp add: dfs_inv_def active_jobs_def)
  then have k: "?k < length ?st" "?st ! ?k = dep" using index_of_less [of dep ?st] by auto
  then have ne: "drop ?k ?st \<noteq> []" and hd: "hd (drop ?k ?st) = dep"
    by (simp_all add: hd_drop_conv_nth)
  have "walk g (drop ?k ?st)" "distinct (drop ?k ?st)"
    using assms(1) walk_drop by (auto simp: dfs_inv_def)
  moreover have "last (drop ?k ?st) = last ?st" using k by simp
  ultimately show ?thesis using ne hd assms(3) by (simp add: closed_walk_def walk_append)
qed

lemma enter_job:
  assumes "dfs_inv g s" and "df_state s i = None" and "df_stack s \<noteq> [] \<Longrightarrow> i \<in> set (g (last (df_stack s)))"
  shows "dfs_inv g (s\<lparr>df_state := (df_state s)(i \<mapsto> Active), df_stack := df_stack s @ [i]\<rparr>)"
proof -
  let ?t = "s\<lparr>df_state := (df_state s)(i \<mapsto> Active), df_stack := df_stack s @ [i]\<rparr>"
  have "i \<notin> active_jobs s" "done_jobs ?t = done_jobs s" "active_jobs ?t = insert i (active_jobs s)"
    using assms(2) by (auto simp: active_jobs_def done_jobs_def)
  then show ?thesis using assms(1,3) by (auto simp: dfs_inv_def walk_append)
qed

lemma leave_job:
  assumes "dfs_inv g t" and "df_stack t = st @ [i]" and "set (g i) \<subseteq> done_jobs t"
  shows "dfs_inv g (t\<lparr>df_stack := st, df_state := (df_state t)(i \<mapsto> Done)\<rparr>)"
proof -
  let ?u = "t\<lparr>df_stack := st, df_state := (df_state t)(i \<mapsto> Done)\<rparr>"
  have i: "i \<in> active_jobs t" "i \<notin> set st"
    using assms(1,2) by (auto simp: dfs_inv_def)
  then have "i \<notin> done_jobs t" by (auto simp: active_jobs_def done_jobs_def)
  have d: "done_jobs ?u = insert i (done_jobs t)" and "active_jobs ?u = active_jobs t - {i}"
    by (auto simp: active_jobs_def done_jobs_def)
  have "(i, i) \<notin> (edges g)\<^sup>+"
  proof
    assume "(i, i) \<in> (edges g)\<^sup>+"
    then obtain v where v: "(i, v) \<in> edges g" and "(v, i) \<in> (edges g)\<^sup>*" by (meson tranclD)
    then have "v \<in> done_jobs t" using assms(3) by (auto simp: edges_def)
    then have "i \<in> done_jobs t"
      using \<open>(v, i) \<in> (edges g)\<^sup>*\<close> closed_set_trancl [of v i g "done_jobs t"] assms(1)
      by (auto simp: dfs_inv_def rtrancl_eq_or_trancl)
    then show False using \<open>i \<notin> done_jobs t\<close> by simp
  qed
  then show ?thesis
    using assms i d \<open>active_jobs ?u = _\<close> by (auto simp: dfs_inv_def walk_append)
qed

lemma search_spec:
  "visit_job n g i s = Some (b, t) \<Longrightarrow> dfs_inv g s \<Longrightarrow> df_state s i = None \<Longrightarrow>
     (df_stack s \<noteq> [] \<Longrightarrow> i \<in> set (g (last (df_stack s)))) \<Longrightarrow>
     (if b then finds_cycle g t else goes_on g s t \<and> i \<in> done_jobs t)"
  "visit_needs n g deps s = Some (b, t) \<Longrightarrow> dfs_inv g s \<Longrightarrow> df_stack s \<noteq> [] \<Longrightarrow>
     set deps \<subseteq> set (g (last (df_stack s))) \<Longrightarrow>
     (if b then finds_cycle g t else goes_on g s t \<and> set deps \<subseteq> done_jobs t)"
proof (induction n g i s and n g deps s arbitrary: b t and b t rule: visit_job_visit_needs.induct)
  case (1 g i s)
  then show ?case by simp
next
  case (2 n g i s)
  let ?s = "s\<lparr>df_state := (df_state s)(i \<mapsto> Active), df_stack := df_stack s @ [i]\<rparr>"
  obtain b' t' where v: "visit_needs n g (g i) ?s = Some (b', t')"
    using 2(2) by (auto split: option.splits)
  have inv: "dfs_inv g ?s" by (rule enter_job [OF 2(3,4,5)])
  have spec: "if b' then finds_cycle g t' else goes_on g ?s t' \<and> set (g i) \<subseteq> done_jobs t'"
    using 2(1) [OF v inv] by simp
  show ?case
  proof (cases b')
    case True
    then show ?thesis using 2(2) v spec by simp
  next
    case False
    then have go: "goes_on g ?s t'" "set (g i) \<subseteq> done_jobs t'" using spec by simp_all
    let ?u = "t'\<lparr>df_stack := df_stack s, df_state := (df_state t')(i \<mapsto> Done)\<rparr>"
    have t: "t = ?u" "\<not> b" using 2(2) v False go by (simp_all add: goes_on_def)
    have "dfs_inv g ?u" using leave_job [of g t' "df_stack s" i] go by (simp add: goes_on_def)
    moreover have "done_jobs ?s = done_jobs s" "active_jobs ?s = insert i (active_jobs s)"
      using 2(4) by (auto simp: done_jobs_def active_jobs_def)
    then have "done_jobs s \<subseteq> done_jobs t'" "active_jobs t' = insert i (active_jobs s)"
      using go(1) by (simp_all add: goes_on_def)
    moreover have "i \<notin> active_jobs s" using 2(4) by (simp add: active_jobs_def)
    moreover have "done_jobs ?u = insert i (done_jobs t')" "active_jobs ?u = active_jobs t' - {i}"
      by (auto simp: done_jobs_def active_jobs_def)
    ultimately show ?thesis using t by (auto simp: goes_on_def)
  qed
next
  case (3 n g s)
  then show ?case by (simp add: goes_on_def)
next
  case (4 n g dep deps s)
  show ?case
  proof (cases "df_state s dep")
    case None
    obtain b' t' where v: "visit_job n g dep s = Some (b', t')"
      using 4(4) None by (auto split: option.splits)
    have spec: "if b' then finds_cycle g t' else goes_on g s t' \<and> dep \<in> done_jobs t'"
      using 4(1) [OF None v 4(5) None] 4(7) by simp
    show ?thesis
    proof (cases b')
      case True
      then show ?thesis using 4(4) None v spec by simp
    next
      case False
      then have go: "goes_on g s t'" "dep \<in> done_jobs t'"
        and rest: "visit_needs n g deps t' = Some (b, t)"
        using 4(4) None v spec by simp_all
      have "if b then finds_cycle g t else goes_on g t' t \<and> set deps \<subseteq> done_jobs t"
        by (rule 4(2) [OF None v refl]) (use False go rest 4(6,7) in \<open>auto simp: goes_on_def\<close>)
      then show ?thesis using go(2) goes_on_trans [OF go(1), of t] by (auto simp: goes_on_def)
    qed
  next
    case (Some st)
    show ?thesis
    proof (cases st)
      case Active
      have "closed_walk g (drop (index_of dep (df_stack s)) (df_stack s))"
        using back_edge_cycle [OF 4(5,6)] 4(7) Some Active by simp
      then show ?thesis using 4(4) Some Active by (auto simp: finds_cycle_def)
    next
      case Done
      then have "visit_needs n g deps s = Some (b, t)" using 4(4) Some by simp
      then have "if b then finds_cycle g t else goes_on g s t \<and> set deps \<subseteq> done_jobs t"
        using 4(3) [OF Some Done _ 4(5,6)] 4(7) by simp
      moreover have "dep \<in> done_jobs s" using Some Done by (simp add: done_jobs_def)
      ultimately show ?thesis by (auto simp: goes_on_def)
    qed
  qed
qed

subsection \<open>One unit of fuel per job\<close>

definition unvisited :: "string set \<Rightarrow> dfs \<Rightarrow> string set" where
  "unvisited K s = {i \<in> K. df_state s i = None}"

lemma search_fuel:
  "finite K \<Longrightarrow> (\<And>u. u \<in> K \<Longrightarrow> set (g u) \<subseteq> K) \<Longrightarrow> card (unvisited K s) \<le> n \<Longrightarrow> i \<in> unvisited K s \<Longrightarrow>
     \<exists>b t. visit_job n g i s = Some (b, t) \<and> (\<not> b \<longrightarrow> unvisited K t \<subseteq> unvisited K s)"
  "finite K \<Longrightarrow> (\<And>u. u \<in> K \<Longrightarrow> set (g u) \<subseteq> K) \<Longrightarrow> card (unvisited K s) \<le> n \<Longrightarrow> set deps \<subseteq> K \<Longrightarrow>
     \<exists>b t. visit_needs n g deps s = Some (b, t) \<and> (\<not> b \<longrightarrow> unvisited K t \<subseteq> unvisited K s)"
proof (induction n g i s and n g deps s rule: visit_job_visit_needs.induct)
  case (1 g i s)
  then have "finite (unvisited K s)" by (simp add: unvisited_def)
  then show ?case using 1 by auto
next
  case (2 n g i s)
  let ?s = "s\<lparr>df_state := (df_state s)(i \<mapsto> Active), df_stack := df_stack s @ [i]\<rparr>"
  have fin: "finite (unvisited K s)" using 2(2) by (simp add: unvisited_def)
  have un: "unvisited K ?s = unvisited K s - {i}" by (auto simp: unvisited_def)
  then have "card (unvisited K ?s) \<le> n" using 2(4,5) fin by simp
  moreover have "set (g i) \<subseteq> K" using 2(3,5) by (simp add: unvisited_def)
  ultimately obtain b t where "visit_needs n g (g i) ?s = Some (b, t)"
    and "\<not> b \<longrightarrow> unvisited K t \<subseteq> unvisited K ?s"
    using 2(1) [OF 2(2,3)] by blast
  then show ?case using un by (cases b) (auto simp: unvisited_def)
next
  case (3 n g s)
  then show ?case by auto
next
  case (4 n g dep deps s)
  show ?case
  proof (cases "df_state s dep")
    case None
    then have "dep \<in> unvisited K s" using 4(7) by (simp add: unvisited_def)
    then obtain b t where v: "visit_job n g dep s = Some (b, t)"
      and le: "\<not> b \<longrightarrow> unvisited K t \<subseteq> unvisited K s"
      using 4(1) [OF None 4(4,5,6)] by blast
    show ?thesis
    proof (cases b)
      case True
      then show ?thesis using None v by auto
    next
      case False
      have "finite (unvisited K s)" using 4(4) by (simp add: unvisited_def)
      then have "card (unvisited K t) \<le> n"
        using le False 4(6) card_mono [of "unvisited K s" "unvisited K t"] by simp
      then have "\<exists>b u. visit_needs n g deps t = Some (b, u) \<and> (\<not> b \<longrightarrow> unvisited K u \<subseteq> unvisited K t)"
        by - (rule 4(2) [OF None v refl], use False 4(4,5,7) in auto)
      then show ?thesis using None v False le by auto
    qed
  next
    case (Some st)
    then show ?thesis using 4 by (cases st) auto
  qed
qed

lemma jobs_fuel:
  assumes "finite K" and "\<And>u. u \<in> K \<Longrightarrow> set (g u) \<subseteq> K"
  shows "card (unvisited K s) \<le> n \<Longrightarrow> set is \<subseteq> K \<Longrightarrow> visit_jobs n g is s \<noteq> None"
proof (induction "is" arbitrary: s)
  case (Cons i "is")
  show ?case
  proof (cases "df_state s i = None")
    case True
    then have "i \<in> unvisited K s" using Cons.prems by (simp add: unvisited_def)
    then obtain b t where v: "visit_job n g i s = Some (b, t)"
      and le: "\<not> b \<longrightarrow> unvisited K t \<subseteq> unvisited K s"
      using search_fuel(1) [where g = g, OF assms Cons.prems(1)] by blast
    have "finite (unvisited K s)" using assms(1) by (simp add: unvisited_def)
    then have "\<not> b \<Longrightarrow> card (unvisited K t) \<le> n"
      using le Cons.prems(1) card_mono [of "unvisited K s" "unvisited K t"] by simp
    then show ?thesis using True v Cons by (cases b) auto
  next
    case False
    then show ?thesis using Cons by auto
  qed
qed simp

lemma jobs_spec:
  "visit_jobs n g is s = Some t \<Longrightarrow> dfs_inv g s \<Longrightarrow> df_stack s = [] \<Longrightarrow>
     closed_walk g (df_cycle t)
     \<or> df_cycle t = [] \<and> dfs_inv g t \<and> set is \<union> done_jobs s \<subseteq> done_jobs t"
proof (induction "is" arbitrary: s)
  case Nil
  then show ?case by (auto simp: dfs_inv_def)
next
  case (Cons i "is")
  show ?case
  proof (cases "df_state s i")
    case None
    obtain b u where v: "visit_job n g i s = Some (b, u)"
      using Cons.prems(1) None by (auto split: option.splits)
    have spec: "if b then finds_cycle g u else goes_on g s u \<and> i \<in> done_jobs u"
      using search_spec(1) [OF v Cons.prems(2) None] Cons.prems(3) by simp
    show ?thesis
    proof (cases b)
      case True
      then show ?thesis using Cons.prems(1) None v spec by (simp add: finds_cycle_def)
    next
      case False
      then have go: "goes_on g s u" "i \<in> done_jobs u" and "visit_jobs n g is u = Some t"
        using Cons.prems(1) None v spec by simp_all
      then have "closed_walk g (df_cycle t)
          \<or> df_cycle t = [] \<and> dfs_inv g t \<and> set is \<union> done_jobs u \<subseteq> done_jobs t"
        using Cons.IH [of u] Cons.prems(3) by (simp add: goes_on_def)
      then show ?thesis using go by (auto simp: goes_on_def)
    qed
  next
    case (Some st)
    have "active_jobs s = {}" using Cons.prems(2,3) by (auto simp: dfs_inv_def)
    then have "i \<in> done_jobs s" using Some by (cases st) (auto simp: active_jobs_def done_jobs_def)
    then show ?thesis using Cons Some by auto
  qed
qed

lemma unknown_jobs_Nil:
  assumes "unknown_jobs nodes = []" and "u \<in> set (al_keys nodes)"
  shows "set (needs_of nodes u) \<subseteq> set (al_keys nodes)"
proof
  fix v
  assume "v \<in> set (needs_of nodes u)"
  moreover have "filter (\<lambda>dep. map_of nodes dep = None) (needs_of nodes u) = []"
    using assms by (simp add: unknown_jobs_def)
  ultimately have "map_of nodes v \<noteq> None" by (auto simp: filter_empty_conv)
  then show "v \<in> set (al_keys nodes)" by (simp add: al_keys_def map_of_eq_None_iff)
qed

lemma needs_key:
  assumes "v \<in> set (needs_of nodes u)"
  shows "u \<in> set (al_keys nodes)"
proof -
  have "map_of nodes u \<noteq> None" using assms by (cases "map_of nodes u") (simp_all add: needs_of_def)
  then show ?thesis by (simp add: al_keys_def map_of_eq_None_iff)
qed

lemma all_done_acyclic:
  assumes "dfs_inv (needs_of nodes) t" and "set (al_keys nodes) \<subseteq> done_jobs t"
  shows "acyclic (edges (needs_of nodes))"
proof (rule acyclicI, rule allI, rule notI)
  fix x
  assume x: "(x, x) \<in> (edges (needs_of nodes))\<^sup>+"
  then obtain y where "(x, y) \<in> edges (needs_of nodes)" by (meson tranclD)
  then have "x \<in> set (al_keys nodes)" using needs_key by (auto simp: edges_def)
  then show False using assms x by (auto simp: dfs_inv_def)
qed

lemma dfs_init_inv: "dfs_inv g dfs_init"
  by (simp add: dfs_inv_def dfs_init_def active_jobs_def done_jobs_def)

lemma find_cycle_spec:
  assumes "unknown_jobs nodes = []"
  shows "\<exists>c. find_cycle nodes = Some c \<and>
     (if c = [] then acyclic (edges (needs_of nodes)) else closed_walk (needs_of nodes) c)"
proof -
  let ?g = "needs_of nodes" and ?K = "set (al_keys nodes)"
  have "unvisited ?K dfs_init = ?K" by (simp add: unvisited_def dfs_init_def)
  then have "card (unvisited ?K dfs_init) \<le> length nodes"
    using card_length [of "al_keys nodes"] by (simp add: al_keys_def)
  then have "visit_jobs (length nodes) ?g (sort (al_keys nodes)) dfs_init \<noteq> None"
    using jobs_fuel [of ?K ?g dfs_init "length nodes" "sort (al_keys nodes)"]
      unknown_jobs_Nil [OF assms] by simp
  then obtain t where t: "visit_jobs (length nodes) ?g (sort (al_keys nodes)) dfs_init = Some t"
    by blast
  have "df_stack dfs_init = []" by (simp add: dfs_init_def)
  from jobs_spec [OF t dfs_init_inv this]
  have "closed_walk ?g (df_cycle t) \<or> df_cycle t = [] \<and> acyclic (edges ?g)"
    using all_done_acyclic [of nodes t] by auto
  then show ?thesis using t by (auto simp: find_cycle_def closed_walk_def)
qed

subsection \<open>Reports\<close>

lemma collect_needs_quiet:
  "collect_needs ns deps = (ns', fs) \<Longrightarrow> d \<in> set fs \<Longrightarrow> dg_message d \<noteq> CyclicNeeds c"
  by (induction ns deps arbitrary: ns' fs rule: collect_needs.induct)
    (fastforce simp: Let_def needs_report_def split: if_splits prod.splits)+

lemma declare_jobs_quiet:
  "declare_jobs nodes jobs = (ns, fs) \<Longrightarrow> d \<in> set fs \<Longrightarrow> dg_message d \<noteq> CyclicNeeds c"
proof (induction nodes jobs arbitrary: ns fs rule: declare_jobs.induct)
  case (2 nodes j js)
  obtain needs es where e: "collect_needs [] (jb_needs j) = (needs, es)"
    by (cases "collect_needs [] (jb_needs j)")
  let ?i = "to_lower (jn_value (jb_id j))"
  show ?case
  proof (cases "?i = []")
    case True
    then obtain ms gs where "declare_jobs nodes js = (ms, gs)" "fs = es @ gs"
      using 2(3) e by (auto simp: Let_def split: prod.splits)
    then show ?thesis using 2(1) [OF e [symmetric]] 2(4) True collect_needs_quiet [OF e] by auto
  next
    case False
    then obtain ms gs ds
      where "declare_jobs (al_put ?i \<lparr>nd_needs = needs, nd_start = jn_start (jb_id j)\<rparr> nodes) js = (ms, gs)"
        and "fs = es @ ds @ gs" and "\<forall>d \<in> set ds. dg_message d \<noteq> CyclicNeeds c"
      using 2(3) e by (auto simp: Let_def needs_report_def split: prod.splits option.splits)
    then show ?thesis
      using 2(2) [OF e [symmetric] refl] 2(4) False collect_needs_quiet [OF e] by auto
  qed
qed simp

lemma first_declared_spec:
  "cycle = pre @ xs \<Longrightarrow> i = length pre \<Longrightarrow> best < length cycle \<Longrightarrow>
     \<forall>x \<in> set pre. \<not> pos_before (start_of nodes x) (start_of nodes (cycle ! best)) \<Longrightarrow>
     (let f = first_declared nodes cycle best i xs in
      f < length cycle \<and> (\<forall>x \<in> set cycle. \<not> pos_before (start_of nodes x) (start_of nodes (cycle ! f))))"
proof (induction xs arbitrary: pre i best)
  case (Cons x xs)
  define best' where
    "best' = (if pos_before (start_of nodes x) (start_of nodes (cycle ! best)) then i else best)"
  have x: "cycle ! i = x" "i < length cycle" using Cons.prems(1,2) by simp_all
  then have len: "best' < length cycle" using Cons.prems(3) by (simp add: best'_def)
  have min: "\<forall>y \<in> set (pre @ [x]). \<not> pos_before (start_of nodes y) (start_of nodes (cycle ! best'))"
  proof (cases "pos_before (start_of nodes x) (start_of nodes (cycle ! best))")
    case True
    then have "\<not> pos_before (start_of nodes y) (start_of nodes x)" if "y \<in> set pre" for y
      using that Cons.prems(4) pos_before_trans by blast
    then show ?thesis using True x by (simp add: best'_def)
  next
    case False
    then show ?thesis using Cons.prems(4) by (simp add: best'_def)
  qed
  have "let f = first_declared nodes cycle best' (Suc i) xs in
      f < length cycle \<and> (\<forall>x \<in> set cycle. \<not> pos_before (start_of nodes x) (start_of nodes (cycle ! f)))"
    by (rule Cons.IH [OF _ _ len min]) (use Cons.prems(1,2) in simp_all)
  then show ?case by (simp only: first_declared.simps best'_def)
qed simp

lemma cycle_report_spec:
  assumes "closed_walk (needs_of nodes) cycle" and "d \<in> set (cycle_report nodes cycle)"
  shows "\<exists>c. dg_message d = CyclicNeeds (c @ [hd c]) \<and> closed_walk (needs_of nodes) c
    \<and> dg_start d = start_of nodes (hd c)
    \<and> (\<forall>j \<in> set c. \<not> pos_before (start_of nodes j) (start_of nodes (hd c)))"
proof -
  let ?f = "first_declared nodes cycle 0 0 cycle"
  have ne: "cycle \<noteq> []" using assms(1) by (simp add: closed_walk_def)
  have f: "?f < length cycle"
    and min: "\<forall>x \<in> set cycle. \<not> pos_before (start_of nodes x) (start_of nodes (cycle ! ?f))"
    using first_declared_spec [of cycle "[]" cycle 0 0 nodes] ne by (auto simp: Let_def)
  let ?c = "drop ?f cycle @ take ?f cycle"
  have "hd ?c = cycle ! ?f" using f by (simp add: hd_drop_conv_nth)
  moreover have "set ?c = set cycle" by (metis Un_commute append_take_drop_id set_append)
  moreover have "closed_walk (needs_of nodes) ?c" using assms(1) by (rule closed_walk_rotate)
  ultimately show ?thesis
    using assms(2) ne min by (intro exI [of _ ?c]) (simp add: cycle_report_def needs_report_def Let_def)
qed

subsection \<open>Theorems\<close>

definition job_graph :: "job list \<Rightarrow> job_nodes" where
  "job_graph jobs = fst (declare_jobs [] jobs)"

lemma cyclic_finding:
  assumes "d \<in> set (check_needs jobs)" and "dg_message d = CyclicNeeds c"
  shows "unknown_jobs (job_graph jobs) = []
    \<and> (\<exists>cycle. find_cycle (job_graph jobs) = Some cycle \<and> d \<in> set (cycle_report (job_graph jobs) cycle))"
proof -
  obtain nodes fs where n: "declare_jobs [] jobs = (nodes, fs)" by (cases "declare_jobs [] jobs")
  have "d \<notin> set fs" using declare_jobs_quiet [OF n] assms(2) by blast
  moreover have "d \<notin> set (unknown_jobs nodes)"
    using assms(2) by (auto simp: unknown_jobs_def needs_report_def)
  ultimately show ?thesis
    using assms(1) n by (auto simp: check_needs_def job_graph_def Let_def split: if_splits option.splits)
qed

text \<open>
  (C9) Cyclic dependencies are found exactly when there are any: once every needed job exists,
  \<open>Check\<close> reports a cycle if and only if the relation "needs" between the jobs is not acyclic.
\<close>

theorem needs_cycle_iff:
  assumes "unknown_jobs (job_graph jobs) = []"
  shows "(\<exists>d \<in> set (check_needs jobs). \<exists>c. dg_message d = CyclicNeeds c)
    \<longleftrightarrow> \<not> acyclic (edges (needs_of (job_graph jobs)))"
proof -
  let ?nodes = "job_graph jobs"
  obtain cycle where c: "find_cycle ?nodes = Some cycle"
    and spec: "if cycle = [] then acyclic (edges (needs_of ?nodes)) else closed_walk (needs_of ?nodes) cycle"
    using find_cycle_spec [OF assms] by blast
  show ?thesis
  proof (cases "cycle = []")
    case True
    have False if "d \<in> set (check_needs jobs)" "dg_message d = CyclicNeeds x" for d x
      using cyclic_finding [OF that] c True by (simp add: cycle_report_def)
    then show ?thesis using spec True by auto
  next
    case False
    then have walk: "closed_walk (needs_of ?nodes) cycle" using spec by simp
    have "\<not> acyclic (edges (needs_of ?nodes))"
      using closed_walk_trancl [OF walk] by (auto simp: acyclic_def)
    moreover obtain d where d: "cycle_report ?nodes cycle = [d]"
      using False by (simp add: cycle_report_def Let_def)
    then have "d \<in> set (check_needs jobs)"
      using assms c by (cases "declare_jobs [] jobs") (simp add: check_needs_def job_graph_def)
    moreover have "\<exists>c. dg_message d = CyclicNeeds c" using cycle_report_spec [OF walk] d by fastforce
    ultimately show ?thesis by blast
  qed
qed

theorem needs_cycle_iff_witness:
  "let at = (\<lambda>l. \<lparr>dp_line = l, dp_column = 3\<rparr>); name = (\<lambda>s l. \<lparr>jn_value = s, jn_start = at l\<rparr>);
       jobs = [\<lparr>jb_id = name ''a'' 1, jb_needs = [name ''B'' 2]\<rparr>,
               \<lparr>jb_id = name ''b'' 3, jb_needs = [name ''a'' 4]\<rparr>] in
   unknown_jobs (job_graph jobs) = [] \<and> \<not> acyclic (edges (needs_of (job_graph jobs)))"
proof -
  let ?at = "\<lambda>l. \<lparr>dp_line = l, dp_column = 3\<rparr>"
  let ?name = "\<lambda>s l. \<lparr>jn_value = s, jn_start = ?at l\<rparr>"
  let ?jobs = "[\<lparr>jb_id = ?name ''a'' 1, jb_needs = [?name ''B'' 2]\<rparr>,
               \<lparr>jb_id = ?name ''b'' 3, jb_needs = [?name ''a'' 4]\<rparr>]"
  have known: "unknown_jobs (job_graph ?jobs) = []" by code_simp
  have "map dg_message (check_needs ?jobs) = [CyclicNeeds [''a'', ''b'', ''a'']]" by code_simp
  then have "\<exists>d \<in> set (check_needs ?jobs). \<exists>c. dg_message d = CyclicNeeds c" by auto
  then show ?thesis using known needs_cycle_iff [OF known] by (simp add: Let_def)
qed

text \<open>
  (C20) A reported cycle is one: it lists distinct jobs, each needing the next and the last the
  first, starts with the job declared first among them and is reported at that job.
\<close>

theorem reported_cycle_real:
  assumes "d \<in> set (check_needs jobs)" and "dg_message d = CyclicNeeds names"
  shows "\<exists>c. names = c @ [hd c] \<and> closed_walk (needs_of (job_graph jobs)) c
    \<and> dg_start d = start_of (job_graph jobs) (hd c)
    \<and> (\<forall>j \<in> set c. \<not> pos_before (start_of (job_graph jobs) j) (start_of (job_graph jobs) (hd c)))"
proof -
  let ?nodes = "job_graph jobs"
  obtain cycle where known: "unknown_jobs ?nodes = []" and c: "find_cycle ?nodes = Some cycle"
    and d: "d \<in> set (cycle_report ?nodes cycle)"
    using cyclic_finding [OF assms] by blast
  then have "closed_walk (needs_of ?nodes) cycle"
    using find_cycle_spec [OF known] by (cases "cycle = []") (auto simp: cycle_report_def)
  from cycle_report_spec [OF this d] show ?thesis using assms(2) by auto
qed

theorem reported_cycle_real_witness:
  "let job = \<lparr>jb_id = \<lparr>jn_value = ''a'', jn_start = \<lparr>dp_line = 1, dp_column = 3\<rparr>\<rparr>,
              jb_needs = [\<lparr>jn_value = ''A'', jn_start = \<lparr>dp_line = 2, dp_column = 5\<rparr>\<rparr>]\<rparr> in
   closed_walk (needs_of (job_graph [job])) [''a'']"
proof -
  let ?job = "\<lparr>jb_id = \<lparr>jn_value = ''a'', jn_start = \<lparr>dp_line = 1, dp_column = 3\<rparr>\<rparr>,
              jb_needs = [\<lparr>jn_value = ''A'', jn_start = \<lparr>dp_line = 2, dp_column = 5\<rparr>\<rparr>]\<rparr>"
  let ?d = "\<lparr>dg_rule = ''job-needs'', dg_start = \<lparr>dp_line = 1, dp_column = 3\<rparr>,
             dg_message = CyclicNeeds [''a'', ''a'']\<rparr>"
  have "check_needs [?job] = [?d]" by code_simp
  then have "?d \<in> set (check_needs [?job])" "dg_message ?d = CyclicNeeds [''a'', ''a'']" by simp_all
  from reported_cycle_real [OF this] show ?thesis
    by (auto simp: Let_def append_eq_Cons_conv)
qed

end
