(* ===== verification/Glob.thy ===== *)
theory Glob
  imports Rune_Scanner
begin

text \<open>
  Filter patterns (\<open>internal/semantics/glob/glob.go\<close>): the validator reads a pattern rune by
  rune with \<open>text/scanner\<close> and collects errors. A method of \<open>globValidator\<close> takes the validator
  and returns it; errors are appended to \<open>gv_errs\<close>.
\<close>

subsection \<open>The validator\<close>

datatype glob_why = Why string | WhyRange rune rune

datatype glob_msg =
    GlobUnexpected rune string glob_why
  | GlobRefChar rune string
  | GlobScan scan_err
  | GlobEmpty
  | GlobSpaces
  | GlobDots

record InvalidGlobPatternError =
  ge_message :: glob_msg
  ge_column :: nat

record glob_validator =
  gv_isRef :: bool
  gv_prec :: bool
  gv_errs :: "InvalidGlobPatternError list"
  gv_scan :: scanner

definition glob_error :: "glob_msg \<Rightarrow> glob_validator \<Rightarrow> glob_validator" where
  "glob_error m v =
     (let c = (if 1 < sc_line (gv_scan v) then 0 else sc_col (gv_scan v) - 1) in
      v\<lparr>gv_errs := gv_errs v @ [\<lparr>ge_message = m, ge_column = c\<rparr>]\<rparr>)"

definition glob_unexpected :: "rune \<Rightarrow> string \<Rightarrow> glob_why \<Rightarrow> glob_validator \<Rightarrow> glob_validator" where
  "glob_unexpected r what why = glob_error (GlobUnexpected r what why)"

definition invalidRefChar :: "rune \<Rightarrow> string \<Rightarrow> glob_validator \<Rightarrow> glob_validator" where
  "invalidRefChar r why = glob_error (GlobRefChar r why)"

text \<open>The scanner with its error callback.\<close>

definition glob_set :: "scanner \<Rightarrow> glob_validator \<Rightarrow> glob_validator" where
  "glob_set s v =
     (case sc_err s of
        None \<Rightarrow> v\<lparr>gv_scan := s\<rparr>
      | Some e \<Rightarrow> glob_error (GlobScan e) (v\<lparr>gv_scan := s\<rparr>))"

definition glob_load :: "glob_validator \<Rightarrow> glob_validator" where
  "glob_load v = (if sc_loaded (gv_scan v) then v else glob_set (sc_load (gv_scan v)) v)"

definition glob_peek :: "glob_validator \<Rightarrow> rune" where
  "glob_peek v = sc_ch (gv_scan v)"

definition glob_advance :: "glob_validator \<Rightarrow> glob_validator" where
  "glob_advance v =
     (if glob_peek v = rune_EOF then v else glob_set (sc_advance (gv_scan v)) v)"

definition glob_next :: "glob_validator \<Rightarrow> rune \<times> glob_validator" where
  "glob_next v = (glob_peek v, glob_advance v)"

definition glob_left :: "glob_validator \<Rightarrow> nat" where
  "glob_left v = length (sc_rest (gv_scan v))"

lemma glob_error_scan [simp]: "gv_scan (glob_error m v) = gv_scan v"
  by (simp add: glob_error_def Let_def)

lemma glob_set_scan [simp]: "gv_scan (glob_set s v) = s"
  by (simp add: glob_set_def split: option.split)

lemma glob_reports_scan [simp]:
  "gv_scan (glob_unexpected r w y v) = gv_scan v" "gv_scan (invalidRefChar r s v) = gv_scan v"
  by (simp_all add: glob_unexpected_def invalidRefChar_def)

lemma glob_advance_scan [simp]: "gv_scan (glob_advance v) = sc_advance (gv_scan v)"
  by (simp add: glob_advance_def glob_peek_def sc_advance_EOF)

lemma glob_advance_less:
  "glob_peek v \<noteq> rune_EOF \<Longrightarrow> glob_left (glob_advance v) < glob_left v"
  by (simp add: glob_left_def glob_peek_def sc_advance_shrinks)

lemma glob_advance_le: "glob_left (glob_advance v) \<le> glob_left v"
  by (simp add: glob_left_def sc_advance_le)

lemma glob_left_reports [simp]:
  "glob_left (glob_unexpected r w y v) = glob_left v" "glob_left (invalidRefChar r s v) = glob_left v"
  by (simp_all add: glob_left_def)

subsection \<open>Character classes\<close>

abbreviation class_where :: string where "class_where \<equiv> ''character match []''"
abbreviation range_where :: string where "range_where \<equiv> ''character range in []''"

text \<open>
  The loop after \<open>[\<close>: the last rune, the number of characters counted so far, and whether the
  class was closed (otherwise \<open>validateNext\<close> returns false).
\<close>

function glob_class :: "nat \<Rightarrow> glob_validator \<Rightarrow> rune \<times> nat \<times> bool \<times> glob_validator" where
  "glob_class chars v =
     (let c = glob_peek v; v1 = glob_advance v in
      if c = rn CHR '']'' then (c, chars, True, v1)
      else if c = rune_EOF then
        (c, chars, False, glob_unexpected c (''end of '' @ class_where) (Why ''missing ]'') v1)
      else if glob_peek v1 \<noteq> rn CHR ''-'' then glob_class (chars + 1) v1
      else
        let v2 = glob_advance v1; d = glob_peek v2; v3 = glob_advance v2 in
        if d = rn CHR '']'' then
          (d, chars + 2, True, glob_unexpected d range_where (Why ''end of range is missing'') v3)
        else if d = rune_EOF then glob_class (chars + 2) v2
        else glob_class (chars + 2)
          (if d < c then glob_unexpected d range_where (WhyRange c d) v3 else v3))"
  by pat_completeness auto
termination
proof (relation "measure (\<lambda>(n, v). glob_left v)", goal_cases)
  case (2 n v c v1)
  then show ?case using glob_advance_less [of v] by simp
next
  case (3 n v c v1 v2 d v3)
  then show ?case using glob_advance_less [of v] glob_advance_le [of v1] by simp
next
  case (4 n v c v1 v2 d v3)
  then show ?case
    using glob_advance_less [of v] glob_advance_le [of v1] glob_advance_le [of v2] by simp
qed simp

declare glob_class.simps [simp del]

subsection \<open>One step\<close>

definition ref_chars :: string where
  "ref_chars = ''ref name cannot contain spaces, ~, ^, :, [, ?, *''"

definition escape_hint :: string where
  "escape_hint =
     ''only special characters [, ?, +, *, '' @ [CHR 0x5C] @ '', ! can be escaped with '' @ [CHR 0x5C]"

definition glob_escape :: "glob_validator \<Rightarrow> rune \<times> glob_validator" where
  "glob_escape v =
     (let d = glob_peek v in
      if d = rn CHR ''['' \<or> d = rn CHR ''?'' \<or> d = rn CHR ''*'' then
        (let v1 = glob_advance v in
         (d, if gv_isRef v1 then invalidRefChar (glob_peek v1) ref_chars v1 else v1))
      else if d = rn CHR ''+'' \<or> d = 92 \<or> d = rn CHR ''!'' then (d, glob_advance v)
      else if gv_isRef v then
        (let v1 = invalidRefChar 92 escape_hint v
         in (d, glob_advance v1))
      else (92, v))"

definition glob_quantifier :: "rune \<Rightarrow> string \<Rightarrow> glob_validator \<Rightarrow> glob_validator" where
  "glob_quantifier c what v =
     (if gv_prec v then v
      else glob_unexpected c what (Why ''the preceding character must not be special character'') v)"

definition glob_bracket :: "glob_validator \<Rightarrow> rune \<times> bool \<times> glob_validator" where
  "glob_bracket v =
     (if glob_peek v = rn CHR '']'' then
        (rn CHR '']'', True,
         glob_unexpected (rn CHR '']'') (''content of '' @ class_where)
           (Why ''character match must not be empty'') (glob_advance v))
      else (case glob_class 0 v of
          (c, chars, closed, v1) \<Rightarrow>
            (c, closed,
             if closed \<and> chars = 1
             then glob_unexpected c class_where
               (Why ''character match with single character is useless. simply use x instead of [x]'') v1
             else v1)))"

abbreviation no_newline :: glob_why where
  "no_newline \<equiv> Why ''newline cannot be contained''"

text \<open>The \<open>switch\<close> of \<open>validateNext\<close>: the last rune, the new \<open>prec\<close>, and whether to go on.\<close>

definition glob_switch :: "rune \<Rightarrow> glob_validator \<Rightarrow> rune \<times> bool \<times> bool \<times> glob_validator" where
  "glob_switch c v =
     (if c = 92 then (case glob_escape v of (d, v) \<Rightarrow> (d, True, True, v))
      else if c = rn CHR ''?'' then
        (c, False, True, glob_quantifier c ''special character ? (zero or one)'' v)
      else if c = rn CHR ''+'' then
        (c, False, True, glob_quantifier c ''special character + (one or more)'' v)
      else if c = rn CHR ''*'' then (c, False, True, v)
      else if c = rn CHR ''['' then (case glob_bracket v of (d, closed, v) \<Rightarrow> (d, True, closed, v))
      else if c = 13 then
        (if glob_peek v = 10 then (10, True, True, glob_unexpected 10 [] no_newline (glob_advance v))
         else (c, True, True, glob_unexpected c [] no_newline v))
      else if c = 10 then (c, True, True, glob_unexpected c [] no_newline v)
      else if c = 32 \<or> c = 9 \<or> c = rn CHR ''~'' \<or> c = rn CHR ''^'' \<or> c = rn CHR '':'' then
        (c, True, True, if gv_isRef v then invalidRefChar c ref_chars v else v)
      else (c, True, True, v))"

definition validateNext :: "glob_validator \<Rightarrow> bool \<times> glob_validator" where
  "validateNext v =
     (let c = glob_peek v; v = glob_advance v in
      case glob_switch c v of (d, prec, go, v) \<Rightarrow>
        if \<not> go then (False, v)
        else let v = v\<lparr>gv_prec := prec\<rparr> in
          if glob_peek v = rune_EOF then
            (False, if gv_isRef v \<and> (d = rn CHR ''/'' \<or> d = rn CHR ''.'')
                    then invalidRefChar d ''ref name must not end with / and .'' v else v)
          else (True, v))"

lemma glob_class_left:
  "glob_class n v = (c, m, b, w) \<Longrightarrow> glob_left w \<le> glob_left v"
proof (induction n v arbitrary: c m b w rule: glob_class.induct)
  case (1 n v)
  show ?case
    using 1(4) 1(1) [OF refl refl] 1(2) [OF refl refl _ _ _ refl refl refl]
      1(3) [OF refl refl _ _ _ refl refl refl]
      glob_advance_le [of v] glob_advance_le [of "glob_advance v"]
      glob_advance_le [of "glob_advance (glob_advance v)"]
    by (subst (asm) glob_class.simps) (auto simp: Let_def split: if_splits; fastforce)
qed

lemma glob_switch_left:
  "glob_switch c v = (d, p, b, w) \<Longrightarrow> glob_left w \<le> glob_left v"
  by (auto simp: glob_switch_def glob_escape_def glob_bracket_def glob_quantifier_def Let_def
      glob_left_def sc_advance_le split: if_splits prod.splits
      dest!: glob_class_left [unfolded glob_left_def])

lemma glob_switch_EOF: "glob_switch rune_EOF v = (rune_EOF, True, True, v)"
  by (simp add: glob_switch_def)

lemma validateNext_less:
  assumes "validateNext v = (True, w)"
  shows "glob_left w < glob_left v"
proof -
  obtain d p b u where sw: "glob_switch (glob_peek v) (glob_advance v) = (d, p, b, u)"
    by (cases "glob_switch (glob_peek v) (glob_advance v)") auto
  have w: "w = u\<lparr>gv_prec := p\<rparr>" and more: "glob_peek (u\<lparr>gv_prec := p\<rparr>) \<noteq> rune_EOF"
    using assms sw by (auto simp: validateNext_def Let_def split: if_splits)
  have "glob_peek v \<noteq> rune_EOF"
  proof
    assume eof: "glob_peek v = rune_EOF"
    then have "u = v" using sw glob_switch_EOF eof by (simp add: glob_advance_def)
    then show False using more eof by (simp add: glob_peek_def)
  qed
  then have "glob_left (glob_advance v) < glob_left v" by (rule glob_advance_less)
  moreover have "glob_left u \<le> glob_left (glob_advance v)" using sw by (rule glob_switch_left)
  ultimately show ?thesis using w by (simp add: glob_left_def)
qed

function validate_loop :: "glob_validator \<Rightarrow> glob_validator" where
  "validate_loop v = (case validateNext v of (go, w) \<Rightarrow> if go then validate_loop w else w)"
  by pat_completeness auto
termination
  by (relation "measure glob_left") (auto dest: validateNext_less [OF sym])

declare validate_loop.simps [simp del]

subsection \<open>Entry points\<close>

definition glob_init :: "bool \<Rightarrow> string \<Rightarrow> glob_validator" where
  "glob_init ref pat = \<lparr>gv_isRef = ref, gv_prec = False, gv_errs = [], gv_scan = sc_init pat\<rparr>"

definition validate_glob :: "bool \<Rightarrow> string \<Rightarrow> glob_validator" where
  "validate_glob ref pat =
     (let v = glob_init ref pat in
      if pat = [] then glob_error GlobEmpty v
      else
        let v = glob_load v in
        if glob_peek v = rn CHR ''/'' \<and> ref then
          validate_loop
            ((invalidRefChar (rn CHR ''/'') ''ref name must not start with /'' (glob_advance v))
             \<lparr>gv_prec := True\<rparr>)
        else if glob_peek v = rn CHR ''!'' then
          let v = glob_advance v in
          if glob_peek v = rune_EOF
          then glob_unexpected (rn CHR ''!'') ''! at first character (negate pattern)''
            (Why ''at least one character must follow !'') v
          else validate_loop (v\<lparr>gv_prec := False\<rparr>)
        else validate_loop v)"

definition Validate :: "string \<Rightarrow> bool \<Rightarrow> InvalidGlobPatternError list" where
  "Validate pat ref = gv_errs (validate_glob ref pat)"

definition ValidateRefGlob :: "string \<Rightarrow> InvalidGlobPatternError list" where
  "ValidateRefGlob pat = Validate pat True"

definition ValidatePathGlob :: "string \<Rightarrow> InvalidGlobPatternError list" where
  "ValidatePathGlob pat =
     (let p = trim_space pat;
          spaces = (if pat \<noteq> p then [\<lparr>ge_message = GlobSpaces, ge_column = 0\<rparr>] else []);
          q = (if has_prefix p ''!'' then drop 1 p else p);
          dots = (if q = ''.'' \<or> q = ''..'' \<or> has_prefix q ''./'' \<or> has_prefix q ''../''
                  then [\<lparr>ge_message = GlobDots, ge_column = 0\<rparr>] else [])
      in if spaces @ dots \<noteq> [] then spaces @ dots else Validate pat False)"

end
