(* ===== verification/Glob_Spec.thy ===== *)
theory Glob_Spec
  imports Glob
begin

text \<open>
  What the pattern validator promises. \<open>glob_pattern\<close> is the grammar of filter patterns as the
  comments of \<open>glob.go\<close> give it, without a scanner and without error reports; on ASCII patterns
  the validator is silent exactly on its words. The second part bounds the columns of the
  errors for every pattern, whatever its bytes.
\<close>

subsection \<open>The grammar\<close>

text \<open>
  The body of a character class after \<open>[\<close>: it counts its characters, a range being two.
\<close>

inductive class_body :: "nat \<Rightarrow> string \<Rightarrow> nat \<Rightarrow> string \<Rightarrow> bool" where
  close: "class_body n (CHR '']'' # r) n r"
| one: "c \<noteq> CHR '']'' \<Longrightarrow> r = [] \<or> hd r \<noteq> CHR ''-'' \<Longrightarrow> class_body (n + 1) r m s
    \<Longrightarrow> class_body n (c # r) m s"
| range: "c \<noteq> CHR '']'' \<Longrightarrow> d \<noteq> CHR '']'' \<Longrightarrow> rn c \<le> rn d \<Longrightarrow> class_body (n + 2) r m s
    \<Longrightarrow> class_body n (c # CHR ''-'' # d # r) m s"

inductive_cases class_body_Nil: "class_body n [] m s"
inductive_simps class_body_iff: "class_body n (c # r) m s"

abbreviation backslash :: char where "backslash \<equiv> CHR 0x5C"

abbreviation ref_forbidden :: string where "ref_forbidden \<equiv> [CHR 32, CHR 9] @ ''~^:''"

abbreviation glob_meta :: string where
  "glob_meta \<equiv> backslash # ''?+*['' @ [CHR 13, CHR 10]"

text \<open>
  One item of a pattern, from the text before it to the text after it. The flags tell whether
  the character before can be repeated by \<open>?\<close> or \<open>+\<close>. Names of branches and tags have more
  forbidden characters.
\<close>

inductive glob_item :: "bool \<Rightarrow> bool \<Rightarrow> string \<Rightarrow> bool \<Rightarrow> string \<Rightarrow> bool" for ref where
  plain: "c \<notin> set glob_meta \<Longrightarrow> ref \<longrightarrow> c \<notin> set ref_forbidden
    \<Longrightarrow> ref \<and> r = [] \<longrightarrow> c \<notin> set ''/.'' \<Longrightarrow> glob_item ref p (c # r) True r"
| star: "glob_item ref p (CHR ''*'' # r) False r"
| repeat: "c \<in> set ''?+'' \<Longrightarrow> glob_item ref True (c # r) False r"
| escape: "c \<in> set (backslash # ''+!'') \<or> \<not> ref \<and> c \<in> set ''[?*''
    \<Longrightarrow> glob_item ref p (backslash # c # r) True r"
| backslash: "\<not> ref \<Longrightarrow> r = [] \<or> hd r \<notin> set (backslash # ''+![?*'')
    \<Longrightarrow> glob_item ref p (backslash # r) True r"
| chars: "r \<noteq> [] \<Longrightarrow> hd r \<noteq> CHR '']'' \<Longrightarrow> class_body 0 r m s \<Longrightarrow> m \<noteq> 1
    \<Longrightarrow> glob_item ref p (CHR ''['' # r) True s"

inductive glob_body :: "bool \<Rightarrow> bool \<Rightarrow> string \<Rightarrow> bool" for ref where
  finish: "glob_body ref p []"
| item: "glob_item ref p s q t \<Longrightarrow> glob_body ref q t \<Longrightarrow> glob_body ref p s"

inductive_simps glob_item_iff: "glob_item ref p (c # r) q t"
inductive_simps glob_body_iff: "glob_body ref p s"

definition glob_pattern :: "bool \<Rightarrow> string \<Rightarrow> bool" where
  "glob_pattern ref pat \<longleftrightarrow>
     pat \<noteq> [] \<and> (ref \<longrightarrow> hd pat \<noteq> CHR ''/'') \<and>
     (if hd pat = CHR ''!'' then tl pat \<noteq> [] \<and> glob_body ref False (tl pat)
      else glob_body ref False pat)"

subsection \<open>Reading an ASCII pattern\<close>

lemma rn_is: "k = rn d \<Longrightarrow> rn c = k \<longleftrightarrow> c = d"
  by simp

lemma rn_glob_chars:
  "rn c = 93 \<longleftrightarrow> c = CHR '']''" "rn c = 45 \<longleftrightarrow> c = CHR ''-''" "rn c = 91 \<longleftrightarrow> c = CHR ''[''"
  "rn c = 92 \<longleftrightarrow> c = backslash" "rn c = 63 \<longleftrightarrow> c = CHR ''?''" "rn c = 43 \<longleftrightarrow> c = CHR ''+''"
  "rn c = 42 \<longleftrightarrow> c = CHR ''*''" "rn c = 33 \<longleftrightarrow> c = CHR ''!''" "rn c = 13 \<longleftrightarrow> c = CHR 13"
  "rn c = 10 \<longleftrightarrow> c = CHR 10" "rn c = 32 \<longleftrightarrow> c = CHR '' ''" "rn c = 9 \<longleftrightarrow> c = CHR 9"
  "rn c = 126 \<longleftrightarrow> c = CHR ''~''" "rn c = 94 \<longleftrightarrow> c = CHR ''^''" "rn c = 58 \<longleftrightarrow> c = CHR '':''"
  "rn c = 47 \<longleftrightarrow> c = CHR ''/''" "rn c = 46 \<longleftrightarrow> c = CHR ''.''"
  by (rule rn_is, simp)+

definition ascii :: "string \<Rightarrow> bool" where
  "ascii s \<longleftrightarrow> list_all (\<lambda>c. 0 < rn c \<and> rn c < 128) s"

abbreviation glob_rest :: "glob_validator \<Rightarrow> string" where
  "glob_rest v \<equiv> sc_rest (gv_scan v)"

lemma ascii_simps [simp]:
  "ascii []" "ascii (c # s) \<longleftrightarrow> 0 < rn c \<and> rn c < 128 \<and> ascii s"
  by (simp_all add: ascii_def)

lemma glob_peek_ascii:
  "ascii (glob_rest v) \<Longrightarrow> glob_peek v = (case glob_rest v of [] \<Rightarrow> rune_EOF | c # r \<Rightarrow> rn c)"
  by (auto simp: glob_peek_def sc_ch_def decode_ascii split: list.split simp del: decode_rune.simps)

lemma ascii_no_err: "ascii (sc_rest s) \<Longrightarrow> sc_err s = None"
  by (cases "sc_rest s") (auto simp: sc_err_def decode_ascii simp del: decode_rune.simps)

lemma sc_advance_rest: "ascii (sc_rest s) \<Longrightarrow> sc_rest (sc_advance s) = tl (sc_rest s)"
  by (cases "sc_rest s") (auto simp: sc_advance_def decode_ascii simp del: decode_rune.simps)

lemma ascii_tl: "ascii s \<Longrightarrow> ascii (tl s)"
  by (cases s) auto

lemma glob_advance_ascii:
  assumes "ascii (glob_rest v)"
  shows "glob_rest (glob_advance v) = tl (glob_rest v)" "gv_errs (glob_advance v) = gv_errs v"
    "gv_isRef (glob_advance v) = gv_isRef v" "gv_prec (glob_advance v) = gv_prec v"
proof -
  show "glob_rest (glob_advance v) = tl (glob_rest v)"
    using assms by (simp add: sc_advance_rest)
  have "sc_err (sc_advance (gv_scan v)) = None"
    using assms by (intro ascii_no_err) (simp add: sc_advance_rest ascii_tl)
  then show "gv_errs (glob_advance v) = gv_errs v" "gv_isRef (glob_advance v) = gv_isRef v"
    "gv_prec (glob_advance v) = gv_prec v"
    by (simp_all add: glob_advance_def glob_set_def)
qed

text \<open>Errors are only ever appended; every report makes the list longer.\<close>

abbreviation glob_count :: "glob_validator \<Rightarrow> nat" where
  "glob_count v \<equiv> length (gv_errs v)"

lemma glob_count_report [simp]:
  "glob_count (glob_error m v) = Suc (glob_count v)"
  "glob_count (glob_unexpected r w y v) = Suc (glob_count v)"
  "glob_count (invalidRefChar r s v) = Suc (glob_count v)"
  by (simp_all add: glob_error_def glob_unexpected_def invalidRefChar_def Let_def)

lemma glob_report_nonempty [simp]:
  "gv_errs (glob_error m v) \<noteq> []" "gv_errs (glob_unexpected r w y v) \<noteq> []"
  "gv_errs (invalidRefChar r s v) \<noteq> []"
  by (simp_all add: glob_error_def glob_unexpected_def invalidRefChar_def Let_def)

lemma glob_report_ref [simp]:
  "gv_isRef (glob_error m v) = gv_isRef v" "gv_isRef (glob_unexpected r w y v) = gv_isRef v"
  "gv_isRef (invalidRefChar r s v) = gv_isRef v"
  "gv_prec (glob_error m v) = gv_prec v" "gv_prec (glob_unexpected r w y v) = gv_prec v"
  "gv_prec (invalidRefChar r s v) = gv_prec v"
  by (simp_all add: glob_error_def glob_unexpected_def invalidRefChar_def Let_def)

lemma glob_class_general:
  "ascii (glob_rest v) \<Longrightarrow> glob_class n v = (c, m, ok, w) \<Longrightarrow>
   ascii (glob_rest w) \<and> gv_isRef w = gv_isRef v \<and> glob_count v \<le> glob_count w \<and>
   (ok \<and> glob_count w = glob_count v \<longrightarrow> c = rn CHR '']'' \<and> class_body n (glob_rest v) m (glob_rest w)) \<and>
   (\<not> ok \<longrightarrow> glob_count w \<noteq> glob_count v)"
proof (induction n v arbitrary: c m ok w rule: glob_class.induct)
  case (1 n v)
  define v1 v2 v3 where "v1 = glob_advance v" and "v2 = glob_advance v1" and "v3 = glob_advance v2"
  note adv = glob_advance_ascii
  have r1: "glob_rest v1 = tl (glob_rest v)" "gv_errs v1 = gv_errs v" "gv_isRef v1 = gv_isRef v"
    using adv [OF 1(4)] by (simp_all add: v1_def)
  have a1: "ascii (glob_rest v1)" using 1(4) by (simp add: r1 ascii_tl)
  have r2: "glob_rest v2 = tl (glob_rest v1)" "gv_errs v2 = gv_errs v1" "gv_isRef v2 = gv_isRef v1"
    using adv [OF a1] by (simp_all add: v2_def)
  have a2: "ascii (glob_rest v2)" using a1 by (simp add: r2 ascii_tl)
  have r3: "glob_rest v3 = tl (glob_rest v2)" "gv_errs v3 = gv_errs v2" "gv_isRef v3 = gv_isRef v2"
    using adv [OF a2] by (simp_all add: v3_def)
  have a3: "ascii (glob_rest v3)" using a2 by (simp add: r3 ascii_tl)
  note peek = glob_peek_ascii [OF 1(4)] glob_peek_ascii [OF a1] glob_peek_ascii [OF a2]
  show ?case
  proof (cases "glob_rest v")
    case Nil
    then show ?thesis using 1(5) a1 r1
      by (subst (asm) glob_class.simps) (auto simp: Let_def peek v1_def [symmetric])
  next
    case (Cons x r)
    show ?thesis
    proof (cases "x = CHR '']''")
      case True
      then show ?thesis using 1(5) a1 r1 Cons
        by (subst (asm) glob_class.simps)
          (auto simp: Let_def peek v1_def [symmetric] intro: class_body.close)
    next
      case x: False
      have xp: "glob_peek v = rn x" using Cons peek by simp
      then have xne: "glob_peek v \<noteq> rn CHR '']''" "glob_peek v \<noteq> rune_EOF"
        using x by (simp_all del: of_char_Char)
      show ?thesis
      proof (cases "r = [] \<or> hd r \<noteq> CHR ''-''")
        case True
        then have dash: "glob_peek v1 \<noteq> rn CHR ''-''"
          by (cases r) (auto simp: peek r1 Cons rn_glob_chars)
        then have run: "glob_class n v = glob_class (n + 1) v1"
          using xne by (subst glob_class.simps) (simp add: Let_def v1_def)
        have "ascii (glob_rest w) \<and> gv_isRef w = gv_isRef v1 \<and> glob_count v1 \<le> glob_count w \<and>
          (ok \<and> glob_count w = glob_count v1 \<longrightarrow>
             c = rn CHR '']'' \<and> class_body (n + 1) (glob_rest v1) m (glob_rest w)) \<and>
          (\<not> ok \<longrightarrow> glob_count w \<noteq> glob_count v1)"
          using 1(1) [OF refl v1_def xne dash a1] 1(5) run by simp
        then show ?thesis
          using class_body.one [OF x True] by (simp add: r1 Cons)
      next
        case False
        then obtain q where r: "r = CHR ''-'' # q" by (cases r) auto
        have dash: "\<not> glob_peek v1 \<noteq> rn CHR ''-''"
          by (simp add: peek r1 Cons r)
        show ?thesis
        proof (cases q)
          case Nil
          then have d: "glob_peek v2 = rune_EOF" by (simp add: peek r2 r1 Cons r)
          have "glob_class n v = glob_class (n + 2) v2"
            using xne dash d by (subst glob_class.simps) (simp add: Let_def v1_def v2_def)
          then have run: "glob_class (n + 2) v2 = (c, m, ok, w)" using 1(5) by simp
          have "glob_rest v2 = []" by (simp add: r2 r1 Cons r Nil)
          then have "\<not> class_body k (glob_rest v2) j s" for k j s
            by (auto elim: class_body_Nil)
          then show ?thesis
            using 1(2) [OF refl v1_def xne dash v2_def refl v3_def _ d a2 run] d
            by (simp add: r2 r1)
        next
          case (Cons y s)
          then have d: "glob_peek v2 = rn y" by (simp add: peek r2 r1 \<open>glob_rest v = x # r\<close> r)
          show ?thesis
          proof (cases "y = CHR '']''")
            case True
            then show ?thesis using 1(5) xne dash d a3
              by (subst (asm) glob_class.simps)
                (auto simp: Let_def v1_def [symmetric] v2_def [symmetric] v3_def [symmetric] r1 r2 r3)
          next
            case y: False
            define v4 where "v4 = (if rn y < rn x then glob_unexpected (rn y) range_where (WhyRange (rn x) (rn y)) v3 else v3)"
            have yne: "glob_peek v2 \<noteq> rn CHR '']''" "glob_peek v2 \<noteq> rune_EOF"
              using y d by (simp_all del: of_char_Char)
            have "glob_class n v = glob_class (n + 2) v4"
              using xne dash yne d xp
              by (subst glob_class.simps) (simp add: Let_def v1_def v2_def v3_def v4_def)
            then have run: "glob_class (n + 2) v4 = (c, m, ok, w)" using 1(5) by simp
            have a4: "ascii (glob_rest v4)" using a3 by (simp add: v4_def)
            show ?thesis
              using 1(3) [OF refl v1_def xne dash v2_def refl v3_def yne, unfolded d xp, folded v4_def, OF a4 run]
              by (auto simp: v4_def r1 r2 r3 \<open>glob_rest v = x # r\<close> r Cons not_less split: if_splits
                  intro!: class_body.range x y)
          qed
        qed
      qed
    qed
  qed
qed

lemma glob_class_complete:
  "class_body n s m r \<Longrightarrow> ascii s \<Longrightarrow> glob_rest v = s \<Longrightarrow>
   \<exists>w. glob_class n v = (rn CHR '']'', m, True, w) \<and> glob_rest w = r \<and> gv_errs w = gv_errs v
     \<and> gv_isRef w = gv_isRef v"
proof (induction arbitrary: v rule: class_body.induct)
  case (close n r)
  then show ?case
    using glob_advance_ascii [of v] glob_peek_ascii [of v]
    by (subst glob_class.simps) (auto simp: Let_def)
next
  case (one c r n m s)
  have a: "ascii (glob_rest v)" using one.prems by simp
  note adv = glob_advance_ascii [OF a]
  have p: "glob_peek v = rn c" using glob_peek_ascii [OF a] one.prems by simp
  have "glob_peek (glob_advance v) \<noteq> rn CHR ''-''"
    using glob_peek_ascii [of "glob_advance v"] adv one.prems one.hyps(2)
    by (cases r) (auto simp: rn_glob_chars)
  then have "glob_class n v = glob_class (n + 1) (glob_advance v)"
    using one.hyps(1) p by (subst glob_class.simps) (simp add: Let_def rn_glob_chars)
  then show ?case
    using one.IH [of "glob_advance v"] one.prems adv by auto
next
  case (range c d n r m s)
  define v1 v2 v3 where "v1 = glob_advance v" and "v2 = glob_advance v1" and "v3 = glob_advance v2"
  note adv = glob_advance_ascii
  have a: "ascii (glob_rest v)" using range.prems by simp
  have r1: "glob_rest v1 = CHR ''-'' # d # r" "gv_errs v1 = gv_errs v" "gv_isRef v1 = gv_isRef v"
    using adv [OF a] range.prems by (simp_all add: v1_def)
  have a1: "ascii (glob_rest v1)" using range.prems by (simp add: r1)
  have r2: "glob_rest v2 = d # r" "gv_errs v2 = gv_errs v1" "gv_isRef v2 = gv_isRef v1"
    using adv [OF a1] by (simp_all add: v2_def r1)
  have a2: "ascii (glob_rest v2)" using range.prems by (simp add: r2)
  have r3: "glob_rest v3 = r" "gv_errs v3 = gv_errs v2" "gv_isRef v3 = gv_isRef v2"
    using adv [OF a2] by (simp_all add: v3_def r2)
  have "glob_class n v = glob_class (n + 2) v3"
    using range.hyps range.prems glob_peek_ascii [OF a] glob_peek_ascii [OF a1] glob_peek_ascii [OF a2]
    by (subst glob_class.simps)
      (simp add: Let_def v1_def [symmetric] v2_def [symmetric] v3_def [symmetric] r1 r2 rn_glob_chars)
  then show ?case using range.IH [of v3] range.prems r1 r2 r3 by auto
qed

subsection \<open>The whole pattern\<close>

lemma glob_bracket_grammar:
  assumes a: "ascii (glob_rest v)" and b: "glob_bracket v = (d, ok, w)"
  shows "ascii (glob_rest w) \<and> gv_isRef w = gv_isRef v \<and> glob_count v \<le> glob_count w \<and>
      (\<not> ok \<longrightarrow> glob_count w \<noteq> glob_count v)"
    and "ok \<and> glob_count w = glob_count v \<and> glob_rest w = t \<longleftrightarrow>
      glob_rest v \<noteq> [] \<and> hd (glob_rest v) \<noteq> CHR '']'' \<and> (\<exists>m. class_body 0 (glob_rest v) m t \<and> m \<noteq> 1)"
    and "ok \<and> glob_count w = glob_count v \<Longrightarrow> d = rn CHR '']''"
proof -
  obtain c m u v1 where run: "glob_class 0 v = (c, m, u, v1)" by (cases "glob_class 0 v") auto
  have gen1: "ascii (glob_rest v1)" "gv_isRef v1 = gv_isRef v" "glob_count v \<le> glob_count v1"
    and gen2: "\<not> u \<Longrightarrow> glob_count v1 \<noteq> glob_count v"
    using glob_class_general [OF a run] by blast+
  note gen = glob_class_general [OF a run] and adv = glob_advance_ascii [OF a]
  note peek = glob_peek_ascii [OF a]
  have open_iff: "glob_peek v = rn CHR '']'' \<longleftrightarrow> glob_rest v \<noteq> [] \<and> hd (glob_rest v) = CHR '']''"
    using peek by (cases "glob_rest v") (auto simp: rn_glob_chars)
  have complete: "class_body 0 (glob_rest v) k t \<Longrightarrow>
    c = rn CHR '']'' \<and> m = k \<and> u \<and> glob_rest v1 = t \<and> glob_count v1 = glob_count v" for k
    using glob_class_complete [of 0 "glob_rest v" k t v] a run by auto
  show "ascii (glob_rest w) \<and> gv_isRef w = gv_isRef v \<and> glob_count v \<le> glob_count w \<and>
      (\<not> ok \<longrightarrow> glob_count w \<noteq> glob_count v)"
    using b run gen1 gen2 adv a ascii_tl [OF a] by (auto simp: glob_bracket_def split: if_splits)
  show "ok \<and> glob_count w = glob_count v \<Longrightarrow> d = rn CHR '']''"
    using b run gen adv by (auto simp: glob_bracket_def split: if_splits)
  show "ok \<and> glob_count w = glob_count v \<and> glob_rest w = t \<longleftrightarrow>
      glob_rest v \<noteq> [] \<and> hd (glob_rest v) \<noteq> CHR '']'' \<and> (\<exists>m. class_body 0 (glob_rest v) m t \<and> m \<noteq> 1)"
  proof (cases "glob_peek v = rn CHR '']''")
    case True
    then show ?thesis using b adv open_iff by (auto simp: glob_bracket_def)
  next
    case False
    have w: "d = c" "ok = u" "w = (if u \<and> m = 1 then glob_unexpected c class_where
        (Why ''character match with single character is useless. simply use x instead of [x]'') v1
        else v1)"
      using b False run by (auto simp: glob_bracket_def split: if_splits)
    have "class_body 0 (glob_rest v) m t" if "u" "glob_count v1 = glob_count v" "glob_rest v1 = t"
      using gen that by auto
    moreover have "glob_rest v \<noteq> []" if "class_body 0 (glob_rest v) k t" for k
      using that by (auto elim: class_body_Nil)
    moreover have "ok \<and> glob_count w = glob_count v \<and> glob_rest w = t \<longleftrightarrow>
        (u \<and> m \<noteq> 1 \<and> glob_count v1 = glob_count v \<and> glob_rest v1 = t)"
      using gen w by (auto split: if_splits)
    ultimately show ?thesis using complete False open_iff by metis
  qed
qed

text \<open>What \<open>glob_switch\<close> leaves to the test at the end of \<open>validateNext\<close>.\<close>

definition ends_badly :: "glob_validator \<Rightarrow> rune \<Rightarrow> bool" where
  "ends_badly v d \<longleftrightarrow> gv_isRef v \<and> glob_rest v = [] \<and> (d = 47 \<or> d = 46)"

lemma validateNext_switch:
  assumes "glob_switch (glob_peek v) (glob_advance v) = (d, p, ok, u)" and "ascii (glob_rest u)"
    and "validateNext v = (go, w)"
  shows "gv_isRef w = gv_isRef u \<and> glob_rest w = glob_rest u \<and> (ok \<longrightarrow> gv_prec w = p)
    \<and> (go \<longleftrightarrow> ok \<and> glob_rest w \<noteq> [])
    \<and> glob_count w = glob_count u + (if ok \<and> ends_badly u d then 1 else 0)"
  using assms glob_peek_ascii [OF assms(2)]
  by (cases "glob_rest u")
    (auto simp: validateNext_def ends_badly_def Let_def glob_peek_def split: if_splits)

lemma glob_escape_grammar:
  assumes a: "ascii (glob_rest v)" and e: "glob_escape v = (d, u)"
  shows "ascii (glob_rest u) \<and> gv_isRef u = gv_isRef v \<and> glob_count v \<le> glob_count u \<and>
    (glob_item (gv_isRef v) b (backslash # glob_rest v) q t \<longleftrightarrow>
      glob_count u = glob_count v \<and> \<not> ends_badly u d \<and> q \<and> glob_rest u = t)"
proof (cases "glob_rest v")
  case Nil
  then have "u = v \<and> \<not> gv_isRef v \<or> gv_isRef v \<and> u = glob_advance (invalidRefChar 92 escape_hint v)"
    using e glob_peek_ascii [OF a] by (auto simp: glob_escape_def Let_def split: if_splits)
  moreover have "d = 92 \<or> gv_isRef v"
    using e Nil glob_peek_ascii [OF a] by (auto simp: glob_escape_def Let_def split: if_splits)
  ultimately show ?thesis
    using Nil by (auto simp: glob_item_iff ends_badly_def glob_advance_ascii sc_advance_rest)
next
  case (Cons y r)
  have p: "glob_peek v = rn y" using glob_peek_ascii [OF a] Cons by simp
  note adv = glob_advance_ascii [OF a, unfolded Cons]
  have r: "ascii r" using a Cons by simp
  consider "y \<in> set ''[?*''" | "y \<in> set (backslash # ''+!'')"
    | "y \<notin> set (backslash # ''+![?*'')" by auto
  then show ?thesis
  proof cases
    case 1
    then have "d = rn y" "u = (if gv_isRef (glob_advance v)
        then invalidRefChar (glob_peek (glob_advance v)) ref_chars (glob_advance v)
        else glob_advance v)"
      using e p by (auto simp: glob_escape_def Let_def)
    then show ?thesis using 1 adv r Cons
      by (auto simp: glob_item_iff ends_badly_def)
  next
    case 2
    then have "d = rn y" "u = glob_advance v"
      using e p by (auto simp: glob_escape_def Let_def)
    then show ?thesis using 2 adv r Cons
      by (auto simp: glob_item_iff ends_badly_def)
  next
    case 3
    have "glob_rest (glob_advance (invalidRefChar 92 escape_hint v)) = r"
      "glob_count (glob_advance (invalidRefChar 92 escape_hint v)) = Suc (glob_count v)"
      "gv_isRef (glob_advance (invalidRefChar 92 escape_hint v)) = gv_isRef v"
      using glob_advance_ascii [of "invalidRefChar 92 escape_hint v"] a Cons by simp_all
    then have "if gv_isRef v then d = rn y \<and> glob_count u = Suc (glob_count v) \<and> gv_isRef u = gv_isRef v
        \<and> glob_rest u = r
      else d = 92 \<and> u = v"
      using e p 3 by (auto simp: glob_escape_def Let_def rn_glob_chars simp del: glob_advance_scan)
    then show ?thesis using 3 a r Cons
      by (auto simp: glob_item_iff ends_badly_def split: if_splits)
  qed
qed

lemma glob_switch_repeat:
  "c = 63 \<or> c = 43 \<Longrightarrow> \<exists>what. glob_switch c v = (c, False, True, glob_quantifier c what v)"
  by (elim disjE; simp add: glob_switch_def) blast+

lemma glob_item_forbidden:
  assumes "x \<in> set ref_forbidden"
  shows "glob_item ref b (x # r) q t \<longleftrightarrow> \<not> ref \<and> q \<and> t = r"
proof -
  from assms have "x = CHR 32 \<or> x = CHR 9 \<or> x = CHR ''~'' \<or> x = CHR ''^'' \<or> x = CHR '':''"
    by simp
  then show ?thesis by (elim disjE; simp add: glob_item_iff; blast?)
qed

lemma glob_switch_grammar:
  assumes a: "ascii (glob_rest v)" and rest: "glob_rest v = x # r"
    and sw: "glob_switch (glob_peek v) (glob_advance v) = (d, p, ok, u)"
  shows "ascii (glob_rest u) \<and> gv_isRef u = gv_isRef v \<and> glob_count v \<le> glob_count u
      \<and> (\<not> ok \<longrightarrow> glob_count u \<noteq> glob_count v)" (is ?gen)
    and "glob_item (gv_isRef v) (gv_prec v) (x # r) q t \<longleftrightarrow>
      glob_count u = glob_count v \<and> \<not> ends_badly u d \<and> p = q \<and> glob_rest u = t" (is ?iff)
proof -
  define v1 where "v1 = glob_advance v"
  have v1: "glob_rest v1 = r" "gv_errs v1 = gv_errs v" "gv_isRef v1 = gv_isRef v"
    "gv_prec v1 = gv_prec v"
    using glob_advance_ascii [OF a] rest by (simp_all add: v1_def)
  have x: "glob_peek v = rn x" using glob_peek_ascii [OF a] rest by simp
  have a1: "ascii r" and xa: "0 < rn x" "rn x < 128" using a rest by simp_all
  have peek: "glob_peek v1 = (case r of [] \<Rightarrow> rune_EOF | c # s \<Rightarrow> rn c)"
    using glob_peek_ascii [of v1] a1 v1 by simp
  note adv1 = glob_advance_ascii [of v1, unfolded v1, OF a1]
  note sw1 = sw [folded v1_def, unfolded x glob_switch_def]
  consider "x = backslash" | "x = CHR ''[''" | "x = CHR 13" | "x = CHR 10"
    | "x \<in> set ''?+''" | "x = CHR ''*''" | "x \<in> set ref_forbidden"
    | "x \<notin> set glob_meta" "x \<notin> set ref_forbidden" by auto
  then have "?gen \<and> ?iff"
  proof cases
    case 1
    obtain c w where esc: "glob_escape v1 = (c, w)" by (cases "glob_escape v1") auto
    have out: "d = c" "p" "ok" "u = w" using sw1 1 esc by simp_all
    show ?thesis using glob_escape_grammar [of v1, OF _ esc] v1 a1 1 out by simp
  next
    case 2
    obtain c b w where br: "glob_bracket v1 = (c, b, w)" by (cases "glob_bracket v1") auto
    have out: "d = c" "p" "ok = b" "u = w" using sw1 2 br by simp_all
    note g = glob_bracket_grammar [of v1, unfolded v1, OF a1 br]
    have "\<not> ends_badly u d" if "ok \<and> glob_count u = glob_count v"
      using g(3) that out v1 by (simp add: ends_badly_def)
    then show ?thesis using 2 g(1) g(2) [of t] out v1 by (auto simp: glob_item_iff)
  next
    case 3
    then show ?thesis using sw1 v1 a1 adv1 peek
      by (cases r) (auto simp: glob_item_iff split: if_splits)
  next
    case 4
    then show ?thesis using sw1 v1 a1 by (auto simp: glob_item_iff)
  next
    case 5
    then have "rn x = 63 \<or> rn x = 43" by auto
    then obtain what where "glob_switch (rn x) v1 = (rn x, False, True, glob_quantifier (rn x) what v1)"
      using glob_switch_repeat [of "rn x" v1] by auto
    then have out: "d = rn x" "\<not> p" "ok" "u = glob_quantifier (rn x) what v1"
      using sw [folded v1_def, unfolded x] by simp_all
    have "glob_count u = glob_count v + (if gv_prec v then 0 else 1)" "glob_rest u = r"
      "gv_isRef u = gv_isRef v" "\<not> ends_badly u d"
      using v1 \<open>rn x = 63 \<or> rn x = 43\<close> by (auto simp: out glob_quantifier_def ends_badly_def)
    moreover have "glob_item ref b (x # r) q t \<longleftrightarrow> b \<and> \<not> q \<and> t = r" for ref b
      using 5 by (auto simp: glob_item_iff)
    ultimately show ?thesis using a1 out(2,3) by auto
  next
    case 6
    then show ?thesis using sw1 v1 a1 by (auto simp: glob_item_iff ends_badly_def)
  next
    case 7
    then have "(d, p, ok, u) =
        (rn x, True, True, if gv_isRef v1 then invalidRefChar (rn x) ref_chars v1 else v1)"
      using sw1 by auto
    then have "glob_count u = glob_count v + (if gv_isRef v then 1 else 0)" "glob_rest u = r"
      "gv_isRef u = gv_isRef v" "\<not> gv_isRef v \<Longrightarrow> \<not> ends_badly u d" "p" "ok"
      using v1 by (simp_all add: ends_badly_def)
    moreover have "glob_item ref b (x # r) q t \<longleftrightarrow> \<not> ref \<and> q \<and> t = r" for ref b
      using 7(1) by (rule glob_item_forbidden)
    ultimately show ?thesis using a1 by auto
  next
    case 8
    then have "(d, p, ok, u) = (rn x, True, True, v1)" using sw1 by (simp add: rn_glob_chars)
    then show ?thesis using 8 v1 a1
      by (auto simp: glob_item_iff ends_badly_def rn_glob_chars)
  qed
  then show ?gen ?iff by blast+
qed

lemma validateNext_grammar:
  assumes a: "ascii (glob_rest v)" and ne: "glob_rest v \<noteq> []" and n: "validateNext v = (go, w)"
  shows "ascii (glob_rest w) \<and> gv_isRef w = gv_isRef v \<and> glob_count v \<le> glob_count w"
    and "glob_item (gv_isRef v) (gv_prec v) (glob_rest v) q t \<longleftrightarrow>
      glob_count w = glob_count v \<and> gv_prec w = q \<and> glob_rest w = t"
    and "go \<Longrightarrow> glob_rest w \<noteq> []" and "glob_count w = glob_count v \<Longrightarrow> glob_rest w \<noteq> [] \<Longrightarrow> go"
proof -
  obtain x r where s: "glob_rest v = x # r" using ne by (cases "glob_rest v") auto
  obtain d p ok u where sw: "glob_switch (glob_peek v) (glob_advance v) = (d, p, ok, u)"
    by (cases "glob_switch (glob_peek v) (glob_advance v)") auto
  note g = glob_switch_grammar [OF a s sw]
  have au: "ascii (glob_rest u)" using g(1) by blast
  note e = validateNext_switch [OF sw au n]
  show "ascii (glob_rest w) \<and> gv_isRef w = gv_isRef v \<and> glob_count v \<le> glob_count w"
    using g(1) e by auto
  show "glob_item (gv_isRef v) (gv_prec v) (glob_rest v) q t \<longleftrightarrow>
      glob_count w = glob_count v \<and> gv_prec w = q \<and> glob_rest w = t"
    using g(1) g(2) [of q t] e s by auto
  show "go \<Longrightarrow> glob_rest w \<noteq> []" using e by blast
  show "glob_count w = glob_count v \<Longrightarrow> glob_rest w \<noteq> [] \<Longrightarrow> go"
    using e g(1) by auto
qed

lemma validate_loop_grammar:
  "ascii (glob_rest v) \<Longrightarrow> glob_rest v \<noteq> [] \<Longrightarrow>
   glob_count v \<le> glob_count (validate_loop v) \<and>
   (glob_count (validate_loop v) = glob_count v \<longleftrightarrow> glob_body (gv_isRef v) (gv_prec v) (glob_rest v))"
proof (induction v rule: validate_loop.induct)
  case (1 v)
  obtain go w where n: "validateNext v = (go, w)" by (cases "validateNext v") auto
  note g = validateNext_grammar [OF 1(2,3) n]
  have items: "glob_body (gv_isRef v) (gv_prec v) (glob_rest v) \<longleftrightarrow>
      glob_count w = glob_count v \<and> glob_body (gv_isRef v) (gv_prec w) (glob_rest w)"
    using g(2) 1(3) by (subst glob_body_iff) auto
  show ?case
  proof (cases go)
    case True
    then have "validate_loop v = validate_loop w" using n by (subst validate_loop.simps) simp
    then show ?thesis
      using 1(1) [OF n [symmetric] True] g(1,3) True items by auto
  next
    case False
    then have "validate_loop v = w" using n by (subst validate_loop.simps) simp
    moreover have "glob_rest w = [] \<or> glob_count w \<noteq> glob_count v" using g(4) False by blast
    ultimately show ?thesis using items g(1) by (auto intro: glob_body.finish)
  qed
qed

lemma validate_loop_count:
  assumes "ascii (glob_rest v)"
  shows "glob_count v \<le> glob_count (validate_loop v)"
proof (cases "glob_rest v = []")
  case True
  then have "glob_peek v = rune_EOF" "glob_advance v = v"
    using glob_peek_ascii [OF assms] by (simp_all add: glob_advance_def)
  then have "validateNext v = (False, v\<lparr>gv_prec := True\<rparr>)"
    by (simp add: validateNext_def glob_switch_EOF Let_def) (simp add: glob_peek_def)
  then show ?thesis by (subst validate_loop.simps) simp
qed (use validate_loop_grammar [OF assms] in blast)



subsection \<open>Columns\<close>

definition glob_bounded :: "nat \<Rightarrow> glob_validator \<Rightarrow> bool" where
  "glob_bounded n v \<longleftrightarrow>
     sc_off (gv_scan v) + length (glob_rest v) = n \<and> sc_col (gv_scan v) \<le> sc_off (gv_scan v) + 1 \<and>
     (\<forall>e\<in>set (gv_errs v). ge_column e \<le> n)"

lemma glob_bounded_error [intro!]: "glob_bounded n v \<Longrightarrow> glob_bounded n (glob_error m v)"
  by (auto simp: glob_bounded_def glob_error_def Let_def)

lemma glob_bounded_reports [intro!]:
  "glob_bounded n v \<Longrightarrow> glob_bounded n (glob_unexpected r w y v)"
  "glob_bounded n v \<Longrightarrow> glob_bounded n (invalidRefChar r s v)"
  by (auto simp: glob_unexpected_def invalidRefChar_def)

lemma sc_col_advance:
  "sc_col s \<le> sc_off s + 1 \<Longrightarrow> sc_col (sc_advance s) \<le> sc_off (sc_advance s) + 1"
  using decode_width_pos [of "sc_rest s"] by (auto simp: sc_advance_def Let_def split_beta)

lemma glob_bounded_set:
  "glob_bounded n v \<Longrightarrow> sc_off s + length (sc_rest s) = n \<Longrightarrow> sc_col s \<le> sc_off s + 1
   \<Longrightarrow> glob_bounded n (glob_set s v)"
  by (auto simp: glob_set_def glob_bounded_def glob_error_def Let_def split: option.split)

lemma glob_bounded_advance [intro!]: "glob_bounded n v \<Longrightarrow> glob_bounded n (glob_advance v)"
  by (auto simp: glob_advance_def intro!: glob_bounded_set sc_col_advance [simplified])
    (auto simp: glob_bounded_def sc_advance_total)

lemma glob_bounded_prec [simp]: "glob_bounded n (v\<lparr>gv_prec := p\<rparr>) = glob_bounded n v"
  by (simp add: glob_bounded_def)

lemma glob_bounded_if:
  "glob_bounded n x \<Longrightarrow> glob_bounded n y \<Longrightarrow> glob_bounded n (if c then x else y)"
  by simp

lemma glob_bounded_class:
  "glob_class k v = (c, m, ok, w) \<Longrightarrow> glob_bounded n v \<Longrightarrow> glob_bounded n w"
proof (induction k v arbitrary: c m ok w rule: glob_class.induct)
  case (1 k v)
  note IH = 1(1) [OF refl refl] 1(2) [OF refl refl _ _ _ refl refl refl]
      1(3) [OF refl refl _ _ _ refl refl refl]
  show ?case using 1(4,5)
    by (subst (asm) glob_class.simps)
      (auto simp: Let_def split: if_splits intro: IH)
qed

lemma glob_bounded_switch:
  "glob_switch c v = (d, p, ok, w) \<Longrightarrow> glob_bounded n v \<Longrightarrow> glob_bounded n w"
  by (auto simp: glob_switch_def glob_escape_def glob_bracket_def glob_quantifier_def Let_def
      split: if_splits prod.splits dest: glob_bounded_class)

lemma glob_bounded_next: "glob_bounded n v \<Longrightarrow> validateNext v = (go, w) \<Longrightarrow> glob_bounded n w"
  by (auto simp: validateNext_def Let_def split: if_splits prod.splits dest!: glob_bounded_switch)

lemma glob_bounded_loop: "glob_bounded n v \<Longrightarrow> glob_bounded n (validate_loop v)"
  by (induction v rule: validate_loop.induct, subst validate_loop.simps)
    (auto split: prod.split dest: glob_bounded_next)

text \<open>
  Bounds: whatever the bytes of the pattern, the column of every reported error is at most
  the pattern's length (zero when the error is not at a character).
\<close>

theorem Validate_columns:
  assumes "e \<in> set (Validate pat ref)"
  shows "ge_column e \<le> length pat"
proof -
  have start: "glob_bounded (length pat) (glob_init ref pat)"
    by (simp add: glob_bounded_def glob_init_def sc_init_def)
  have load: "glob_bounded (length pat) (glob_load (glob_init ref pat))"
  proof (cases "sc_ch (sc_init pat) = 65279")
    case True
    then show ?thesis
      using start sc_col_advance [of "sc_init pat"] sc_advance_total [of "sc_init pat"]
      by (auto simp: glob_load_def glob_init_def sc_load_def sc_init_def intro!: glob_bounded_set)
  next
    case False
    then show ?thesis
      using start
      by (auto simp: glob_load_def glob_init_def sc_load_def sc_init_def intro!: glob_bounded_set)
  qed
  have "glob_bounded (length pat) (validate_glob ref pat)"
    unfolding validate_glob_def Let_def
    by (intro glob_bounded_if glob_bounded_error glob_bounded_loop glob_bounded_reports
        glob_bounded_advance glob_bounded_prec [THEN iffD2] start load)
  then show ?thesis using assms by (simp add: Validate_def glob_bounded_def)
qed

theorem Validate_columns_witness:
  "\<exists>e \<in> set (Validate ''a++'' False). ge_column e = 3 \<and> ge_column e \<le> length ''a++''"
proof -
  have "map ge_column (Validate ''a++'' False) = [3]" by code_simp
  then obtain e where e: "e \<in> set (Validate ''a++'' False)" "ge_column e = 3"
    by (auto simp: map_eq_Cons_conv)
  with Validate_columns [OF e(1)] show ?thesis by auto
qed

text \<open>
  The rune a report names is not always the offending one: of an escaped \<open>[\<close>, \<open>?\<close> or \<open>*\<close> in the
  name of a branch, the validator names the rune after it.
\<close>

lemma escaped_reports_next:
  assumes "glob_peek v \<in> {91, 63, 42}" and "gv_isRef (glob_advance v)"
  shows "\<exists>m. gv_errs (snd (glob_escape v)) = gv_errs (glob_advance v) @ [m] \<and>
    ge_message m = GlobRefChar (glob_peek (glob_advance v)) ref_chars"
  using assms by (auto simp: glob_escape_def Let_def invalidRefChar_def glob_error_def)

end
