(* ===== verification/Name_Checks.thy ===== *)
theory Name_Checks
  imports Diagnostic
begin

text \<open>
  The rules of \<open>internal/semantics\<close> that look at one declaration at a time: permissions
  (\<open>permission/check.go\<close>, \<open>permission/catalog.go\<close>), IDs of jobs and steps
  (\<open>identifier/check.go\<close>) and names of environment variables (\<open>envname/check.go\<close>).
\<close>

subsection \<open>Permissions\<close>

record perm_value =
  pv_text :: string
  pv_start :: diag_pos

record perm_scope =
  ps_name :: perm_value
  ps_level :: perm_value

record perm_declaration =
  pd_all :: "perm_value option"
  pd_scopes :: "perm_scope list"

datatype perm_msg =
    InvalidForAllScopes string
  | UnknownScope string "string list"
  | InvalidLevel string string "string list"

definition permission_scopes :: "(string \<times> string list) list" where
  "permission_scopes =
    [(''actions'', [''read'', ''write'', ''none'']),
     (''artifact-metadata'', [''read'', ''write'', ''none'']),
     (''attestations'', [''read'', ''write'', ''none'']),
     (''checks'', [''read'', ''write'', ''none'']),
     (''code-quality'', [''read'', ''write'', ''none'']),
     (''contents'', [''read'', ''write'', ''none'']),
     (''copilot-requests'', [''write'', ''none'']),
     (''deployments'', [''read'', ''write'', ''none'']),
     (''discussions'', [''read'', ''write'', ''none'']),
     (''drives'', [''read'', ''write'', ''none'']),
     (''id-token'', [''write'', ''none'']),
     (''issues'', [''read'', ''write'', ''none'']),
     (''models'', [''read'', ''none'']),
     (''packages'', [''read'', ''write'', ''none'']),
     (''pages'', [''read'', ''write'', ''none'']),
     (''pull-requests'', [''read'', ''write'', ''none'']),
     (''repository-projects'', [''read'', ''write'', ''none'']),
     (''security-events'', [''read'', ''write'', ''none'']),
     (''statuses'', [''read'', ''write'', ''none'']),
     (''vulnerability-alerts'', [''read'', ''none''])]"

definition perm_report :: "diag_pos \<Rightarrow> perm_msg \<Rightarrow> perm_msg diagnostic" where
  "perm_report p m = \<lparr>dg_rule = ''permissions'', dg_start = p, dg_message = m\<rparr>"

definition check_scope :: "perm_scope \<Rightarrow> perm_msg diagnostic list" where
  "check_scope s =
     (let name = pv_text (ps_name s); level = pv_text (ps_level s) in
      case map_of permission_scopes name of
        None \<Rightarrow>
          [perm_report (pv_start (ps_name s)) (UnknownScope name (sort (al_keys permission_scopes)))]
      | Some allowed \<Rightarrow>
          if level \<notin> set allowed
          then [perm_report (pv_start (ps_level s)) (InvalidLevel level name allowed)] else [])"

definition check_permissions :: "perm_declaration \<Rightarrow> perm_msg diagnostic list" where
  "check_permissions d =
     (case pd_all d of
        Some a \<Rightarrow>
          if pv_text a \<noteq> ''write-all'' \<and> pv_text a \<noteq> ''read-all''
          then [perm_report (pv_start a) (InvalidForAllScopes (pv_text a))] else []
      | None \<Rightarrow> concat (map check_scope (pd_scopes d)))"

subsection \<open>IDs of jobs and steps\<close>

definition ident_start :: "char \<Rightarrow> bool" where
  "ident_start c \<longleftrightarrow> 97 \<le> rn c \<and> rn c \<le> 122 \<or> 65 \<le> rn c \<and> rn c \<le> 90 \<or> c = CHR ''_''"

definition ident_rest :: "char \<Rightarrow> bool" where
  "ident_rest c \<longleftrightarrow> ident_start c \<or> 48 \<le> rn c \<and> rn c \<le> 57 \<or> c = CHR ''-''"

definition Valid :: "string \<Rightarrow> bool" where
  "Valid v = (case v of [] \<Rightarrow> False | c # cs \<Rightarrow> ident_start c \<and> list_all ident_rest cs)"

record id_name =
  id_value :: string
  id_dynamic :: bool
  id_start :: diag_pos

record id_job =
  ij_id :: "id_name option"
  ij_needs :: "id_name list"
  ij_steps :: "id_name list"

datatype id_msg =
    InvalidID string string
  | ReservedPrefix string
  | TooLong string
  | DuplicateStep string diag_pos

definition id_report :: "id_name \<Rightarrow> id_msg \<Rightarrow> id_msg diagnostic" where
  "id_report n m = \<lparr>dg_rule = ''id'', dg_start = id_start n, dg_message = m\<rparr>"

definition id_convention :: "id_name \<Rightarrow> string \<Rightarrow> id_msg diagnostic list" where
  "id_convention n kind =
     (if id_value n \<noteq> [] \<and> \<not> id_dynamic n \<and> \<not> Valid (id_value n)
      then [id_report n (InvalidID kind (id_value n))] else [])"

fun check_steps :: "(string \<rightharpoonup> diag_pos) \<Rightarrow> id_name list \<Rightarrow> id_msg diagnostic list" where
  "check_steps seen [] = []"
| "check_steps seen (n # ns) =
     id_convention n ''step'' @
     (if has_prefix (id_value n) ''__'' then [id_report n (ReservedPrefix (id_value n))] else []) @
     (if 100 \<le> length (id_value n) then [id_report n (TooLong (id_value n))] else []) @
     (case seen (to_lower (id_value n)) of
        Some prev \<Rightarrow> id_report n (DuplicateStep (id_value n) prev) # check_steps seen ns
      | None \<Rightarrow> check_steps (seen(to_lower (id_value n) \<mapsto> id_start n)) ns)"

definition check_identifiers :: "id_job \<Rightarrow> id_msg diagnostic list" where
  "check_identifiers j =
     (case ij_id j of Some n \<Rightarrow> id_convention n ''job'' | None \<Rightarrow> []) @
     concat (map (\<lambda>n. id_convention n ''job'') (ij_needs j)) @
     check_steps Map.empty (ij_steps j)"

subsection \<open>Environment variables\<close>

datatype key_state = UnknownKey | KnownKey | InvalidKey

record env_entry =
  en_name :: string
  en_state :: key_state
  en_start :: diag_pos

definition check_env_names :: "env_entry list \<Rightarrow> string diagnostic list" where
  "check_env_names entries =
     concat (map (\<lambda>e.
       if en_state e = UnknownKey \<or> \<not> list_ex (\<lambda>c. c \<in> set (''&= '' @ [CHR 0x09])) (en_name e)
       then [] else [\<lparr>dg_rule = ''env-var'', dg_start = en_start e, dg_message = en_name e\<rparr>]) entries)"

subsection \<open>What the ID rule accepts\<close>

definition step_ok :: "id_name \<Rightarrow> bool" where
  "step_ok n \<longleftrightarrow>
     (id_value n = [] \<or> id_dynamic n \<or> Valid (id_value n)) \<and>
     \<not> has_prefix (id_value n) ''__'' \<and> length (id_value n) < 100"

lemma check_steps_Nil_iff:
  "check_steps seen ns = [] \<longleftrightarrow>
     list_all step_ok ns \<and> distinct (map (to_lower \<circ> id_value) ns) \<and>
     (\<forall>n\<in>set ns. seen (to_lower (id_value n)) = None)"
proof (induction ns arbitrary: seen)
  case (Cons n ns)
  then show ?case
    by (cases "seen (to_lower (id_value n))")
      (auto simp: step_ok_def id_convention_def image_iff)
qed simp

text \<open>The duplicates: each names the position of the first step with the same ID.\<close>

lemma check_steps_duplicate:
  "d \<in> set (check_steps seen ns) \<Longrightarrow> dg_message d = DuplicateStep v p \<Longrightarrow>
   \<exists>us n ws. ns = us @ n # ws \<and> id_value n = v \<and> dg_start d = id_start n \<and>
     (case seen (to_lower v) of
        Some q \<Rightarrow> p = q
      | None \<Rightarrow> \<exists>m. List.find (\<lambda>m. to_lower (id_value m) = to_lower v) us = Some m \<and> p = id_start m)"
proof (induction ns arbitrary: seen)
  case (Cons n ns)
  let ?i = "to_lower (id_value n)"
  let ?seen = "case seen ?i of Some q \<Rightarrow> seen | None \<Rightarrow> seen(?i \<mapsto> id_start n)"
  consider (here) q where "seen ?i = Some q" "d = id_report n (DuplicateStep (id_value n) q)"
    | (later) "d \<in> set (check_steps ?seen ns)"
    using Cons.prems
    by (auto simp: id_convention_def id_report_def split: if_splits option.splits)
  then show ?case
  proof cases
    case here
    then show ?thesis using Cons.prems(2) by (auto simp: id_report_def intro!: exI [of _ "[]"])
  next
    case later
    from Cons.IH [OF this Cons.prems(2)] obtain us m ws where
      ns: "ns = us @ m # ws" "id_value m = v" "dg_start d = id_start m" and
      first: "case ?seen (to_lower v) of Some q \<Rightarrow> p = q
        | None \<Rightarrow> \<exists>m. List.find (\<lambda>m. to_lower (id_value m) = to_lower v) us = Some m \<and> p = id_start m"
      by blast
    have "case seen (to_lower v) of Some q \<Rightarrow> p = q
        | None \<Rightarrow> \<exists>m. List.find (\<lambda>m. to_lower (id_value m) = to_lower v) (n # us) = Some m
            \<and> p = id_start m"
      using first by (auto split: option.splits if_splits)
    with ns show ?thesis by (intro exI [of _ "n # us"]) auto
  qed
qed simp

definition first_with_id :: "string \<Rightarrow> id_name list \<Rightarrow> id_name option" where
  "first_with_id v ns = List.find (\<lambda>m. to_lower (id_value m) = to_lower v) ns"

text \<open>
  The ID rule is silent exactly when the IDs of the job, of its needs and of its steps follow
  the convention (dynamic ones apart), no step ID is reserved or too long, and the step IDs
  differ even when their letter case is ignored; a duplicate is reported at its own position with
  the position of the first step that has the ID.
\<close>

theorem identifiers_clean_iff:
  "(check_identifiers j = [] \<longleftrightarrow>
      (\<forall>n. ij_id j = Some n \<or> n \<in> set (ij_needs j) \<longrightarrow>
         id_value n = [] \<or> id_dynamic n \<or> Valid (id_value n)) \<and>
      list_all step_ok (ij_steps j) \<and> distinct (map (to_lower \<circ> id_value) (ij_steps j))) \<and>
   (\<forall>d\<in>set (check_identifiers j). \<forall>v p. dg_message d = DuplicateStep v p \<longrightarrow>
      (\<exists>us n ws m. ij_steps j = us @ n # ws \<and> id_value n = v \<and> dg_start d = id_start n \<and>
         first_with_id v us = Some m \<and> p = id_start m))"
proof (intro conjI ballI allI impI)
  show "check_identifiers j = [] \<longleftrightarrow>
      (\<forall>n. ij_id j = Some n \<or> n \<in> set (ij_needs j) \<longrightarrow>
         id_value n = [] \<or> id_dynamic n \<or> Valid (id_value n)) \<and>
      list_all step_ok (ij_steps j) \<and> distinct (map (to_lower \<circ> id_value) (ij_steps j))"
    by (cases "ij_id j") (auto simp: check_identifiers_def check_steps_Nil_iff id_convention_def)
next
  fix d v p
  assume "d \<in> set (check_identifiers j)" and m: "dg_message d = DuplicateStep v p"
  then have "d \<in> set (check_steps Map.empty (ij_steps j))"
    by (auto simp: check_identifiers_def id_convention_def id_report_def
        split: option.splits if_splits)
  from check_steps_duplicate [OF this m] show "\<exists>us n ws m. ij_steps j = us @ n # ws \<and>
      id_value n = v \<and> dg_start d = id_start n \<and> first_with_id v us = Some m \<and> p = id_start m"
    by (auto simp: first_with_id_def)
qed

theorem identifiers_clean_iff_witness:
  "let step = (\<lambda>v l. \<lparr>id_value = v, id_dynamic = False, id_start = \<lparr>dp_line = l, dp_column = 7\<rparr>\<rparr>);
       j = (\<lambda>ss. \<lparr>ij_id = Some (step ''build'' 1), ij_needs = [], ij_steps = ss\<rparr>)
   in check_identifiers (j [step ''Setup'' 5, step ''run-1'' 9]) = []
    \<and> check_identifiers (j [step ''Setup'' 5, step ''SETUP'' 9]) \<noteq> []"
proof -
  have "to_lower ''Setup'' = to_lower ''SETUP''" "to_lower ''Setup'' \<noteq> to_lower ''run-1''"
    "Valid ''build''" "Valid ''Setup''" "Valid ''run-1''"
    by code_simp+
  then show ?thesis
    using identifiers_clean_iff by (simp add: Let_def step_ok_def)
qed

end
