(* ===== verification/Condition_Check.thy ===== *)
theory Condition_Check
  imports Diagnostic Eval_Spec Expr_Sema Parser_Correct
begin

text \<open>
  The rule on \<open>if:\<close> conditions (\<open>internal/semantics/condition/check.go\<close>): a condition whose
  template has text around it, or whose expression is a constant, is reported. It composes the
  parser of conditions, the semantics checker and the constant folding; \<open>same\<close> is the pointer
  equality of types the checker compares operands with.
\<close>

datatype condition_msg =
    ExtraCharacters string
  | ConstantTruthy string
  | ConstantFalsy string

definition condition_report :: "diag_pos \<Rightarrow> condition_msg \<Rightarrow> condition_msg diagnostic" where
  "condition_report p m = \<lparr>dg_rule = ''if-cond'', dg_start = p, dg_message = m\<rparr>"

definition condition_text :: "string \<Rightarrow> string" where
  "condition_text value' =
     (let t = trim_space (ConditionSource value') in
      if has_prefix t ''${{'' then trim_space (slice t 3 (length t - 2)) else t)"

definition constant_finding :: "string \<Rightarrow> json \<Rightarrow> condition_msg" where
  "constant_finding value' v =
     (if ExpressionTruthy v then ConstantTruthy (condition_text value')
      else ConstantFalsy (condition_text value'))"

definition CheckCondition ::
  "(ty \<Rightarrow> ty \<Rightarrow> bool) \<Rightarrow> string \<Rightarrow> diag_pos \<Rightarrow> condition_msg diagnostic list option" where
  "CheckCondition same value' start =
     (case ParseConditionExpression value' of
        None \<Rightarrow> None
      | Some (_, Some e, _) \<Rightarrow> Some []
      | Some (None, None, _) \<Rightarrow> Some [condition_report start (ExtraCharacters value')]
      | Some (Some expr, None, _) \<Rightarrow>
          (let checker = NewChecker same False None in
           if \<not> IsConstant (ck_funcs checker) expr then Some []
           else if snd (fst (Check expr checker)) \<noteq> [] then Some []
           else (case ConditionConstantValue expr of
               Some v \<Rightarrow> Some [condition_report start (constant_finding value' v)]
             | None \<Rightarrow> Some [])))"

lemma parse_returns: "parse l \<noteq> None"
  by (cases l rule: parse_cases) (simp_all add: parse_def parser_err_def split: option.split prod.split)

lemma ParseConditionExpression_returns: "ParseConditionExpression source \<noteq> None"
  using parse_returns [of "new_lexer (ConditionSource source @ ''}}'')"]
    parse_returns [of "new_lexer (drop 3 source)"]
  by (auto simp: ParseConditionExpression_def Let_def split: option.splits sum.splits)

lemma CheckCondition_cases:
  assumes "CheckCondition same value' start = Some ds" and "d \<in> set ds"
    and "dg_message d \<noteq> ExtraCharacters value'"
  obtains expr off v where "ParseConditionExpression value' = Some (Some expr, None, off)"
    and "ConditionConstantValue expr = Some v"
    and "ds = [condition_report start (constant_finding value' v)]"
  using assms
  by (auto simp: CheckCondition_def condition_report_def Let_def split: option.splits if_splits)



end
