(* ===== verification/Yaml_Document.thy ===== *)
theory Yaml_Document
  imports Go_Json Diagnostic
begin

text \<open>
  The physical lines of a YAML source (\<open>internal/yamlsource/document.go\<close> and
  \<open>internal/yamlsource/token.go\<close>) and the byte offset of a position in an edit
  (\<open>Offset\<close> of \<open>internal/fix/plan.go\<close>). A callback of \<open>visitLines\<close> is a line and its ending, so
  the calls of one scan are a list of pairs.
\<close>

subsection \<open>Lines\<close>

definition bom :: string where
  "bom = [CHR 0xEF, CHR 0xBB, CHR 0xBF]"

definition trim_bom :: "string \<Rightarrow> string" where
  "trim_bom s = (if has_prefix s bom then drop 3 s else s)"

text \<open>The length in bytes of the line ending that starts with the rune \<open>r\<close>; 0 for any other rune.\<close>

definition break_size :: "rune \<Rightarrow> string \<Rightarrow> nat" where
  "break_size r s =
     (if r = 10 then 1
      else if r = 13 then (if has_prefix (drop 1 s) [CHR 0x0A] then 2 else 1)
      else if r = 133 then 2
      else if r = 8232 \<or> r = 8233 then 3 else 0)"

text \<open>
  The loop of \<open>visitLines\<close>: the bytes of \<open>source[start:offset]\<close> and those from \<open>offset\<close> on.
\<close>

function visit_lines :: "string \<Rightarrow> string \<Rightarrow> (string \<times> string) list" where
  "visit_lines line [] = [(line, [])]"
| "visit_lines line (c # cs) =
     (case decode_rune (c # cs) of (r, w) \<Rightarrow>
        let n = break_size r (c # cs) in
        if n = 0 then visit_lines (line @ take w (c # cs)) (drop w (c # cs))
        else (line, take n (c # cs)) # visit_lines [] (drop n (c # cs)))"
  by pat_completeness auto
termination
proof (relation "measure (length \<circ> snd)", goal_cases)
  case (2 l c cs p w n)
  have "1 \<le> w" using decode_width_pos [of "c # cs"] 2(1)
    by (metis list.distinct(1) snd_conv)
  then show ?case by (cases w) auto
next
  case (3 l c cs p w n)
  then show ?case by (cases n) auto
qed simp

declare visit_lines.simps(2) [simp del]

record document =
  doc_lines :: "string list"
  doc_breaks :: "string list"
  doc_columns :: "nat list option list"

text \<open>The offsets \<open>range\<close> gives for the runes of a string.\<close>

function rune_offsets :: "nat \<Rightarrow> string \<Rightarrow> nat list" where
  "rune_offsets i [] = []"
| "rune_offsets i (c # cs) =
     (let w = snd (decode_rune (c # cs)) in i # rune_offsets (i + w) (drop w (c # cs)))"
  by pat_completeness auto
termination
proof (relation "measure (length \<circ> snd)", goal_cases)
  case (2 i c cs w)
  then show ?case using decode_width_pos [of "c # cs"] by (cases w) (auto simp del: decode_rune.simps)
qed simp

declare rune_offsets.simps(2) [simp del]

definition line_columns :: "string \<Rightarrow> nat list option" where
  "line_columns line =
     (if length (runes line) \<noteq> length line then Some (rune_offsets 0 line @ [length line]) else None)"

definition NewDocument :: "string \<Rightarrow> document" where
  "NewDocument source =
     (let ls = visit_lines [] (trim_bom source) in
      \<lparr>doc_lines = map fst ls, doc_breaks = map snd ls,
       doc_columns = map (line_columns \<circ> fst) ls\<rparr>)"

definition SourceLine :: "string \<Rightarrow> int \<Rightarrow> string option" where
  "SourceLine source line =
     (let ls = visit_lines [] (trim_bom source) in
      if line < 1 then None
      else if nat line \<le> length ls then Some (fst (ls ! (nat line - 1))) else None)"

definition ByteOffset :: "document \<Rightarrow> int \<Rightarrow> int \<Rightarrow> nat option" where
  "ByteOffset d row column =
     (if row < 0 \<or> int (length (doc_lines d)) \<le> row \<or> column < 1 then None
      else case doc_columns d ! nat row of
        Some offsets \<Rightarrow>
          if int (length offsets) < column then None else Some (offsets ! nat (column - 1))
      | None \<Rightarrow>
          if column - 1 \<le> int (length (doc_lines d ! nat row)) then Some (nat (column - 1)) else None)"

text \<open>\<open>sort.SearchInts\<close> on an ascending list.\<close>

definition search_ints :: "nat list \<Rightarrow> nat \<Rightarrow> nat" where
  "search_ints xs x = length (takeWhile (\<lambda>y. y < x) xs)"

definition column_at :: "document \<Rightarrow> nat \<Rightarrow> nat \<Rightarrow> nat" where
  "column_at d row offset =
     (case doc_columns d ! row of
        Some offsets \<Rightarrow> search_ints offsets offset + 1
      | None \<Rightarrow> offset + 1)"

subsection \<open>Tokens of a line\<close>

text \<open>The loop of \<open>TokenEndColumn\<close> over the runes: \<open>current\<close> and \<open>end\<close>.\<close>

fun token_end_loop :: "int \<Rightarrow> int \<Rightarrow> int \<Rightarrow> rune list \<Rightarrow> int" where
  "token_end_loop column current e [] = e"
| "token_end_loop column current e (r # rs) =
     (if column \<le> current then
        (if r = 32 \<or> r = 9 \<or> r = 10 \<or> r = 13 then e
         else token_end_loop column (current + 1) (e + 1) rs)
      else token_end_loop column (current + 1) e rs)"

definition TokenEndColumn :: "string \<Rightarrow> int \<Rightarrow> int" where
  "TokenEndColumn line column =
     (if column < 1 then column + 1
      else max (column + 1) (token_end_loop column 1 column (runes line)))"

definition ByteOffsetAtColumn :: "string \<Rightarrow> int \<Rightarrow> nat option" where
  "ByteOffsetAtColumn s column =
     (let offsets = rune_offsets 0 s in
      if column \<le> 0 then None
      else if nat column \<le> length offsets then Some (offsets ! (nat column - 1))
      else if nat column = length offsets + 1 then Some (length s)
      else None)"

definition InclusiveEnd :: "string \<Rightarrow> int \<Rightarrow> int \<Rightarrow> int" where
  "InclusiveEnd line column explicit =
     (if column \<le> explicit then explicit else TokenEndColumn line column - 1)"

subsection \<open>Positions of edits\<close>

definition valid_utf8 :: "string \<Rightarrow> bool" where
  "valid_utf8 s \<longleftrightarrow>
     list_all (\<lambda>i. decode_rune (drop i s) \<noteq> (rune_error, 1)) (rune_offsets 0 s)"

definition line_start :: "document \<Rightarrow> nat \<Rightarrow> nat" where
  "line_start d n = sum_list (map length (take n (doc_lines d))) + sum_list (map length (take n (doc_breaks d)))"

datatype offset_error = InvalidSourcePosition diag_pos | OutsideDocument diag_pos

definition Offset :: "string \<Rightarrow> diag_pos \<Rightarrow> offset_error + nat" where
  "Offset content p =
     (if dp_line p < 1 \<or> dp_column p < 1 \<or> \<not> valid_utf8 content then Inl (InvalidSourcePosition p)
      else
        let d = NewDocument content in
        if int (length (doc_lines d)) < dp_line p then Inl (OutsideDocument p)
        else (case ByteOffset d (dp_line p - 1) (dp_column p) of
            None \<Rightarrow> Inl (OutsideDocument p)
          | Some column \<Rightarrow>
              Inr (column + (if has_prefix content bom then 3 else 0)
                   + line_start d (nat (dp_line p - 1)))))"

end
