(* ===== verification/Fix_Plan.thy ===== *)
theory Fix_Plan
  imports Yaml_Document "HOL-Library.Product_Lexorder"
begin

text \<open>
  Planning of source edits (\<open>Build\<close> of \<open>internal/fix/plan.go\<close>). What \<open>Build\<close> takes from its
  surroundings is a record: the absolute path of a path, the content of a file, its digest
  (SHA-256 in the code; nothing is assumed of it), and whether the context has been cancelled
  when it is asked for the n-th time. An error is a value of \<open>fix_error\<close>.
\<close>

subsection \<open>Data\<close>

record source_edit =
  se_path :: string
  se_start :: diag_pos
  se_end :: diag_pos
  se_replacement :: string

record source_fix =
  sf_applicability :: string
  sf_revisions :: "string \<rightharpoonup> string"
  sf_edits :: "source_edit list"

record change =
  ch_path :: string
  ch_before :: string
  ch_after :: string
  ch_revision :: string

record plan =
  pl_changes :: "change list"
  pl_skipped :: nat

record edit =
  ed_start :: nat
  ed_end :: nat
  ed_text :: string

datatype fix_error =
    Cancelled
  | NoWritablePath
  | BadPath string
  | Unreadable string
  | StaleRevision string
  | BadOffset string offset_error
  | InvalidEnd string
  | Overlapping string
  | NotRegular string
  | SourceChanged string
  | SystemError string

record fix_env =
  fv_abs :: "string \<Rightarrow> string option"
  fv_read :: "string \<Rightarrow> string option"
  fv_digest :: "string \<Rightarrow> string"
  fv_cancelled :: "nat \<Rightarrow> bool"

record build =
  bd_edits :: "(string \<times> edit list) list"
  bd_sources :: "(string \<times> string) list"
  bd_skipped :: nat
  bd_asked :: nat

subsection \<open>Collecting the edits\<close>

text \<open>A loop whose body may return an error.\<close>

fun fold_err :: "('a \<Rightarrow> 's \<Rightarrow> 'e + 's) \<Rightarrow> 'a list \<Rightarrow> 's \<Rightarrow> 'e + 's" where
  "fold_err f [] s = Inr s"
| "fold_err f (x # xs) s = (case f x s of Inl e \<Rightarrow> Inl e | Inr t \<Rightarrow> fold_err f xs t)"

definition source_of :: "fix_env \<Rightarrow> string \<Rightarrow> build \<Rightarrow> (string \<times> build) option" where
  "source_of v path b =
     (case map_of (bd_sources b) path of
        Some content \<Rightarrow> Some (content, b)
      | None \<Rightarrow>
          (case fv_read v path of
             None \<Rightarrow> None
           | Some content \<Rightarrow> Some (content, b\<lparr>bd_sources := al_put path content (bd_sources b)\<rparr>)))"

definition resolve_edit :: "string \<Rightarrow> string \<Rightarrow> source_edit \<Rightarrow> fix_error + edit" where
  "resolve_edit path content e =
     (case Offset content (se_start e) of
        Inl err \<Rightarrow> Inl (BadOffset path err)
      | Inr i \<Rightarrow>
          (case Offset content (se_end e) of
             Inl err \<Rightarrow> Inl (InvalidEnd path)
           | Inr j \<Rightarrow>
               if j < i then Inl (InvalidEnd path)
               else Inr \<lparr>ed_start = i, ed_end = j, ed_text = se_replacement e\<rparr>))"

definition edits_at :: "string \<Rightarrow> build \<Rightarrow> edit list" where
  "edits_at path b = (case map_of (bd_edits b) path of Some es \<Rightarrow> es | None \<Rightarrow> [])"

definition build_edit :: "fix_env \<Rightarrow> source_fix \<Rightarrow> source_edit \<Rightarrow> build \<Rightarrow> fix_error + build" where
  "build_edit v f e b =
     (let n = bd_asked b; b = b\<lparr>bd_asked := n + 1\<rparr> in
      if fv_cancelled v n then Inl Cancelled
      else if se_path e = [] \<or> se_path e = ''<stdin>'' then Inl NoWritablePath
      else case fv_abs v (se_path e) of
        None \<Rightarrow> Inl (BadPath (se_path e))
      | Some path \<Rightarrow>
          (case source_of v path b of
             None \<Rightarrow> Inl (Unreadable path)
           | Some (content, b) \<Rightarrow>
               let revision = (case sf_revisions f (se_path e) of Some r \<Rightarrow> r | None \<Rightarrow> []) in
               if revision = [] \<or> revision \<noteq> fv_digest v content
               then Inl (StaleRevision (se_path e))
               else (case resolve_edit path content e of
                   Inl err \<Rightarrow> Inl err
                 | Inr ed \<Rightarrow>
                     Inr (b\<lparr>bd_edits := al_put path (edits_at path b @ [ed]) (bd_edits b)\<rparr>))))"

text \<open>The alternatives of a finding: skipped up to the first permitted one, which is taken.\<close>

definition permitted :: "bool \<Rightarrow> source_fix \<Rightarrow> bool" where
  "permitted includeSuggested f \<longleftrightarrow> sf_applicability f = ''safe'' \<or> includeSuggested"

fun build_fixes :: "fix_env \<Rightarrow> bool \<Rightarrow> source_fix list \<Rightarrow> build \<Rightarrow> fix_error + build" where
  "build_fixes v incl [] b = Inr b"
| "build_fixes v incl (f # fs) b =
     (if \<not> permitted incl f then build_fixes v incl fs (b\<lparr>bd_skipped := bd_skipped b + 1\<rparr>)
      else fold_err (build_edit v f) (sf_edits f) b)"

subsection \<open>Applying them to the sources\<close>

definition order_edits :: "edit list \<Rightarrow> edit list" where
  "order_edits es = remdups_adj (sort_key (\<lambda>e. (ed_start e, ed_end e)) es)"

fun overlapping :: "edit list \<Rightarrow> bool" where
  "overlapping (a # b # es) =
     (ed_start b < ed_end a \<or> ed_start b = ed_start a \<or> overlapping (b # es))"
| "overlapping _ = False"

fun render :: "string \<Rightarrow> nat \<Rightarrow> edit list \<Rightarrow> string" where
  "render before cursor [] = drop cursor before"
| "render before cursor (e # es) =
     slice before cursor (ed_start e) @ ed_text e @ render before (ed_end e) es"

definition plan_change :: "fix_env \<Rightarrow> build \<Rightarrow> string \<Rightarrow> change list \<Rightarrow> fix_error + change list" where
  "plan_change v b path changes =
     (let items = order_edits (edits_at path b) in
      if overlapping items then Inl (Overlapping path)
      else
        let before = (case map_of (bd_sources b) path of Some s \<Rightarrow> s | None \<Rightarrow> []);
            after = render before 0 items
        in Inr (if after \<noteq> before
                then changes @ [\<lparr>ch_path = path, ch_before = before, ch_after = after,
                                 ch_revision = fv_digest v before\<rparr>]
                else changes))"

definition build_init :: build where
  "build_init = \<lparr>bd_edits = [], bd_sources = [], bd_skipped = 0, bd_asked = 0\<rparr>"

definition Build :: "fix_env \<Rightarrow> source_fix list list \<Rightarrow> bool \<Rightarrow> fix_error + plan" where
  "Build v findings includeSuggested =
     (case fold_err (build_fixes v includeSuggested) findings build_init of
        Inl e \<Rightarrow> Inl e
      | Inr b \<Rightarrow>
          (case fold_err (plan_change v b) (sort (al_keys (bd_edits b))) [] of
             Inl e \<Rightarrow> Inl e
           | Inr changes \<Rightarrow> Inr \<lparr>pl_changes = changes, pl_skipped = bd_skipped b\<rparr>))"

end
