(* ===== verification/Document_Spec.thy ===== *)
theory Document_Spec
  imports Yaml_Document
begin

text \<open>
  The line index of a document: its lines and endings tile the source, columns and byte
  offsets correspond, and the offset of a position is in range, on a rune boundary and ordered
  as the position is.
\<close>

subsection \<open>Rune boundaries\<close>

text \<open>\<open>rune_cut u v\<close>: decoding \<open>u @ v\<close> from the left consumes exactly \<open>u\<close> after some runes.\<close>

inductive rune_cut :: "string \<Rightarrow> string \<Rightarrow> bool" where
  stop: "rune_cut [] v"
| step: "u \<noteq> [] \<Longrightarrow> decode_rune (u @ v) = (r, w) \<Longrightarrow> w \<le> length u \<Longrightarrow> rune_cut (drop w u) v
    \<Longrightarrow> rune_cut u v"

inductive_cases rune_cut_nonempty: "rune_cut (c # u) v"

lemma rune_cut_append: "rune_cut u (v @ w) \<Longrightarrow> rune_cut v w \<Longrightarrow> rune_cut (u @ v) w"
proof (induction u "v @ w" rule: rune_cut.induct)
  case (step u r k)
  then show ?case by - (rule rune_cut.step [of "u @ v" w r k], simp_all)
qed simp

lemma decode_prefix:
  assumes "decode_rune (u @ v) = (r, w)" and "w \<le> length u" and "u \<noteq> []"
  shows "decode_rune u = (r, w)"
proof -
  obtain c0 u0 where u: "u = c0 # u0" using assms(3) by (cases u) auto
  show ?thesis
  proof (cases u0)
    case Nil
    then show ?thesis using assms u by (auto simp: Let_def split: if_splits list.splits)
  next
    case (Cons c1 u1)
    show ?thesis
    proof (cases u1)
      case Nil
      then show ?thesis using assms u Cons by (auto simp: Let_def split: if_splits list.splits)
    next
      case (Cons c2 u2)
      then show ?thesis using assms u \<open>u0 = c1 # u1\<close>
        by (cases u2) (auto simp: Let_def split: if_splits list.splits)
    qed
  qed
qed

declare decode_rune.simps(2) [simp del]

lemma decode_take:
  assumes "decode_rune s = (r, w)" and "s \<noteq> []"
  shows "rune_cut (take w s) (drop w s)"
  using assms decode_width_le [of s] decode_width_pos [of s]
  by - (rule rune_cut.step [of _ _ r w], simp_all add: rune_cut.stop)

lemma runes_step:
  "s \<noteq> [] \<Longrightarrow> decode_rune s = (r, w) \<Longrightarrow> runes s = r # runes (drop w s)"
  using decode_width_pos [of s]
  by (cases s; cases w) (simp_all add: runes.simps(2))

lemma rune_offsets_step:
  "s \<noteq> [] \<Longrightarrow> decode_rune s = (r, w) \<Longrightarrow> rune_offsets i s = i # rune_offsets (i + w) (drop w s)"
  by (cases s) (simp_all add: rune_offsets.simps(2))

lemma runes_cut: "rune_cut u v \<Longrightarrow> runes (u @ v) = runes u @ runes v"
proof (induction rule: rune_cut.induct)
  case (step u v r w)
  then show ?case
    using runes_step [of "u @ v" r w] runes_step [of u r w] decode_prefix [of u v r w] by simp
qed simp

lemma offsets_cut:
  "rune_cut u v \<Longrightarrow> rune_offsets i (u @ v) = rune_offsets i u @ rune_offsets (i + length u) v"
proof (induction arbitrary: i rule: rune_cut.induct)
  case (step u v r w)
  then show ?case
    using rune_offsets_step [of "u @ v" r w] rune_offsets_step [of u r w] decode_prefix [of u v r w]
    by simp
qed simp

text \<open>The boundaries of a line: where its runes start, and its end.\<close>

definition bounds_of :: "string \<Rightarrow> nat list" where
  "bounds_of l = rune_offsets 0 l @ [length l]"

lemma offsets_shift: "rune_offsets (i + k) s = map ((+) k) (rune_offsets i s)"
proof (induction i s rule: rune_offsets.induct)
  case (2 i c cs)
  then show ?case
    by (cases "decode_rune (c # cs)")
      (simp add: rune_offsets.simps(2) add.commute add.left_commute)
qed simp

lemma bounds_step:
  "s \<noteq> [] \<Longrightarrow> decode_rune s = (r, w) \<Longrightarrow> bounds_of s = 0 # map ((+) w) (bounds_of (drop w s))"
  using decode_width_le [of s] rune_offsets_step [of s r w 0] offsets_shift [of 0 w "drop w s"]
  by (simp add: bounds_of_def)

lemma bounds_cut:
  "rune_cut u v \<Longrightarrow> k \<in> set (bounds_of u) \<Longrightarrow> k \<le> length u \<and> rune_cut (take k u) (drop k u @ v)"
proof (induction arbitrary: k rule: rune_cut.induct)
  case (stop v)
  then show ?case by (simp add: bounds_of_def rune_cut.stop)
next
  case (step u v r w)
  have u: "decode_rune u = (r, w)" using decode_prefix step.hyps by blast
  show ?case
  proof (cases "k = 0")
    case True
    then show ?thesis by (simp add: rune_cut.stop)
  next
    case False
    then obtain j where k: "k = w + j" "j \<in> set (bounds_of (drop w u))"
      using step.prems bounds_step [OF step.hyps(1) u] by auto
    from step.IH [OF k(2)] have j: "j \<le> length u - w" "rune_cut (take j (drop w u)) (drop j (drop w u) @ v)"
      by simp_all
    have "take k u @ drop k u @ v = u @ v" by (metis append_assoc append_take_drop_id)
    then have d: "decode_rune (take k u @ drop k u @ v) = (r, w)" using step.hyps(2) by (simp only:)
    have "drop w (take k u) = take j (drop w u)" "drop k u = drop j (drop w u)"
      using k(1) by (simp_all add: drop_take add.commute)
    then have "rune_cut (drop w (take k u)) (drop k u @ v)" using j(2) by simp
    with d have "rune_cut (take k u) (drop k u @ v)"
      using step.hyps(1,3) k(1) False j(1) by - (rule rune_cut.step [where r = r and w = w], simp_all)
    then show ?thesis using j(1) k(1) step.hyps(3) by simp
  qed
qed

lemma bounds_sorted: "sorted_wrt (<) (bounds_of s)"
proof (induction s rule: length_induct)
  case (1 s)
  show ?case
  proof (cases "s = []")
    case False
    obtain r w where d: "decode_rune s = (r, w)" by (cases "decode_rune s")
    have w: "1 \<le> w" "w \<le> length s"
      using decode_width_pos [OF False] decode_width_le [of s] d by simp_all
    have "sorted_wrt (<) (bounds_of (drop w s))" using 1 w False by simp
    then show ?thesis
      using bounds_step [OF False d] w by (simp add: sorted_wrt_map)
  qed (simp add: bounds_of_def)
qed

lemma length_offsets: "length (rune_offsets i s) = length (runes s)"
proof (induction i s rule: rune_offsets.induct)
  case (2 i c cs)
  then show ?case
    using runes_step [of "c # cs"] 
    by (cases "decode_rune (c # cs)")
      (simp add: rune_offsets.simps(2))
qed simp

lemma bounds_narrow:
  "length (runes s) \<le> length s \<and>
   (length (runes s) = length s \<longrightarrow> bounds_of s = [0..<Suc (length s)])"
proof (induction s rule: length_induct)
  case (1 s)
  show ?case
  proof (cases "s = []")
    case False
    obtain r w where d: "decode_rune s = (r, w)" by (cases "decode_rune s")
    have w: "1 \<le> w" "w \<le> length s"
      using decode_width_pos [OF False] decode_width_le [of s] d by simp_all
    have "length (drop w s) < length s" using w False by simp
    then have IH: "length (runes (drop w s)) \<le> length (drop w s)"
      "length (runes (drop w s)) = length (drop w s) \<Longrightarrow>
        bounds_of (drop w s) = [0..<Suc (length (drop w s))]"
      using 1 by blast+
    have n: "length (runes s) = Suc (length (runes (drop w s)))"
      using runes_step [OF False d] by simp
    have "bounds_of s = [0..<Suc (length s)]" if "length (runes s) = length s"
    proof -
      have "w = 1" using that n IH(1) w by simp
      then have "length (runes (drop w s)) = length (drop w s)" using that n w by simp
      from IH(2) [OF this] have "bounds_of (drop 1 s) = [0..<length s]"
        using \<open>w = 1\<close> False by (simp del: upt_Suc)
      then have "bounds_of s = 0 # map Suc [0..<length s]"
        using bounds_step [OF False d] \<open>w = 1\<close> by simp
      then show ?thesis by (simp only: map_Suc_upt upt_conv_Cons [of 0 "Suc (length s)"] zero_less_Suc)
    qed
    then show ?thesis using n IH(1) w by simp
  qed (simp add: bounds_of_def)
qed

lemma bounds_length: "length (bounds_of s) = Suc (length (runes s))"
  by (simp add: bounds_of_def length_offsets)

lemma rune_cut_self: "rune_cut s []"
proof (induction s rule: length_induct)
  case (1 s)
  show ?case
  proof (cases "s = []")
    case False
    obtain r w where d: "decode_rune s = (r, w)" by (cases "decode_rune s")
    have w: "1 \<le> w" "w \<le> length s"
      using decode_width_pos [OF False] decode_width_le [of s] d by simp_all
    then have "rune_cut (drop w s) []" using 1 False by simp
    then show ?thesis using d w False by - (rule rune_cut.step [where r = r and w = w], simp_all)
  qed (simp add: rune_cut.stop)
qed

subsection \<open>Columns\<close>

lemma line_columns_offset:
  assumes "1 \<le> col"
  shows "(case line_columns l of
      Some offsets \<Rightarrow>
        if int (length offsets) < col then None else Some (offsets ! nat (col - 1))
    | None \<Rightarrow> if col - 1 \<le> int (length l) then Some (nat (col - 1)) else None)
    = (if nat (col - 1) < length (bounds_of l) then Some (bounds_of l ! nat (col - 1)) else None)"
proof (cases "length (runes l) = length l")
  case True
  then have b: "bounds_of l = [0..<Suc (length l)]" using bounds_narrow by blast
  have "nat (col - 1) < Suc (length l) \<longleftrightarrow> col - 1 \<le> int (length l)" using assms by linarith
  then show ?thesis using True unfolding b by (simp add: line_columns_def del: upt_Suc)
next
  case False
  have "int (length (bounds_of l)) < col \<longleftrightarrow> \<not> nat (col - 1) < length (bounds_of l)"
    using assms by linarith
  then show ?thesis using False by (simp add: line_columns_def flip: bounds_of_def)
qed

lemma ByteOffset_eq:
  "ByteOffset (NewDocument src) row col =
     (let ls = doc_lines (NewDocument src) in
      if row < 0 \<or> int (length ls) \<le> row \<or> col < 1 then None
      else let bs = bounds_of (ls ! nat row) in
        if nat (col - 1) < length bs then Some (bs ! nat (col - 1)) else None)"
proof (cases "row < 0 \<or> int (length (doc_lines (NewDocument src))) \<le> row \<or> col < 1")
  case True
  then show ?thesis by (auto simp: ByteOffset_def Let_def)
next
  case False
  then have "doc_columns (NewDocument src) ! nat row
      = line_columns (doc_lines (NewDocument src) ! nat row)"
    by (auto simp: NewDocument_def Let_def)
  then show ?thesis
    using False line_columns_offset [of col "doc_lines (NewDocument src) ! nat row"]
    unfolding ByteOffset_def Let_def by (simp only: if_False not_less de_Morgan_disj simp_thms)
qed

lemma search_sorted:
  assumes "sorted_wrt (<) xs" and "k < length xs"
  shows "search_ints xs (xs ! k) = k"
proof -
  have "takeWhile (\<lambda>y. y < xs ! k) xs = take k xs"
  proof (rule takeWhile_eq_take_P_nth)
    show "k' < k \<Longrightarrow> k' < length xs \<Longrightarrow> xs ! k' < xs ! k" for k'
      using assms sorted_wrt_nth_less by blast
  qed simp
  then show ?thesis using assms(2) by (simp add: search_ints_def)
qed

lemma column_at_eq:
  assumes "row < length (doc_lines (NewDocument src))"
    and "k \<in> set (bounds_of (doc_lines (NewDocument src) ! row))"
  shows "column_at (NewDocument src) row k = search_ints (bounds_of (doc_lines (NewDocument src) ! row)) k + 1"
proof -
  let ?l = "doc_lines (NewDocument src) ! row"
  have l: "doc_columns (NewDocument src) ! row = line_columns ?l"
    using assms(1) by (simp add: NewDocument_def Let_def)
  show ?thesis
  proof (cases "length (runes ?l) = length ?l")
    case True
    then have b: "bounds_of ?l = [0..<Suc (length ?l)]" using bounds_narrow by blast
    then have "search_ints (bounds_of ?l) k = k"
      using search_sorted [OF bounds_sorted [of ?l], of k] assms(2) by (auto simp del: upt_Suc)
    then show ?thesis using True l by (simp add: column_at_def line_columns_def)
  next
    case False
    then show ?thesis using l by (simp add: column_at_def line_columns_def bounds_of_def)
  qed
qed

lemma runes_before:
  assumes "rune_cut (take k l) (drop k l)" and "k \<le> length l"
  shows "length (runes (take k l)) < length (bounds_of l)"
    and "bounds_of l ! length (runes (take k l)) = k"
proof -
  have b: "bounds_of l = rune_offsets 0 (take k l) @ (rune_offsets k (drop k l) @ [length l])"
    using offsets_cut [OF assms(1), of 0] assms(2) by (simp add: bounds_of_def)
  then show "length (runes (take k l)) < length (bounds_of l)" by (simp add: length_offsets)
  have "(rune_offsets k (drop k l) @ [length l]) ! 0 = k"
    using assms(2) rune_offsets_step [of "drop k l"]
    by (cases "drop k l"; cases "decode_rune (drop k l)") auto
  then show "bounds_of l ! length (runes (take k l)) = k"
    unfolding b by (simp add: nth_append length_offsets)
qed

lemma nth_unique:
  "sorted_wrt (<) (xs :: nat list) \<Longrightarrow> i < length xs \<Longrightarrow> j < length xs \<Longrightarrow> xs ! i = xs ! j \<Longrightarrow> i = j"
  using sorted_wrt_nth_less by (metis less_irrefl linorder_neqE_nat)

lemma column_cut:
  assumes "ByteOffset (NewDocument src) row col = Some k"
  shows "row < int (length (doc_lines (NewDocument src))) \<and>
    (let line = doc_lines (NewDocument src) ! nat row in
       k \<le> length line \<and> rune_cut (take k line) (drop k line) \<and>
       int (length (runes (take k line))) = col - 1 \<and>
       int (column_at (NewDocument src) (nat row) k) = col)"
proof -
  let ?l = "doc_lines (NewDocument src) ! nat row"
  have r: "0 \<le> row" "row < int (length (doc_lines (NewDocument src)))" "1 \<le> col"
    and i: "nat (col - 1) < length (bounds_of ?l)" and k: "k = bounds_of ?l ! nat (col - 1)"
    using assms by (auto simp: ByteOffset_eq Let_def split: if_splits)
  have mem: "k \<in> set (bounds_of ?l)" using i k by simp
  have cut: "k \<le> length ?l" "rune_cut (take k ?l) (drop k ?l)"
    using bounds_cut [OF rune_cut_self mem] by simp_all
  have "column_at (NewDocument src) (nat row) k = nat (col - 1) + 1"
    using column_at_eq [of "nat row" src k] mem r search_sorted [OF bounds_sorted i] k by simp
  moreover have "length (runes (take k ?l)) = nat (col - 1)"
    using nth_unique [OF bounds_sorted runes_before(1) [OF cut(2,1)] i]
      runes_before(2) [OF cut(2,1)] k by argo
  ultimately show ?thesis using r cut by (simp add: Let_def)
qed

text \<open>
  Columns and byte offsets of a line correspond: the byte offset of a column cuts the line
  between two runes (or ends it), after as many runes as columns were passed, and \<open>column\<close> takes
  it back to the column.
\<close>

theorem column_roundtrip:
  assumes "ByteOffset (NewDocument src) row col = Some k"
  shows "row < int (length (doc_lines (NewDocument src))) \<and>
    (let line = doc_lines (NewDocument src) ! nat row in
       k \<le> length line \<and> rune_cut (take k line) (drop k line) \<and>
       int (length (runes (take k line))) = col - 1 \<and>
       int (column_at (NewDocument src) (nat row) k) = col)"
  by (rule column_cut [OF assms])

theorem column_roundtrip_witness:
  "let src = [CHR ''a'', CHR 0xC3, CHR 0xA9, CHR ''b'', CHR 0x0A, CHR ''c''] in
   ByteOffset (NewDocument src) 0 3 = Some 3 \<and> column_at (NewDocument src) 0 3 = 3"
proof -
  let ?src = "[CHR ''a'', CHR 0xC3, CHR 0xA9, CHR ''b'', CHR 0x0A, CHR ''c'']"
  have "ByteOffset (NewDocument ?src) 0 3 = Some 3" by code_simp
  then show ?thesis using column_roundtrip [of ?src 0 3 3] by (simp add: Let_def)
qed

subsection \<open>Lines and endings tile the source\<close>

lemma visit_lines_tiles: "concat (map (\<lambda>(l, b). l @ b) (visit_lines acc s)) = acc @ s"
proof (induction acc s rule: visit_lines.induct)
  case (2 l c cs)
  then show ?case
    by (cases "decode_rune (c # cs)") (auto simp: visit_lines.simps(2) Let_def)
qed simp

definition is_break :: "string \<Rightarrow> bool" where
  "is_break b \<longleftrightarrow> b \<in> {[CHR 0x0A], [CHR 0x0D], [CHR 0x0D, CHR 0x0A], [CHR 0xC2, CHR 0x85],
     [CHR 0xE2, CHR 0x80, CHR 0xA8], [CHR 0xE2, CHR 0x80, CHR 0xA9]}"

definition break_runes :: "rune set" where
  "break_runes = {10, 13, 133, 8232, 8233}"

lemma break_size_iff: "break_size r s = 0 \<longleftrightarrow> r \<notin> break_runes"
  by (simp add: break_size_def break_runes_def)

lemma rn_num: "rn d = k \<Longrightarrow> rn c = k \<longleftrightarrow> c = d"
  using rn_eq_iff [of c d] by simp

lemma decode_three:
  assumes dec: "decode_rune (c # cs) = (r, w)" and r: "2048 \<le> r" "r < 65533"
  shows "\<exists>d e ds. cs = d # e # ds \<and> 128 \<le> rn d \<and> rn d \<le> 191 \<and> 128 \<le> rn e \<and> rn e \<le> 191 \<and>
    rn c * 4096 + rn d * 64 + rn e = r + 925824"
proof -
  consider "rn c < 194" | "194 \<le> rn c" "rn c \<le> 223" | "224 \<le> rn c" "rn c \<le> 239"
    | "240 \<le> rn c" "rn c \<le> 244" | "244 < rn c" by linarith
  then show ?thesis
  proof cases
    case 1
    then show ?thesis using dec r by (simp add: decode_rune.simps(2) Let_def split: if_splits)
  next
    case 2
    then show ?thesis using dec r
      by (simp add: decode_rune.simps(2) Let_def is_cont_def split: if_splits list.splits)
  next
    case 3
    have "128 \<le> second_lo (rn c)" "second_hi (rn c) \<le> 191"
      by (simp_all add: second_lo_def second_hi_def)
    then show ?thesis using dec r 3
      by (auto simp: decode_rune.simps(2) Let_def is_cont_def second_ok_def split: if_splits list.splits)
  next
    case 4
    then show ?thesis using dec r
      by (auto simp: decode_rune.simps(2) Let_def is_cont_def second_ok_def second_lo_def
          split: if_splits list.splits)
  next
    case 5
    then show ?thesis using dec r by (simp add: decode_rune.simps(2) Let_def split: if_splits)
  qed
qed

lemma decode_break:
  assumes "decode_rune (c # cs) = (r, w)" and "r \<in> break_runes"
  shows "is_break (take (break_size r (c # cs)) (c # cs))"
proof -
  consider "r = 10" | "r = 13" | "r = 133" | "r = 8232 \<or> r = 8233"
    using assms(2) by (auto simp: break_runes_def)
  then show ?thesis
  proof cases
    case 1
    then show ?thesis using decode_small [of "c # cs"] assms(1)
      by (auto simp: break_size_def is_break_def rn_num [of "CHR 0x0A"])
  next
    case 2
    then show ?thesis using decode_small [of "c # cs"] assms(1)
      by (auto simp: break_size_def is_break_def rn_num [of "CHR 0x0D"] has_prefix_iff)
  next
    case 3
    then obtain d ds where cs: "cs = d # ds" "194 \<le> rn c" "128 \<le> rn d" "rn d \<le> 191"
      "(rn c - 192) * 64 + (rn d - 128) = 133"
      using assms(1)
      by (auto simp: decode_rune.simps(2) Let_def is_cont_def second_ok_def second_lo_def
          split: if_splits list.splits)
    then have "rn c = 194" by presburger
    with cs have "rn d = 133" by simp
    note cs = cs(1) \<open>rn c = 194\<close> this
    then show ?thesis using 3 unfolding cs(1)
      by (auto simp: break_size_def is_break_def rn_num [of "CHR 0xC2"] rn_num [of "CHR 0x85"])
  next
    case 4
    obtain d e ds where cs: "cs = d # e # ds" "128 \<le> rn d" "rn d \<le> 191" "128 \<le> rn e" "rn e \<le> 191"
      "rn c * 4096 + rn d * 64 + rn e = r + 925824"
      using decode_three [OF assms(1)] 4 by auto
    have r: "8232 \<le> r" "r \<le> 8233" using 4 by auto
    have "225 < rn c" "rn c < 227" using cs(2-6) r by linarith+
    then have c: "rn c = 226" by linarith
    then have "rn d < 129" using cs(2-6) r by linarith
    then have d: "rn d = 128" using cs(2) by linarith
    have "rn e = 168 \<or> rn e = 169" using cs(6) 4 unfolding c d by linarith
    note this = c d this
    note cs = cs(1) this
    then show ?thesis using 4 unfolding cs(1)
      by (auto simp: break_size_def is_break_def rn_num [of "CHR 0xE2"] rn_num [of "CHR 0x80"]
          rn_num [of "CHR 0xA8"] rn_num [of "CHR 0xA9"])
  qed
qed

lemma visit_lines_breaks:
  "rune_cut acc s \<Longrightarrow> set (runes acc) \<inter> break_runes = {} \<Longrightarrow>
   (\<forall>(l, b)\<in>set (butlast (visit_lines acc s)). is_break b) \<and> visit_lines acc s \<noteq> [] \<and>
   snd (last (visit_lines acc s)) = [] \<and>
   (\<forall>(l, b)\<in>set (visit_lines acc s). set (runes l) \<inter> break_runes = {})"
proof (induction acc s rule: visit_lines.induct)
  case (2 l c cs)
  obtain r w where d: "decode_rune (c # cs) = (r, w)" by (cases "decode_rune (c # cs)")
  let ?s = "c # cs"
  show ?case
  proof (cases "break_size r ?s = 0")
    case True
    have one: "rune_cut (take w ?s) (drop w ?s)" using decode_take [OF d] by simp
    have "rune_cut (l @ take w ?s) (drop w ?s)"
      using rune_cut_append [of l "take w ?s" "drop w ?s"] one 2(3) by simp
    moreover have "runes (l @ take w ?s) = runes l @ [r]"
    proof -
      have "runes l @ runes ?s = runes (l @ take w ?s) @ runes (drop w ?s)"
        using runes_cut [OF 2(3)] runes_cut [OF calculation] by simp
      then show ?thesis using runes_step [OF _ d] by simp
    qed
    ultimately show ?thesis
      using 2(1) [OF d [symmetric] refl True] d True 2(3,4)
      by (simp add: visit_lines.simps(2) break_size_iff)
  next
    case False
    have "is_break (take (break_size r ?s) ?s)"
      using decode_break [OF d] False by (simp only: break_size_iff not_not)
    then show ?thesis
      using 2(2) [OF d [symmetric] refl False] False d 2(3,4)
      by (auto simp: visit_lines.simps(2) rune_cut.stop Let_def)
  qed
qed simp

text \<open>
  The lines of a document and their endings are the source: put together after the byte order
  mark they give it back, only the last line has no ending, every other ending is one of the
  six line breaks of YAML, and no line holds a rune that would end it.
\<close>

theorem lines_roundtrip:
  "let d = NewDocument src in
   (if has_prefix src bom then bom else []) @ concat (map2 (@) (doc_lines d) (doc_breaks d)) = src \<and>
   doc_lines d \<noteq> [] \<and> length (doc_breaks d) = length (doc_lines d) \<and>
   list_all is_break (butlast (doc_breaks d)) \<and> last (doc_breaks d) = [] \<and>
   list_all (\<lambda>l. set (runes l) \<inter> break_runes = {}) (doc_lines d)"
proof -
  let ?ls = "visit_lines [] (trim_bom src)"
  have "concat (map2 (@) (map fst ?ls) (map snd ?ls)) = trim_bom src"
    using visit_lines_tiles [of "[]" "trim_bom src"]
    by (simp add: zip_map_fst_snd map2_map_map split_beta)
  moreover have "(if has_prefix src bom then bom else []) @ trim_bom src = src"
    by (auto simp: trim_bom_def has_prefix_iff bom_def)
  moreover note visit_lines_breaks [OF rune_cut.stop [of "trim_bom src"]]
  ultimately show ?thesis
    by (auto simp: NewDocument_def Let_def list_all_iff last_map disjoint_iff simp flip: map_butlast)
qed

subsection \<open>Offsets in the source\<close>

lemma break_cut:
  assumes "is_break b"
  shows "rune_cut b v"
proof -
  have one: "rune_cut [c] w" if "rn c < 128" for c w
    using that decode_ascii [of c w] by - (rule rune_cut.step [of _ _ "rn c" 1], simp_all add: rune_cut.stop)
  have two: "rune_cut [CHR 0x0D, CHR 0x0A] v"
    using rune_cut_append [of "[CHR 0x0D]" "[CHR 0x0A]" v] one by simp
  have wide: "rune_cut [CHR 0xC2, CHR 0x85] v" "rune_cut [CHR 0xE2, CHR 0x80, CHR 0xA8] v"
    "rune_cut [CHR 0xE2, CHR 0x80, CHR 0xA9] v"
    by (rule rune_cut.step [of _ _ 133 2] rune_cut.step [of _ _ 8232 3] rune_cut.step [of _ _ 8233 3];
        simp add: decode_rune.simps(2) is_cont_def second_ok_def second_lo_def second_hi_def
          rune_cut.stop)+
  from assms one two wide show ?thesis by (auto simp: is_break_def)
qed

definition lines_before :: "(string \<times> string) list \<Rightarrow> nat \<Rightarrow> string" where
  "lines_before ls n = concat (map (\<lambda>(l, b). l @ b) (take n ls))"

lemma visit_lines_cut:
  "rune_cut acc s \<Longrightarrow> n < length (visit_lines acc s) \<Longrightarrow>
   k \<in> set (bounds_of (fst (visit_lines acc s ! n))) \<Longrightarrow>
   \<exists>v. acc @ s = lines_before (visit_lines acc s) n @ take k (fst (visit_lines acc s ! n)) @ v \<and>
     rune_cut (lines_before (visit_lines acc s) n @ take k (fst (visit_lines acc s ! n))) v"
proof (induction acc s arbitrary: n rule: visit_lines.induct)
  case (1 acc)
  then have "k \<in> set (bounds_of acc)" by simp
  then show ?case using 1 bounds_cut [of acc "[]" k]
    by (intro exI [of _ "drop k acc"]) (simp add: lines_before_def)
next
  case (2 acc c cs)
  obtain r w where d: "decode_rune (c # cs) = (r, w)" by (cases "decode_rune (c # cs)")
  let ?s = "c # cs"
  show ?case
  proof (cases "break_size r ?s = 0")
    case True
    have "rune_cut (acc @ take w ?s) (drop w ?s)"
      using rune_cut_append [of acc "take w ?s" "drop w ?s"] decode_take [OF d] 2(3) by simp
    moreover have run: "visit_lines acc ?s = visit_lines (acc @ take w ?s) (drop w ?s)"
      using d True by (simp add: visit_lines.simps(2))
    ultimately show ?thesis
      using 2(1) [OF d [symmetric] refl True, of n] 2(4,5) unfolding run by simp
  next
    case False
    define m where "m = break_size r ?s"
    have run: "visit_lines acc ?s = (acc, take m ?s) # visit_lines [] (drop m ?s)"
      using d False by (simp add: visit_lines.simps(2) m_def Let_def)
    show ?thesis
    proof (cases n)
      case 0
      then have "k \<in> set (bounds_of acc)" using 2(5) run by simp
      then show ?thesis using bounds_cut [OF 2(3)] 0
        by (intro exI [of _ "drop k acc @ ?s"]) (simp add: run lines_before_def)
    next
      case (Suc i)
      let ?ls = "visit_lines [] (drop m ?s)"
      obtain v where v: "drop m ?s = lines_before ?ls i @ take k (fst (?ls ! i)) @ v"
        "rune_cut (lines_before ?ls i @ take k (fst (?ls ! i))) v"
        using 2(2) [OF d [symmetric] refl False, folded m_def, of i] 2(4,5) Suc run
        by (auto intro: rune_cut.stop)
      have "is_break (take m ?s)"
        using decode_break [OF d] False unfolding m_def by (simp only: break_size_iff not_not)
      then have "rune_cut (take m ?s) (drop m ?s)" by (rule break_cut)
      then have "rune_cut (acc @ take m ?s) (drop m ?s)"
        using rune_cut_append [of acc "take m ?s" "drop m ?s"] 2(3) by simp
      then have "rune_cut ((acc @ take m ?s) @ lines_before ?ls i @ take k (fst (?ls ! i))) v"
        using rune_cut_append [of "acc @ take m ?s" "lines_before ?ls i @ take k (fst (?ls ! i))" v] v
        by simp
      moreover have "acc @ ?s = (acc @ take m ?s) @ lines_before ?ls i @ take k (fst (?ls ! i)) @ v"
        using v(1) append_take_drop_id [of m ?s] by (metis append_assoc)
      ultimately show ?thesis using Suc by (intro exI [of _ v]) (simp add: run lines_before_def)
    qed
  qed
qed

definition bom_part :: "string \<Rightarrow> string" where
  "bom_part content = (if has_prefix content bom then bom else [])"

lemma bom_part: "content = bom_part content @ trim_bom content" "rune_cut (bom_part content) v"
proof -
  show "content = bom_part content @ trim_bom content"
    by (auto simp: bom_part_def trim_bom_def has_prefix_iff bom_def)
  have "rune_cut bom v"
    by (rule rune_cut.step [of _ _ 65279 3])
      (simp_all add: bom_def decode_rune.simps(2) is_cont_def second_ok_def second_lo_def
        second_hi_def rune_cut.stop)
  then show "rune_cut (bom_part content) v" by (simp add: bom_part_def rune_cut.stop)
qed

lemma line_start_eq:
  "line_start (NewDocument content) n = length (lines_before (visit_lines [] (trim_bom content)) n)"
proof -
  have "sum_list (map length (map fst ls)) + sum_list (map length (map snd ls))
      = length (concat (map (\<lambda>(l, b). l @ b) ls))" for ls :: "(string \<times> string) list"
    by (induction ls) auto
  then show ?thesis by (simp add: line_start_def NewDocument_def Let_def lines_before_def take_map)
qed

text \<open>What an accepted position is, in terms of the lines.\<close>

lemma OffsetD:
  assumes "Offset content p = Inr i"
  defines "ls \<equiv> visit_lines [] (trim_bom content)"
  obtains n k where "dp_line p = int n + 1" "n < length ls" "1 \<le> dp_column p"
    "nat (dp_column p - 1) < length (bounds_of (fst (ls ! n)))"
    "k = bounds_of (fst (ls ! n)) ! nat (dp_column p - 1)"
    "i = length (bom_part content) + length (lines_before ls n) + k"
proof -
  have g: "1 \<le> dp_line p" "1 \<le> dp_column p" "dp_line p \<le> int (length ls)"
    using assms(1) by (auto simp: Offset_def Let_def ls_def NewDocument_def split: if_splits)
  define n where "n = nat (dp_line p - 1)"
  have lines: "doc_lines (NewDocument content) = map fst ls" by (simp add: ls_def NewDocument_def Let_def)
  obtain k where k: "ByteOffset (NewDocument content) (dp_line p - 1) (dp_column p) = Some k"
    and i: "i = k + length (bom_part content) + line_start (NewDocument content) n"
    using assms(1) g by (auto simp: Offset_def Let_def bom_part_def bom_def n_def
        split: if_splits option.splits)
  have n: "dp_line p = int n + 1" "n < length ls" using g by (auto simp: n_def)
  have b: "nat (dp_column p - 1) < length (bounds_of (fst (ls ! n)))"
    "k = bounds_of (fst (ls ! n)) ! nat (dp_column p - 1)"
    using k n by (auto simp: ByteOffset_eq Let_def lines split: if_splits)
  show ?thesis
    using that [OF n g(2) b] i by (simp add: line_start_eq ls_def)
qed

lemma lines_before_step:
  "n < length ls \<Longrightarrow> lines_before ls (Suc n) = lines_before ls n @ fst (ls ! n) @ snd (ls ! n)"
  by (simp add: lines_before_def take_Suc_conv_app_nth split_beta)

lemma lines_before_less:
  assumes "\<forall>(l, b)\<in>set (butlast ls). b \<noteq> []" and "n < m" and "m < length ls"
  shows "length (lines_before ls n) + length (fst (ls ! n)) < length (lines_before ls m)"
  using assms(2,3)
proof (induction m)
  case (Suc m)
  have "ls ! m \<in> set (butlast ls)" using Suc.prems by (simp add: nth_butlast [symmetric])
  then have "snd (ls ! m) \<noteq> []" using assms(1) by (cases "ls ! m") auto
  then have "length (lines_before ls m) + length (fst (ls ! m)) < length (lines_before ls (Suc m))"
    using lines_before_step [of m ls] Suc.prems by simp
  then show ?case using Suc by (cases "n = m") auto
qed simp

lemma Offset_less:
  assumes "Offset content p = Inr i" and "Offset content q = Inr j" and "pos_before p q"
  shows "i < j"
proof -
  define ls where "ls = visit_lines [] (trim_bom content)"
  obtain n k where p: "dp_line p = int n + 1" "n < length ls" "1 \<le> dp_column p"
    "nat (dp_column p - 1) < length (bounds_of (fst (ls ! n)))"
    "k = bounds_of (fst (ls ! n)) ! nat (dp_column p - 1)"
    "i = length (bom_part content) + length (lines_before ls n) + k"
    using OffsetD [OF assms(1)] unfolding ls_def by blast
  obtain m l where q: "dp_line q = int m + 1" "m < length ls" "1 \<le> dp_column q"
    "nat (dp_column q - 1) < length (bounds_of (fst (ls ! m)))"
    "l = bounds_of (fst (ls ! m)) ! nat (dp_column q - 1)"
    "j = length (bom_part content) + length (lines_before ls m) + l"
    using OffsetD [OF assms(2)] unfolding ls_def by blast
  consider "n = m" "dp_column p < dp_column q" | "n < m"
    using assms(3) p(1) q(1) by (auto simp: pos_before_def)
  then show ?thesis
  proof cases
    case 1
    then have "k < l"
      using sorted_wrt_nth_less [OF bounds_sorted _ q(4)] p(3,5) q(3,5) by simp
    then show ?thesis using p(6) q(6) 1 by simp
  next
    case 2
    have "k \<in> set (bounds_of (fst (ls ! n)))" using p(4,5) by simp
    then have "k \<le> length (fst (ls ! n))" using bounds_cut rune_cut_self by blast
    moreover have "\<forall>(l, b)\<in>set (butlast ls). b \<noteq> []"
      using visit_lines_breaks [OF rune_cut.stop [of "trim_bom content"]]
      by (auto simp: ls_def is_break_def)
    ultimately show ?thesis
      using lines_before_less [of ls n m] 2 p(6) q(2,6) by simp
  qed
qed

lemma Offset_cut:
  assumes "Offset content p = Inr i"
  shows "i \<le> length content" and "rune_cut (take i content) (drop i content)"
proof -
  define ls where "ls = visit_lines [] (trim_bom content)"
  obtain n k where p: "n < length ls" "nat (dp_column p - 1) < length (bounds_of (fst (ls ! n)))"
    "k = bounds_of (fst (ls ! n)) ! nat (dp_column p - 1)"
    "i = length (bom_part content) + length (lines_before ls n) + k"
    using OffsetD [OF assms] unfolding ls_def by blast
  have mem: "k \<in> set (bounds_of (fst (ls ! n)))" using p by simp
  then have k: "k \<le> length (fst (ls ! n))" using bounds_cut rune_cut_self by blast
  obtain v where v: "trim_bom content = lines_before ls n @ take k (fst (ls ! n)) @ v"
    "rune_cut (lines_before ls n @ take k (fst (ls ! n))) v"
    using visit_lines_cut [OF rune_cut.stop, of n "trim_bom content" k] p(1) mem
    unfolding ls_def by auto
  let ?pre = "bom_part content @ lines_before ls n @ take k (fst (ls ! n))"
  have c: "content = ?pre @ v" using bom_part(1) [of content] v(1) by simp
  have len: "length ?pre = i" using p(4) k by simp
  have "rune_cut ?pre v"
    using rune_cut_append [OF bom_part(2) v(2)] by simp
  then show "i \<le> length content" "rune_cut (take i content) (drop i content)"
    using c len by (metis append_eq_conv_conj length_append le_add1)+
qed

text \<open>
  (C26) The offsets of edits: an accepted position is mapped into the source, onto a boundary
  between two runes, and two positions are ordered exactly as their offsets are.
\<close>

theorem Offset_order:
  assumes "Offset content p = Inr i" and "Offset content q = Inr j"
  shows "i \<le> length content \<and> rune_cut (take i content) (drop i content) \<and>
    (i < j \<longleftrightarrow> pos_before p q) \<and> (i = j \<longleftrightarrow> p = q)"
proof -
  have "pos_before p q \<or> pos_before q p \<or> p = q"
    by (cases p; cases q) (auto simp: pos_before_def)
  then show ?thesis
    using Offset_cut [OF assms(1)] Offset_less [OF assms] Offset_less [OF assms(2,1)] assms
    by fastforce
qed

theorem Offset_order_witness:
  "let src = ''on: push'' @ [CHR 0x0D, CHR 0x0A, CHR 0xC3, CHR 0xA9, CHR '':''];
       p = \<lparr>dp_line = 1, dp_column = 9\<rparr>; q = \<lparr>dp_line = 2, dp_column = 2\<rparr>
   in Offset src p = Inr 8 \<and> Offset src q = Inr 12 \<and> pos_before p q"
proof -
  let ?src = "''on: push'' @ [CHR 0x0D, CHR 0x0A, CHR 0xC3, CHR 0xA9, CHR '':'']"
  let ?p = "\<lparr>dp_line = 1, dp_column = 9\<rparr>" and ?q = "\<lparr>dp_line = 2, dp_column = 2\<rparr>"
  have "Offset ?src ?p = Inr 8" "Offset ?src ?q = Inr 12" by code_simp+
  then show ?thesis using Offset_order [of ?src ?p 8 ?q 12] by (simp add: Let_def)
qed

end
