(* ===== verification/Fix_Spec.thy ===== *)
theory Fix_Spec
  imports Fix_Plan Document_Spec
begin

text \<open>
  What a plan of edits promises. The specification names the edits a plan has to make (those of
  the first permitted alternative of every finding, at the offsets of their positions) and
  applies them to the source one at a time, from the last to the first; \<open>Build\<close> makes one
  pass with a cursor.
\<close>

subsection \<open>Edits one at a time\<close>

definition splice_edits :: "string \<Rightarrow> edit list \<Rightarrow> string" where
  "splice_edits before es = foldr (\<lambda>e s. take (ed_start e) s @ ed_text e @ drop (ed_end e) s) es before"

definition apart :: "edit list \<Rightarrow> bool" where
  "apart es \<longleftrightarrow> sorted_wrt (\<lambda>a b. ed_end a \<le> ed_start b \<and> ed_start a < ed_start b) es"

definition spans_in :: "nat \<Rightarrow> edit \<Rightarrow> bool" where
  "spans_in n e \<longleftrightarrow> ed_start e \<le> ed_end e \<and> ed_end e \<le> n"

lemma render_splice:
  "apart es \<Longrightarrow> list_all (spans_in (length before)) es \<Longrightarrow> cursor \<le> length before
   \<Longrightarrow> list_all (\<lambda>e. cursor \<le> ed_start e) es
   \<Longrightarrow> take cursor before @ render before cursor es = splice_edits before es"
proof (induction es arbitrary: cursor)
  case Nil
  then show ?case by (simp add: splice_edits_def)
next
  case (Cons e es)
  have e: "cursor \<le> ed_start e" "ed_start e \<le> ed_end e" "ed_end e \<le> length before"
    using Cons.prems by (simp_all add: spans_in_def)
  have "list_all (\<lambda>f. ed_end e \<le> ed_start f) es"
    using Cons.prems(1) by (auto simp: apart_def list_all_iff)
  then have IH: "take (ed_end e) before @ render before (ed_end e) es = splice_edits before es"
    using Cons.IH [of "ed_end e"] Cons.prems e by (simp add: apart_def)
  have "splice_edits before (e # es)
      = take (ed_start e) (splice_edits before es) @ ed_text e @ drop (ed_end e) (splice_edits before es)"
    by (simp add: splice_edits_def)
  also have "\<dots> = take (ed_start e) before @ ed_text e @ render before (ed_end e) es"
    using e unfolding IH [symmetric] by (simp add: min_def)
  also have "take (ed_start e) before = take cursor before @ slice before cursor (ed_start e)"
    using e slice_append [of 0 cursor "ed_start e" before] by (simp add: slice_def)
  finally show ?case by simp
qed

lemma overlapping_apart:
  "\<not> overlapping es \<Longrightarrow> list_all (\<lambda>e. ed_start e \<le> ed_end e) es \<Longrightarrow>
   sorted (map ed_start es) \<Longrightarrow> apart es"
proof (induction es rule: overlapping.induct)
  case (1 a b es)
  then have IH: "apart (b # es)" and ab: "ed_end a \<le> ed_start b" "ed_start a \<noteq> ed_start b" by auto
  have "ed_start a < ed_start b" using 1(4) ab by simp
  moreover have "ed_start b \<le> ed_start c" if "c \<in> set es" for c using 1(4) that by simp
  ultimately show ?case using IH ab by (auto simp: apart_def intro: order_trans less_le_trans)
qed (simp_all add: apart_def)

lemma set_order_edits: "set (order_edits es) = set es"
  by (simp add: order_edits_def)

lemma sorted_wrt_remdups_adj: "sorted_wrt P xs \<Longrightarrow> sorted_wrt P (remdups_adj xs)"
  by (induction xs rule: remdups_adj.induct) auto

lemma sorted_order_edits: "sorted (map ed_start (order_edits es))"
proof -
  have "sorted (map (\<lambda>e. (ed_start e, ed_end e)) (sort_key (\<lambda>e. (ed_start e, ed_end e)) es))"
    by (rule sorted_sort_key)
  then have "sorted_wrt (\<lambda>a b. ed_start a \<le> ed_start b) (sort_key (\<lambda>e. (ed_start e, ed_end e)) es)"
    by (simp add: sorted_map) (erule sorted_wrt_mono_rel [rotated], auto simp: less_eq_prod_def)
  then have "sorted_wrt (\<lambda>a b. ed_start a \<le> ed_start b) (order_edits es)"
    unfolding order_edits_def by (rule sorted_wrt_remdups_adj)
  then show ?thesis by (simp add: sorted_map)
qed

subsection \<open>The edits a plan has to make\<close>

definition chosen_edits :: "bool \<Rightarrow> source_fix list list \<Rightarrow> (source_fix \<times> source_edit) list" where
  "chosen_edits incl findings =
     concat (map (\<lambda>fs. case List.find (permitted incl) fs of
         Some f \<Rightarrow> map (Pair f) (sf_edits f) | None \<Rightarrow> []) findings)"

definition wanted :: "fix_env \<Rightarrow> bool \<Rightarrow> source_fix list list \<Rightarrow> string \<Rightarrow> string \<Rightarrow> edit set" where
  "wanted v incl findings path before =
     {ed. \<exists>(f, e) \<in> set (chosen_edits incl findings).
        fv_abs v (se_path e) = Some path \<and> sf_revisions f (se_path e) = Some (fv_digest v before) \<and>
        resolve_edit path before e = Inr ed}"

definition skipped :: "bool \<Rightarrow> source_fix list list \<Rightarrow> nat" where
  "skipped incl findings =
     sum_list (map (\<lambda>fs. length (takeWhile (\<lambda>f. \<not> permitted incl f) fs)) findings)"

subsection \<open>The build state\<close>

text \<open>What collecting the edits of a list of alternatives has established.\<close>

definition made :: "fix_env \<Rightarrow> build \<Rightarrow> source_fix \<times> source_edit \<Rightarrow> string \<Rightarrow> edit \<Rightarrow> bool" where
  "made v b j path ed \<longleftrightarrow>
     fv_abs v (se_path (snd j)) = Some path \<and>
     (\<exists>before. map_of (bd_sources b) path = Some before \<and>
        sf_revisions (fst j) (se_path (snd j)) = Some (fv_digest v before) \<and>
        resolve_edit path before (snd j) = Inr ed)"

definition collected :: "fix_env \<Rightarrow> (source_fix \<times> source_edit) list \<Rightarrow> build \<Rightarrow> bool" where
  "collected v js b \<longleftrightarrow>
     (\<forall>path content. map_of (bd_sources b) path = Some content \<longrightarrow> fv_read v path = Some content) \<and>
     distinct (al_keys (bd_edits b)) \<and>
     (\<forall>path \<in> set (al_keys (bd_edits b)). edits_at path b \<noteq> []) \<and>
     (\<forall>j \<in> set js. \<exists>path ed. made v b j path ed \<and> ed \<in> set (edits_at path b)) \<and>
     (\<forall>path. \<forall>ed \<in> set (edits_at path b). \<exists>j \<in> set js. made v b j path ed)"

lemma made_mono:
  "made v b j path ed \<Longrightarrow> (\<And>p s. map_of (bd_sources b) p = Some s \<Longrightarrow> map_of (bd_sources c) p = Some s)
   \<Longrightarrow> made v c j path ed"
  by (auto simp: made_def)

lemma collected_asked: "collected v js (b\<lparr>bd_asked := n\<rparr>) = collected v js b"
  by (simp add: collected_def edits_at_def made_def)

lemma collected_skipped: "collected v js (b\<lparr>bd_skipped := n\<rparr>) = collected v js b"
  by (simp add: collected_def edits_at_def made_def)

lemma collected_source:
  assumes "collected v js b" and "source_of v path b = Some (content, c)"
  shows "collected v js c" and "fv_read v path = Some content"
    and "map_of (bd_sources c) path = Some content" and "bd_skipped c = bd_skipped b"
proof -
  have grows: "map_of (bd_sources c) p = Some s" if "map_of (bd_sources b) p = Some s" for p s
    using assms(2) that by (auto simp: source_of_def split: option.splits)
  have read: "map_of (bd_sources b) p = Some s \<Longrightarrow> fv_read v p = Some s" for p s
    using assms(1) by (simp add: collected_def)
  have edits: "bd_edits c = bd_edits b" "bd_skipped c = bd_skipped b"
    using assms(2) by (auto simp: source_of_def split: option.splits)
  then have at: "edits_at p c = edits_at p b" for p by (simp add: edits_at_def)
  show "fv_read v path = Some content" "map_of (bd_sources c) path = Some content"
    using assms(2) read by (auto simp: source_of_def split: option.splits)
  have "fv_read v p = Some s" if "map_of (bd_sources c) p = Some s" for p s
    using assms(2) that read by (auto simp: source_of_def split: option.splits if_splits)
  then show "collected v js c"
    using assms(1) made_mono [OF _ grows, of v] unfolding collected_def edits at by blast
  show "bd_skipped c = bd_skipped b" by (fact edits(2))
qed

lemma edits_at_put:
  "edits_at p (b\<lparr>bd_edits := al_put path es (bd_edits b)\<rparr>) = (if p = path then es else edits_at p b)"
  by (simp add: edits_at_def)

lemma build_edit_collected:
  assumes "collected v js b" and "build_edit v f e b = Inr c"
  shows "collected v (js @ [(f, e)]) c \<and> bd_skipped c = bd_skipped b"
proof -
  define b0 where "b0 = b\<lparr>bd_asked := bd_asked b + 1\<rparr>"
  obtain path content b1 ed where
    path: "fv_abs v (se_path e) = Some path" and src: "source_of v path b0 = Some (content, b1)" and
    rev: "sf_revisions f (se_path e) = Some (fv_digest v content)" and
    ed: "resolve_edit path content e = Inr ed" and
    c: "c = b1\<lparr>bd_edits := al_put path (edits_at path b1 @ [ed]) (bd_edits b1)\<rparr>"
    using assms(2) by (auto simp: build_edit_def Let_def b0_def split: if_splits option.splits sum.splits)
  have b0: "collected v js b0" using assms(1) by (simp add: b0_def collected_asked)
  note b1 = collected_source [OF b0 src]
  have sources: "bd_sources c = bd_sources b1" by (simp add: c)
  have at: "edits_at p c = (if p = path then edits_at path b1 @ [ed] else edits_at p b1)" for p
    unfolding c by (rule edits_at_put)
  have old: "\<forall>p s. map_of (bd_sources b1) p = Some s \<longrightarrow> fv_read v p = Some s"
      "distinct (al_keys (bd_edits b1))" "\<forall>p \<in> set (al_keys (bd_edits b1)). edits_at p b1 \<noteq> []"
      "\<forall>j \<in> set js. \<exists>p x. made v b1 j p x \<and> x \<in> set (edits_at p b1)"
      "\<forall>p. \<forall>x \<in> set (edits_at p b1). \<exists>j \<in> set js. made v b1 j p x"
    using b1(1) by (simp_all add: collected_def)
  have same: "made v c = made v b1" by (simp add: made_def sources fun_eq_iff)
  have new: "made v b1 (f, e) path ed" using path rev ed b1(3) by (simp add: made_def)
  have keys: "set (al_keys (bd_edits c)) = insert path (set (al_keys (bd_edits b1)))"
    "distinct (al_keys (bd_edits c))"
    using old(2) by (simp_all add: c set_al_keys_put distinct_al_put)
  have grow: "set (edits_at p b1) \<subseteq> set (edits_at p c)" "ed \<in> set (edits_at path c)"
    "x \<in> set (edits_at p c) \<Longrightarrow> x \<in> set (edits_at p b1) \<or> p = path \<and> x = ed" for p x
    by (auto simp: at split: if_splits)
  have "collected v (js @ [(f, e)]) c"
    unfolding collected_def same
  proof (intro conjI)
    show "\<forall>p \<in> set (al_keys (bd_edits c)). edits_at p c \<noteq> []"
      using old(3) keys(1) by (auto simp: at)
    show "\<forall>j \<in> set (js @ [(f, e)]). \<exists>p x. made v b1 j p x \<and> x \<in> set (edits_at p c)"
      using old(4) new grow(1,2) by fastforce
    show "\<forall>p. \<forall>x \<in> set (edits_at p c). \<exists>j \<in> set (js @ [(f, e)]). made v b1 j p x"
      using old(5) new grow(3) by (metis in_set_conv_decomp UnI1 UnI2 list.set_intros(1) set_append)
  qed (use old(1) keys sources in simp_all)
  then show ?thesis using b1(4) by (simp add: c b0_def)
qed

lemma build_fixes_collected:
  "build_fixes v incl fs b = Inr c \<Longrightarrow> collected v js b \<Longrightarrow>
   collected v (js @ chosen_edits incl [fs]) c \<and> bd_skipped c = bd_skipped b + skipped incl [fs]"
proof (induction fs arbitrary: b)
  case Nil
  then show ?case by (simp add: chosen_edits_def skipped_def)
next
  case (Cons f fs)
  show ?case
  proof (cases "permitted incl f")
    case True
    have "fold_err (build_edit v f) es b = Inr c \<Longrightarrow> collected v js b \<Longrightarrow>
        collected v (js @ map (Pair f) es) c \<and> bd_skipped c = bd_skipped b" for es js b
    proof (induction es arbitrary: js b)
      case (Cons e es)
      obtain d where d: "build_edit v f e b = Inr d" "fold_err (build_edit v f) es d = Inr c"
        using Cons.prems(1) by (auto split: sum.splits)
      show ?case
        using Cons.IH [OF d(2)] build_edit_collected [OF Cons.prems(2) d(1)] by fastforce
    qed simp
    then show ?thesis using Cons.prems True by (simp add: chosen_edits_def skipped_def)
  next
    case False
    then show ?thesis using Cons.IH [of "b\<lparr>bd_skipped := bd_skipped b + 1\<rparr>"] Cons.prems
      by (simp add: chosen_edits_def skipped_def collected_skipped)
  qed
qed

lemma findings_collected:
  "fold_err (build_fixes v incl) findings b = Inr c \<Longrightarrow> collected v js b \<Longrightarrow>
   collected v (js @ chosen_edits incl findings) c \<and>
   bd_skipped c = bd_skipped b + skipped incl findings"
proof (induction findings arbitrary: js b)
  case Nil
  then show ?case by (simp add: chosen_edits_def skipped_def)
next
  case (Cons fs findings)
  obtain d where d: "build_fixes v incl fs b = Inr d" "fold_err (build_fixes v incl) findings d = Inr c"
    using Cons.prems(1) by (auto split: sum.splits)
  have one: "chosen_edits incl (fs # findings) = chosen_edits incl [fs] @ chosen_edits incl findings"
    "skipped incl (fs # findings) = skipped incl [fs] + skipped incl findings"
    by (simp_all add: chosen_edits_def skipped_def)
  show ?case
    using Cons.IH [OF d(2)] build_fixes_collected [OF d(1) Cons.prems(2)] one by fastforce
qed

subsection \<open>The plan\<close>

definition planned ::
  "fix_env \<Rightarrow> bool \<Rightarrow> source_fix list list \<Rightarrow> string \<Rightarrow> string \<Rightarrow> string \<Rightarrow> bool" where
  "planned v incl findings path before after \<longleftrightarrow>
     (\<exists>es. apart es \<and> list_all (spans_in (length before)) es \<and> es \<noteq> [] \<and>
        set es = wanted v incl findings path before \<and> after = splice_edits before es)"

definition change_at :: "fix_env \<Rightarrow> build \<Rightarrow> string \<Rightarrow> change" where
  "change_at v b path =
     (let before = (case map_of (bd_sources b) path of Some s \<Rightarrow> s | None \<Rightarrow> []) in
      \<lparr>ch_path = path, ch_before = before,
       ch_after = render before 0 (order_edits (edits_at path b)), ch_revision = fv_digest v before\<rparr>)"

lemma plan_change_eq:
  "plan_change v b path acc =
     (if overlapping (order_edits (edits_at path b)) then Inl (Overlapping path)
      else Inr (if ch_after (change_at v b path) \<noteq> ch_before (change_at v b path)
                then acc @ [change_at v b path] else acc))"
  by (simp add: plan_change_def change_at_def Let_def)

lemma plan_changes:
  "fold_err (plan_change v b) paths acc = Inr changes \<Longrightarrow>
   changes = acc @ filter (\<lambda>c. ch_after c \<noteq> ch_before c) (map (change_at v b) paths) \<and>
   (\<forall>path \<in> set paths. \<not> overlapping (order_edits (edits_at path b)))"
proof (induction paths arbitrary: acc)
  case (Cons path paths)
  then show ?case
    using Cons.IH [of acc] Cons.IH [of "acc @ [change_at v b path]"]
    by (auto simp: plan_change_eq [of v b path acc] split: if_splits)
qed simp

lemma resolve_spans: "resolve_edit path content e = Inr ed \<Longrightarrow> spans_in (length content) ed"
  using Offset_cut(1) by (auto simp: resolve_edit_def spans_in_def split: sum.splits if_splits)

lemma collected_wanted:
  assumes "collected v (chosen_edits incl findings) b" and "map_of (bd_sources b) path = Some before"
  shows "set (edits_at path b) = wanted v incl findings path before"
proof (intro equalityI subsetI)
  fix ed
  assume "ed \<in> set (edits_at path b)"
  then obtain j where "j \<in> set (chosen_edits incl findings)" "made v b j path ed"
    using assms(1) unfolding collected_def by blast
  then show "ed \<in> wanted v incl findings path before"
    using assms(2) by (auto simp: wanted_def made_def)
next
  fix ed
  assume "ed \<in> wanted v incl findings path before"
  then obtain j where j: "j \<in> set (chosen_edits incl findings)" "fv_abs v (se_path (snd j)) = Some path"
    "resolve_edit path before (snd j) = Inr ed"
    by (auto simp: wanted_def)
  obtain path' ed' where "made v b j path' ed'" "ed' \<in> set (edits_at path' b)"
    using assms(1) j(1) unfolding collected_def by blast
  then show "ed \<in> set (edits_at path b)" using j assms(2) by (auto simp: made_def)
qed

lemma change_planned:
  assumes c: "collected v (chosen_edits incl findings) b"
    and ok: "\<not> overlapping (order_edits (edits_at path b))" and ne: "edits_at path b \<noteq> []"
  shows "\<exists>before. map_of (bd_sources b) path = Some before \<and> fv_read v path = Some before \<and>
    planned v incl findings path before (ch_after (change_at v b path)) \<and>
    ch_before (change_at v b path) = before"
proof -
  let ?es = "order_edits (edits_at path b)"
  obtain ed j where "made v b j path ed"
    using c ne unfolding collected_def by (metis last_in_set)
  then obtain before where before: "map_of (bd_sources b) path = Some before"
    by (auto simp: made_def)
  have read: "fv_read v path = Some before" using c before by (simp add: collected_def)
  have set: "set ?es = wanted v incl findings path before"
    using collected_wanted [OF c before] by (simp add: set_order_edits)
  have spans: "list_all (spans_in (length before)) ?es"
    unfolding list_all_iff set using resolve_spans by (auto simp: wanted_def)
  then have "list_all (\<lambda>e. ed_start e \<le> ed_end e) ?es"
    by (auto simp: list_all_iff spans_in_def)
  then have apart: "apart ?es" using overlapping_apart ok sorted_order_edits by blast
  have "?es \<noteq> []" using ne set_order_edits [of "edits_at path b"] by fastforce
  moreover have "render before 0 ?es = splice_edits before ?es"
    using render_splice [OF apart spans, of 0] by (simp add: list_all_iff)
  ultimately have "planned v incl findings path before (ch_after (change_at v b path))"
    unfolding planned_def using apart spans set before
    by (intro exI [of _ ?es]) (simp add: change_at_def)
  then show ?thesis using before read by (simp add: change_at_def)
qed

text \<open>
  (C21) Refinement: the plan \<open>Build\<close> returns is the plan of the specification. The changed files
  are in the order of their paths; each change starts from the content the file was read with
  and replaces exactly the wanted edits, which do not overlap and lie inside the text, as if
  they were made one at a time; every edit of a chosen fix is in the change of its file (which
  is left out when it changes nothing); the skipped alternatives are counted.
\<close>

theorem Build_refines:
  assumes "Build v findings incl = Inr p"
  shows "sorted_wrt (<) (map ch_path (pl_changes p)) \<and> pl_skipped p = skipped incl findings \<and>
    (\<forall>c \<in> set (pl_changes p). fv_read v (ch_path c) = Some (ch_before c) \<and>
       ch_revision c = fv_digest v (ch_before c) \<and> ch_after c \<noteq> ch_before c \<and>
       planned v incl findings (ch_path c) (ch_before c) (ch_after c)) \<and>
    (\<forall>(f, e) \<in> set (chosen_edits incl findings). \<exists>path before after.
       fv_abs v (se_path e) = Some path \<and> fv_read v path = Some before \<and>
       planned v incl findings path before after \<and>
       (after \<noteq> before \<longrightarrow>
          \<lparr>ch_path = path, ch_before = before, ch_after = after, ch_revision = fv_digest v before\<rparr>
            \<in> set (pl_changes p)))"
proof -
  obtain b changes where b: "fold_err (build_fixes v incl) findings build_init = Inr b"
    and ch: "fold_err (plan_change v b) (sort (al_keys (bd_edits b))) [] = Inr changes"
    and p: "p = \<lparr>pl_changes = changes, pl_skipped = bd_skipped b\<rparr>"
    using assms by (auto simp: Build_def split: sum.splits)
  have init: "collected v [] build_init"
    by (simp add: collected_def build_init_def edits_at_def al_keys_def)
  have c: "collected v (chosen_edits incl findings) b"
    and skip: "bd_skipped b = skipped incl findings"
    using findings_collected [OF b init] by (simp_all add: build_init_def)
  have changes: "changes = filter (\<lambda>c. ch_after c \<noteq> ch_before c)
      (map (change_at v b) (sort (al_keys (bd_edits b))))"
    and ok: "\<And>path. path \<in> set (al_keys (bd_edits b)) \<Longrightarrow> \<not> overlapping (order_edits (edits_at path b))"
    using plan_changes [OF ch] by auto
  have ne: "edits_at path b \<noteq> []" if "path \<in> set (al_keys (bd_edits b))" for path
    using c that unfolding collected_def by blast
  have key: "path \<in> set (al_keys (bd_edits b))" if "edits_at path b \<noteq> []" for path
    using that by (force simp: edits_at_def al_keys_def split: option.splits dest: map_of_SomeD)
  have "map ch_path changes = filter (\<lambda>path. ch_after (change_at v b path) \<noteq> ch_before (change_at v b path))
      (sort (al_keys (bd_edits b)))"
    unfolding changes by (simp add: filter_map comp_def change_at_def Let_def)
  moreover have "sorted_wrt (<) (sort (al_keys (bd_edits b)))"
    using c by (simp add: collected_def strict_sorted_iff)
  ultimately have sorted: "sorted_wrt (<) (map ch_path changes)"
    by (simp add: sorted_wrt_filter)
  have each: "fv_read v (ch_path c) = Some (ch_before c) \<and> ch_revision c = fv_digest v (ch_before c) \<and>
      ch_after c \<noteq> ch_before c \<and> planned v incl findings (ch_path c) (ch_before c) (ch_after c)"
    if "c \<in> set changes" for c
    using that change_planned [OF \<open>collected v (chosen_edits incl findings) b\<close> ok ne]
    unfolding changes by (auto simp: change_at_def Let_def)
  have all: "\<exists>path before after. fv_abs v (se_path e) = Some path \<and> fv_read v path = Some before \<and>
       planned v incl findings path before after \<and>
       (after \<noteq> before \<longrightarrow>
          \<lparr>ch_path = path, ch_before = before, ch_after = after, ch_revision = fv_digest v before\<rparr>
            \<in> set changes)"
    if j: "(f, e) \<in> set (chosen_edits incl findings)" for f e
  proof -
    obtain path ed where m: "made v b (f, e) path ed" "ed \<in> set (edits_at path b)"
      using c j unfolding collected_def by blast
    have "edits_at path b \<noteq> []" using m(2) by auto
    then have k: "path \<in> set (al_keys (bd_edits b))" by (rule key)
    let ?c = "change_at v b path"
    obtain before where w: "fv_read v path = Some before" "ch_before ?c = before"
      "planned v incl findings path before (ch_after ?c)"
      using change_planned [OF c ok [OF k] ne [OF k]] by blast
    have "?c = \<lparr>ch_path = path, ch_before = before, ch_after = ch_after ?c, ch_revision = fv_digest v before\<rparr>"
      using w(2) by (simp add: change_at_def Let_def)
    moreover have "?c \<in> set changes" if "ch_after ?c \<noteq> before"
      using k w(2) that unfolding changes by simp
    moreover have "fv_abs v (se_path e) = Some path" using m(1) by (simp add: made_def)
    ultimately show ?thesis using w(1,3) by metis
  qed
  show ?thesis using sorted each all p skip by auto
qed

text \<open>A file with one misspelt word, and two alternatives that repair it.\<close>

definition sample_env :: fix_env where
  "sample_env = \<lparr>fv_abs = Some,
     fv_read = (\<lambda>p. if p = ''a.yml'' then Some ''on: pish'' else None),
     fv_digest = rev, fv_cancelled = (\<lambda>n. False)\<rparr>"

definition sample_fix :: "string \<Rightarrow> int \<Rightarrow> string \<Rightarrow> source_fix" where
  "sample_fix app e t = \<lparr>sf_applicability = app, sf_revisions = [''a.yml'' \<mapsto> rev ''on: pish''],
     sf_edits = [\<lparr>se_path = ''a.yml'', se_start = \<lparr>dp_line = 1, dp_column = 6\<rparr>,
                  se_end = \<lparr>dp_line = 1, dp_column = e\<rparr>, se_replacement = t\<rparr>]\<rparr>"

definition sample_plan :: plan where
  "sample_plan = \<lparr>pl_changes = [\<lparr>ch_path = ''a.yml'', ch_before = ''on: pish'',
     ch_after = ''on: push'', ch_revision = rev ''on: pish''\<rparr>], pl_skipped = 1\<rparr>"

lemma sample_build:
  "Build sample_env [[sample_fix ''suggested'' 9 ''ull'', sample_fix ''safe'' 7 ''u'']] False
    = Inr sample_plan"
  by code_simp

theorem Build_refines_witness:
  "planned sample_env False [[sample_fix ''suggested'' 9 ''ull'', sample_fix ''safe'' 7 ''u'']]
     ''a.yml'' ''on: pish'' ''on: push'' \<and> pl_skipped sample_plan = 1"
  using Build_refines [OF sample_build] by (simp add: sample_plan_def)

end
