(* ===== verification/Fix_Apply.thy ===== *)
theory Fix_Apply
  imports Fix_Plan
begin

text \<open>
  Applying a plan (\<open>Apply\<close> of \<open>internal/fix/apply.go\<close>). \<open>Apply\<close> runs beside other processes, so it
  is a machine over a file system: a state says how far it has come, and an event is its next
  operation (which succeeds, or fails in the operating system) or a write of somebody else.
  Validating a file is one operation, and so is preparing a temporary file, with the name
  \<open>os.CreateTemp\<close> has chosen; a rename is an operation of its own, after the validation.
\<close>

record fs_file =
  fl_regular :: bool
  fl_mode :: nat
  fl_content :: string

type_synonym files = "string \<Rightarrow> fs_file option"

datatype phase =
    Preparing nat
  | Rechecking nat
  | Confirming nat
  | Renaming nat
  | Finished "fix_error option"

record apply_state =
  as_files :: files
  as_temps :: "string option list"
  as_phase :: phase
  as_written :: "string list"

datatype event =
    Proceed string
  | Fail fix_error
  | Interfere string "fs_file option"

definition validate_change :: "(string \<Rightarrow> string) \<Rightarrow> files \<Rightarrow> change \<Rightarrow> fix_error option" where
  "validate_change digest fs c =
     (case fs (ch_path c) of
        None \<Rightarrow> Some (Unreadable (ch_path c))
      | Some f \<Rightarrow>
          if \<not> fl_regular f then Some (NotRegular (ch_path c))
          else if digest (fl_content f) \<noteq> ch_revision c \<or> fl_content f \<noteq> ch_before c
          then Some (SourceChanged (ch_path c)) else None)"

text \<open>The deferred function: the temporary files that are left are removed.\<close>

definition remove_temps :: "string option list \<Rightarrow> files \<Rightarrow> files" where
  "remove_temps ts fs = (\<lambda>p. if Some p \<in> set ts then None else fs p)"

definition stop_apply :: "fix_error option \<Rightarrow> apply_state \<Rightarrow> apply_state" where
  "stop_apply r s =
     s\<lparr>as_files := remove_temps (as_temps s) (as_files s),
       as_temps := map (\<lambda>_. None) (as_temps s), as_phase := Finished r\<rparr>"

definition checked :: "(string \<Rightarrow> string) \<Rightarrow> change \<Rightarrow> apply_state \<Rightarrow> phase \<Rightarrow> apply_state" where
  "checked digest c s next =
     (case validate_change digest (as_files s) c of
        Some e \<Rightarrow> stop_apply (Some e) s
      | None \<Rightarrow> s\<lparr>as_phase := next\<rparr>)"

text \<open>
  The first loop of \<open>Apply\<close>: the change is validated and its text put into a new file, which has
  the permissions of the destination. \<open>CreateTemp\<close> never takes a name that exists.
\<close>

definition prepare :: "(string \<Rightarrow> string) \<Rightarrow> nat \<Rightarrow> change \<Rightarrow> string \<Rightarrow> apply_state \<Rightarrow> apply_state" where
  "prepare digest i c name s =
     (case validate_change digest (as_files s) c of
        Some e \<Rightarrow> stop_apply (Some e) s
      | None \<Rightarrow>
          (case as_files s (ch_path c) of
             None \<Rightarrow> s
           | Some info \<Rightarrow>
               if as_files s name \<noteq> None then s
               else s\<lparr>as_files := (as_files s)(name \<mapsto>
                        \<lparr>fl_regular = True, fl_mode = fl_mode info, fl_content = ch_after c\<rparr>),
                      as_temps := (as_temps s)[i := Some name], as_phase := Preparing (i + 1)\<rparr>))"

definition rename_temp :: "nat \<Rightarrow> change \<Rightarrow> apply_state \<Rightarrow> apply_state" where
  "rename_temp i c s =
     (case as_temps s ! i of
        None \<Rightarrow> stop_apply (Some (SystemError (ch_path c))) s
      | Some t \<Rightarrow>
          s\<lparr>as_files := (as_files s)(ch_path c := as_files s t, t := None),
            as_temps := (as_temps s)[i := None],
            as_phase := Confirming (i + 1), as_written := as_written s @ [ch_path c]\<rparr>)"

definition proceed :: "(string \<Rightarrow> string) \<Rightarrow> change list \<Rightarrow> string \<Rightarrow> apply_state \<Rightarrow> apply_state" where
  "proceed digest cs name s =
     (case as_phase s of
        Preparing i \<Rightarrow>
          if i < length cs then prepare digest i (cs ! i) name s
          else s\<lparr>as_phase := Rechecking 0\<rparr>
      | Rechecking i \<Rightarrow>
          if i < length cs then checked digest (cs ! i) s (Rechecking (i + 1))
          else s\<lparr>as_phase := Confirming 0\<rparr>
      | Confirming i \<Rightarrow>
          if i < length cs then checked digest (cs ! i) s (Renaming i)
          else stop_apply None s
      | Renaming i \<Rightarrow> if i < length cs then rename_temp i (cs ! i) s else s
      | Finished r \<Rightarrow> s)"

fun apply_event :: "(string \<Rightarrow> string) \<Rightarrow> change list \<Rightarrow> event \<Rightarrow> apply_state \<Rightarrow> apply_state" where
  "apply_event digest cs (Proceed name) s = proceed digest cs name s"
| "apply_event digest cs (Fail e) s =
     (case as_phase s of Finished r \<Rightarrow> s | _ \<Rightarrow> stop_apply (Some e) s)"
| "apply_event digest cs (Interfere p f) s =
     (if Some p \<in> set (as_temps s) then s else s\<lparr>as_files := (as_files s)(p := f)\<rparr>)"

definition apply_init :: "change list \<Rightarrow> files \<Rightarrow> apply_state" where
  "apply_init cs fs =
     \<lparr>as_files = fs, as_temps = map (\<lambda>_. None) cs, as_phase = Preparing 0, as_written = []\<rparr>"

definition Apply :: "(string \<Rightarrow> string) \<Rightarrow> change list \<Rightarrow> files \<Rightarrow> event list \<Rightarrow> apply_state" where
  "Apply digest cs fs evs = fold (apply_event digest cs) evs (apply_init cs fs)"

end
