(* ===== verification/Apply_Spec.thy ===== *)
theory Apply_Spec
  imports Fix_Apply
begin

text \<open>
  What applying a plan promises while other processes write to the same file system: a file
  nobody else touches holds its old text or the new one, and the new one only after its old text
  was validated; temporary files do not stay behind; the text of somebody else is never replaced
  once it is in place before the last validation; and undisturbed, \<open>Apply\<close> ends and has written
  every change.
\<close>

subsection \<open>The invariant\<close>

definition good_source :: "(string \<Rightarrow> string) \<Rightarrow> change \<Rightarrow> fs_file \<Rightarrow> bool" where
  "good_source digest c f \<longleftrightarrow>
     fl_regular f \<and> fl_content f = ch_before c \<and> digest (fl_content f) = ch_revision c"

definition new_file :: "fs_file \<Rightarrow> change \<Rightarrow> fs_file" where
  "new_file f c = \<lparr>fl_regular = True, fl_mode = fl_mode f, fl_content = ch_after c\<rparr>"

lemma validate_None:
  "validate_change digest fs c = None \<longleftrightarrow> (\<exists>f. fs (ch_path c) = Some f \<and> good_source digest c f)"
  by (auto simp: validate_change_def good_source_def split: option.splits)

text \<open>How far the machine is, and which temporary files it has.\<close>

definition temps_from :: "nat \<Rightarrow> nat \<Rightarrow> apply_state \<Rightarrow> bool" where
  "temps_from i j s \<longleftrightarrow> (\<forall>k < length (as_temps s). as_temps s ! k \<noteq> None \<longleftrightarrow> i \<le> k \<and> k < j)"

definition progress :: "change list \<Rightarrow> apply_state \<Rightarrow> bool" where
  "progress cs s =
     (let n = length cs; done = (\<lambda>i. as_written s = map ch_path (take i cs)) in
      case as_phase s of
        Preparing i \<Rightarrow> i \<le> n \<and> done 0 \<and> temps_from 0 i s
      | Rechecking i \<Rightarrow> i \<le> n \<and> done 0 \<and> temps_from 0 n s
      | Confirming i \<Rightarrow> i \<le> n \<and> done i \<and> temps_from i n s
      | Renaming i \<Rightarrow> i < n \<and> done i \<and> temps_from i n s
      | Finished r \<Rightarrow> (\<exists>i \<le> n. done i \<and> (r = None \<longrightarrow> i = n)) \<and> temps_from 0 0 s)"

text \<open>\<open>Q\<close> is the set of the paths nobody else writes to, \<open>fs\<close> the file system at the start.\<close>

definition temp_ok :: "string set \<Rightarrow> (string \<Rightarrow> string) \<Rightarrow> change list \<Rightarrow> files \<Rightarrow> apply_state \<Rightarrow> bool" where
  "temp_ok Q digest cs fs s \<longleftrightarrow>
     (\<forall>i t. i < length cs \<and> as_temps s ! i = Some t \<longrightarrow>
        t \<notin> set (map ch_path cs) \<and>
        (\<forall>j < length cs. as_temps s ! j = Some t \<longrightarrow> j = i) \<and>
        (\<exists>g. as_files s t = Some (new_file g (cs ! i)) \<and>
             (ch_path (cs ! i) \<in> Q \<longrightarrow> fs (ch_path (cs ! i)) = Some g \<and> good_source digest (cs ! i) g)))"

definition path_ok :: "(string \<Rightarrow> string) \<Rightarrow> change list \<Rightarrow> files \<Rightarrow> apply_state \<Rightarrow> string \<Rightarrow> bool" where
  "path_ok digest cs fs s p =
     (case fs p of
        Some f \<Rightarrow>
          Some p \<notin> set (as_temps s) \<and>
          (if p \<in> set (as_written s)
           then \<exists>c \<in> set cs. ch_path c = p \<and> good_source digest c f \<and> as_files s p = Some (new_file f c)
           else as_files s p = Some f)
      | None \<Rightarrow>
          p \<notin> set (as_written s) \<and> (Some p \<notin> set (as_temps s) \<longrightarrow> as_files s p = None))"

definition apply_inv :: "string set \<Rightarrow> (string \<Rightarrow> string) \<Rightarrow> change list \<Rightarrow> files \<Rightarrow> apply_state \<Rightarrow> bool" where
  "apply_inv Q digest cs fs s \<longleftrightarrow>
     length (as_temps s) = length cs \<and> progress cs s \<and> temp_ok Q digest cs fs s \<and>
     (\<forall>p \<in> Q. path_ok digest cs fs s p)"

lemma apply_inv_init: "apply_inv Q digest cs fs (apply_init cs fs)"
  by (auto simp: apply_inv_def apply_init_def progress_def temps_from_def temp_ok_def path_ok_def Let_def
      split: option.split)

lemma written_prefix: "progress cs s \<Longrightarrow> \<exists>i \<le> length cs. as_written s = map ch_path (take i cs)"
  unfolding progress_def Let_def
  by (cases "as_phase s") (auto intro: less_imp_le_nat)

lemma path_ok_stop: "path_ok digest cs fs s p \<Longrightarrow> path_ok digest cs fs (stop_apply r s) p"
  by (auto simp: path_ok_def stop_apply_def remove_temps_def split: option.splits)

lemma apply_inv_stop:
  assumes inv: "apply_inv Q digest cs fs s" and r: "r = None \<Longrightarrow> as_written s = map ch_path cs"
  shows "apply_inv Q digest cs fs (stop_apply r s)"
proof -
  obtain i where "i \<le> length cs" "as_written s = map ch_path (take i cs)"
    using inv written_prefix [of cs s] by (auto simp: apply_inv_def)
  then have "\<exists>i \<le> length cs. as_written s = map ch_path (take i cs) \<and> (r = None \<longrightarrow> i = length cs)"
    using r by (cases r) auto
  then have "progress cs (stop_apply r s)"
    by (simp add: progress_def stop_apply_def temps_from_def)
  moreover have "length (as_temps (stop_apply r s)) = length cs"
    using inv by (simp add: stop_apply_def apply_inv_def)
  moreover from this have "temp_ok Q digest cs fs (stop_apply r s)"
    by (auto simp: temp_ok_def stop_apply_def)
  ultimately show ?thesis using inv path_ok_stop by (auto simp: apply_inv_def)
qed

lemma phase_ok [simp]:
  "temp_ok Q digest cs fs (s\<lparr>as_phase := ph\<rparr>) = temp_ok Q digest cs fs s"
  "path_ok digest cs fs (s\<lparr>as_phase := ph\<rparr>) p = path_ok digest cs fs s p"
  "temps_from i j (s\<lparr>as_phase := ph\<rparr>) = temps_from i j s"
  by (simp_all add: temp_ok_def path_ok_def temps_from_def cong: option.case_cong)

lemma apply_inv_phase:
  "apply_inv Q digest cs fs s \<Longrightarrow> progress cs (s\<lparr>as_phase := ph\<rparr>) \<Longrightarrow>
   apply_inv Q digest cs fs (s\<lparr>as_phase := ph\<rparr>)"
  by (simp add: apply_inv_def)

lemma apply_inv_checked:
  assumes "apply_inv Q digest cs fs s" and "progress cs (s\<lparr>as_phase := ph\<rparr>)"
  shows "apply_inv Q digest cs fs (checked digest c s ph)"
  using apply_inv_stop [OF assms(1)] apply_inv_phase [OF assms]
  by (auto simp: checked_def split: option.splits)

lemma apply_inv_prepare:
  assumes inv: "apply_inv Q digest cs fs s" and ph: "as_phase s = Preparing i" and i: "i < length cs"
    and name: "name \<notin> set (map ch_path cs)"
  shows "apply_inv Q digest cs fs (prepare digest i (cs ! i) name s)"
proof (cases "validate_change digest (as_files s) (cs ! i)")
  case (Some e)
  then show ?thesis using apply_inv_stop [OF inv, of "Some e"] by (simp add: prepare_def)
next
  case None
  then obtain g where g: "as_files s (ch_path (cs ! i)) = Some g" "good_source digest (cs ! i) g"
    by (auto simp: validate_None)
  show ?thesis
  proof (cases "as_files s name")
    case (Some f)
    then show ?thesis using inv None g by (simp add: prepare_def)
  next
    case fresh: None
    define u where "u = s\<lparr>as_files := (as_files s)(name \<mapsto> new_file g (cs ! i)),
      as_temps := (as_temps s)[i := Some name], as_phase := Preparing (i + 1)\<rparr>"
    have u: "prepare digest i (cs ! i) name s = u"
      using None g fresh by (simp add: prepare_def u_def new_file_def)
    have len: "length (as_temps s) = length cs" and written: "as_written s = []"
      and temps: "temps_from 0 i s" and t: "temp_ok Q digest cs fs s"
      and paths: "\<And>p. p \<in> Q \<Longrightarrow> path_ok digest cs fs s p"
      using inv ph by (auto simp: apply_inv_def progress_def Let_def)
    have "progress cs u"
      using temps i len written by (auto simp: u_def progress_def temps_from_def nth_list_update)
    moreover have "temp_ok Q digest cs fs u"
      unfolding temp_ok_def
    proof (intro allI impI, elim conjE)
      fix j t'
      assume j: "j < length cs" and t': "as_temps u ! j = Some t'"
      have old: "as_files s t' \<noteq> None" if "k < length cs" "as_temps s ! k = Some t'" for k t'
        using t that unfolding temp_ok_def by blast
      show "t' \<notin> set (map ch_path cs) \<and> (\<forall>k < length cs. as_temps u ! k = Some t' \<longrightarrow> k = j) \<and>
        (\<exists>g. as_files u t' = Some (new_file g (cs ! j)) \<and>
           (ch_path (cs ! j) \<in> Q \<longrightarrow> fs (ch_path (cs ! j)) = Some g \<and> good_source digest (cs ! j) g))"
      proof (cases "j = i")
        case True
        then have "t' = name" using t' len i by (simp add: u_def)
        moreover have "fs (ch_path (cs ! i)) = Some g" if "ch_path (cs ! i) \<in> Q"
        proof -
          have "Some (ch_path (cs ! i)) \<notin> set (as_temps s)"
            using t i len unfolding temp_ok_def in_set_conv_nth by (metis in_set_conv_nth length_map nth_map)
          then show ?thesis using paths [OF that] g(1) written
            by (simp add: path_ok_def split: option.splits)
        qed
        moreover have "k = i" if "k < length cs" "as_temps u ! k = Some name" for k
          using that old [of k name] fresh len by (cases "k = i") (simp_all add: u_def)
        ultimately show ?thesis using True name g(2) by (auto simp: u_def)
      next
        case False
        then have "as_temps s ! j = Some t'" "t' \<noteq> name"
          using t' old [OF j] fresh len i by (auto simp: u_def)
        then show ?thesis using t j False len i unfolding temp_ok_def u_def
          by (auto simp: nth_list_update)
      qed
    qed
    moreover have "path_ok digest cs fs u p" if "p \<in> Q" for p
    proof -
      have free: "as_temps s ! i = None" using temps i len by (auto simp: temps_from_def)
      have sub: "set (as_temps u) \<subseteq> insert (Some name) (set (as_temps s))"
        unfolding u_def by (simp add: set_update_subset_insert)
      have keep: "Some p \<in> set (as_temps u)" if old: "Some p \<in> set (as_temps s)"
      proof -
        obtain k where k: "k < length (as_temps s)" "as_temps s ! k = Some p"
          using old by (auto simp: in_set_conv_nth)
        then have "k \<noteq> i" using free by auto
        then have "as_temps u ! k = Some p" "k < length (as_temps u)" using k by (simp_all add: u_def)
        then show ?thesis by (metis nth_mem)
      qed
      show ?thesis
      proof (cases "fs p")
        case None
        then show ?thesis using paths [OF \<open>p \<in> Q\<close>] keep len i written
          by (auto simp: path_ok_def u_def set_update_memI)
      next
        case (Some f)
        then have "as_files s p = Some f" "Some p \<notin> set (as_temps s)"
          using paths [OF \<open>p \<in> Q\<close>] written by (simp_all add: path_ok_def)
        then show ?thesis using Some sub fresh written by (auto simp: path_ok_def u_def)
      qed
    qed
    ultimately show ?thesis using len u by (simp add: apply_inv_def u_def)
  qed
qed

lemma apply_inv_rename:
  assumes inv: "apply_inv Q digest cs fs s" and ph: "as_phase s = Renaming i"
  shows "apply_inv Q digest cs fs (rename_temp i (cs ! i) s)"
proof -
  have len: "length (as_temps s) = length cs" and i: "i < length cs"
    and written: "as_written s = map ch_path (take i cs)" and temps: "temps_from i (length cs) s"
    and t: "temp_ok Q digest cs fs s" and paths: "\<And>p. p \<in> Q \<Longrightarrow> path_ok digest cs fs s p"
    using inv ph by (auto simp: apply_inv_def progress_def Let_def)
  obtain x where x: "as_temps s ! i = Some x" using temps i len by (auto simp: temps_from_def)
  define u where "u = s\<lparr>as_files := (as_files s)(ch_path (cs ! i) := as_files s x, x := None),
      as_temps := (as_temps s)[i := None], as_phase := Confirming (i + 1),
      as_written := as_written s @ [ch_path (cs ! i)]\<rparr>"
  have u: "rename_temp i (cs ! i) s = u" using x by (simp add: rename_temp_def u_def)
  obtain g where g: "as_files s x = Some (new_file g (cs ! i))"
    "ch_path (cs ! i) \<in> Q \<Longrightarrow> fs (ch_path (cs ! i)) = Some g \<and> good_source digest (cs ! i) g"
    and alone: "\<forall>j < length cs. as_temps s ! j = Some x \<longrightarrow> j = i"
    using t i x unfolding temp_ok_def by blast
  have nopath: "y \<notin> set (map ch_path cs)" if "Some y \<in> set (as_temps s)" for y
    using t that len unfolding temp_ok_def in_set_conv_nth by metis
  have at: "as_temps u ! j = Some y \<longleftrightarrow> j \<noteq> i \<and> as_temps s ! j = Some y" if "j < length cs" for j y
    using that len by (cases "j = i") (simp_all add: u_def)
  have members: "Some y \<in> set (as_temps u) \<longleftrightarrow> y \<noteq> x \<and> Some y \<in> set (as_temps s)" for y
  proof -
    have lu: "length (as_temps u) = length cs" using len by (simp add: u_def)
    have "Some y \<in> set (as_temps u) \<longleftrightarrow> (\<exists>j < length cs. as_temps u ! j = Some y)"
      unfolding in_set_conv_nth lu ..
    also have "\<dots> \<longleftrightarrow> (\<exists>j < length cs. j \<noteq> i \<and> as_temps s ! j = Some y)" using at by blast
    also have "\<dots> \<longleftrightarrow> (\<exists>j < length cs. y \<noteq> x \<and> as_temps s ! j = Some y)"
      using alone x by force
    also have "\<dots> \<longleftrightarrow> y \<noteq> x \<and> Some y \<in> set (as_temps s)"
      unfolding in_set_conv_nth len by blast
    finally show ?thesis .
  qed
  have path: "ch_path (cs ! i) \<in> set (map ch_path cs)" using i by simp
  have mem: "Some x \<in> set (as_temps s)" using x i len by (metis nth_mem)
  then have "x \<notin> set (map ch_path cs)" by (rule nopath)
  with path have ne: "x \<noteq> ch_path (cs ! i)" by metis
  have "progress cs u"
    using temps i len written
    by (auto simp: u_def progress_def temps_from_def nth_list_update take_Suc_conv_app_nth)
  moreover have "temp_ok Q digest cs fs u"
    unfolding temp_ok_def
  proof (intro allI impI, elim conjE)
    fix j y
    assume j: "j < length cs" and y: "as_temps u ! j = Some y"
    then have y: "j \<noteq> i" "as_temps s ! j = Some y" using at by auto
    then have "y \<noteq> x" using alone j by auto
    moreover have "y \<noteq> ch_path (cs ! i)" using nopath y j len path by (metis nth_mem)
    ultimately have "as_files u y = as_files s y" by (simp add: u_def)
    then show "y \<notin> set (map ch_path cs) \<and> (\<forall>k < length cs. as_temps u ! k = Some y \<longrightarrow> k = j) \<and>
        (\<exists>g. as_files u y = Some (new_file g (cs ! j)) \<and>
           (ch_path (cs ! j) \<in> Q \<longrightarrow> fs (ch_path (cs ! j)) = Some g \<and> good_source digest (cs ! j) g))"
      using t j y at unfolding temp_ok_def by simp
  qed
  moreover have "path_ok digest cs fs u p" if p: "p \<in> Q" for p
  proof (cases "p = ch_path (cs ! i)")
    case True
    then have "Some p \<notin> set (as_temps u)" using members nopath path by blast
    then show ?thesis using True g p ne i by (auto simp: path_ok_def u_def)
  next
    case False
    then show ?thesis using paths [OF p] members [of p] mem
      by (auto simp: path_ok_def u_def split: option.splits)
  qed
  ultimately show ?thesis using len u by (simp add: apply_inv_def u_def)
qed

lemma apply_inv_event:
  assumes inv: "apply_inv Q digest cs fs s"
    and "\<And>name. ev = Proceed name \<Longrightarrow> name \<notin> set (map ch_path cs)"
    and "\<And>p f. ev = Interfere p f \<Longrightarrow> p \<notin> Q"
  shows "apply_inv Q digest cs fs (apply_event digest cs ev s)"
proof (cases ev)
  case (Proceed name)
  have p: "progress cs s" using inv by (simp add: apply_inv_def)
  show ?thesis
  proof (cases "as_phase s")
    case (Preparing i)
    then show ?thesis using p Proceed assms apply_inv_prepare [OF inv Preparing]
      by (auto simp: proceed_def progress_def Let_def intro!: apply_inv_phase)
  next
    case (Rechecking i)
    then show ?thesis using p Proceed inv
      by (auto simp: proceed_def progress_def Let_def temps_from_def
          intro!: apply_inv_phase apply_inv_checked)
  next
    case (Confirming i)
    then show ?thesis using p Proceed inv
      by (auto simp: proceed_def progress_def Let_def temps_from_def
          intro!: apply_inv_stop apply_inv_checked)
  next
    case (Renaming i)
    then show ?thesis using p Proceed apply_inv_rename [OF inv Renaming] inv
      by (simp add: proceed_def)
  next
    case (Finished r)
    then show ?thesis using Proceed inv by (simp add: proceed_def)
  qed
next
  case (Fail e)
  then show ?thesis using inv apply_inv_stop [OF inv, of "Some e"]
    by (simp split: phase.split)
next
  case (Interfere q f)
  show ?thesis
  proof (cases "Some q \<in> set (as_temps s)")
    case False
    let ?u = "s\<lparr>as_files := (as_files s)(q := f)\<rparr>"
    have "progress cs ?u = progress cs s"
      by (simp add: progress_def temps_from_def cong: phase.case_cong)
    moreover have "temp_ok Q digest cs fs ?u" if "temp_ok Q digest cs fs s" "length (as_temps s) = length cs"
    proof -
      have "y \<noteq> q" if "j < length cs" "as_temps s ! j = Some y" for j y
        using that False \<open>length (as_temps s) = length cs\<close> by (metis nth_mem)
      then show ?thesis using that(1) by (auto simp: temp_ok_def)
    qed
    moreover have "path_ok digest cs fs ?u p = path_ok digest cs fs s p" if "p \<in> Q" for p
    proof -
      have "p \<noteq> q" using that assms(3) Interfere by blast
      then show ?thesis by (simp add: path_ok_def cong: option.case_cong)
    qed
    ultimately show ?thesis using inv Interfere False by (simp add: apply_inv_def)
  qed (use inv Interfere in simp)
qed

text \<open>Names of temporary files, and the paths nobody else writes to.\<close>

definition temp_names :: "change list \<Rightarrow> event list \<Rightarrow> bool" where
  "temp_names cs evs \<longleftrightarrow> (\<forall>name. Proceed name \<in> set evs \<longrightarrow> name \<notin> set (map ch_path cs))"

definition undisturbed :: "event list \<Rightarrow> string set" where
  "undisturbed evs = {p. \<forall>f. Interfere p f \<notin> set evs}"

lemma apply_inv_events:
  "apply_inv Q digest cs fs s \<Longrightarrow> temp_names cs evs \<Longrightarrow> Q \<subseteq> undisturbed evs \<Longrightarrow>
   apply_inv Q digest cs fs (fold (apply_event digest cs) evs s)"
proof (induction evs arbitrary: s)
  case (Cons ev evs)
  have "apply_inv Q digest cs fs (apply_event digest cs ev s)"
    using Cons.prems by (intro apply_inv_event) (auto simp: temp_names_def undisturbed_def)
  moreover have "temp_names cs evs" "Q \<subseteq> undisturbed evs"
    using Cons.prems(2,3) by (auto simp: temp_names_def undisturbed_def)
  ultimately show ?case using Cons.IH by simp
qed simp

lemma Apply_inv:
  "temp_names cs evs \<Longrightarrow> apply_inv (undisturbed evs) digest cs fs (Apply digest cs fs evs)"
  unfolding Apply_def by (rule apply_inv_events [OF apply_inv_init]) simp_all

text \<open>
  (C22) Applying a plan is safe, whatever fails and whatever other processes write elsewhere: the
  written paths are the first ones of the plan, all of them when it ends without an error; a file
  nobody else writes to keeps its text and permissions until it is written, then it has the new
  text and its old permissions, and only if its text was the one the plan was made for; and once
  \<open>Apply\<close> has ended, no temporary file is left.
\<close>

theorem Apply_safe:
  assumes "temp_names cs evs" and s: "s = Apply digest cs fs evs"
  shows "(\<exists>k \<le> length cs. as_written s = map ch_path (take k cs) \<and>
        (as_phase s = Finished None \<longrightarrow> k = length cs)) \<and>
    (\<forall>p \<in> undisturbed evs. \<forall>f. fs p = Some f \<longrightarrow>
        (if p \<in> set (as_written s)
         then \<exists>c \<in> set cs. ch_path c = p \<and> good_source digest c f \<and> as_files s p = Some (new_file f c)
         else as_files s p = Some f)) \<and>
    (\<forall>p \<in> undisturbed evs. \<forall>r. fs p = None \<and> as_phase s = Finished r \<longrightarrow> as_files s p = None)"
proof (intro conjI ballI allI impI)
  have inv: "apply_inv (undisturbed evs) digest cs fs s"
    unfolding s using assms(1) by (rule Apply_inv)
  then have prog: "progress cs s" by (simp add: apply_inv_def)
  then show "\<exists>k \<le> length cs. as_written s = map ch_path (take k cs) \<and>
      (as_phase s = Finished None \<longrightarrow> k = length cs)"
    using written_prefix [OF prog] by (cases "as_phase s") (auto simp: progress_def Let_def)
  fix p
  assume p: "p \<in> undisturbed evs"
  then have ok: "path_ok digest cs fs s p" using inv by (simp add: apply_inv_def)
  then show "if p \<in> set (as_written s)
      then \<exists>c \<in> set cs. ch_path c = p \<and> good_source digest c f \<and> as_files s p = Some (new_file f c)
      else as_files s p = Some f" if "fs p = Some f" for f
    using that by (simp add: path_ok_def)
  show "as_files s p = None" if fin: "fs p = None \<and> as_phase s = Finished r" for r
  proof -
    have "\<forall>k < length (as_temps s). as_temps s ! k = None"
      using prog fin by (simp add: progress_def temps_from_def Let_def)
    then have "Some p \<notin> set (as_temps s)" by (auto simp: in_set_conv_nth)
    then show ?thesis using ok fin by (simp add: path_ok_def)
  qed
qed

text \<open>Two files to change, a write to a third one, and a failure before the second rename.\<close>

definition sample_changes :: "change list" where
  "sample_changes =
     map (\<lambda>(p, a, b). \<lparr>ch_path = p, ch_before = a, ch_after = b, ch_revision = rev a\<rparr>)
       [(''a.yml'', ''old a'', ''new a''), (''b.yml'', ''old b'', ''new b'')]"

definition sample_files :: files where
  "sample_files =
     [''a.yml'' \<mapsto> \<lparr>fl_regular = True, fl_mode = 420, fl_content = ''old a''\<rparr>,
      ''b.yml'' \<mapsto> \<lparr>fl_regular = True, fl_mode = 384, fl_content = ''old b''\<rparr>]"

definition sample_events :: "event list" where
  "sample_events =
     map Proceed [''t1'', ''t2'', ''-'', ''-'', ''-'', ''-'', ''-''] @ [Interfere ''c.yml'' None] @
     map Proceed [''-'', ''-''] @ [Fail Cancelled]"

theorem Apply_safe_witness:
  "let s = Apply rev sample_changes sample_files sample_events in
   as_written s = [''a.yml''] \<and> as_phase s = Finished (Some Cancelled) \<and>
   map_option fl_content (as_files s ''a.yml'') = Some ''new a'' \<and>
   map_option fl_content (as_files s ''b.yml'') = Some ''old b'' \<and> as_files s ''t2'' = None"
proof -
  let ?s = "Apply rev sample_changes sample_files sample_events"
  have run: "as_written ?s = [''a.yml''] \<and> (case as_phase ?s of Finished r \<Rightarrow> r = Some Cancelled | _ \<Rightarrow> False)"
    by code_simp
  have names: "temp_names sample_changes sample_events"
    by (auto simp: temp_names_def sample_changes_def sample_events_def)
  have q: "''a.yml'' \<in> undisturbed sample_events" "''b.yml'' \<in> undisturbed sample_events"
    "''t2'' \<in> undisturbed sample_events"
    by (simp_all add: undisturbed_def sample_events_def)
  have fin: "as_phase ?s = Finished (Some Cancelled)" using run by (auto split: phase.splits)
  note safe = Apply_safe [OF names refl, of rev sample_files, THEN conjunct2]
  have "\<exists>c \<in> set sample_changes. ch_path c = ''a.yml'' \<and>
      as_files ?s ''a.yml'' = Some (new_file \<lparr>fl_regular = True, fl_mode = 420, fl_content = ''old a''\<rparr> c)"
    using safe [THEN conjunct1, THEN bspec, OF q(1), THEN spec, THEN mp] run
    by (auto simp: sample_files_def)
  then have a: "map_option fl_content (as_files ?s ''a.yml'') = Some ''new a''"
    by (auto simp: sample_changes_def new_file_def)
  have b: "map_option fl_content (as_files ?s ''b.yml'') = Some ''old b''"
    using safe [THEN conjunct1, THEN bspec, OF q(2), THEN spec, THEN mp] run
    by (auto simp: sample_files_def)
  have "as_files ?s ''t2'' = None"
    using safe [THEN conjunct2, THEN bspec, OF q(3), THEN spec, THEN mp] fin
    by (auto simp: sample_files_def)
  then show ?thesis using run fin a b by (simp add: Let_def)
qed

subsection \<open>Writes of other processes\<close>

text \<open>
  \<open>foreign digest cs p s\<close>: the file at \<open>p\<close> is not the one its changes were made for, and no rename
  to \<open>p\<close> is next.
\<close>

definition foreign :: "(string \<Rightarrow> string) \<Rightarrow> change list \<Rightarrow> string \<Rightarrow> fs_file \<Rightarrow> apply_state \<Rightarrow> bool" where
  "foreign digest cs p f s \<longleftrightarrow>
     length (as_temps s) = length cs \<and> as_files s p = Some f \<and> Some p \<notin> set (as_temps s) \<and>
     (\<forall>c \<in> set cs. ch_path c = p \<longrightarrow> \<not> good_source digest c f) \<and>
     (\<forall>i < length cs. as_phase s = Renaming i \<longrightarrow> ch_path (cs ! i) \<noteq> p)"

lemma foreign_stop: "foreign digest cs p f s \<Longrightarrow> foreign digest cs p f (stop_apply r s)"
  by (auto simp: foreign_def stop_apply_def remove_temps_def)

lemma foreign_event:
  assumes f: "foreign digest cs p f s" and ev: "\<And>g. ev \<noteq> Interfere p g"
  shows "foreign digest cs p f (apply_event digest cs ev s)"
proof (cases ev)
  case (Proceed name)
  show ?thesis
  proof (cases "as_phase s")
    case (Preparing i)
    show ?thesis
    proof (cases "i < length cs")
      case True
      then show ?thesis
        using f foreign_stop [OF f] Proceed Preparing set_update_subset_insert [of "as_temps s" i "Some name"]
        by (auto simp: proceed_def prepare_def foreign_def split: option.split)
    next
      case False
      then show ?thesis using f Proceed Preparing by (simp add: proceed_def foreign_def)
    qed
  next
    case (Rechecking i)
    then show ?thesis using f foreign_stop [OF f] Proceed
      by (auto simp: proceed_def checked_def foreign_def split: option.split)
  next
    case (Confirming i)
    have "ch_path (cs ! i) \<noteq> p" if "i < length cs" "validate_change digest (as_files s) (cs ! i) = None"
      using that f by (auto simp: validate_None foreign_def)
    then show ?thesis using f foreign_stop [OF f] Proceed Confirming
      by (auto simp: proceed_def checked_def foreign_def split: option.split)
  next
    case (Renaming i)
    have "t \<noteq> p" if "as_temps s ! i = Some t" "i < length cs" for t
      using f that unfolding foreign_def by (metis nth_mem)
    then show ?thesis using f foreign_stop [OF f] Proceed Renaming set_update_subset_insert [of "as_temps s" i None]
      by (auto simp: proceed_def rename_temp_def foreign_def split: option.split)
  next
    case (Finished r)
    then show ?thesis using f Proceed by (simp add: proceed_def)
  qed
next
  case (Fail e)
  then show ?thesis using f foreign_stop [OF f] by (simp split: phase.split)
next
  case (Interfere q g)
  then have "q \<noteq> p" using ev by blast
  then show ?thesis using f Interfere by (simp add: foreign_def)
qed

text \<open>
  (C25) The last validation protects the writes of other processes: when a file does not have the
  text its change was made for and its rename is not the very next operation, \<open>Apply\<close> leaves it
  as it is, however it goes on, until somebody else writes to it again.
\<close>

theorem Apply_keeps_foreign:
  assumes "foreign digest cs p f s" and "p \<in> undisturbed evs"
  shows "as_files (fold (apply_event digest cs) evs s) p = Some f"
proof -
  have "foreign digest cs p f (fold (apply_event digest cs) evs s)"
    using assms
  proof (induction evs arbitrary: s)
    case (Cons ev evs)
    have "foreign digest cs p f (apply_event digest cs ev s)"
      using Cons.prems by (intro foreign_event) (auto simp: undisturbed_def)
    then show ?case using Cons.IH Cons.prems(2) by (simp add: undisturbed_def)
  qed simp
  then show ?thesis by (simp add: foreign_def)
qed

theorem Apply_keeps_foreign_witness:
  "let f = \<lparr>fl_regular = True, fl_mode = 420, fl_content = ''their a''\<rparr>;
       s = apply_init sample_changes (sample_files(''a.yml'' \<mapsto> f))
   in as_files (fold (apply_event rev sample_changes) sample_events s) ''a.yml'' = Some f"
proof -
  let ?f = "\<lparr>fl_regular = True, fl_mode = 420, fl_content = ''their a''\<rparr>"
  have "foreign rev sample_changes ''a.yml'' ?f
      (apply_init sample_changes (sample_files(''a.yml'' \<mapsto> ?f)))"
    by (auto simp: foreign_def apply_init_def sample_changes_def good_source_def)
  moreover have "''a.yml'' \<in> undisturbed sample_events"
    by (simp add: undisturbed_def sample_events_def)
  ultimately show ?thesis using Apply_keeps_foreign by (simp add: Let_def)
qed

subsection \<open>Progress\<close>

text \<open>How many operations are left.\<close>

definition operations_left :: "nat \<Rightarrow> phase \<Rightarrow> nat" where
  "operations_left n ph =
     (case ph of
        Preparing i \<Rightarrow> 4 * n + 3 - i
      | Rechecking i \<Rightarrow> 3 * n + 2 - i
      | Confirming i \<Rightarrow> 2 * (n - i) + 1
      | Renaming i \<Rightarrow> 2 * (n - i)
      | Finished r \<Rightarrow> 0)"

lemma proceed_progress:
  assumes inv: "apply_inv UNIV digest cs fs s" and paths: "distinct (map ch_path cs)"
    and good: "\<forall>c \<in> set cs. \<exists>f. fs (ch_path c) = Some f \<and> good_source digest c f"
    and name: "as_files s name = None" and go: "\<And>r. as_phase s \<noteq> Finished r"
  shows "Suc (operations_left (length cs) (as_phase (proceed digest cs name s)))
      = operations_left (length cs) (as_phase s) \<and>
    as_phase (proceed digest cs name s) \<noteq> Finished (Some e)"
proof -
  have prog: "progress cs s" and len: "length (as_temps s) = length cs"
    and ok: "\<And>p. path_ok digest cs fs s p"
    using inv by (simp_all add: apply_inv_def)
  have valid: "\<exists>f. as_files s (ch_path (cs ! i)) = Some f \<and> validate_change digest (as_files s) (cs ! i) = None"
    if i: "i < length cs" and k: "as_written s = map ch_path (take k cs)" "k \<le> i" for i k
  proof -
    obtain f where f: "fs (ch_path (cs ! i)) = Some f" "good_source digest (cs ! i) f"
      using good i by (meson nth_mem)
    have "map ch_path cs ! j \<noteq> map ch_path cs ! i" if "j < k" for j
      using that i k(2) paths by (simp add: nth_eq_iff_index_eq del: nth_map)
    then have "\<forall>j < k. ch_path (cs ! j) \<noteq> ch_path (cs ! i)"
      using i k(2) by fastforce
    then have "ch_path (cs ! i) \<notin> set (as_written s)"
      unfolding k(1) using i
      by (clarsimp simp: in_set_conv_nth) metis
    then have "as_files s (ch_path (cs ! i)) = Some f" using ok [of "ch_path (cs ! i)"] f(1) by (simp add: path_ok_def)
    then show ?thesis using f by (auto simp: validate_None)
  qed
  show ?thesis
  proof (cases "as_phase s")
    case (Preparing i)
    then show ?thesis using prog valid [of i 0] name
      by (auto simp: progress_def Let_def proceed_def prepare_def operations_left_def)
  next
    case (Rechecking i)
    then show ?thesis using prog valid [of i 0]
      by (auto simp: progress_def Let_def proceed_def checked_def operations_left_def)
  next
    case (Confirming i)
    then show ?thesis using prog valid [of i i]
      by (auto simp: progress_def Let_def proceed_def checked_def operations_left_def stop_apply_def)
  next
    case (Renaming i)
    then have "i < length cs" "as_temps s ! i \<noteq> None"
      using prog len by (auto simp: progress_def Let_def temps_from_def)
    then show ?thesis using Renaming
      by (auto simp: proceed_def rename_temp_def operations_left_def)
  next
    case (Finished r)
    then show ?thesis using go by blast
  qed
qed

lemma proceed_fresh:
  assumes "as_files s q = None" and "q \<noteq> name" and "q \<notin> set (map ch_path cs)"
  shows "as_files (proceed digest cs name s) q = None"
  using assms
  by (auto simp: proceed_def prepare_def checked_def rename_temp_def stop_apply_def remove_temps_def
      split: phase.split option.split)

lemma proceed_until_done:
  assumes "distinct (map ch_path cs)"
    and "\<forall>c \<in> set cs. \<exists>f. fs (ch_path c) = Some f \<and> good_source digest c f"
  shows "apply_inv UNIV digest cs fs s \<Longrightarrow> distinct names \<Longrightarrow>
    \<forall>q \<in> set names. as_files s q = None \<and> q \<notin> set (map ch_path cs) \<Longrightarrow>
    operations_left (length cs) (as_phase s) \<le> length names \<Longrightarrow> (\<And>e. as_phase s \<noteq> Finished (Some e)) \<Longrightarrow>
    as_phase (fold (apply_event digest cs) (map Proceed names) s) = Finished None"
proof (induction names arbitrary: s)
  case Nil
  then show ?case by (cases "as_phase s") (auto simp: operations_left_def apply_inv_def progress_def)
next
  case (Cons name names)
  show ?case
  proof (cases "\<exists>r. as_phase s = Finished r")
    case True
    then have "as_phase s = Finished None" using Cons.prems(5) by (metis option.exhaust)
    moreover have "fold (apply_event digest cs) (map Proceed ns) s = s" if "as_phase s = Finished None" for ns
      using that by (induction ns) (simp_all add: proceed_def)
    ultimately show ?thesis by metis
  next
    case False
    let ?u = "proceed digest cs name s"
    have "apply_inv UNIV digest cs fs ?u"
      using apply_inv_event [OF Cons.prems(1), of "Proceed name"] Cons.prems(3) by auto
    moreover have "\<forall>q \<in> set names. as_files ?u q = None \<and> q \<notin> set (map ch_path cs)"
      using Cons.prems(2,3) by (auto intro!: proceed_fresh)
    moreover have "operations_left (length cs) (as_phase ?u) \<le> length names"
      using proceed_progress [OF Cons.prems(1) assms, of name] Cons.prems(3,4) False by fastforce
    moreover have "as_phase ?u \<noteq> Finished (Some e)" for e
      using proceed_progress [OF Cons.prems(1) assms, of name] Cons.prems(3) False by fastforce
    ultimately show ?thesis using Cons.IH [of ?u] Cons.prems(2) by simp
  qed
qed

text \<open>
  (C23) Undisturbed, \<open>Apply\<close> completes: when every file of the plan is as the plan was made for it
  and the operating system lets the operations succeed, \<open>4 * n + 3\<close> operations for \<open>n\<close> changes end
  it without an error, with every change written and nothing else changed.
\<close>

theorem Apply_completes:
  assumes "distinct (map ch_path cs)"
    and "\<forall>c \<in> set cs. \<exists>f. fs (ch_path c) = Some f \<and> good_source digest c f"
    and "distinct names" and "\<forall>name \<in> set names. fs name = None"
    and "4 * length cs + 3 \<le> length names" and s: "s = Apply digest cs fs (map Proceed names)"
  shows "as_phase s = Finished None \<and> as_written s = map ch_path cs \<and>
    (\<forall>p. as_files s p =
       (case fs p of
          None \<Rightarrow> None
        | Some f \<Rightarrow>
            Some (case List.find (\<lambda>c. ch_path c = p) cs of Some c \<Rightarrow> new_file f c | None \<Rightarrow> f)))"
proof -
  let ?evs = "map Proceed names"
  have new: "\<forall>q \<in> set names. fs q = None \<and> q \<notin> set (map ch_path cs)"
    using assms(2,4) by fastforce
  then have "temp_names cs ?evs" "undisturbed ?evs = UNIV"
    by (auto simp: temp_names_def undisturbed_def)
  with Apply_inv [of cs ?evs digest fs] have inv: "apply_inv UNIV digest cs fs s" by (simp add: s)
  have fin: "as_phase s = Finished None"
    unfolding s Apply_def using assms(3,5) new
    by (intro proceed_until_done [OF assms(1,2) apply_inv_init])
      (auto simp: apply_init_def operations_left_def)
  have prog: "progress cs s" and ok: "\<And>p. path_ok digest cs fs s p"
    using inv by (simp_all add: apply_inv_def)
  have written: "as_written s = map ch_path cs" and none: "temps_from 0 0 s"
    using prog fin by (auto simp: progress_def)
  have temps: "Some p \<notin> set (as_temps s)" for p
    using none by (auto simp: temps_from_def in_set_conv_nth)
  have pick: "List.find (\<lambda>c. ch_path c = p) cs = Some c" if "c \<in> set cs" "ch_path c = p" for c p
    using that assms(1) by (induction cs) auto
  have "as_files s p = (case fs p of None \<Rightarrow> None
      | Some f \<Rightarrow> Some (case List.find (\<lambda>c. ch_path c = p) cs of Some c \<Rightarrow> new_file f c | None \<Rightarrow> f))" for p
  proof (cases "fs p")
    case None
    then show ?thesis using ok [of p] temps by (simp add: path_ok_def)
  next
    case (Some f)
    show ?thesis
    proof (cases "p \<in> set (map ch_path cs)")
      case True
      then obtain c where "c \<in> set cs" "ch_path c = p" "as_files s p = Some (new_file f c)"
        using ok [of p] Some written by (auto simp: path_ok_def)
      then show ?thesis using pick Some by simp
    next
      case False
      then have "List.find (\<lambda>c. ch_path c = p) cs = None" by (auto simp: find_None_iff)
      then show ?thesis using ok [of p] Some written False by (simp add: path_ok_def)
    qed
  qed
  then show ?thesis using fin written by blast
qed

theorem Apply_completes_witness:
  "let s = Apply rev sample_changes sample_files
       (map Proceed (map (\<lambda>n. replicate n CHR ''t'') [0..<11])) in
   as_phase s = Finished None \<and> as_written s = [''a.yml'', ''b.yml''] \<and>
   map_option fl_content (as_files s ''b.yml'') = Some ''new b''"
proof -
  let ?names = "map (\<lambda>n. replicate n CHR ''t'') [0..<11]"
  have "distinct ?names" by (simp add: distinct_map inj_on_def)
  moreover have "\<forall>name \<in> set ?names. sample_files name = None" by code_simp
  moreover have "\<forall>c \<in> set sample_changes. \<exists>f. sample_files (ch_path c) = Some f \<and> good_source rev c f"
    by (simp add: sample_changes_def sample_files_def good_source_def)
  ultimately show ?thesis
    using Apply_completes [of sample_changes sample_files rev ?names, OF _ _ _ _ _ refl]
    by (simp add: Let_def sample_changes_def sample_files_def new_file_def)
qed

end
