(* ===== verification/Yaml_Node.thy ===== *)
theory Yaml_Node
  imports Expr_Const
begin

text \<open>
  The YAML syntax tree the analysis works on (\<open>internal/yaml/node.go\<close>) and the scalar
  productions of \<open>internal/yamlscalar\<close>. A \<open>*Node\<close> is a tree whose nodes carry the identity of
  their pointer in \<open>ni_id\<close>; the pointer of an alias to the node it names is that node's
  identity in \<open>ni_alias\<close>. Style bits are a list of flags. \<open>ni_via\<close> is not a field of the Go
  struct: it holds what \<open>Parser.aliases\<close> maps the pointer of a node to, the value and the
  position of the alias a copied node was inserted for. The kind 0 of an empty document is
  \<open>ZeroNode\<close>.
\<close>

datatype yaml_kind = ZeroNode | DocumentNode | SequenceNode | MappingNode | ScalarNode | AliasNode

datatype yaml_style = TaggedStyle | DoubleQuotedStyle | SingleQuotedStyle | LiteralStyle | FoldedStyle | FlowStyle

record source_pos =
  at_line :: int
  at_col :: int

record node_info =
  ni_id :: nat
  ni_kind :: yaml_kind
  ni_style :: "yaml_style list"
  ni_tag :: string
  ni_value :: string
  ni_anchor :: string
  ni_alias :: "nat option"
  ni_head_comment :: string
  ni_line_comment :: string
  ni_foot_comment :: string
  ni_line :: int
  ni_column :: int
  ni_via :: "(string \<times> source_pos) option"

datatype ynode = YNode (yn_info: node_info) (yn_content: "ynode list")

abbreviation yn_id :: "ynode \<Rightarrow> nat" where "yn_id n \<equiv> ni_id (yn_info n)"
abbreviation yn_kind :: "ynode \<Rightarrow> yaml_kind" where "yn_kind n \<equiv> ni_kind (yn_info n)"
abbreviation yn_tag :: "ynode \<Rightarrow> string" where "yn_tag n \<equiv> ni_tag (yn_info n)"
abbreviation yn_value :: "ynode \<Rightarrow> string" where "yn_value n \<equiv> ni_value (yn_info n)"
abbreviation yn_line :: "ynode \<Rightarrow> int" where "yn_line n \<equiv> ni_line (yn_info n)"
abbreviation yn_column :: "ynode \<Rightarrow> int" where "yn_column n \<equiv> ni_column (yn_info n)"

text \<open>\<open>n.Style & (a | b | ...) != 0\<close>.\<close>

definition has_style :: "ynode \<Rightarrow> yaml_style list \<Rightarrow> bool" where
  "has_style n fs \<longleftrightarrow> list_ex (\<lambda>f. f \<in> set (ni_style (yn_info n))) fs"

definition info_pos :: "node_info \<Rightarrow> source_pos" where
  "info_pos i = \<lparr>at_line = ni_line i, at_col = ni_column i\<rparr>"

definition PosAt :: "ynode \<Rightarrow> source_pos" where
  "PosAt n = info_pos (yn_info n)"

text \<open>\<open>result := *node; result.Value = v\<close>: a copy, which no alias is replaced by.\<close>

definition with_value :: "string \<Rightarrow> ynode \<Rightarrow> ynode" where
  "with_value v n = YNode (yn_info n\<lparr>ni_value := v, ni_via := None\<rparr>) (yn_content n)"

lemma with_value_simps [simp]:
  "yn_content (with_value v n) = yn_content n" "yn_kind (with_value v n) = yn_kind n"
  "yn_tag (with_value v n) = yn_tag n" "yn_value (with_value v n) = v"
  "PosAt (with_value v n) = PosAt n" "has_style (with_value v n) fs = has_style n fs"
  "ni_via (yn_info (with_value v n)) = None"
  by (simp_all add: with_value_def PosAt_def info_pos_def has_style_def)

text \<open>All nodes of a tree, parents first.\<close>

fun tree_nodes :: "ynode \<Rightarrow> ynode list" where
  "tree_nodes (YNode i cs) = YNode i cs # concat (map tree_nodes cs)"

lemma tree_nodes_self [simp]: "n \<in> set (tree_nodes n)"
  by (cases n) simp

lemma tree_nodes_content: "c \<in> set (yn_content n) \<Longrightarrow> set (tree_nodes c) \<subseteq> set (tree_nodes n)"
  by (cases n) auto

lemma tree_nodes_trans: "m \<in> set (tree_nodes n) \<Longrightarrow> set (tree_nodes m) \<subseteq> set (tree_nodes n)"
proof (induction n)
  case (YNode i cs)
  then show ?case by fastforce
qed

lemma content_size: "c \<in> set (yn_content n) \<Longrightarrow> size c < size n"
  by (cases n) (auto simp: less_Suc_eq_le dest: size_list_estimation' [where f = size, OF _ order_refl])

text \<open>Nodes for examples: identity, kind, tag, value and the position.\<close>

definition plain_info :: "nat \<Rightarrow> yaml_kind \<Rightarrow> string \<Rightarrow> string \<Rightarrow> int \<Rightarrow> int \<Rightarrow> node_info" where
  "plain_info a k t v l c =
     \<lparr>ni_id = a, ni_kind = k, ni_style = [], ni_tag = t, ni_value = v, ni_anchor = [], ni_alias = None,
      ni_head_comment = [], ni_line_comment = [], ni_foot_comment = [], ni_line = l, ni_column = c, ni_via = None\<rparr>"

subsection \<open>Scalar productions\<close>

definition IsCoreSchemaBool :: "string \<Rightarrow> bool" where
  "IsCoreSchemaBool s \<longleftrightarrow>
     s \<in> set [''true'', ''True'', ''TRUE'', ''false'', ''False'', ''FALSE'']"

definition IsCoreSchemaNull :: "string \<Rightarrow> bool" where
  "IsCoreSchemaNull s \<longleftrightarrow> s \<in> set [[], ''null'', ''Null'', ''NULL'', ''~'']"

definition IsCoreSchemaFloat :: "string \<Rightarrow> bool" where
  "IsCoreSchemaFloat s \<longleftrightarrow>
     s \<in> set [''.inf'', ''.Inf'', ''.INF'', ''+.inf'', ''+.Inf'', ''+.INF'',
       ''-.inf'', ''-.Inf'', ''-.INF'', ''.nan'', ''.NaN'', ''.NAN'']
     \<or> IsCoreSchemaDecimal s"

definition IsCoreSchemaNumber :: "string \<Rightarrow> bool" where
  "IsCoreSchemaNumber s \<longleftrightarrow> IsCoreSchemaInt s \<or> IsCoreSchemaFloat s"

end
