(* ===== verification/Yaml_Scalar.thy ===== *)
theory Yaml_Scalar
  imports Yaml_Document Yaml_Node
begin

text \<open>
  Decoding of a YAML scalar with the provenance of its bytes (\<open>internal/yamlsource/scalar.go\<close>).
  The \<open>decoder\<close> struct is a record; \<open>lines\<close> is the field of its document, and the three
  fields that memoise the last column (\<open>positionRow\<close>, \<open>positionByte\<close>, \<open>positionColumn\<close>) are left
  out: \<open>position\<close> asks the document. A byte beyond the line is 0, as \<open>peek\<close> has it, so a NUL
  byte in the source ends a line for the decoder too.
\<close>

record scalar_span =
  ss_start :: nat
  ss_end :: nat
  ss_pos :: source_pos
  ss_width :: nat
  ss_break :: bool

record yaml_scalar =
  ys_value :: string
  ys_spans :: "scalar_span list"
  ys_start :: source_pos
  ys_end :: source_pos
  ys_literal :: bool

record scalar_context =
  sx_indent :: int
  sx_flow :: bool

datatype scalar_error = InvalidScalarPosition | InvalidScalarColumn | UnterminatedScalar | InvalidScalarEscape

record decoder =
  dc_document :: document
  dc_row :: nat
  dc_col :: nat
  dc_value :: string
  dc_result :: yaml_scalar
  dc_context :: scalar_context
  dc_lastColumn :: int

abbreviation dc_lines :: "decoder \<Rightarrow> string list" where
  "dc_lines d \<equiv> doc_lines (dc_document d)"

text \<open>The line of the decoder and the bytes from its column on.\<close>

definition dc_line :: "decoder \<Rightarrow> string" where
  "dc_line d = (if dc_row d < length (dc_lines d) then dc_lines d ! dc_row d else [])"

definition dc_rest :: "decoder \<Rightarrow> string" where
  "dc_rest d = drop (dc_col d) (dc_line d)"

abbreviation nul :: char where
  "nul \<equiv> CHR 0x00"

definition blanks :: string where
  "blanks = [CHR '' '', CHR 0x09]"

definition peek :: "decoder \<Rightarrow> char" where
  "peek d = (case dc_rest d of [] \<Rightarrow> nul | c # cs \<Rightarrow> c)"

definition is_blank :: "char \<Rightarrow> bool" where
  "is_blank c \<longleftrightarrow> c \<in> set blanks"

definition zero_pos :: source_pos where
  "zero_pos = \<lparr>at_line = 0, at_col = 0\<rparr>"

definition position :: "decoder \<Rightarrow> source_pos" where
  "position d =
     (if length (dc_lines d) \<le> dc_row d
      then \<lparr>at_line = int (length (dc_lines d)), at_col = int (length (runes (last (dc_lines d)))) + 1\<rparr>
      else \<lparr>at_line = int (dc_row d) + 1, at_col = int (column_at (dc_document d) (dc_row d) (dc_col d))\<rparr>)"

definition set_end :: "source_pos \<Rightarrow> decoder \<Rightarrow> decoder" where
  "set_end p d = d\<lparr>dc_result := dc_result d\<lparr>ys_end := p\<rparr>\<rparr>"

text \<open>\<open>d.result.End = d.position()\<close>.\<close>

definition mark_end :: "decoder \<Rightarrow> decoder" where
  "mark_end d = set_end (position d) d"

definition skip_blanks :: "decoder \<Rightarrow> decoder" where
  "skip_blanks d = d\<lparr>dc_col := dc_col d + length (takeWhile is_blank (dc_rest d))\<rparr>"

definition next_row :: "decoder \<Rightarrow> decoder" where
  "next_row d = d\<lparr>dc_row := dc_row d + 1, dc_col := 0\<rparr>"

subsection \<open>Where a plain scalar ends\<close>

definition documentMarker :: "decoder \<Rightarrow> string \<Rightarrow> bool" where
  "documentMarker d marker \<longleftrightarrow>
     (let s = dc_line d in
      has_prefix s marker \<and> (length s = 3 \<or> is_blank (s ! 3)))"

definition plainEnd :: "decoder \<Rightarrow> bool" where
  "plainEnd d \<longleftrightarrow>
     (let c = peek d; flow = sx_flow (dc_context d); rest = drop 1 (dc_rest d) in
      c = CHR ''#'' \<and> (dc_col d = 0 \<or> is_blank (dc_line d ! (dc_col d - 1)))
      \<or> flow \<and> c \<in> set '',[]{}''
      \<or> c = CHR '':'' \<and> (rest = [] \<or> is_blank (hd rest) \<or> flow \<and> hd rest \<in> set '',]}'')
      \<or> c = CHR ''?'' \<and> flow \<and> (rest = [] \<or> is_blank (hd rest))
      \<or> dc_col d = 0 \<and> (documentMarker d ''---'' \<or> documentMarker d ''...''))"

subsection \<open>Tags and anchors before the scalar\<close>

text \<open>How many bytes the loop over one property consumes.\<close>

fun property_length :: "bool \<Rightarrow> bool \<Rightarrow> string \<Rightarrow> nat" where
  "property_length verbatim anchor [] = 0"
| "property_length verbatim anchor (c # cs) =
     (if c = nul then 0
      else if \<not> verbatim \<and> (is_blank c \<or> c \<in> set '',[]{}'' \<or> anchor \<and> (c = CHR '':'' \<or> 128 \<le> rn c)) then 0
      else if verbatim \<and> c = CHR ''>'' then 1
      else Suc (property_length verbatim anchor cs))"

text \<open>
  The loop over white space, comments and line ends after a property: \<open>None\<close> when it returns
  from \<open>properties\<close>.
\<close>

function skip_to_content :: "source_pos \<Rightarrow> decoder \<Rightarrow> decoder option" where
  "skip_to_content e d0 =
     (if length (dc_lines d0) \<le> dc_row d0 then Some d0
      else let d = skip_blanks d0 in
        if peek d \<noteq> nul \<and> peek d \<noteq> CHR ''#''
        then (if at_line e < int (dc_row d) + 1 \<and> \<not> sx_flow (dc_context d) \<and> int (dc_col d) \<le> sx_indent (dc_context d)
              then None else Some d)
        else skip_to_content e (next_row d))"
  by pat_completeness auto
termination
  by (relation "measure (\<lambda>(e, d). length (dc_lines d) - dc_row d)")
    (auto simp: next_row_def skip_blanks_def)

declare skip_to_content.simps [simp del]

text \<open>
  The loop over the properties: the end of an empty scalar, or whether there was a property,
  its end and the decoder at the content.
\<close>

function properties_loop :: "bool \<Rightarrow> bool \<Rightarrow> source_pos \<Rightarrow> decoder \<Rightarrow> source_pos + bool \<times> source_pos \<times> decoder" where
  "properties_loop tag anchor e d =
     (let c = peek d; isAnchor = (c = CHR ''&'') in
      if c \<noteq> CHR ''!'' \<and> \<not> isAnchor then Inr (tag \<or> anchor, e, d)
      else if (if isAnchor then anchor else tag) then Inl e
      else let verbatim = has_prefix (dc_rest d) ''!<'';
               d1 = d\<lparr>dc_col := dc_col d + property_length verbatim isAnchor (dc_rest d)\<rparr>;
               e1 = position d1
           in case skip_to_content e1 d1 of
                None \<Rightarrow> Inl e1
              | Some d2 \<Rightarrow>
                  if dc_row d2 = length (dc_lines d2) then Inl e1
                  else properties_loop (tag \<or> \<not> isAnchor) (anchor \<or> isAnchor) e1 d2)"
  by pat_completeness auto
termination
  by (relation "measure (\<lambda>(t, a, e, d). (if t then 0 else 1) + (if a then 0 else (1::nat)))") auto

declare properties_loop.simps [simp del]

definition properties :: "decoder \<Rightarrow> source_pos + decoder" where
  "properties d0 =
     (case properties_loop False False (position d0) d0 of
        Inl e \<Rightarrow> Inl e
      | Inr (seen, e, d) \<Rightarrow>
          if \<not> seen then Inr d
          else let c = peek d; rest = drop 1 (dc_rest d) in
            if c \<in> set ''*,[]{}'' \<or> plainEnd d
               \<or> (c = CHR ''-'' \<or> c = CHR ''?'') \<and> (rest = [] \<or> is_blank (hd rest))
            then Inl e else Inr d)"

subsection \<open>Decoded bytes\<close>

text \<open>\<open>emit\<close>, the sole writer of the value and of the spans.\<close>

definition extends_last :: "decoder \<Rightarrow> source_pos \<Rightarrow> nat \<Rightarrow> bool" where
  "extends_last d pos width \<longleftrightarrow>
     (let spans = ys_spans (dc_result d) in
      spans \<noteq> [] \<and> width = 0 \<and> ss_width (last spans) = 0 \<and> ss_end (last spans) = length (dc_value d)
      \<and> at_line (ss_pos (last spans)) = at_line pos \<and> dc_lastColumn d = at_col pos)"

definition emit :: "string \<Rightarrow> source_pos \<Rightarrow> nat \<Rightarrow> decoder \<Rightarrow> decoder" where
  "emit s pos width d =
     (let start = length (dc_value d); stop = start + length s; spans = ys_spans (dc_result d);
          d1 = d\<lparr>dc_value := dc_value d @ s\<rparr>
      in if s = [] \<or> at_line pos = 0 then d1
         else d1\<lparr>dc_result := dc_result d\<lparr>ys_spans :=
                  (if extends_last d pos width then butlast spans @ [last spans\<lparr>ss_end := stop\<rparr>]
                   else spans @ [\<lparr>ss_start = start, ss_end = stop, ss_pos = pos, ss_width = width, ss_break = False\<rparr>])\<rparr>,
                dc_lastColumn := at_col pos + int (length (runes s))\<rparr>)"

definition copyRune :: "decoder \<Rightarrow> decoder" where
  "copyRune d =
     (let size = snd (decode_rune (dc_rest d)) in
      (emit (take size (dc_rest d)) (position d) 0 d)\<lparr>dc_col := dc_col d + size\<rparr>)"

definition line_separators :: "string list" where
  "line_separators = [[CHR 0xE2, CHR 0x80, CHR 0xA8], [CHR 0xE2, CHR 0x80, CHR 0xA9]]"

text \<open>The last span is marked after a separator was emitted.\<close>

definition mark_break :: "decoder \<Rightarrow> decoder" where
  "mark_break d =
     d\<lparr>dc_result := dc_result d\<lparr>ys_spans :=
         butlast (ys_spans (dc_result d)) @ [last (ys_spans (dc_result d))\<lparr>ss_break := True\<rparr>]\<rparr>\<rparr>"

text \<open>One pass of the loop of \<open>emitBreaks\<close>: the row, whether it is the first and the only one.\<close>

definition emit_break :: "bool \<Rightarrow> bool \<Rightarrow> bool \<Rightarrow> nat \<Rightarrow> decoder \<Rightarrow> decoder" where
  "emit_break folded first only row d =
     (let v = doc_breaks (dc_document d) ! row in
      if v \<in> set line_separators
      then mark_break (emit v \<lparr>at_line = int row + 1, at_col = int (length (runes (dc_lines d ! row))) + 1\<rparr> 1 d)
      else if \<not> first \<or> \<not> folded then emit [CHR 0x0A] zero_pos 0 d
      else if only then emit '' '' zero_pos 0 d else d)"

fun emit_rest_breaks :: "bool \<Rightarrow> nat list \<Rightarrow> decoder \<Rightarrow> decoder" where
  "emit_rest_breaks folded [] d = d"
| "emit_rest_breaks folded (row # rows) d = emit_rest_breaks folded rows (emit_break folded False False row d)"

fun emitBreaks :: "nat list \<Rightarrow> bool \<Rightarrow> decoder \<Rightarrow> decoder" where
  "emitBreaks [] folded d = d"
| "emitBreaks (row # rows) folded d = emit_rest_breaks folded rows (emit_break folded True (rows = []) row d)"

subsection \<open>White space and escapes\<close>

text \<open>The loop of \<open>whitespace\<close> over the following lines: the rows whose breaks were passed.\<close>

function skip_lines :: "decoder \<Rightarrow> nat list \<times> decoder" where
  "skip_lines d =
     (if dc_row d + 1 < length (dc_lines d)
      then let d1 = skip_blanks (next_row d) in
        if peek d1 \<noteq> nul then ([dc_row d], d1)
        else (case skip_lines d1 of (rows, d2) \<Rightarrow> (dc_row d # rows, d2))
      else ([], d))"
  by pat_completeness auto
termination
  by (relation "measure (\<lambda>d. length (dc_lines d) - dc_row d)") (auto simp: next_row_def skip_blanks_def)

declare skip_lines.simps [simp del]

definition whitespace :: "bool \<Rightarrow> bool \<Rightarrow> decoder \<Rightarrow> bool \<times> decoder" where
  "whitespace inquote continued d =
     (let pos = position d; d1 = skip_blanks d in
      if peek d1 \<noteq> nul then
        (if \<not> inquote \<and> plainEnd d1 then (False, d1)
         else (True, mark_end (emit (takeWhile is_blank (dc_rest d)) pos 0 d1)))
      else (case skip_lines d1 of
          (breaks, d2) \<Rightarrow>
            if peek d2 = nul then (False, d2)
            else if \<not> inquote \<and> (\<not> sx_flow (dc_context d2) \<and> int (dc_col d2) \<le> sx_indent (dc_context d2) \<or> plainEnd d2)
            then (False, d2)
            else (True, if continued \<and> breaks \<noteq> [] then emitBreaks (tl breaks) False d2 else emitBreaks breaks True d2)))"

definition escape_value :: "char \<Rightarrow> string option" where
  "escape_value c =
     map_of [(CHR ''0'', [nul]), (CHR ''a'', [CHR 0x07]), (CHR ''b'', [CHR 0x08]), (CHR ''t'', [CHR 0x09]),
       (CHR 0x09, [CHR 0x09]), (CHR ''n'', [CHR 0x0A]), (CHR ''v'', [CHR 0x0B]), (CHR ''f'', [CHR 0x0C]),
       (CHR ''r'', [CHR 0x0D]), (CHR ''e'', [CHR 0x1B]), (CHR '' '', '' ''), (CHR 0x22, [CHR 0x22]),
       (CHR 0x27, [CHR 0x27]), (CHR 0x5C, [CHR 0x5C]), (CHR ''N'', encode_rune 133), (CHR ''_'', encode_rune 160),
       (CHR ''L'', encode_rune 8232), (CHR ''P'', encode_rune 8233)] c"

definition escape_width :: "char \<Rightarrow> nat" where
  "escape_width c = (if c = CHR ''x'' then 2 else if c = CHR ''u'' then 4 else if c = CHR ''U'' then 8 else 0)"

text \<open>\<open>strconv.ParseUint(s, 16, 32)\<close> and the two tests for a valid rune.\<close>

definition escape_rune :: "string \<Rightarrow> rune option" where
  "escape_rune s =
     (if s = [] then None
      else case parse_digits 16 0 s of
          None \<Rightarrow> None
        | Some n \<Rightarrow> if 1114111 < n \<or> (55296 \<le> n \<and> n < 57344) then None else Some (int n))"

definition decode_escape :: "decoder \<Rightarrow> scalar_error + decoder" where
  "decode_escape d =
     (let pos = position d; r = dc_rest d; c = (if 1 < length r then r ! 1 else nul) in
      case escape_value c of
        Some v \<Rightarrow> Inr (mark_end (emit v pos 2 (d\<lparr>dc_col := dc_col d + 2\<rparr>)))
      | None \<Rightarrow>
          (let width = escape_width c in
           if width = 0 \<or> length r < width + 2 then Inl InvalidScalarEscape
           else case escape_rune (take width (drop 2 r)) of
               None \<Rightarrow> Inl InvalidScalarEscape
             | Some x \<Rightarrow>
                 Inr (mark_end (emit (encode_rune x) pos (width + 2) (d\<lparr>dc_col := dc_col d + width + 2\<rparr>)))))"

subsection \<open>Progress of the decoder\<close>

text \<open>A step stays in its document and moves to a later row, or to a later byte of the line.\<close>

definition advances :: "decoder \<Rightarrow> decoder \<Rightarrow> bool" where
  "advances d d' \<longleftrightarrow>
     dc_document d' = dc_document d
     \<and> (dc_row d < dc_row d' \<and> dc_row d' < length (dc_lines d)
        \<or> dc_row d' = dc_row d \<and> dc_col d < dc_col d' \<and> dc_col d < length (dc_line d))"

lemma emit_simps [simp]:
  "dc_document (emit s pos w d) = dc_document d" "dc_row (emit s pos w d) = dc_row d"
  "dc_col (emit s pos w d) = dc_col d" "dc_value (emit s pos w d) = dc_value d @ s"
  "dc_context (emit s pos w d) = dc_context d"
  by (simp_all add: emit_def Let_def)

lemma set_end_simps [simp]:
  "dc_document (set_end p d) = dc_document d" "dc_row (set_end p d) = dc_row d" "dc_col (set_end p d) = dc_col d"
  "dc_value (set_end p d) = dc_value d" "dc_context (set_end p d) = dc_context d"
  "ys_spans (dc_result (set_end p d)) = ys_spans (dc_result d)" "dc_lastColumn (set_end p d) = dc_lastColumn d"
  by (simp_all add: set_end_def)

lemma mark_end_simps [simp]:
  "dc_document (mark_end d) = dc_document d" "dc_row (mark_end d) = dc_row d" "dc_col (mark_end d) = dc_col d"
  "dc_value (mark_end d) = dc_value d" "dc_context (mark_end d) = dc_context d"
  "ys_spans (dc_result (mark_end d)) = ys_spans (dc_result d)" "dc_lastColumn (mark_end d) = dc_lastColumn d"
  by (simp_all add: mark_end_def)

lemma mark_break_simps [simp]:
  "dc_document (mark_break d) = dc_document d" "dc_row (mark_break d) = dc_row d" "dc_col (mark_break d) = dc_col d"
  "dc_value (mark_break d) = dc_value d" "dc_context (mark_break d) = dc_context d"
  by (simp_all add: mark_break_def)

lemma emit_break_simps [simp]:
  "dc_document (emit_break f a b r d) = dc_document d" "dc_row (emit_break f a b r d) = dc_row d"
  "dc_col (emit_break f a b r d) = dc_col d" "dc_context (emit_break f a b r d) = dc_context d"
  by (simp_all add: emit_break_def Let_def)

lemma emit_rest_breaks_simps [simp]:
  "dc_document (emit_rest_breaks f rs d) = dc_document d" "dc_row (emit_rest_breaks f rs d) = dc_row d"
  "dc_col (emit_rest_breaks f rs d) = dc_col d" "dc_context (emit_rest_breaks f rs d) = dc_context d"
  by (induction f rs d rule: emit_rest_breaks.induct) simp_all

lemma emitBreaks_simps [simp]:
  "dc_document (emitBreaks rs f d) = dc_document d" "dc_row (emitBreaks rs f d) = dc_row d"
  "dc_col (emitBreaks rs f d) = dc_col d" "dc_context (emitBreaks rs f d) = dc_context d"
  by (cases rs; simp)+

lemma skip_blanks_simps [simp]:
  "dc_document (skip_blanks d) = dc_document d" "dc_row (skip_blanks d) = dc_row d"
  "dc_value (skip_blanks d) = dc_value d" "dc_context (skip_blanks d) = dc_context d"
  "dc_result (skip_blanks d) = dc_result d" "dc_lastColumn (skip_blanks d) = dc_lastColumn d"
  by (simp_all add: skip_blanks_def)

lemma next_row_simps [simp]:
  "dc_document (next_row d) = dc_document d" "dc_row (next_row d) = Suc (dc_row d)" "dc_col (next_row d) = 0"
  "dc_value (next_row d) = dc_value d" "dc_context (next_row d) = dc_context d"
  "dc_result (next_row d) = dc_result d" "dc_lastColumn (next_row d) = dc_lastColumn d"
  by (simp_all add: next_row_def)

lemma skip_lines_advance:
  "skip_lines d = (rows, d') \<Longrightarrow>
     dc_document d' = dc_document d \<and> dc_value d' = dc_value d \<and> dc_result d' = dc_result d
     \<and> dc_lastColumn d' = dc_lastColumn d \<and> dc_context d' = dc_context d
     \<and> (rows = [] \<and> d' = d \<or> dc_row d < dc_row d' \<and> dc_row d' < length (dc_lines d))"
proof (induction d arbitrary: rows d' rule: skip_lines.induct)
  case (1 d)
  show ?case
  proof (cases "dc_row d + 1 < length (dc_lines d)")
    case True
    let ?d = "skip_blanks (next_row d)"
    obtain rows1 d1 where s: "skip_lines ?d = (rows1, d1)" by fastforce
    show ?thesis
      using 1 True s by (subst (asm) (2) skip_lines.simps) (auto simp: Let_def split: if_splits)
  next
    case False
    then show ?thesis using "1.prems" by (subst (asm) skip_lines.simps) simp
  qed
qed

lemma peek_rest: "peek d \<noteq> nul \<Longrightarrow> \<exists>cs. dc_rest d = peek d # cs"
  by (auto simp: peek_def split: list.splits)

lemma whitespace_advances:
  assumes "whitespace inquote continued d = (True, d')" and "is_blank (peek d) \<or> peek d = nul"
  shows "advances d d'"
proof (cases "peek (skip_blanks d) \<noteq> nul")
  case True
  have ne: "dc_rest d \<noteq> []"
  proof
    assume "dc_rest d = []"
    then have "skip_blanks d = d" "peek d = nul" by (simp_all add: skip_blanks_def peek_def)
    with True show False by simp
  qed
  have "is_blank (peek d)"
  proof (rule ccontr)
    assume n: "\<not> is_blank (peek d)"
    then have "skip_blanks d = d"
      by (cases "dc_rest d") (simp_all add: peek_def skip_blanks_def)
    with n True assms(2) show False by simp
  qed
  with ne have "dc_col d < dc_col (skip_blanks d)"
    by (cases "dc_rest d") (auto simp: peek_def skip_blanks_def)
  moreover have "dc_col d < length (dc_line d)" using ne by (simp add: dc_rest_def)
  ultimately show ?thesis
    using assms(1) True by (auto simp: whitespace_def Let_def advances_def split: if_splits)
next
  case False
  obtain rows d2 where s: "skip_lines (skip_blanks d) = (rows, d2)" by fastforce
  from assms(1) False s have p: "peek d2 \<noteq> nul" "dc_document d' = dc_document d2" "dc_row d' = dc_row d2" "dc_col d' = dc_col d2"
    by (auto simp: whitespace_def Let_def split: if_splits)
  then show ?thesis
    using skip_lines_advance [OF s] False by (auto simp: advances_def)
qed

lemma escape_advances:
  assumes "decode_escape d = Inr d'" and "1 < length (dc_rest d)"
  shows "advances d d'"
  using assms
  by (auto simp: decode_escape_def Let_def advances_def dc_rest_def split: option.splits if_splits)

lemma copyRune_simps [simp]:
  "dc_document (copyRune d) = dc_document d" "dc_row (copyRune d) = dc_row d"
  "dc_context (copyRune d) = dc_context d"
  "dc_col (copyRune d) = dc_col d + snd (decode_rune (dc_rest d))"
  by (simp_all add: copyRune_def Let_def)

lemma copyRune_advances:
  assumes "peek d \<noteq> nul"
  shows "advances d (mark_end (copyRune d))"
proof -
  from assms have ne: "dc_rest d \<noteq> []" by (auto simp: peek_def)
  then have "1 \<le> snd (decode_rune (dc_rest d))" by (rule decode_width_pos)
  moreover have "dc_col d < length (dc_line d)" using ne by (simp add: dc_rest_def)
  ultimately show ?thesis by (simp add: advances_def)
qed

text \<open>What is left of the document: the measure of the loops.\<close>

definition rows_left :: "decoder \<Rightarrow> nat" where
  "rows_left d = length (dc_lines d) - dc_row d"

definition bytes_left :: "decoder \<Rightarrow> nat" where
  "bytes_left d = length (dc_line d) - dc_col d"

lemma advances_left:
  assumes "advances d d'" and "dc_row d < length (dc_lines d)"
  shows "rows_left d' < rows_left d \<or> rows_left d' = rows_left d \<and> bytes_left d' < bytes_left d"
  using assms by (auto simp: advances_def rows_left_def bytes_left_def dc_line_def)

subsection \<open>Quoted and plain scalars\<close>

text \<open>The loop of \<open>flow\<close>; \<open>quote\<close> is 0 for a plain scalar.\<close>

function flow_loop :: "char \<Rightarrow> decoder \<Rightarrow> scalar_error + decoder" where
  "flow_loop quote d =
     (if length (dc_lines d) \<le> dc_row d then (if quote \<noteq> nul then Inl UnterminatedScalar else Inr d)
      else if quote \<noteq> nul \<and> peek d = quote then
        (if quote = CHR 0x27 \<and> has_prefix (dc_rest d) [CHR 0x27, CHR 0x27]
         then flow_loop quote ((emit [CHR 0x27] (position d) 2 d)\<lparr>dc_col := dc_col d + 2\<rparr>)
         else Inr (mark_end (d\<lparr>dc_col := dc_col d + 1\<rparr>)))
      else if quote = nul \<and> plainEnd d then Inr d
      else if quote = CHR 0x22 \<and> peek d = CHR 0x5C then
        (if length (dc_rest d) = 1
         then (case whitespace True True (d\<lparr>dc_col := dc_col d + 1\<rparr>) of
                 (ok, d') \<Rightarrow> if ok then flow_loop quote d' else Inl UnterminatedScalar)
         else (case decode_escape d of Inl e \<Rightarrow> Inl e | Inr d' \<Rightarrow> flow_loop quote d'))
      else if peek d = nul \<or> is_blank (peek d) then
        (case whitespace (quote \<noteq> nul) False d of
           (ok, d') \<Rightarrow>
             if ok then flow_loop quote d'
             else if quote \<noteq> nul then Inl UnterminatedScalar else Inr d')
      else flow_loop quote (mark_end (copyRune d)))"
  by pat_completeness auto
termination
proof (relation "measures [\<lambda>(q, d). rows_left d, \<lambda>(q, d). bytes_left d]", goal_cases)
  case (2 quote d)
  then have "length (dc_rest d) \<ge> 2" by (auto simp: has_prefix_iff)
  then show ?case using 2 by (auto simp: rows_left_def bytes_left_def dc_line_def dc_rest_def)
next
  case (3 quote d ok d')
  let ?d = "d\<lparr>dc_col := dc_col d + 1\<rparr>"
  from 3 have r: "dc_rest ?d = []" by (auto simp: dc_rest_def dc_line_def)
  then have "peek ?d = nul" by (simp add: peek_def)
  then have "advances ?d d'" using 3 whitespace_advances [of True True ?d d'] by simp
  then show ?case
    using 3 r by (auto simp: advances_def rows_left_def dc_rest_def dc_line_def)
next
  case (4 quote d d')
  then have "1 < length (dc_rest d)" using peek_rest [of d] by (cases "dc_rest d") (auto simp: Suc_lessI)
  with 4 have "advances d d'" by (intro escape_advances) simp_all
  then show ?case using 4 advances_left [of d d'] by auto
next
  case (5 quote d ok d')
  then have "advances d d'" using whitespace_advances [of "quote \<noteq> nul" False d d'] by metis
  then show ?case using 5 advances_left [of d d'] by auto
next
  case (6 quote d)
  then show ?case using copyRune_advances [of d] advances_left [of d "mark_end (copyRune d)"] by auto
qed simp

declare flow_loop.simps [simp del]

definition flow :: "char \<Rightarrow> decoder \<Rightarrow> scalar_error + decoder" where
  "flow quote d =
     flow_loop quote (mark_end (if quote \<noteq> nul then d\<lparr>dc_col := dc_col d + 1\<rparr> else d))"

subsection \<open>Block scalars\<close>

definition is_header_char :: "char \<Rightarrow> bool" where
  "is_header_char c \<longleftrightarrow> c = CHR ''+'' \<or> c = CHR ''-'' \<or> 49 \<le> rn c \<and> rn c \<le> 57"

text \<open>The loop over the indicators: the last chomping indicator (0 for none) and the last digit.\<close>

definition block_header :: "string \<Rightarrow> char \<times> int" where
  "block_header s =
     fold (\<lambda>c (chomp, increment).
         if c = CHR ''+'' \<or> c = CHR ''-'' then (c, increment) else (chomp, rn c - 48)) s (nul, 0)"

function copy_line :: "decoder \<Rightarrow> decoder" where
  "copy_line d = (if peek d \<noteq> nul then copy_line (copyRune d) else d)"
  by pat_completeness auto
termination
proof (relation "measure bytes_left", goal_cases)
  case (2 d)
  then have ne: "dc_rest d \<noteq> []" by (auto simp: peek_def)
  then have "1 \<le> snd (decode_rune (dc_rest d))" by (rule decode_width_pos)
  moreover have "dc_col d < length (dc_line d)" using ne by (simp add: dc_rest_def)
  ultimately show ?case by (auto simp: bytes_left_def dc_line_def split: if_splits)
qed simp

declare copy_line.simps [simp del]

lemma copy_line_simps [simp]:
  "dc_document (copy_line d) = dc_document d" "dc_row (copy_line d) = dc_row d" "dc_context (copy_line d) = dc_context d"
proof (induction d rule: copy_line.induct)
  case (1 d)
  { case 1 then show ?case using "1.IH" by (subst copy_line.simps) simp }
  { case 2 then show ?case using "1.IH" by (subst copy_line.simps) simp }
  { case 3 then show ?case using "1.IH" by (subst copy_line.simps) simp }
qed

record block_state =
  bk_indent :: int
  bk_pending :: "nat list"
  bk_previous :: bool
  bk_hadContent :: bool

definition block_content :: "bool \<Rightarrow> block_state \<Rightarrow> decoder \<Rightarrow> block_state \<times> decoder" where
  "block_content literal b d0 =
     (let d = d0\<lparr>dc_col := nat (bk_indent b)\<rparr>;
          blank = is_blank (peek d);
          d1 = emitBreaks (bk_pending b) (bk_hadContent b \<and> \<not> literal \<and> \<not> bk_previous b \<and> \<not> blank) d;
          d2 = mark_end (copy_line d1)
      in (b\<lparr>bk_pending := (if dc_row d2 + 1 < length (dc_lines d2) then [dc_row d2] else []),
            bk_hadContent := True, bk_previous := blank\<rparr>, next_row d2))"

lemma block_content_simps:
  "block_content literal b d = (b', d') \<Longrightarrow> dc_document d' = dc_document d \<and> dc_row d' = Suc (dc_row d)"
  by (auto simp: block_content_def Let_def)

text \<open>The loop of \<open>block\<close> over the lines.\<close>

function block_loop :: "bool \<Rightarrow> int \<Rightarrow> block_state \<Rightarrow> decoder \<Rightarrow> block_state \<times> decoder" where
  "block_loop literal increment b0 d =
     (if length (dc_lines d) \<le> dc_row d then (b0, d)
      else let raw = dc_line d;
               spaces = length (takeWhile (\<lambda>c. c = CHR '' '') raw);
               b = (if increment = 0 \<and> \<not> bk_hadContent b0
                    then b0\<lparr>bk_indent := max (bk_indent b0) (max (int spaces) (sx_indent (dc_context d) + 1))\<rparr> else b0)
        in if spaces = length raw \<and> (int spaces \<le> bk_indent b \<or> \<not> bk_hadContent b \<and> increment = 0) then
             (if dc_row d + 1 < length (dc_lines d)
              then block_loop literal increment (b\<lparr>bk_pending := bk_pending b @ [dc_row d]\<rparr>)
                (set_end \<lparr>at_line = int (dc_row d) + 1, at_col = int (length raw) + 1\<rparr> d\<lparr>dc_row := dc_row d + 1\<rparr>)
              else block_loop literal increment b (d\<lparr>dc_row := dc_row d + 1\<rparr>))
           else if int spaces < bk_indent b then (b, d)
           else (case block_content literal b d of (b', d') \<Rightarrow> block_loop literal increment b' d'))"
  by pat_completeness auto
termination
proof (relation "measure (\<lambda>(l, i, b, d). rows_left d)", goal_cases)
  case (4 literal increment b0 d raw spaces b b' d')
  have "block_content literal b d = (b', d')" using 4 by simp
  with 4(1) show ?case using block_content_simps [of literal b d b' d'] by (simp add: rows_left_def)
qed (auto simp: rows_left_def)

declare block_loop.simps [simp del]

definition block :: "decoder \<Rightarrow> decoder" where
  "block d =
     (let literal = (peek d = CHR ''|'');
          header = takeWhile is_header_char (drop 1 (dc_rest d));
          d1 = mark_end (d\<lparr>dc_result := dc_result d\<lparr>ys_literal := literal\<rparr>, dc_col := dc_col d + 1 + length header\<rparr>)
      in case block_header header of
          (chomp, increment) \<Rightarrow>
            (case block_loop literal increment
                 \<lparr>bk_indent = (if increment = 0 then 0 else max (sx_indent (dc_context d)) 0 + increment),
                  bk_pending = [], bk_previous = False, bk_hadContent = False\<rparr> (next_row d1) of
               (b, d2) \<Rightarrow>
                 if chomp = CHR ''+'' then emitBreaks (bk_pending b) False d2
                 else if chomp \<noteq> CHR ''-'' \<and> bk_hadContent b \<and> bk_pending b \<noteq> []
                 then emitBreaks (take 1 (bk_pending b)) False d2
                 else d2))"

subsection \<open>Decode\<close>

definition empty_scalar :: yaml_scalar where
  "empty_scalar = \<lparr>ys_value = [], ys_spans = [], ys_start = zero_pos, ys_end = zero_pos, ys_literal = False\<rparr>"

definition decode_content :: "decoder \<Rightarrow> scalar_error + decoder" where
  "decode_content d =
     (if peek d = CHR ''|'' \<or> peek d = CHR ''>'' then Inr (block d)
      else if peek d = CHR 0x27 \<or> peek d = CHR 0x22 then flow (peek d) d
      else flow nul d)"

definition Decode :: "document \<Rightarrow> source_pos \<Rightarrow> scalar_context \<Rightarrow> scalar_error + yaml_scalar" where
  "Decode document start context =
     (let row = at_line start - 1 in
      if row < 0 \<or> int (length (doc_lines document)) \<le> row \<or> at_col start < 1 then Inl InvalidScalarPosition
      else case ByteOffset document row (at_col start) of
          None \<Rightarrow> Inl InvalidScalarColumn
        | Some col \<Rightarrow>
            (case properties \<lparr>dc_document = document, dc_row = nat row, dc_col = col, dc_value = [],
                 dc_result = empty_scalar, dc_context = context, dc_lastColumn = 0\<rparr> of
               Inl e \<Rightarrow> Inr (empty_scalar\<lparr>ys_start := e, ys_end := e\<rparr>)
             | Inr d \<Rightarrow>
                 (case decode_content (d\<lparr>dc_result := dc_result d\<lparr>ys_start := position d\<rparr>\<rparr>) of
                    Inl e \<Rightarrow> Inl e
                  | Inr d' \<Rightarrow> Inr (dc_result d'\<lparr>ys_value := dc_value d'\<rparr>))))"

end
