(* ===== verification/Scalar_Spec.thy ===== *)
theory Scalar_Spec
  imports Yaml_Scalar Document_Spec
begin

text \<open>
  The provenance the decoder promises: its spans are disjoint and ascending, the bytes of a
  copied span are the bytes of the source at the position of the span, and a byte without a
  span is generated white space.
\<close>

subsection \<open>Cuts of a line between runes\<close>

definition cut_at :: "string \<Rightarrow> nat \<Rightarrow> bool" where
  "cut_at l k \<longleftrightarrow> k \<le> length l \<and> rune_cut (take k l) (drop k l)"

lemma cut_at_0 [simp]: "cut_at l 0"
  by (simp add: cut_at_def rune_cut.stop)

lemma cut_at_length [simp]: "cut_at l (length l)"
  by (simp add: cut_at_def rune_cut_self)

lemma cut_at_step:
  assumes "cut_at l k" and "k < length l"
  shows "cut_at l (k + snd (decode_rune (drop k l)))"
proof -
  let ?w = "snd (decode_rune (drop k l))"
  have ne: "drop k l \<noteq> []" using assms(2) by simp
  have w: "?w \<le> length l - k" using decode_width_le [of "drop k l"] by simp
  have "rune_cut (take ?w (drop k l)) (drop ?w (drop k l))"
    using decode_take [of "drop k l" _ ?w] ne by (metis prod.collapse)
  moreover have "rune_cut (take k l) (take ?w (drop k l) @ drop ?w (drop k l))"
    using assms(1) by (simp only: append_take_drop_id cut_at_def)
  ultimately have "rune_cut (take k l @ take ?w (drop k l)) (drop ?w (drop k l))"
    by (rule rune_cut_append [rotated])
  then show ?thesis using w assms(2) by (simp add: cut_at_def take_add add.commute)
qed

lemma decode_continuation:
  "i < snd (decode_rune s) \<Longrightarrow> 0 < i \<Longrightarrow> 128 \<le> rn (s ! i)"
  by (cases s)
    (auto simp: decode_rune.simps(2) Let_def is_cont_def second_ok_def second_lo_def less_Suc_eq numeral_2_eq_2 numeral_3_eq_3
      eval_nat_numeral split: if_splits list.splits)

lemma cut_at_ascii:
  assumes "k < length l" and "rn (l ! k) < 128"
  shows "cut_at l k"
  using assms
proof (induction l arbitrary: k rule: length_induct)
  case (1 l)
  obtain r w where d: "decode_rune l = (r, w)" by fastforce
  have ne: "l \<noteq> []" using "1.prems"(1) by auto
  have w: "1 \<le> w" "w \<le> length l" using decode_width_pos [OF ne] decode_width_le [of l] d by simp_all
  show ?case
  proof (cases "k = 0")
    case False
    then have "w \<le> k" using decode_continuation [of k l] d "1.prems"(2) by force
    then have "cut_at (drop w l) (k - w)" using "1.IH" "1.prems" w by simp
    then have c: "rune_cut (take (k - w) (drop w l)) (drop k l)" by (simp add: cut_at_def \<open>w \<le> k\<close>)
    have "rune_cut (take w l) (drop w l)" using decode_take [OF d ne] .
    then have "rune_cut (take w l) (take (k - w) (drop w l) @ drop k l)"
      using \<open>w \<le> k\<close> by (metis append_take_drop_id drop_drop le_add_diff_inverse2)
    from rune_cut_append [OF this c] show ?thesis
      using \<open>w \<le> k\<close> "1.prems"(1) by (simp add: cut_at_def flip: take_add)
  qed simp
qed

lemma cut_at_after_ascii:
  assumes "k < length l" and "rn (l ! k) < 128"
  shows "cut_at l (Suc k)"
  using cut_at_step [OF cut_at_ascii [OF assms] assms(1)] assms
  by (simp add: decode_ascii flip: Cons_nth_drop_Suc)

lemma rune_cut_shorten: "rune_cut u (v @ w) \<Longrightarrow> rune_cut u v"
proof (induction u "v @ w" rule: rune_cut.induct)
  case (step u r k)
  have "decode_rune (u @ v) = (r, k)"
    using decode_prefix [of "u @ v" w r k] step.hyps by simp
  then show ?case using step by - (rule rune_cut.step, simp_all)
qed (rule rune_cut.stop)

lemma runes_between:
  assumes "cut_at l k" and "cut_at l (k + n)"
  shows "runes (take (k + n) l) = runes (take k l) @ runes (take n (drop k l))"
proof -
  have "rune_cut (take k l) (take n (drop k l) @ drop n (drop k l))"
    using assms(1) by (simp only: append_take_drop_id cut_at_def)
  from runes_cut [OF rune_cut_shorten [OF this]] show ?thesis by (simp add: take_add)
qed

lemma cut_unique:
  assumes "cut_at l k" and "cut_at l j" and "length (runes (take k l)) = length (runes (take j l))"
  shows "k = j"
  using assms runes_before(2) [of k l] runes_before(2) [of j l] unfolding cut_at_def by metis

lemma cut_column:
  assumes "row < length (doc_lines (NewDocument src))" and "cut_at (doc_lines (NewDocument src) ! row) k"
  shows "column_at (NewDocument src) row k = length (runes (take k (doc_lines (NewDocument src) ! row))) + 1"
proof -
  let ?l = "doc_lines (NewDocument src) ! row"
  have k: "k \<le> length ?l" "rune_cut (take k ?l) (drop k ?l)" using assms(2) by (simp_all add: cut_at_def)
  have m: "k \<in> set (bounds_of ?l)" using runes_before [OF k(2,1)] by (metis nth_mem)
  show ?thesis
    using column_at_eq [OF assms(1) m] search_sorted [OF bounds_sorted runes_before(1) [OF k(2,1)]]
      runes_before(2) [OF k(2,1)] by simp
qed

lemma ByteOffset_cut:
  assumes "row < length (doc_lines (NewDocument src))" and "cut_at (doc_lines (NewDocument src) ! row) k"
  shows "ByteOffset (NewDocument src) (int row) (int (length (runes (take k (doc_lines (NewDocument src) ! row)))) + 1) = Some k"
proof -
  let ?l = "doc_lines (NewDocument src) ! row"
  have k: "k \<le> length ?l" "rune_cut (take k ?l) (drop k ?l)" using assms(2) by (simp_all add: cut_at_def)
  show ?thesis
    using assms(1) runes_before [OF k(2,1)] by (simp add: ByteOffset_eq Let_def)
qed

subsection \<open>Spans and their sources\<close>

definition span_length :: "scalar_span \<Rightarrow> nat" where
  "span_length sp = ss_end sp - ss_start sp"

text \<open>
  The span \<open>sp\<close> of the value \<open>v\<close> comes from the byte \<open>k\<close> of the line \<open>row\<close>; unless it is an
  escape or a separator, its bytes are copied from there.
\<close>

definition span_source :: "document \<Rightarrow> string \<Rightarrow> scalar_span \<Rightarrow> nat \<Rightarrow> nat \<Rightarrow> bool" where
  "span_source doc v sp row k \<longleftrightarrow>
     (let l = doc_lines doc ! row in
      row < length (doc_lines doc) \<and> at_line (ss_pos sp) = int row + 1 \<and> cut_at l k
      \<and> at_col (ss_pos sp) = int (length (runes (take k l))) + 1
      \<and> (ss_width sp = 0 \<longrightarrow>
           cut_at l (k + span_length sp) \<and> take (span_length sp) (drop k l) = slice v (ss_start sp) (ss_end sp)))"

definition span_ok :: "document \<Rightarrow> string \<Rightarrow> scalar_span \<Rightarrow> bool" where
  "span_ok doc v sp \<longleftrightarrow> ss_start sp < ss_end sp \<and> ss_end sp \<le> length v \<and> (\<exists>row k. span_source doc v sp row k)"

definition generated :: "char \<Rightarrow> bool" where
  "generated c \<longleftrightarrow> c = CHR '' '' \<or> c = CHR 0x0A"

definition covered :: "scalar_span list \<Rightarrow> nat \<Rightarrow> bool" where
  "covered spans i \<longleftrightarrow> (\<exists>sp\<in>set spans. ss_start sp \<le> i \<and> i < ss_end sp)"

definition spans_wf :: "document \<Rightarrow> string \<Rightarrow> scalar_span list \<Rightarrow> bool" where
  "spans_wf doc v spans \<longleftrightarrow>
     (\<forall>sp\<in>set spans. span_ok doc v sp) \<and> sorted_wrt (\<lambda>a b. ss_end a \<le> ss_start b) spans
     \<and> (\<forall>i<length v. covered spans i \<or> generated (v ! i))"

text \<open>The column after a copied span, which decides whether the next byte extends it.\<close>

definition last_column_ok :: "document \<Rightarrow> string \<Rightarrow> scalar_span list \<Rightarrow> int \<Rightarrow> bool" where
  "last_column_ok doc v spans col \<longleftrightarrow>
     (spans \<noteq> [] \<longrightarrow> ss_width (last spans) = 0 \<longrightarrow>
       (\<forall>row k. span_source doc v (last spans) row k \<longrightarrow>
          col = int (length (runes (take (k + span_length (last spans)) (doc_lines doc ! row)))) + 1))"

definition decoder_ok :: "decoder \<Rightarrow> bool" where
  "decoder_ok d \<longleftrightarrow>
     spans_wf (dc_document d) (dc_value d) (ys_spans (dc_result d))
     \<and> last_column_ok (dc_document d) (dc_value d) (ys_spans (dc_result d)) (dc_lastColumn d)"

lemma slice_append_left: "j \<le> length v \<Longrightarrow> slice (v @ s) i j = slice v i j"
  by (simp add: slice_def)

lemma span_source_append:
  "ss_end sp \<le> length v \<Longrightarrow> span_source doc (v @ s) sp row k = span_source doc v sp row k"
  by (simp add: span_source_def slice_append_left)

lemma span_ok_append: "span_ok doc v sp \<Longrightarrow> span_ok doc (v @ s) sp"
  by (auto simp: span_ok_def span_source_append)

lemma span_source_unique:
  assumes "span_source doc v sp row k" and "span_source doc v sp row' k'"
  shows "row' = row \<and> k' = k"
proof -
  have r: "row' = row" using assms by (simp add: span_source_def Let_def)
  moreover have "k = k'"
    using cut_unique [of "doc_lines doc ! row" k k'] assms r by (simp add: span_source_def Let_def)
  ultimately show ?thesis by simp
qed

lemma decoder_ok_white:
  assumes "decoder_ok d" and "at_line pos = 0" and "list_all generated s"
  shows "decoder_ok (emit s pos w d)"
proof -
  have "covered (ys_spans (dc_result d)) i \<or> generated ((dc_value d @ s) ! i)" if "i < length (dc_value d @ s)" for i
  proof (cases "i < length (dc_value d)")
    case True
    then show ?thesis using assms(1) by (simp add: decoder_ok_def spans_wf_def nth_append)
  next
    case False
    then show ?thesis using assms(3) that by (simp add: nth_append list_all_length)
  qed
  moreover have "last_column_ok (dc_document d) (dc_value d @ s) (ys_spans (dc_result d)) (dc_lastColumn d)"
    using assms(1)
    by (auto simp: decoder_ok_def spans_wf_def last_column_ok_def span_ok_def span_source_append)
  ultimately show ?thesis
    using assms(1,2) by (auto simp: emit_def Let_def decoder_ok_def spans_wf_def intro: span_ok_append)
qed

text \<open>A new span at the end of the value, with a token of its own or a copy.\<close>

lemma decoder_ok_new:
  assumes "decoder_ok d" and "s \<noteq> []"
    and "sp = \<lparr>ss_start = length (dc_value d), ss_end = length (dc_value d) + length s, ss_pos = pos, ss_width = w, ss_break = b\<rparr>"
    and src: "span_source (dc_document d) (dc_value d @ s) sp row k"
    and col: "w = 0 \<Longrightarrow> col = int (length (runes (take (k + length s) (doc_lines (dc_document d) ! row)))) + 1"
  shows "decoder_ok (d\<lparr>dc_value := dc_value d @ s, dc_result := dc_result d\<lparr>ys_spans := ys_spans (dc_result d) @ [sp]\<rparr>, dc_lastColumn := col\<rparr>)"
proof -
  let ?spans = "ys_spans (dc_result d)"
  have "span_ok (dc_document d) (dc_value d @ s) sp"
    using assms(2,3) src by (auto simp: span_ok_def)
  moreover have "sorted_wrt (\<lambda>a b. ss_end a \<le> ss_start b) (?spans @ [sp])"
    using assms(1,3) by (auto simp: decoder_ok_def spans_wf_def sorted_wrt_append span_ok_def)
  moreover have "covered (?spans @ [sp]) i \<or> generated ((dc_value d @ s) ! i)" if "i < length (dc_value d @ s)" for i
  proof (cases "i < length (dc_value d)")
    case True
    then have "covered ?spans i \<or> generated (dc_value d ! i)" using assms(1) by (simp add: decoder_ok_def spans_wf_def)
    then show ?thesis using True by (auto simp: nth_append covered_def)
  next
    case False
    then show ?thesis using assms(3) that by (simp add: covered_def)
  qed
  moreover have "last_column_ok (dc_document d) (dc_value d @ s) (?spans @ [sp]) col"
    using col assms(3) span_source_unique [OF src] by (auto simp: last_column_ok_def span_length_def)
  ultimately show ?thesis
    using assms(1) by (auto simp: decoder_ok_def spans_wf_def intro: span_ok_append)
qed

lemma decoder_ok_copy:
  assumes d: "decoder_ok d" and row: "row < length (dc_lines d)"
    and cuts: "cut_at (dc_lines d ! row) k" "cut_at (dc_lines d ! row) (k + n)" and n: "0 < n"
    and pos: "pos = \<lparr>at_line = int row + 1, at_col = int (length (runes (take k (dc_lines d ! row)))) + 1\<rparr>"
  shows "decoder_ok (emit (take n (drop k (dc_lines d ! row))) pos 0 d)"
proof -
  let ?l = "dc_lines d ! row" and ?spans = "ys_spans (dc_result d)" and ?v = "dc_value d"
  define s where "s = take n (drop k ?l)"
  have len: "length s = n" using cuts(2) by (auto simp: s_def cut_at_def)
  then have ns: "s \<noteq> []" using n by auto
  have col: "at_col pos + int (length (runes s)) = int (length (runes (take (k + n) ?l))) + 1"
    using runes_between [OF cuts] by (simp add: pos s_def)
  have v: "slice (?v @ s) (length ?v) (length ?v + length s) = s" by (simp add: slice_def)
  show ?thesis
  proof (cases "extends_last d pos 0")
    case False
    let ?sp = "\<lparr>ss_start = length ?v, ss_end = length ?v + length s, ss_pos = pos, ss_width = 0, ss_break = False\<rparr>"
    have "span_source (dc_document d) (?v @ s) ?sp row k"
      using row cuts v len by (simp add: span_source_def Let_def pos span_length_def s_def)
    note src = this
    have "decoder_ok (d\<lparr>dc_value := ?v @ s, dc_result := dc_result d\<lparr>ys_spans := ?spans @ [?sp]\<rparr>,
        dc_lastColumn := at_col pos + int (length (runes s))\<rparr>)"
      using col len by (intro decoder_ok_new [OF d ns refl src]) simp
    then show ?thesis
      using False ns by (simp add: emit_def Let_def s_def [symmetric] pos)
  next
    case True
    let ?last = "last ?spans" and ?new = "last ?spans\<lparr>ss_end := length ?v + length s\<rparr>"
    have ne: "?spans \<noteq> []" and w: "ss_width ?last = 0" and e: "ss_end ?last = length ?v"
      and ln: "at_line (ss_pos ?last) = at_line pos" and lc: "dc_lastColumn d = at_col pos"
      using True by (simp_all add: extends_last_def Let_def)
    then have "span_ok (dc_document d) ?v ?last"
      using d last_in_set [OF ne] by (simp add: decoder_ok_def spans_wf_def)
    then obtain row0 k0 where src: "span_source (dc_document d) ?v ?last row0 k0" and start: "ss_start ?last < ss_end ?last"
      by (auto simp: span_ok_def)
    have r0: "row0 = row" using src ln by (simp add: span_source_def Let_def pos)
    let ?n0 = "span_length ?last"
    have c0: "cut_at ?l k0" "cut_at ?l (k0 + ?n0)" and s0: "take ?n0 (drop k0 ?l) = slice ?v (ss_start ?last) (length ?v)"
      using src w e r0 by (auto simp: span_source_def Let_def)
    have "dc_lastColumn d = int (length (runes (take (k0 + ?n0) ?l))) + 1"
      using d ne w src r0 by (auto simp: decoder_ok_def last_column_ok_def)
    then have k: "k = k0 + ?n0"
      using lc cut_unique [OF cuts(1) c0(2)] by (simp add: pos)
    have nlen: "span_length ?new = ?n0 + n" using start e len by (simp add: span_length_def)
    have "slice (?v @ s) (ss_start ?last) (length ?v + length s) = slice ?v (ss_start ?last) (length ?v) @ s"
      using start e by (simp add: slice_def Suc_leI less_imp_le)
    also have "\<dots> = take (?n0 + n) (drop k0 ?l)"
      unfolding s0 [symmetric] s_def k take_add by (simp add: add.commute)
    finally have "span_source (dc_document d) (?v @ s) ?new row k0"
      using src r0 cuts(2) w by (auto simp: span_source_def Let_def nlen k add.assoc)
    note src' = this
    let ?spans' = "butlast ?spans @ [?new]"
    have sp: "?spans = butlast ?spans @ [?last]" using ne by simp
    have wf: "spans_wf (dc_document d) ?v (butlast ?spans @ [?last])" using d sp by (simp add: decoder_ok_def)
    have "covered ?spans' i \<or> generated ((?v @ s) ! i)" if "i < length (?v @ s)" for i
    proof (cases "i < length ?v")
      case True
      then have "covered (butlast ?spans @ [?last]) i \<or> generated (?v ! i)" using wf by (simp add: spans_wf_def)
      then show ?thesis using True start e by (auto simp: covered_def nth_append)
    next
      case False
      then show ?thesis using that start e by (auto simp: covered_def)
    qed
    moreover have "span_ok (dc_document d) (?v @ s) ?new"
      using src' start e by (auto simp: span_ok_def)
    moreover have "last_column_ok (dc_document d) (?v @ s) ?spans' (at_col pos + int (length (runes s)))"
      using span_source_unique [OF src'] col k nlen by (auto simp: last_column_ok_def add.assoc)
    ultimately have "spans_wf (dc_document d) (?v @ s) ?spans'
        \<and> last_column_ok (dc_document d) (?v @ s) ?spans' (at_col pos + int (length (runes s)))"
      using wf by (auto simp: spans_wf_def sorted_wrt_append intro: span_ok_append)
    then show ?thesis
      using True ns len by (simp add: emit_def Let_def s_def [symmetric] decoder_ok_def pos)
  qed
qed

lemma decoder_ok_token:
  assumes d: "decoder_ok d" and row: "row < length (dc_lines d)" and cut: "cut_at (dc_lines d ! row) k"
    and w: "0 < w" and s: "s \<noteq> []"
    and pos: "pos = \<lparr>at_line = int row + 1, at_col = int (length (runes (take k (dc_lines d ! row)))) + 1\<rparr>"
  shows "decoder_ok (emit s pos w d)" and "decoder_ok (mark_break (emit s pos w d))"
proof -
  let ?sp = "\<lambda>b. \<lparr>ss_start = length (dc_value d), ss_end = length (dc_value d) + length s, ss_pos = pos, ss_width = w, ss_break = b\<rparr>"
  have src: "span_source (dc_document d) (dc_value d @ s) (?sp b) row k" for b
    using row cut w by (simp add: span_source_def Let_def pos)
  have e: "\<not> extends_last d pos w" using w by (simp add: extends_last_def Let_def)
  have "decoder_ok (d\<lparr>dc_value := dc_value d @ s, dc_result := dc_result d\<lparr>ys_spans := ys_spans (dc_result d) @ [?sp b]\<rparr>,
      dc_lastColumn := at_col pos + int (length (runes s))\<rparr>)" for b
    using w by (intro decoder_ok_new [OF d s refl src]) simp
  from this [of False] this [of True]
  show "decoder_ok (emit s pos w d)" "decoder_ok (mark_break (emit s pos w d))"
    using e s by (simp_all add: emit_def mark_break_def Let_def pos decoder_ok_def)
qed

subsection \<open>The steps of the decoder\<close>

definition decoder_at :: "string \<Rightarrow> decoder \<Rightarrow> bool" where
  "decoder_at src d \<longleftrightarrow>
     dc_document d = NewDocument src \<and> decoder_ok d
     \<and> (dc_row d < length (dc_lines d) \<longrightarrow> cut_at (dc_line d) (dc_col d))"

lemma emit_Nil: "emit [] pos w d = d"
  by (simp add: emit_def Let_def)

definition decoder_in :: "string \<Rightarrow> decoder \<Rightarrow> bool" where
  "decoder_in src d \<longleftrightarrow> dc_document d = NewDocument src \<and> decoder_ok d"

lemma decoder_at_in: "decoder_at src d \<Longrightarrow> decoder_in src d"
  by (simp add: decoder_at_def decoder_in_def)

lemma decoder_at_start [simp]:
  "decoder_at src (d\<lparr>dc_result := dc_result d\<lparr>ys_start := p\<rparr>\<rparr>) = decoder_at src d"
  by (simp add: decoder_at_def dc_line_def decoder_ok_def)

lemma decoder_ok_fields:
  "dc_document d' = dc_document d \<Longrightarrow> dc_value d' = dc_value d \<Longrightarrow> ys_spans (dc_result d') = ys_spans (dc_result d)
    \<Longrightarrow> dc_lastColumn d' = dc_lastColumn d \<Longrightarrow> decoder_ok d' = decoder_ok d"
  by (simp add: decoder_ok_def)

lemma decoder_ok_moves [simp]:
  "decoder_ok (d\<lparr>dc_col := k\<rparr>) = decoder_ok d" "decoder_ok (d\<lparr>dc_row := i\<rparr>) = decoder_ok d"
  "decoder_ok (mark_end d) = decoder_ok d" "decoder_ok (set_end p d) = decoder_ok d"
  "decoder_ok (skip_blanks d) = decoder_ok d" "decoder_ok (next_row d) = decoder_ok d"
  "decoder_ok (d\<lparr>dc_result := dc_result d\<lparr>ys_literal := b\<rparr>\<rparr>) = decoder_ok d"
  "decoder_ok (d\<lparr>dc_result := dc_result d\<lparr>ys_start := p\<rparr>\<rparr>) = decoder_ok d"
  "decoder_ok (d\<lparr>dc_result := dc_result d\<lparr>ys_literal := b\<rparr>, dc_col := k\<rparr>) = decoder_ok d"
  by (simp_all add: decoder_ok_def)

lemma dc_line_in: "dc_row d < length (dc_lines d) \<Longrightarrow> dc_line d = dc_lines d ! dc_row d"
  by (simp add: dc_line_def)

lemma decoder_at_cut:
  assumes "decoder_at src d" and "dc_row d < length (dc_lines d)"
  shows "cut_at (dc_lines d ! dc_row d) (dc_col d)"
  using assms unfolding decoder_at_def by (metis dc_line_in)

lemma position_at:
  assumes "decoder_at src d" and "dc_row d < length (dc_lines d)"
  shows "position d = \<lparr>at_line = int (dc_row d) + 1, at_col = int (length (runes (take (dc_col d) (dc_lines d ! dc_row d)))) + 1\<rparr>"
proof -
  have doc: "dc_document d = NewDocument src" using assms(1) by (simp add: decoder_at_def)
  have row: "dc_row d < length (doc_lines (NewDocument src))" using assms(2) doc by simp
  have "cut_at (doc_lines (NewDocument src) ! dc_row d) (dc_col d)"
    using assms doc by (simp add: decoder_at_def dc_line_in)
  from cut_column [OF row this] show ?thesis using row by (simp add: position_def doc)
qed

lemma rest_nth: "i < length (dc_rest d) \<Longrightarrow> dc_rest d ! i = dc_line d ! (dc_col d + i)"
  by (auto simp: dc_rest_def)

lemma cut_after_prefix:
  assumes "cut_at l k" and "list_all (\<lambda>c. rn c < 128) (take n (drop k l))" and "n \<le> length l - k"
  shows "cut_at l (k + n)"
proof (cases n)
  case (Suc m)
  then have "k + m < length l" using assms(3) by simp
  moreover have "rn (l ! (k + m)) < 128"
    using assms(2,3) Suc by (auto simp: list_all_length)
  ultimately show ?thesis using cut_at_after_ascii [of "k + m" l] Suc by simp
qed (use assms(1) in simp)

lemma blank_ascii: "is_blank c \<Longrightarrow> rn c < 128"
  by (auto simp: is_blank_def blanks_def)

lemma cut_skip_blanks:
  assumes "cut_at (dc_line d) (dc_col d)"
  shows "cut_at (dc_line d) (dc_col d + length (takeWhile is_blank (dc_rest d)))"
proof (rule cut_after_prefix [OF assms])
  have "take (length (takeWhile is_blank (dc_rest d))) (dc_rest d) = takeWhile is_blank (dc_rest d)"
    by (metis takeWhile_eq_take)
  then show "list_all (\<lambda>c. rn c < 128) (take (length (takeWhile is_blank (dc_rest d))) (drop (dc_col d) (dc_line d)))"
    by (auto simp: dc_rest_def list_all_iff dest!: set_takeWhileD intro: blank_ascii)
qed (use length_takeWhile_le [of is_blank "dc_rest d"] in \<open>simp add: dc_rest_def\<close>)

lemma dc_line_moves [simp]:
  "dc_line (skip_blanks d) = dc_line d" "dc_line (mark_end d) = dc_line d" "dc_line (emit s p w d) = dc_line d"
  "dc_line (d\<lparr>dc_col := k\<rparr>) = dc_line d" "dc_line (emitBreaks rs f d) = dc_line d" "dc_line (set_end p d) = dc_line d"
  by (simp_all add: dc_line_def)

lemma skip_blanks_at: "decoder_at src d \<Longrightarrow> decoder_at src (skip_blanks d)"
  using cut_skip_blanks [of d] by (auto simp: decoder_at_def skip_blanks_def)

lemma next_row_at: "decoder_at src d \<Longrightarrow> decoder_at src (next_row d)"
  by (simp add: decoder_at_def)

lemma mark_end_at [simp]: "decoder_at src (mark_end d) = decoder_at src d"
  by (simp add: decoder_at_def)

lemma copyRune_at:
  assumes d: "decoder_at src d" and row: "dc_row d < length (dc_lines d)" and p: "peek d \<noteq> nul"
  shows "decoder_at src (copyRune d)"
proof -
  let ?w = "snd (decode_rune (dc_rest d))" and ?l = "dc_lines d ! dc_row d"
  have ne: "dc_rest d \<noteq> []" using p by (auto simp: peek_def)
  have l: "dc_line d = ?l" using row by (rule dc_line_in)
  have cut: "cut_at ?l (dc_col d)" using decoder_at_cut [OF d row] .
  have k: "dc_col d < length ?l" using ne l by (simp add: dc_rest_def)
  have cut': "cut_at ?l (dc_col d + ?w)" using cut_at_step [OF cut k] l by (simp add: dc_rest_def)
  have "decoder_ok (emit (take ?w (drop (dc_col d) ?l)) (position d) 0 d)"
    using d decode_width_pos [OF ne]
    by (intro decoder_ok_copy [OF _ row cut cut' _ position_at [OF d row]]) (auto simp: decoder_at_def)
  then show ?thesis
    using d cut' l row by (simp add: decoder_at_def copyRune_def Let_def dc_rest_def)
qed

lemma token_at:
  assumes d: "decoder_at src d" and row: "dc_row d < length (dc_lines d)" and "0 < w" and "s \<noteq> []"
    and "cut_at (dc_line d) (dc_col d + n)"
  shows "decoder_at src ((emit s (position d) w d)\<lparr>dc_col := dc_col d + n\<rparr>)"
proof -
  have "decoder_ok (emit s (position d) w d)"
    using d assms(3,4)
    by (intro decoder_ok_token(1) [OF _ row decoder_at_cut [OF d row] _ _ position_at [OF d row]])
      (auto simp: decoder_at_def)
  then show ?thesis using d assms(5) by (simp add: decoder_at_def)
qed

lemma emit_break_ok:
  assumes "decoder_ok d" and "row < length (dc_lines d)"
  shows "decoder_ok (emit_break f a b row d)"
proof -
  let ?pos = "\<lparr>at_line = int row + 1, at_col = int (length (runes (take (length (dc_lines d ! row)) (dc_lines d ! row)))) + 1\<rparr>"
  have "decoder_ok (mark_break (emit v ?pos 1 d))" if "v \<noteq> []" for v
    using decoder_ok_token(2) [OF assms cut_at_length _ that refl, of 1] by simp
  moreover have "v \<noteq> []" if "v \<in> set line_separators" for v
    using that by (auto simp: line_separators_def)
  ultimately show ?thesis
    using assms(1) by (auto simp: emit_break_def Let_def zero_pos_def generated_def intro!: decoder_ok_white)
qed

lemma emit_rest_breaks_ok:
  "decoder_ok d \<Longrightarrow> \<forall>r\<in>set rows. r < length (dc_lines d) \<Longrightarrow> decoder_ok (emit_rest_breaks f rows d)"
  by (induction f rows d rule: emit_rest_breaks.induct) (auto intro: emit_break_ok)

lemma emitBreaks_ok:
  "decoder_ok d \<Longrightarrow> \<forall>r\<in>set rows. r < length (dc_lines d) \<Longrightarrow> decoder_ok (emitBreaks rows f d)"
  by (cases rows) (auto intro!: emit_rest_breaks_ok emit_break_ok)

lemma skip_lines_at:
  "skip_lines d = (rows, d') \<Longrightarrow> decoder_at src d \<Longrightarrow>
     decoder_at src d' \<and> dc_document d' = dc_document d \<and> (\<forall>r\<in>set rows. r < length (dc_lines d))"
proof (induction d arbitrary: rows d' rule: skip_lines.induct)
  case (1 d)
  let ?d = "skip_blanks (next_row d)"
  have n: "decoder_at src ?d" using "1.prems"(2) by (intro skip_blanks_at next_row_at)
  show ?case
  proof (cases "dc_row d + 1 < length (dc_lines d)")
    case True
    obtain rows1 d1 where s: "skip_lines ?d = (rows1, d1)" by fastforce
    have "peek ?d = nul \<Longrightarrow> decoder_at src d1 \<and> dc_document d1 = dc_document d \<and> (\<forall>r\<in>set rows1. r < length (dc_lines d))"
      using "1.IH" [OF True refl _ s n] by simp
    moreover have "skip_lines d = (if peek ?d \<noteq> nul then ([dc_row d], ?d) else (dc_row d # rows1, d1))"
      using True s by (subst skip_lines.simps) (simp add: Let_def)
    ultimately show ?thesis
      using "1.prems"(1) True n by (auto split: if_splits)
  next
    case False
    then show ?thesis using "1.prems" by (subst (asm) skip_lines.simps) simp
  qed
qed

lemma whitespace_at:
  assumes d: "decoder_at src d" and row: "dc_row d < length (dc_lines d)"
    and w: "whitespace inq continued d = (ok, d')"
  shows "decoder_in src d'" and "ok \<Longrightarrow> decoder_at src d'"
proof -
  let ?d = "skip_blanks d" and ?n = "length (takeWhile is_blank (dc_rest d))"
  have sk: "decoder_at src ?d" by (rule skip_blanks_at [OF d])
  have l: "dc_line d = dc_lines d ! dc_row d" using row by (rule dc_line_in)
  have s: "takeWhile is_blank (dc_rest d) = take ?n (drop (dc_col d) (dc_lines d ! dc_row d))"
    using l by (metis dc_rest_def takeWhile_eq_take)
  have copied: "decoder_ok (emit (takeWhile is_blank (dc_rest d)) (position d) 0 ?d)"
  proof (cases "?n = 0")
    case True
    then have "takeWhile is_blank (dc_rest d) = []" by (simp only: length_0_conv)
    then show ?thesis using sk by (simp add: emit_Nil decoder_at_def)
  next
    case False
    have "cut_at (dc_lines d ! dc_row d) (dc_col d + ?n)"
      using cut_skip_blanks [of d] decoder_at_cut [OF d row] l by simp
    then have "decoder_ok (emit (take ?n (drop (dc_col d) (dc_lines ?d ! dc_row d))) (position d) 0 ?d)"
      using False sk row position_at [OF d row] decoder_at_cut [OF d row]
      by (intro decoder_ok_copy) (simp_all add: decoder_at_def)
    then show ?thesis by (subst s) simp
  qed
  obtain rows d2 where sl: "skip_lines ?d = (rows, d2)" by fastforce
  note d2 = skip_lines_at [OF sl sk]
  have br: "decoder_ok (emitBreaks rs f d2)" if "set rs \<subseteq> set rows" for rs f
    using d2 that by (intro emitBreaks_ok) (auto simp: decoder_at_def)
  have "decoder_in src d' \<and> (ok \<longrightarrow> decoder_at src d')"
  proof (cases "peek ?d \<noteq> nul")
    case True
    then show ?thesis
      using w sk copied by (auto simp: whitespace_def Let_def decoder_at_def decoder_in_def split: if_splits)
  next
    case False
    have "decoder_ok (emitBreaks (tl rows) False d2)" "decoder_ok (emitBreaks rows True d2)"
      by (rule br, cases rows; auto)+
    with False show ?thesis
      using w sl d2 by (auto simp: whitespace_def Let_def decoder_at_def decoder_in_def split: if_splits)
  qed
  then show "decoder_in src d'" "ok \<Longrightarrow> decoder_at src d'" by simp_all
qed

lemma hex_digits_ascii: "parse_digits 16 a s = Some n \<Longrightarrow> list_all (\<lambda>c. rn c < 128) s"
proof (induction s arbitrary: a)
  case (Cons c s)
  then show ?case
    by (auto simp: digit_value_def Let_def split: option.splits if_splits)
qed simp

lemma escape_at:
  assumes d: "decoder_at src d" and row: "dc_row d < length (dc_lines d)" and e: "decode_escape d = Inr d'"
    and len: "1 < length (dc_rest d)" and bs: "peek d = CHR 0x5C"
  shows "decoder_at src d'"
proof -
  let ?r = "dc_rest d"
  obtain c u where r: "?r = CHR 0x5C # c # u"
    using len bs by (cases ?r; cases "tl ?r") (auto simp: peek_def)
  have cut: "cut_at (dc_line d) (dc_col d)" using d row by (simp add: decoder_at_def)
  have after: "cut_at (dc_line d) (dc_col d + n)" if "list_all (\<lambda>c. rn c < 128) (take n ?r)" "n \<le> length ?r" for n
    using cut_after_prefix [OF cut] that by (simp add: dc_rest_def)
  have tok: "decoder_at src (mark_end (emit v (position d) n (d\<lparr>dc_col := dc_col d + n\<rparr>)))"
    if "v \<noteq> []" "0 < n" "list_all (\<lambda>c. rn c < 128) (take n ?r)" "n \<le> length ?r" for v n
  proof -
    have "emit v (position d) n (d\<lparr>dc_col := dc_col d + n\<rparr>) = (emit v (position d) n d)\<lparr>dc_col := dc_col d + n\<rparr>"
      by (simp add: emit_def Let_def extends_last_def)
    with token_at [OF d row that(2,1) after [OF that(3,4)]] show ?thesis by simp
  qed
  have enc: "encode_rune x \<noteq> []" for x by (simp add: encode_rune_def)
  show ?thesis
  proof (cases "escape_value c")
    case (Some v)
    then have "v \<noteq> []" "rn c < 128"
      by (auto simp: escape_value_def enc split: if_splits)
    then show ?thesis using e r Some tok [of v 2] by (simp add: decode_escape_def Let_def numeral_2_eq_2)
  next
    case None
    let ?w = "escape_width c"
    from e r None obtain x where w: "?w \<noteq> 0" "?w \<le> length u" and x: "escape_rune (take ?w u) = Some x"
      and d': "d' = mark_end (emit (encode_rune x) (position d) (?w + 2) (d\<lparr>dc_col := dc_col d + ?w + 2\<rparr>))"
      by (auto simp: decode_escape_def Let_def numeral_2_eq_2 split: if_splits option.splits)
    have "list_all (\<lambda>c. rn c < 128) (take ?w u)"
      using x by (auto simp: escape_rune_def intro: hex_digits_ascii split: if_splits option.splits)
    moreover have "rn c < 128" using w(1) by (auto simp: escape_width_def split: if_splits)
    ultimately show ?thesis
      using tok [of "encode_rune x" "?w + 2"] w r enc unfolding d' by (simp add: add.assoc)
  qed
qed

subsection \<open>The three kinds of scalars\<close>

lemma flow_loop_ok:
  "flow_loop q d = Inr d' \<Longrightarrow> decoder_at src d \<Longrightarrow> decoder_in src d'"
proof (induction q d rule: flow_loop.induct)
  case (1 q d)
  show ?case
  proof (cases "length (dc_lines d) \<le> dc_row d")
    case True
    then show ?thesis
      using "1.prems" by (subst (asm) flow_loop.simps) (auto simp: decoder_at_in split: if_splits)
  next
    case False
    then have row: "dc_row d < length (dc_lines d)" by simp
    have cut: "cut_at (dc_line d) (dc_col d)" using "1.prems"(2) row by (simp add: decoder_at_def)
    have quote: "decoder_at src ((emit [CHR 0x27] (position d) 2 d)\<lparr>dc_col := dc_col d + 2\<rparr>)"
      if "has_prefix (dc_rest d) [CHR 0x27, CHR 0x27]"
    proof (rule token_at [OF "1.prems"(2) row])
      have "take 2 (dc_rest d) = [CHR 0x27, CHR 0x27]" "2 \<le> length (dc_rest d)"
        using that by (auto simp: has_prefix_iff)
      then show "cut_at (dc_line d) (dc_col d + 2)"
        using cut_after_prefix [OF cut, of 2] by (simp add: dc_rest_def)
    qed simp_all
    have bs: "decoder_at src (d\<lparr>dc_col := dc_col d + 1\<rparr>)" if "peek d = CHR 0x5C"
    proof -
      from that have "take 1 (dc_rest d) = [CHR 0x5C]" "1 \<le> length (dc_rest d)"
        by (auto simp: peek_def split: list.splits)
      then have "cut_at (dc_line d) (dc_col d + 1)"
        using cut_after_prefix [OF cut, of 1] by (simp add: dc_rest_def)
      then show ?thesis using "1.prems"(2) by (simp add: decoder_at_def)
    qed
    have len: "1 < length (dc_rest d)" if "peek d = CHR 0x5C" "length (dc_rest d) \<noteq> 1"
      using that peek_rest [of d] by (cases "dc_rest d") (auto simp: Suc_lessI)
    have esc: "decoder_at src e" if "decode_escape d = Inr e" "peek d = CHR 0x5C" "length (dc_rest d) \<noteq> 1" for e
      using escape_at [OF "1.prems"(2) row that(1) len [OF that(2,3)] that(2)] .
    have w: "decoder_in src e \<and> (ok \<longrightarrow> decoder_at src e)" if "whitespace b c d = (ok, e)" for b c ok e
      using whitespace_at [OF "1.prems"(2) row that] by simp
    have w': "ok \<longrightarrow> decoder_at src e" if "peek d = CHR 0x5C" "whitespace True True (d\<lparr>dc_col := dc_col d + 1\<rparr>) = (ok, e)" for ok e
      using whitespace_at(2) [OF bs [OF that(1)] _ that(2)] row by simp
    have copy: "peek d \<noteq> nul \<Longrightarrow> decoder_at src (mark_end (copyRune d))"
      using copyRune_at [OF "1.prems"(2) row] by simp
    have ok: "decoder_in src d" "decoder_in src (mark_end (d\<lparr>dc_col := dc_col d + 1\<rparr>))"
      using "1.prems"(2) by (simp_all add: decoder_at_def decoder_in_def)
    show ?thesis
    proof (cases "q \<noteq> nul \<and> peek d = q")
      case True
      then show ?thesis
        using "1.IH"(1) "1.prems"(1) False quote ok
        by (subst (asm) flow_loop.simps) (auto split: if_splits)
    next
      case nq: False
      show ?thesis
      proof (cases "q = CHR 0x22 \<and> peek d = CHR 0x5C")
        case True
        then show ?thesis
          using "1.IH"(2,3) "1.prems"(1) False nq esc w' ok
          by (subst (asm) flow_loop.simps) (auto split: if_splits sum.splits prod.splits)
      next
        case nb: False
        show ?thesis
        proof (cases "peek d = nul \<or> is_blank (peek d)")
          case True
          then show ?thesis
            using "1.IH"(4) "1.prems"(1) False nq nb w ok
            by (subst (asm) flow_loop.simps) (auto split: if_splits prod.splits)
        next
          case other: False
          then show ?thesis
            using "1.IH"(5) "1.prems"(1) False nq nb copy ok
            by (subst (asm) flow_loop.simps) (auto split: if_splits)
        qed
      qed
    qed
  qed
qed

lemma copy_line_at: "decoder_at src d \<Longrightarrow> dc_row d < length (dc_lines d) \<Longrightarrow> decoder_at src (copy_line d)"
proof (induction d rule: copy_line.induct)
  case (1 d)
  then show ?case using copyRune_at [of src d] by (subst copy_line.simps) simp
qed

definition pending_ok :: "decoder \<Rightarrow> block_state \<Rightarrow> bool" where
  "pending_ok d b \<longleftrightarrow> (\<forall>r\<in>set (bk_pending b). r < length (dc_lines d))"

lemma block_content_at:
  assumes c: "block_content literal b d = (b', d')" and doc: "dc_document d = NewDocument src" and ok: "decoder_ok d"
    and row: "dc_row d < length (dc_lines d)" and pend: "pending_ok d b"
    and ind: "bk_indent b \<le> int (length (takeWhile (\<lambda>c. c = CHR '' '') (dc_line d)))"
  shows "dc_document d' = NewDocument src \<and> decoder_ok d' \<and> pending_ok d' b'"
proof -
  let ?i = "nat (bk_indent b)"
  let ?d = "d\<lparr>dc_col := ?i\<rparr>"
  let ?e = "emitBreaks (bk_pending b) (bk_hadContent b \<and> \<not> literal \<and> \<not> bk_previous b \<and> \<not> is_blank (peek ?d)) ?d"
  have len: "?i \<le> length (dc_line d)"
    using ind length_takeWhile_le [of "\<lambda>c. c = CHR '' ''" "dc_line d"] by linarith
  have "take ?i (dc_line d) = take ?i (takeWhile (\<lambda>c. c = CHR '' '') (dc_line d))"
    using ind by (metis (no_types, lifting) takeWhile_eq_take take_take min.absorb1 nat_le_iff)
  then have "list_all (\<lambda>c. rn c < 128) (take ?i (dc_line d))"
    by (auto simp: list_all_iff dest!: in_set_takeD set_takeWhileD)
  then have "cut_at (dc_line d) (0 + ?i)"
    using len by (intro cut_after_prefix) simp_all
  then have "cut_at (dc_line d) ?i" by simp
  moreover have "decoder_ok ?e"
    using ok pend by (intro emitBreaks_ok) (simp_all add: pending_ok_def)
  ultimately have "decoder_at src ?e" using doc by (simp add: decoder_at_def)
  from copy_line_at [OF this] have cl: "decoder_at src (copy_line ?e)" using row by simp
  then have "dc_document d' = NewDocument src \<and> decoder_ok d'"
    using c doc by (auto simp: block_content_def Let_def decoder_at_def)
  moreover have "pending_ok d' b'"
    using c by (auto simp: block_content_def Let_def pending_ok_def)
  ultimately show ?thesis by simp
qed

lemma block_loop_at:
  "block_loop literal increment b0 d = (b', d') \<Longrightarrow> dc_document d = NewDocument src \<Longrightarrow> decoder_ok d \<Longrightarrow> pending_ok d b0
    \<Longrightarrow> dc_document d' = NewDocument src \<and> decoder_ok d' \<and> pending_ok d' b'"
proof (induction literal increment b0 d arbitrary: b' d' rule: block_loop.induct)
  case (1 literal increment b0 d)
  show ?case
  proof (cases "length (dc_lines d) \<le> dc_row d")
    case True
    then show ?thesis using "1.prems" by (subst (asm) block_loop.simps) simp
  next
    case False
    let ?raw = "dc_line d" and ?spaces = "length (takeWhile (\<lambda>c. c = CHR '' '') (dc_line d))"
    define b where "b = (if increment = 0 \<and> \<not> bk_hadContent b0
      then b0\<lparr>bk_indent := max (bk_indent b0) (max (int ?spaces) (sx_indent (dc_context d) + 1))\<rparr> else b0)"
    have pb: "pending_ok d b" using "1.prems"(4) by (simp add: b_def pending_ok_def)
    note ih = "1.IH" [OF False refl refl b_def]
    have eq: "block_loop literal increment b0 d =
      (if ?spaces = length ?raw \<and> (int ?spaces \<le> bk_indent b \<or> \<not> bk_hadContent b \<and> increment = 0) then
             (if dc_row d + 1 < length (dc_lines d)
              then block_loop literal increment (b\<lparr>bk_pending := bk_pending b @ [dc_row d]\<rparr>)
                (set_end \<lparr>at_line = int (dc_row d) + 1, at_col = int (length ?raw) + 1\<rparr> d\<lparr>dc_row := dc_row d + 1\<rparr>)
              else block_loop literal increment b (d\<lparr>dc_row := dc_row d + 1\<rparr>))
           else if int ?spaces < bk_indent b then (b, d)
           else (case block_content literal b d of (b', d') \<Rightarrow> block_loop literal increment b' d'))"
      unfolding b_def by (subst block_loop.simps) (simp only: False if_False Let_def)
    consider (skip) "?spaces = length ?raw \<and> (int ?spaces \<le> bk_indent b \<or> \<not> bk_hadContent b \<and> increment = 0)"
      | (stop) "\<not> (?spaces = length ?raw \<and> (int ?spaces \<le> bk_indent b \<or> \<not> bk_hadContent b \<and> increment = 0))"
          "int ?spaces < bk_indent b"
      | (content) "\<not> (?spaces = length ?raw \<and> (int ?spaces \<le> bk_indent b \<or> \<not> bk_hadContent b \<and> increment = 0))"
          "\<not> int ?spaces < bk_indent b"
      by blast
    then show ?thesis
    proof cases
      case skip
      show ?thesis
      proof (cases "dc_row d + 1 < length (dc_lines d)")
        case True
        note e = "1.prems"(1) [unfolded eq if_P [OF skip] if_P [OF True]]
        show ?thesis
          by (rule ih(1) [OF skip True e]) (use "1.prems"(2,3) pb True in \<open>simp_all add: pending_ok_def\<close>)
      next
        case nt: False
        note e = "1.prems"(1) [unfolded eq if_P [OF skip] if_not_P [OF nt]]
        show ?thesis
          by (rule ih(2) [OF skip nt e]) (use "1.prems"(2,3) pb in \<open>simp_all add: pending_ok_def\<close>)
      qed
    next
      case stop
      note e = "1.prems"(1) [unfolded eq if_not_P [OF stop(1)] if_P [OF stop(2)]]
      show ?thesis using e "1.prems" pb by simp
    next
      case content
      obtain b1 d1 where c: "block_content literal b d = (b1, d1)" by fastforce
      note e = "1.prems"(1) [unfolded eq if_not_P [OF content(1)] if_not_P [OF content(2)]]
      have "dc_document d1 = NewDocument src \<and> decoder_ok d1 \<and> pending_ok d1 b1"
        using False pb content(2) "1.prems"(2,3) by (intro block_content_at [OF c]) auto
      moreover have "block_loop literal increment b1 d1 = (b', d')"
        using e c by simp
      ultimately show ?thesis using ih(3) [OF content c [symmetric]] by blast
    qed
  qed
qed

lemma block_ok:
  assumes "decoder_at src d"
  shows "decoder_in src (block d)"
proof -
  define h where "h = takeWhile is_header_char (drop 1 (dc_rest d))"
  obtain chomp increment where bh: "block_header h = (chomp, increment)" by fastforce
  define d1 where "d1 = next_row (mark_end (d\<lparr>dc_result := dc_result d\<lparr>ys_literal := (peek d = CHR ''|'')\<rparr>, dc_col := dc_col d + 1 + length h\<rparr>))"
  have d1: "dc_document d1 = NewDocument src" "decoder_ok d1"
    using assms by (simp_all add: d1_def decoder_at_def)
  define b0 where "b0 = \<lparr>bk_indent = (if increment = 0 then 0 else max (sx_indent (dc_context d)) 0 + increment),
    bk_pending = [], bk_previous = False, bk_hadContent = False\<rparr>"
  obtain b d2 where l: "block_loop (peek d = CHR ''|'') increment b0 d1 = (b, d2)" by fastforce
  have r: "dc_document d2 = NewDocument src \<and> decoder_ok d2 \<and> pending_ok d2 b"
    by (rule block_loop_at [OF l d1]) (simp add: pending_ok_def b0_def)
  have "block d = (if chomp = CHR ''+'' then emitBreaks (bk_pending b) False d2
      else if chomp \<noteq> CHR ''-'' \<and> bk_hadContent b \<and> bk_pending b \<noteq> [] then emitBreaks (take 1 (bk_pending b)) False d2
      else d2)"
    using bh l unfolding block_def h_def [symmetric] Let_def by (simp add: d1_def b0_def)
  then show ?thesis
    using r by (auto simp: pending_ok_def decoder_in_def dest: in_set_takeD intro!: emitBreaks_ok)
qed

lemma skip_to_content_at:
  "skip_to_content e d = Some d' \<Longrightarrow> decoder_at src d \<Longrightarrow> decoder_at src d' \<and> dc_document d' = dc_document d"
proof (induction e d rule: skip_to_content.induct)
  case (1 e d)
  show ?case
    using "1.prems" "1.IH" skip_blanks_at [OF "1.prems"(2)] next_row_at [OF skip_blanks_at [OF "1.prems"(2)]]
    by (subst (asm) skip_to_content.simps) (auto simp: Let_def split: if_splits)
qed

lemma skip_to_content_row:
  "skip_to_content e d = Some d' \<Longrightarrow> dc_row d \<le> length (dc_lines d) \<Longrightarrow> dc_row d' \<le> length (dc_lines d')"
proof (induction e d rule: skip_to_content.induct)
  case (1 e d)
  have "skip_to_content e d =
     (if length (dc_lines d) \<le> dc_row d then Some d
      else if peek (skip_blanks d) \<noteq> nul \<and> peek (skip_blanks d) \<noteq> CHR ''#''
      then (if at_line e < int (dc_row d) + 1 \<and> \<not> sx_flow (dc_context d) \<and> int (dc_col (skip_blanks d)) \<le> sx_indent (dc_context d)
            then None else Some (skip_blanks d))
      else skip_to_content e (next_row (skip_blanks d)))"
    by (subst skip_to_content.simps) (simp only: Let_def skip_blanks_simps)
  note eq = this
  show ?case
  proof (cases "length (dc_lines d) \<le> dc_row d \<or> peek (skip_blanks d) \<noteq> nul \<and> peek (skip_blanks d) \<noteq> CHR ''#''")
    case True
    then show ?thesis using "1.prems" unfolding eq by (auto split: if_splits)
  next
    case False
    then have go: "\<not> length (dc_lines d) \<le> dc_row d" "\<not> (peek (skip_blanks d) \<noteq> nul \<and> peek (skip_blanks d) \<noteq> CHR ''#'')"
      by blast+
    note s = "1.prems"(1) [unfolded eq if_not_P [OF go(1)] if_not_P [OF go(2)]]
    show ?thesis by (rule "1.IH" [OF go(1) refl go(2) s]) (use go(1) in simp)
  qed
qed

lemma property_length_le: "property_length v a s \<le> length s"
  by (induction v a s rule: property_length.induct) auto

text \<open>A property ends between two runes: at an ASCII byte, after one, or at the end of the line.\<close>

lemma property_end:
  "\<not> (a \<and> v) \<Longrightarrow> property_length v a s = length s
   \<or> rn (s ! property_length v a s) < 128
   \<or> (if property_length v a s = 0 then a else rn (s ! (property_length v a s - 1)) < 128)"
proof (induction v a s rule: property_length.induct)
  case (2 v a c cs)
  let ?stop = "\<not> v \<and> (is_blank c \<or> c \<in> set '',[]{}'' \<or> a \<and> (c = CHR '':'' \<or> 128 \<le> rn c))"
  show ?case
  proof (cases "c = nul \<or> ?stop")
    case True
    have "rn c < 128" if "c = nul \<or> is_blank c \<or> c \<in> set '',[]{}'' \<or> c = CHR '':''"
      using that blank_ascii by auto
    then have "rn c < 128 \<or> a" using True by blast
    moreover have "property_length v a (c # cs) = 0"
      using True by (cases "c = nul") (simp_all only: property_length.simps if_True if_False simp_thms)
    ultimately show ?thesis by simp
  next
    case go: False
    show ?thesis
    proof (cases "v \<and> c = CHR ''>''")
      case True
      then have "property_length v a (c # cs) = 1"
        using go by (simp only: property_length.simps de_Morgan_disj if_True if_False simp_thms)
      then show ?thesis using True by simp
    next
      case False
      then have n: "property_length v a (c # cs) = Suc (property_length v a cs)"
        using go by (simp only: property_length.simps de_Morgan_disj if_False simp_thms)
      have "a \<Longrightarrow> rn c < 128" using go "2.prems" by auto
      moreover have ih: "property_length v a cs = length cs \<or> rn (cs ! property_length v a cs) < 128
          \<or> (if property_length v a cs = 0 then a else rn (cs ! (property_length v a cs - 1)) < 128)"
        using "2.IH" "2.prems" go False by (simp only: de_Morgan_disj simp_thms)
      ultimately show ?thesis unfolding n by (cases "property_length v a cs") auto
    qed
  qed
qed simp

lemma property_cut:
  assumes d: "decoder_at src d" and row: "dc_row d < length (dc_lines d)" and c: "peek d = CHR ''!'' \<or> peek d = CHR ''&''"
    and v: "v = has_prefix (dc_rest d) ''!<''" and a: "a = (peek d = CHR ''&'')"
  shows "decoder_at src (d\<lparr>dc_col := dc_col d + property_length v a (dc_rest d)\<rparr>)"
proof -
  let ?n = "property_length v a (dc_rest d)" and ?l = "dc_line d"
  obtain cs where r: "dc_rest d = peek d # cs" using c peek_rest [of d] by auto
  have nav: "\<not> (a \<and> v)" using r a v by (cases cs) auto
  have "property_length v a (peek d # cs) \<noteq> 0"
    using c
  proof
    assume "peek d = CHR ''!''"
    then show ?thesis using a by (simp add: is_blank_def blanks_def)
  next
    assume "peek d = CHR ''&''"
    then show ?thesis by (simp add: is_blank_def blanks_def)
  qed
  then have "?n \<noteq> 0" by (metis r)
  then have "?n = length (dc_rest d) \<or> rn (dc_rest d ! ?n) < 128 \<or> rn (dc_rest d ! (?n - 1)) < 128"
    using property_end [OF nav, of "dc_rest d"] by argo
  moreover have le: "?n \<le> length (dc_rest d)" by (rule property_length_le)
  have ne: "dc_rest d \<noteq> []" by (metis list.distinct(1) r)
  have len: "length (dc_rest d) = length ?l - dc_col d" "dc_col d < length ?l"
    using ne by (simp_all add: dc_rest_def)
  ultimately have "cut_at ?l (dc_col d + ?n)"
  proof (elim disjE, goal_cases)
    case 1
    then have "dc_col d + ?n = length ?l" using len by simp
    then show ?case by simp
  next
    case 2
    then show ?case
    proof (cases "?n = length (dc_rest d)")
      case True
      then have "dc_col d + ?n = length ?l" using len by simp
      then show ?thesis by simp
    next
      case False
      then have "?n < length (dc_rest d)" using le by simp
      then show ?thesis using 2 rest_nth [of ?n d] len by (intro cut_at_ascii) simp_all
    qed
  next
    case 3
    have m: "?n - 1 < length (dc_rest d)" using le \<open>?n \<noteq> 0\<close> by simp
    then have "cut_at ?l (Suc (dc_col d + (?n - 1)))"
      using 3 rest_nth [OF m] len by (intro cut_at_after_ascii) simp_all
    then show ?case using \<open>?n \<noteq> 0\<close> by simp
  qed
  then show ?thesis using d by (simp add: decoder_at_def)
qed

lemma properties_loop_at:
  "properties_loop t a e d = Inr (seen, e', d') \<Longrightarrow> decoder_at src d \<Longrightarrow> dc_row d < length (dc_lines d)
    \<Longrightarrow> decoder_at src d' \<and> dc_row d' < length (dc_lines d')"
proof (induction t a e d arbitrary: seen e' d' rule: properties_loop.induct)
  case (1 t a e d)
  let ?a = "peek d = CHR ''&''"
  let ?d = "d\<lparr>dc_col := dc_col d + property_length (has_prefix (dc_rest d) ''!<'') ?a (dc_rest d)\<rparr>"
  show ?case
  proof (cases "peek d \<noteq> CHR ''!'' \<and> \<not> ?a")
    case True
    then show ?thesis using "1.prems" by (subst (asm) properties_loop.simps) (simp add: Let_def)
  next
    case False
    then have at: "decoder_at src ?d" using property_cut [OF "1.prems"(2,3)] by blast
    from "1.prems"(1) False obtain d2 where d2: "skip_to_content (position ?d) ?d = Some d2"
      and nt: "\<not> (if ?a then a else t)" and row: "dc_row d2 \<noteq> length (dc_lines d2)"
      and rec: "properties_loop (t \<or> \<not> ?a) (a \<or> ?a) (position ?d) d2 = Inr (seen, e', d')"
      by (subst (asm) properties_loop.simps) (auto simp: Let_def split: if_splits option.splits)
    have d2_at: "decoder_at src d2" using skip_to_content_at [OF d2 at] by simp
    have "dc_row d2 < length (dc_lines d2)"
      using skip_to_content_row [OF d2] row "1.prems"(3) by simp
    with "1.IH" [OF refl refl False nt refl refl refl d2 row rec d2_at] show ?thesis .
  qed
qed

lemma properties_at:
  assumes "properties d = Inr d'" and "decoder_at src d" and "dc_row d < length (dc_lines d)"
  shows "decoder_at src d' \<and> dc_row d' < length (dc_lines d')"
  using assms properties_loop_at [of False False "position d" d _ _ d' src]
  by (auto simp: properties_def Let_def split: sum.splits if_splits)

lemma decode_content_ok:
  assumes "decode_content d = Inr d'" and "decoder_at src d"
  shows "decoder_in src d'"
proof -
  have q: "decoder_at src (d\<lparr>dc_col := dc_col d + 1\<rparr>)" if "peek d = CHR 0x27 \<or> peek d = CHR 0x22"
  proof -
    have "cut_at (dc_line d) (dc_col d + 1)" if "dc_row d < length (dc_lines d)"
    proof (rule cut_after_prefix)
      show "cut_at (dc_line d) (dc_col d)" using assms(2) that by (simp add: decoder_at_def)
      have ne: "dc_rest d \<noteq> []" using \<open>peek d = CHR 0x27 \<or> peek d = CHR 0x22\<close> by (auto simp: peek_def)
      then show "1 \<le> length (dc_line d) - dc_col d" by (auto simp: dc_rest_def)
      show "list_all (\<lambda>c. rn c < 128) (take 1 (drop (dc_col d) (dc_line d)))"
        using \<open>peek d = CHR 0x27 \<or> peek d = CHR 0x22\<close> ne
        by (cases "dc_rest d") (auto simp: peek_def dc_rest_def)
    qed
    then show ?thesis using assms(2) by (simp add: decoder_at_def)
  qed
  have "decoder_in src d'" if "flow c d = Inr d'" "c = nul \<or> c = peek d \<and> (peek d = CHR 0x27 \<or> peek d = CHR 0x22)" for c
    using flow_loop_ok [of c _ d' src] that q assms(2) unfolding flow_def by (auto split: if_splits)
  then show ?thesis
    using assms block_ok [OF assms(2)] by (auto simp: decode_content_def split: if_splits)
qed

lemma Decode_spans_wf:
  assumes "Decode (NewDocument src) start ctx = Inr sc"
  shows "spans_wf (NewDocument src) (ys_value sc) (ys_spans sc)"
proof -
  let ?doc = "NewDocument src" and ?row = "at_line start - 1"
  obtain col where b: "0 \<le> ?row" "?row < int (length (doc_lines ?doc))" "\<not> at_col start < 1" "ByteOffset ?doc ?row (at_col start) = Some col"
    using assms by (auto simp: Decode_def Let_def split: if_splits option.splits)
  define d where "d = \<lparr>dc_document = ?doc, dc_row = nat ?row, dc_col = col, dc_value = [],
    dc_result = empty_scalar, dc_context = ctx, dc_lastColumn = 0\<rparr>"
  have row: "dc_row d < length (dc_lines d)" using b by (simp add: d_def)
  have "cut_at (dc_line d) (dc_col d)"
    using column_cut [OF b(4)] row by (simp add: cut_at_def dc_line_def Let_def d_def)
  then have d: "decoder_at src d"
    by (simp add: decoder_at_def d_def decoder_ok_def spans_wf_def last_column_ok_def empty_scalar_def)
  show ?thesis
  proof (cases "properties d")
    case (Inl e)
    then have "sc = empty_scalar\<lparr>ys_start := e, ys_end := e\<rparr>"
      using assms b by (simp add: Decode_def Let_def d_def)
    then show ?thesis by (simp add: empty_scalar_def spans_wf_def)
  next
    case (Inr d1)
    let ?d1 = "d1\<lparr>dc_result := dc_result d1\<lparr>ys_start := position d1\<rparr>\<rparr>"
    from assms b Inr obtain d2 where d2: "decode_content ?d1 = Inr d2" "sc = dc_result d2\<lparr>ys_value := dc_value d2\<rparr>"
      by (auto simp: Decode_def Let_def d_def split: sum.splits)
    have "decoder_at src d1" using properties_at [OF Inr d row] by simp
    then have d1: "decoder_at src ?d1" by simp
    then show ?thesis
      using decode_content_ok [OF d2(1) d1] by (auto simp: d2(2) decoder_in_def decoder_ok_def)
  qed
qed

text \<open>
  (C32) The decoder keeps provenance: in a decoded scalar the spans are disjoint and ascending,
  every span has a position in the document, the bytes of a span that is not an escape or a
  separator are the bytes of the source at that position, and a byte outside all spans is a
  blank or a line feed that folding generated.
\<close>

theorem Decode_provenance:
  assumes "Decode (NewDocument src) start ctx = Inr sc"
  shows "(\<forall>sp\<in>set (ys_spans sc). ss_start sp < ss_end sp \<and> ss_end sp \<le> length (ys_value sc)
      \<and> (\<exists>k. ByteOffset (NewDocument src) (at_line (ss_pos sp) - 1) (at_col (ss_pos sp)) = Some k
          \<and> (ss_width sp = 0 \<longrightarrow> slice (ys_value sc) (ss_start sp) (ss_end sp)
               = take (span_length sp) (drop k (doc_lines (NewDocument src) ! nat (at_line (ss_pos sp) - 1))))))
    \<and> sorted_wrt (\<lambda>a b. ss_end a \<le> ss_start b) (ys_spans sc)
    \<and> (\<forall>i<length (ys_value sc). covered (ys_spans sc) i \<or> generated (ys_value sc ! i))"
proof -
  let ?doc = "NewDocument src"
  have res: "spans_wf ?doc (ys_value sc) (ys_spans sc)" by (rule Decode_spans_wf [OF assms])
  have "\<exists>k. ByteOffset ?doc (at_line (ss_pos sp) - 1) (at_col (ss_pos sp)) = Some k
      \<and> (ss_width sp = 0 \<longrightarrow> slice (ys_value sc) (ss_start sp) (ss_end sp)
           = take (span_length sp) (drop k (doc_lines ?doc ! nat (at_line (ss_pos sp) - 1))))"
    if "sp \<in> set (ys_spans sc)" for sp
  proof -
    from res that obtain row k where s: "span_source ?doc (ys_value sc) sp row k"
      by (auto simp: spans_wf_def span_ok_def)
    then show ?thesis
      using ByteOffset_cut [of row src k] by (auto simp: span_source_def Let_def)
  qed
  then show ?thesis using res by (auto simp: spans_wf_def span_ok_def)
qed

text \<open>The scalar of the source \<open>k: 'a''b\<close>, line break, \<open>c'\<close> folds to \<open>a'b c\<close>.\<close>

definition scalar_sample :: string where
  "scalar_sample = ''k: '' @ [CHR 0x27] @ ''a'' @ [CHR 0x27, CHR 0x27] @ ''b'' @ [CHR 0x0A] @ ''  c'' @ [CHR 0x27]"

theorem Decode_provenance_witness:
  "\<exists>sc. Decode (NewDocument scalar_sample) \<lparr>at_line = 1, at_col = 4\<rparr> \<lparr>sx_indent = 0, sx_flow = False\<rparr> = Inr sc
     \<and> ys_value sc = ''a'' @ [CHR 0x27] @ ''b c'' \<and> length (ys_spans sc) = 4
     \<and> sorted_wrt (\<lambda>a b. ss_end a \<le> ss_start b) (ys_spans sc)"
proof -
  have "case Decode (NewDocument scalar_sample) \<lparr>at_line = 1, at_col = 4\<rparr> \<lparr>sx_indent = 0, sx_flow = False\<rparr> of
      Inl e \<Rightarrow> False
    | Inr sc \<Rightarrow> ys_value sc = ''a'' @ [CHR 0x27] @ ''b c'' \<and> length (ys_spans sc) = 4"
    by code_simp
  then obtain sc where sc: "Decode (NewDocument scalar_sample) \<lparr>at_line = 1, at_col = 4\<rparr> \<lparr>sx_indent = 0, sx_flow = False\<rparr> = Inr sc"
    "ys_value sc = ''a'' @ [CHR 0x27] @ ''b c''" "length (ys_spans sc) = 4"
    by (auto split: sum.splits)
  then show ?thesis using Decode_provenance [OF sc(1)] by blast
qed

end
