(* ===== verification/Yaml_Alias.thy ===== *)
theory Yaml_Alias
  imports Yaml_Node
begin

text \<open>
  Anchors and aliases (\<open>ResolveYAMLAliases\<close> of \<open>internal/workflow/parse.go\<close>): an alias of an
  anchor that has been read completely is replaced by a copy of the anchored node, an alias
  inside its own anchor stays in the tree and is reported.

  The map from anchored nodes to their usage is an association list in the order in which
  the anchors are read; its last loop visits them in that order (Go's order is not fixed).
  Replacing \<open>n.Content[i]\<close> is a result of the function. The copy of an anchored node shares
  the content of the original, and is a node of its own: its identity is the next unused one.
\<close>

datatype yaml_alias_problem =
    RecursiveAlias string source_pos
  | UnusedAnchor string
  | InvalidAnchorName string
  | InvalidAliasName string

type_synonym alias_report = "node_info \<times> yaml_alias_problem"

record anchor_usage =
  au_used :: bool
  au_defined :: bool
  au_node :: ynode

record resolve_state =
  ra_anchors :: "(nat \<times> anchor_usage) list"
  ra_reports :: "alias_report list"
  ra_next :: nat

definition report_alias :: "node_info \<Rightarrow> yaml_alias_problem \<Rightarrow> resolve_state \<Rightarrow> resolve_state" where
  "report_alias i p s = s\<lparr>ra_reports := ra_reports s @ [(i, p)]\<rparr>"

definition set_usage :: "nat \<Rightarrow> anchor_usage \<Rightarrow> resolve_state \<Rightarrow> resolve_state" where
  "set_usage a u s = s\<lparr>ra_anchors := al_put a u (ra_anchors s)\<rparr>"

text \<open>The start of \<open>resolve\<close>: an anchored node enters the map before its content is read.\<close>

definition open_anchor :: "ynode \<Rightarrow> resolve_state \<Rightarrow> resolve_state" where
  "open_anchor n s =
     (let i = yn_info n in
      if ni_anchor i = [] then s
      else set_usage (ni_id i) \<lparr>au_used = False, au_defined = False, au_node = n\<rparr>
        (if CHR ''+'' \<in> set (ni_anchor i) then report_alias i (InvalidAnchorName (ni_anchor i)) s else s))"

text \<open>\<open>u.defined = true\<close>; the node of the entry is the node with its resolved content.\<close>

definition close_anchor :: "ynode \<Rightarrow> resolve_state \<Rightarrow> resolve_state" where
  "close_anchor n s =
     (let i = yn_info n in
      if ni_anchor i = [] then s
      else case map_of (ra_anchors s) (ni_id i) of
          None \<Rightarrow> s
        | Some u \<Rightarrow> set_usage (ni_id i) (u\<lparr>au_defined := True, au_node := n\<rparr>) s)"

text \<open>The body of the loop for an alias: the node that stands in its place afterwards.\<close>

definition replace_alias :: "ynode \<Rightarrow> resolve_state \<Rightarrow> ynode \<times> resolve_state" where
  "replace_alias c s0 =
     (let i = yn_info c;
          s = (if CHR ''+'' \<in> set (ni_value i) then report_alias i (InvalidAliasName (ni_value i)) s0 else s0)
      in case ni_alias i of
          None \<Rightarrow> (c, s)
        | Some a \<Rightarrow>
            (case map_of (ra_anchors s) a of
               None \<Rightarrow> (c, s)
             | Some u \<Rightarrow>
                 let s' = set_usage a (u\<lparr>au_used := True\<rparr>) s; t = au_node u in
                 if au_defined u
                 then (YNode (yn_info t\<lparr>ni_id := ra_next s', ni_via := Some (ni_value i, info_pos i)\<rparr>) (yn_content t),
                       s'\<lparr>ra_next := ra_next s' + 1\<rparr>)
                 else (c, report_alias i (RecursiveAlias (ni_anchor (yn_info t)) (PosAt t)) s')))"

fun resolve :: "ynode \<Rightarrow> resolve_state \<Rightarrow> ynode \<times> resolve_state"
and resolve_content :: "ynode list \<Rightarrow> resolve_state \<Rightarrow> ynode list \<times> resolve_state" where
  "resolve (YNode i cs) s =
     (case resolve_content cs (open_anchor (YNode i cs) s) of
        (cs', s') \<Rightarrow> (YNode i cs', close_anchor (YNode i cs') s'))"
| "resolve_content [] s = ([], s)"
| "resolve_content (c # cs) s =
     (case (if yn_kind c = AliasNode then replace_alias c s else resolve c s) of
        (c', s') \<Rightarrow> case resolve_content cs s' of (cs', s'') \<Rightarrow> (c' # cs', s''))"

definition report_unused :: "(nat \<times> anchor_usage) list \<Rightarrow> alias_report list" where
  "report_unused m =
     map (\<lambda>(a, u). (yn_info (au_node u), UnusedAnchor (ni_anchor (yn_info (au_node u)))))
       (filter (\<lambda>(a, u). \<not> au_used u) m)"

text \<open>An identity that no node of the tree has.\<close>

definition fresh_id :: "ynode \<Rightarrow> nat" where
  "fresh_id n = Suc (Max (set (map yn_id (tree_nodes n))))"

definition ResolveYAMLAliases :: "ynode \<Rightarrow> ynode \<times> alias_report list" where
  "ResolveYAMLAliases rt =
     (case resolve rt \<lparr>ra_anchors = [], ra_reports = [], ra_next = fresh_id rt\<rparr> of
        (n, s) \<Rightarrow> (n, ra_reports s @ report_unused (ra_anchors s)))"

subsection \<open>The aliases that are left\<close>

definition recursive_free :: "alias_report list \<Rightarrow> bool" where
  "recursive_free rs \<longleftrightarrow> list_all (\<lambda>(i, p). case p of RecursiveAlias _ _ \<Rightarrow> False | _ \<Rightarrow> True) rs"

definition alias_free :: "ynode \<Rightarrow> bool" where
  "alias_free n \<longleftrightarrow> list_all (\<lambda>m. yn_kind m \<noteq> AliasNode) (tree_nodes n)"

text \<open>
  An alias is a leaf without an anchor that names an anchored node starting before it in the
  document, which is what the YAML parser promises. \<open>ks\<close> are the identities of the anchored nodes read before.
\<close>

fun refers_back :: "nat list \<Rightarrow> ynode list \<Rightarrow> bool" where
  "refers_back ks [] = True"
| "refers_back ks (n # ns) =
     ((yn_kind n = AliasNode \<longrightarrow> yn_content n = [] \<and> ni_anchor (yn_info n) = []
        \<and> (case ni_alias (yn_info n) of None \<Rightarrow> False | Some a \<Rightarrow> a \<in> set ks))
      \<and> refers_back (if ni_anchor (yn_info n) = [] then ks else ni_id (yn_info n) # ks) ns)"

definition anchored :: "ynode list \<Rightarrow> nat set" where
  "anchored ns = {ni_id (yn_info n) | n. n \<in> set ns \<and> ni_anchor (yn_info n) \<noteq> []}"

lemma anchored_simps [simp]:
  "anchored [] = {}"
  "anchored (n # ns) = (if ni_anchor (yn_info n) = [] then anchored ns else insert (ni_id (yn_info n)) (anchored ns))"
  "anchored (xs @ ys) = anchored xs \<union> anchored ys"
  by (auto simp: anchored_def)

lemma refers_back_mono: "refers_back ks ns \<Longrightarrow> set ks \<subseteq> set ls \<Longrightarrow> refers_back ls ns"
proof (induction ks ns arbitrary: ls rule: refers_back.induct)
  case (2 ks n ns)
  show ?case
    using "2.prems" "2.IH" [of "if ni_anchor (yn_info n) = [] then ls else ni_id (yn_info n) # ls"]
    by (auto split: option.splits if_splits)
qed simp

lemma refers_back_append:
  "refers_back ks (xs @ ys) \<Longrightarrow> refers_back ks xs \<and> (\<forall>ls. set ls = set ks \<union> anchored xs \<longrightarrow> refers_back ls ys)"
proof (induction ks xs rule: refers_back.induct)
  case (1 ks)
  then show ?case using refers_back_mono [of ks ys] by auto
next
  case (2 ks n ns)
  then show ?case by (auto split: if_splits)
qed

definition known :: "resolve_state \<Rightarrow> nat set" where
  "known s = fst ` set (ra_anchors s)"

definition defined_free :: "resolve_state \<Rightarrow> bool" where
  "defined_free s \<longleftrightarrow>
     (\<forall>a u. map_of (ra_anchors s) a = Some u \<longrightarrow> au_defined u \<longrightarrow> alias_free (au_node u))"

lemma known_dom: "known s = dom (map_of (ra_anchors s))"
  by (simp add: known_def dom_map_of_conv_image_fst)

lemma known_simps [simp]:
  "known (report_alias i p s) = known s" "known (set_usage a u s) = insert a (known s)"
  by (simp_all add: known_dom report_alias_def set_usage_def)

lemma next_simps [simp]:
  "known (s\<lparr>ra_next := k\<rparr>) = known s" "defined_free (s\<lparr>ra_next := k\<rparr>) = defined_free s"
  by (simp_all add: known_def defined_free_def)

lemma reports_simps [simp]:
  "ra_reports (report_alias i p s) = ra_reports s @ [(i, p)]" "ra_reports (set_usage a u s) = ra_reports s"
  by (simp_all add: report_alias_def set_usage_def)

lemma anchors_simps [simp]:
  "ra_anchors (report_alias i p s) = ra_anchors s" "ra_anchors (set_usage a u s) = al_put a u (ra_anchors s)"
  by (simp_all add: report_alias_def set_usage_def)

lemma recursive_free_append [simp]:
  "recursive_free (xs @ ys) \<longleftrightarrow> recursive_free xs \<and> recursive_free ys"
  by (simp add: recursive_free_def)

lemma alias_free_node [simp]:
  "alias_free (YNode i cs) \<longleftrightarrow> ni_kind i \<noteq> AliasNode \<and> list_all alias_free cs"
  by (auto simp: alias_free_def list_all_iff)

lemma alias_free_copy:
  "alias_free t \<Longrightarrow> alias_free (YNode (yn_info t\<lparr>ni_id := a, ni_via := v\<rparr>) (yn_content t))"
  by (cases t) simp

lemma defined_free_report [simp]: "defined_free (report_alias i p s) = defined_free s"
  by (simp add: defined_free_def)

lemma defined_free_usage:
  "defined_free s \<Longrightarrow> (au_defined u \<Longrightarrow> alias_free (au_node u)) \<Longrightarrow> defined_free (set_usage a u s)"
  by (auto simp: defined_free_def)

lemma open_anchor_facts:
  "known (open_anchor n s) = known s \<union> anchored [n]"
  "defined_free s \<Longrightarrow> defined_free (open_anchor n s)"
  "\<exists>rs. ra_reports (open_anchor n s) = ra_reports s @ rs"
  by (auto simp: open_anchor_def Let_def intro!: defined_free_usage)

lemma close_anchor_facts:
  "known (close_anchor n s) = known s"
  "alias_free n \<Longrightarrow> defined_free s \<Longrightarrow> defined_free (close_anchor n s)"
  "ra_reports (close_anchor n s) = ra_reports s"
  by (auto simp: close_anchor_def Let_def known_dom split: option.splits intro!: defined_free_usage)

lemma replace_alias_facts:
  assumes "replace_alias c s = (c', s')"
  shows "known s \<subseteq> known s'"
    and "\<exists>rs. ra_reports s' = ra_reports s @ rs"
    and "defined_free s \<Longrightarrow> defined_free s'"
    and "defined_free s \<Longrightarrow> recursive_free (ra_reports s') \<Longrightarrow> ni_alias (yn_info c) = Some a
      \<Longrightarrow> a \<in> known s \<Longrightarrow> alias_free c'"
proof -
  define t where "t = (if CHR ''+'' \<in> set (yn_value c) then report_alias (yn_info c) (InvalidAliasName (yn_value c)) s else s)"
  have t: "known t = known s" "\<exists>rs. ra_reports t = ra_reports s @ rs" "defined_free t = defined_free s"
    by (simp_all add: t_def)
  note f = assms [unfolded replace_alias_def Let_def, folded t_def]
  show "known s \<subseteq> known s'"
    using f t(1) by (auto split: option.splits if_splits)
  show "\<exists>rs. ra_reports s' = ra_reports s @ rs"
    using f t(2) by (auto split: option.splits if_splits)
  show "defined_free s \<Longrightarrow> defined_free s'"
  proof -
    assume d: "defined_free s"
    have "map_of (ra_anchors t) a = Some u \<Longrightarrow> defined_free (set_usage a (u\<lparr>au_used := True\<rparr>) t)" for a u
      using d t(3) by (intro defined_free_usage) (auto simp: defined_free_def)
    then show ?thesis
      using f t(3) d by (auto split: option.splits if_splits)
  qed
  show "alias_free c'" if "defined_free s" "recursive_free (ra_reports s')" "ni_alias (yn_info c) = Some a" "a \<in> known s"
  proof -
    from that(4) t(1) obtain u where u: "map_of (ra_anchors t) a = Some u"
      by (auto simp: known_dom)
    with f that(2,3) have d: "au_defined u"
      by (auto simp: recursive_free_def split: if_splits)
    with u that(1) t(3) have "alias_free (au_node u)" by (auto simp: defined_free_def)
    with f that(3) u d show ?thesis by (auto intro: alias_free_copy)
  qed
qed

lemma resolve_grows:
  "resolve n s = (n', s') \<Longrightarrow> known s \<subseteq> known s' \<and> (\<exists>rs. ra_reports s' = ra_reports s @ rs)"
  "resolve_content cs s = (cs', s') \<Longrightarrow> known s \<subseteq> known s' \<and> (\<exists>rs. ra_reports s' = ra_reports s @ rs)"
proof (induction n s and cs s arbitrary: n' s' and cs' s' rule: resolve_resolve_content.induct)
  case (1 i cs s)
  from "1.prems" obtain cs' t where t: "resolve_content cs (open_anchor (YNode i cs) s) = (cs', t)"
      "s' = close_anchor (YNode i cs') t"
    by (auto split: prod.splits)
  from "1.IH" [OF t(1)] show ?case
    using open_anchor_facts(1,3) [of "YNode i cs" s] by (auto simp: t(2) close_anchor_facts)
next
  case (3 c cs s)
  from "3.prems" obtain c' t cs'' where
    t: "(if yn_kind c = AliasNode then replace_alias c s else resolve c s) = (c', t)"
    and r: "resolve_content cs t = (cs'', s')"
    by (auto split: prod.splits)
  have "known s \<subseteq> known t \<and> (\<exists>rs. ra_reports t = ra_reports s @ rs)"
    using "3.IH"(1) t replace_alias_facts(1,2) [of c s c' t] by (auto split: if_splits)
  moreover have "known t \<subseteq> known s' \<and> (\<exists>rs. ra_reports s' = ra_reports t @ rs)"
    using "3.IH"(2) [OF t [symmetric] r] .
  ultimately show ?case by fastforce
qed simp

lemma resolve_alias_free:
  "resolve n s = (n', s') \<Longrightarrow> yn_kind n \<noteq> AliasNode \<Longrightarrow> refers_back ks (tree_nodes n) \<Longrightarrow> set ks \<subseteq> known s
    \<Longrightarrow> defined_free s \<Longrightarrow> recursive_free (ra_reports s')
    \<Longrightarrow> alias_free n' \<and> defined_free s' \<and> anchored (tree_nodes n) \<subseteq> known s'"
  "resolve_content cs s = (cs', s') \<Longrightarrow> refers_back ks (concat (map tree_nodes cs)) \<Longrightarrow> set ks \<subseteq> known s
    \<Longrightarrow> defined_free s \<Longrightarrow> recursive_free (ra_reports s')
    \<Longrightarrow> list_all alias_free cs' \<and> defined_free s' \<and> anchored (concat (map tree_nodes cs)) \<subseteq> known s'"
proof (induction n s and cs s arbitrary: n' s' ks and cs' s' ks rule: resolve_resolve_content.induct)
  case (1 i cs s)
  let ?n = "YNode i cs" and ?ks = "if ni_anchor i = [] then ks else ni_id i # ks"
  obtain cs' t where t: "resolve_content cs (open_anchor ?n s) = (cs', t)"
    by (cases "resolve_content cs (open_anchor ?n s)")
  then have s': "s' = close_anchor (YNode i cs') t" and n': "n' = YNode i cs'"
    using "1.prems"(1) by auto
  have "refers_back ?ks (concat (map tree_nodes cs))" using "1.prems"(3) by (cases "ni_anchor i = []") simp_all
  moreover have "set ?ks \<subseteq> known (open_anchor ?n s)"
    using "1.prems"(4) unfolding open_anchor_facts(1) by (simp add: subset_iff)
  ultimately have rb: "refers_back ?ks (concat (map tree_nodes cs))" "set ?ks \<subseteq> known (open_anchor ?n s)" by simp_all
  from "1.IH" [OF t rb open_anchor_facts(2) [OF "1.prems"(5)]]
  have "list_all alias_free cs'" "defined_free t" "anchored (concat (map tree_nodes cs)) \<subseteq> known t"
    using "1.prems"(6) by (auto simp: s' close_anchor_facts)
  moreover have "anchored [?n] \<subseteq> known t"
    using resolve_grows(2) [OF t] open_anchor_facts(1) [of ?n s] by blast
  ultimately show ?case
    using "1.prems"(2) by (auto simp: s' n' close_anchor_facts)
next
  case (2 s)
  then show ?case by simp
next
  case (3 c cs s)
  obtain c' t where t: "(if yn_kind c = AliasNode then replace_alias c s else resolve c s) = (c', t)"
    by fastforce
  obtain cs'' where r: "resolve_content cs t = (cs'', s')" and cs': "cs' = c' # cs''"
    using "3.prems"(1) by (cases "resolve_content cs t") (simp add: t)
  have rb: "refers_back ks (tree_nodes c)"
    and rest: "\<And>ls. set ls = set ks \<union> anchored (tree_nodes c) \<Longrightarrow> refers_back ls (concat (map tree_nodes cs))"
    using refers_back_append [of ks "tree_nodes c"] "3.prems"(2) by simp_all
  have grows: "\<exists>rs. ra_reports s' = ra_reports t @ rs" using resolve_grows(2) [OF r] by simp
  then have free: "recursive_free (ra_reports t)" using "3.prems"(5) by auto
  have c: "alias_free c' \<and> defined_free t \<and> anchored (tree_nodes c) \<subseteq> known t \<and> known s \<subseteq> known t"
  proof (cases "yn_kind c = AliasNode")
    case True
    then have ra: "replace_alias c s = (c', t)" using t by simp
    obtain i ds where cn: "c = YNode i ds" by (cases c)
    from rb True have "ds = []" "ni_anchor i = []" by (auto simp: cn)
    moreover obtain a where a: "ni_alias (yn_info c) = Some a" "a \<in> set ks"
      using rb True by (auto simp: cn split: option.splits)
    moreover have "alias_free c'"
      using replace_alias_facts(4) [OF ra "3.prems"(4) free a(1)] a(2) "3.prems"(3) by blast
    ultimately show ?thesis
      using replace_alias_facts(1,3) [OF ra] "3.prems"(4) cn by simp
  next
    case False
    then have rc: "resolve c s = (c', t)" using t by simp
    then show ?thesis
      using "3.IH"(1) [OF False rc False rb "3.prems"(3,4) free] resolve_grows(1) [OF rc] by simp
  qed
  obtain ls where ls: "set ls = set ks \<union> anchored (tree_nodes c)"
    using that [of "ks @ map yn_id (filter (\<lambda>n. ni_anchor (yn_info n) \<noteq> []) (tree_nodes c))"]
    by (auto simp: anchored_def)
  then have "set ls \<subseteq> known t" using c "3.prems"(3) by blast
  from "3.IH"(2) [OF t [symmetric] r rest [OF ls] this] c "3.prems"(5) resolve_grows(2) [OF r]
  show ?case unfolding cs' by simp blast
qed


text \<open>The document \<open>[&x v, *x, &y w]\<close>.\<close>

definition alias_sample :: ynode where
  "alias_sample =
     YNode (plain_info 0 DocumentNode [] [] 1 1)
       [YNode (plain_info 1 SequenceNode ''!!seq'' [] 1 1)
         [YNode (plain_info 2 ScalarNode ''!!str'' ''v'' 1 2\<lparr>ni_anchor := ''x''\<rparr>) [],
          YNode (plain_info 3 AliasNode [] ''x'' 1 8\<lparr>ni_alias := Some 2\<rparr>) [],
          YNode (plain_info 4 ScalarNode ''!!str'' ''w'' 1 12\<lparr>ni_anchor := ''y''\<rparr>) []]]"


subsection \<open>The anchors that are reported\<close>

definition alias_targets :: "ynode list \<Rightarrow> nat set" where
  "alias_targets ns = {a. \<exists>m\<in>set ns. yn_kind m = AliasNode \<and> ni_alias (yn_info m) = Some a}"

definition used_anchors :: "resolve_state \<Rightarrow> nat set" where
  "used_anchors s = {a. \<exists>u. map_of (ra_anchors s) a = Some u \<and> au_used u}"

text \<open>An entry of the map holds the node it was made for, and no report is of an unused anchor.\<close>

definition anchors_of :: "node_info set \<Rightarrow> resolve_state \<Rightarrow> bool" where
  "anchors_of is s \<longleftrightarrow>
     (\<forall>a u. map_of (ra_anchors s) a = Some u \<longrightarrow> yn_info (au_node u) \<in> is \<and> ni_id (yn_info (au_node u)) = a)
     \<and> distinct (al_keys (ra_anchors s))
     \<and> list_all (\<lambda>(i, p). case p of UnusedAnchor _ \<Rightarrow> False | _ \<Rightarrow> True) (ra_reports s)"

lemma alias_targets_simps [simp]:
  "alias_targets [] = {}"
  "alias_targets (n # ns) =
     (if yn_kind n = AliasNode then set_option (ni_alias (yn_info n)) else {}) \<union> alias_targets ns"
  "alias_targets (xs @ ys) = alias_targets xs \<union> alias_targets ys"
  by (auto simp: alias_targets_def)

lemma used_anchors_simps [simp]:
  "used_anchors (report_alias i p s) = used_anchors s"
  "used_anchors (s\<lparr>ra_next := k\<rparr>) = used_anchors s"
  "used_anchors (set_usage a u s) = (if au_used u then insert a (used_anchors s) else used_anchors s - {a})"
  by (auto simp: used_anchors_def)

lemma used_anchors_known: "used_anchors s \<subseteq> known s"
  by (auto simp: used_anchors_def known_dom)

lemma anchors_of_mono: "anchors_of is s \<Longrightarrow> is \<subseteq> js \<Longrightarrow> anchors_of js s"
  unfolding anchors_of_def by blast

lemma anchors_of_next [simp]: "anchors_of is (s\<lparr>ra_next := k\<rparr>) = anchors_of is s"
  by (simp add: anchors_of_def)

lemma anchors_of_report:
  "anchors_of is s \<Longrightarrow> (\<And>n. p \<noteq> UnusedAnchor n) \<Longrightarrow> anchors_of is (report_alias i p s)"
  by (auto simp: anchors_of_def split: yaml_alias_problem.split)

lemma anchors_of_usage:
  "anchors_of is s \<Longrightarrow> yn_info (au_node u) \<in> is \<Longrightarrow> ni_id (yn_info (au_node u)) = a
    \<Longrightarrow> anchors_of is (set_usage a u s)"
  by (auto simp: anchors_of_def distinct_al_put)

lemma open_anchor_used:
  "ni_id (yn_info n) \<notin> known s \<Longrightarrow> used_anchors (open_anchor n s) = used_anchors s"
  "anchors_of is s \<Longrightarrow> yn_info n \<in> is \<Longrightarrow> anchors_of is (open_anchor n s)"
  using used_anchors_known [of s]
  by (auto simp: open_anchor_def Let_def intro!: anchors_of_usage anchors_of_report)

lemma close_anchor_used:
  "used_anchors (close_anchor n s) = used_anchors s"
  "anchors_of is s \<Longrightarrow> yn_info n \<in> is \<Longrightarrow> anchors_of is (close_anchor n s)"
  by (auto simp: close_anchor_def Let_def used_anchors_def split: option.splits intro!: anchors_of_usage)

lemma replace_alias_used:
  assumes "replace_alias c s = (c', s')" and "ni_alias (yn_info c) = Some a" and "a \<in> known s"
  shows "used_anchors s' = insert a (used_anchors s)" and "known s' = known s"
    and "anchors_of is s \<Longrightarrow> anchors_of is s'"
proof -
  define t where "t = (if CHR ''+'' \<in> set (yn_value c) then report_alias (yn_info c) (InvalidAliasName (yn_value c)) s else s)"
  have t: "known t = known s" "used_anchors t = used_anchors s" "ra_anchors t = ra_anchors s"
    "anchors_of is s \<Longrightarrow> anchors_of is t" for "is"
    by (auto simp: t_def intro: anchors_of_report)
  obtain u where u: "map_of (ra_anchors t) a = Some u" using assms(3) t(1) by (auto simp: known_dom)
  note f = assms(1) [unfolded replace_alias_def Let_def, folded t_def, unfolded assms(2), simplified, unfolded u, simplified]
  show "used_anchors s' = insert a (used_anchors s)" "known s' = known s"
    using f t(1,2) assms(3) by (auto split: if_splits)
  show "anchors_of is s'" if "anchors_of is s"
  proof -
    have "anchors_of is (set_usage a (u\<lparr>au_used := True\<rparr>) t)"
      using t(4) [OF that] u by (intro anchors_of_usage) (auto simp: anchors_of_def)
    then show ?thesis using f by (auto split: if_splits intro: anchors_of_report)
  qed
qed

lemma resolve_used:
  "resolve n s = (n', s') \<Longrightarrow> yn_kind n \<noteq> AliasNode \<Longrightarrow> refers_back ks (tree_nodes n) \<Longrightarrow> set ks \<subseteq> known s
    \<Longrightarrow> distinct (map yn_id (tree_nodes n))
    \<Longrightarrow> yn_id ` set (tree_nodes n) \<inter> known s = {}
    \<Longrightarrow> anchors_of is s \<Longrightarrow> yn_info ` set (tree_nodes n) \<subseteq> is
    \<Longrightarrow> used_anchors s' = used_anchors s \<union> alias_targets (tree_nodes n)
      \<and> known s' = known s \<union> anchored (tree_nodes n) \<and> anchors_of is s'"
  "resolve_content cs s = (cs', s') \<Longrightarrow> refers_back ks (concat (map tree_nodes cs)) \<Longrightarrow> set ks \<subseteq> known s
    \<Longrightarrow> distinct (map yn_id (concat (map tree_nodes cs)))
    \<Longrightarrow> yn_id ` set (concat (map tree_nodes cs)) \<inter> known s = {}
    \<Longrightarrow> anchors_of is s \<Longrightarrow> yn_info ` set (concat (map tree_nodes cs)) \<subseteq> is
    \<Longrightarrow> used_anchors s' = used_anchors s \<union> alias_targets (concat (map tree_nodes cs))
      \<and> known s' = known s \<union> anchored (concat (map tree_nodes cs)) \<and> anchors_of is s'"
proof (induction n s and cs s arbitrary: n' s' ks and cs' s' ks rule: resolve_resolve_content.induct)
  case (1 i cs s)
  let ?n = "YNode i cs" and ?ks = "if ni_anchor i = [] then ks else ni_id i # ks" and ?cs = "concat (map tree_nodes cs)"
  obtain cs' t where t: "resolve_content cs (open_anchor ?n s) = (cs', t)"
    by (cases "resolve_content cs (open_anchor ?n s)")
  then have s': "s' = close_anchor (YNode i cs') t" using "1.prems"(1) by auto
  have k: "known (open_anchor ?n s) = (if ni_anchor i = [] then known s else insert (ni_id i) (known s))"
    by (simp add: open_anchor_facts(1))
  have rb: "refers_back ?ks ?cs" using "1.prems"(3) by (cases "ni_anchor i = []") simp_all
  have ks: "set ?ks \<subseteq> known (open_anchor ?n s)" using "1.prems"(4) by (auto simp: k)
  have d: "distinct (map yn_id ?cs)" using "1.prems"(5) by simp
  have dj: "yn_id ` set ?cs \<inter> known (open_anchor ?n s) = {}"
    using "1.prems"(5,6) by (auto simp: k)
  have i: "yn_info ?n \<in> is" "yn_info ` set ?cs \<subseteq> is" using "1.prems"(8) by auto
  from "1.IH" [OF t rb ks d dj open_anchor_used(2) [OF "1.prems"(7) i(1)] i(2)]
  show ?case
    using "1.prems"(2,6) i(1) open_anchor_used(1) [of ?n s]
    by (simp add: s' close_anchor_used close_anchor_facts k)
next
  case (2 s)
  then show ?case by simp
next
  case (3 c cs s)
  let ?cs = "concat (map tree_nodes cs)"
  obtain c' t where t: "(if yn_kind c = AliasNode then replace_alias c s else resolve c s) = (c', t)"
    by fastforce
  obtain cs'' where r: "resolve_content cs t = (cs'', s')"
    using "3.prems"(1) by (cases "resolve_content cs t") (simp add: t)
  have rb: "refers_back ks (tree_nodes c)"
    and rest: "\<And>ls. set ls = set ks \<union> anchored (tree_nodes c) \<Longrightarrow> refers_back ls ?cs"
    using refers_back_append [of ks "tree_nodes c"] "3.prems"(2) by simp_all
  have d: "distinct (map yn_id (tree_nodes c))" "distinct (map yn_id ?cs)"
    and dj: "yn_id ` set (tree_nodes c) \<inter> yn_id ` set ?cs = {}"
    and dk: "yn_id ` set (tree_nodes c) \<inter> known s = {}" and disj: "yn_id ` set ?cs \<inter> known s = {}"
    and ic: "yn_info ` set (tree_nodes c) \<subseteq> is" and ics: "yn_info ` set ?cs \<subseteq> is"
    using "3.prems"(4,5,7) by auto
  have c: "used_anchors t = used_anchors s \<union> alias_targets (tree_nodes c)
      \<and> known t = known s \<union> anchored (tree_nodes c) \<and> anchors_of is t"
  proof (cases "yn_kind c = AliasNode")
    case True
    then have ra: "replace_alias c s = (c', t)" using t by simp
    obtain i ds where cn: "c = YNode i ds" by (cases c)
    obtain a where a: "ni_alias (yn_info c) = Some a" "a \<in> known s"
      using rb True "3.prems"(3) by (auto simp: cn split: option.splits)
    have "ds = []" "ni_anchor i = []" using rb True by (auto simp: cn)
    then show ?thesis using replace_alias_used [OF ra a] a(1) "3.prems"(6) True cn by simp
  next
    case False
    then have rc: "resolve c s = (c', t)" using t by simp
    show ?thesis using "3.IH"(1) [OF False rc False rb "3.prems"(3) d(1) dk "3.prems"(6) ic] .
  qed
  obtain ls where ls: "set ls = set ks \<union> anchored (tree_nodes c)"
    using that [of "ks @ map yn_id (filter (\<lambda>n. ni_anchor (yn_info n) \<noteq> []) (tree_nodes c))"]
    by (auto simp: anchored_def)
  then have "set ls \<subseteq> known t" using c "3.prems"(3) by blast
  moreover have "yn_id ` set ?cs \<inter> known t = {}"
  proof -
    have "anchored (tree_nodes c) \<subseteq> yn_id ` set (tree_nodes c)" by (auto simp: anchored_def)
    then show ?thesis using c dj disj by blast
  qed
  ultimately show ?case
    using "3.IH"(2) [OF t [symmetric] r rest [OF ls] _ d(2) _ _ ics] c by auto
qed

text \<open>
  (C34) The unused anchors are reported exactly: in a document whose aliases name anchors
  that start before them, an anchored node is reported as defined but not used if and only if
  no alias of the document names it.
\<close>

theorem unused_anchor_iff:
  assumes "ResolveYAMLAliases n = (n', rs)" and "yn_kind n \<noteq> AliasNode"
    and "refers_back [] (tree_nodes n)" and "distinct (map yn_id (tree_nodes n))"
    and "m \<in> set (tree_nodes n)" and "ni_anchor (yn_info m) \<noteq> []"
  shows "(yn_info m, UnusedAnchor (ni_anchor (yn_info m))) \<in> set rs
    \<longleftrightarrow> (\<forall>k\<in>set (tree_nodes n). yn_kind k = AliasNode \<longrightarrow> ni_alias (yn_info k) \<noteq> Some (ni_id (yn_info m)))"
proof -
  let ?s = "\<lparr>ra_anchors = [], ra_reports = [], ra_next = fresh_id n\<rparr>"
  obtain s where r: "resolve n ?s = (n', s)"
    and rs: "rs = ra_reports s @ report_unused (ra_anchors s)"
    using assms(1) by (auto simp: ResolveYAMLAliases_def split: prod.splits)
  have start: "used_anchors ?s = {}" "known ?s = {}" "anchors_of is ?s" for "is"
    by (simp_all add: used_anchors_def known_def anchors_of_def al_keys_def)
  have f: "used_anchors s = alias_targets (tree_nodes n)" "known s = anchored (tree_nodes n)"
    "anchors_of (yn_info ` set (tree_nodes n)) s"
    using resolve_used(1) [OF r assms(2,3) _ assms(4), of "yn_info ` set (tree_nodes n)"] start by auto
  have inj: "yn_info k = yn_info m" if "k \<in> set (tree_nodes n)" "ni_id (yn_info k) = ni_id (yn_info m)" for k
    using assms(4,5) that by (auto simp: distinct_map inj_on_def)
  have no: "(i, UnusedAnchor x) \<notin> set (ra_reports s)" for i x
    using f(3) by (auto simp: anchors_of_def list_all_iff)
  obtain u where u: "map_of (ra_anchors s) (ni_id (yn_info m)) = Some u"
    using f(2) assms(5,6) by (force simp: known_dom anchored_def)
  with f(3) have um: "yn_info (au_node u) = yn_info m"
    using inj by (force simp: anchors_of_def)
  have "(yn_info m, UnusedAnchor (ni_anchor (yn_info m))) \<in> set rs \<longleftrightarrow> \<not> au_used u"
  proof
    assume "(yn_info m, UnusedAnchor (ni_anchor (yn_info m))) \<in> set rs"
    then obtain a v where v: "(a, v) \<in> set (ra_anchors s)" "\<not> au_used v" "yn_info (au_node v) = yn_info m"
      using no by (auto simp: rs report_unused_def)
    then have "map_of (ra_anchors s) a = Some v"
      using f(3) by (auto simp: anchors_of_def al_keys_def)
    then have "yn_id (au_node v) = a" using f(3) unfolding anchors_of_def by blast
    then have "a = yn_id m" using v(3) by simp
    with \<open>map_of _ a = Some v\<close> u v(2) show "\<not> au_used u" by simp
  next
    assume "\<not> au_used u"
    then show "(yn_info m, UnusedAnchor (ni_anchor (yn_info m))) \<in> set rs"
      using map_of_SomeD [OF u] um by (force simp: rs report_unused_def)
  qed
  also have "\<dots> \<longleftrightarrow> yn_id m \<notin> used_anchors s"
    using u by (simp add: used_anchors_def)
  also have "\<dots> \<longleftrightarrow> yn_id m \<notin> alias_targets (tree_nodes n)"
    by (simp add: f(1))
  finally show ?thesis by (auto simp: alias_targets_def)
qed

theorem unused_anchor_iff_witness:
  "(plain_info 4 ScalarNode ''!!str'' ''w'' 1 12\<lparr>ni_anchor := ''y''\<rparr>, UnusedAnchor ''y'')
     \<in> set (snd (ResolveYAMLAliases alias_sample))"
proof -
  let ?m = "YNode (plain_info 4 ScalarNode ''!!str'' ''w'' 1 12\<lparr>ni_anchor := ''y''\<rparr>) []"
  have "yn_kind alias_sample \<noteq> AliasNode" "refers_back [] (tree_nodes alias_sample)"
    "distinct (map yn_id (tree_nodes alias_sample))" "?m \<in> set (tree_nodes alias_sample)"
    "ni_anchor (yn_info ?m) \<noteq> []"
    "\<forall>k\<in>set (tree_nodes alias_sample). yn_kind k = AliasNode \<longrightarrow> ni_alias (yn_info k) \<noteq> Some (ni_id (yn_info ?m))"
    by code_simp+
  with unused_anchor_iff [OF surjective_pairing this(1-5)] show ?thesis
    by (simp add: plain_info_def)
qed

end
