(* ===== verification/Mapping_Resolver.thy ===== *)
theory Mapping_Resolver
  imports Yaml_Node
begin

text \<open>
  Mappings whose keys and values may be expressions (\<open>internal/mapping\<close>). The generic
  \<open>Resolver[S]\<close> is a record of its four functions; its zero value of \<open>S\<close> (an absent source)
  is \<open>None\<close>, so a source that may be absent is an \<open>'s option\<close>. A Go map that is read in the
  order of its sorted keys is an association list. The calls \<open>Walk\<close> makes of its two callbacks
  are returned as a list of events.
\<close>

subsection \<open>Numbers as text\<close>

text \<open>
  \<open>strconv.FormatFloat(x, 'g', -1, 64)\<close>: the shortest decimal that reads back as \<open>x\<close>, and of
  these the closest one; in exponent form when the exponent is below -4 or not below 6 and
  21 digits are not asked for. \<open>m * 10 ^ k\<close> is such a decimal.
\<close>

definition dec_scale :: "int \<Rightarrow> rat" where
  "dec_scale k = (if 0 \<le> k then 10 ^ nat k else 1 / 10 ^ nat (- k))"

definition dec_point :: "rat \<Rightarrow> int" where
  "dec_point r =
     (if 1 \<le> r then int (length (nat_digits (nat \<lfloor>r\<rfloor>)))
      else case find (\<lambda>k. 1 \<le> r * 10 ^ k) [0..<400] of Some k \<Rightarrow> 1 - int k | None \<Rightarrow> 0)"

definition reads_back :: "rat \<Rightarrow> int \<Rightarrow> nat \<Rightarrow> bool" where
  "reads_back r k m \<longleftrightarrow> f64_round False (of_nat m * dec_scale k) = F64Fin False r"

definition digits_of_length :: "rat \<Rightarrow> nat \<Rightarrow> nat option" where
  "digits_of_length r n =
     (let k = dec_point r - int n; x = r / dec_scale k; lo = nat \<lfloor>x\<rfloor>; hi = lo + 1 in
      if reads_back r k lo \<and> (\<not> reads_back r k hi \<or> x - of_nat lo \<le> of_nat hi - x) then Some lo
      else if reads_back r k hi then Some hi else None)"

fun strip_zeros :: "nat \<Rightarrow> nat" where
  "strip_zeros m = (if m \<noteq> 0 \<and> m mod 10 = 0 then strip_zeros (m div 10) else m)"

declare strip_zeros.simps [simp del]

text \<open>The digits and the place of the decimal point (\<open>decimalSlice\<close>).\<close>

definition shortest_decimal :: "rat \<Rightarrow> string \<times> int" where
  "shortest_decimal r =
     (case find (\<lambda>n. digits_of_length r n \<noteq> None) [1..<18] of
        None \<Rightarrow> ([], 0)
      | Some n \<Rightarrow>
          let m = the (digits_of_length r n) in
          (nat_digits (strip_zeros m), dec_point r - int n + int (length (nat_digits m))))"

definition format_exponent :: "string \<Rightarrow> int \<Rightarrow> string" where
  "format_exponent ds e =
     (let x = nat_digits (nat \<bar>e\<bar>) in
      take 1 ds @ (if 1 < length ds then CHR ''.'' # drop 1 ds else [])
      @ ''e'' @ (if e < 0 then ''-'' else ''+'') @ (if length x < 2 then CHR ''0'' # x else x))"

definition format_fixed :: "string \<Rightarrow> int \<Rightarrow> string" where
  "format_fixed ds dp =
     (if 0 < dp then take (nat dp) ds @ replicate (nat dp - length ds) (CHR ''0'') else ''0'')
     @ (if int (length ds) \<le> dp then []
        else CHR ''.'' # replicate (nat (- dp)) (CHR ''0'') @ drop (nat dp) ds)"

fun FormatFloat :: "f64 \<Rightarrow> string" where
  "FormatFloat F64NaN = ''NaN''"
| "FormatFloat (F64Inf neg) = (if neg then ''-Inf'' else ''+Inf'')"
| "FormatFloat (F64Fin neg r) =
     (if neg then ''-'' else [])
     @ (if r = 0 then ''0''
        else case shortest_decimal r of (ds, dp) \<Rightarrow>
          if dp - 1 < - 4 \<or> 6 \<le> dp - 1 then format_exponent ds (dp - 1) else format_fixed ds dp)"

fun ScalarString :: "json \<Rightarrow> string option" where
  "ScalarString JNull = Some []"
| "ScalarString (JStr s) = Some s"
| "ScalarString (JBool b) = Some (FormatBool b)"
| "ScalarString (JNum x) = Some (FormatFloat x)"
| "ScalarString _ = None"

subsection \<open>Keys\<close>

datatype resolved_key_state = KeyUnknown | KeyKnown | KeyInvalid

record 's resolver =
  rs_Text :: "'s \<Rightarrow> string"
  rs_HasExpression :: "'s \<Rightarrow> bool"
  rs_Evaluate :: "'s \<Rightarrow> json option"
  rs_NewText :: "string \<Rightarrow> 's option \<Rightarrow> 's"

record 's mapping_input =
  in_name :: "'s option"
  in_value :: "'s option"
  in_evaluated :: bool

datatype 's inputs =
  Inputs (inputs_values: "(string \<times> 's mapping_input) list") (inputs_expression: "'s option")
    (inputs_insertions: "'s inputs list")

record 's resolved_key =
  rk_name :: "'s option"
  rk_source :: "'s option"
  rk_state :: resolved_key_state
  rk_evaluated :: bool

record 's mapping_entry = "'s resolved_key" +
  me_value :: "'s option"

definition ResolveKey :: "'s resolver \<Rightarrow> 's \<Rightarrow> bool \<Rightarrow> 's resolved_key" where
  "ResolveKey r source evaluated =
     (let named = (\<lambda>name. \<lparr>rk_name = Some name, rk_source = Some source,
            rk_state = (if rs_Text r name = [] then KeyInvalid else KeyKnown), rk_evaluated = evaluated\<rparr>);
          nameless = (\<lambda>st. \<lparr>rk_name = None, rk_source = Some source, rk_state = st, rk_evaluated = evaluated\<rparr>)
      in if evaluated \<or> \<not> rs_HasExpression r source then named source
         else case rs_Evaluate r source of
             None \<Rightarrow> nameless KeyUnknown
           | Some v \<Rightarrow> (case ScalarString v of
                 None \<Rightarrow> nameless KeyInvalid
               | Some name \<Rightarrow> named (rs_NewText r name (Some source))))"

text \<open>\<open>Key\<close>: the name and whether it is known and present.\<close>

definition resolver_Key :: "'s resolver \<Rightarrow> 's \<Rightarrow> 's option" where
  "resolver_Key r source =
     (let key = ResolveKey r source False in if rk_state key = KeyUnknown then None else rk_name key)"

subsection \<open>Walk\<close>

datatype 's walk_event = WalkExpression 's | WalkEntry "'s mapping_entry"

definition make_entry :: "'s resolved_key \<Rightarrow> 's option \<Rightarrow> 's mapping_entry" where
  "make_entry k v =
     \<lparr>rk_name = rk_name k, rk_source = rk_source k, rk_state = rk_state k, rk_evaluated = rk_evaluated k,
      me_value = v\<rparr>"

definition walk_input :: "'s resolver \<Rightarrow> string \<Rightarrow> 's mapping_input \<Rightarrow> 's mapping_entry" where
  "walk_input r key input =
     (let name = (case in_name input of None \<Rightarrow> rs_NewText r key None | Some s \<Rightarrow> s) in
      make_entry (ResolveKey r name (in_evaluated input)\<lparr>rk_source := in_name input\<rparr>) (in_value input))"

definition walk_member :: "'s resolver \<Rightarrow> 's \<Rightarrow> (string \<times> json) \<Rightarrow> 's mapping_entry" where
  "walk_member r source m =
     make_entry (ResolveKey r (rs_NewText r (fst m) (Some source)) True)
       (map_option (\<lambda>t. rs_NewText r t (Some source)) (ScalarString (snd m)))"

text \<open>\<open>slices.Sorted(maps.Keys(m))\<close> with the values.\<close>

definition sorted_entries :: "(string \<times> 'v) list \<Rightarrow> (string \<times> 'v) list" where
  "sorted_entries m = concat (map (\<lambda>k. case map_of m k of None \<Rightarrow> [] | Some v \<Rightarrow> [(k, v)]) (sort (remdups (map fst m))))"

definition walk_expression :: "'s resolver \<Rightarrow> 's option \<Rightarrow> 's walk_event list \<times> bool" where
  "walk_expression r expr =
     (case expr of
        None \<Rightarrow> ([], True)
      | Some source \<Rightarrow>
          (case rs_Evaluate r source of
             Some (JObj object) \<Rightarrow>
               (let es = map (walk_member r source) (sorted_entries object) in
                (WalkExpression source # map WalkEntry es, list_all (\<lambda>e. rk_state e = KeyKnown) es))
           | _ \<Rightarrow> ([WalkExpression source], False)))"

fun Walk :: "'s resolver \<Rightarrow> 's inputs \<Rightarrow> 's walk_event list \<times> bool" where
  "Walk r (Inputs vs expr ins) =
     (let es = map (\<lambda>(k, i). walk_input r k i) (sorted_entries vs);
          (xs, known) = walk_expression r expr;
          rest = map (Walk r) ins
      in (map WalkEntry es @ xs @ concat (map fst rest),
          list_all (\<lambda>e. rk_state e = KeyKnown) es \<and> known \<and> list_all snd rest))"

definition walk_entries :: "'s walk_event list \<Rightarrow> 's mapping_entry list" where
  "walk_entries evs = concat (map (\<lambda>e. case e of WalkExpression _ \<Rightarrow> [] | WalkEntry x \<Rightarrow> [x]) evs)"

subsection \<open>Value, Names and Check\<close>

text \<open>The state of the closure of \<open>Value\<close>: value, found, valueKnown.\<close>

definition value_step :: "'s resolver \<Rightarrow> string \<Rightarrow> 's mapping_entry \<Rightarrow> string \<times> bool \<times> bool \<Rightarrow> string \<times> bool \<times> bool" where
  "value_step r name e = (\<lambda>(v, found, known).
     if (case rk_name e of None \<Rightarrow> True | Some n \<Rightarrow> \<not> equal_fold (rs_Text r n) name) then (v, found, known)
     else let (t, k) =
            (case me_value e of
               None \<Rightarrow> ([], False)
             | Some s \<Rightarrow>
                 if rk_evaluated e \<or> \<not> rs_HasExpression r s then (rs_Text r s, True)
                 else case rs_Evaluate r s of
                     None \<Rightarrow> ([], False)
                   | Some l \<Rightarrow> (case ScalarString l of None \<Rightarrow> ([], False) | Some t \<Rightarrow> (t, True)))
          in (t, True, known \<and> k \<and> \<not> found))"

definition resolver_Value :: "'s resolver \<Rightarrow> 's inputs \<Rightarrow> string \<Rightarrow> string \<times> bool" where
  "resolver_Value r m name =
     (let (evs, complete) = Walk r m;
          (v, found, known) = fold (value_step r name) (walk_entries evs) ([], False, True)
      in (v, complete \<and> known))"

definition resolver_Names :: "'s resolver \<Rightarrow> 's inputs \<Rightarrow> (string \<times> 's mapping_input) list \<times> bool" where
  "resolver_Names r m =
     (let (evs, complete) = Walk r m in
      (fold (\<lambda>e acc. case rk_name e of
           None \<Rightarrow> acc
         | Some n \<Rightarrow> al_put (to_lower (rs_Text r n)) \<lparr>in_name = Some n, in_value = me_value e, in_evaluated = False\<rparr> acc)
         (walk_entries evs) [], complete))"

text \<open>The three callbacks of \<open>Check\<close>, in the order of their calls.\<close>

datatype 's mapping_check = CheckMapping 's | CheckText "'s option" | CheckScript "'s option"

definition CheckSourceKey :: "'s option \<Rightarrow> bool \<Rightarrow> 's mapping_check list" where
  "CheckSourceKey source evaluated = (if \<not> evaluated \<and> source \<noteq> None then [CheckText source] else [])"

definition check_entry :: "'s resolver \<Rightarrow> string \<Rightarrow> 's mapping_entry \<Rightarrow> 's mapping_check list" where
  "check_entry r action e =
     CheckSourceKey (rk_source e) (rk_evaluated e)
     @ (if rk_evaluated e then []
        else if has_prefix action ''actions/github-script@''
           \<and> (case rk_name e of None \<Rightarrow> True | Some n \<Rightarrow> equal_fold (rs_Text r n) ''script'')
        then [CheckScript (me_value e)]
        else [CheckText (me_value e)])"

definition resolver_Check :: "'s resolver \<Rightarrow> 's inputs \<Rightarrow> string \<Rightarrow> 's mapping_check list" where
  "resolver_Check r m action =
     concat (map (\<lambda>e. case e of WalkExpression s \<Rightarrow> [CheckMapping s] | WalkEntry x \<Rightarrow> check_entry r action x)
       (fst (Walk r m)))"

subsection \<open>Keys of YAML mappings\<close>

text \<open>\<open>collect\<close> of \<open>InsertedKeys\<close>; \<open>pairs\<close> are the keys and the values of a mapping.\<close>

fun node_pairs :: "'a list \<Rightarrow> ('a \<times> 'a) list" where
  "node_pairs (k # v # ns) = (k, v) # node_pairs ns"
| "node_pairs _ = []"

lemma node_pairs_mem: "(k, v) \<in> set (node_pairs ns) \<Longrightarrow> k \<in> set ns \<and> v \<in> set ns"
  by (induction ns rule: node_pairs.induct) auto

lemma node_pairs_cong [fundef_cong]: "ns = ms \<Longrightarrow> node_pairs ns = node_pairs ms"
  by simp

definition inserted_object :: "'s resolver \<Rightarrow> 's \<Rightarrow> (string \<times> 's) list \<Rightarrow> (string \<times> 's) list" where
  "inserted_object r source keys =
     (case rs_Evaluate r source of
        Some (JObj object) \<Rightarrow> fold (\<lambda>(name, v). al_put (to_lower name) (rs_NewText r name (Some source))) object keys
      | _ \<Rightarrow> keys)"

function InsertedKeys :: "'s resolver \<Rightarrow> (ynode \<Rightarrow> 's) \<Rightarrow> (string \<Rightarrow> bool) \<Rightarrow> ynode \<Rightarrow> (string \<times> 's) list \<Rightarrow> (string \<times> 's) list" where
  "InsertedKeys r source insertion n keys =
     (if yn_kind n = ScalarNode then inserted_object r (source n) keys
      else if yn_kind n \<noteq> MappingNode then keys
      else fold (\<lambda>(k, v) acc.
          let key = source k in
          if insertion (rs_Text r key) then InsertedKeys r source insertion v acc
          else case resolver_Key r key of
              None \<Rightarrow> acc
            | Some s \<Rightarrow> al_put (to_lower (rs_Text r s)) s acc)
        (node_pairs (yn_content n)) keys)"
  by pat_completeness auto
termination
  by (relation "measure (\<lambda>(r, s, i, n, ks). size n)") (auto dest!: node_pairs_mem content_size)

declare InsertedKeys.simps [simp del]

text \<open>\<open>KeyNode\<close>: the node of a key with the name it has at run time.\<close>

definition KeyNode :: "'s resolver \<Rightarrow> (ynode \<Rightarrow> 's) \<Rightarrow> ynode \<Rightarrow> ynode" where
  "KeyNode r source n =
     (if yn_kind n \<noteq> ScalarNode then n
      else case resolver_Key r (source n) of
          None \<Rightarrow> n
        | Some s \<Rightarrow> with_value (rs_Text r s) n)"

end
