(* ===== verification/Workflow_Ast.thy ===== *)
theory Workflow_Ast
  imports Mapping_Resolver Expr_Event
begin

text \<open>
  The syntax tree of a workflow (\<open>internal/workflow/ast.go\<close>, \<open>cache_mode.go\<close>) and the views of
  its mappings the resolver of \<open>internal/mapping\<close> works on (\<open>action_input_insertions.go\<close>,
  \<open>mapping_insertion_keys.go\<close>, \<open>workflow_values.go\<close>). A pointer that can be nil is an option. A
  slice or a map is an option where the code tells the nil one from the empty one, a list
  otherwise; a map is an association list that \<open>al_put\<close> fills. A nil \<open>Pos\<close> of a \<open>String\<close>, which
  only \<open>NewText\<close> without a source makes, is \<open>no_pos\<close>. The interfaces \<open>Event\<close>, \<open>Exec\<close> and
  \<open>RawYAMLValue\<close> are datatypes with a constructor per implementation.
\<close>

subsection \<open>Scalars\<close>

definition no_pos :: source_pos where
  "no_pos = \<lparr>at_line = 0, at_col = 0\<rparr>"

definition IsBefore :: "source_pos \<Rightarrow> source_pos \<Rightarrow> bool" where
  "IsBefore p q \<longleftrightarrow>
     (if at_line p < at_line q then True
      else if at_line q < at_line p then False
      else at_col p < at_col q)"

record wstring =
  ws_value :: string
  ws_quoted :: bool
  ws_pos :: source_pos

definition ws_ContainsExpression :: "wstring \<Rightarrow> bool" where
  "ws_ContainsExpression s \<longleftrightarrow> ContainsExpression (ws_value s)"

text \<open>The loop of \<open>IsExprAssigned\<close> over \<open>s[i:]\<close>; it ends one byte before the end of \<open>s\<close>.\<close>

fun expr_assigned_loop :: "bool \<Rightarrow> string \<Rightarrow> bool" where
  "expr_assigned_loop inString (c # d # cs) =
     (if c = CHR 0x27 then expr_assigned_loop (\<not> inString) (d # cs)
      else if \<not> inString \<and> has_prefix (c # d # cs) ''}}'' then cs = []
      else if \<not> inString \<and> has_prefix (c # d # cs) ''${{'' then False
      else expr_assigned_loop inString (d # cs))"
| "expr_assigned_loop inString _ = inString"

definition IsExprAssigned :: "string \<Rightarrow> bool" where
  "IsExprAssigned s \<longleftrightarrow> has_prefix s ''${{'' \<and> has_suffix s ''}}'' \<and> expr_assigned_loop False (drop 3 s)"

record wbool =
  wb_value :: bool
  wb_expr :: "wstring option"
  wb_pos :: source_pos

definition wb_String :: "wbool \<Rightarrow> string" where
  "wb_String b = (case wb_expr b of Some e \<Rightarrow> ws_value e | None \<Rightarrow> FormatBool (wb_value b))"

record wint =
  wi_value :: int
  wi_expr :: "wstring option"
  wi_pos :: source_pos

record wfloat =
  wf_value :: f64
  wf_expr :: "wstring option"
  wf_pos :: source_pos

subsection \<open>Events\<close>

record event_filter =
  ef_name :: wstring
  ef_values :: "wstring list"

definition ef_IsEmpty :: "event_filter option \<Rightarrow> bool" where
  "ef_IsEmpty f \<longleftrightarrow> (case f of None \<Rightarrow> True | Some g \<Rightarrow> ef_values g = [])"

record webhook_event =
  we_hook :: wstring
  we_types :: "wstring list"
  we_branches :: "event_filter option"
  we_branches_ignore :: "event_filter option"
  we_tags :: "event_filter option"
  we_tags_ignore :: "event_filter option"
  we_paths :: "event_filter option"
  we_paths_ignore :: "event_filter option"
  we_workflows :: "wstring list"
  we_pos :: source_pos

record schedule_entry =
  sc_cron :: "wstring option"
  sc_timezone :: "wstring option"

datatype dispatch_input_type =
  DispatchNone | DispatchString | DispatchNumber | DispatchBoolean | DispatchChoice | DispatchEnvironment

record dispatch_input =
  di_name :: wstring
  di_description :: "wstring option"
  di_required :: "wbool option"
  di_default :: "wstring option"
  di_type :: dispatch_input_type
  di_options :: "wstring list"

datatype call_input_type = CallInvalid | CallBoolean | CallNumber | CallString

record call_input =
  ci_name :: wstring
  ci_description :: "wstring option"
  ci_default :: "wstring option"
  ci_required :: "wbool option"
  ci_type :: call_input_type
  ci_id :: string

definition ci_IsRequired :: "call_input \<Rightarrow> bool" where
  "ci_IsRequired i \<longleftrightarrow> (case ci_required i of None \<Rightarrow> False | Some b \<Rightarrow> wb_value b)"

record call_secret =
  cs_name :: wstring
  cs_description :: "wstring option"
  cs_required :: "wbool option"

record call_output =
  co_name :: wstring
  co_description :: "wstring option"
  co_value :: "wstring option"

record call_event =
  ce_inputs :: "call_input list"
  ce_secrets :: "(string \<times> call_secret) list option"
  ce_outputs :: "(string \<times> call_output) list"
  ce_pos :: source_pos

record image_event =
  ie_types :: "wstring list"
  ie_names :: "wstring list"
  ie_versions :: "wstring list"
  ie_pos :: source_pos

datatype wf_event =
    WebhookEvent webhook_event
  | ScheduledEvent "schedule_entry list" source_pos
  | WorkflowDispatchEvent "(string \<times> dispatch_input) list" source_pos
  | RepositoryDispatchEvent "wstring list" source_pos
  | WorkflowCallEvent call_event
  | ImageVersionEvent image_event

fun EventName :: "wf_event \<Rightarrow> string" where
  "EventName (WebhookEvent e) = ws_value (we_hook e)"
| "EventName (ScheduledEvent _ _) = ''schedule''"
| "EventName (WorkflowDispatchEvent _ _) = ''workflow_dispatch''"
| "EventName (RepositoryDispatchEvent _ _) = ''repository_dispatch''"
| "EventName (WorkflowCallEvent _) = ''workflow_call''"
| "EventName (ImageVersionEvent _) = ''image_version''"

subsection \<open>Sections workflows and jobs share\<close>

record permission_scope =
  pv_name :: wstring
  pv_value :: wstring

record permissions =
  pm_all :: "wstring option"
  pm_scopes :: "(string \<times> permission_scope) list option"
  pm_pos :: source_pos

record defaults_run =
  dr_expression :: "wstring option"
  dr_shell :: "wstring option"
  dr_working_directory :: "wstring option"
  dr_pos :: source_pos

record defaults =
  df_run :: "defaults_run option"
  df_pos :: source_pos

record concurrency =
  cc_expression :: "wstring option"
  cc_group :: "wstring option"
  cc_cancel :: "wbool option"
  cc_queue :: "wstring option"
  cc_pos :: source_pos

record environment =
  evm_expression :: "wstring option"
  evm_name :: "wstring option"
  evm_url :: "wstring option"
  evm_deployment :: "wbool option"
  evm_pos :: source_pos

record named_value =
  nv_name :: wstring
  nv_value :: wstring

datatype env_decl =
  Env (env_vars: "(string \<times> named_value) list") (env_insertions: "env_decl list")
    (env_expression: "wstring option")

datatype cache_mode_kind = CacheModeInvalid | CacheModeNone | CacheModeRead | CacheModeWrite | CacheModeWriteOnly

fun cache_mode_string :: "cache_mode_kind \<Rightarrow> string" where
  "cache_mode_string CacheModeNone = ''none''"
| "cache_mode_string CacheModeRead = ''read''"
| "cache_mode_string CacheModeWrite = ''write''"
| "cache_mode_string CacheModeWriteOnly = ''write-only''"
| "cache_mode_string CacheModeInvalid = ''invalid''"

record cache_mode =
  cm_kind :: cache_mode_kind
  cm_pos :: source_pos

definition Capabilities :: "cache_mode option \<Rightarrow> nat option" where
  "Capabilities m =
     (case m of
        None \<Rightarrow> None
      | Some c \<Rightarrow>
          (case cm_kind c of
             CacheModeNone \<Rightarrow> Some 0 | CacheModeRead \<Rightarrow> Some 1 | CacheModeWriteOnly \<Rightarrow> Some 2
           | CacheModeWrite \<Rightarrow> Some 3 | CacheModeInvalid \<Rightarrow> None))"

definition EffectiveCacheMode :: "cache_mode option \<Rightarrow> cache_mode option \<Rightarrow> cache_mode option" where
  "EffectiveCacheMode workflow job = (if job \<noteq> None then job else workflow)"

subsection \<open>Raw YAML values\<close>

definition YamlTagStr :: string where "YamlTagStr = ''!!str''"
definition YamlTagBool :: string where "YamlTagBool = ''!!bool''"
definition YamlTagInt :: string where "YamlTagInt = ''!!int''"
definition YamlTagFloat :: string where "YamlTagFloat = ''!!float''"
definition YamlTagNull :: string where "YamlTagNull = ''!!null''"

datatype raw_yaml =
    RawYAMLObject "(string \<times> raw_yaml) list" source_pos
  | RawYAMLArray "raw_yaml list" source_pos
  | RawYAMLString string string source_pos

fun raw_kind :: "raw_yaml \<Rightarrow> yaml_kind" where
  "raw_kind (RawYAMLObject _ _) = MappingNode"
| "raw_kind (RawYAMLArray _ _) = SequenceNode"
| "raw_kind (RawYAMLString _ _ _) = ScalarNode"

fun raw_pos :: "raw_yaml \<Rightarrow> source_pos" where
  "raw_pos (RawYAMLObject _ p) = p"
| "raw_pos (RawYAMLArray _ p) = p"
| "raw_pos (RawYAMLString _ _ p) = p"

text \<open>The numbers of \<open>ScalarValue\<close>; \<open>None\<close> falls through to the text.\<close>

definition scalar_number :: "string \<Rightarrow> f64 option" where
  "scalar_number s =
     (let l = to_lower s in
      if l = ''.inf'' \<or> l = ''+.inf'' then Some (F64Inf False)
      else if l = ''-.inf'' then Some (F64Inf True)
      else if l = ''.nan'' then Some F64NaN
      else if has_prefix s ''0x'' \<or> has_prefix s ''0o'' then
        (case parse_uint0 s of
           None \<Rightarrow> None
         | Some n \<Rightarrow>
             if 2 ^ 32 \<le> n then None
             else Some (f64_of_int (if 2 ^ 31 - 1 < n then int n - 2 ^ 32 else int n)))
      else case parse_float s of Some (x, True) \<Rightarrow> Some x | _ \<Rightarrow> None)"

definition ScalarValue :: "string \<Rightarrow> string \<Rightarrow> json" where
  "ScalarValue v tag =
     (if tag = YamlTagBool \<and> IsCoreSchemaBool v then JBool (equal_fold v ''true'')
      else if tag = YamlTagNull \<and> IsCoreSchemaNull v then JNull
      else if (tag = YamlTagInt \<or> tag = YamlTagFloat) \<and> IsCoreSchemaNumber v then
        (case scalar_number v of Some x \<Rightarrow> JNum x | None \<Rightarrow> JStr v)
      else JStr v)"

text \<open>Go's \<open>==\<close> on two of these values, with the case of two NaNs.\<close>

fun scalar_equals :: "json \<Rightarrow> json \<Rightarrow> bool" where
  "scalar_equals (JNum x) (JNum y) = (f64_eq x y \<or> x = F64NaN \<and> y = F64NaN)"
| "scalar_equals a b = (a = b)"

fun Equals :: "raw_yaml \<Rightarrow> raw_yaml \<Rightarrow> bool" where
  "Equals (RawYAMLObject ps _) other =
     (case other of
        RawYAMLObject qs _ \<Rightarrow>
          length ps = length qs
          \<and> list_all (\<lambda>(n, p1). case map_of qs n of None \<Rightarrow> False | Some p2 \<Rightarrow> Equals p1 p2) ps
      | _ \<Rightarrow> False)"
| "Equals (RawYAMLArray es _) other =
     (case other of RawYAMLArray fs _ \<Rightarrow> length es = length fs \<and> list_all2 Equals es fs | _ \<Rightarrow> False)"
| "Equals (RawYAMLString v tag _) other =
     (case other of RawYAMLString w tag' _ \<Rightarrow> scalar_equals (ScalarValue v tag) (ScalarValue w tag') | _ \<Rightarrow> False)"

text \<open>The keys of every object are distinct, as those of a Go map are.\<close>

fun raw_wf :: "raw_yaml \<Rightarrow> bool" where
  "raw_wf (RawYAMLObject ps _) \<longleftrightarrow> distinct (map fst ps) \<and> list_all (\<lambda>(n, v). raw_wf v) ps"
| "raw_wf (RawYAMLArray es _) \<longleftrightarrow> list_all raw_wf es"
| "raw_wf (RawYAMLString _ _ _) = True"

subsection \<open>Strategies\<close>

record matrix_row =
  mr_evaluated :: bool
  mr_name :: wstring
  mr_values :: "raw_yaml list"
  mr_expression :: "wstring option"

record matrix_assign =
  ma_key :: wstring
  ma_value :: raw_yaml

record matrix_combination =
  mc_evaluated :: bool
  mc_assigns :: "(string \<times> matrix_assign) list"
  mc_expression :: "wstring option"

record matrix_combinations =
  ms_name :: "wstring option"
  ms_evaluated :: bool
  ms_combinations :: "matrix_combination list"
  ms_expression :: "wstring option"

definition ms_ContainsExpression :: "matrix_combinations \<Rightarrow> bool" where
  "ms_ContainsExpression cs \<longleftrightarrow>
     ms_expression cs \<noteq> None \<or> list_ex (\<lambda>c. mc_expression c \<noteq> None) (ms_combinations cs)"

datatype matrix =
  Matrix (mx_insertions: "matrix list") (mx_rows: "(string \<times> matrix_row) list")
    (mx_include: "matrix_combinations option") (mx_exclude: "matrix_combinations option")
    (mx_expression: "wstring option") (mx_pos: source_pos)

record strategy =
  sy_expression :: "wstring option"
  sy_matrix :: "matrix option"
  sy_fail_fast :: "wbool option"
  sy_max_parallel :: "wint option"
  sy_pos :: source_pos

subsection \<open>Scripts\<close>

record script_line =
  sl_start :: nat
  sl_end :: nat

record script_span =
  sw_start :: nat
  sw_end :: nat
  sw_yaml :: source_pos
  sw_yaml_end_column :: int
  sw_yaml_end_line :: int

record scalar_comment =
  sm_text :: string
  sm_pos :: source_pos
  sm_trailing :: bool

record script_source =
  sr_content_start :: source_pos
  sr_scalar_end :: source_pos
  sr_value :: string
  sr_lines :: "script_line list"
  sr_spans :: "script_span list"
  sr_literal :: bool
  sr_comments :: "scalar_comment list"

subsection \<open>Steps\<close>

record exec_run =
  er_run :: "wstring option"
  er_source :: "script_source option"
  er_shell :: "wstring option"
  er_working_directory :: "wstring option"
  er_run_pos :: "source_pos option"

record action_input =
  ai_name :: wstring
  ai_value :: wstring
  ai_source :: "script_source option"

datatype action_inputs =
  ActionInputs (am_inputs: "(string \<times> action_input) list") (am_expression: "wstring option")
    (am_insertions: "action_inputs list")

record exec_action =
  ea_uses :: "wstring option"
  ea_inputs :: "(string \<times> action_input) list"
  ea_expression :: "wstring option"
  ea_insertions :: "action_inputs list"
  ea_entrypoint :: "wstring option"
  ea_args :: "wstring option"
  ea_entrypoint_evaluated :: bool
  ea_args_evaluated :: bool
  ea_name_expressions :: "wstring list"

record exec_wait =
  ew_names :: "wstring list"
  ew_all :: bool
  ew_all_pos :: "source_pos option"

record step_info =
  st_id :: "wstring option"
  st_if :: "wstring option"
  st_name :: "wstring option"
  st_declared_uses :: "wstring option"
  st_env :: "env_decl option"
  st_continue_on_error :: "wbool option"
  st_timeout :: "wfloat option"
  st_background :: "wbool option"
  st_pos :: source_pos

datatype step = Step (step_info: step_info) (step_exec: "exec option")
and exec =
    ExecAction exec_action
  | ExecRun exec_run
  | ExecWait exec_wait
  | ExecCancel "wstring option"
  | ExecParallel "step list option"

datatype exec_kind = ExecKindAction | ExecKindRun | ExecKindWait | ExecKindCancel | ExecKindParallel

fun Kind :: "exec \<Rightarrow> exec_kind" where
  "Kind (ExecAction _) = ExecKindAction"
| "Kind (ExecRun _) = ExecKindRun"
| "Kind (ExecWait _) = ExecKindWait"
| "Kind (ExecCancel _) = ExecKindCancel"
| "Kind (ExecParallel _) = ExecKindParallel"

subsection \<open>Jobs and workflows\<close>

record credentials =
  cd_username :: "wstring option"
  cd_password :: "wstring option"
  cd_expression :: "wstring option"
  cd_pos :: source_pos

record container =
  ct_expression :: "wstring option"
  ct_image :: "wstring option"
  ct_credentials :: "credentials option"
  ct_env :: "env_decl option"
  ct_ports :: "wstring list"
  ct_ports_expression :: "wstring option"
  ct_volumes :: "wstring list"
  ct_volumes_expression :: "wstring option"
  ct_options :: "wstring option"
  ct_command :: "wstring option"
  ct_entrypoint :: "wstring option"
  ct_pos :: source_pos

record service =
  sv_name :: wstring
  sv_container :: container

record services =
  ss_value :: "(string \<times> service) list option"
  ss_expression :: "wstring option"
  ss_position :: source_pos

record job_runner =
  rn_expression :: "wstring option"
  rn_labels :: "wstring list"
  rn_labels_expr :: "wstring option"
  rn_group :: "wstring option"

record workflow_call =
  wc_uses :: "wstring option"
  wc_inputs :: "(string \<times> named_value) list"
  wc_secrets :: "(string \<times> named_value) list"
  wc_inherit :: bool

record snapshot =
  sn_expression :: "wstring option"
  sn_image_name :: "wstring option"
  sn_version :: "wstring option"
  sn_if :: "wstring option"

record wf_job =
  wj_id :: wstring
  wj_name :: "wstring option"
  wj_needs :: "wstring list"
  wj_runs_on :: "job_runner option"
  wj_permissions :: "permissions option"
  wj_cache_mode :: "cache_mode option"
  wj_environment :: "environment option"
  wj_concurrency :: "concurrency option"
  wj_outputs :: "(string \<times> named_value) list"
  wj_env :: "env_decl option"
  wj_defaults :: "defaults option"
  wj_if :: "wstring option"
  wj_steps :: "step list option"
  wj_timeout :: "wfloat option"
  wj_cancel_timeout :: "wfloat option"
  wj_strategy :: "strategy option"
  wj_continue_on_error :: "wbool option"
  wj_container :: "container option"
  wj_services :: "services option"
  wj_workflow_call :: "workflow_call option"
  wj_declared_uses :: "wstring option"
  wj_snapshot :: "snapshot option"
  wj_pos :: source_pos

record workflow =
  wk_sources :: "(source_pos \<times> script_source) list"
  wk_name :: "wstring option"
  wk_description :: "wstring option"
  wk_run_name :: "wstring option"
  wk_on :: "wf_event list option"
  wk_permissions :: "permissions option"
  wk_cache_mode :: "cache_mode option"
  wk_env :: "env_decl option"
  wk_defaults :: "defaults option"
  wk_concurrency :: "concurrency option"
  wk_jobs :: "(string \<times> wf_job) list option"
  wk_pos :: "source_pos option"

definition FindWorkflowCallEvent :: "workflow \<Rightarrow> call_event option" where
  "FindWorkflowCallEvent w =
     (case wk_on w of
        None \<Rightarrow> None
      | Some es \<Rightarrow>
          (case filter (\<lambda>e. case e of WorkflowCallEvent _ \<Rightarrow> True | _ \<Rightarrow> False) es of
             WorkflowCallEvent c # _ \<Rightarrow> Some c | _ \<Rightarrow> None))"

subsection \<open>Mappings of strings\<close>

definition WorkflowExpressionLiteral :: "wstring \<Rightarrow> json option" where
  "WorkflowExpressionLiteral s =
     (case parseAssignedExpression (ws_value s) of None \<Rightarrow> None | Some e \<Rightarrow> ConditionConstantValue e)"

definition InputResolver :: "wstring resolver" where
  "InputResolver =
     \<lparr>rs_Text = ws_value, rs_HasExpression = ws_ContainsExpression, rs_Evaluate = WorkflowExpressionLiteral,
      rs_NewText = (\<lambda>v source. case source of
          None \<Rightarrow> \<lparr>ws_value = v, ws_quoted = False, ws_pos = no_pos\<rparr>
        | Some s \<Rightarrow> s\<lparr>ws_value := v\<rparr>)\<rparr>"

definition plain_input :: "wstring \<Rightarrow> wstring \<Rightarrow> wstring mapping_input" where
  "plain_input name v = \<lparr>in_name = Some name, in_value = Some v, in_evaluated = False\<rparr>"

fun inputMappingView :: "action_inputs \<Rightarrow> wstring inputs" where
  "inputMappingView (ActionInputs inputs e ins) =
     Inputs (map (\<lambda>(k, i). (k, plain_input (ai_name i) (ai_value i))) inputs) e (map inputMappingView ins)"

definition InputMapping :: "exec_action \<Rightarrow> wstring inputs" where
  "InputMapping a = inputMappingView (ActionInputs (ea_inputs a) (ea_expression a) (ea_insertions a))"

definition ActionInputValue :: "exec_action \<Rightarrow> string \<Rightarrow> string \<times> bool" where
  "ActionInputValue a name = resolver_Value InputResolver (InputMapping a) name"

fun EnvMappingView :: "env_decl \<Rightarrow> wstring inputs" where
  "EnvMappingView (Env vars ins e) =
     Inputs (map (\<lambda>(k, v). (k, plain_input (nv_name v) (nv_value v))) vars) e (map EnvMappingView ins)"

end
