(* ===== verification/Mapping_Spec.thy ===== *)
theory Mapping_Spec
  imports Mapping_Resolver
begin

text \<open>
  What resolving a mapping promises about the mapping a job sees at run time. The interface
  \<open>runtime_sources\<close> says what the four functions of a resolver have to do with the text and
  the members a source has at run time; the lemmas about \<open>Walk\<close> and \<open>Value\<close> are proved from it.
\<close>

subsection \<open>Sorted maps\<close>

lemma set_sorted_entries: "set (sorted_entries m) = {(k, v). map_of m k = Some v}"
proof -
  have "k \<in> fst ` set m" if "map_of m k = Some v" for k v
    using that by (force dest: map_of_SomeD)
  then show ?thesis
    by (force simp: sorted_entries_def split: option.splits)
qed

lemma keys_sorted_entries: "map fst (sorted_entries m) = sort (remdups (map fst m))"
proof -
  have "map fst (concat (map (\<lambda>k. case map_of m k of None \<Rightarrow> [] | Some v \<Rightarrow> [(k, v)]) ks)) = ks"
    if "set ks \<subseteq> fst ` set m" for ks
    using that
  proof (induction ks)
    case (Cons k ks)
    then obtain v where "map_of m k = Some v" by (auto simp: image_iff) (metis option.exhaust map_of_eq_None_iff fst_conv image_eqI)
    with Cons show ?case by simp
  qed simp
  then show ?thesis by (simp add: sorted_entries_def)
qed

lemma sorted_entries_map: "map_of (sorted_entries m) = map_of m"
proof -
  have d: "distinct (map fst (sorted_entries m))" by (simp add: keys_sorted_entries)
  show ?thesis
  proof
    fix k
    show "map_of (sorted_entries m) k = map_of m k"
    proof (cases "map_of m k")
      case None
      then have "k \<notin> fst ` set (sorted_entries m)" by (auto simp: set_sorted_entries)
      then have "map_of (sorted_entries m) k = None" by (metis map_of_eq_None_iff)
      then show ?thesis using None by simp
    next
      case (Some v)
      then show ?thesis using d by (simp add: set_sorted_entries)
    qed
  qed
qed

subsection \<open>Entries of a walk\<close>

lemma walk_entries_simps [simp]:
  "walk_entries [] = []" "walk_entries (xs @ ys) = walk_entries xs @ walk_entries ys"
  "walk_entries (WalkExpression s # xs) = walk_entries xs"
  "walk_entries (map WalkEntry es) = es" "walk_entries (map (\<lambda>y. WalkEntry (f y)) ys) = map f ys"
  by (simp_all add: walk_entries_def comp_def)

lemma walk_entries_concat: "walk_entries (concat xss) = concat (map walk_entries xss)"
  by (induction xss) simp_all

text \<open>
  The pairs of name and value a mapping has at run time, later ones of the same name included:
  \<open>rt\<close> and \<open>rm\<close> are the text and the members of a source at run time.
\<close>

definition run_value :: "'s resolver \<Rightarrow> ('s \<Rightarrow> string) \<Rightarrow> bool \<Rightarrow> 's option \<Rightarrow> string option" where
  "run_value r rt evaluated = map_option (\<lambda>s. if evaluated then rs_Text r s else rt s)"

definition run_input :: "'s resolver \<Rightarrow> ('s \<Rightarrow> string) \<Rightarrow> string \<times> 's mapping_input \<Rightarrow> string \<times> string option" where
  "run_input r rt = (\<lambda>(key, i).
     let name = (case in_name i of None \<Rightarrow> rs_NewText r key None | Some s \<Rightarrow> s) in
     (if in_evaluated i then rs_Text r name else rt name, run_value r rt (in_evaluated i) (in_value i)))"

fun run_pairs :: "'s resolver \<Rightarrow> ('s \<Rightarrow> string) \<Rightarrow> ('s \<Rightarrow> (string \<times> string option) list) \<Rightarrow> 's inputs \<Rightarrow> (string \<times> string option) list" where
  "run_pairs r rt rm (Inputs vs e ins) =
     map (run_input r rt) (sorted_entries vs) @ (case e of None \<Rightarrow> [] | Some s \<Rightarrow> rm s)
     @ concat (map (run_pairs r rt rm) ins)"

definition entry_pair :: "'s resolver \<Rightarrow> ('s \<Rightarrow> string) \<Rightarrow> 's mapping_entry \<Rightarrow> string \<times> string option" where
  "entry_pair r rt e = (rs_Text r (the (rk_name e)), run_value r rt (rk_evaluated e) (me_value e))"

locale runtime_sources =
  fixes r :: "'s resolver" and run_text :: "'s \<Rightarrow> string"
    and run_members :: "'s \<Rightarrow> (string \<times> string option) list"
  assumes new_text: "rs_Text r (rs_NewText r t from_source) = t"
    and plain_text: "\<not> rs_HasExpression r s \<Longrightarrow> run_text s = rs_Text r s"
    and evaluated_text: "rs_HasExpression r s \<Longrightarrow> rs_Evaluate r s = Some v \<Longrightarrow> ScalarString v = Some t \<Longrightarrow> run_text s = t"
    and evaluated_members:
      "rs_Evaluate r s = Some (JObj ms) \<Longrightarrow> run_members s = map (\<lambda>(n, v). (n, ScalarString v)) (sorted_entries ms)"
begin

lemma known_name:
  "rk_state (ResolveKey r s ev) = KeyKnown \<Longrightarrow>
     \<exists>n. rk_name (ResolveKey r s ev) = Some n \<and> rs_Text r n = (if ev then rs_Text r s else run_text s)"
  by (auto simp: ResolveKey_def Let_def new_text plain_text evaluated_text split: option.splits if_splits)

lemma ResolveKey_evaluated [simp]: "rk_evaluated (ResolveKey r s ev) = ev"
  by (auto simp: ResolveKey_def Let_def split: option.splits)

lemma walk_input_pair:
  assumes "rk_state (walk_input r k i) = KeyKnown"
  shows "(entry_pair r run_text) (walk_input r k i) = (run_input r run_text) (k, i) \<and> rk_name (walk_input r k i) \<noteq> None"
proof -
  let ?s = "case in_name i of None \<Rightarrow> rs_NewText r k None | Some s \<Rightarrow> s"
  have "rk_state (ResolveKey r ?s (in_evaluated i)) = KeyKnown"
    using assms by (simp add: walk_input_def make_entry_def Let_def)
  from known_name [OF this] show ?thesis
    by (auto simp: walk_input_def make_entry_def Let_def entry_pair_def run_input_def)
qed

lemma walk_member_pair:
  "rk_state (walk_member r s m) = KeyKnown \<Longrightarrow>
     (entry_pair r run_text) (walk_member r s m) = (fst m, ScalarString (snd m)) \<and> rk_name (walk_member r s m) \<noteq> None"
  by (cases "ScalarString (snd m)")
    (simp_all add: walk_member_def make_entry_def ResolveKey_def Let_def entry_pair_def run_value_def new_text)

lemma map_pairs:
  "(\<And>x. x \<in> set xs \<Longrightarrow> rk_state (f x) = KeyKnown \<Longrightarrow> (entry_pair r run_text) (f x) = g x \<and> rk_name (f x) \<noteq> None)
    \<Longrightarrow> list_all (\<lambda>e. rk_state e = KeyKnown) (map f xs)
    \<Longrightarrow> map (entry_pair r run_text) (map f xs) = map g xs \<and> list_all (\<lambda>e. rk_name e \<noteq> None) (map f xs)"
  by (induction xs) auto

lemma Walk_pairs:
  "snd (Walk r m) \<Longrightarrow>
     map (entry_pair r run_text) (walk_entries (fst (Walk r m))) = run_pairs r run_text run_members m
     \<and> list_all (\<lambda>e. rk_name e \<noteq> None) (walk_entries (fst (Walk r m)))"
proof (induction m)
  case (Inputs vs e ins)
  let ?es = "map (\<lambda>(k, i). walk_input r k i) (sorted_entries vs)"
  obtain xs known where we: "walk_expression r e = (xs, known)" by fastforce
  from Inputs.prems have c: "list_all (\<lambda>e. rk_state e = KeyKnown) ?es" known "\<And>i. i \<in> set ins \<Longrightarrow> snd (Walk r i)"
    by (auto simp: we Let_def list_all_iff)
  have vs: "map (entry_pair r run_text) ?es = map (run_input r run_text) (sorted_entries vs) \<and> list_all (\<lambda>e. rk_name e \<noteq> None) ?es"
    using c(1) walk_input_pair by (intro map_pairs) auto
  have ex: "map (entry_pair r run_text) (walk_entries xs) = (case e of None \<Rightarrow> [] | Some s \<Rightarrow> run_members s)
      \<and> list_all (\<lambda>e. rk_name e \<noteq> None) (walk_entries xs)"
  proof (cases e)
    case None
    then show ?thesis using we by (simp add: walk_expression_def)
  next
    case (Some s)
    with we c(2) obtain ms where ms: "rs_Evaluate r s = Some (JObj ms)"
      by (auto simp: walk_expression_def split: option.splits json.splits)
    let ?ms = "map (walk_member r s) (sorted_entries ms)"
    from ms we c(2) Some have "xs = WalkExpression s # map WalkEntry ?ms" and known: "list_all (\<lambda>e. rk_state e = KeyKnown) ?ms"
      by (auto simp: walk_expression_def Let_def)
    then have x: "walk_entries xs = ?ms" by (simp del: map_map)
    have "map (entry_pair r run_text) ?ms = map (\<lambda>m. (fst m, ScalarString (snd m))) (sorted_entries ms)
        \<and> list_all (\<lambda>e. rk_name e \<noteq> None) ?ms"
      using known walk_member_pair by (intro map_pairs) auto
    then show ?thesis using x Some evaluated_members [OF ms] by (simp add: case_prod_beta')
  qed
  have "map (entry_pair r run_text) (walk_entries (concat (map fst (map (Walk r) ins)))) = concat (map (run_pairs r run_text run_members) ins)
      \<and> list_all (\<lambda>e. rk_name e \<noteq> None) (walk_entries (concat (map fst (map (Walk r) ins))))"
    using Inputs.IH c(3) by (induction ins) auto
  then show ?case using vs ex by (simp add: we Let_def del: map_map)
qed

lemma value_fold:
  assumes "fold (value_step r name) es (v0, f0, k0) = (v, f, True)"
    and "list_all (\<lambda>e. rk_name e \<noteq> None) es"
  shows "k0 \<and> (filter (\<lambda>(n, _). equal_fold n name) (map (entry_pair r run_text) es) = [] \<and> v = v0 \<and> f = f0
      \<or> \<not> f0 \<and> (\<exists>n. filter (\<lambda>(n, _). equal_fold n name) (map (entry_pair r run_text) es) = [(n, Some v)]))"
  using assms
proof (induction es arbitrary: v0 f0 k0)
  case (Cons e es)
  obtain n where n: "rk_name e = Some n" using Cons.prems(2) by auto
  obtain v1 f1 k1 where s: "value_step r name e (v0, f0, k0) = (v1, f1, k1)" by (cases "value_step r name e (v0, f0, k0)")
  have ih: "k1 \<and> (filter (\<lambda>(n, _). equal_fold n name) (map (entry_pair r run_text) es) = [] \<and> v = v1 \<and> f = f1
      \<or> \<not> f1 \<and> (\<exists>n. filter (\<lambda>(n, _). equal_fold n name) (map (entry_pair r run_text) es) = [(n, Some v)]))"
    using Cons.IH [of v1 f1 k1] Cons.prems s by simp
  show ?case
  proof (cases "equal_fold (rs_Text r n) name")
    case False
    then have "(v1, f1, k1) = (v0, f0, k0)" using s n by (simp add: value_step_def)
    then show ?thesis using ih False n by (simp add: entry_pair_def [of r run_text e])
  next
    case True
    then have "f1" and "k1 \<Longrightarrow> k0 \<and> \<not> f0 \<and> run_value r run_text (rk_evaluated e) (me_value e) = Some v1"
      using s n by (auto simp: value_step_def run_value_def plain_text evaluated_text split: option.splits if_splits)
    then show ?thesis using ih True n by (auto simp: entry_pair_def [of r run_text e])
  qed
qed simp

lemma Value_sound:
  assumes "resolver_Value r m name = (v, True)"
  shows "filter (\<lambda>(n, _). equal_fold n name) (run_pairs r run_text run_members m) = [] \<and> v = []
    \<or> (\<exists>n. filter (\<lambda>(n, _). equal_fold n name) (run_pairs r run_text run_members m) = [(n, Some v)])"
proof -
  obtain evs where w: "Walk r m = (evs, True)"
    and f: "\<exists>f. fold (value_step r name) (walk_entries evs) ([], False, True) = (v, f, True)"
    using assms by (auto simp: resolver_Value_def split: prod.splits)
  from Walk_pairs [of m] w have p: "map (entry_pair r run_text) (walk_entries evs) = run_pairs r run_text run_members m"
      "list_all (\<lambda>e. rk_name e \<noteq> None) (walk_entries evs)"
    by simp_all
  from f obtain g where "fold (value_step r name) (walk_entries evs) ([], False, True) = (v, g, True)" by blast
  from value_fold [OF this p(2)] show ?thesis by (auto simp: p(1))
qed

end

end
