(* ===== verification/Workflow_Values.thy ===== *)
theory Workflow_Values
  imports Workflow_Ast Mapping_Spec Eval_Spec
begin

text \<open>
  The values the resolver of a workflow reads from its mappings, against the values a runner
  sees; and the equality of raw YAML values.
\<close>

subsection \<open>Inputs at run time\<close>

text \<open>
  The text of a string at run time. A string that is one expression has the value of the
  expression; \<open>render\<close> stands for the runner's interpolation of all other templates.
\<close>

definition run_string :: "contexts \<Rightarrow> comparison \<Rightarrow> builtins \<Rightarrow> (string \<Rightarrow> string) \<Rightarrow> wstring \<Rightarrow> string" where
  "run_string ctx cmp call render s =
     (if \<not> ws_ContainsExpression s then ws_value s
      else case parseAssignedExpression (ws_value s) of
          None \<Rightarrow> render (ws_value s)
        | Some e \<Rightarrow>
            (case eval ctx cmp call e of
               None \<Rightarrow> render (ws_value s)
             | Some v \<Rightarrow> (case ScalarString v of None \<Rightarrow> render (ws_value s) | Some t \<Rightarrow> t)))"

definition run_members :: "contexts \<Rightarrow> comparison \<Rightarrow> builtins \<Rightarrow> wstring \<Rightarrow> (string \<times> string option) list" where
  "run_members ctx cmp call s =
     (case parseAssignedExpression (ws_value s) of
        None \<Rightarrow> []
      | Some e \<Rightarrow>
          (case eval ctx cmp call e of
             Some (JObj ms) \<Rightarrow> map (\<lambda>(n, v). (n, ScalarString v)) (sorted_entries ms)
           | _ \<Rightarrow> []))"

lemma literal_eval:
  assumes "agrees_compare cmp" and "agrees_call call" and "WorkflowExpressionLiteral s = Some v"
  shows "\<exists>e. parseAssignedExpression (ws_value s) = Some e \<and> eval ctx cmp call e = Some v"
proof -
  from assms(3) obtain e where e: "parseAssignedExpression (ws_value s) = Some e" "ConditionConstantValue e = Some v"
    by (auto simp: WorkflowExpressionLiteral_def split: option.splits)
  show ?thesis using e expression_runner.constant_eval(1) [OF runner [OF assms(1,2)]] by blast
qed

lemma InputResolver_simps [simp]:
  "rs_Text InputResolver = ws_value" "rs_HasExpression InputResolver = ws_ContainsExpression"
  "rs_Evaluate InputResolver = WorkflowExpressionLiteral"
  "ws_value (rs_NewText InputResolver t src) = t"
  by (simp_all add: InputResolver_def split: option.splits)

lemma runtime_inputs:
  assumes "agrees_compare cmp" and "agrees_call call"
  shows "runtime_sources InputResolver (run_string ctx cmp call render) (run_members ctx cmp call)"
proof
  fix s v t
  assume "rs_HasExpression InputResolver s" "rs_Evaluate InputResolver s = Some v" "ScalarString v = Some t"
  then show "run_string ctx cmp call render s = t"
    using literal_eval [OF assms, of s v ctx] by (auto simp: run_string_def)
next
  fix s ms
  assume "rs_Evaluate InputResolver s = Some (JObj ms)"
  then show "run_members ctx cmp call s = map (\<lambda>(n, v). (n, ScalarString v)) (sorted_entries ms)"
    using literal_eval [OF assms, of s "JObj ms" ctx] by (auto simp: run_members_def)
qed (simp_all add: run_string_def)

text \<open>A runner that computes with the package's own folds.\<close>

interpretation folded: runtime_sources InputResolver "run_string ctx fold_compare constant_call render"
    "run_members ctx fold_compare constant_call" for ctx render
  by (rule runtime_inputs [OF agrees_folds])


text \<open>The step passes \<open>Node: ${{ '20' }}\<close> and \<open>cache: npm\<close>.\<close>

definition sample_action :: exec_action where
  "sample_action =
     (let s = (\<lambda>t. \<lparr>ws_value = t, ws_quoted = False, ws_pos = no_pos\<rparr>) in
      \<lparr>ea_uses = Some (s ''actions/setup-node@v4''),
       ea_inputs = [(''node'', \<lparr>ai_name = s ''Node'', ai_value = s (''${{ '' @ [CHR 0x27] @ ''20'' @ [CHR 0x27] @ '' }}''), ai_source = None\<rparr>),
         (''cache'', \<lparr>ai_name = s ''cache'', ai_value = s ''npm'', ai_source = None\<rparr>)],
       ea_expression = None, ea_insertions = [], ea_entrypoint = None, ea_args = None,
       ea_entrypoint_evaluated = False, ea_args_evaluated = False, ea_name_expressions = []\<rparr>)"


subsection \<open>Raw values\<close>

lemma raw_wf_member: "raw_wf (RawYAMLObject ps p) \<Longrightarrow> (n, v) \<in> set ps \<Longrightarrow> raw_wf v"
  by (auto simp: list_all_iff)

lemma f64_eq_refl: "f64_eq x x \<or> x = F64NaN"
  by (cases x) auto

lemma f64_eq_trans: "f64_eq x y \<Longrightarrow> f64_eq y z \<Longrightarrow> f64_eq x z"
  by (cases x; cases y; cases z) auto

lemma f64_eq_NaN [simp]: "f64_eq x F64NaN = False" "f64_eq F64NaN x = False"
  by (cases x; simp)+

lemma scalar_equals_refl [simp]: "scalar_equals a a"
  using f64_eq_refl by (cases a) auto

lemma scalar_equals_sym: "scalar_equals a b \<Longrightarrow> scalar_equals b a"
  using f64_eq_sym by (cases a; cases b) auto

lemma scalar_equals_trans: "scalar_equals a b \<Longrightarrow> scalar_equals b c \<Longrightarrow> scalar_equals a c"
  by (cases a; cases b; cases c) (auto dest: f64_eq_trans)

text \<open>Two maps of the same size, one contained in the other, have the same keys.\<close>

lemma same_keys:
  assumes "distinct (map fst ps)" and "length ps = length qs" and "set (map fst ps) \<subseteq> set (map fst qs)"
  shows "set (map fst qs) = set (map fst ps)"
proof -
  have "card (set (map fst qs)) \<le> card (set (map fst ps))"
    using assms(1,2) card_length [of "map fst qs"] by (metis distinct_card length_map)
  then show ?thesis using assms(3) by (metis List.finite_set card_seteq)
qed

lemma Equals_object:
  assumes "distinct (map fst ps)" and "distinct (map fst qs)"
  shows "Equals (RawYAMLObject ps p) (RawYAMLObject qs q) \<longleftrightarrow>
     length ps = length qs \<and> (\<forall>n. rel_option Equals (map_of ps n) (map_of qs n))"
  (is "?l \<longleftrightarrow> ?r")
proof
  assume l: ?l
  then have len: "length ps = length qs"
    and all: "\<And>n a. (n, a) \<in> set ps \<Longrightarrow> \<exists>b. map_of qs n = Some b \<and> Equals a b"
    by (auto simp: list_all_iff split: option.splits)
  have "set (map fst ps) \<subseteq> set (map fst qs)"
    using all by (force dest: map_of_SomeD)
  then have keys: "set (map fst qs) = set (map fst ps)" by (rule same_keys [OF assms(1) len])
  have "rel_option Equals (map_of ps n) (map_of qs n)" for n
  proof (cases "map_of ps n")
    case None
    then have "n \<notin> fst ` set ps" by (simp add: map_of_eq_None_iff)
    then have "n \<notin> fst ` set qs" using keys by simp
    then have "map_of qs n = None" by (simp add: map_of_eq_None_iff)
    then show ?thesis using None by simp
  next
    case (Some a)
    then show ?thesis using all [OF map_of_SomeD [OF Some]] by auto
  qed
  then show ?r using len by simp
next
  assume ?r
  then have r: "length ps = length qs" "\<And>n. rel_option Equals (map_of ps n) (map_of qs n)" by auto
  have "\<exists>b. map_of qs n = Some b \<and> Equals a b" if "(n, a) \<in> set ps" for n a
    using r(2) [of n] that assms(1) by (auto simp: option_rel_Some1)
  then show ?l using r(1) by (fastforce simp: list_all_iff split: option.splits)
qed

lemma Equals_array:
  "Equals (RawYAMLArray es p) (RawYAMLArray fs q) \<longleftrightarrow> list_all2 Equals es fs"
  by (auto dest: list_all2_lengthD)

lemma Equals_refl: "raw_wf a \<Longrightarrow> Equals a a"
proof (induction a)
  case (RawYAMLObject ps p)
  then have "rel_option Equals (map_of ps n) (map_of ps n)" for n
    by (cases "map_of ps n") (fastforce simp: list_all_iff dest!: map_of_SomeD)+
  then show ?case using RawYAMLObject.prems by (simp only: Equals_object raw_wf.simps) simp
next
  case (RawYAMLArray es p)
  then show ?case by (auto simp: list_all_iff list_all2_same)
qed simp

lemma Equals_sym: "raw_wf a \<Longrightarrow> raw_wf b \<Longrightarrow> Equals a b \<Longrightarrow> Equals b a"
proof (induction a arbitrary: b)
  case (RawYAMLObject ps p)
  then obtain qs q where b: "b = RawYAMLObject qs q" by (auto split: raw_yaml.splits)
  have d: "distinct (map fst ps)" "distinct (map fst qs)" using RawYAMLObject.prems b by auto
  from RawYAMLObject.prems(3) have r: "length ps = length qs" "\<And>n. rel_option Equals (map_of ps n) (map_of qs n)"
    unfolding b Equals_object [OF d] by auto
  have "rel_option Equals (map_of qs n) (map_of ps n)" for n
  proof (cases "map_of ps n")
    case None
    then show ?thesis using r(2) [of n] by simp
  next
    case (Some x)
    then obtain y where y: "map_of qs n = Some y" "Equals x y" using r(2) [of n] by (auto simp: option_rel_Some1)
    have "(n, x) \<in> set ps" "(n, y) \<in> set qs" using Some y by (auto dest: map_of_SomeD)
    then have "Equals y x"
      using RawYAMLObject.IH [of "(n, x)" x y] RawYAMLObject.prems(1,2) y b by (auto simp: list_all_iff)
    then show ?thesis using Some y by simp
  qed
  then show ?case using r(1) unfolding b Equals_object [OF d(2,1)] by simp
next
  case (RawYAMLArray es p)
  then obtain fs q where b: "b = RawYAMLArray fs q" by (auto split: raw_yaml.splits)
  have "list_all2 Equals es fs" using RawYAMLArray.prems(3) unfolding b Equals_array .
  moreover have "Equals y x" if "x \<in> set es" "y \<in> set fs" "Equals x y" for x y
    using RawYAMLArray that b by (auto simp: list_all_iff)
  ultimately have "list_all2 Equals fs es"
    by (auto simp: list_all2_conv_all_nth)
  then show ?case unfolding b Equals_array .
next
  case (RawYAMLString v t p)
  then show ?case by (cases b) (auto intro: scalar_equals_sym)
qed

lemma Equals_trans:
  "raw_wf a \<Longrightarrow> raw_wf b \<Longrightarrow> raw_wf c \<Longrightarrow> Equals a b \<Longrightarrow> Equals b c \<Longrightarrow> Equals a c"
proof (induction a arbitrary: b c)
  case (RawYAMLObject ps p)
  then obtain qs q where b: "b = RawYAMLObject qs q" by (auto split: raw_yaml.splits)
  then obtain rs r where c: "c = RawYAMLObject rs r" using RawYAMLObject.prems(5) by (auto split: raw_yaml.splits)
  have d: "distinct (map fst ps)" "distinct (map fst qs)" "distinct (map fst rs)" using RawYAMLObject.prems b c by auto
  from RawYAMLObject.prems(4,5) have r: "length ps = length qs" "length qs = length rs"
      "\<And>n. rel_option Equals (map_of ps n) (map_of qs n)" "\<And>n. rel_option Equals (map_of qs n) (map_of rs n)"
    unfolding b c Equals_object [OF d(1,2)] Equals_object [OF d(2,3)] by auto
  have "rel_option Equals (map_of ps n) (map_of rs n)" for n
  proof (cases "map_of ps n")
    case None
    then show ?thesis using r(3,4) [of n] by simp
  next
    case (Some x)
    then obtain y z where y: "map_of qs n = Some y" "Equals x y" "map_of rs n = Some z" "Equals y z"
      using r(3,4) [of n] by (auto simp: option_rel_Some1)
    have m: "(n, x) \<in> set ps" "(n, y) \<in> set qs" "(n, z) \<in> set rs" using Some y by (auto dest: map_of_SomeD)
    then have "Equals x z"
      using RawYAMLObject.IH [OF m(1) _ raw_wf_member [OF RawYAMLObject.prems(1) m(1)], of y z] y
        raw_wf_member [OF RawYAMLObject.prems(2) [unfolded b] m(2)] raw_wf_member [OF RawYAMLObject.prems(3) [unfolded c] m(3)]
      by simp
    then show ?thesis using Some y by simp
  qed
  then show ?case using r(1,2) unfolding c Equals_object [OF d(1,3)] by simp
next
  case (RawYAMLArray es p)
  then obtain fs q where b: "b = RawYAMLArray fs q" by (auto split: raw_yaml.splits)
  then obtain gs r where c: "c = RawYAMLArray gs r" using RawYAMLArray.prems(5) by (auto split: raw_yaml.splits)
  have l: "list_all2 Equals es fs" "list_all2 Equals fs gs"
    using RawYAMLArray.prems(4,5) unfolding b c Equals_array by auto
  have "Equals x z" if "x \<in> set es" "y \<in> set fs" "z \<in> set gs" "Equals x y" "Equals y z" for x y z
    using RawYAMLArray.IH [OF that(1), of y z] RawYAMLArray.prems(1-3) that b c by (auto simp: list_all_iff)
  with l have "list_all2 Equals es gs"
    by (auto simp: list_all2_conv_all_nth) (metis nth_mem)
  then show ?case unfolding c Equals_array .
next
  case (RawYAMLString v t p)
  then show ?case by (cases b; cases c) (auto intro: scalar_equals_trans)
qed

text \<open>
  \<open>Equals\<close> is an equivalence on the values of matrix rows, objects and arrays included: what
  duplicate detection and exclusion compare with it is a set of classes. NaN equals itself here,
  and minus zero equals zero, so two spellings of one number are the same combination.
\<close>

theorem Equals_equivalence:
  assumes "raw_wf a" and "raw_wf b" and "raw_wf c"
  shows "Equals a a \<and> (Equals a b = Equals b a) \<and> (Equals a b \<and> Equals b c \<longrightarrow> Equals a c)"
  using assms Equals_refl Equals_sym Equals_trans by blast

definition sample_row :: "string \<Rightarrow> raw_yaml" where
  "sample_row t = RawYAMLObject [(''debug'', RawYAMLArray [RawYAMLString t YamlTagBool no_pos] no_pos)] no_pos"

theorem Equals_equivalence_witness:
  "Equals (sample_row ''true'') (sample_row ''True'') \<and> Equals (sample_row ''True'') (sample_row ''TRUE'')
   \<and> Equals (sample_row ''true'') (sample_row ''TRUE'') \<and> \<not> Equals (sample_row ''true'') (sample_row ''False'')"
proof -
  have w: "raw_wf (sample_row t)" for t by (simp add: sample_row_def)
  have e: "Equals (sample_row ''true'') (sample_row ''True'')"
      "Equals (sample_row ''True'') (sample_row ''TRUE'')"
      "\<not> Equals (sample_row ''true'') (sample_row ''False'')"
    by code_simp+
  then show ?thesis using Equals_equivalence [OF w w w, of "''true''" "''True''" "''TRUE''"] by blast
qed

end
