(* ===== verification/Parse_Monad.thy ===== *)
theory Parse_Monad
  imports Workflow_Ast Yaml_Alias "HOL-Library.State_Monad"
begin

text \<open>
  The effect of the workflow parser: a \<open>Parser\<close> collects errors and goes on. The field
  \<open>Errors\<close> is the state of a state monad, everything else the parser reads is an argument of
  the functions that read it. A message is a constructor of \<open>parse_problem\<close> with the values its
  format prints; the suffix \<open>typeErrorf\<close> adds for an alias is the field \<open>se_alias\<close>.

  \<open>emits\<close> says what a computation does whatever errors there are already, and \<open>spec\<close> what can be
  proved of it: each new error satisfies \<open>P\<close>, the result satisfies \<open>U\<close>, and if there is no new
  error it also satisfies \<open>Q\<close>. The
  rules of \<open>spec\<close> are collected in \<open>spec_rules\<close>.
\<close>

text \<open>What a mapping is in messages: a section, the mapping of a job, an element, or a description.\<close>

datatype mapping_where = Section string | JobMapping string | ElementOf string | Described string

datatype parse_problem =
    UnexpectedKey string string "string list"
  | SectionEmpty string
  | NotSequence string yaml_kind string
  | NotScalarString yaml_kind string
  | EmptyString
  | MissingExpression string
  | NotBoolLiteral yaml_kind string
  | NotBool yaml_kind string
  | NotInt yaml_kind string
  | InvalidInt string
  | NotFloat yaml_kind string
  | InvalidFloat string
  | NaNFloat string
  | MappingEmpty mapping_where
  | NotMapping mapping_where yaml_kind
  | MergeKey
  | InsertedKeyDuplicate string mapping_where source_pos
  | KeyDuplicate string mapping_where source_pos bool
  | CronMissing
  | InvalidDispatchType string
  | InvalidCallType string
  | CallTypeMissing string
  | CallValueMissing string
  | ScheduleNotMapping
  | OnNotMapping yaml_kind
  | DefaultsWithoutRun
  | InvalidQueue string
  | ConcurrencyGroupMissing
  | QueueWithCancel
  | EnvironmentNameMissing
  | RawTagQuoted string
  | RawTagUnknown string
  | RawTagInvalid string string
  | RawUnexpected yaml_kind
  | MaxParallelNotPositive int
  | CredentialsIncomplete
  | ImageMissing string
  | TimeoutNotPositive f64
  | CacheModeNotString yaml_kind string
  | CacheModeUnknown string
  | WaitAllNotTrue
  | WaitAndWaitAll
  | StepWithoutExec
  | SnapshotImageMissing
  | SnapshotUnexpected yaml_kind
  | SecretsNotMapping string
  | UsesWithSteps string string
  | StepsMissing string
  | RunsOnMissing string
  | CallKeyWithoutUses string string
  | WorkflowEmpty
  | OnMissing
  | JobsMissing
  | FlowMappingNull
  | AliasProblem yaml_alias_problem
  | YamlProblem string

record syntax_error =
  se_problem :: parse_problem
  se_pos :: source_pos
  se_alias :: "(string \<times> source_pos) option"

type_synonym 'a parser_m = "(syntax_error list, 'a) state"

subsection \<open>Reports\<close>

definition emit_error :: "syntax_error \<Rightarrow> unit parser_m" where
  "emit_error e = State (\<lambda>es. ((), es @ [e]))"

definition errorAt :: "source_pos \<Rightarrow> parse_problem \<Rightarrow> unit parser_m" where
  "errorAt pos m = emit_error \<lparr>se_problem = m, se_pos = pos, se_alias = None\<rparr>"

definition node_error :: "ynode \<Rightarrow> parse_problem \<Rightarrow> unit parser_m" where
  "node_error n m = errorAt (PosAt n) m"

text \<open>An error about a node that an alias stands for is reported at the alias.\<close>

definition type_error :: "ynode \<Rightarrow> parse_problem \<Rightarrow> syntax_error" where
  "type_error n m =
     (case ni_via (yn_info n) of
        None \<Rightarrow> \<lparr>se_problem = m, se_pos = PosAt n, se_alias = None\<rparr>
      | Some (alias, pos) \<Rightarrow> \<lparr>se_problem = m, se_pos = pos, se_alias = Some (alias, PosAt n)\<rparr>)"

definition typeErrorf :: "ynode \<Rightarrow> parse_problem \<Rightarrow> unit parser_m" where
  "typeErrorf n m = emit_error (type_error n m)"

subsection \<open>Loops\<close>

text \<open>A \<open>for range\<close> loop whose body updates \<open>s\<close>.\<close>

fun for_each :: "'a list \<Rightarrow> ('a \<Rightarrow> 's \<Rightarrow> 's parser_m) \<Rightarrow> 's \<Rightarrow> 's parser_m" where
  "for_each [] f s = State_Monad.return s"
| "for_each (x # xs) f s = do {s' \<leftarrow> f x s; for_each xs f s'}"

lemma for_each_cong [fundef_cong]:
  "xs = ys \<Longrightarrow> s = t \<Longrightarrow> (\<And>x u. x \<in> set ys \<Longrightarrow> f x u = g x u) \<Longrightarrow> for_each xs f s = for_each ys g t"
proof (induction xs arbitrary: ys s t)
  case (Cons x xs)
  then have "for_each xs f u = for_each xs g u" for u by auto
  then have "for_each xs f = for_each xs g" by blast
  then show ?case using Cons.prems by auto
qed simp

text \<open>The results of a function on each element, in order.\<close>

definition collect :: "('a \<Rightarrow> 'b parser_m) \<Rightarrow> 'a list \<Rightarrow> 'b list parser_m" where
  "collect f xs = for_each xs (\<lambda>x acc. do {y \<leftarrow> f x; State_Monad.return (acc @ [y])}) []"

lemma collect_cong [fundef_cong]:
  "xs = ys \<Longrightarrow> (\<And>x. x \<in> set ys \<Longrightarrow> f x = g x) \<Longrightarrow> collect f xs = collect g ys"
  unfolding collect_def by (rule for_each_cong) auto

definition unless :: "bool \<Rightarrow> unit parser_m \<Rightarrow> unit parser_m" where
  "unless b m = (if b then State_Monad.return () else m)"

subsection \<open>What a computation emits\<close>

definition emits :: "'a parser_m \<Rightarrow> 'a \<Rightarrow> syntax_error list \<Rightarrow> bool" where
  "emits m r new \<longleftrightarrow> (\<forall>es. run_state m es = (r, es @ new))"

definition spec :: "(syntax_error \<Rightarrow> bool) \<Rightarrow> 'a parser_m \<Rightarrow> ('a \<Rightarrow> bool) \<Rightarrow> ('a \<Rightarrow> bool) \<Rightarrow> bool" where
  "spec P m U Q \<longleftrightarrow> (\<exists>r new. emits m r new \<and> list_all P new \<and> U r \<and> (new = [] \<longrightarrow> Q r))"

abbreviation anything :: "'a \<Rightarrow> bool" where
  "anything \<equiv> (\<lambda>_. True)"

named_theorems spec_rules

lemma spec_return [spec_rules]: "U x \<Longrightarrow> Q x \<Longrightarrow> spec P (State_Monad.return x) U Q"
  by (auto simp: spec_def emits_def intro!: exI [of _ "[]"])

lemma spec_emit [spec_rules]: "P e \<Longrightarrow> U () \<Longrightarrow> spec P (emit_error e) U Q"
  by (auto simp: spec_def emits_def emit_error_def)

lemma emits_bind: "emits m r new \<Longrightarrow> emits (f r) r' new' \<Longrightarrow> emits (m \<bind> f) r' (new @ new')"
  by (simp add: emits_def)

lemma spec_bind:
  assumes "spec P m V R" and "\<And>r. V r \<Longrightarrow> spec P (f r) U (\<lambda>x. R r \<longrightarrow> Q x)"
  shows "spec P (m \<bind> f) U Q"
proof -
  from assms(1) obtain r new where m: "emits m r new" "list_all P new" "V r" "new = [] \<longrightarrow> R r"
    by (auto simp: spec_def)
  from assms(2) [OF m(3)] obtain r' new' where f: "emits (f r) r' new'" "list_all P new'" "U r'"
      "new' = [] \<longrightarrow> R r \<longrightarrow> Q r'"
    by (auto simp: spec_def)
  have "emits (m \<bind> f) r' (new @ new')" using m(1) f(1) by (rule emits_bind)
  then show ?thesis using m f unfolding spec_def by fastforce
qed

lemma spec_mono:
  assumes "spec P m U Q" and "\<And>e. P e \<Longrightarrow> P' e" and "\<And>x. U x \<Longrightarrow> U' x" and "\<And>x. U x \<Longrightarrow> Q x \<Longrightarrow> Q' x"
  shows "spec P' m U' Q'"
  using assms unfolding spec_def by (metis (mono_tags, lifting) list.pred_mono_strong)

lemma spec_weaken: "spec P m U Q \<Longrightarrow> (\<And>x. U x \<Longrightarrow> U' x) \<Longrightarrow> (\<And>x. U x \<Longrightarrow> Q x \<Longrightarrow> Q' x) \<Longrightarrow> spec P m U' Q'"
  by (rule spec_mono)

lemma spec_if [spec_rules]: "(b \<Longrightarrow> spec P m U Q) \<Longrightarrow> (\<not> b \<Longrightarrow> spec P m' U Q) \<Longrightarrow> spec P (if b then m else m') U Q"
  by simp

lemma spec_let [spec_rules]: "(\<And>x. x = e \<Longrightarrow> spec P (f x) U Q) \<Longrightarrow> spec P (let x = e in f x) U Q"
  by simp

lemma spec_option [spec_rules]:
  "(x = None \<Longrightarrow> spec P m U Q) \<Longrightarrow> (\<And>y. x = Some y \<Longrightarrow> spec P (f y) U Q) \<Longrightarrow> spec P (case x of None \<Rightarrow> m | Some y \<Rightarrow> f y) U Q"
  by (cases x) auto

lemma spec_pair [spec_rules]: "(\<And>a b. x = (a, b) \<Longrightarrow> spec P (f a b) U Q) \<Longrightarrow> spec P (case x of (a, b) \<Rightarrow> f a b) U Q"
  by (cases x) auto

lemma spec_for_each:
  assumes "U s" and "Q s" and "\<And>x s. x \<in> set xs \<Longrightarrow> U s \<Longrightarrow> spec P (f x s) U (\<lambda>s'. Q s \<longrightarrow> Q s')"
  shows "spec P (for_each xs f s) U Q"
proof -
  have "spec P (for_each xs f s) U (\<lambda>s'. Q s \<longrightarrow> Q s')"
    using assms(1,3)
  proof (induction xs arbitrary: s)
    case (Cons x xs)
    have "spec P (for_each xs f r) U (\<lambda>x. (Q s \<longrightarrow> Q r) \<longrightarrow> Q s \<longrightarrow> Q x)" if "U r" for r
      by (rule spec_weaken [OF Cons.IH [OF that]]) (use Cons.prems in auto)
    moreover have "spec P (f x s) U (\<lambda>s'. Q s \<longrightarrow> Q s')" using Cons.prems by simp
    ultimately show ?case unfolding for_each.simps by (rule spec_bind [rotated])
  qed (simp add: spec_return)
  then show ?thesis using assms(2) by simp
qed

text \<open>A loop that appends the result for each element to what it has, or drops it.\<close>

lemma spec_collect:
  assumes "\<And>x. x \<in> set xs \<Longrightarrow> spec P (f x) anything R"
  shows "spec P (collect f xs) anything (\<lambda>ys. length ys = length xs \<and> list_all R ys)"
proof -
  have "spec P (for_each xs (\<lambda>x acc. do {y \<leftarrow> f x; State_Monad.return (acc @ [y])}) acc) anything
      (\<lambda>ys. list_all R acc \<longrightarrow> length ys = length acc + length xs \<and> list_all R ys)" for acc
    using assms
  proof (induction xs arbitrary: acc)
    case (Cons x xs)
    have fx: "spec P (f x) anything R" using Cons.prems by simp
    show ?case
      unfolding for_each.simps bind_assoc bind_left_identity
    proof (rule spec_bind [OF fx])
      fix y
      show "spec P (for_each xs (\<lambda>x acc. do {y \<leftarrow> f x; State_Monad.return (acc @ [y])}) (acc @ [y])) anything
          (\<lambda>ys. R y \<longrightarrow> list_all R acc \<longrightarrow> length ys = length acc + length (x # xs) \<and> list_all R ys)"
        by (rule spec_weaken [OF Cons.IH [of "acc @ [y]"]]) (use Cons.prems in auto)
    qed
  qed (auto intro: spec_return)
  from this [of "[]"] show ?thesis by (simp add: collect_def)
qed

lemma spec_unless [spec_rules]:
  "U () \<Longrightarrow> (b \<Longrightarrow> Q ()) \<Longrightarrow> (\<not> b \<Longrightarrow> spec P m U Q) \<Longrightarrow> spec P (unless b m) U Q"
  by (simp add: unless_def spec_return)

lemma spec_emitsD: "spec P m U Q \<Longrightarrow> run_state m [] = (r, es) \<Longrightarrow> emits m r es \<and> list_all P es \<and> U r \<and> (es = [] \<longrightarrow> Q r)"
  unfolding spec_def emits_def by (metis append_Nil prod.inject)

end
