(* ===== verification/Node_Parse.thy ===== *)
theory Node_Parse
  imports Parse_Monad
begin

text \<open>
  How the workflow parser reads single nodes and mappings (\<open>internal/workflow/parse.go\<close>):
  strings, booleans, integers and floats with the checks of their tags, and the entries of a
  mapping with duplicate keys, merge keys and mapping insertions. The iterator
  \<open>parseMappingEntries\<close> yields entries and reports errors in between; it is the list of what it
  does, and \<open>for_entries\<close> is the loop over it. What its body does cannot influence the iterator,
  and no body leaves its loop early.
\<close>

subsection \<open>Tags\<close>

definition newString :: "ynode \<Rightarrow> wstring" where
  "newString n =
     \<lparr>ws_value = yn_value n, ws_quoted = has_style n [DoubleQuotedStyle, SingleQuotedStyle], ws_pos = PosAt n\<rparr>"

definition core_schema_value :: "string \<Rightarrow> string \<Rightarrow> bool option" where
  "core_schema_value tag v =
     (if tag = YamlTagBool then Some (IsCoreSchemaBool v)
      else if tag = YamlTagNull then Some (IsCoreSchemaNull v)
      else if tag = YamlTagInt then Some (IsCoreSchemaInt v)
      else if tag = YamlTagFloat then Some (IsCoreSchemaFloat v)
      else None)"

definition RawYAMLTagError :: "ynode \<Rightarrow> parse_problem option" where
  "RawYAMLTagError n =
     (if yn_kind n \<noteq> ScalarNode \<or> \<not> has_style n [TaggedStyle] \<or> yn_tag n = YamlTagStr then None
      else if has_style n [DoubleQuotedStyle, SingleQuotedStyle, LiteralStyle, FoldedStyle]
      then Some (RawTagQuoted (yn_tag n))
      else case core_schema_value (yn_tag n) (yn_value n) of
          None \<Rightarrow> Some (RawTagUnknown (yn_tag n))
        | Some ok \<Rightarrow> if ok then None else Some (RawTagInvalid (yn_value n) (yn_tag n)))"

definition plain_error :: "ynode \<Rightarrow> parse_problem \<Rightarrow> syntax_error" where
  "plain_error n m = \<lparr>se_problem = m, se_pos = PosAt n, se_alias = None\<rparr>"

definition raw_tag_error :: "ynode \<Rightarrow> syntax_error option" where
  "raw_tag_error n = map_option (plain_error n) (RawYAMLTagError n)"

fun checkRawYAMLTags :: "ynode \<Rightarrow> syntax_error list" where
  "checkRawYAMLTags (YNode i cs) =
     (case raw_tag_error (YNode i cs) of None \<Rightarrow> [] | Some e \<Rightarrow> [e]) @ concat (map checkRawYAMLTags cs)"

text \<open>The boolean result of a check that reports at most one error.\<close>

definition check_with :: "syntax_error option \<Rightarrow> bool parser_m" where
  "check_with r =
     (case r of
        None \<Rightarrow> State_Monad.return True
      | Some e \<Rightarrow> do {emit_error e; State_Monad.return False})"

definition checkRawYAMLTag :: "ynode \<Rightarrow> bool parser_m" where
  "checkRawYAMLTag n = check_with (raw_tag_error n)"

subsection \<open>Checks\<close>

definition unexpectedKey :: "wstring \<Rightarrow> string \<Rightarrow> string list \<Rightarrow> unit parser_m" where
  "unexpectedKey s sec expected = errorAt (ws_pos s) (UnexpectedKey (ws_value s) sec expected)"

definition checkNotEmpty :: "string \<Rightarrow> nat \<Rightarrow> ynode \<Rightarrow> bool parser_m" where
  "checkNotEmpty sec count n = check_with (if count = 0 then Some (plain_error n (SectionEmpty sec)) else None)"

definition checkSequence :: "string \<Rightarrow> ynode \<Rightarrow> bool \<Rightarrow> bool parser_m" where
  "checkSequence sec n allowEmpty =
     (if yn_kind n \<noteq> SequenceNode
      then check_with (Some (type_error n (NotSequence sec (yn_kind n) (yn_tag n))))
      else if allowEmpty then State_Monad.return True
      else checkNotEmpty sec (length (yn_content n)) n)"

definition string_error :: "ynode \<Rightarrow> bool \<Rightarrow> syntax_error option" where
  "string_error n allowEmpty =
     (if yn_kind n \<noteq> ScalarNode then Some (type_error n (NotScalarString (yn_kind n) (yn_tag n)))
      else case raw_tag_error n of
          Some e \<Rightarrow> Some e
        | None \<Rightarrow> if \<not> allowEmpty \<and> yn_value n = [] then Some (plain_error n EmptyString) else None)"

definition CheckString :: "ynode \<Rightarrow> bool \<Rightarrow> bool parser_m" where
  "CheckString n allowEmpty = check_with (string_error n allowEmpty)"

subsection \<open>Strings\<close>

definition missingExpression :: "ynode \<Rightarrow> string \<Rightarrow> unit parser_m" where
  "missingExpression n expecting = typeErrorf n (MissingExpression expecting)"

definition parseExpressionNode :: "ynode \<Rightarrow> string \<Rightarrow> wstring option parser_m" where
  "parseExpressionNode n expecting =
     (if \<not> IsExprAssigned (yn_value n) then do {missingExpression n expecting; State_Monad.return None}
      else State_Monad.return (Some (newString n)))"

definition mayParseExpression :: "ynode \<Rightarrow> wstring option" where
  "mayParseExpression n =
     (if yn_tag n \<noteq> YamlTagStr \<or> \<not> IsExprAssigned (yn_value n) then None else Some (newString n))"

definition parseStringNode :: "ynode \<Rightarrow> bool \<Rightarrow> wstring parser_m" where
  "parseStringNode n allowEmpty = do {
     ok \<leftarrow> CheckString n allowEmpty;
     State_Monad.return (if ok then newString n else \<lparr>ws_value = [], ws_quoted = False, ws_pos = PosAt n\<rparr>)}"

definition parseCondition :: "ynode \<Rightarrow> wstring parser_m" where
  "parseCondition n = do {
     s \<leftarrow> parseStringNode n True;
     let s = (if yn_tag n = YamlTagNull then s\<lparr>ws_value := []\<rparr> else s);
     State_Monad.return (if trim_space (ws_value s) = [] then s\<lparr>ws_value := ''success()''\<rparr> else s)}"

definition parseStaticString :: "ynode \<Rightarrow> wstring parser_m" where
  "parseStaticString n =
     (case literalExpressionValue (yn_value n) of
        Some v \<Rightarrow> parseStringNode (with_value v n) False
      | None \<Rightarrow> parseStringNode n False)"

definition parseStringSequence :: "string \<Rightarrow> ynode \<Rightarrow> bool \<Rightarrow> wstring list parser_m" where
  "parseStringSequence sec n allowEmpty = do {
     ok \<leftarrow> checkSequence sec n allowEmpty;
     if ok then collect (\<lambda>c. parseStringNode c False) (yn_content n) else State_Monad.return []}"

definition parseStringOrStringSequence :: "string \<Rightarrow> ynode \<Rightarrow> wstring list parser_m" where
  "parseStringOrStringSequence sec n =
     (if yn_kind n = ScalarNode then do {s \<leftarrow> parseStringNode n False; State_Monad.return [s]}
      else parseStringSequence sec n False)"

subsection \<open>Booleans and numbers\<close>

definition parseBool :: "ynode \<Rightarrow> wbool option parser_m" where
  "parseBool n =
     (if yn_kind n \<noteq> ScalarNode \<or> yn_tag n \<noteq> YamlTagBool \<and> yn_tag n \<noteq> YamlTagStr
      then do {typeErrorf n (NotBool (yn_kind n) (yn_tag n)); State_Monad.return None}
      else do {
        ok \<leftarrow> checkRawYAMLTag n;
        if \<not> ok then State_Monad.return None
        else if yn_tag n = YamlTagStr then do {
          e \<leftarrow> parseExpressionNode n ''boolean literal true or false'';
          State_Monad.return (Some \<lparr>wb_value = False, wb_expr = e, wb_pos = PosAt n\<rparr>)}
        else State_Monad.return
          (Some \<lparr>wb_value = equal_fold (yn_value n) ''true'', wb_expr = None, wb_pos = PosAt n\<rparr>)})"

definition parseLiteralBool :: "ynode \<Rightarrow> wbool option parser_m" where
  "parseLiteralBool n =
     (if yn_kind n \<noteq> ScalarNode \<or> yn_tag n \<noteq> YamlTagBool
      then do {typeErrorf n (NotBoolLiteral (yn_kind n) (yn_tag n)); State_Monad.return None}
      else parseBool n)"

text \<open>\<open>strconv.ParseUint(s, base, 32)\<close>.\<close>

definition parse_uint32 :: "nat \<Rightarrow> string \<Rightarrow> nat option" where
  "parse_uint32 base s =
     (if s = [] then None
      else case parse_digits base 0 s of
          None \<Rightarrow> None
        | Some n \<Rightarrow> if n < 2 ^ 32 then Some n else None)"

definition parseYAMLInteger :: "string \<Rightarrow> int option" where
  "parseYAMLInteger v =
     (if \<not> has_prefix v ''0x'' \<and> \<not> has_prefix v ''0o'' then atoi v
      else if \<not> IsCoreSchemaInt v then None
      else case parse_uint32 (if has_prefix v ''0x'' then 16 else 8) (drop 2 v) of
          None \<Rightarrow> None
        | Some n \<Rightarrow> if int n \<le> 2 ^ 31 - 1 then Some (int n) else Some (- 1 - (2 ^ 32 - 1 - int n)))"

definition parseIntNode :: "ynode \<Rightarrow> wint option parser_m" where
  "parseIntNode n =
     (if yn_kind n \<noteq> ScalarNode \<or> yn_tag n \<noteq> YamlTagInt \<and> yn_tag n \<noteq> YamlTagStr
      then do {typeErrorf n (NotInt (yn_kind n) (yn_tag n)); State_Monad.return None}
      else do {
        ok \<leftarrow> checkRawYAMLTag n;
        if \<not> ok then State_Monad.return None
        else if yn_tag n = YamlTagStr then do {
          e \<leftarrow> parseExpressionNode n ''integer literal'';
          State_Monad.return (map_option (\<lambda>e. \<lparr>wi_value = 0, wi_expr = Some e, wi_pos = PosAt n\<rparr>) e)}
        else case parseYAMLInteger (yn_value n) of
            None \<Rightarrow> do {node_error n (InvalidInt (yn_value n)); State_Monad.return None}
          | Some i \<Rightarrow> State_Monad.return (Some \<lparr>wi_value = i, wi_expr = None, wi_pos = PosAt n\<rparr>)})"

text \<open>
  \<open>strconv.ParseFloat(s, 64)\<close> with the names of infinities and NaN. Hexadecimal floats, which
  it also reads, need a sign before the \<open>0x\<close> to come here, and no resolver of YAML tags such a
  value a number; they are left out.
\<close>

definition go_parse_float :: "string \<Rightarrow> f64 option" where
  "go_parse_float s =
     (let l = to_lower s; neg = has_prefix l ''-''; u = (if neg \<or> has_prefix l ''+'' then drop 1 l else l) in
      if u = ''inf'' \<or> u = ''infinity'' then Some (F64Inf neg)
      else if l = ''nan'' then Some F64NaN
      else case parse_float s of Some (x, True) \<Rightarrow> Some x | _ \<Rightarrow> None)"

definition float_value :: "string \<Rightarrow> f64 option" where
  "float_value v =
     (if has_prefix v ''0x'' \<or> has_prefix v ''0o'' then map_option f64_of_int (parseYAMLInteger v)
      else go_parse_float v)"

definition parseFloatNode :: "ynode \<Rightarrow> wfloat option parser_m" where
  "parseFloatNode n =
     (if yn_kind n \<noteq> ScalarNode \<or> yn_tag n \<noteq> YamlTagFloat \<and> yn_tag n \<noteq> YamlTagInt \<and> yn_tag n \<noteq> YamlTagStr
      then do {typeErrorf n (NotFloat (yn_kind n) (yn_tag n)); State_Monad.return None}
      else do {
        ok \<leftarrow> checkRawYAMLTag n;
        if \<not> ok then State_Monad.return None
        else if yn_tag n = YamlTagStr then do {
          e \<leftarrow> parseExpressionNode n ''float number literal'';
          State_Monad.return (map_option (\<lambda>e. \<lparr>wf_value = F64Fin False 0, wf_expr = Some e, wf_pos = PosAt n\<rparr>) e)}
        else case float_value (yn_value n) of
            None \<Rightarrow> do {node_error n (InvalidFloat (yn_value n)); State_Monad.return None}
          | Some f \<Rightarrow>
              if f = F64NaN then do {node_error n (NaNFloat (yn_value n)); State_Monad.return None}
              else State_Monad.return (Some \<lparr>wf_value = f, wf_expr = None, wf_pos = PosAt n\<rparr>)})"

subsection \<open>Mappings\<close>

record map_entry =
  ent_id :: string
  ent_key :: wstring
  ent_val :: ynode

datatype mapping_item = ItemError syntax_error | ItemEntry map_entry

type_synonym seen_keys = "(string \<times> source_pos) list"

definition key_id :: "bool \<Rightarrow> ynode \<Rightarrow> string" where
  "key_id caseSensitive n = (if caseSensitive then yn_value n else to_lower (yn_value n))"

definition knownInsertedMappingKeys :: "ynode \<Rightarrow> (string \<times> wstring) list" where
  "knownInsertedMappingKeys n = InsertedKeys InputResolver newString isMappingInsertion n []"

definition knownMappingKey :: "wstring \<Rightarrow> wstring option" where
  "knownMappingKey s = resolver_Key InputResolver s"

text \<open>The loop over the keys an insertion is known to add.\<close>

fun inserted_items :: "mapping_where \<Rightarrow> (string \<times> wstring) list \<Rightarrow> seen_keys \<Rightarrow> mapping_item list \<times> seen_keys" where
  "inserted_items sec [] keys = ([], keys)"
| "inserted_items sec ((name, s) # rest) keys =
     (case map_of keys name of
        Some previous \<Rightarrow>
          (case inserted_items sec rest keys of (items, keys') \<Rightarrow>
             (ItemError \<lparr>se_problem = InsertedKeyDuplicate (ws_value s) sec previous, se_pos = ws_pos s, se_alias = None\<rparr> # items, keys'))
      | None \<Rightarrow> inserted_items sec rest (al_put name (ws_pos s) keys))"

definition key_node :: "bool \<Rightarrow> ynode \<Rightarrow> ynode" where
  "key_node insertions k = (if insertions then KeyNode InputResolver newString k else k)"

text \<open>
  The body of the loop over the pairs of keys and values: the items, whether the mapping is
  filled now (\<open>empty\<close> is false), and the keys seen.
\<close>

definition entry_step :: "mapping_where \<Rightarrow> bool \<Rightarrow> bool \<Rightarrow> ynode \<times> ynode \<Rightarrow> seen_keys \<Rightarrow> mapping_item list \<times> bool \<times> seen_keys" where
  "entry_step sec cs ins = (\<lambda>(kn, vn) keys.
     let n = key_node ins kn; k = newString kn; key = key_id cs n;
         entry = ItemEntry \<lparr>ent_id = key, ent_key = k, ent_val = vn\<rparr>
     in case string_error n False of
         Some e \<Rightarrow> (ItemError e # map ItemError (checkRawYAMLTags vn), True, keys)
       | None \<Rightarrow>
           if ws_value k = ''<<'' then
             ([ItemError \<lparr>se_problem = MergeKey, se_pos = ws_pos k, se_alias = None\<rparr>], False, keys)
           else if ins \<and> isMappingInsertion (ws_value k) then
             (case inserted_items sec (sorted_entries (knownInsertedMappingKeys vn)) keys of
                (items, keys') \<Rightarrow> (entry # items, True, keys'))
           else (case map_of keys key of
               Some pos \<Rightarrow>
                 ([ItemError \<lparr>se_problem = KeyDuplicate (ws_value k) sec pos (\<not> cs), se_pos = ws_pos k, se_alias = None\<rparr>], False, keys)
             | None \<Rightarrow> ([entry], True, al_put key (ws_pos k) keys)))"

fun entry_items :: "mapping_where \<Rightarrow> bool \<Rightarrow> bool \<Rightarrow> (ynode \<times> ynode) list \<Rightarrow> seen_keys \<Rightarrow> mapping_item list \<times> bool" where
  "entry_items sec cs ins [] keys = ([], False)"
| "entry_items sec cs ins (p # ps) keys =
     (case entry_step sec cs ins p keys of
        (items, filled, keys') \<Rightarrow>
          (case entry_items sec cs ins ps keys' of (rest, f) \<Rightarrow> (items @ rest, filled \<or> f)))"

text \<open>\<open>parseMappingEntries\<close>.\<close>

definition mapping_items :: "mapping_where \<Rightarrow> ynode \<Rightarrow> bool \<Rightarrow> bool \<Rightarrow> bool \<Rightarrow> mapping_item list" where
  "mapping_items sec n allowEmpty cs ins =
     (let empty = ItemError (plain_error n (MappingEmpty sec)) in
      if yn_kind n = ScalarNode \<and> yn_tag n = YamlTagNull then (if allowEmpty then [] else [empty])
      else if yn_kind n \<noteq> MappingNode then [ItemError (type_error n (NotMapping sec (yn_kind n)))]
      else case entry_items sec cs ins (node_pairs (yn_content n)) [] of
          (items, filled) \<Rightarrow> items @ (if \<not> allowEmpty \<and> \<not> filled then [empty] else []))"

definition parseMapping :: "mapping_where \<Rightarrow> ynode \<Rightarrow> bool \<Rightarrow> bool \<Rightarrow> mapping_item list" where
  "parseMapping sec n allowEmpty cs = mapping_items sec n allowEmpty cs False"

definition parseSectionMapping :: "string \<Rightarrow> ynode \<Rightarrow> bool \<Rightarrow> bool \<Rightarrow> mapping_item list" where
  "parseSectionMapping section n allowEmpty cs = parseMapping (Section section) n allowEmpty cs"

definition parseMappingAt :: "string \<Rightarrow> ynode \<Rightarrow> bool \<Rightarrow> bool \<Rightarrow> mapping_item list" where
  "parseMappingAt described n allowEmpty cs = parseMapping (Described described) n allowEmpty cs"

text \<open>The loop over the entries.\<close>

definition for_entries :: "mapping_item list \<Rightarrow> (map_entry \<Rightarrow> 's \<Rightarrow> 's parser_m) \<Rightarrow> 's \<Rightarrow> 's parser_m" where
  "for_entries items f s =
     for_each items (\<lambda>i s. case i of
         ItemError e \<Rightarrow> do {emit_error e; State_Monad.return s}
       | ItemEntry e \<Rightarrow> f e s) s"

lemma for_entries_cong [fundef_cong]:
  "is = js \<Longrightarrow> s = t \<Longrightarrow> (\<And>e u. ItemEntry e \<in> set js \<Longrightarrow> f e u = g e u) \<Longrightarrow> for_entries is f s = for_entries js g t"
  unfolding for_entries_def by (rule for_each_cong) (auto split: mapping_item.split)

text \<open>The entries an iterator yields.\<close>

definition item_entries :: "mapping_item list \<Rightarrow> map_entry list" where
  "item_entries items = concat (map (\<lambda>i. case i of ItemError _ \<Rightarrow> [] | ItemEntry e \<Rightarrow> [e]) items)"

lemma item_entries_mem [simp]: "e \<in> set (item_entries items) \<longleftrightarrow> ItemEntry e \<in> set items"
  by (force simp: item_entries_def split: mapping_item.splits)

text \<open>The value of an entry is a node of the content of its mapping.\<close>

lemma inserted_items_errors: "ItemEntry e \<notin> set (fst (inserted_items sec xs keys))"
  by (induction sec xs keys rule: inserted_items.induct) (auto split: option.splits prod.splits)

lemma entry_step_mem: "ItemEntry e \<in> set (fst (entry_step sec cs ins p keys)) \<Longrightarrow> ent_val e = snd p"
proof -
  have i: "ItemEntry e \<notin> set items" if "inserted_items sec xs keys = (items, ks)" for xs items ks
    using that inserted_items_errors [of e sec xs keys] by simp
  assume "ItemEntry e \<in> set (fst (entry_step sec cs ins p keys))"
  then show ?thesis
    by (cases p) (auto simp: entry_step_def Let_def i split: option.splits prod.splits if_splits)
qed

lemma entry_items_mem: "ItemEntry e \<in> set (fst (entry_items sec cs ins ps keys)) \<Longrightarrow> ent_val e \<in> snd ` set ps"
proof (induction sec cs ins ps keys rule: entry_items.induct)
  case (2 sec cs ins p ps keys)
  then show ?case using entry_step_mem [of e sec cs ins p keys] by (auto split: prod.splits)
qed simp

lemma mapping_items_mem: "ItemEntry e \<in> set (mapping_items sec n allowEmpty cs ins) \<Longrightarrow> ent_val e \<in> set (yn_content n)"
proof -
  assume "ItemEntry e \<in> set (mapping_items sec n allowEmpty cs ins)"
  then have "ItemEntry e \<in> set (fst (entry_items sec cs ins (node_pairs (yn_content n)) []))"
    by (cases "entry_items sec cs ins (node_pairs (yn_content n)) []")
      (auto simp: mapping_items_def Let_def split: if_splits)
  from entry_items_mem [OF this] show ?thesis by (auto dest: node_pairs_mem)
qed

lemma item_size [simp]: "ItemEntry e \<in> set (mapping_items sec n allowEmpty cs ins) \<Longrightarrow> size (ent_val e) < size n"
  using mapping_items_mem content_size by blast

end
