(* ===== verification/Event_Parse.thy ===== *)
theory Event_Parse
  imports Node_Parse
begin

text \<open>
  The \<open>on\<close> section of a workflow: every kind of trigger and its configuration
  (\<open>internal/workflow/parse.go\<close>, \<open>parseScheduleEvent\<close> to \<open>parseEvents\<close>). A \<open>switch\<close> on the key
  of an entry is a chain of conditionals in the order of the cases.
\<close>

abbreviation ret :: "'a \<Rightarrow> 'a parser_m" where
  "ret \<equiv> State_Monad.return"

subsection \<open>Schedules\<close>

definition schedule_element :: string where
  "schedule_element = ''element of schedule section''"

definition parseScheduleEntry :: "ynode \<Rightarrow> (schedule_entry \<times> bool) parser_m" where
  "parseScheduleEntry c =
     for_entries (parseMappingAt schedule_element c False True)
       (\<lambda>e (entry, given).
          if ent_id e = ''cron'' then do {
            s \<leftarrow> parseStringNode (ent_val e) False;
            ret (if ws_value s \<noteq> [] then entry\<lparr>sc_cron := Some s\<rparr> else entry, True)}
          else if ent_id e = ''timezone'' then do {
            s \<leftarrow> parseStringNode (ent_val e) False;
            ret (if ws_value s \<noteq> [] then entry\<lparr>sc_timezone := Some s\<rparr> else entry, given)}
          else do {
            unexpectedKey (ent_key e) schedule_element [''cron'', ''timezone''];
            ret (entry, given)})
       (\<lparr>sc_cron = None, sc_timezone = None\<rparr>, False)"

definition parseScheduleEvent :: "source_pos \<Rightarrow> ynode \<Rightarrow> wf_event option parser_m" where
  "parseScheduleEvent pos n = do {
     ok \<leftarrow> checkSequence ''schedule'' n False;
     if \<not> ok then ret None
     else do {
       schedules \<leftarrow> for_each (yn_content n) (\<lambda>c acc. do {
         (entry, cronGiven) \<leftarrow> parseScheduleEntry c;
         if sc_cron entry \<noteq> None then ret (acc @ [entry])
         else do {
           unless (cronGiven \<or> yn_kind c \<noteq> MappingNode \<or> yn_content c = []) (node_error c CronMissing);
           ret acc}}) [];
       ret (Some (ScheduledEvent schedules pos))}}"

subsection \<open>Manual triggers\<close>

definition dispatch_type :: "string \<Rightarrow> dispatch_input_type option" where
  "dispatch_type s =
     (if s = ''string'' then Some DispatchString
      else if s = ''number'' then Some DispatchNumber
      else if s = ''boolean'' then Some DispatchBoolean
      else if s = ''choice'' then Some DispatchChoice
      else if s = ''environment'' then Some DispatchEnvironment
      else None)"

definition parseWorkflowDispatchEventInput :: "wstring \<Rightarrow> ynode \<Rightarrow> dispatch_input parser_m" where
  "parseWorkflowDispatchEventInput name n =
     for_entries (parseMappingAt ''input settings of workflow_dispatch event'' n True True)
       (\<lambda>e r.
          if ent_id e = ''description'' then do {
            s \<leftarrow> parseStringNode (ent_val e) True; ret (r\<lparr>di_description := Some s\<rparr>)}
          else if ent_id e = ''required'' then do {
            b \<leftarrow> parseLiteralBool (ent_val e); ret (r\<lparr>di_required := b\<rparr>)}
          else if ent_id e = ''default'' then do {
            s \<leftarrow> parseStringNode (ent_val e) True; ret (r\<lparr>di_default := Some s\<rparr>)}
          else if ent_id e = ''type'' then do {
            ok \<leftarrow> CheckString (ent_val e) False;
            if \<not> ok then ret r
            else case dispatch_type (yn_value (ent_val e)) of
                Some t \<Rightarrow> ret (r\<lparr>di_type := t\<rparr>)
              | None \<Rightarrow> do {
                  node_error (ent_val e) (InvalidDispatchType (yn_value (ent_val e)));
                  ret r}}
          else if ent_id e = ''options'' then do {
            ok \<leftarrow> checkSequence ''options'' (ent_val e) False;
            if ok then do {
              os \<leftarrow> collect (\<lambda>c. parseStringNode c True) (yn_content (ent_val e));
              ret (r\<lparr>di_options := di_options r @ os\<rparr>)}
            else ret r}
          else do {
            unexpectedKey (ent_key e) ''inputs'' [''description'', ''required'', ''default'', ''type'', ''options''];
            ret r})
       \<lparr>di_name = name, di_description = None, di_required = None, di_default = None,
        di_type = DispatchNone, di_options = []\<rparr>"

text \<open>A map section: every entry is put under its id.\<close>

definition parse_map :: "mapping_item list \<Rightarrow> (map_entry \<Rightarrow> 'a parser_m) \<Rightarrow> (string \<times> 'a) list parser_m" where
  "parse_map items f = for_entries items (\<lambda>e m. do {x \<leftarrow> f e; ret (al_put (ent_id e) x m)}) []"

lemma parse_map_cong [fundef_cong]:
  "is = js \<Longrightarrow> (\<And>e. ItemEntry e \<in> set js \<Longrightarrow> f e = g e) \<Longrightarrow> parse_map is f = parse_map js g"
  unfolding parse_map_def by (rule for_entries_cong) auto

definition parseWorkflowDispatchEvent :: "source_pos \<Rightarrow> ynode \<Rightarrow> wf_event parser_m" where
  "parseWorkflowDispatchEvent pos n = do {
     inputs \<leftarrow> for_entries (parseSectionMapping ''workflow_dispatch'' n True True)
       (\<lambda>e inputs.
          if ent_id e \<noteq> ''inputs'' then do {
            unexpectedKey (ent_key e) ''workflow_dispatch'' [''inputs''];
            ret inputs}
          else parse_map (parseSectionMapping ''inputs'' (ent_val e) True False)
            (\<lambda>e. parseWorkflowDispatchEventInput (ent_key e) (ent_val e)))
       [];
     ret (WorkflowDispatchEvent inputs pos)}"

definition parseRepositoryDispatchEvent :: "source_pos \<Rightarrow> ynode \<Rightarrow> wf_event parser_m" where
  "parseRepositoryDispatchEvent pos n = do {
     types \<leftarrow> for_entries (parseSectionMapping ''repository_dispatch'' n True True)
       (\<lambda>e types.
          if ent_id e = ''types'' then parseStringOrStringSequence ''types'' (ent_val e)
          else do {
            unexpectedKey (ent_key e) ''repository_dispatch'' [''types''];
            ret types})
       [];
     ret (RepositoryDispatchEvent types pos)}"

subsection \<open>Webhooks\<close>

definition parseWebhookEventFilter :: "wstring \<Rightarrow> ynode \<Rightarrow> event_filter parser_m" where
  "parseWebhookEventFilter name n = do {
     v \<leftarrow> parseStringOrStringSequence (ws_value name) n;
     ret \<lparr>ef_name = name, ef_values = v\<rparr>}"

definition webhook_keys :: "string list" where
  "webhook_keys = [''types'', ''branches'', ''branches-ignore'', ''tags'', ''tags-ignore'', ''paths'',
     ''paths-ignore'', ''workflows'']"

definition set_filter :: "string \<Rightarrow> event_filter \<Rightarrow> webhook_event \<Rightarrow> webhook_event" where
  "set_filter key f r =
     (if key = ''branches'' then r\<lparr>we_branches := Some f\<rparr>
      else if key = ''branches-ignore'' then r\<lparr>we_branches_ignore := Some f\<rparr>
      else if key = ''tags'' then r\<lparr>we_tags := Some f\<rparr>
      else if key = ''tags-ignore'' then r\<lparr>we_tags_ignore := Some f\<rparr>
      else if key = ''paths'' then r\<lparr>we_paths := Some f\<rparr>
      else r\<lparr>we_paths_ignore := Some f\<rparr>)"

definition empty_webhook :: "wstring \<Rightarrow> source_pos \<Rightarrow> webhook_event" where
  "empty_webhook name pos =
     \<lparr>we_hook = name, we_types = [], we_branches = None, we_branches_ignore = None, we_tags = None,
      we_tags_ignore = None, we_paths = None, we_paths_ignore = None, we_workflows = [], we_pos = pos\<rparr>"

definition parseWebhookEvent :: "wstring \<Rightarrow> ynode \<Rightarrow> webhook_event parser_m" where
  "parseWebhookEvent name n =
     for_entries (parseSectionMapping (ws_value name) n True True)
       (\<lambda>e r.
          if ent_id e = ''types'' then do {
            v \<leftarrow> parseStringOrStringSequence (ws_value (ent_key e)) (ent_val e); ret (r\<lparr>we_types := v\<rparr>)}
          else if ent_id e \<in> set [''branches'', ''branches-ignore'', ''tags'', ''tags-ignore'', ''paths'', ''paths-ignore''] then do {
            f \<leftarrow> parseWebhookEventFilter (ent_key e) (ent_val e); ret (set_filter (ent_id e) f r)}
          else if ent_id e = ''workflows'' then do {
            v \<leftarrow> parseStringOrStringSequence (ws_value (ent_key e)) (ent_val e); ret (r\<lparr>we_workflows := v\<rparr>)}
          else do {unexpectedKey (ent_key e) (ws_value name) webhook_keys; ret r})
       (empty_webhook name (ws_pos name))"

subsection \<open>Reusable workflows\<close>

definition call_type :: "string \<Rightarrow> call_input_type option" where
  "call_type s =
     (if s = ''boolean'' then Some CallBoolean
      else if s = ''number'' then Some CallNumber
      else if s = ''string'' then Some CallString
      else None)"

definition parseWorkflowCallEventInput :: "string \<Rightarrow> wstring \<Rightarrow> ynode \<Rightarrow> call_input parser_m" where
  "parseWorkflowCallEventInput key name n = do {
     (r, typed) \<leftarrow> for_entries (parseMappingAt ''input of workflow_call event'' n True True)
       (\<lambda>e (r, typed).
          if ent_id e = ''description'' then do {
            s \<leftarrow> parseStringNode (ent_val e) True; ret (r\<lparr>ci_description := Some s\<rparr>, typed)}
          else if ent_id e = ''required'' then do {
            b \<leftarrow> parseLiteralBool (ent_val e); ret (r\<lparr>ci_required := b\<rparr>, typed)}
          else if ent_id e = ''default'' then do {
            s \<leftarrow> parseStringNode (ent_val e) True; ret (r\<lparr>ci_default := Some s\<rparr>, typed)}
          else if ent_id e = ''type'' then do {
            ok \<leftarrow> CheckString (ent_val e) False;
            if \<not> ok then ret (r, True)
            else case call_type (yn_value (ent_val e)) of
                Some t \<Rightarrow> ret (r\<lparr>ci_type := t\<rparr>, True)
              | None \<Rightarrow> do {
                  node_error (ent_val e) (InvalidCallType (yn_value (ent_val e)));
                  ret (r, True)}}
          else do {
            unexpectedKey (ent_key e) ''inputs at workflow_call event'' [''description'', ''required'', ''default'', ''type''];
            ret (r, typed)})
       (\<lparr>ci_name = name, ci_description = None, ci_default = None, ci_required = None,
         ci_type = CallInvalid, ci_id = key\<rparr>, False);
     unless typed (errorAt (ws_pos name) (CallTypeMissing (ws_value name)));
     ret r}"

definition parseWorkflowCallEventSecret :: "wstring \<Rightarrow> ynode \<Rightarrow> call_secret parser_m" where
  "parseWorkflowCallEventSecret name n =
     for_entries (parseMappingAt ''secret of workflow_call event'' n True True)
       (\<lambda>e r.
          if ent_id e = ''description'' then do {
            s \<leftarrow> parseStringNode (ent_val e) True; ret (r\<lparr>cs_description := Some s\<rparr>)}
          else if ent_id e = ''required'' then do {
            b \<leftarrow> parseLiteralBool (ent_val e); ret (r\<lparr>cs_required := b\<rparr>)}
          else do {unexpectedKey (ent_key e) ''secrets'' [''description'', ''required'']; ret r})
       \<lparr>cs_name = name, cs_description = None, cs_required = None\<rparr>"

definition parseWorkflowCallEventOutput :: "wstring \<Rightarrow> ynode \<Rightarrow> call_output parser_m" where
  "parseWorkflowCallEventOutput name n = do {
     r \<leftarrow> for_entries (parseMappingAt ''output of workflow_call event'' n True True)
       (\<lambda>e r.
          if ent_id e = ''description'' then do {
            s \<leftarrow> parseStringNode (ent_val e) True; ret (r\<lparr>co_description := Some s\<rparr>)}
          else if ent_id e = ''value'' then do {
            s \<leftarrow> parseStringNode (ent_val e) False; ret (r\<lparr>co_value := Some s\<rparr>)}
          else do {
            unexpectedKey (ent_key e) ''outputs at workflow_call event'' [''description'', ''value''];
            ret r})
       \<lparr>co_name = name, co_description = None, co_value = None\<rparr>;
     unless (co_value r \<noteq> None) (errorAt (ws_pos name) (CallValueMissing (ws_value name)));
     ret r}"

definition parse_call_inputs :: "ynode \<Rightarrow> call_input list parser_m" where
  "parse_call_inputs n =
     for_entries (parseSectionMapping ''inputs'' n True False)
       (\<lambda>e is. do {i \<leftarrow> parseWorkflowCallEventInput (ent_id e) (ent_key e) (ent_val e); ret (is @ [i])}) []"

definition parseWorkflowCallEvent :: "source_pos \<Rightarrow> ynode \<Rightarrow> call_event parser_m" where
  "parseWorkflowCallEvent pos n =
     for_entries (parseSectionMapping ''workflow_call'' n True True)
       (\<lambda>e r.
          if ent_id e = ''inputs'' then do {
            is \<leftarrow> parse_call_inputs (ent_val e); ret (r\<lparr>ce_inputs := is\<rparr>)}
          else if ent_id e = ''secrets'' then do {
            m \<leftarrow> parse_map (parseSectionMapping ''secrets'' (ent_val e) True False)
              (\<lambda>e. parseWorkflowCallEventSecret (ent_key e) (ent_val e));
            ret (r\<lparr>ce_secrets := Some m\<rparr>)}
          else if ent_id e = ''outputs'' then do {
            m \<leftarrow> parse_map (parseSectionMapping ''outputs'' (ent_val e) True False)
              (\<lambda>e. parseWorkflowCallEventOutput (ent_key e) (ent_val e));
            ret (r\<lparr>ce_outputs := m\<rparr>)}
          else do {unexpectedKey (ent_key e) ''workflow_call'' [''inputs'', ''secrets'', ''outputs'']; ret r})
       \<lparr>ce_inputs = [], ce_secrets = None, ce_outputs = [], ce_pos = pos\<rparr>"

definition parseImageVersionEvent :: "source_pos \<Rightarrow> ynode \<Rightarrow> image_event parser_m" where
  "parseImageVersionEvent pos n =
     for_entries (parseSectionMapping ''image_version'' n True True)
       (\<lambda>e r.
          if ent_id e = ''types'' then do {
            v \<leftarrow> parseStringOrStringSequence ''types'' (ent_val e); ret (r\<lparr>ie_types := v\<rparr>)}
          else if ent_id e = ''names'' then do {
            v \<leftarrow> parseStringOrStringSequence ''names'' (ent_val e); ret (r\<lparr>ie_names := v\<rparr>)}
          else if ent_id e = ''versions'' then do {
            v \<leftarrow> parseStringOrStringSequence ''versions'' (ent_val e); ret (r\<lparr>ie_versions := v\<rparr>)}
          else do {unexpectedKey (ent_key e) ''image_version'' [''types'', ''names'', ''versions'']; ret r})
       \<lparr>ie_types = [], ie_names = [], ie_versions = [], ie_pos = pos\<rparr>"

subsection \<open>The on section\<close>

definition parseEventWithNoConfig :: "ynode \<Rightarrow> wf_event option parser_m" where
  "parseEventWithNoConfig n = do {
     s \<leftarrow> parseStringNode n False;
     if ws_value s = [] then ret None
     else if ws_value s = ''schedule'' then do {node_error n ScheduleNotMapping; ret None}
     else if ws_value s = ''repository_dispatch'' then ret (Some (RepositoryDispatchEvent [] (PosAt n)))
     else if ws_value s = ''workflow_dispatch'' then ret (Some (WorkflowDispatchEvent [] (PosAt n)))
     else if ws_value s = ''workflow_call'' then
       ret (Some (WorkflowCallEvent \<lparr>ce_inputs = [], ce_secrets = None, ce_outputs = [], ce_pos = PosAt n\<rparr>))
     else if ws_value s = ''image_version'' then
       ret (Some (ImageVersionEvent \<lparr>ie_types = [], ie_names = [], ie_versions = [], ie_pos = PosAt n\<rparr>))
     else ret (Some (WebhookEvent (empty_webhook s (PosAt n))))}"

definition append_some :: "'a list \<Rightarrow> 'a option \<Rightarrow> 'a list" where
  "append_some xs x = (case x of None \<Rightarrow> xs | Some y \<Rightarrow> xs @ [y])"

definition parse_event_entry :: "map_entry \<Rightarrow> wf_event option parser_m" where
  "parse_event_entry e =
     (let pos = ws_pos (ent_key e); n = ent_val e in
      if ent_id e = ''schedule'' then parseScheduleEvent pos n
      else if ent_id e = ''workflow_dispatch'' then do {x \<leftarrow> parseWorkflowDispatchEvent pos n; ret (Some x)}
      else if ent_id e = ''repository_dispatch'' then do {x \<leftarrow> parseRepositoryDispatchEvent pos n; ret (Some x)}
      else if ent_id e = ''workflow_call'' then do {x \<leftarrow> parseWorkflowCallEvent pos n; ret (Some (WorkflowCallEvent x))}
      else if ent_id e = ''image_version'' then do {x \<leftarrow> parseImageVersionEvent pos n; ret (Some (ImageVersionEvent x))}
      else do {x \<leftarrow> parseWebhookEvent (ent_key e) n; ret (Some (WebhookEvent x))})"

definition parseEvents :: "ynode \<Rightarrow> wf_event list option parser_m" where
  "parseEvents n =
     (case yn_kind n of
        ScalarNode \<Rightarrow> do {e \<leftarrow> parseEventWithNoConfig n; ret (Some (append_some [] e))}
      | MappingNode \<Rightarrow> do {
          es \<leftarrow> for_entries (parseSectionMapping ''on'' n False True)
            (\<lambda>e es. do {x \<leftarrow> parse_event_entry e; ret (append_some es x)}) [];
          ret (Some es)}
      | SequenceNode \<Rightarrow> do {
          checkNotEmpty ''on'' (length (yn_content n)) n;
          es \<leftarrow> for_each (yn_content n) (\<lambda>c es. do {x \<leftarrow> parseEventWithNoConfig c; ret (append_some es x)}) [];
          ret (Some es)}
      | k \<Rightarrow> do {typeErrorf n (OnNotMapping k); ret None})"

end
