(* ===== verification/Section_Parse.thy ===== *)
theory Section_Parse
  imports Event_Parse
begin

text \<open>
  The sections of workflows and jobs: permissions, environments, defaults, concurrency, outputs,
  strategies with their matrices, containers, services, runners and snapshots
  (\<open>internal/workflow/parse.go\<close>, \<open>parsePermissions\<close> to \<open>parseSnapshot\<close>, and \<open>cache_mode.go\<close>).
  The three functions that follow a tree of nodes (\<open>parseEnvMapping\<close>, \<open>ParseMatrixMapping\<close> and
  \<open>ParseRawYAMLValue\<close>) recurse on the values of the entries.
\<close>

subsection \<open>Permissions, outputs and cache modes\<close>

definition parsePermissions :: "source_pos \<Rightarrow> ynode \<Rightarrow> permissions parser_m" where
  "parsePermissions pos n =
     (if yn_kind n = ScalarNode then do {
        s \<leftarrow> parseStringNode n False;
        ret \<lparr>pm_all = Some s, pm_scopes = None, pm_pos = pos\<rparr>}
      else do {
        m \<leftarrow> parse_map (parseSectionMapping ''permissions'' n True False)
          (\<lambda>e. do {s \<leftarrow> parseStringNode (ent_val e) False; ret \<lparr>pv_name = ent_key e, pv_value = s\<rparr>});
        ret \<lparr>pm_all = None, pm_scopes = Some m, pm_pos = pos\<rparr>})"

text \<open>An entry with a string value, for outputs, inputs and secrets.\<close>

definition parse_named :: "map_entry \<Rightarrow> named_value parser_m" where
  "parse_named e = do {s \<leftarrow> parseStringNode (ent_val e) True; ret \<lparr>nv_name = ent_key e, nv_value = s\<rparr>}"

definition parseOutputs :: "ynode \<Rightarrow> (string \<times> named_value) list parser_m" where
  "parseOutputs n = do {
     m \<leftarrow> parse_map (parseSectionMapping ''outputs'' n False False) parse_named;
     checkNotEmpty ''outputs'' (length m) n;
     ret m}"

definition cache_mode_of :: "string \<Rightarrow> cache_mode_kind" where
  "cache_mode_of s =
     (let v = (case literalExpressionValue s of Some l \<Rightarrow> l | None \<Rightarrow> s) in
      if v = ''none'' then CacheModeNone
      else if v = ''read'' then CacheModeRead
      else if v = ''write'' then CacheModeWrite
      else if v = ''write-only'' then CacheModeWriteOnly
      else CacheModeInvalid)"

text \<open>\<open>n == nil\<close> is \<open>None\<close>.\<close>

definition CacheModeFromYAML :: "ynode option \<Rightarrow> cache_mode option" where
  "CacheModeFromYAML node =
     (case node of
        None \<Rightarrow> None
      | Some n \<Rightarrow>
          if yn_kind n = ZeroNode then None
          else Some \<lparr>cm_kind = (if yn_kind n = ScalarNode \<and> yn_tag n = YamlTagStr
              then cache_mode_of (yn_value n) else CacheModeInvalid), cm_pos = PosAt n\<rparr>)"

definition parseCacheMode :: "ynode \<Rightarrow> cache_mode option parser_m" where
  "parseCacheMode n =
     (let m = CacheModeFromYAML (Some n) in
      if yn_kind n \<noteq> ScalarNode \<or> yn_tag n \<noteq> YamlTagStr then do {
        typeErrorf n (CacheModeNotString (yn_kind n) (yn_tag n)); ret m}
      else if map_option cm_kind m = Some CacheModeInvalid then do {
        typeErrorf n (CacheModeUnknown (yn_value n)); ret m}
      else ret m)"

subsection \<open>Environment variables\<close>

function parseEnvMapping :: "ynode \<Rightarrow> bool \<Rightarrow> env_decl parser_m" where
  "parseEnvMapping n allowEmpty =
     (if yn_kind n = ScalarNode then do {
        e \<leftarrow> parseExpressionNode n ''mapping value for env section'';
        ret (Env [] [] e)}
      else for_entries (mapping_items (Section ''env'') n allowEmpty False True)
        (\<lambda>e env.
           if isMappingInsertion (ws_value (ent_key e)) then do {
             i \<leftarrow> parseEnvMapping (ent_val e) True;
             ret (Env (env_vars env) (env_insertions env @ [i]) (env_expression env))}
           else do {
             v \<leftarrow> parse_named e;
             ret (Env (al_put (ent_id e) v (env_vars env)) (env_insertions env) (env_expression env))})
        (Env [] [] None))"
  by pat_completeness auto
termination
  by (relation "measure (size \<circ> fst)") auto

declare parseEnvMapping.simps [simp del]

definition parseEnv :: "ynode \<Rightarrow> env_decl parser_m" where
  "parseEnv n = parseEnvMapping n False"

subsection \<open>Defaults, concurrency and environments\<close>

text \<open>A string setting of a section and its update.\<close>

definition string_field :: "ynode \<Rightarrow> bool \<Rightarrow> (wstring option \<Rightarrow> 'r) \<Rightarrow> 'r parser_m" where
  "string_field n allowEmpty f = do {s \<leftarrow> parseStringNode n allowEmpty; ret (f (Some s))}"

definition parse_defaults_run :: "source_pos \<Rightarrow> ynode \<Rightarrow> defaults_run parser_m" where
  "parse_defaults_run pos n =
     (let r = \<lparr>dr_expression = None, dr_shell = None, dr_working_directory = None, dr_pos = pos\<rparr> in
      case mayParseExpression n of
        Some expr \<Rightarrow> ret (r\<lparr>dr_expression := Some expr\<rparr>)
      | None \<Rightarrow>
          for_entries (parseSectionMapping ''run'' n False True)
            (\<lambda>e r.
               if ent_id e = ''shell'' then string_field (ent_val e) False (\<lambda>s. r\<lparr>dr_shell := s\<rparr>)
               else if ent_id e = ''working-directory'' then string_field (ent_val e) False (\<lambda>s. r\<lparr>dr_working_directory := s\<rparr>)
               else do {unexpectedKey (ent_key e) ''run'' [''shell'', ''working-directory'']; ret r}) r)"

definition parseDefaults :: "source_pos \<Rightarrow> ynode \<Rightarrow> defaults parser_m" where
  "parseDefaults pos n = do {
     r \<leftarrow> for_entries (parseSectionMapping ''defaults'' n False True)
       (\<lambda>e r.
          if ent_id e \<noteq> ''run'' then do {unexpectedKey (ent_key e) ''defaults'' [''run'']; ret r}
          else do {x \<leftarrow> parse_defaults_run (ws_pos (ent_key e)) (ent_val e); ret (r\<lparr>df_run := Some x\<rparr>)})
       \<lparr>df_run = None, df_pos = pos\<rparr>;
     unless (df_run r \<noteq> None) (node_error n DefaultsWithoutRun);
     ret r}"

definition empty_concurrency :: "source_pos \<Rightarrow> concurrency" where
  "empty_concurrency pos =
     \<lparr>cc_expression = None, cc_group = None, cc_cancel = None, cc_queue = None, cc_pos = pos\<rparr>"

definition parse_concurrency_entry :: "map_entry \<Rightarrow> concurrency \<Rightarrow> concurrency parser_m" where
  "parse_concurrency_entry e r =
     (if ent_id e = ''group'' then string_field (ent_val e) False (\<lambda>s. r\<lparr>cc_group := s\<rparr>)
      else if ent_id e = ''cancel-in-progress'' then do {
        b \<leftarrow> parseBool (ent_val e); ret (r\<lparr>cc_cancel := b\<rparr>)}
      else if ent_id e = ''queue'' then do {
        ok \<leftarrow> CheckString (ent_val e) False;
        if \<not> ok then ret r
        else do {
          let q = newString (ent_val e);
          unless (ws_ContainsExpression q \<or> ws_value q = ''single'' \<or> ws_value q = ''max'')
            (node_error (ent_val e) (InvalidQueue (ws_value q)));
          ret (r\<lparr>cc_queue := Some q\<rparr>)}}
      else do {
        unexpectedKey (ent_key e) ''concurrency'' [''cancel-in-progress'', ''group'', ''queue''];
        ret r})"

text \<open>\<open>queue: max\<close> together with \<open>cancel-in-progress: true\<close>.\<close>

definition queue_conflict :: "concurrency \<Rightarrow> wstring option" where
  "queue_conflict r =
     (case (cc_queue r, cc_cancel r) of
        (Some q, Some b) \<Rightarrow>
          if ws_value q = ''max'' \<and> wb_expr b = None \<and> wb_value b then Some q else None
      | _ \<Rightarrow> None)"

definition parseConcurrency :: "source_pos \<Rightarrow> ynode \<Rightarrow> concurrency parser_m" where
  "parseConcurrency pos n =
     (let r = empty_concurrency pos in
      case mayParseExpression n of
        Some expr \<Rightarrow> ret (r\<lparr>cc_expression := Some expr\<rparr>)
      | None \<Rightarrow>
          if yn_kind n = ScalarNode then string_field n False (\<lambda>s. r\<lparr>cc_group := s\<rparr>)
          else do {
            r \<leftarrow> for_entries (parseSectionMapping ''concurrency'' n False True) parse_concurrency_entry r;
            unless (cc_group r \<noteq> None) (errorAt pos ConcurrencyGroupMissing);
            case queue_conflict r of
              Some q \<Rightarrow> do {errorAt (ws_pos q) QueueWithCancel; ret r}
            | None \<Rightarrow> ret r})"

definition parseEnvironment :: "source_pos \<Rightarrow> ynode \<Rightarrow> environment parser_m" where
  "parseEnvironment pos n =
     (let r = \<lparr>evm_expression = None, evm_name = None, evm_url = None, evm_deployment = None, evm_pos = pos\<rparr> in
      case mayParseExpression n of
        Some expr \<Rightarrow> ret (r\<lparr>evm_expression := Some expr\<rparr>)
      | None \<Rightarrow>
          if yn_kind n = ScalarNode then string_field n False (\<lambda>s. r\<lparr>evm_name := s\<rparr>)
          else do {
            r \<leftarrow> for_entries (parseSectionMapping ''environment'' n False True)
              (\<lambda>e r.
                 if ent_id e = ''name'' then string_field (ent_val e) False (\<lambda>s. r\<lparr>evm_name := s\<rparr>)
                 else if ent_id e = ''url'' then string_field (ent_val e) False (\<lambda>s. r\<lparr>evm_url := s\<rparr>)
                 else if ent_id e = ''deployment'' then do {
                   b \<leftarrow> parseBool (ent_val e); ret (r\<lparr>evm_deployment := b\<rparr>)}
                 else do {
                   unexpectedKey (ent_key e) ''environment'' [''deployment'', ''name'', ''url''];
                   ret r}) r;
            unless (evm_name r \<noteq> None) (errorAt pos EnvironmentNameMissing);
            ret r})"

subsection \<open>Raw values\<close>

function ParseRawYAMLValue :: "ynode \<Rightarrow> raw_yaml option parser_m" where
  "ParseRawYAMLValue n =
     (if yn_kind n = ScalarNode then do {
        ok \<leftarrow> checkRawYAMLTag n;
        ret (Some (RawYAMLString (yn_value n) (if ok then yn_tag n else YamlTagStr) (PosAt n)))}
      else if yn_kind n = SequenceNode then do {
        vs \<leftarrow> for_each (yn_content n) (\<lambda>c vs. do {v \<leftarrow> ParseRawYAMLValue c; ret (append_some vs v)}) [];
        ret (Some (RawYAMLArray vs (PosAt n)))}
      else if yn_kind n = MappingNode then do {
        m \<leftarrow> for_entries (parseMappingAt ''matrix row value'' n True False)
          (\<lambda>e m. do {
             v \<leftarrow> ParseRawYAMLValue (ent_val e);
             ret (case v of None \<Rightarrow> m | Some x \<Rightarrow> al_put (ent_id e) x m)}) [];
        ret (Some (RawYAMLObject m (PosAt n)))}
      else do {typeErrorf n (RawUnexpected (yn_kind n)); ret None})"
  by pat_completeness auto
termination
  by (relation "measure size") (auto simp: parseMappingAt_def parseMapping_def content_size)

declare ParseRawYAMLValue.simps [simp del]

subsection \<open>Strategies\<close>

definition parse_combination :: "string \<Rightarrow> ynode \<Rightarrow> matrix_combination option parser_m" where
  "parse_combination sec c =
     (if yn_kind c = ScalarNode then do {
        e \<leftarrow> parseExpressionNode c ''mapping of matrix combination'';
        ret (map_option (\<lambda>e. \<lparr>mc_evaluated = False, mc_assigns = [], mc_expression = Some e\<rparr>) e)}
      else do {
        m \<leftarrow> for_entries (parseMapping (ElementOf sec) c False False)
          (\<lambda>e m. do {
             v \<leftarrow> ParseRawYAMLValue (ent_val e);
             ret (case v of None \<Rightarrow> m | Some x \<Rightarrow> al_put (ent_id e) \<lparr>ma_key = ent_key e, ma_value = x\<rparr> m)}) [];
        ret (Some \<lparr>mc_evaluated = False, mc_assigns = m, mc_expression = None\<rparr>)})"

definition ParseMatrixCombinations :: "string \<Rightarrow> ynode \<Rightarrow> matrix_combinations option parser_m" where
  "ParseMatrixCombinations sec n =
     (let r = \<lparr>ms_name = None, ms_evaluated = False, ms_combinations = [], ms_expression = None\<rparr> in
      if yn_kind n = ScalarNode then do {
        e \<leftarrow> parseExpressionNode n ''array of matrix combination'';
        ret (Some (r\<lparr>ms_expression := e\<rparr>))}
      else do {
        ok \<leftarrow> checkSequence sec n False;
        if \<not> ok then ret None
        else do {
          cs \<leftarrow> for_each (yn_content n) (\<lambda>c cs. do {x \<leftarrow> parse_combination sec c; ret (append_some cs x)}) [];
          ret (Some (r\<lparr>ms_combinations := cs\<rparr>))}})"

text \<open>The fields \<open>Name\<close> and \<open>Evaluated\<close>, set after parsing.\<close>

definition named_combinations :: "wstring \<Rightarrow> bool \<Rightarrow> matrix_combinations option \<Rightarrow> matrix_combinations option" where
  "named_combinations name evaluated =
     map_option (\<lambda>c. c\<lparr>ms_name := Some name, ms_evaluated := evaluated\<rparr>)"

definition set_evaluated :: "bool \<Rightarrow> matrix \<Rightarrow> matrix" where
  "set_evaluated evaluated m =
     (let each = map_option (\<lambda>c. c\<lparr>ms_combinations := map (\<lambda>x. x\<lparr>mc_evaluated := evaluated\<rparr>) (ms_combinations c)\<rparr>) in
      Matrix (mx_insertions m) (map (\<lambda>(k, r). (k, r\<lparr>mr_evaluated := evaluated\<rparr>)) (mx_rows m))
        (each (mx_include m)) (each (mx_exclude m)) (mx_expression m) (mx_pos m))"

definition add_row :: "string \<Rightarrow> matrix_row \<Rightarrow> matrix \<Rightarrow> matrix" where
  "add_row key r m =
     Matrix (mx_insertions m) (al_put key r (mx_rows m)) (mx_include m) (mx_exclude m) (mx_expression m) (mx_pos m)"

definition parse_matrix_row :: "map_entry \<Rightarrow> matrix \<Rightarrow> matrix parser_m" where
  "parse_matrix_row e m =
     (let r = \<lparr>mr_evaluated = False, mr_name = ent_key e, mr_values = [], mr_expression = None\<rparr>; n = ent_val e in
      if yn_kind n = ScalarNode then do {
        x \<leftarrow> parseExpressionNode n ''array value for matrix variations'';
        ret (add_row (ent_id e) (r\<lparr>mr_expression := x\<rparr>) m)}
      else do {
        ok \<leftarrow> checkSequence ''matrix values'' n False;
        if \<not> ok then ret m
        else do {
          vs \<leftarrow> for_each (yn_content n) (\<lambda>c vs. do {v \<leftarrow> ParseRawYAMLValue c; ret (append_some vs v)}) [];
          ret (add_row (ent_id e) (r\<lparr>mr_values := vs\<rparr>) m)}})"

function ParseMatrixMapping :: "source_pos \<Rightarrow> ynode \<Rightarrow> bool \<Rightarrow> bool \<Rightarrow> matrix parser_m" where
  "ParseMatrixMapping pos n allowEmpty evaluated =
     (if yn_kind n = ScalarNode then do {
        e \<leftarrow> parseExpressionNode n ''matrix'';
        ret (Matrix [] [] None None e (PosAt n))}
      else do {
        m \<leftarrow> for_entries (mapping_items (Section ''matrix'') n allowEmpty False (\<not> evaluated))
          (\<lambda>e m.
             if \<not> evaluated \<and> isMappingInsertion (ws_value (ent_key e)) then do {
               i \<leftarrow> ParseMatrixMapping (ws_pos (ent_key e)) (ent_val e) True False;
               ret (Matrix (mx_insertions m @ [i]) (mx_rows m) (mx_include m) (mx_exclude m) (mx_expression m) (mx_pos m))}
             else if ent_id e = ''include'' then do {
               c \<leftarrow> ParseMatrixCombinations ''include'' (ent_val e);
               ret (Matrix (mx_insertions m) (mx_rows m) (named_combinations (ent_key e) evaluated c) (mx_exclude m)
                 (mx_expression m) (mx_pos m))}
             else if ent_id e = ''exclude'' then do {
               c \<leftarrow> ParseMatrixCombinations ''exclude'' (ent_val e);
               ret (Matrix (mx_insertions m) (mx_rows m) (mx_include m) (named_combinations (ent_key e) evaluated c)
                 (mx_expression m) (mx_pos m))}
             else parse_matrix_row e m)
          (Matrix [] [] None None None pos);
        ret (set_evaluated evaluated m)})"
  by pat_completeness auto
termination
  by (relation "measure (\<lambda>(p, n, a, b). size n)") auto

declare ParseMatrixMapping.simps [simp del]

definition parseMatrix :: "source_pos \<Rightarrow> ynode \<Rightarrow> matrix parser_m" where
  "parseMatrix pos n = ParseMatrixMapping pos n False False"

definition parseMaxParallel :: "ynode \<Rightarrow> wint option parser_m" where
  "parseMaxParallel n = do {
     i \<leftarrow> parseIntNode n;
     case i of
       Some x \<Rightarrow>
         if wi_expr x = None \<and> wi_value x \<le> 0 then do {node_error n (MaxParallelNotPositive (wi_value x)); ret i}
         else ret i
     | None \<Rightarrow> ret i}"

definition parseStrategy :: "source_pos \<Rightarrow> ynode \<Rightarrow> strategy parser_m" where
  "parseStrategy pos n =
     (let r = \<lparr>sy_expression = None, sy_matrix = None, sy_fail_fast = None, sy_max_parallel = None, sy_pos = pos\<rparr> in
      case mayParseExpression n of
        Some expr \<Rightarrow> ret (r\<lparr>sy_expression := Some expr\<rparr>)
      | None \<Rightarrow>
          for_entries (parseSectionMapping ''strategy'' n False True)
            (\<lambda>e r.
               if ent_id e = ''matrix'' then do {
                 m \<leftarrow> parseMatrix (ws_pos (ent_key e)) (ent_val e); ret (r\<lparr>sy_matrix := Some m\<rparr>)}
               else if ent_id e = ''fail-fast'' then do {
                 b \<leftarrow> parseBool (ent_val e); ret (r\<lparr>sy_fail_fast := b\<rparr>)}
               else if ent_id e = ''max-parallel'' then do {
                 i \<leftarrow> parseMaxParallel (ent_val e); ret (r\<lparr>sy_max_parallel := i\<rparr>)}
               else do {
                 unexpectedKey (ent_key e) ''strategy'' [''matrix'', ''fail-fast'', ''max-parallel''];
                 ret r}) r)"

subsection \<open>Containers and services\<close>

definition parseCredentials :: "source_pos \<Rightarrow> ynode \<Rightarrow> credentials option parser_m" where
  "parseCredentials pos n =
     (let r = \<lparr>cd_username = None, cd_password = None, cd_expression = None, cd_pos = pos\<rparr> in
      case mayParseExpression n of
        Some e \<Rightarrow> ret (Some (r\<lparr>cd_expression := Some e\<rparr>))
      | None \<Rightarrow> do {
          r \<leftarrow> for_entries (parseSectionMapping ''credentials'' n False True)
            (\<lambda>e r.
               if ent_id e = ''username'' then string_field (ent_val e) False (\<lambda>s. r\<lparr>cd_username := s\<rparr>)
               else if ent_id e = ''password'' then string_field (ent_val e) False (\<lambda>s. r\<lparr>cd_password := s\<rparr>)
               else do {unexpectedKey (ent_key e) ''credentials'' [''username'', ''password'']; ret r}) r;
          if cd_username r = None \<or> cd_password r = None then do {
            errorAt pos CredentialsIncomplete; ret None}
          else ret (Some r)})"

definition container_keys :: "string \<Rightarrow> string list" where
  "container_keys sec =
     [''image'', ''credentials'', ''env'', ''ports'', ''volumes'', ''options'']
     @ (if sec = ''services'' then [''command'', ''entrypoint''] else [])"

definition empty_container :: "source_pos \<Rightarrow> container" where
  "empty_container pos =
     \<lparr>ct_expression = None, ct_image = None, ct_credentials = None, ct_env = None, ct_ports = [],
      ct_ports_expression = None, ct_volumes = [], ct_volumes_expression = None, ct_options = None,
      ct_command = None, ct_entrypoint = None, ct_pos = pos\<rparr>"

definition parse_container_entry :: "string \<Rightarrow> map_entry \<Rightarrow> container \<Rightarrow> container parser_m" where
  "parse_container_entry sec e r =
     (let n = ent_val e in
      if ent_id e = ''image'' then string_field n (sec = ''services'') (\<lambda>s. r\<lparr>ct_image := s\<rparr>)
      else if ent_id e = ''credentials'' then do {
        c \<leftarrow> parseCredentials (ws_pos (ent_key e)) n; ret (r\<lparr>ct_credentials := c\<rparr>)}
      else if ent_id e = ''env'' then do {
        v \<leftarrow> parseEnv n; ret (r\<lparr>ct_env := Some v\<rparr>)}
      else if ent_id e = ''ports'' then
        (case mayParseExpression n of
           Some expr \<Rightarrow> ret (r\<lparr>ct_ports_expression := Some expr\<rparr>)
         | None \<Rightarrow> do {ps \<leftarrow> parseStringSequence ''ports'' n True; ret (r\<lparr>ct_ports := ps\<rparr>)})
      else if ent_id e = ''volumes'' then
        (case mayParseExpression n of
           Some expr \<Rightarrow> ret (r\<lparr>ct_volumes_expression := Some expr\<rparr>)
         | None \<Rightarrow> do {vs \<leftarrow> parseStringSequence ''volumes'' n True; ret (r\<lparr>ct_volumes := vs\<rparr>)})
      else if ent_id e = ''options'' then string_field n True (\<lambda>s. r\<lparr>ct_options := s\<rparr>)
      else if ent_id e = ''command'' \<and> sec = ''services'' then string_field n True (\<lambda>s. r\<lparr>ct_command := s\<rparr>)
      else if ent_id e = ''entrypoint'' \<and> sec = ''services'' then string_field n True (\<lambda>s. r\<lparr>ct_entrypoint := s\<rparr>)
      else do {unexpectedKey (ent_key e) sec (container_keys sec); ret r})"

definition parseContainer :: "string \<Rightarrow> source_pos \<Rightarrow> ynode \<Rightarrow> container parser_m" where
  "parseContainer sec pos n =
     (let r = empty_container pos in
      case mayParseExpression n of
        Some expr \<Rightarrow> ret (r\<lparr>ct_expression := Some expr\<rparr>)
      | None \<Rightarrow>
          if yn_kind n = ScalarNode then string_field n False (\<lambda>s. r\<lparr>ct_image := s\<rparr>)
          else do {
            r \<leftarrow> for_entries (parseSectionMapping sec n False True) (parse_container_entry sec) r;
            unless (ct_image r \<noteq> None) (errorAt pos (ImageMissing sec));
            ret r})"

definition parseServices :: "ynode \<Rightarrow> services parser_m" where
  "parseServices n =
     (let r = \<lparr>ss_value = None, ss_expression = None, ss_position = PosAt n\<rparr> in
      case mayParseExpression n of
        Some e \<Rightarrow> ret (r\<lparr>ss_expression := Some e\<rparr>)
      | None \<Rightarrow> do {
          m \<leftarrow> parse_map (parseSectionMapping ''services'' n False False)
            (\<lambda>e. do {
               c \<leftarrow> parseContainer ''services'' (ws_pos (ent_key e)) (ent_val e);
               ret \<lparr>sv_name = ent_key e, sv_container = c\<rparr>});
          ret (r\<lparr>ss_value := Some m\<rparr>)})"

definition parseTimeoutMinutes :: "ynode \<Rightarrow> wfloat option parser_m" where
  "parseTimeoutMinutes n = do {
     f \<leftarrow> parseFloatNode n;
     case f of
       Some x \<Rightarrow>
         if wf_expr x = None \<and> f64_less_eq (wf_value x) f64_zero then do {
           node_error n (TimeoutNotPositive (wf_value x)); ret f}
         else ret f
     | None \<Rightarrow> ret f}"

subsection \<open>Runners and snapshots\<close>

definition parseRunsOn :: "ynode \<Rightarrow> job_runner parser_m" where
  "parseRunsOn n =
     (let r = \<lparr>rn_expression = None, rn_labels = [], rn_labels_expr = None, rn_group = None\<rparr> in
      case mayParseExpression n of
        Some expr \<Rightarrow> ret (r\<lparr>rn_expression := Some expr\<rparr>)
      | None \<Rightarrow>
          if yn_kind n = ScalarNode \<or> yn_kind n = SequenceNode then do {
            ls \<leftarrow> parseStringOrStringSequence ''runs-on'' n; ret (r\<lparr>rn_labels := ls\<rparr>)}
          else for_entries (parseSectionMapping ''runs-on'' n False True)
            (\<lambda>e r.
               if ent_id e = ''labels'' then
                 (case mayParseExpression (ent_val e) of
                    Some expr \<Rightarrow> ret (r\<lparr>rn_labels_expr := Some expr\<rparr>)
                  | None \<Rightarrow> do {
                      ls \<leftarrow> parseStringOrStringSequence ''labels'' (ent_val e); ret (r\<lparr>rn_labels := ls\<rparr>)})
               else if ent_id e = ''group'' then string_field (ent_val e) False (\<lambda>s. r\<lparr>rn_group := s\<rparr>)
               else do {unexpectedKey (ent_key e) ''runs-on'' [''labels'', ''group'']; ret r}) r)"

definition parseSnapshot :: "source_pos \<Rightarrow> ynode \<Rightarrow> snapshot option parser_m" where
  "parseSnapshot pos n =
     (let r = \<lparr>sn_expression = None, sn_image_name = None, sn_version = None, sn_if = None\<rparr> in
      case mayParseExpression n of
        Some expr \<Rightarrow> ret (Some (r\<lparr>sn_expression := Some expr\<rparr>))
      | None \<Rightarrow>
          (case yn_kind n of
             ScalarNode \<Rightarrow> string_field n False (\<lambda>s. Some (r\<lparr>sn_image_name := s\<rparr>))
           | MappingNode \<Rightarrow> do {
               r \<leftarrow> for_entries (parseSectionMapping ''on'' n False True)
                 (\<lambda>e r.
                    if ent_id e = ''image-name'' then string_field (ent_val e) False (\<lambda>s. r\<lparr>sn_image_name := s\<rparr>)
                    else if ent_id e = ''version'' then string_field (ent_val e) False (\<lambda>s. r\<lparr>sn_version := s\<rparr>)
                    else if ent_id e = ''if'' then do {c \<leftarrow> parseCondition (ent_val e); ret (r\<lparr>sn_if := Some c\<rparr>)}
                    else do {
                      unexpectedKey (ent_key e) ''snapshot'' [''image-name'', ''version'', ''if''];
                      ret r}) r;
               unless (sn_image_name r \<noteq> None) (errorAt pos SnapshotImageMissing);
               ret (Some r)}
           | k \<Rightarrow> do {typeErrorf n (SnapshotUnexpected k); ret None}))"

end
