(* ===== verification/Script_Source.thy ===== *)
theory Script_Source
  imports Yaml_Scalar Workflow_Ast
begin

text \<open>
  The source maps of scripts: positions in a decoded scalar taken back to the YAML file
  (\<open>ScriptSource\<close> of \<open>internal/workflow/ast.go\<close>), the index of the scalars of a file
  (\<open>parse_scalar_source.go\<close>), the comments attached to them (\<open>scalar_comments.go\<close>), the empty
  values of flow mappings (\<open>parse_yaml_compatibility.go\<close>) and the sources of a workflow's
  expressions (\<open>workflow_expression_source.go\<close>).

  The fields of \<open>Parser\<close> these functions read are the record \<open>scalar_index\<close>; \<open>SourceLines\<close> are
  the lines of its document. The table \<open>scalarSources\<close> that memoises decoded scalars is left out:
  a scalar is decoded on every call. So is the reading of a file for a parser without an index,
  which \<open>Parse\<close> never needs. \<open>sort.Search\<close> on the ascending spans is \<open>takeWhile\<close>.
\<close>

subsection \<open>Lines and positions of a script\<close>

definition rune_count :: "string \<Rightarrow> nat" where
  "rune_count s = length (runes s)"

definition line_of :: "string list \<Rightarrow> int \<Rightarrow> string" where
  "line_of lines row = (if 0 \<le> row \<and> row < int (length lines) then lines ! nat row else [])"

definition only :: "char list \<Rightarrow> string \<Rightarrow> bool" where
  "only cs s \<longleftrightarrow> list_all (\<lambda>c. c \<in> set cs) s"

abbreviation line_feed :: char where
  "line_feed \<equiv> CHR 0x0A"

text \<open>The loop of \<open>newScriptSource\<close>: the start of the line, the offset and the bytes from there.\<close>

fun script_lines :: "nat \<Rightarrow> nat \<Rightarrow> string \<Rightarrow> script_line list" where
  "script_lines start i [] = [\<lparr>sl_start = start, sl_end = i\<rparr>]"
| "script_lines start i (c # cs) =
     (if c = line_feed then \<lparr>sl_start = start, sl_end = i\<rparr> # script_lines (i + 1) (i + 1) cs
      else script_lines start (i + 1) cs)"

definition newScriptSource :: "string \<Rightarrow> script_source" where
  "newScriptSource v =
     \<lparr>sr_content_start = no_pos, sr_scalar_end = no_pos, sr_value = v, sr_lines = script_lines 0 0 v,
      sr_spans = [], sr_literal = False, sr_comments = []\<rparr>"

text \<open>The position behind a span, for the end of the value.\<close>

definition span_end_pos :: "string \<Rightarrow> script_span \<Rightarrow> source_pos" where
  "span_end_pos v sp =
     \<lparr>at_line = (if sw_yaml_end_line sp \<noteq> 0 then sw_yaml_end_line sp else at_line (sw_yaml sp)),
      at_col = (if sw_yaml_end_column sp \<noteq> 0 then sw_yaml_end_column sp
         else at_col (sw_yaml sp) + int (rune_count (slice v (sw_start sp) (sw_end sp))))\<rparr>"

text \<open>The loop that steps back over empty spans, on the reversed list.\<close>

fun last_mapped :: "script_span \<Rightarrow> script_span list \<Rightarrow> script_span" where
  "last_mapped sp [] = sp"
| "last_mapped sp (q # qs) = (if sw_start sp = sw_end sp then last_mapped q qs else sp)"

definition tail_position :: "script_source \<Rightarrow> nat \<Rightarrow> source_pos option" where
  "tail_position s offset =
     (case rev (sr_spans s) of
        [] \<Rightarrow> None
      | sp # sps \<Rightarrow>
          let l = last_mapped sp sps in
          if offset = length (sr_value s) \<and> sw_end l < offset
             \<and> only [CHR '' '', line_feed] (drop (sw_end l) (sr_value s))
          then Some (span_end_pos (sr_value s) l) else None)"

definition span_position :: "string \<Rightarrow> bool \<Rightarrow> nat \<Rightarrow> script_span \<Rightarrow> source_pos option" where
  "span_position v endPosition offset sp =
     (if offset < sw_start sp \<or> endPosition \<and> offset = sw_start sp then None
      else Some
        \<lparr>at_line = (if endPosition \<and> offset = sw_end sp \<and> sw_yaml_end_line sp \<noteq> 0
           then sw_yaml_end_line sp else at_line (sw_yaml sp)),
         at_col = (if sw_yaml_end_column sp \<noteq> 0 then
             (if endPosition \<and> offset = sw_end sp then sw_yaml_end_column sp else at_col (sw_yaml sp))
           else at_col (sw_yaml sp) + int (rune_count (slice v (sw_start sp) offset)))\<rparr>)"

definition script_offset :: "script_source \<Rightarrow> int \<Rightarrow> int \<Rightarrow> nat option" where
  "script_offset s line col =
     (if line \<le> 0 \<or> int (length (sr_lines s)) < line \<or> col \<le> 0 then None
      else
        let l = sr_lines s ! nat (line - 1) in
        map_option (\<lambda>rel. sl_start l + rel) (ByteOffsetAtColumn (slice (sr_value s) (sl_start l) (sl_end l)) col))"

definition lookup :: "script_source \<Rightarrow> int \<Rightarrow> int \<Rightarrow> bool \<Rightarrow> source_pos option" where
  "lookup s line col endPosition =
     (case script_offset s line col of
        None \<Rightarrow> None
      | Some offset \<Rightarrow>
          (case (if endPosition then tail_position s offset else None) of
             Some p \<Rightarrow> Some p
           | None \<Rightarrow>
               (case dropWhile (\<lambda>sp. if endPosition then sw_end sp < offset else sw_end sp \<le> offset) (sr_spans s) of
                  [] \<Rightarrow> None
                | sp # _ \<Rightarrow> span_position (sr_value s) endPosition offset sp)))"

definition Position :: "script_source \<Rightarrow> int \<Rightarrow> int \<Rightarrow> source_pos option" where
  "Position s line col = lookup s line col False"

definition EndPos :: "script_source \<Rightarrow> int \<Rightarrow> int \<Rightarrow> source_pos option" where
  "EndPos s line col = lookup s line col True"

subsection \<open>Spans of the lines of a script\<close>

record line_span =
  ln_line :: nat
  ln_start :: nat
  ln_end :: nat
  ln_yaml :: source_pos
  ln_yaml_end :: source_pos

text \<open>The items of one span in one line; \<open>None\<close> if they share no byte.\<close>

definition line_span_items :: "script_source \<Rightarrow> nat \<Rightarrow> script_line \<Rightarrow> script_span \<Rightarrow> line_span list option" where
  "line_span_items s i l sp =
     (let v = sr_value s;
          limit = (if sl_end l < length v then sl_end l + 1 else sl_end l);
          start = max (sw_start sp) (sl_start l);
          e = min (sw_end sp) limit;
          column = (\<lambda>k. rune_count (slice v (sl_start l) k) + 1);
          inner = (\<lambda>k. int (rune_count (slice v (sw_start sp) k)));
          coded = sw_yaml_end_column sp \<noteq> 0;
          end_line = (if sw_yaml_end_line sp = 0 then at_line (sw_yaml sp) else sw_yaml_end_line sp)
      in if sw_end sp \<le> sw_start sp \<or> e \<le> start then None
         else Some (
           \<lparr>ln_line = i + 1, ln_start = column start, ln_end = column e,
            ln_yaml = (if coded then sw_yaml sp
              else \<lparr>at_line = at_line (sw_yaml sp), at_col = at_col (sw_yaml sp) + inner start\<rparr>),
            ln_yaml_end = (if coded then \<lparr>at_line = end_line, at_col = sw_yaml_end_column sp\<rparr> else no_pos)\<rparr>
           # (if e = limit \<and> sl_end l < limit \<and> i + 1 < length (sr_lines s) then
                [\<lparr>ln_line = i + 2, ln_start = 1, ln_end = 1,
                  ln_yaml = (if coded then \<lparr>at_line = end_line, at_col = sw_yaml_end_column sp\<rparr>
                    else \<lparr>at_line = at_line (sw_yaml sp), at_col = at_col (sw_yaml sp) + inner e\<rparr>),
                  ln_yaml_end = no_pos\<rparr>]
              else [])))"

text \<open>All items in the order of the two loops, each with its span.\<close>

definition line_span_pairs :: "script_source \<Rightarrow> (script_span \<times> line_span list) list" where
  "line_span_pairs s =
     concat (map (\<lambda>(i, l). concat (map (\<lambda>sp.
         case line_span_items s i l sp of None \<Rightarrow> [] | Some xs \<Rightarrow> [(sp, xs)]) (sr_spans s)))
       (zip [0..<length (sr_lines s)] (sr_lines s)))"

definition LineSpans :: "script_source \<Rightarrow> line_span list" where
  "LineSpans s =
     (let ps = line_span_pairs s; v = sr_value s in
      concat (map snd ps)
      @ (case rev ps of
           [] \<Rightarrow> []
         | (l, _) # _ \<Rightarrow>
             if sw_end l < length v \<and> only [CHR '' '', line_feed] (drop (sw_end l) v) then
               (let here = rune_count (drop (sl_start (last (sr_lines s))) v) + 1 in
                [\<lparr>ln_line = length (sr_lines s), ln_start = here, ln_end = here,
                  ln_yaml = span_end_pos v l, ln_yaml_end = no_pos\<rparr>])
             else []))"

subsection \<open>The index of scalars\<close>

definition space :: char where
  "space = CHR '' ''"

definition is_trimmed_mark :: "rune \<Rightarrow> rune list \<Rightarrow> bool" where
  "is_trimmed_mark mark rs \<longleftrightarrow> rs = [mark] \<or> has_prefix rs [mark, 32] \<or> has_prefix rs [mark, 9]"

text \<open>The line of a sequence its first dash is on, from \<open>line\<close> to \<open>final\<close>.\<close>

function sequence_indent :: "string list \<Rightarrow> int \<Rightarrow> int \<Rightarrow> int \<Rightarrow> int \<Rightarrow> int option" where
  "sequence_indent lines line final node_line node_column =
     (if final < line then None
      else
        let declaration = runes (line_of lines (line - 1));
            start = (if line = node_line then nat (node_column - 1) else 0);
            prefix = dropWhile (\<lambda>r. r = 32) (drop start declaration)
        in if is_trimmed_mark 45 prefix then Some (int (length declaration) - int (length prefix))
           else sequence_indent lines (line + 1) final node_line node_column)"
  by pat_completeness auto
termination
  by (relation "measure (\<lambda>(ls, l, f, a, b). nat (f + 1 - l))") auto

declare sequence_indent.simps [simp del]

definition scalarCollectionIndent :: "ynode \<Rightarrow> string list \<Rightarrow> int" where
  "scalarCollectionIndent n lines =
     (let indent = yn_column n - 1 in
      case yn_content n of
        [] \<Rightarrow> indent
      | first # rest \<Rightarrow>
          if yn_kind n = MappingNode then
            (if ni_anchor (yn_info n) \<noteq> [] \<or> has_style n [TaggedStyle] then
               (case rest of
                  [] \<Rightarrow> yn_column first - 1
                | second # _ \<Rightarrow>
                    if yn_line first < yn_line second then
                      (let declaration = line_of lines (yn_line second - 1);
                           prefix = dropWhile (\<lambda>c. c = space) declaration
                       in if prefix = '':'' \<or> has_prefix prefix '': '' \<or> has_prefix prefix [CHR '':'', CHR 0x09]
                          then int (length declaration) - int (length prefix)
                          else yn_column first - 1)
                    else yn_column first - 1)
             else indent)
          else if yn_line first \<noteq> yn_line n then
            (case sequence_indent lines (yn_line n) (yn_line first) (yn_line n) (yn_column n) of
               None \<Rightarrow> indent | Some i \<Rightarrow> i)
          else indent)"

definition enter_collection :: "ynode \<Rightarrow> string list \<Rightarrow> scalar_context \<Rightarrow> scalar_context" where
  "enter_collection n lines context =
     (if yn_kind n = MappingNode \<or> yn_kind n = SequenceNode then
        (let flow = sx_flow context \<or> has_style n [FlowStyle] in
         \<lparr>sx_indent = (if flow then sx_indent context else scalarCollectionIndent n lines), sx_flow = flow\<rparr>)
      else context)"

fun index_contexts :: "string list \<Rightarrow> ynode \<Rightarrow> scalar_context \<Rightarrow> (source_pos \<times> scalar_context) list \<Rightarrow> (source_pos \<times> scalar_context) list" where
  "index_contexts lines (YNode i cs) context acc =
     (let n = YNode i cs;
          acc' = (if yn_kind n = ScalarNode then al_put (PosAt n) context acc else acc)
      in fold (\<lambda>c. index_contexts lines c (enter_collection n lines context)) cs acc')"

record comment_nodes =
  cn_declaration :: int
  cn_leading :: "string list"
  cn_trailing :: "string list"
  cn_block :: bool
  cn_scalar :: ynode

text \<open>An attachment of comments: the position of its key, the node and the comments.\<close>

definition attachment :: "ynode \<Rightarrow> ynode \<Rightarrow> string list \<Rightarrow> comment_nodes" where
  "attachment k v leading =
     \<lparr>cn_declaration = yn_line k, cn_leading = leading,
      cn_trailing = [ni_line_comment (yn_info k), ni_line_comment (yn_info v)],
      cn_block = has_style v [LiteralStyle, FoldedStyle], cn_scalar = v\<rparr>"

text \<open>The leading comments of each pair of a mapping: the ends of the previous pair come first.\<close>

fun pair_leading :: "string list \<Rightarrow> (ynode \<times> ynode) list \<Rightarrow> ((ynode \<times> ynode) \<times> string list) list" where
  "pair_leading outer [] = []"
| "pair_leading outer ((k, v) # ps) =
     ((k, v), [ni_head_comment (yn_info k), ni_head_comment (yn_info v)] @ outer)
     # pair_leading [ni_foot_comment (yn_info k), ni_foot_comment (yn_info v)] ps"

fun child_leading :: "string list \<Rightarrow> ynode list \<Rightarrow> (ynode \<times> string list) list" where
  "child_leading outer [] = []"
| "child_leading outer (c # cs) =
     (c, ni_head_comment (yn_info c) # outer) # child_leading [ni_foot_comment (yn_info c)] cs"

lemma pair_leading_mem: "((k, v), l) \<in> set (pair_leading outer ps) \<Longrightarrow> (k, v) \<in> set ps"
  by (induction outer ps rule: pair_leading.induct) auto

lemma child_leading_mem: "(c, l) \<in> set (child_leading outer cs) \<Longrightarrow> c \<in> set cs"
  by (induction outer cs rule: child_leading.induct) auto

text \<open>The attachments \<open>visit\<close> makes, in order.\<close>

function comment_attachments :: "ynode \<Rightarrow> string list \<Rightarrow> (source_pos \<times> comment_nodes) list" where
  "comment_attachments n inherited =
     (let outer = ni_head_comment (yn_info n) # inherited in
      if yn_kind n = MappingNode then
        concat (map (\<lambda>((k, v), leading).
            (if yn_kind v = ScalarNode \<or> yn_kind v = AliasNode then [(PosAt k, attachment k v leading)] else [])
            @ comment_attachments v leading) (pair_leading outer (node_pairs (yn_content n))))
      else if yn_kind n = SequenceNode \<or> yn_kind n = DocumentNode then
        concat (map (\<lambda>(c, leading). comment_attachments c leading) (child_leading outer (yn_content n)))
      else [])"
  by pat_completeness auto
termination
  by (relation "measure (size \<circ> fst)")
    (auto dest!: pair_leading_mem child_leading_mem node_pairs_mem content_size)

declare comment_attachments.simps [simp del]

record scalar_index =
  ix_document :: document
  ix_contexts :: "(source_pos \<times> scalar_context) list"
  ix_comments :: "(source_pos \<times> comment_nodes) list"
  ix_declarations :: "(source_pos \<times> comment_nodes) list"

abbreviation ix_lines :: "scalar_index \<Rightarrow> string list" where
  "ix_lines p \<equiv> doc_lines (ix_document p)"

definition IndexScalarSources :: "document \<Rightarrow> ynode \<Rightarrow> scalar_index" where
  "IndexScalarSources document n =
     (let as = comment_attachments n [] in
      \<lparr>ix_document = document,
       ix_contexts = index_contexts (doc_lines document) n \<lparr>sx_indent = - 1, sx_flow = False\<rparr> [],
       ix_comments = fold (\<lambda>(k, a) m. if yn_kind (cn_scalar a) = ScalarNode then al_put (PosAt (cn_scalar a)) a m else m) as [],
       ix_declarations = fold (\<lambda>(k, a). al_put k a) as []\<rparr>)"

subsection \<open>Comments\<close>

fun split_lines :: "string \<Rightarrow> string \<Rightarrow> string list" where
  "split_lines acc [] = [rev acc]"
| "split_lines acc (c # cs) = (if c = line_feed then rev acc # split_lines [] cs else split_lines (c # acc) cs)"

definition comment_parts :: "string list \<Rightarrow> string list" where
  "comment_parts groups =
     filter (\<lambda>t. t \<noteq> []) (concat (map (\<lambda>g. map trim_space (split_lines [] g)) groups))"

text \<open>The comment lines above the declaration, upwards from \<open>line\<close>.\<close>

function leading_comments :: "string list \<Rightarrow> string list \<Rightarrow> int \<Rightarrow> scalar_comment list" where
  "leading_comments lines leading line =
     (if line \<le> 0 \<or> int (length lines) < line then []
      else
        let physical = line_of lines (line - 1); t = trim_space physical in
        if \<not> has_prefix t ''#'' \<or> t \<notin> set leading then []
        else \<lparr>sm_text = t,
               sm_pos = \<lparr>at_line = line, at_col = int (rune_count (takeWhile (\<lambda>c. c \<noteq> CHR ''#'') physical)) + 1\<rparr>,
               sm_trailing = False\<rparr> # leading_comments lines leading (line - 1))"
  by pat_completeness auto
termination
  by (relation "measure (\<lambda>(ls, l, n). nat n)") auto

declare leading_comments.simps [simp del]

text \<open>The bytes before the last occurrence of \<open>t\<close> (\<open>strings.CutLast\<close>), all of \<open>s\<close> if there is none.\<close>

definition cut_last :: "string \<Rightarrow> string \<Rightarrow> string" where
  "cut_last s t =
     (case str_index (rev s) (rev t) of None \<Rightarrow> s | Some i \<Rightarrow> take (length s - i - length t) s)"

definition trailing_at :: "string list \<Rightarrow> bool \<Rightarrow> source_pos \<Rightarrow> source_pos \<Rightarrow> string \<Rightarrow> int \<Rightarrow> scalar_comment option" where
  "trailing_at lines is_block content_start scalar_end t line =
     (let physical = line_of lines (line - 1) in
      if \<not> has_suffix (trim_space physical) t then None
      else
        let col = int (rune_count (cut_last physical t)) + 1;
            before = (line < at_line content_start \<or> line = at_line content_start \<and> (is_block \<or> col < at_col content_start));
            after = (at_line scalar_end < line \<or> line = at_line scalar_end \<and> at_col scalar_end \<le> col)
        in if before \<or> after then Some \<lparr>sm_text = t, sm_pos = \<lparr>at_line = line, at_col = col\<rparr>, sm_trailing = True\<rparr> else None)"

definition trailing_comment :: "string list \<Rightarrow> comment_nodes \<Rightarrow> source_pos \<Rightarrow> source_pos \<Rightarrow> string \<Rightarrow> scalar_comment list" where
  "trailing_comment lines nodes content_start scalar_end t =
     (case filter (\<lambda>x. x \<noteq> None)
         (map (trailing_at lines (cn_block nodes) content_start scalar_end t)
           [max 1 (cn_declaration nodes)..min (int (length lines)) (at_line scalar_end)]) of
        Some c # _ \<Rightarrow> [c] | _ \<Rightarrow> [])"

text \<open>\<open>slices.CompactFunc\<close>: the first of neighbours at one position.\<close>

fun compact_comments :: "scalar_comment list \<Rightarrow> scalar_comment list" where
  "compact_comments (a # b # cs) =
     (if sm_pos a = sm_pos b then compact_comments (a # cs) else a # compact_comments (b # cs))"
| "compact_comments cs = cs"

definition attached_comments :: "comment_nodes \<Rightarrow> string list \<Rightarrow> source_pos \<Rightarrow> source_pos \<Rightarrow> scalar_comment list" where
  "attached_comments nodes lines content_start scalar_end =
     (let above = rev (leading_comments lines (comment_parts (cn_leading nodes)) (cn_declaration nodes - 1));
          trailing = concat (map (trailing_comment lines nodes content_start scalar_end) (comment_parts (cn_trailing nodes)))
      in compact_comments
           (sort_key (\<lambda>c. at_line (sm_pos c)) (sort_key (\<lambda>c. at_col (sm_pos c)) (above @ trailing))))"

subsection \<open>Source maps of scalars\<close>

definition yaml_span :: "scalar_span \<Rightarrow> script_span" where
  "yaml_span sp =
     \<lparr>sw_start = ss_start sp, sw_end = ss_end sp, sw_yaml = ss_pos sp,
      sw_yaml_end_column = (if ss_break sp then 1
        else if ss_width sp \<noteq> 0 then at_col (ss_pos sp) + int (ss_width sp) else 0),
      sw_yaml_end_line = (if ss_break sp then at_line (ss_pos sp) + 1 else 0)\<rparr>"

definition decoded_source :: "scalar_index \<Rightarrow> source_pos \<Rightarrow> yaml_scalar \<Rightarrow> script_source" where
  "decoded_source p key sc =
     (newScriptSource (ys_value sc))
       \<lparr>sr_literal := ys_literal sc, sr_content_start := ys_start sc, sr_scalar_end := ys_end sc,
        sr_comments := (case map_of (ix_comments p) key of
            None \<Rightarrow> []
          | Some nodes \<Rightarrow> attached_comments nodes (ix_lines p) (ys_start sc) (ys_end sc)),
        sr_spans := map yaml_span (ys_spans sc)\<rparr>"

definition ScriptSource :: "scalar_index \<Rightarrow> ynode \<Rightarrow> script_source option" where
  "ScriptSource p n =
     (if yn_kind n \<noteq> ZeroNode \<and> yn_kind n \<noteq> ScalarNode then None
      else case map_of (ix_contexts p) (PosAt n) of
          None \<Rightarrow> None
        | Some context \<Rightarrow>
            (case Decode (ix_document p) (PosAt n) context of
               Inl _ \<Rightarrow> None
             | Inr sc \<Rightarrow> if ys_value sc \<noteq> yn_value n then None else Some (decoded_source p (PosAt n) sc)))"

definition ScriptSourceForDeclaration :: "scalar_index \<Rightarrow> ynode \<Rightarrow> source_pos \<Rightarrow> script_source option" where
  "ScriptSourceForDeclaration p n declaration =
     (case ScriptSource p n of
        None \<Rightarrow> None
      | Some source \<Rightarrow>
          (case map_of (ix_declarations p) declaration of
             None \<Rightarrow> Some source
           | Some nodes \<Rightarrow>
               let alias = cn_scalar nodes in
               if yn_kind alias \<noteq> AliasNode then Some source
               else Some (source\<lparr>sr_comments := attached_comments nodes (ix_lines p) (PosAt alias)
                 \<lparr>at_line = yn_line alias, at_col = yn_column alias + int (rune_count (yn_value alias)) + 1\<rparr>\<rparr>)))"

subsection \<open>Empty values of flow mappings\<close>

text \<open>The rows from the end of the key to the colon hold blanks only.\<close>

definition blank_between :: "scalar_index \<Rightarrow> source_pos \<Rightarrow> int \<Rightarrow> nat \<Rightarrow> bool" where
  "blank_between p scalar_end row colon =
     list_all (\<lambda>r.
       case (if r = at_line scalar_end - 1 then ByteOffset (ix_document p) r (at_col scalar_end) else Some 0) of
         None \<Rightarrow> False
       | Some start \<Rightarrow>
           let line = line_of (ix_lines p) r; e = (if r = row then colon else length line) in
           start \<le> e \<and> only blanks (slice line start e)) [at_line scalar_end - 1..row]"

definition compactFlowNull :: "scalar_index \<Rightarrow> ynode \<Rightarrow> ynode \<Rightarrow> bool" where
  "compactFlowNull p k v =
     (if yn_kind k \<noteq> ScalarNode \<or> yn_value k = [] \<or> has_style k [SingleQuotedStyle, DoubleQuotedStyle]
         \<or> yn_kind v \<noteq> ScalarNode \<or> yn_tag v \<noteq> YamlTagNull \<or> yn_value v \<noteq> [] then False
      else
        let row = yn_line v - 1; line = line_of (ix_lines p) row in
        case ByteOffset (ix_document p) row (yn_column v) of
          None \<Rightarrow> False
        | Some offset \<Rightarrow>
            if length line \<le> offset then False
            else if line ! offset \<noteq> CHR '':'' \<and> offset = 0 then False
            else
              let colon = (if line ! offset = CHR '':'' then offset else offset - 1) in
              if length line \<le> colon + 1 \<or> line ! colon \<noteq> CHR '':'' \<or> line ! (colon + 1) \<notin> set '',}]'' then False
              else (case ScriptSource p k of
                  None \<Rightarrow> False
                | Some source \<Rightarrow> blank_between p (sr_scalar_end source) row colon))"

text \<open>The keys \<open>checkFlowMappingNulls\<close> reports, in order.\<close>

fun checkFlowMappingNulls :: "scalar_index \<Rightarrow> ynode \<Rightarrow> bool \<Rightarrow> ynode list" where
  "checkFlowMappingNulls p (YNode i cs) in_flow =
     (let n = YNode i cs; f = in_flow \<or> has_style n [FlowStyle] in
      (if f \<and> yn_kind n = MappingNode
       then map fst (filter (\<lambda>(k, v). compactFlowNull p k v) (node_pairs cs)) else [])
      @ concat (map (\<lambda>c. checkFlowMappingNulls p c f) cs))"

subsection \<open>Sources of expressions\<close>

text \<open>
  \<open>seen\<close>, which keeps the walk from visiting the content of an anchor once per alias, is left
  out: a second visit stores the same sources again.
\<close>

function workflowExpressionSources :: "scalar_index \<Rightarrow> ynode \<Rightarrow> bool \<Rightarrow> (source_pos \<times> script_source) list \<Rightarrow> (source_pos \<times> script_source) list" where
  "workflowExpressionSources p n condition acc =
     (let acc' = (if yn_kind n = ScalarNode \<and> (condition \<or> contains_str (yn_value n) ''${{'') then
            (case ScriptSource p n of None \<Rightarrow> acc | Some source \<Rightarrow> al_put (PosAt n) source acc)
          else acc)
      in if yn_kind n = MappingNode then
           fold (\<lambda>(k, v) m. workflowExpressionSources p v (equal_fold (yn_value k) ''if'')
             (workflowExpressionSources p k False m)) (node_pairs (yn_content n)) acc'
         else fold (\<lambda>c. workflowExpressionSources p c False) (yn_content n) acc')"
  by pat_completeness auto
termination
  by (relation "measure (\<lambda>(p, n, c, m). size n)") (auto dest!: node_pairs_mem content_size)

declare workflowExpressionSources.simps [simp del]

end
