(* ===== verification/Job_Parse.thy ===== *)
theory Job_Parse
  imports Section_Parse Script_Source
begin

text \<open>
  Steps, jobs and workflows (\<open>internal/workflow/parse.go\<close>, \<open>parseActionInputMapping\<close> to
  \<open>Parse\<close>). The \<open>ExecAction\<close> the functions for inputs of Docker actions write to is an argument
  and a result; \<open>p\<close> is the index of the scalars of the file. \<open>yaml.Unmarshal\<close> is the argument of
  \<open>Parse\<close>.
\<close>

subsection \<open>Inputs of actions\<close>

text \<open>The loop of \<open>parseDockerInputExpression\<close> over the members of the object.\<close>

definition docker_member :: "ynode \<Rightarrow> wstring \<Rightarrow> string \<times> json \<Rightarrow> exec_action \<Rightarrow> exec_action parser_m" where
  "docker_member n expression = (\<lambda>(name, v) docker.
     let key = to_lower name in
     if key \<noteq> ''entrypoint'' \<and> key \<noteq> ''args'' then ret docker
     else case ScalarString v of
         None \<Rightarrow> ret docker
       | Some t \<Rightarrow>
           if key = ''entrypoint'' \<and> t = [] then do {node_error n EmptyString; ret docker}
           else
             let resolved = \<lparr>ws_value = t, ws_quoted = False, ws_pos = ws_pos expression\<rparr> in
             if key = ''entrypoint''
             then ret (docker\<lparr>ea_entrypoint := Some resolved, ea_entrypoint_evaluated := True\<rparr>)
             else ret (docker\<lparr>ea_args := Some resolved, ea_args_evaluated := True\<rparr>))"

definition parseDockerInputExpression :: "ynode \<Rightarrow> wstring option \<Rightarrow> exec_action option \<Rightarrow> exec_action option parser_m" where
  "parseDockerInputExpression n expression docker =
     (case (docker, expression) of
        (Some d, Some s) \<Rightarrow>
          (case WorkflowExpressionLiteral s of
             Some (JObj object) \<Rightarrow> do {
               d' \<leftarrow> for_each (sorted_entries object) (docker_member n s) d;
               ret (Some d')}
           | _ \<Rightarrow> ret docker)
      | _ \<Rightarrow> ret docker)"

text \<open>\<open>parseDockerInput\<close>: \<open>None\<close> if the entry is an input like any other.\<close>

definition parseDockerInput :: "map_entry \<Rightarrow> exec_action option \<Rightarrow> exec_action option parser_m" where
  "parseDockerInput e docker =
     (case docker of
        None \<Rightarrow> ret None
      | Some d \<Rightarrow>
          (case knownMappingKey (ent_key e) of
             None \<Rightarrow> ret None
           | Some key \<Rightarrow>
               let k = to_lower (ws_value key);
                   note_name = (\<lambda>d. if ws_ContainsExpression (ent_key e)
                     then d\<lparr>ea_name_expressions := ea_name_expressions d @ [ent_key e]\<rparr> else d)
               in if k = ''entrypoint'' then do {
                    s \<leftarrow> parseStringNode (ent_val e) False;
                    ret (Some (note_name (d\<lparr>ea_entrypoint := Some s, ea_entrypoint_evaluated := False\<rparr>)))}
                  else if k = ''args'' then do {
                    s \<leftarrow> parseStringNode (ent_val e) True;
                    ret (Some (note_name (d\<lparr>ea_args := Some s, ea_args_evaluated := False\<rparr>)))}
                  else ret None))"

definition parse_input :: "scalar_index \<Rightarrow> map_entry \<Rightarrow> action_input parser_m" where
  "parse_input p e = do {
     s \<leftarrow> parseStringNode (ent_val e) True;
     ret \<lparr>ai_name = ent_key e, ai_value = s,
       ai_source = ScriptSourceForDeclaration p (ent_val e) (ws_pos (ent_key e))\<rparr>}"

function parseActionInputMapping :: "scalar_index \<Rightarrow> ynode \<Rightarrow> bool \<Rightarrow> exec_action option \<Rightarrow> (action_inputs \<times> exec_action option) parser_m" where
  "parseActionInputMapping p n allowEmpty docker =
     (if yn_kind n = ScalarNode then do {
        expression \<leftarrow> parseExpressionNode n ''mapping value for with section'';
        docker \<leftarrow> parseDockerInputExpression n expression docker;
        ret (ActionInputs [] expression [], docker)}
      else for_entries (mapping_items (Section ''with'') n allowEmpty False True)
        (\<lambda>e (m, docker).
           if isMappingInsertion (ws_value (ent_key e)) then do {
             (i, docker) \<leftarrow> parseActionInputMapping p (ent_val e) True docker;
             ret (ActionInputs (am_inputs m) (am_expression m) (am_insertions m @ [i]), docker)}
           else do {
             d \<leftarrow> parseDockerInput e docker;
             if d \<noteq> None then ret (m, d)
             else do {
               x \<leftarrow> parse_input p e;
               ret (ActionInputs (al_put (ent_id e) x (am_inputs m)) (am_expression m) (am_insertions m), docker)}})
        (ActionInputs [] None [], docker))"
  by pat_completeness auto
termination
  by (relation "measure (\<lambda>(p, n, a, d). size n)") auto

declare parseActionInputMapping.simps [simp del]

text \<open>The body of the loop over \<open>with\<close>, which writes the inputs to the action itself.\<close>

definition parse_with_entry :: "scalar_index \<Rightarrow> bool \<Rightarrow> map_entry \<Rightarrow> exec_action \<Rightarrow> exec_action parser_m" where
  "parse_with_entry p isDocker e r =
     (if isMappingInsertion (ws_value (ent_key e)) then do {
        (i, d) \<leftarrow> parseActionInputMapping p (ent_val e) True (if isDocker then Some r else None);
        let r = (case d of Some d \<Rightarrow> d | None \<Rightarrow> r);
        ret (r\<lparr>ea_insertions := ea_insertions r @ [i]\<rparr>)}
      else do {
        d \<leftarrow> parseDockerInput e (if isDocker then Some r else None);
        case d of
          Some d \<Rightarrow> ret d
        | None \<Rightarrow> do {
            x \<leftarrow> parse_input p e;
            ret (r\<lparr>ea_inputs := al_put (ent_id e) x (ea_inputs r)\<rparr>)}})"

definition parse_with :: "scalar_index \<Rightarrow> bool \<Rightarrow> ynode \<Rightarrow> exec_action \<Rightarrow> exec_action parser_m" where
  "parse_with p isDocker n r =
     (case mayParseExpression n of
        Some expr \<Rightarrow>
          let r = r\<lparr>ea_expression := Some expr\<rparr> in
          if isDocker then do {
            d \<leftarrow> parseDockerInputExpression n (Some expr) (Some r);
            ret (case d of Some d \<Rightarrow> d | None \<Rightarrow> r)}
          else ret r
      | None \<Rightarrow>
          for_entries (mapping_items (Section ''with'') n False False True) (parse_with_entry p isDocker)
            (r\<lparr>ea_inputs := []\<rparr>))"

subsection \<open>What a step executes\<close>

definition common_step_keys :: "string list" where
  "common_step_keys = [''id'', ''if'', ''name'', ''env'', ''continue-on-error'', ''timeout-minutes'', ''background'']"

definition waiting_step_keys :: "string list" where
  "waiting_step_keys = [''id'', ''name'', ''continue-on-error'']"

definition empty_action :: exec_action where
  "empty_action =
     \<lparr>ea_uses = None, ea_inputs = [], ea_expression = None, ea_insertions = [], ea_entrypoint = None,
      ea_args = None, ea_entrypoint_evaluated = False, ea_args_evaluated = False, ea_name_expressions = []\<rparr>"

definition parseStepExecAction :: "scalar_index \<Rightarrow> map_entry list \<Rightarrow> bool \<Rightarrow> exec_action parser_m" where
  "parseStepExecAction p entries isDocker =
     for_each entries
       (\<lambda>e r.
          if ent_id e = ''uses'' then do {
            ok \<leftarrow> CheckString (ent_val e) False;
            if ok then do {s \<leftarrow> parseStaticString (ent_val e); ret (r\<lparr>ea_uses := Some s\<rparr>)} else ret r}
          else if ent_id e = ''with'' then parse_with p isDocker (ent_val e) r
          else if ent_id e \<in> set common_step_keys then ret r
          else do {
            unexpectedKey (ent_key e) ''step to execute action'' (common_step_keys @ [''uses'', ''with'']);
            ret r})
       empty_action"

definition parseStepExecRun :: "scalar_index \<Rightarrow> map_entry list \<Rightarrow> exec_run parser_m" where
  "parseStepExecRun p entries =
     for_each entries
       (\<lambda>e r.
          if ent_id e = ''run'' then do {
            s \<leftarrow> parseStringNode (ent_val e) False;
            ret (r\<lparr>er_run := Some s, er_run_pos := Some (ws_pos (ent_key e)),
              er_source := ScriptSourceForDeclaration p (ent_val e) (ws_pos (ent_key e))\<rparr>)}
          else if ent_id e = ''shell'' then do {
            s \<leftarrow> parseStaticString (ent_val e); ret (r\<lparr>er_shell := Some s\<rparr>)}
          else if ent_id e = ''working-directory'' then string_field (ent_val e) False (\<lambda>s. r\<lparr>er_working_directory := s\<rparr>)
          else if ent_id e \<in> set common_step_keys then ret r
          else do {
            unexpectedKey (ent_key e) ''step to run shell command''
              (common_step_keys @ [''run'', ''shell'', ''working-directory'']);
            ret r})
       \<lparr>er_run = None, er_source = None, er_shell = None, er_working_directory = None, er_run_pos = None\<rparr>"

definition parse_wait_all :: "ynode \<Rightarrow> unit parser_m" where
  "parse_wait_all n =
     (if yn_tag n = YamlTagNull then ret ()
      else do {
        b \<leftarrow> parseLiteralBool n;
        case b of
          Some x \<Rightarrow> unless (wb_value x) (node_error n WaitAllNotTrue)
        | None \<Rightarrow> ret ()})"

definition parseStepExecWait :: "map_entry list \<Rightarrow> exec_wait parser_m" where
  "parseStepExecWait entries = do {
     (r, waitGiven) \<leftarrow> for_each entries
       (\<lambda>e (r, waitGiven).
          if ent_id e = ''wait'' then do {
            ns \<leftarrow> parseStringOrStringSequence ''wait'' (ent_val e); ret (r\<lparr>ew_names := ns\<rparr>, True)}
          else if ent_id e = ''wait-all'' then do {
            parse_wait_all (ent_val e);
            ret (r\<lparr>ew_all := True, ew_all_pos := Some (ws_pos (ent_key e))\<rparr>, waitGiven)}
          else if ent_id e \<in> set waiting_step_keys then ret (r, waitGiven)
          else do {
            unexpectedKey (ent_key e) ''step to wait for background steps'' (waiting_step_keys @ [''wait'', ''wait-all'']);
            ret (r, waitGiven)})
       (\<lparr>ew_names = [], ew_all = False, ew_all_pos = None\<rparr>, False);
     case ew_all_pos r of
       Some pos \<Rightarrow> do {unless (\<not> (waitGiven \<and> ew_all r)) (errorAt pos WaitAndWaitAll); ret r}
     | None \<Rightarrow> ret r}"

definition parseStepExecCancel :: "map_entry list \<Rightarrow> wstring option parser_m" where
  "parseStepExecCancel entries =
     for_each entries
       (\<lambda>e r.
          if ent_id e = ''cancel'' then string_field (ent_val e) False (\<lambda>s. s)
          else if ent_id e \<in> set waiting_step_keys then ret r
          else do {
            unexpectedKey (ent_key e) ''step to cancel background steps'' (waiting_step_keys @ [''cancel'']);
            ret r})
       None"

subsection \<open>Steps\<close>

datatype step_kind = StepUnknown | StepAction | StepDocker | StepRun | StepWait | StepCancel | StepParallel

text \<open>\<open>slices.Collect\<close> of the entries reports their errors before anything is done with them.\<close>

definition report_items :: "mapping_item list \<Rightarrow> unit parser_m" where
  "report_items items = for_entries items (\<lambda>e u. ret u) ()"

text \<open>The text of \<open>uses\<close>, and the declaration kept for steps that do not execute an action.\<close>

definition uses_text :: "ynode \<Rightarrow> string" where
  "uses_text n = (case literalExpressionValue (yn_value n) of Some l \<Rightarrow> l | None \<Rightarrow> yn_value n)"

definition docker_prefix :: string where
  "docker_prefix = ''docker:'' @ ''//''"

definition parse_step_entry :: "map_entry \<Rightarrow> step_info \<times> step_kind \<times> wstring option \<Rightarrow> (step_info \<times> step_kind \<times> wstring option) parser_m" where
  "parse_step_entry e = (\<lambda>(r, kind, declared).
     let n = ent_val e in
     if ent_id e = ''id'' then do {s \<leftarrow> parseStaticString n; ret (r\<lparr>st_id := Some s\<rparr>, kind, declared)}
     else if ent_id e = ''if'' then do {s \<leftarrow> parseCondition n; ret (r\<lparr>st_if := Some s\<rparr>, kind, declared)}
     else if ent_id e = ''name'' then do {s \<leftarrow> parseStringNode n True; ret (r\<lparr>st_name := Some s\<rparr>, kind, declared)}
     else if ent_id e = ''env'' then do {v \<leftarrow> parseEnv n; ret (r\<lparr>st_env := Some v\<rparr>, kind, declared)}
     else if ent_id e = ''continue-on-error'' then do {b \<leftarrow> parseBool n; ret (r\<lparr>st_continue_on_error := b\<rparr>, kind, declared)}
     else if ent_id e = ''timeout-minutes'' then do {f \<leftarrow> parseTimeoutMinutes n; ret (r\<lparr>st_timeout := f\<rparr>, kind, declared)}
     else if ent_id e = ''background'' then do {b \<leftarrow> parseBool n; ret (r\<lparr>st_background := b\<rparr>, kind, declared)}
     else if ent_id e = ''uses'' then
       ret (r, if has_prefix (uses_text n) docker_prefix then StepDocker else StepAction,
         if yn_kind n = ScalarNode then Some ((newString n)\<lparr>ws_value := uses_text n\<rparr>) else declared)
     else if ent_id e = ''run'' then ret (r, StepRun, declared)
     else if ent_id e = ''wait'' \<or> ent_id e = ''wait-all'' then ret (r, StepWait, declared)
     else if ent_id e = ''cancel'' then ret (r, StepCancel, declared)
     else if ent_id e = ''parallel'' then ret (r, StepParallel, declared)
     else ret (r, kind, declared))"

definition empty_step :: "source_pos \<Rightarrow> step_info" where
  "empty_step pos =
     \<lparr>st_id = None, st_if = None, st_name = None, st_declared_uses = None, st_env = None,
      st_continue_on_error = None, st_timeout = None, st_background = None, st_pos = pos\<rparr>"

definition step_entries :: "ynode \<Rightarrow> mapping_item list" where
  "step_entries n = parseMappingAt ''element of steps section'' n False True"

lemma step_entries_size: "ItemEntry e \<in> set (step_entries n) \<Longrightarrow> size (ent_val e) < size n"
  by (simp add: step_entries_def parseMappingAt_def parseMapping_def)

text \<open>The \<open>parallel\<close> case (\<open>parseStepExecParallel\<close>) takes the parser of steps as an argument.\<close>

definition parseStepExecParallel :: "(ynode \<Rightarrow> step list option parser_m) \<Rightarrow> map_entry list \<Rightarrow> step list option parser_m" where
  "parseStepExecParallel steps entries =
     for_each entries
       (\<lambda>e r.
          if ent_id e = ''parallel'' then steps (ent_val e)
          else do {unexpectedKey (ent_key e) ''step to run steps in parallel'' [''parallel'']; ret r})
       None"

lemma parallel_cong [fundef_cong]:
  "es = fs \<Longrightarrow> (\<And>e. e \<in> set fs \<Longrightarrow> steps (ent_val e) = steps' (ent_val e)) \<Longrightarrow>
     parseStepExecParallel steps es = parseStepExecParallel steps' fs"
  unfolding parseStepExecParallel_def by (rule for_each_cong) auto

function ParseStep :: "scalar_index \<Rightarrow> ynode \<Rightarrow> step parser_m"
  and ParseSteps :: "scalar_index \<Rightarrow> ynode \<Rightarrow> step list option parser_m" where
  "ParseStep p n = do {
     report_items (step_entries n);
     (info, kind, declared) \<leftarrow> for_each (item_entries (step_entries n)) parse_step_entry (empty_step (PosAt n), StepUnknown, None);
     let info = (if kind \<noteq> StepAction \<and> kind \<noteq> StepDocker then info\<lparr>st_declared_uses := declared\<rparr> else info);
     exec \<leftarrow> (case kind of
         StepAction \<Rightarrow> do {x \<leftarrow> parseStepExecAction p (item_entries (step_entries n)) False; ret (Some (ExecAction x))}
       | StepDocker \<Rightarrow> do {x \<leftarrow> parseStepExecAction p (item_entries (step_entries n)) True; ret (Some (ExecAction x))}
       | StepRun \<Rightarrow> do {x \<leftarrow> parseStepExecRun p (item_entries (step_entries n)); ret (Some (ExecRun x))}
       | StepWait \<Rightarrow> do {x \<leftarrow> parseStepExecWait (item_entries (step_entries n)); ret (Some (ExecWait x))}
       | StepCancel \<Rightarrow> do {x \<leftarrow> parseStepExecCancel (item_entries (step_entries n)); ret (Some (ExecCancel x))}
       | StepParallel \<Rightarrow> do {
           x \<leftarrow> parseStepExecParallel (\<lambda>v. ParseSteps p v) (item_entries (step_entries n));
           ret (Some (ExecParallel x))}
       | StepUnknown \<Rightarrow> do {node_error n StepWithoutExec; ret None});
     ret (Step info exec)}"
| "ParseSteps p n = do {
     ok \<leftarrow> checkSequence ''steps'' n False;
     if \<not> ok then ret None
     else do {
       ss \<leftarrow> collect (\<lambda>c. ParseStep p c) (yn_content n);
       ret (Some ss)}}"
  by pat_completeness auto
termination
  by (relation "measure (\<lambda>x. case x of Inl (p, n) \<Rightarrow> size n | Inr (p, n) \<Rightarrow> size n)")
    (auto simp: step_entries_size content_size)

declare ParseStep.simps [simp del] ParseSteps.simps [simp del]

subsection \<open>Jobs\<close>

definition steps_only_keys :: "string list" where
  "steps_only_keys = [''runs-on'', ''environment'', ''outputs'', ''env'', ''defaults'', ''steps'', ''timeout-minutes'',
     ''cancel-timeout-minutes'', ''continue-on-error'', ''container'', ''services'', ''snapshot'']"

definition JobKeyRequiresSteps :: "string \<Rightarrow> bool" where
  "JobKeyRequiresSteps key \<longleftrightarrow> key \<in> set steps_only_keys"

definition call_only_keys :: "string list" where
  "call_only_keys = [''uses'', ''with'', ''secrets'']"

definition job_keys :: "string list" where
  "job_keys = [''name'', ''needs'', ''runs-on'', ''permissions'', ''cache-mode'', ''environment'', ''concurrency'',
     ''outputs'', ''env'', ''defaults'', ''if'', ''steps'', ''timeout-minutes'', ''cancel-timeout-minutes'',
     ''strategy'', ''continue-on-error'', ''container'', ''services'', ''uses'', ''with'', ''secrets'', ''snapshot'']"

text \<open>The variables of \<open>parseJob\<close>.\<close>

record job_state =
  js_job :: wf_job
  js_call :: workflow_call
  js_steps_key :: "wstring option"
  js_call_key :: "wstring option"

definition set_job :: "(wf_job \<Rightarrow> wf_job) \<Rightarrow> job_state \<Rightarrow> job_state" where
  "set_job f s = s\<lparr>js_job := f (js_job s)\<rparr>"

definition set_call :: "wstring \<Rightarrow> (workflow_call \<Rightarrow> workflow_call) \<Rightarrow> job_state \<Rightarrow> job_state" where
  "set_call k f s = s\<lparr>js_call := f (js_call s), js_call_key := Some k\<rparr>"

definition parse_job_secrets :: "ynode \<Rightarrow> (workflow_call \<Rightarrow> workflow_call) parser_m" where
  "parse_job_secrets n =
     (if yn_kind n = ScalarNode then
        (if yn_value n = ''inherit'' then ret (\<lambda>c. c\<lparr>wc_inherit := True\<rparr>)
         else do {node_error n (SecretsNotMapping (yn_value n)); ret id})
      else do {
        m \<leftarrow> parse_map (parseSectionMapping ''secrets'' n False False) parse_named;
        ret (\<lambda>c. c\<lparr>wc_secrets := m\<rparr>)})"

definition parse_needs :: "ynode \<Rightarrow> wstring list parser_m" where
  "parse_needs n =
     (if yn_kind n = ScalarNode then do {s \<leftarrow> parseStringNode n False; ret [s]}
      else parseStringSequence ''needs'' n False)"

text \<open>The cases of the keys of jobs with steps; \<open>None\<close> for another key.\<close>

definition parse_steps_job_key :: "scalar_index \<Rightarrow> map_entry \<Rightarrow> (wf_job \<Rightarrow> wf_job) parser_m option" where
  "parse_steps_job_key p e =
     (let v = ent_val e; pos = ws_pos (ent_key e); key = ent_id e in
      if key = ''runs-on'' then Some (do {x \<leftarrow> parseRunsOn v; ret (\<lambda>j. j\<lparr>wj_runs_on := Some x\<rparr>)})
      else if key = ''environment'' then Some (do {x \<leftarrow> parseEnvironment pos v; ret (\<lambda>j. j\<lparr>wj_environment := Some x\<rparr>)})
      else if key = ''outputs'' then Some (do {x \<leftarrow> parseOutputs v; ret (\<lambda>j. j\<lparr>wj_outputs := x\<rparr>)})
      else if key = ''env'' then Some (do {x \<leftarrow> parseEnv v; ret (\<lambda>j. j\<lparr>wj_env := Some x\<rparr>)})
      else if key = ''defaults'' then Some (do {x \<leftarrow> parseDefaults pos v; ret (\<lambda>j. j\<lparr>wj_defaults := Some x\<rparr>)})
      else if key = ''steps'' then Some (do {x \<leftarrow> ParseSteps p v; ret (\<lambda>j. j\<lparr>wj_steps := x\<rparr>)})
      else if key = ''timeout-minutes'' then Some (do {x \<leftarrow> parseTimeoutMinutes v; ret (\<lambda>j. j\<lparr>wj_timeout := x\<rparr>)})
      else if key = ''cancel-timeout-minutes'' then Some (do {x \<leftarrow> parseFloatNode v; ret (\<lambda>j. j\<lparr>wj_cancel_timeout := x\<rparr>)})
      else if key = ''continue-on-error'' then Some (do {x \<leftarrow> parseBool v; ret (\<lambda>j. j\<lparr>wj_continue_on_error := x\<rparr>)})
      else if key = ''container'' then Some (do {x \<leftarrow> parseContainer ''container'' pos v; ret (\<lambda>j. j\<lparr>wj_container := Some x\<rparr>)})
      else if key = ''services'' then Some (do {x \<leftarrow> parseServices v; ret (\<lambda>j. j\<lparr>wj_services := Some x\<rparr>)})
      else if key = ''snapshot'' then Some (do {x \<leftarrow> parseSnapshot pos v; ret (\<lambda>j. j\<lparr>wj_snapshot := x\<rparr>)})
      else None)"

text \<open>The cases of the keys all jobs can have.\<close>

definition parse_common_job_key :: "map_entry \<Rightarrow> (wf_job \<Rightarrow> wf_job) parser_m option" where
  "parse_common_job_key e =
     (let v = ent_val e; pos = ws_pos (ent_key e); key = ent_id e in
      if key = ''name'' then Some (do {x \<leftarrow> parseStringNode v True; ret (\<lambda>j. j\<lparr>wj_name := Some x\<rparr>)})
      else if key = ''needs'' then Some (do {x \<leftarrow> parse_needs v; ret (\<lambda>j. j\<lparr>wj_needs := x\<rparr>)})
      else if key = ''permissions'' then Some (do {x \<leftarrow> parsePermissions pos v; ret (\<lambda>j. j\<lparr>wj_permissions := Some x\<rparr>)})
      else if key = ''cache-mode'' then Some (do {x \<leftarrow> parseCacheMode v; ret (\<lambda>j. j\<lparr>wj_cache_mode := x\<rparr>)})
      else if key = ''concurrency'' then Some (do {x \<leftarrow> parseConcurrency pos v; ret (\<lambda>j. j\<lparr>wj_concurrency := Some x\<rparr>)})
      else if key = ''if'' then Some (do {x \<leftarrow> parseCondition v; ret (\<lambda>j. j\<lparr>wj_if := Some x\<rparr>)})
      else if key = ''strategy'' then Some (do {x \<leftarrow> parseStrategy pos v; ret (\<lambda>j. j\<lparr>wj_strategy := Some x\<rparr>)})
      else None)"

text \<open>The cases of the keys of calls of reusable workflows.\<close>

definition parse_call_key :: "map_entry \<Rightarrow> (workflow_call \<Rightarrow> workflow_call) parser_m option" where
  "parse_call_key e =
     (let v = ent_val e in
      if ent_id e = ''uses'' then Some (do {x \<leftarrow> parseStaticString v; ret (\<lambda>c. c\<lparr>wc_uses := Some x\<rparr>)})
      else if ent_id e = ''with'' then
        Some (do {m \<leftarrow> parse_map (parseSectionMapping ''with'' v False False) parse_named; ret (\<lambda>c. c\<lparr>wc_inputs := m\<rparr>)})
      else if ent_id e = ''secrets'' then Some (parse_job_secrets v)
      else None)"

definition parse_job_entry :: "scalar_index \<Rightarrow> map_entry \<Rightarrow> job_state \<Rightarrow> job_state parser_m" where
  "parse_job_entry p e s =
     (let s = (if JobKeyRequiresSteps (ent_id e) then s\<lparr>js_steps_key := Some (ent_key e)\<rparr> else s) in
      case parse_steps_job_key p e of
        Some m \<Rightarrow> do {f \<leftarrow> m; ret (set_job f s)}
      | None \<Rightarrow>
          (case parse_common_job_key e of
             Some m \<Rightarrow> do {f \<leftarrow> m; ret (set_job f s)}
           | None \<Rightarrow>
               (case parse_call_key e of
                  Some m \<Rightarrow> do {f \<leftarrow> m; ret (set_call (ent_key e) f s)}
                | None \<Rightarrow> do {unexpectedKey (ent_key e) ''job'' job_keys; ret s})))"

definition empty_job :: "wstring \<Rightarrow> wf_job" where
  "empty_job name =
     \<lparr>wj_id = name, wj_name = None, wj_needs = [], wj_runs_on = None, wj_permissions = None,
      wj_cache_mode = None, wj_environment = None, wj_concurrency = None, wj_outputs = [], wj_env = None,
      wj_defaults = None, wj_if = None, wj_steps = None, wj_timeout = None, wj_cancel_timeout = None,
      wj_strategy = None, wj_continue_on_error = None, wj_container = None, wj_services = None,
      wj_workflow_call = None, wj_declared_uses = None, wj_snapshot = None, wj_pos = ws_pos name\<rparr>"

definition empty_job_state :: "wstring \<Rightarrow> job_state" where
  "empty_job_state name =
     \<lparr>js_job = empty_job name, js_call = \<lparr>wc_uses = None, wc_inputs = [], wc_secrets = [], wc_inherit = False\<rparr>,
      js_steps_key = None, js_call_key = None\<rparr>"

text \<open>The end of \<open>parseJob\<close>: a job runs steps or calls a workflow.\<close>

definition finish_job :: "wstring \<Rightarrow> job_state \<Rightarrow> wf_job parser_m" where
  "finish_job name s =
     (let j = js_job s in
      if wc_uses (js_call s) \<noteq> None then
        (case js_steps_key s of
           Some k \<Rightarrow> do {
             errorAt (ws_pos k) (UsesWithSteps (ws_value k) (ws_value name));
             ret (j\<lparr>wj_declared_uses := wc_uses (js_call s)\<rparr>)}
         | None \<Rightarrow> ret (j\<lparr>wj_workflow_call := Some (js_call s)\<rparr>))
      else do {
        unless (wj_steps j \<noteq> None) (errorAt (ws_pos name) (StepsMissing (ws_value name)));
        unless (wj_runs_on j \<noteq> None) (errorAt (ws_pos name) (RunsOnMissing (ws_value name)));
        (case js_call_key s of
           Some k \<Rightarrow> errorAt (ws_pos k) (CallKeyWithoutUses (ws_value k) (ws_value name))
         | None \<Rightarrow> ret ());
        ret j})"

definition parseJob :: "scalar_index \<Rightarrow> wstring \<Rightarrow> ynode \<Rightarrow> wf_job parser_m" where
  "parseJob p name n = do {
     s \<leftarrow> for_entries (parseMapping (JobMapping (ws_value name)) n False True) (parse_job_entry p) (empty_job_state name);
     finish_job name s}"

definition parseJobs :: "scalar_index \<Rightarrow> ynode \<Rightarrow> (string \<times> wf_job) list parser_m" where
  "parseJobs p n =
     parse_map (parseSectionMapping ''jobs'' n False False) (\<lambda>e. parseJob p (ent_key e) (ent_val e))"

end
