(* ===== verification/Workflow_Parse.thy ===== *)
theory Workflow_Parse
  imports Job_Parse
begin

text \<open>
  The parser of a whole file (\<open>parse\<close> and \<open>Parse\<close> of \<open>internal/workflow/parse.go\<close>) and its
  diagnostics (\<open>parse_finding.go\<close>). \<open>yaml.Unmarshal\<close>, a third-party parser behind a bridge, is an
  argument: it gives the root node or an error.
\<close>

definition alias_errors :: "alias_report list \<Rightarrow> syntax_error list" where
  "alias_errors rs =
     map (\<lambda>(i, m). \<lparr>se_problem = AliasProblem m, se_pos = info_pos i, se_alias = None\<rparr>) rs"

definition emit_all :: "syntax_error list \<Rightarrow> unit parser_m" where
  "emit_all es = for_each es (\<lambda>e u. emit_error e) ()"

definition workflow_keys :: "string list" where
  "workflow_keys = [''name'', ''description'', ''run-name'', ''on'', ''permissions'', ''cache-mode'', ''env'',
     ''defaults'', ''concurrency'', ''jobs'']"

definition empty_workflow :: workflow where
  "empty_workflow =
     \<lparr>wk_sources = [], wk_name = None, wk_description = None, wk_run_name = None, wk_on = None,
      wk_permissions = None, wk_cache_mode = None, wk_env = None, wk_defaults = None,
      wk_concurrency = None, wk_jobs = None, wk_pos = None\<rparr>"

definition parse_workflow_entry :: "scalar_index \<Rightarrow> map_entry \<Rightarrow> workflow \<Rightarrow> workflow parser_m" where
  "parse_workflow_entry p e w =
     (let v = ent_val e; pos = ws_pos (ent_key e); key = ent_id e in
      if key = ''name'' then string_field v True (\<lambda>s. w\<lparr>wk_name := s\<rparr>)
      else if key = ''description'' then string_field v True (\<lambda>s. w\<lparr>wk_description := s\<rparr>)
      else if key = ''on'' then do {x \<leftarrow> parseEvents v; ret (w\<lparr>wk_on := x\<rparr>)}
      else if key = ''permissions'' then do {x \<leftarrow> parsePermissions pos v; ret (w\<lparr>wk_permissions := Some x\<rparr>)}
      else if key = ''cache-mode'' then do {x \<leftarrow> parseCacheMode v; ret (w\<lparr>wk_cache_mode := x\<rparr>)}
      else if key = ''env'' then do {x \<leftarrow> parseEnv v; ret (w\<lparr>wk_env := Some x\<rparr>)}
      else if key = ''defaults'' then do {x \<leftarrow> parseDefaults pos v; ret (w\<lparr>wk_defaults := Some x\<rparr>)}
      else if key = ''concurrency'' then do {x \<leftarrow> parseConcurrency pos v; ret (w\<lparr>wk_concurrency := Some x\<rparr>)}
      else if key = ''jobs'' then do {x \<leftarrow> parseJobs p v; ret (w\<lparr>wk_jobs := Some x\<rparr>)}
      else if key = ''run-name'' then string_field v False (\<lambda>s. w\<lparr>wk_run_name := s\<rparr>)
      else do {unexpectedKey (ent_key e) ''workflow'' workflow_keys; ret w})"

text \<open>The root of a file without content has no position.\<close>

definition fix_root :: "ynode \<Rightarrow> ynode" where
  "fix_root n =
     (let i = yn_info n in
      YNode (i\<lparr>ni_line := (if ni_line i = 0 then 1 else ni_line i),
               ni_column := (if ni_column i = 0 then 1 else ni_column i)\<rparr>) (yn_content n))"

definition root_pos :: "ynode \<Rightarrow> source_pos option" where
  "root_pos body =
     (case yn_content body of k # _ \<Rightarrow> if yn_kind body = MappingNode then Some (PosAt k) else None | [] \<Rightarrow> None)"

definition parse_body :: "scalar_index \<Rightarrow> ynode \<Rightarrow> workflow parser_m" where
  "parse_body p n =
     (case yn_content n of
        [] \<Rightarrow> do {node_error n WorkflowEmpty; ret empty_workflow}
      | body # _ \<Rightarrow> do {
          w \<leftarrow> for_entries (parseSectionMapping ''workflow'' body False True) (parse_workflow_entry p)
            (empty_workflow\<lparr>wk_pos := root_pos body\<rparr>);
          unless (wk_on w \<noteq> None) (node_error n OnMissing);
          unless (wk_jobs w \<noteq> None) (node_error n JobsMissing);
          ret w})"

definition parse_root :: "scalar_index \<Rightarrow> ynode \<Rightarrow> workflow parser_m" where
  "parse_root p n =
     (case ResolveYAMLAliases n of
        (m, reports) \<Rightarrow> do {
          emit_all (alias_errors reports);
          w \<leftarrow> parse_body p (fix_root m);
          ret (w\<lparr>wk_sources := workflowExpressionSources p (fix_root m) False []\<rparr>)})"

subsection \<open>Parse\<close>

text \<open>The errors of the YAML bridge: of decoding, of loading, and any other.\<close>

datatype yaml_error =
    DecodeError "(string \<times> source_pos) list"
  | LoadError string source_pos
  | OtherError string

fun HandleYAMLUnmarshalError :: "yaml_error \<Rightarrow> syntax_error list" where
  "HandleYAMLUnmarshalError (DecodeError es) =
     map (\<lambda>(m, pos). \<lparr>se_problem = YamlProblem m, se_pos = pos, se_alias = None\<rparr>) es"
| "HandleYAMLUnmarshalError (LoadError m pos) = [\<lparr>se_problem = YamlProblem m, se_pos = pos, se_alias = None\<rparr>]"
| "HandleYAMLUnmarshalError (OtherError m) = [\<lparr>se_problem = YamlProblem m, se_pos = no_pos, se_alias = None\<rparr>]"

definition parse_tree :: "string \<Rightarrow> ynode \<Rightarrow> workflow parser_m" where
  "parse_tree b n =
     (let p = IndexScalarSources (NewDocument b) n in
      do {
        emit_all (map (\<lambda>k. plain_error k FlowMappingNull) (checkFlowMappingNulls p n False));
        parse_root p n})"

definition Parse :: "(string \<Rightarrow> yaml_error + ynode) \<Rightarrow> string \<Rightarrow> workflow option \<times> syntax_error list" where
  "Parse unmarshal b =
     (case unmarshal b of
        Inl e \<Rightarrow> (None, HandleYAMLUnmarshalError e)
      | Inr n \<Rightarrow> (case run_state (parse_tree b n) [] of (w, es) \<Rightarrow> (Some w, es)))"

subsection \<open>Diagnostics\<close>

record syntax_diagnostic =
  sd_problem :: parse_problem
  sd_start :: source_pos
  sd_end :: source_pos
  sd_snippet :: string

definition Diagnostic :: "string \<Rightarrow> syntax_error \<Rightarrow> syntax_diagnostic" where
  "Diagnostic source e =
     (let snippet = (case SourceLine source (at_line (se_pos e)) of Some l \<Rightarrow> l | None \<Rightarrow> []) in
      \<lparr>sd_problem = se_problem e, sd_start = se_pos e,
       sd_end = \<lparr>at_line = at_line (se_pos e), at_col = TokenEndColumn snippet (at_col (se_pos e))\<rparr>,
       sd_snippet = snippet\<rparr>)"

definition ParseDocument :: "(string \<Rightarrow> yaml_error + ynode) \<Rightarrow> string \<Rightarrow> workflow option \<times> syntax_diagnostic list" where
  "ParseDocument unmarshal source =
     (case Parse unmarshal source of (tree, findings) \<Rightarrow> (tree, map (Diagnostic source) findings))"

end
