(* ===== verification/Parse_Spec.thy ===== *)
theory Parse_Spec
  imports Workflow_Parse Mapping_Spec
begin

text \<open>
  What the functions of the workflow parser promise, in the terms of \<open>spec\<close>: every error they
  report is at a position of the tree they read (\<open>located\<close>), and if there is none the result is
  complete. \<open>spec_steps\<close> holds, for each function, the rule for its call inside a sequence and
  at the end of one; a proof of a function is then an introduction of rules along its text.
\<close>

subsection \<open>Loops with a history\<close>

lemma spec_tail: "spec P m V R \<Longrightarrow> (\<And>x. V x \<Longrightarrow> U x) \<Longrightarrow> (\<And>x. V x \<Longrightarrow> R x \<Longrightarrow> Q x) \<Longrightarrow> spec P m U Q"
  by (rule spec_weaken)

named_theorems spec_steps

lemmas [spec_steps] = spec_return spec_if spec_let spec_option spec_pair

text \<open>\<open>I done s\<close> holds of the state after the elements \<open>done\<close> if no error was reported.\<close>

lemma spec_each:
  assumes "U s" and "I [] s"
    and step: "\<And>past x s. set past \<subseteq> set xs \<Longrightarrow> x \<in> set xs \<Longrightarrow> U s \<Longrightarrow> spec P (f x s) U (\<lambda>s'. I past s \<longrightarrow> I (past @ [x]) s')"
  shows "spec P (for_each xs f s) U (\<lambda>s'. I xs s')"
proof -
  have "spec P (for_each ys f s) U (\<lambda>s'. I past s \<longrightarrow> I (past @ ys) s')"
    if "U s" "set past \<subseteq> set xs" "set ys \<subseteq> set xs" for past ys s
    using that
  proof (induction ys arbitrary: past s)
    case (Cons y ys)
    have m: "spec P (f y s) U (\<lambda>s'. I past s \<longrightarrow> I (past @ [y]) s')" using Cons.prems step by simp
    have "spec P (for_each ys f r) U (\<lambda>s'. (I past s \<longrightarrow> I (past @ [y]) r) \<longrightarrow> I past s \<longrightarrow> I (past @ y # ys) s')"
      if "U r" for r
      by (rule spec_weaken [OF Cons.IH [OF that, of "past @ [y]"]]) (use Cons.prems in auto)
    with m show ?case unfolding for_each.simps by (rule spec_bind)
  qed (simp add: spec_return)
  from this [OF assms(1), of "[]" xs] assms(2) show ?thesis by simp
qed

definition clean_items :: "mapping_item list \<Rightarrow> bool" where
  "clean_items items \<longleftrightarrow> list_all (\<lambda>i. case i of ItemError _ \<Rightarrow> False | ItemEntry _ \<Rightarrow> True) items"

lemma item_entries_simps [simp]:
  "item_entries [] = []" "item_entries (ItemEntry e # is) = e # item_entries is"
  "item_entries (ItemError x # is) = item_entries is" "item_entries (is @ js) = item_entries is @ item_entries js"
  by (simp_all add: item_entries_def)

lemma clean_items_simps [simp]:
  "clean_items []" "clean_items (ItemEntry e # is) = clean_items is" "\<not> clean_items (ItemError x # is)"
  "clean_items (is @ js) \<longleftrightarrow> clean_items is \<and> clean_items js"
  by (simp_all add: clean_items_def)

lemma spec_entries:
  assumes "U s" and "I [] s" and errs: "\<And>e. ItemError e \<in> set items \<Longrightarrow> P e"
    and step: "\<And>past e s. set past \<subseteq> set (item_entries items) \<Longrightarrow> ItemEntry e \<in> set items \<Longrightarrow> U s
      \<Longrightarrow> spec P (f e s) U (\<lambda>s'. I past s \<longrightarrow> I (past @ [e]) s')"
  shows "spec P (for_entries items f s) U (\<lambda>s'. clean_items items \<and> I (item_entries items) s')"
proof -
  let ?g = "\<lambda>i s. case i of ItemError e \<Rightarrow> do {emit_error e; State_Monad.return s} | ItemEntry e \<Rightarrow> f e s"
  have "spec P (for_each items ?g s) U (\<lambda>s'. clean_items items \<and> I (item_entries items) s')"
  proof (rule spec_each [where U = U and s = s and I = "\<lambda>is s. clean_items is \<and> I (item_entries is) s", OF assms(1)])
    fix past i s
    assume a: "set past \<subseteq> set items" "i \<in> set items" "U s"
    show "spec P (?g i s) U (\<lambda>s'. clean_items past \<and> I (item_entries past) s
        \<longrightarrow> clean_items (past @ [i]) \<and> I (item_entries (past @ [i])) s')"
    proof (cases i)
      case (ItemError e)
      then have "spec P (emit_error e) (\<lambda>_. True) (\<lambda>_. False)" using errs a by (auto intro: spec_emit)
      then have "spec P (do {emit_error e; State_Monad.return s}) U (\<lambda>_. False)"
        by (rule spec_bind) (auto intro: spec_return simp: a)
      then show ?thesis using ItemError by (auto intro: spec_tail)
    next
      case (ItemEntry e)
      have "set (item_entries past) \<subseteq> set (item_entries items)" using a by auto
      from step [OF this] show ?thesis using ItemEntry a by (auto intro: spec_tail)
    qed
  qed (simp add: assms(2))
  then show ?thesis by (simp add: for_entries_def)
qed

text \<open>The same without the history.\<close>

lemma spec_entries_inv:
  assumes "U s" and "Q s" and "\<And>e. ItemError e \<in> set items \<Longrightarrow> P e"
    and "\<And>e s. ItemEntry e \<in> set items \<Longrightarrow> U s \<Longrightarrow> spec P (f e s) U (\<lambda>s'. Q s \<longrightarrow> Q s')"
  shows "spec P (for_entries items f s) U (\<lambda>s'. clean_items items \<and> Q s')"
  by (rule spec_entries [where I = "\<lambda>_. Q"]) (use assms in auto)

subsection \<open>Positions\<close>

definition located :: "source_pos set \<Rightarrow> syntax_error \<Rightarrow> bool" where
  "located R e \<longleftrightarrow> se_pos e \<in> R"

definition node_in :: "source_pos set \<Rightarrow> ynode \<Rightarrow> bool" where
  "node_in R n \<longleftrightarrow> PosAt n \<in> R \<and> (case ni_via (yn_info n) of None \<Rightarrow> True | Some (_, pos) \<Rightarrow> pos \<in> R)"

definition tree_in :: "source_pos set \<Rightarrow> ynode \<Rightarrow> bool" where
  "tree_in R n \<longleftrightarrow> list_all (node_in R) (tree_nodes n)"

lemma tree_in_node [simp]: "tree_in R n \<Longrightarrow> node_in R n"
  by (simp add: tree_in_def list_all_iff)

lemma tree_in_PosAt [simp]: "tree_in R n \<Longrightarrow> PosAt n \<in> R"
  by (auto dest: tree_in_node simp: node_in_def)

lemma tree_in_content: "tree_in R n \<Longrightarrow> c \<in> set (yn_content n) \<Longrightarrow> tree_in R c"
  using tree_nodes_content by (fastforce simp: tree_in_def list_all_iff)

lemma tree_in_with_value [simp]: "tree_in R n \<Longrightarrow> node_in R (with_value v n)"
  by (auto dest: tree_in_node simp: node_in_def)

lemma located_plain [simp]: "located R (plain_error n m) \<longleftrightarrow> PosAt n \<in> R"
  by (simp add: located_def plain_error_def)

lemma located_type [simp]: "node_in R n \<Longrightarrow> located R (type_error n m)"
  by (auto simp: located_def type_error_def node_in_def split: option.splits prod.splits)

lemma located_at [simp]: "located R \<lparr>se_problem = m, se_pos = pos, se_alias = a\<rparr> \<longleftrightarrow> pos \<in> R"
  by (simp add: located_def)

lemma newString_simps [simp]: "ws_value (newString n) = yn_value n" "ws_pos (newString n) = PosAt n"
  by (simp_all add: newString_def)

subsection \<open>Leaves\<close>

lemma errorAt_spec: "pos \<in> R \<Longrightarrow> spec (located R) (errorAt pos m) anything (\<lambda>_. False)"
  by (auto simp: errorAt_def intro: spec_emit)

lemma node_error_spec: "PosAt n \<in> R \<Longrightarrow> spec (located R) (node_error n m) anything (\<lambda>_. False)"
  by (auto simp: node_error_def intro: errorAt_spec)

lemma typeErrorf_spec: "node_in R n \<Longrightarrow> spec (located R) (typeErrorf n m) anything (\<lambda>_. False)"
  by (auto simp: typeErrorf_def intro: spec_emit)

lemma unexpectedKey_spec: "ws_pos s \<in> R \<Longrightarrow> spec (located R) (unexpectedKey s sec ks) anything (\<lambda>_. False)"
  by (auto simp: unexpectedKey_def intro: errorAt_spec)

lemmas [spec_steps] =
  errorAt_spec [THEN spec_bind] node_error_spec [THEN spec_bind] typeErrorf_spec [THEN spec_bind] unexpectedKey_spec [THEN spec_bind]
  errorAt_spec [THEN spec_tail] node_error_spec [THEN spec_tail] typeErrorf_spec [THEN spec_tail] unexpectedKey_spec [THEN spec_tail]

lemma check_with_spec: "(\<And>e. r = Some e \<Longrightarrow> P e) \<Longrightarrow> spec P (check_with r) (\<lambda>ok. ok \<longleftrightarrow> r = None) (\<lambda>_. r = None)"
  unfolding check_with_def
  by (cases r) (auto intro!: spec_return spec_emit spec_bind [OF spec_emit [where U = anything and Q = "\<lambda>_. False"]])

lemma raw_tag_located: "PosAt n \<in> R \<Longrightarrow> raw_tag_error n = Some e \<Longrightarrow> located R e"
  by (auto simp: raw_tag_error_def)

lemma checkRawYAMLTag_spec:
  "PosAt n \<in> R \<Longrightarrow> spec (located R) (checkRawYAMLTag n) (\<lambda>ok. ok \<longleftrightarrow> raw_tag_error n = None) (\<lambda>_. raw_tag_error n = None)"
  unfolding checkRawYAMLTag_def by (rule check_with_spec) (rule raw_tag_located)

lemma raw_tags_located: "tree_in R n \<Longrightarrow> e \<in> set (checkRawYAMLTags n) \<Longrightarrow> located R e"
proof (induction n)
  case (YNode i cs)
  show ?case
  proof (cases "\<exists>c\<in>set cs. e \<in> set (checkRawYAMLTags c)")
    case True
    then show ?thesis using YNode by (metis tree_in_content ynode.sel(2))
  next
    case False
    then have "raw_tag_error (YNode i cs) = Some e" using YNode.prems by (auto split: option.splits)
    then show ?thesis using YNode.prems by (blast intro: raw_tag_located tree_in_PosAt)
  qed
qed

lemma string_error_located: "node_in R n \<Longrightarrow> string_error n allowEmpty = Some e \<Longrightarrow> located R e"
  by (auto simp: string_error_def node_in_def raw_tag_error_def split: if_splits option.splits)

definition string_node :: "ynode \<Rightarrow> bool \<Rightarrow> bool" where
  "string_node n allowEmpty \<longleftrightarrow> yn_kind n = ScalarNode \<and> (allowEmpty \<or> yn_value n \<noteq> [])"

lemma string_error_None: "string_error n allowEmpty = None \<Longrightarrow> string_node n allowEmpty"
  by (auto simp: string_error_def string_node_def split: if_splits option.splits)

lemma CheckString_spec:
  "node_in R n \<Longrightarrow> spec (located R) (CheckString n allowEmpty) (\<lambda>ok. ok \<longrightarrow> string_node n allowEmpty) (\<lambda>ok. ok)"
  unfolding CheckString_def
  by (rule spec_weaken [OF check_with_spec]) (auto dest: string_error_located string_error_None)

lemma checkSequence_spec:
  "tree_in R n \<Longrightarrow> spec (located R) (checkSequence sec n allowEmpty)
     (\<lambda>ok. ok \<longrightarrow> yn_kind n = SequenceNode \<and> (allowEmpty \<or> yn_content n \<noteq> [])) (\<lambda>ok. ok)"
  unfolding checkSequence_def checkNotEmpty_def
  by (intro spec_if spec_return spec_weaken [OF check_with_spec]) (auto dest: tree_in_node split: if_splits)

lemma checkNotEmpty_spec:
  "PosAt n \<in> R \<Longrightarrow> spec (located R) (checkNotEmpty sec c n) anything (\<lambda>_. c \<noteq> 0)"
  unfolding checkNotEmpty_def by (rule spec_weaken [OF check_with_spec]) (auto split: if_splits)

lemmas [spec_steps] =
  checkRawYAMLTag_spec [THEN spec_bind] CheckString_spec [THEN spec_bind] checkSequence_spec [THEN spec_bind]
  checkNotEmpty_spec [THEN spec_bind]

subsection \<open>Scalars\<close>

definition nonempty :: "wstring \<Rightarrow> bool" where
  "nonempty s \<longleftrightarrow> ws_value s \<noteq> []"

definition expression_ok :: "wstring \<Rightarrow> bool" where
  "expression_ok s \<longleftrightarrow> IsExprAssigned (ws_value s)"

definition bool_ok :: "wbool \<Rightarrow> bool" where
  "bool_ok b \<longleftrightarrow> pred_option expression_ok (wb_expr b)"

definition int_ok :: "wint \<Rightarrow> bool" where
  "int_ok i \<longleftrightarrow> pred_option expression_ok (wi_expr i)"

definition float_ok :: "wfloat \<Rightarrow> bool" where
  "float_ok f \<longleftrightarrow> wf_value f \<noteq> F64NaN \<and> pred_option expression_ok (wf_expr f)"

text \<open>The result is there and satisfies \<open>f\<close>.\<close>

definition given :: "('a \<Rightarrow> bool) \<Rightarrow> 'a option \<Rightarrow> bool" where
  "given f x \<longleftrightarrow> (case x of None \<Rightarrow> False | Some y \<Rightarrow> f y)"

lemma given_simps [simp]: "\<not> given f None" "given f (Some x) \<longleftrightarrow> f x"
  by (simp_all add: given_def)

lemma given_pred [simp]: "given f x \<Longrightarrow> pred_option f x"
  by (cases x) auto

lemma given_Some: "given f x \<Longrightarrow> x \<noteq> None"
  by (cases x) auto

lemma parseExpressionNode_spec:
  "node_in R n \<Longrightarrow> spec (located R) (parseExpressionNode n t) anything (given expression_ok)"
  unfolding parseExpressionNode_def missingExpression_def
  by (intro spec_steps) (auto simp: expression_ok_def)

lemma parseStringNode_spec:
  "node_in R n \<Longrightarrow> spec (located R) (parseStringNode n allowEmpty) (\<lambda>s. ws_pos s = PosAt n)
     (\<lambda>s. string_node n allowEmpty \<and> s = newString n)"
  unfolding parseStringNode_def by (intro spec_steps) auto

lemmas [spec_steps] =
  parseExpressionNode_spec [THEN spec_bind] parseExpressionNode_spec [THEN spec_tail]
  parseStringNode_spec [THEN spec_bind] parseStringNode_spec [THEN spec_tail]

lemma string_node_nonempty [simp]: "string_node n False \<Longrightarrow> nonempty (newString n)"
  by (simp add: string_node_def nonempty_def)

lemma parseCondition_spec:
  "node_in R n \<Longrightarrow> spec (located R) (parseCondition n) anything nonempty"
  unfolding parseCondition_def
  by (intro spec_steps) (auto simp: nonempty_def trim_space_def trim_left_def)

lemma parseStaticString_spec:
  "tree_in R n \<Longrightarrow> spec (located R) (parseStaticString n) anything nonempty"
  unfolding parseStaticString_def by (intro spec_steps) auto

lemma parseStringSequence_spec:
  "tree_in R n \<Longrightarrow> spec (located R) (parseStringSequence sec n allowEmpty) anything
     (\<lambda>ss. list_all nonempty ss \<and> (allowEmpty \<or> ss \<noteq> []))"
  unfolding parseStringSequence_def
  by (intro spec_steps spec_tail [OF spec_collect [where R = nonempty]] parseStringNode_spec [THEN spec_tail])
    (auto dest: tree_in_content)

lemmas [spec_steps] =
  parseCondition_spec [THEN spec_bind] parseStaticString_spec [THEN spec_bind]
  parseStringSequence_spec [THEN spec_bind] parseStringSequence_spec [THEN spec_tail]

lemma parseStringOrStringSequence_spec:
  "tree_in R n \<Longrightarrow> spec (located R) (parseStringOrStringSequence sec n) anything (\<lambda>ss. list_all nonempty ss \<and> ss \<noteq> [])"
  unfolding parseStringOrStringSequence_def by (intro spec_steps) auto

lemma parseBool_spec: "tree_in R n \<Longrightarrow> spec (located R) (parseBool n) anything (given bool_ok)"
  unfolding parseBool_def by (intro spec_steps) (auto simp: bool_ok_def)

lemma parseLiteralBool_spec:
  "tree_in R n \<Longrightarrow> spec (located R) (parseLiteralBool n) anything (given bool_ok)"
  unfolding parseLiteralBool_def
  by (intro spec_steps parseBool_spec [THEN spec_tail]) (auto simp: bool_ok_def)

lemma given_map [simp]: "given f (map_option g x) \<longleftrightarrow> given (\<lambda>y. f (g y)) x"
  by (cases x) auto

lemma parseIntNode_spec: "tree_in R n \<Longrightarrow> spec (located R) (parseIntNode n) anything (given int_ok)"
  unfolding parseIntNode_def by (intro spec_steps) (auto simp: int_ok_def)

lemma parseFloatNode_spec: "tree_in R n \<Longrightarrow> spec (located R) (parseFloatNode n) anything (given float_ok)"
  unfolding parseFloatNode_def by (intro spec_steps) (auto simp: float_ok_def)

lemmas [spec_steps] =
  parseStringOrStringSequence_spec [THEN spec_bind] parseStringOrStringSequence_spec [THEN spec_tail]
  parseBool_spec [THEN spec_bind] parseLiteralBool_spec [THEN spec_bind]
  parseIntNode_spec [THEN spec_bind] parseFloatNode_spec [THEN spec_bind]

subsection \<open>Entries of mappings\<close>

lemma InputResolver_pos [simp]: "rs_NewText InputResolver t (Some s) = s\<lparr>ws_value := t\<rparr>"
  by (simp add: InputResolver_def)

lemma resolver_Key_pos: "resolver_Key InputResolver s = Some k \<Longrightarrow> ws_pos k = ws_pos s"
  by (auto simp: resolver_Key_def ResolveKey_def Let_def split: option.splits if_splits)

lemma KeyNode_pos: "node_in R n \<Longrightarrow> node_in R (KeyNode InputResolver newString n)"
  by (auto simp: KeyNode_def node_in_def split: option.splits)

lemma al_put_mem: "(k, v) \<in> set (al_put k' v' m) \<Longrightarrow> (k, v) = (k', v') \<or> (k, v) \<in> set m"
  by (induction m) (auto split: if_splits)

lemma fold_keeps: "P s \<Longrightarrow> (\<And>x s. x \<in> set xs \<Longrightarrow> P s \<Longrightarrow> P (f x s)) \<Longrightarrow> P (fold f xs s)"
  by (induction xs arbitrary: s) auto

definition keys_in :: "source_pos set \<Rightarrow> (string \<times> wstring) list \<Rightarrow> bool" where
  "keys_in R m \<longleftrightarrow> (\<forall>(k, s)\<in>set m. ws_pos s \<in> R)"

lemma keys_in_put: "keys_in R m \<Longrightarrow> ws_pos s \<in> R \<Longrightarrow> keys_in R (al_put k s m)"
  by (auto simp: keys_in_def dest!: al_put_mem)

lemma inserted_object_in: "keys_in R m \<Longrightarrow> ws_pos s \<in> R \<Longrightarrow> keys_in R (inserted_object InputResolver s m)"
  unfolding inserted_object_def
  by (auto split: option.split json.split intro!: fold_keeps [where P = "keys_in R"] keys_in_put)

lemma InsertedKeys_in: "tree_in R n \<Longrightarrow> keys_in R m \<Longrightarrow> keys_in R (InsertedKeys InputResolver newString ins n m)"
proof (induction n arbitrary: m rule: measure_induct_rule [where f = size])
  case (less n)
  have step: "keys_in R ((\<lambda>(k, v) acc. let key = newString k in
          if ins (rs_Text InputResolver key) then InsertedKeys InputResolver newString ins v acc
          else case resolver_Key InputResolver key of None \<Rightarrow> acc
            | Some s \<Rightarrow> al_put (to_lower (rs_Text InputResolver s)) s acc) x acc)"
    if x: "x \<in> set (node_pairs (yn_content n))" and acc: "keys_in R acc" for x acc
  proof -
    obtain k v where kv: "x = (k, v)" by (cases x)
    then have "k \<in> set (yn_content n)" "v \<in> set (yn_content n)" using node_pairs_mem [of k v "yn_content n"] x by auto
    then have t: "tree_in R k" "tree_in R v" "size v < size n"
      using less.prems(1) by (auto dest: tree_in_content content_size)
    show ?thesis using kv t acc less.IH [OF t(3,2)]
      by (auto simp: Let_def dest: resolver_Key_pos intro!: keys_in_put split: option.split)
  qed
  show ?case
    by (subst InsertedKeys.simps)
      (intro if_split [where P = "keys_in R", THEN iffD2] conjI impI inserted_object_in less.prems(2)
        fold_keeps [where P = "keys_in R"] step; simp add: less.prems)
qed

lemma inserted_located:
  "keys_in R xs \<Longrightarrow> ItemError e \<in> set (fst (inserted_items sec xs keys)) \<Longrightarrow> located R e"
  by (induction sec xs keys rule: inserted_items.induct) (auto simp: keys_in_def split: option.splits prod.splits)

lemma sorted_in: "keys_in R m \<Longrightarrow> keys_in R (sorted_entries m)"
  by (auto simp: keys_in_def set_sorted_entries dest: map_of_SomeD)

text \<open>What an item of a mapping in \<open>R\<close> promises.\<close>

fun item_in :: "source_pos set \<Rightarrow> mapping_item \<Rightarrow> bool" where
  "item_in R (ItemError e) = located R e"
| "item_in R (ItemEntry e) = (ws_pos (ent_key e) \<in> R \<and> tree_in R (ent_val e))"

lemma entry_step_in:
  assumes "tree_in R k" and "tree_in R v" and "i \<in> set (fst (entry_step sec cs ins (k, v) keys))"
  shows "item_in R i"
proof -
  have k: "node_in R (key_node ins k)" using assms(1) by (simp add: key_node_def KeyNode_pos)
  have m: "item_in R j" if "inserted_items sec (sorted_entries (knownInsertedMappingKeys v)) keys = (items, ks)" "j \<in> set items" for j items ks
  proof (cases j)
    case (ItemError e)
    have "keys_in R (sorted_entries (knownInsertedMappingKeys v))"
      unfolding knownInsertedMappingKeys_def by (intro sorted_in InsertedKeys_in assms(2)) (simp add: keys_in_def)
    then show ?thesis using inserted_located [of R _ e sec keys] that ItemError by simp
  next
    case (ItemEntry e)
    then show ?thesis using inserted_items_errors [of e sec "sorted_entries (knownInsertedMappingKeys v)" keys] that by simp
  qed
  show ?thesis
    using assms k by (auto simp: entry_step_def Let_def dest: string_error_located raw_tags_located m
      split: option.splits prod.splits if_splits)
qed

lemma entry_items_in:
  "(\<And>k v. (k, v) \<in> set ps \<Longrightarrow> tree_in R k \<and> tree_in R v) \<Longrightarrow> i \<in> set (fst (entry_items sec cs ins ps keys)) \<Longrightarrow> item_in R i"
proof (induction sec cs ins ps keys rule: entry_items.induct)
  case (2 sec cs ins p ps keys)
  obtain k v where p: "p = (k, v)" by (cases p)
  obtain its f ks where s: "entry_step sec cs ins p keys = (its, f, ks)" by (cases "entry_step sec cs ins p keys") auto
  obtain js g where r: "entry_items sec cs ins ps ks = (js, g)" by fastforce
  from 2(3) s r have "i \<in> set its \<or> i \<in> set js" by auto
  then show ?case
  proof
    assume "i \<in> set its"
    then show ?thesis using entry_step_in [of R k v i sec cs ins keys] 2(2) [of k v] s p by simp
  next
    assume "i \<in> set js"
    then show ?thesis using 2(1) [OF s [symmetric] refl] 2(2) r by auto
  qed
qed simp

lemma mapping_items_in:
  assumes "tree_in R n" and "i \<in> set (mapping_items sec n allowEmpty cs ins)"
  shows "item_in R i"
proof -
  have "tree_in R k \<and> tree_in R v" if "(k, v) \<in> set (node_pairs (yn_content n))" for k v
    using that assms(1) by (auto dest: node_pairs_mem tree_in_content)
  then have "item_in R i" if "i \<in> set (fst (entry_items sec cs ins (node_pairs (yn_content n)) []))"
    using that by (rule entry_items_in)
  then show ?thesis
    using assms by (cases "entry_items sec cs ins (node_pairs (yn_content n)) []")
      (auto simp: mapping_items_def Let_def split: if_splits)
qed

lemmas mapping_defs = parseSectionMapping_def parseMappingAt_def parseMapping_def

subsection \<open>Loops over mappings\<close>

lemma entries_spec:
  assumes "tree_in R n" and "U s" and "I [] s"
    and "\<And>past e s. ws_pos (ent_key e) \<in> R \<Longrightarrow> tree_in R (ent_val e) \<Longrightarrow> U s
      \<Longrightarrow> spec (located R) (f e s) U (\<lambda>s'. I past s \<longrightarrow> I (past @ [e]) s')"
  shows "spec (located R) (for_entries (mapping_items sec n allowEmpty cs ins) f s) U
     (\<lambda>s'. clean_items (mapping_items sec n allowEmpty cs ins) \<and> I (item_entries (mapping_items sec n allowEmpty cs ins)) s')"
proof (rule spec_entries [where I = I])
  fix e
  assume "ItemError e \<in> set (mapping_items sec n allowEmpty cs ins)"
  with mapping_items_in [OF assms(1)] show "located R e" by fastforce
next
  fix past e s
  assume "ItemEntry e \<in> set (mapping_items sec n allowEmpty cs ins)" "U s"
  with mapping_items_in [OF assms(1)] show "spec (located R) (f e s) U (\<lambda>s'. I past s \<longrightarrow> I (past @ [e]) s')"
    by (fastforce intro: assms(4))
qed (use assms in auto)

lemma entries_inv:
  assumes "tree_in R n" and "Q s"
    and "\<And>e s. ws_pos (ent_key e) \<in> R \<Longrightarrow> tree_in R (ent_val e) \<Longrightarrow> spec (located R) (f e s) anything (\<lambda>s'. Q s \<longrightarrow> Q s')"
  shows "spec (located R) (for_entries (mapping_items sec n allowEmpty cs ins) f s) anything
     (\<lambda>s'. clean_items (mapping_items sec n allowEmpty cs ins) \<and> Q s')"
  by (rule entries_spec [where I = "\<lambda>_. Q"]) (use assms in auto)

lemma entries_tail:
  assumes "tree_in R n" and "Q s"
    and "\<And>e s. ws_pos (ent_key e) \<in> R \<Longrightarrow> tree_in R (ent_val e) \<Longrightarrow> spec (located R) (f e s) anything (\<lambda>s'. Q s \<longrightarrow> Q s')"
  shows "spec (located R) (for_entries (mapping_items sec n allowEmpty cs ins) f s) anything Q"
  by (rule spec_weaken [OF entries_inv [where Q = Q]]) (use assms in auto)

lemma entries_bind:
  assumes "tree_in R n" and "J s"
    and "\<And>e s. ws_pos (ent_key e) \<in> R \<Longrightarrow> tree_in R (ent_val e) \<Longrightarrow> spec (located R) (f e s) anything (\<lambda>s'. J s \<longrightarrow> J s')"
    and "\<And>s'. spec (located R) (g s') U (\<lambda>x. clean_items (mapping_items sec n allowEmpty cs ins) \<and> J s' \<longrightarrow> Q x)"
  shows "spec (located R) (for_entries (mapping_items sec n allowEmpty cs ins) f s \<bind> g) U Q"
  by (rule spec_bind [OF entries_inv [where Q = J, OF assms(1,2,3)]]) (use assms(4) in auto)

lemma collect_bind:
  assumes "\<And>x. x \<in> set xs \<Longrightarrow> spec P (f x) anything F"
    and "\<And>ys. spec P (g ys) U (\<lambda>x. length ys = length xs \<and> list_all F ys \<longrightarrow> Q x)"
  shows "spec P (collect f xs \<bind> g) U Q"
  by (rule spec_bind [OF spec_collect [where R = F, OF assms(1)]]) (use assms(2) in auto)

lemma each_bind:
  assumes "U s" and "I [] s"
    and "\<And>past x s. set past \<subseteq> set xs \<Longrightarrow> x \<in> set xs \<Longrightarrow> U s \<Longrightarrow> spec P (f x s) U (\<lambda>s'. I past s \<longrightarrow> I (past @ [x]) s')"
    and "\<And>s'. U s' \<Longrightarrow> spec P (g s') V (\<lambda>x. I xs s' \<longrightarrow> Q x)"
  shows "spec P (for_each xs f s \<bind> g) V Q"
  by (rule spec_bind [OF spec_each [where U = U and I = I, OF assms(1-3)]]) (use assms(4) in auto)

lemma unless_bind: "(b \<Longrightarrow> spec P (f ()) U Q) \<Longrightarrow> (\<not> b \<Longrightarrow> spec P (m \<bind> f) U Q) \<Longrightarrow> spec P (unless b m \<bind> f) U Q"
  by (simp add: unless_def)

lemmas [spec_steps] = unless_bind

text \<open>A clean mapping that must not be empty is a mapping node with an entry.\<close>

lemma entry_step_filled:
  "entry_step sec cs ins p keys = (items, filled, keys') \<Longrightarrow> clean_items items \<Longrightarrow> filled = (item_entries items \<noteq> [])"
  by (cases p) (auto simp: entry_step_def Let_def split: option.splits prod.splits if_splits)

lemma entry_items_filled:
  "entry_items sec cs ins ps keys = (items, filled) \<Longrightarrow> clean_items items \<Longrightarrow> filled = (item_entries items \<noteq> [])"
proof (induction sec cs ins ps keys arbitrary: items filled rule: entry_items.induct)
  case (2 sec cs ins p ps keys)
  obtain its f ks where s: "entry_step sec cs ins p keys = (its, f, ks)" by (cases "entry_step sec cs ins p keys") auto
  obtain js g where r: "entry_items sec cs ins ps ks = (js, g)" by fastforce
  show ?case using 2(1) [OF s [symmetric] refl, OF r] entry_step_filled [OF s] 2(2,3) s r by auto
qed simp

lemma clean_mapping:
  assumes "clean_items (mapping_items sec n False cs ins)"
  shows "yn_kind n = MappingNode \<and> item_entries (mapping_items sec n False cs ins) \<noteq> []"
proof -
  obtain items filled where e: "entry_items sec cs ins (node_pairs (yn_content n)) [] = (items, filled)" by fastforce
  show ?thesis using assms entry_items_filled [OF e] by (auto simp: mapping_items_def Let_def e split: if_splits)
qed

lemma clean_mapping_content:
  "clean_items (mapping_items sec n False cs ins) \<Longrightarrow> yn_content n \<noteq> []"
  by (frule clean_mapping) (auto simp: mapping_items_def Let_def)

text \<open>Sections that are maps: their keys are distinct, and are the ids of the entries.\<close>

lemma al_keys_mem: "al_keys m = map fst m"
  by (simp add: al_keys_def)

lemma parse_map_spec:
  assumes "tree_in R n"
    and "\<And>e. ws_pos (ent_key e) \<in> R \<Longrightarrow> tree_in R (ent_val e) \<Longrightarrow> spec (located R) (f e) anything Q"
  shows "spec (located R) (parse_map (mapping_items sec n allowEmpty cs ins) f) (\<lambda>m. distinct (al_keys m))
     (\<lambda>m. list_all (\<lambda>(k, v). Q v) m \<and> (allowEmpty \<or> m \<noteq> []))"
  unfolding parse_map_def
proof (rule spec_weaken [OF entries_spec [where U = "\<lambda>m. distinct (al_keys m)"
      and I = "\<lambda>past m. list_all (\<lambda>(k, v). Q v) m \<and> (past \<noteq> [] \<longrightarrow> m \<noteq> [])", OF assms(1)]])
  fix past :: "map_entry list" and e :: map_entry and s :: "(string \<times> 'a) list"
  assume a: "ws_pos (ent_key e) \<in> R" "tree_in R (ent_val e)" "distinct (al_keys s)"
  have "al_put k x m \<noteq> []" for k :: string and x and m :: "(string \<times> 'a) list"
    by (cases m) (auto split: if_splits)
  moreover have "list_all (\<lambda>(k, v). Q v) (al_put k x s)" if "Q x" "list_all (\<lambda>(k, v). Q v) s" for k :: string and x
    using that by (auto simp: list_all_iff dest!: al_put_mem)
  ultimately show "spec (located R) (do {x \<leftarrow> f e; ret (al_put (ent_id e) x s)}) (\<lambda>m. distinct (al_keys m))
      (\<lambda>s'. list_all (\<lambda>(k, v). Q v) s \<and> (past \<noteq> [] \<longrightarrow> s \<noteq> [])
        \<longrightarrow> list_all (\<lambda>(k, v). Q v) s' \<and> (past @ [e] \<noteq> [] \<longrightarrow> s' \<noteq> []))"
    using a by (intro assms(2) [THEN spec_bind] spec_steps) (auto intro: distinct_al_put)
qed (auto simp: al_keys_def dest: clean_mapping)

end
