(* ===== verification/Event_Spec.thy ===== *)
theory Event_Spec
  imports Parse_Spec
begin

text \<open>
  The triggers of a workflow that was read without an error: the schedules have their cron
  expressions, the filters and lists of names are not empty, the inputs of reusable workflows
  have a type and their outputs a value.
\<close>

definition filter_ok :: "event_filter \<Rightarrow> bool" where
  "filter_ok f \<longleftrightarrow> list_all nonempty (ef_values f) \<and> ef_values f \<noteq> []"

definition webhook_ok :: "webhook_event \<Rightarrow> bool" where
  "webhook_ok e \<longleftrightarrow> list_all nonempty (we_types e) \<and> list_all nonempty (we_workflows e)
     \<and> pred_option filter_ok (we_branches e) \<and> pred_option filter_ok (we_branches_ignore e)
     \<and> pred_option filter_ok (we_tags e) \<and> pred_option filter_ok (we_tags_ignore e)
     \<and> pred_option filter_ok (we_paths e) \<and> pred_option filter_ok (we_paths_ignore e)"

definition schedule_ok :: "schedule_entry \<Rightarrow> bool" where
  "schedule_ok s \<longleftrightarrow> given nonempty (sc_cron s) \<and> pred_option nonempty (sc_timezone s)"

definition dispatch_ok :: "dispatch_input \<Rightarrow> bool" where
  "dispatch_ok i \<longleftrightarrow> pred_option bool_ok (di_required i)"

definition call_input_ok :: "call_input \<Rightarrow> bool" where
  "call_input_ok i \<longleftrightarrow> ci_type i \<noteq> CallInvalid \<and> pred_option bool_ok (ci_required i)"

definition call_secret_ok :: "call_secret \<Rightarrow> bool" where
  "call_secret_ok s \<longleftrightarrow> pred_option bool_ok (cs_required s)"

definition call_output_ok :: "call_output \<Rightarrow> bool" where
  "call_output_ok o' \<longleftrightarrow> given nonempty (co_value o')"

text \<open>A map: distinct keys, and every value satisfies \<open>f\<close>.\<close>

definition map_ok :: "('a \<Rightarrow> bool) \<Rightarrow> (string \<times> 'a) list \<Rightarrow> bool" where
  "map_ok f m \<longleftrightarrow> distinct (al_keys m) \<and> list_all (\<lambda>(k, v). f v) m"

lemma map_ok_Nil [simp]: "map_ok f []"
  by (simp add: map_ok_def al_keys_def)

definition call_ok :: "call_event \<Rightarrow> bool" where
  "call_ok c \<longleftrightarrow> list_all call_input_ok (ce_inputs c) \<and> pred_option (map_ok call_secret_ok) (ce_secrets c)
     \<and> map_ok call_output_ok (ce_outputs c)"

definition image_ok :: "image_event \<Rightarrow> bool" where
  "image_ok e \<longleftrightarrow> list_all nonempty (ie_types e) \<and> list_all nonempty (ie_names e) \<and> list_all nonempty (ie_versions e)"

fun event_ok :: "wf_event \<Rightarrow> bool" where
  "event_ok (WebhookEvent e) = webhook_ok e"
| "event_ok (ScheduledEvent ss _) = (ss \<noteq> [] \<and> list_all schedule_ok ss)"
| "event_ok (WorkflowDispatchEvent ins _) = map_ok dispatch_ok ins"
| "event_ok (RepositoryDispatchEvent ts _) = list_all nonempty ts"
| "event_ok (WorkflowCallEvent c) = call_ok c"
| "event_ok (ImageVersionEvent e) = image_ok e"

subsection \<open>Maps\<close>

lemma map_section_spec:
  assumes "tree_in R n"
    and "\<And>e. ws_pos (ent_key e) \<in> R \<Longrightarrow> tree_in R (ent_val e) \<Longrightarrow> spec (located R) (f e) anything Q"
  shows "spec (located R) (parse_map (mapping_items sec n allowEmpty cs ins) f) anything
     (\<lambda>m. map_ok Q m \<and> (allowEmpty \<or> m \<noteq> []))"
  by (rule spec_weaken [OF parse_map_spec [OF assms]]) (auto simp: map_ok_def)

lemma map_bind:
  assumes "tree_in R n"
    and "\<And>e. ws_pos (ent_key e) \<in> R \<Longrightarrow> tree_in R (ent_val e) \<Longrightarrow> spec (located R) (f e) anything F"
    and "\<And>m. spec (located R) (g m) U (\<lambda>x. map_ok F m \<and> (allowEmpty \<or> m \<noteq> []) \<longrightarrow> Q x)"
  shows "spec (located R) (parse_map (mapping_items sec n allowEmpty cs ins) f \<bind> g) U Q"
  by (rule spec_bind [OF map_section_spec [where Q = F, OF assms(1,2)]]) (use assms(3) in auto)

lemma map_tail:
  assumes "tree_in R n"
    and "\<And>e. ws_pos (ent_key e) \<in> R \<Longrightarrow> tree_in R (ent_val e) \<Longrightarrow> spec (located R) (f e) anything F"
    and "\<And>m. map_ok F m \<and> (allowEmpty \<or> m \<noteq> []) \<Longrightarrow> Q m"
  shows "spec (located R) (parse_map (mapping_items sec n allowEmpty cs ins) f) anything Q"
  by (rule spec_weaken [OF map_section_spec [where Q = F, OF assms(1,2)]]) (use assms(3) in auto)

subsection \<open>Schedules\<close>

lemma parseScheduleEntry_spec:
  "tree_in R c \<Longrightarrow> spec (located R) (parseScheduleEntry c) anything
     (\<lambda>(s, cron). clean_items (mapping_items (Described schedule_element) c False True False)
       \<and> pred_option nonempty (sc_cron s) \<and> pred_option nonempty (sc_timezone s) \<and> (cron \<longrightarrow> sc_cron s \<noteq> None))"
  unfolding parseScheduleEntry_def mapping_defs
  by (rule spec_weaken [OF entries_inv [where Q = "\<lambda>(s, cron). pred_option nonempty (sc_cron s)
        \<and> pred_option nonempty (sc_timezone s) \<and> (cron \<longrightarrow> sc_cron s \<noteq> None)"]];
    (intro spec_steps)?; auto simp: nonempty_def string_node_def)

lemma parseScheduleEvent_spec:
  assumes "tree_in R n"
  shows "spec (located R) (parseScheduleEvent pos n) anything (given event_ok)"
proof -
  let ?body = "\<lambda>c acc. do {
         (entry, cronGiven) \<leftarrow> parseScheduleEntry c;
         if sc_cron entry \<noteq> None then ret (acc @ [entry])
         else do {
           unless (cronGiven \<or> yn_kind c \<noteq> MappingNode \<or> yn_content c = []) (node_error c CronMissing);
           ret acc}}"
  have body: "spec (located R) (?body c acc) anything (\<lambda>acc'. (list_all schedule_ok acc \<and> length past = length acc)
      \<longrightarrow> list_all schedule_ok acc' \<and> length (past @ [c]) = length acc')"
    if "c \<in> set (yn_content n)" for c and acc :: "schedule_entry list" and past :: "ynode list"
  proof (rule parseScheduleEntry_spec [THEN spec_bind])
    show c: "tree_in R c" using that assms by (auto dest: tree_in_content)
    fix r :: "schedule_entry \<times> bool"
    obtain s cron where r: "r = (s, cron)" by (cases r)
    show "spec (located R) (case r of (entry, cronGiven) \<Rightarrow>
             if sc_cron entry \<noteq> None then ret (acc @ [entry])
             else do {unless (cronGiven \<or> yn_kind c \<noteq> MappingNode \<or> yn_content c = []) (node_error c CronMissing); ret acc})
          anything
          (\<lambda>acc'. (case r of (s, cron) \<Rightarrow> clean_items (mapping_items (Described schedule_element) c False True False)
              \<and> pred_option nonempty (sc_cron s) \<and> pred_option nonempty (sc_timezone s) \<and> (cron \<longrightarrow> sc_cron s \<noteq> None))
            \<longrightarrow> (list_all schedule_ok acc \<and> length past = length acc)
            \<longrightarrow> list_all schedule_ok acc' \<and> length (past @ [c]) = length acc')"
      unfolding r using c
      by (cases "sc_cron s")
        (auto simp: schedule_ok_def unless_def dest: clean_mapping clean_mapping_content intro!: spec_steps)
  qed
  show ?thesis
    unfolding parseScheduleEvent_def
    using assms body
    by (intro spec_steps spec_bind [OF spec_each [where U = anything
          and I = "\<lambda>past acc. list_all schedule_ok acc \<and> length past = length acc"]])
      auto
qed

subsection \<open>The other triggers\<close>

text \<open>A loop in tail position keeps what its body keeps.\<close>

lemma parseWorkflowDispatchEventInput_spec:
  "tree_in R n \<Longrightarrow> spec (located R) (parseWorkflowDispatchEventInput name n) anything dispatch_ok"
  unfolding parseWorkflowDispatchEventInput_def mapping_defs
  by (rule entries_tail; (intro spec_steps collect_bind [where F = anything] parseStringNode_spec [THEN spec_tail])?;
    auto simp: dispatch_ok_def dest: tree_in_content)

lemma parseWorkflowDispatchEvent_spec:
  "tree_in R n \<Longrightarrow> spec (located R) (parseWorkflowDispatchEvent pos n) anything event_ok"
  unfolding parseWorkflowDispatchEvent_def mapping_defs
  by (rule entries_bind [where J = "map_ok dispatch_ok"];
    (intro spec_steps map_tail [where F = dispatch_ok] parseWorkflowDispatchEventInput_spec)?; auto)

lemma parseRepositoryDispatchEvent_spec:
  "tree_in R n \<Longrightarrow> spec (located R) (parseRepositoryDispatchEvent pos n) anything event_ok"
  unfolding parseRepositoryDispatchEvent_def mapping_defs
  by (rule entries_bind [where J = "list_all nonempty"]; (intro spec_steps)?; auto)

lemma parseWebhookEventFilter_spec:
  "tree_in R n \<Longrightarrow> spec (located R) (parseWebhookEventFilter name n) anything filter_ok"
  unfolding parseWebhookEventFilter_def by (intro spec_steps) (auto simp: filter_ok_def)

lemma parseWebhookEvent_spec:
  "tree_in R n \<Longrightarrow> spec (located R) (parseWebhookEvent name n) anything webhook_ok"
  unfolding parseWebhookEvent_def mapping_defs
  by (rule entries_tail; (intro spec_steps parseWebhookEventFilter_spec [THEN spec_bind])?;
    auto simp: webhook_ok_def empty_webhook_def set_filter_def)

lemma parseWorkflowCallEventInput_spec:
  "tree_in R n \<Longrightarrow> ws_pos name \<in> R \<Longrightarrow> spec (located R) (parseWorkflowCallEventInput key name n) anything call_input_ok"
  unfolding parseWorkflowCallEventInput_def mapping_defs
  by (rule entries_bind [where J = "\<lambda>(i, typed). pred_option bool_ok (ci_required i) \<and> (typed \<longrightarrow> ci_type i \<noteq> CallInvalid)"];
    (intro spec_steps)?; auto simp: call_input_ok_def call_type_def split: if_splits)

lemma parseWorkflowCallEventSecret_spec:
  "tree_in R n \<Longrightarrow> spec (located R) (parseWorkflowCallEventSecret name n) anything call_secret_ok"
  unfolding parseWorkflowCallEventSecret_def mapping_defs
  by (rule entries_tail; (intro spec_steps)?; auto simp: call_secret_ok_def)

lemma parseWorkflowCallEventOutput_spec:
  "tree_in R n \<Longrightarrow> ws_pos name \<in> R \<Longrightarrow> spec (located R) (parseWorkflowCallEventOutput name n) anything call_output_ok"
  unfolding parseWorkflowCallEventOutput_def mapping_defs
  by (rule entries_bind [where J = "\<lambda>o'. pred_option nonempty (co_value o')"];
    (intro spec_steps)?; auto simp: call_output_ok_def)

lemma parse_call_inputs_spec:
  "tree_in R n \<Longrightarrow> spec (located R) (parse_call_inputs n) anything (list_all call_input_ok)"
  unfolding parse_call_inputs_def mapping_defs
  by (rule entries_tail; (intro spec_steps parseWorkflowCallEventInput_spec [THEN spec_bind])?; auto)

lemma parseWorkflowCallEvent_spec:
  "tree_in R n \<Longrightarrow> spec (located R) (parseWorkflowCallEvent pos n) anything call_ok"
  unfolding parseWorkflowCallEvent_def mapping_defs
  by (rule entries_tail; (intro spec_steps map_bind [where F = call_secret_ok, OF _ parseWorkflowCallEventSecret_spec]
      map_bind [where F = call_output_ok, OF _ parseWorkflowCallEventOutput_spec] parse_call_inputs_spec [THEN spec_bind])?;
    auto simp: call_ok_def)

lemma parseImageVersionEvent_spec:
  "tree_in R n \<Longrightarrow> spec (located R) (parseImageVersionEvent pos n) anything image_ok"
  unfolding parseImageVersionEvent_def mapping_defs
  by (rule entries_tail; (intro spec_steps)?; auto simp: image_ok_def)

lemma parseEventWithNoConfig_spec:
  "tree_in R n \<Longrightarrow> spec (located R) (parseEventWithNoConfig n) anything (given event_ok)"
  unfolding parseEventWithNoConfig_def
  by (intro spec_steps)
    (auto simp: call_ok_def image_ok_def webhook_ok_def empty_webhook_def string_node_def)

lemma parse_event_entry_spec:
  "ws_pos (ent_key e) \<in> R \<Longrightarrow> tree_in R (ent_val e) \<Longrightarrow> spec (located R) (parse_event_entry e) anything (given event_ok)"
  unfolding parse_event_entry_def
  by (intro spec_steps parseScheduleEvent_spec parseWorkflowDispatchEvent_spec [THEN spec_bind]
      parseRepositoryDispatchEvent_spec [THEN spec_bind] parseWorkflowCallEvent_spec [THEN spec_bind]
      parseImageVersionEvent_spec [THEN spec_bind] parseWebhookEvent_spec [THEN spec_bind]) auto

lemma append_some_ok [simp]:
  "given f x \<Longrightarrow> list_all f (append_some xs x) = list_all f xs" "given f x \<Longrightarrow> append_some xs x \<noteq> []"
  "given f x \<Longrightarrow> length (append_some xs x) = Suc (length xs)"
  by (cases x; simp add: append_some_def)+

lemma parseEvents_spec:
  "tree_in R n \<Longrightarrow> spec (located R) (parseEvents n) anything (given (\<lambda>es. es \<noteq> [] \<and> list_all event_ok es))"
proof -
  assume n: "tree_in R n"
  have entries: "spec (located R) (for_entries (parseSectionMapping ''on'' n False True)
      (\<lambda>e es. do {x \<leftarrow> parse_event_entry e; ret (append_some es x)}) []) anything
      (\<lambda>es. es \<noteq> [] \<and> list_all event_ok es)"
    unfolding mapping_defs
    by (rule spec_weaken [OF entries_spec [where U = anything and I = "\<lambda>past es. list_all event_ok es \<and> (past \<noteq> [] \<longrightarrow> es \<noteq> [])"]];
      (intro spec_steps parse_event_entry_spec [THEN spec_bind])?; auto simp: n dest: clean_mapping)
  show ?thesis
  proof (cases "yn_kind n")
    case SequenceNode
    then show ?thesis
      unfolding parseEvents_def
      by simp (intro spec_steps each_bind [where U = anything and I = "\<lambda>past es. list_all event_ok es \<and> length es = length past"]
          parseEventWithNoConfig_spec [THEN spec_bind]; auto simp: n dest: tree_in_content [OF n])
  qed (use n in \<open>auto simp: parseEvents_def intro!: spec_steps parseEventWithNoConfig_spec [THEN spec_bind] entries [THEN spec_bind]\<close>)
qed

end
