(* ===== verification/Section_Spec.thy ===== *)
theory Section_Spec
  imports Event_Spec
begin

text \<open>
  The sections of a workflow that was read without an error: permissions, environments,
  concurrency, strategies, containers and runners are complete, numbers are in range and maps
  have distinct keys.
\<close>

lemma mayParseExpression_ok [dest]: "mayParseExpression n = Some e \<Longrightarrow> expression_ok e"
  by (auto simp: mayParseExpression_def expression_ok_def split: if_splits)

lemma string_field_spec [spec_steps]:
  "node_in R n \<Longrightarrow> (\<And>s. U (f (Some s))) \<Longrightarrow> (\<And>s. string_node n allowEmpty \<Longrightarrow> s = newString n \<Longrightarrow> Q (f (Some s)))
    \<Longrightarrow> spec (located R) (string_field n allowEmpty f) U Q"
  unfolding string_field_def by (intro spec_steps) auto

subsection \<open>Permissions, outputs and cache modes\<close>

definition permissions_ok :: "permissions \<Rightarrow> bool" where
  "permissions_ok p \<longleftrightarrow>
     (case pm_all p of
        Some s \<Rightarrow> nonempty s
      | None \<Rightarrow> given (map_ok (\<lambda>v. nonempty (pv_value v))) (pm_scopes p))"

lemma parsePermissions_spec:
  "tree_in R n \<Longrightarrow> spec (located R) (parsePermissions pos n) anything permissions_ok"
  unfolding parsePermissions_def mapping_defs
  by (intro spec_steps map_bind [where F = "\<lambda>v. nonempty (pv_value v)"]) (auto simp: permissions_ok_def)

lemma parse_named_spec:
  "tree_in R (ent_val e) \<Longrightarrow> spec (located R) (parse_named e) anything anything"
  unfolding parse_named_def by (intro spec_steps) auto

lemma parseOutputs_spec:
  "tree_in R n \<Longrightarrow> spec (located R) (parseOutputs n) anything (\<lambda>m. map_ok anything m \<and> m \<noteq> [])"
  unfolding parseOutputs_def mapping_defs
  by (intro spec_steps map_bind [where F = anything, OF _ parse_named_spec]) auto

definition cache_mode_ok :: "cache_mode \<Rightarrow> bool" where
  "cache_mode_ok m \<longleftrightarrow> cm_kind m \<noteq> CacheModeInvalid"

lemma parseCacheMode_spec:
  "tree_in R n \<Longrightarrow> spec (located R) (parseCacheMode n) anything (given cache_mode_ok)"
  unfolding parseCacheMode_def
  by (intro spec_steps) (auto simp: CacheModeFromYAML_def cache_mode_ok_def)

subsection \<open>Environment variables\<close>

fun env_ok :: "env_decl \<Rightarrow> bool" where
  "env_ok (Env vs ins e) \<longleftrightarrow> distinct (al_keys vs) \<and> list_all env_ok ins \<and> pred_option expression_ok e"

lemma env_ok_parts: "env_ok v \<longleftrightarrow> distinct (al_keys (env_vars v)) \<and> list_all env_ok (env_insertions v) \<and> pred_option expression_ok (env_expression v)"
  by (cases v) simp

lemma parseEnvMapping_spec:
  "tree_in R n \<Longrightarrow> spec (located R) (parseEnvMapping n allowEmpty) anything env_ok"
proof (induction n arbitrary: allowEmpty rule: measure_induct_rule [where f = size])
  case (less n)
  show ?case
  proof (cases "yn_kind n = ScalarNode")
    case True
    then show ?thesis using less.prems
      by (subst parseEnvMapping.simps) (auto intro!: spec_steps simp: al_keys_def)
  next
    case False
    have "spec (located R) (for_entries (mapping_items (Section ''env'') n allowEmpty False True)
        (\<lambda>e env.
           if isMappingInsertion (ws_value (ent_key e)) then do {
             i \<leftarrow> parseEnvMapping (ent_val e) True;
             ret (Env (env_vars env) (env_insertions env @ [i]) (env_expression env))}
           else do {
             v \<leftarrow> parse_named e;
             ret (Env (al_put (ent_id e) v (env_vars env)) (env_insertions env) (env_expression env))})
        (Env [] [] None)) anything
        (\<lambda>r. clean_items (mapping_items (Section ''env'') n allowEmpty False True) \<and> env_ok r)"
    proof (rule spec_entries_inv)
      fix e s
      assume e: "ItemEntry e \<in> set (mapping_items (Section ''env'') n allowEmpty False True)"
      have "tree_in R (ent_val e)" using mapping_items_in [OF less.prems e] by simp
      then show "spec (located R)
          (if isMappingInsertion (ws_value (ent_key e)) then do {
             i \<leftarrow> parseEnvMapping (ent_val e) True;
             ret (Env (env_vars s) (env_insertions s @ [i]) (env_expression s))}
           else do {
             v \<leftarrow> parse_named e;
             ret (Env (al_put (ent_id e) v (env_vars s)) (env_insertions s) (env_expression s))})
          anything (\<lambda>r. env_ok s \<longrightarrow> env_ok r)"
        using less.IH [OF item_size [OF e]]
        by (intro spec_steps parse_named_spec [THEN spec_bind] spec_bind [OF less.IH [OF item_size [OF e]]])
          (auto simp: env_ok_parts [of s] distinct_al_put)
    qed (use mapping_items_in [OF less.prems] in \<open>fastforce simp: al_keys_def\<close>)+
    then show ?thesis using False by (subst parseEnvMapping.simps) (auto intro: spec_weaken)
  qed
qed

lemma parseEnv_spec: "tree_in R n \<Longrightarrow> spec (located R) (parseEnv n) anything env_ok"
  unfolding parseEnv_def by (rule parseEnvMapping_spec)

subsection \<open>Defaults, concurrency and environments\<close>

definition defaults_run_ok :: "defaults_run \<Rightarrow> bool" where
  "defaults_run_ok r \<longleftrightarrow> pred_option expression_ok (dr_expression r) \<and> pred_option nonempty (dr_shell r)
     \<and> pred_option nonempty (dr_working_directory r)"

definition defaults_ok :: "defaults \<Rightarrow> bool" where
  "defaults_ok d \<longleftrightarrow> given defaults_run_ok (df_run d)"

lemma parse_defaults_run_spec:
  "tree_in R n \<Longrightarrow> spec (located R) (parse_defaults_run pos n) anything defaults_run_ok"
  unfolding parse_defaults_run_def mapping_defs
  by (intro spec_steps; (rule entries_tail)?; (intro spec_steps)?; auto simp: defaults_run_ok_def)

lemma parseDefaults_spec:
  "tree_in R n \<Longrightarrow> spec (located R) (parseDefaults pos n) anything defaults_ok"
  unfolding parseDefaults_def mapping_defs
  by (rule entries_bind [where J = "\<lambda>d. pred_option defaults_run_ok (df_run d)"];
    (intro spec_steps parse_defaults_run_spec [THEN spec_bind])?; auto simp: defaults_ok_def)

definition queue_ok :: "wstring \<Rightarrow> bool" where
  "queue_ok q \<longleftrightarrow> ws_ContainsExpression q \<or> ws_value q = ''single'' \<or> ws_value q = ''max''"

definition concurrency_ok :: "concurrency \<Rightarrow> bool" where
  "concurrency_ok c \<longleftrightarrow> (given expression_ok (cc_expression c) \<or> given nonempty (cc_group c))
     \<and> pred_option bool_ok (cc_cancel c) \<and> pred_option queue_ok (cc_queue c) \<and> queue_conflict c = None"

definition concurrency_part :: "concurrency \<Rightarrow> bool" where
  "concurrency_part c \<longleftrightarrow> pred_option nonempty (cc_group c) \<and> pred_option bool_ok (cc_cancel c) \<and> pred_option queue_ok (cc_queue c)"

text \<open>The position of a queue is used for an error, whatever else was reported.\<close>

lemma parse_concurrency_entry_spec:
  "ws_pos (ent_key e) \<in> R \<Longrightarrow> tree_in R (ent_val e) \<Longrightarrow> pred_option (\<lambda>q. ws_pos q \<in> R) (cc_queue c) \<Longrightarrow>
     spec (located R) (parse_concurrency_entry e c) (\<lambda>c. pred_option (\<lambda>q. ws_pos q \<in> R) (cc_queue c))
       (\<lambda>c'. concurrency_part c \<longrightarrow> concurrency_part c')"
  unfolding parse_concurrency_entry_def
  by (intro spec_steps) (auto simp: concurrency_part_def queue_ok_def)

lemma queue_conflict_in: "pred_option (\<lambda>q. ws_pos q \<in> R) (cc_queue c) \<Longrightarrow> queue_conflict c = Some q \<Longrightarrow> ws_pos q \<in> R"
  by (auto simp: queue_conflict_def split: option.splits if_splits)

lemma parseConcurrency_spec:
  "tree_in R n \<Longrightarrow> pos \<in> R \<Longrightarrow> spec (located R) (parseConcurrency pos n) anything concurrency_ok"
proof -
  assume n: "tree_in R n" and pos: "pos \<in> R"
  have loop: "spec (located R) (for_entries (parseSectionMapping ''concurrency'' n False True) parse_concurrency_entry (empty_concurrency pos))
      (\<lambda>c. pred_option (\<lambda>q. ws_pos q \<in> R) (cc_queue c)) concurrency_part"
    unfolding mapping_defs
    by (rule spec_weaken [OF entries_spec [where I = "\<lambda>_. concurrency_part" and U = "\<lambda>c. pred_option (\<lambda>q. ws_pos q \<in> R) (cc_queue c)", OF n]])
      (auto intro: parse_concurrency_entry_spec [unfolded concurrency_part_def] simp: empty_concurrency_def concurrency_part_def)
  show ?thesis
    unfolding parseConcurrency_def Let_def
    using n pos
    by (intro spec_steps loop [THEN spec_bind])
      (auto simp: concurrency_ok_def concurrency_part_def empty_concurrency_def queue_conflict_def dest: queue_conflict_in)
qed

definition environment_ok :: "environment \<Rightarrow> bool" where
  "environment_ok e \<longleftrightarrow> (given expression_ok (evm_expression e) \<or> given nonempty (evm_name e))
     \<and> pred_option nonempty (evm_url e) \<and> pred_option bool_ok (evm_deployment e)"

lemma parseEnvironment_spec:
  "tree_in R n \<Longrightarrow> pos \<in> R \<Longrightarrow> spec (located R) (parseEnvironment pos n) anything environment_ok"
  unfolding parseEnvironment_def mapping_defs
  by (intro spec_steps entries_bind [where J = "\<lambda>e. pred_option nonempty (evm_name e) \<and> pred_option nonempty (evm_url e)
      \<and> pred_option bool_ok (evm_deployment e)"])
    (auto simp: environment_ok_def)

subsection \<open>Raw values\<close>

lemma distinct_put_keys: "distinct (map fst m) \<Longrightarrow> distinct (map fst (al_put k v m))"
  using distinct_al_put [of m k v] by (simp add: al_keys_def)

lemma ParseRawYAMLValue_spec:
  "tree_in R n \<Longrightarrow> spec (located R) (ParseRawYAMLValue n) (pred_option raw_wf) (given raw_wf)"
proof (induction n rule: measure_induct_rule [where f = size])
  case (less n)
  have child: "spec (located R) (ParseRawYAMLValue c) (pred_option raw_wf) (given raw_wf)" if "c \<in> set (yn_content n)" for c
    using less.IH [OF content_size [OF that]] tree_in_content [OF less.prems that] by simp
  have val: "spec (located R) (ParseRawYAMLValue (ent_val e)) (pred_option raw_wf) (given raw_wf)"
    if "ItemEntry e \<in> set (parseMappingAt ''matrix row value'' n True False)" for e
    using child [OF mapping_items_mem] that by (simp add: mapping_defs)
  let ?U = "\<lambda>m. distinct (map fst m) \<and> list_all (\<lambda>(n, v). raw_wf v) m"
  have put: "?U (al_put k v m)" if "?U m" "raw_wf v" for m k v
    using that by (auto simp: list_all_iff distinct_put_keys dest!: al_put_mem)
  consider "yn_kind n = SequenceNode" | "yn_kind n = MappingNode" | "yn_kind n \<noteq> SequenceNode" "yn_kind n \<noteq> MappingNode" by blast
  then show ?case
  proof cases
    case 1
    then show ?thesis
      by (subst ParseRawYAMLValue.simps)
        (simp, intro each_bind [where U = "list_all raw_wf" and I = "\<lambda>_ _. True"] spec_steps child [THEN spec_bind];
         auto simp: append_some_def split: option.splits)
  next
    case 2
    have "spec (located R) (for_entries (parseMappingAt ''matrix row value'' n True False)
          (\<lambda>e m. do {
             v \<leftarrow> ParseRawYAMLValue (ent_val e);
             ret (case v of None \<Rightarrow> m | Some x \<Rightarrow> al_put (ent_id e) x m)}) []) ?U anything"
    proof (rule spec_weaken [OF spec_entries [where I = "\<lambda>_ _. True" and U = ?U]])
      show "located R e" if "ItemError e \<in> set (parseMappingAt ''matrix row value'' n True False)" for e
        using mapping_items_in [OF less.prems] that unfolding mapping_defs by fastforce
      show "spec (located R) (do {v \<leftarrow> ParseRawYAMLValue (ent_val e); ret (case v of None \<Rightarrow> m | Some x \<Rightarrow> al_put (ent_id e) x m)})
          ?U (\<lambda>s'. True \<longrightarrow> True)"
        if "ItemEntry e \<in> set (parseMappingAt ''matrix row value'' n True False)" "?U m" for e m
        using put [OF that(2)] that(2) by (intro val [OF that(1), THEN spec_bind] spec_return) (auto split: option.splits)
    qed auto
    note loop = this
    show ?thesis
      by (subst ParseRawYAMLValue.simps) (simp add: 2, rule loop [THEN spec_bind], rule spec_return; simp)
  next
    case 3
    then show ?thesis using less.prems
      by (subst ParseRawYAMLValue.simps) (auto intro!: spec_steps)
  qed
qed

subsection \<open>Strategies\<close>

definition assign_ok :: "matrix_assign \<Rightarrow> bool" where
  "assign_ok a \<longleftrightarrow> raw_wf (ma_value a)"

definition combination_ok :: "matrix_combination \<Rightarrow> bool" where
  "combination_ok c \<longleftrightarrow> given expression_ok (mc_expression c) \<or> (mc_assigns c \<noteq> [] \<and> map_ok assign_ok (mc_assigns c))"

definition combinations_ok :: "matrix_combinations \<Rightarrow> bool" where
  "combinations_ok c \<longleftrightarrow> ms_name c \<noteq> None
     \<and> (given expression_ok (ms_expression c) \<or> (ms_combinations c \<noteq> [] \<and> list_all combination_ok (ms_combinations c)))"

definition row_ok :: "matrix_row \<Rightarrow> bool" where
  "row_ok r \<longleftrightarrow> given expression_ok (mr_expression r) \<or> (mr_values r \<noteq> [] \<and> list_all raw_wf (mr_values r))"

fun matrix_ok :: "matrix \<Rightarrow> bool" where
  "matrix_ok (Matrix ins rows inc exc e _) \<longleftrightarrow>
     list_all matrix_ok ins \<and> map_ok row_ok rows \<and> pred_option combinations_ok inc \<and> pred_option combinations_ok exc
     \<and> pred_option expression_ok e"

lemma matrix_ok_parts:
  "matrix_ok m \<longleftrightarrow> list_all matrix_ok (mx_insertions m) \<and> map_ok row_ok (mx_rows m)
     \<and> pred_option combinations_ok (mx_include m) \<and> pred_option combinations_ok (mx_exclude m)
     \<and> pred_option expression_ok (mx_expression m)"
  by (cases m) simp

lemma al_put_not_Nil [simp]: "al_put k v m \<noteq> []"
  by (cases m) (auto split: if_splits)

lemma map_ok_put: "map_ok f m \<Longrightarrow> f v \<Longrightarrow> map_ok f (al_put k v m)"
  by (auto simp: map_ok_def list_all_iff distinct_al_put dest!: al_put_mem)

lemma raw_values_spec:
  "tree_in R n \<Longrightarrow> spec (located R)
     (for_each (yn_content n) (\<lambda>c vs. do {v \<leftarrow> ParseRawYAMLValue c; ret (append_some vs v)}) [])
     anything (\<lambda>vs. list_all raw_wf vs \<and> length vs = length (yn_content n))"
  by (rule spec_weaken [OF spec_each [where U = anything and I = "\<lambda>past vs. list_all raw_wf vs \<and> length vs = length past"]];
    (intro spec_steps ParseRawYAMLValue_spec [THEN spec_bind])?; auto dest: tree_in_content)

lemma parse_combination_spec:
  "tree_in R c \<Longrightarrow> spec (located R) (parse_combination sec c) anything (given combination_ok)"
  unfolding parse_combination_def mapping_defs
  by (intro spec_steps spec_bind [OF entries_spec [where U = anything and
        I = "\<lambda>past m. map_ok assign_ok m \<and> (past \<noteq> [] \<longrightarrow> m \<noteq> [])"]]
      ParseRawYAMLValue_spec [THEN spec_bind])
    (auto simp: combination_ok_def given_def assign_ok_def dest: clean_mapping intro!: map_ok_put split: option.splits)

lemma ParseMatrixCombinations_spec:
  "tree_in R n \<Longrightarrow> spec (located R) (ParseMatrixCombinations sec n) anything
     (given (\<lambda>c. combinations_ok (c\<lparr>ms_name := Some name, ms_evaluated := b\<rparr>)))"
  unfolding ParseMatrixCombinations_def
  by (intro spec_steps each_bind [where U = anything and I = "\<lambda>past cs. list_all combination_ok cs \<and> length cs = length past"]
      parse_combination_spec [THEN spec_bind])
    (auto simp: combinations_ok_def dest: tree_in_content)

lemma parse_matrix_row_spec:
  "tree_in R (ent_val e) \<Longrightarrow> spec (located R) (parse_matrix_row e m) anything (\<lambda>m'. matrix_ok m \<longrightarrow> matrix_ok m')"
  unfolding parse_matrix_row_def
  by (intro spec_steps raw_values_spec [THEN spec_bind])
    (auto simp: matrix_ok_parts [of m] add_row_def row_ok_def intro!: map_ok_put)

lemma named_combinations_ok:
  "given (\<lambda>c. combinations_ok (c\<lparr>ms_name := Some name, ms_evaluated := b\<rparr>)) c \<Longrightarrow> pred_option combinations_ok (named_combinations name b c)"
  by (cases c) (auto simp: named_combinations_def)

lemma set_evaluated_ok:
  assumes "matrix_ok m"
  shows "matrix_ok (set_evaluated b m)"
proof -
  have c: "combinations_ok (c\<lparr>ms_combinations := map (\<lambda>x. x\<lparr>mc_evaluated := b\<rparr>) (ms_combinations c)\<rparr>)"
    if "combinations_ok c" for c
    using that by (auto simp: combinations_ok_def combination_ok_def list_all_iff)
  have "map_ok row_ok (map (\<lambda>(k, r). (k, r\<lparr>mr_evaluated := b\<rparr>)) rows)" if "map_ok row_ok rows" for rows
    using that by (auto simp: map_ok_def al_keys_def row_ok_def list_all_iff comp_def case_prod_beta')
  moreover have "pred_option combinations_ok
      (map_option (\<lambda>c. c\<lparr>ms_combinations := map (\<lambda>x. x\<lparr>mc_evaluated := b\<rparr>) (ms_combinations c)\<rparr>) x)"
    if "pred_option combinations_ok x" for x
    using that c by (cases x) auto
  ultimately show ?thesis
    using assms by (auto simp: set_evaluated_def Let_def matrix_ok_parts [of m] split: option.splits)
qed

lemma ParseMatrixMapping_spec:
  "tree_in R n \<Longrightarrow> pos \<in> R \<Longrightarrow> spec (located R) (ParseMatrixMapping pos n allowEmpty evaluated) anything matrix_ok"
proof (induction n arbitrary: pos allowEmpty evaluated rule: measure_induct_rule [where f = size])
  case (less n)
  let ?items = "mapping_items (Section ''matrix'') n allowEmpty False (\<not> evaluated)"
  let ?body = "\<lambda>e m.
             if \<not> evaluated \<and> isMappingInsertion (ws_value (ent_key e)) then do {
               i \<leftarrow> ParseMatrixMapping (ws_pos (ent_key e)) (ent_val e) True False;
               ret (Matrix (mx_insertions m @ [i]) (mx_rows m) (mx_include m) (mx_exclude m) (mx_expression m) (mx_pos m))}
             else if ent_id e = ''include'' then do {
               c \<leftarrow> ParseMatrixCombinations ''include'' (ent_val e);
               ret (Matrix (mx_insertions m) (mx_rows m) (named_combinations (ent_key e) evaluated c) (mx_exclude m)
                 (mx_expression m) (mx_pos m))}
             else if ent_id e = ''exclude'' then do {
               c \<leftarrow> ParseMatrixCombinations ''exclude'' (ent_val e);
               ret (Matrix (mx_insertions m) (mx_rows m) (mx_include m) (named_combinations (ent_key e) evaluated c)
                 (mx_expression m) (mx_pos m))}
             else parse_matrix_row e m"
  have loop: "spec (located R) (for_entries ?items ?body m) anything (\<lambda>r. clean_items ?items \<and> matrix_ok r)" if "matrix_ok m" for m
  proof (rule spec_entries_inv)
    fix e s
    assume e: "ItemEntry e \<in> set ?items"
    have t: "tree_in R (ent_val e)" "ws_pos (ent_key e) \<in> R" using mapping_items_in [OF less.prems(1) e] by simp_all
    show "spec (located R) (?body e s) anything (\<lambda>r. matrix_ok s \<longrightarrow> matrix_ok r)"
      using t by (intro spec_steps spec_bind [OF less.IH [OF item_size [OF e]]]
          ParseMatrixCombinations_spec [where name = "ent_key e" and b = evaluated, THEN spec_bind] parse_matrix_row_spec)
        (auto simp: matrix_ok_parts [of s] named_combinations_ok)
  qed (use mapping_items_in [OF less.prems(1)] that in \<open>fastforce\<close>)+
  show ?case
    using less.prems by (subst ParseMatrixMapping.simps)
      (intro spec_steps loop [THEN spec_bind]; auto simp: set_evaluated_ok)
qed

lemma parseMatrix_spec: "tree_in R n \<Longrightarrow> pos \<in> R \<Longrightarrow> spec (located R) (parseMatrix pos n) anything matrix_ok"
  unfolding parseMatrix_def by (rule ParseMatrixMapping_spec)

definition max_parallel_ok :: "wint \<Rightarrow> bool" where
  "max_parallel_ok i \<longleftrightarrow> int_ok i \<and> (wi_expr i = None \<longrightarrow> 0 < wi_value i)"

lemma parseMaxParallel_spec:
  "tree_in R n \<Longrightarrow> spec (located R) (parseMaxParallel n) anything (given max_parallel_ok)"
  unfolding parseMaxParallel_def by (intro spec_steps) (auto simp: max_parallel_ok_def)

definition strategy_ok :: "strategy \<Rightarrow> bool" where
  "strategy_ok s \<longleftrightarrow> pred_option expression_ok (sy_expression s) \<and> pred_option matrix_ok (sy_matrix s)
     \<and> pred_option bool_ok (sy_fail_fast s) \<and> pred_option max_parallel_ok (sy_max_parallel s)"

lemma parseStrategy_spec:
  "tree_in R n \<Longrightarrow> spec (located R) (parseStrategy pos n) anything strategy_ok"
  unfolding parseStrategy_def mapping_defs
  by (intro spec_steps; (rule entries_tail)?; (intro spec_steps parseMatrix_spec [THEN spec_bind] parseMaxParallel_spec [THEN spec_bind])?;
    auto simp: strategy_ok_def)

subsection \<open>Containers and services\<close>

definition credentials_ok :: "credentials \<Rightarrow> bool" where
  "credentials_ok c \<longleftrightarrow> given expression_ok (cd_expression c) \<or> given nonempty (cd_username c) \<and> given nonempty (cd_password c)"

lemma parseCredentials_spec:
  "tree_in R n \<Longrightarrow> pos \<in> R \<Longrightarrow> spec (located R) (parseCredentials pos n) anything (given credentials_ok)"
  unfolding parseCredentials_def mapping_defs
  by (intro spec_steps entries_bind [where J = "\<lambda>c. pred_option nonempty (cd_username c) \<and> pred_option nonempty (cd_password c)"])
    (auto simp: credentials_ok_def)

definition container_ok :: "container \<Rightarrow> bool" where
  "container_ok c \<longleftrightarrow> (given expression_ok (ct_expression c) \<or> ct_image c \<noteq> None)
     \<and> pred_option credentials_ok (ct_credentials c) \<and> pred_option env_ok (ct_env c)
     \<and> list_all nonempty (ct_ports c) \<and> list_all nonempty (ct_volumes c)"

definition container_part :: "container \<Rightarrow> bool" where
  "container_part c \<longleftrightarrow> pred_option credentials_ok (ct_credentials c) \<and> pred_option env_ok (ct_env c)
     \<and> list_all nonempty (ct_ports c) \<and> list_all nonempty (ct_volumes c)"

lemma parse_container_entry_spec:
  "ws_pos (ent_key e) \<in> R \<Longrightarrow> tree_in R (ent_val e) \<Longrightarrow>
     spec (located R) (parse_container_entry sec e c) anything (\<lambda>c'. container_part c \<longrightarrow> container_part c')"
  unfolding parse_container_entry_def
  by (intro spec_steps parseCredentials_spec [THEN spec_bind] parseEnv_spec [THEN spec_bind])
    (auto simp: container_part_def)

lemma parseContainer_spec:
  "tree_in R n \<Longrightarrow> pos \<in> R \<Longrightarrow> spec (located R) (parseContainer sec pos n) anything container_ok"
  unfolding parseContainer_def mapping_defs
  by (intro spec_steps entries_bind [where J = container_part, OF _ _ parse_container_entry_spec])
    (auto simp: container_ok_def container_part_def empty_container_def)

definition services_ok :: "services \<Rightarrow> bool" where
  "services_ok s \<longleftrightarrow> given expression_ok (ss_expression s) \<or> given (\<lambda>m. m \<noteq> [] \<and> map_ok (\<lambda>v. container_ok (sv_container v)) m) (ss_value s)"

lemma parseServices_spec:
  "tree_in R n \<Longrightarrow> spec (located R) (parseServices n) anything services_ok"
  unfolding parseServices_def mapping_defs
  by (intro spec_steps map_bind [where F = "\<lambda>v. container_ok (sv_container v)"] parseContainer_spec [THEN spec_bind])
    (auto simp: services_ok_def)

subsection \<open>Timeouts, runners and snapshots\<close>

definition timeout_ok :: "wfloat \<Rightarrow> bool" where
  "timeout_ok f \<longleftrightarrow> float_ok f \<and> (wf_expr f = None \<longrightarrow> f64_less f64_zero (wf_value f))"

lemma parseTimeoutMinutes_spec:
  "tree_in R n \<Longrightarrow> spec (located R) (parseTimeoutMinutes n) anything (given timeout_ok)"
proof -
  have pos: "f64_less f64_zero x" if "x \<noteq> F64NaN" "\<not> f64_less_eq x f64_zero" for x
    using f64_trichotomy [of x f64_zero] that by (auto simp: f64_less_eq_def)
  assume "tree_in R n"
  then show ?thesis unfolding parseTimeoutMinutes_def
    by (intro spec_steps) (auto simp: timeout_ok_def float_ok_def intro: pos)
qed

definition runner_ok :: "job_runner \<Rightarrow> bool" where
  "runner_ok r \<longleftrightarrow> list_all nonempty (rn_labels r)
     \<and> (given expression_ok (rn_expression r) \<or> rn_labels r \<noteq> [] \<or> given expression_ok (rn_labels_expr r) \<or> given nonempty (rn_group r))"

lemma parseRunsOn_spec:
  "tree_in R n \<Longrightarrow> spec (located R) (parseRunsOn n) anything runner_ok"
  unfolding parseRunsOn_def mapping_defs
  by (intro spec_steps spec_weaken [OF entries_spec [where U = anything and
        I = "\<lambda>past r. list_all nonempty (rn_labels r)
          \<and> (past \<noteq> [] \<longrightarrow> rn_labels r \<noteq> [] \<or> given expression_ok (rn_labels_expr r) \<or> given nonempty (rn_group r))"]])
    (auto simp: runner_ok_def dest: clean_mapping)

definition snapshot_ok :: "snapshot \<Rightarrow> bool" where
  "snapshot_ok s \<longleftrightarrow> (given expression_ok (sn_expression s) \<or> given nonempty (sn_image_name s))
     \<and> pred_option nonempty (sn_version s) \<and> pred_option nonempty (sn_if s)"

lemma parseSnapshot_spec:
  "tree_in R n \<Longrightarrow> pos \<in> R \<Longrightarrow> spec (located R) (parseSnapshot pos n) anything (given snapshot_ok)"
  unfolding parseSnapshot_def mapping_defs
  by (cases "yn_kind n"; simp only: yaml_kind.case;
    intro spec_steps entries_bind [where J = "\<lambda>s. pred_option nonempty (sn_image_name s)
      \<and> pred_option nonempty (sn_version s) \<and> pred_option nonempty (sn_if s)"]; auto simp: snapshot_ok_def)

end
