(* ===== verification/Job_Spec.thy ===== *)
theory Job_Spec
  imports Section_Spec
begin

text \<open>
  The steps and jobs of a workflow that was read without an error: a step executes exactly one
  thing and what it executes is complete, and a job either runs steps on a runner or calls a
  reusable workflow, never both.
\<close>

subsection \<open>Inputs of actions\<close>

fun inputs_ok :: "action_inputs \<Rightarrow> bool" where
  "inputs_ok (ActionInputs m e ins) \<longleftrightarrow> distinct (al_keys m) \<and> pred_option expression_ok e \<and> list_all inputs_ok ins"

lemma inputs_ok_parts:
  "inputs_ok m \<longleftrightarrow> distinct (al_keys (am_inputs m)) \<and> pred_option expression_ok (am_expression m) \<and> list_all inputs_ok (am_insertions m)"
  by (cases m) simp

definition action_part :: "exec_action \<Rightarrow> bool" where
  "action_part a \<longleftrightarrow> pred_option nonempty (ea_uses a) \<and> pred_option nonempty (ea_entrypoint a)
     \<and> distinct (al_keys (ea_inputs a)) \<and> list_all inputs_ok (ea_insertions a) \<and> pred_option expression_ok (ea_expression a)"

definition action_ok :: "exec_action \<Rightarrow> bool" where
  "action_ok a \<longleftrightarrow> action_part a \<and> ea_uses a \<noteq> None"

text \<open>What every function that writes to an action keeps.\<close>

definition action_extends :: "exec_action \<Rightarrow> exec_action \<Rightarrow> bool" where
  "action_extends a b \<longleftrightarrow> (action_part a \<longrightarrow> action_part b) \<and> (ea_uses a \<noteq> None \<longrightarrow> ea_uses b \<noteq> None)"

lemma action_extends_refl [simp]: "action_extends a a"
  by (simp add: action_extends_def)

lemma action_extends_trans: "action_extends a b \<Longrightarrow> action_extends b c \<Longrightarrow> action_extends a c"
  by (simp add: action_extends_def)

text \<open>The same for an action that may be missing.\<close>

definition docker_extends :: "exec_action option \<Rightarrow> exec_action option \<Rightarrow> bool" where
  "docker_extends x y \<longleftrightarrow> (case (x, y) of (Some a, Some b) \<Rightarrow> action_extends a b | (None, None) \<Rightarrow> True | _ \<Rightarrow> False)"

lemma docker_extends_simps [simp]:
  "docker_extends x x" "docker_extends (Some a) y \<longleftrightarrow> (\<exists>b. y = Some b \<and> action_extends a b)"
  "docker_extends None y \<longleftrightarrow> y = None" "docker_extends y None \<longleftrightarrow> y = None"
  by (auto simp: docker_extends_def split: option.splits)

lemma docker_extends_trans: "docker_extends x y \<Longrightarrow> docker_extends y z \<Longrightarrow> docker_extends x z"
  by (cases x) (auto, blast intro: action_extends_trans)

lemma docker_member_spec:
  "tree_in R n \<Longrightarrow> spec (located R) (docker_member n s kv d) anything (action_extends d)"
  unfolding docker_member_def
  by (cases kv; simp only: prod.case; intro spec_steps; auto simp: action_extends_def action_part_def nonempty_def)

lemma parseDockerInputExpression_spec:
  "tree_in R n \<Longrightarrow> spec (located R) (parseDockerInputExpression n s d) anything (docker_extends d)"
proof -
  assume n: "tree_in R n"
  have loop: "spec (located R) (do {d' \<leftarrow> for_each xs (docker_member n t) a; ret (Some d')}) anything (docker_extends (Some a))" for xs t a
    by (rule each_bind [where U = anything and I = "\<lambda>past b. action_extends a b"])
      (auto intro!: spec_return intro: spec_tail [OF docker_member_spec [OF n]] action_extends_trans)
  show ?thesis unfolding parseDockerInputExpression_def
    by (auto split: option.splits json.splits intro: spec_return loop)
qed

lemma parseDockerInput_spec:
  "tree_in R (ent_val e) \<Longrightarrow> spec (located R) (parseDockerInput e d) anything (\<lambda>r. r \<noteq> None \<longrightarrow> docker_extends d r)"
  unfolding parseDockerInput_def Let_def
  by (intro spec_steps) (auto simp: action_extends_def action_part_def)

lemma parse_input_spec: "tree_in R (ent_val e) \<Longrightarrow> spec (located R) (parse_input p e) anything anything"
  unfolding parse_input_def by (intro spec_steps) auto

lemma parseActionInputMapping_spec:
  "tree_in R n \<Longrightarrow> spec (located R) (parseActionInputMapping p n allowEmpty d) anything (\<lambda>(m, d'). inputs_ok m \<and> docker_extends d d')"
proof (induction n arbitrary: allowEmpty d rule: measure_induct_rule [where f = size])
  case (less n)
  let ?items = "mapping_items (Section ''with'') n allowEmpty False True"
  let ?body = "\<lambda>e (m, docker).
           if isMappingInsertion (ws_value (ent_key e)) then do {
             (i, docker) \<leftarrow> parseActionInputMapping p (ent_val e) True docker;
             ret (ActionInputs (am_inputs m) (am_expression m) (am_insertions m @ [i]), docker)}
           else do {
             d \<leftarrow> parseDockerInput e docker;
             if d \<noteq> None then ret (m, d)
             else do {
               x \<leftarrow> parse_input p e;
               ret (ActionInputs (al_put (ent_id e) x (am_inputs m)) (am_expression m) (am_insertions m), docker)}}"
  let ?Q = "\<lambda>(m, d'). inputs_ok m \<and> docker_extends d d'"
  have loop: "spec (located R) (for_entries ?items ?body (ActionInputs [] None [], d)) anything
      (\<lambda>r. clean_items ?items \<and> ?Q r)"
  proof (rule spec_entries_inv)
    fix e and s :: "action_inputs \<times> exec_action option"
    assume e: "ItemEntry e \<in> set ?items"
    have t: "tree_in R (ent_val e)" using mapping_items_in [OF less.prems e] by simp
    obtain m dk where s: "s = (m, dk)" by (cases s)
    show "spec (located R) (?body e s) anything (\<lambda>r. ?Q s \<longrightarrow> ?Q r)"
      unfolding s prod.case using t
      by (intro spec_steps spec_bind [OF less.IH [OF item_size [OF e] t]] parseDockerInput_spec [THEN spec_bind] parse_input_spec [THEN spec_bind])
        (auto simp: inputs_ok_parts [of m] distinct_al_put dest: docker_extends_trans)
  qed (use mapping_items_in [OF less.prems] in \<open>fastforce simp: al_keys_def\<close>)+
  show ?case using less.prems
    by (subst parseActionInputMapping.simps)
      (intro spec_steps parseDockerInputExpression_spec [THEN spec_bind] spec_tail [OF loop]; auto simp: al_keys_def)
qed

lemma parse_with_entry_spec:
  "tree_in R (ent_val e) \<Longrightarrow> spec (located R) (parse_with_entry p isDocker e r) anything (action_extends r)"
  unfolding parse_with_entry_def
  by (intro spec_steps parseActionInputMapping_spec [THEN spec_bind] parseDockerInput_spec [THEN spec_bind] parse_input_spec [THEN spec_bind])
    (auto simp: action_extends_def action_part_def distinct_al_put split: option.splits if_splits)

lemma parse_with_spec:
  "tree_in R n \<Longrightarrow> spec (located R) (parse_with p isDocker n r) anything (action_extends r)"
  unfolding parse_with_def Let_def
  by (intro spec_steps parseDockerInputExpression_spec [THEN spec_bind] entries_tail parse_with_entry_spec [THEN spec_tail])
    (auto simp: action_extends_def action_part_def al_keys_def split: option.splits)

subsection \<open>What a step executes\<close>

text \<open>Entries whose positions are in \<open>R\<close>, and the keys they have.\<close>

definition entries_in :: "source_pos set \<Rightarrow> map_entry list \<Rightarrow> bool" where
  "entries_in R es \<longleftrightarrow> list_all (\<lambda>e. ws_pos (ent_key e) \<in> R \<and> tree_in R (ent_val e)) es"

abbreviation entry_ids :: "map_entry list \<Rightarrow> string set" where
  "entry_ids es \<equiv> ent_id ` set es"

text \<open>A loop over such entries with a history.\<close>

lemma over_entries:
  assumes "entries_in R es" and "U s" and "I [] s"
    and "\<And>past e s. set past \<subseteq> set es \<Longrightarrow> e \<in> set es \<Longrightarrow> ws_pos (ent_key e) \<in> R \<Longrightarrow> tree_in R (ent_val e) \<Longrightarrow> U s
      \<Longrightarrow> spec (located R) (f e s) U (\<lambda>s'. I past s \<longrightarrow> I (past @ [e]) s')"
  shows "spec (located R) (for_each es f s) U (\<lambda>s'. I es s')"
  by (rule spec_each [where I = I]) (use assms in \<open>auto simp: entries_in_def list_all_iff\<close>)

lemma parseStepExecAction_spec:
  "entries_in R es \<Longrightarrow> spec (located R) (parseStepExecAction p es isDocker) anything (\<lambda>a. ''uses'' \<in> entry_ids es \<longrightarrow> action_ok a)"
  unfolding parseStepExecAction_def
  by (rule spec_tail [OF over_entries [where U = anything and
        I = "\<lambda>past a. action_part a \<and> (''uses'' \<in> entry_ids past \<longrightarrow> ea_uses a \<noteq> None)"]];
    (intro spec_steps parse_with_spec [THEN spec_tail])?)
    (auto simp: action_ok_def action_part_def empty_action_def al_keys_def action_extends_def)

definition run_ok :: "exec_run \<Rightarrow> bool" where
  "run_ok r \<longleftrightarrow> given nonempty (er_run r) \<and> pred_option nonempty (er_shell r) \<and> pred_option nonempty (er_working_directory r)"

lemma parseStepExecRun_spec:
  "entries_in R es \<Longrightarrow> spec (located R) (parseStepExecRun p es) anything (\<lambda>r. ''run'' \<in> entry_ids es \<longrightarrow> run_ok r)"
  unfolding parseStepExecRun_def
  by (rule spec_tail [OF over_entries [where U = anything and
        I = "\<lambda>past r. (''run'' \<in> entry_ids past \<longrightarrow> given nonempty (er_run r)) \<and> pred_option nonempty (er_shell r)
          \<and> pred_option nonempty (er_working_directory r)"]];
    (intro spec_steps)?) (auto simp: run_ok_def)

definition wait_ok :: "exec_wait \<Rightarrow> bool" where
  "wait_ok w \<longleftrightarrow> list_all nonempty (ew_names w) \<and> (ew_all w \<longleftrightarrow> ew_names w = [])"

lemma parse_wait_all_spec: "tree_in R n \<Longrightarrow> spec (located R) (parse_wait_all n) anything anything"
  unfolding parse_wait_all_def by (intro spec_steps) (auto intro!: spec_unless spec_steps)

lemma parseStepExecWait_spec:
  assumes "entries_in R es"
  shows "spec (located R) (parseStepExecWait es) anything (\<lambda>w. ''wait'' \<in> entry_ids es \<or> ''wait-all'' \<in> entry_ids es \<longrightarrow> wait_ok w)"
proof -
  let ?U = "\<lambda>(w, g :: bool). pred_option (\<lambda>pos. pos \<in> R) (ew_all_pos w)"
  let ?I = "\<lambda>past (w, g). list_all nonempty (ew_names w) \<and> (g \<longleftrightarrow> ew_names w \<noteq> [])
    \<and> (ew_all w \<longleftrightarrow> ew_all_pos w \<noteq> None) \<and> (''wait'' \<in> entry_ids past \<longrightarrow> g) \<and> (''wait-all'' \<in> entry_ids past \<longrightarrow> ew_all w)"
  show ?thesis unfolding parseStepExecWait_def
  proof (rule spec_bind [OF over_entries [where U = ?U and I = ?I, OF assms]])
    show "spec (located R) (case r of (r, waitGiven) \<Rightarrow>
        (case ew_all_pos r of
           Some pos \<Rightarrow> do {unless (\<not> (waitGiven \<and> ew_all r)) (errorAt pos WaitAndWaitAll); ret r}
         | None \<Rightarrow> ret r)) anything (\<lambda>w. ?I es r \<longrightarrow> ''wait'' \<in> entry_ids es \<or> ''wait-all'' \<in> entry_ids es \<longrightarrow> wait_ok w)"
      if "?U r" for r
      using that by (intro spec_steps) (auto simp: wait_ok_def)
  next
    fix past e s
    assume "e \<in> set es" "ws_pos (ent_key e) \<in> R" "tree_in R (ent_val e)" "?U s"
    then show "spec (located R) ((case s of (r, waitGiven) \<Rightarrow>
          if ent_id e = ''wait'' then do {
            ns \<leftarrow> parseStringOrStringSequence ''wait'' (ent_val e); ret (r\<lparr>ew_names := ns\<rparr>, True)}
          else if ent_id e = ''wait-all'' then do {
            parse_wait_all (ent_val e);
            ret (r\<lparr>ew_all := True, ew_all_pos := Some (ws_pos (ent_key e))\<rparr>, waitGiven)}
          else if ent_id e \<in> set waiting_step_keys then ret (r, waitGiven)
          else do {
            unexpectedKey (ent_key e) ''step to wait for background steps'' (waiting_step_keys @ [''wait'', ''wait-all'']);
            ret (r, waitGiven)})) ?U (\<lambda>s'. ?I past s \<longrightarrow> ?I (past @ [e]) s')"
      by (intro spec_steps parse_wait_all_spec [THEN spec_bind]) auto
  qed auto
qed

lemma parseStepExecCancel_spec:
  "entries_in R es \<Longrightarrow> spec (located R) (parseStepExecCancel es) anything (\<lambda>c. ''cancel'' \<in> entry_ids es \<longrightarrow> given nonempty c)"
  unfolding parseStepExecCancel_def
  by (rule spec_tail [OF over_entries [where U = anything and I = "\<lambda>past c. ''cancel'' \<in> entry_ids past \<longrightarrow> given nonempty c"]];
    (intro spec_steps)?) auto

lemma parseStepExecParallel_spec:
  assumes "entries_in R es"
    and "\<And>e. e \<in> set es \<Longrightarrow> tree_in R (ent_val e) \<Longrightarrow> spec (located R) (steps (ent_val e)) anything Q"
  shows "spec (located R) (parseStepExecParallel steps es) anything (\<lambda>r. ''parallel'' \<in> entry_ids es \<longrightarrow> Q r)"
  unfolding parseStepExecParallel_def
  by (rule over_entries [where U = anything and I = "\<lambda>past r. ''parallel'' \<in> entry_ids past \<longrightarrow> Q r", OF assms(1)];
    (intro spec_steps assms(2) [THEN spec_tail])?) auto

subsection \<open>Steps\<close>

definition step_info_ok :: "step_info \<Rightarrow> bool" where
  "step_info_ok i \<longleftrightarrow> pred_option nonempty (st_id i) \<and> pred_option nonempty (st_if i) \<and> pred_option env_ok (st_env i)
     \<and> pred_option bool_ok (st_continue_on_error i) \<and> pred_option timeout_ok (st_timeout i) \<and> pred_option bool_ok (st_background i)"

fun step_complete :: "step \<Rightarrow> bool"
and exec_complete :: "exec \<Rightarrow> bool" where
  "step_complete (Step i x) = (step_info_ok i \<and> (case x of None \<Rightarrow> False | Some e \<Rightarrow> exec_complete e))"
| "exec_complete (ExecAction a) = action_ok a"
| "exec_complete (ExecRun r) = run_ok r"
| "exec_complete (ExecWait w) = wait_ok w"
| "exec_complete (ExecCancel c) = given nonempty c"
| "exec_complete (ExecParallel ss) = (case ss of None \<Rightarrow> False | Some l \<Rightarrow> l \<noteq> [] \<and> list_all step_complete l)"

text \<open>A kind was chosen because of a key.\<close>

fun kind_given :: "string set \<Rightarrow> step_kind \<Rightarrow> bool" where
  "kind_given ks StepUnknown = True"
| "kind_given ks StepAction = (''uses'' \<in> ks)"
| "kind_given ks StepDocker = (''uses'' \<in> ks)"
| "kind_given ks StepRun = (''run'' \<in> ks)"
| "kind_given ks StepWait = (''wait'' \<in> ks \<or> ''wait-all'' \<in> ks)"
| "kind_given ks StepCancel = (''cancel'' \<in> ks)"
| "kind_given ks StepParallel = (''parallel'' \<in> ks)"

lemma parse_step_entry_spec:
  "ent_id e \<in> entry_ids es \<Longrightarrow> tree_in R (ent_val e) \<Longrightarrow> kind_given (entry_ids es) (fst (snd s)) \<Longrightarrow>
     spec (located R) (parse_step_entry e s) (\<lambda>r. kind_given (entry_ids es) (fst (snd r)))
       (\<lambda>r. step_info_ok (fst s) \<longrightarrow> step_info_ok (fst r))"
  unfolding parse_step_entry_def Let_def
  by (cases s; simp only: prod.case;
      intro spec_steps parseEnv_spec [THEN spec_bind] parseTimeoutMinutes_spec [THEN spec_bind];
      auto simp: step_info_ok_def)

lemma report_items_spec:
  "tree_in R n \<Longrightarrow> spec (located R) (report_items (step_entries n)) anything (\<lambda>_. clean_items (step_entries n))"
  unfolding report_items_def step_entries_def mapping_defs
  by (rule spec_tail [OF entries_inv [where Q = anything]]) (auto intro: spec_return)

lemma step_entries_in:
  assumes "tree_in R n"
  shows "entries_in R (item_entries (step_entries n))"
  using mapping_items_in [OF assms, unfolded item_in.simps] item_entries_mem
  unfolding entries_in_def step_entries_def mapping_defs list_all_iff
  by (metis item_in.simps(2) mapping_items_in [OF assms])

lemma spec_kind:
  assumes "k = StepAction \<Longrightarrow> spec P a U Q" and "k = StepDocker \<Longrightarrow> spec P d U Q" and "k = StepRun \<Longrightarrow> spec P r U Q"
    and "k = StepWait \<Longrightarrow> spec P w U Q" and "k = StepCancel \<Longrightarrow> spec P c U Q" and "k = StepParallel \<Longrightarrow> spec P p U Q"
    and "k = StepUnknown \<Longrightarrow> spec P x U Q"
  shows "spec P (case k of StepAction \<Rightarrow> a | StepDocker \<Rightarrow> d | StepRun \<Rightarrow> r | StepWait \<Rightarrow> w | StepCancel \<Rightarrow> c
     | StepParallel \<Rightarrow> p | StepUnknown \<Rightarrow> x) U Q"
  using assms by (cases k) simp_all

lemma ParseStep_spec:
  "tree_in R n \<Longrightarrow> spec (located R) (ParseStep p n) anything step_complete"
  "tree_in R n \<Longrightarrow> spec (located R) (ParseSteps p n) anything (given (\<lambda>ss. ss \<noteq> [] \<and> list_all step_complete ss))"
proof (induction p n and p n rule: ParseStep_ParseSteps.induct)
  case (1 p n)
  let ?es = "item_entries (step_entries n)"
  have es: "entries_in R ?es" using 1(2) by (rule step_entries_in)
  have loop: "spec (located R) (for_each ?es parse_step_entry (empty_step (PosAt n), StepUnknown, None))
      (\<lambda>r. kind_given (entry_ids ?es) (fst (snd r))) (\<lambda>r. step_info_ok (fst r))"
    by (rule over_entries [where I = "\<lambda>_ r. step_info_ok (fst r)", OF es])
      (simp_all add: parse_step_entry_spec empty_step_def step_info_ok_def [of "empty_step _", unfolded empty_step_def])
  have par: "spec (located R) (parseStepExecParallel (\<lambda>v. ParseSteps p v) ?es) anything
      (\<lambda>r. ''parallel'' \<in> entry_ids ?es \<longrightarrow> given (\<lambda>ss. ss \<noteq> [] \<and> list_all step_complete ss) r)"
    using 1(1) by (intro parseStepExecParallel_spec [OF es]) auto
  note called = par [THEN spec_bind] parseStepExecAction_spec [OF es, THEN spec_bind] parseStepExecRun_spec [OF es, THEN spec_bind]
    parseStepExecWait_spec [OF es, THEN spec_bind] parseStepExecCancel_spec [OF es, THEN spec_bind]
  have exec: "spec (located R) (case k of
         StepAction \<Rightarrow> do {x \<leftarrow> parseStepExecAction p ?es False; ret (Some (ExecAction x))}
       | StepDocker \<Rightarrow> do {x \<leftarrow> parseStepExecAction p ?es True; ret (Some (ExecAction x))}
       | StepRun \<Rightarrow> do {x \<leftarrow> parseStepExecRun p ?es; ret (Some (ExecRun x))}
       | StepWait \<Rightarrow> do {x \<leftarrow> parseStepExecWait ?es; ret (Some (ExecWait x))}
       | StepCancel \<Rightarrow> do {x \<leftarrow> parseStepExecCancel ?es; ret (Some (ExecCancel x))}
       | StepParallel \<Rightarrow> do {x \<leftarrow> parseStepExecParallel (\<lambda>v. ParseSteps p v) ?es; ret (Some (ExecParallel x))}
       | StepUnknown \<Rightarrow> do {node_error n StepWithoutExec; ret None}) anything (given exec_complete)"
    if "kind_given (entry_ids ?es) k" for k
    using that 1(2)
    by (intro spec_kind; (intro called spec_steps)?; auto split: option.splits simp: given_def)
  show ?case
    using 1(2)
    by (subst ParseStep.simps)
      (intro spec_steps report_items_spec [THEN spec_bind] loop [THEN spec_bind] exec [THEN spec_bind];
       auto simp: step_info_ok_def given_def split: option.splits)
next
  case (2 p n)
  then show ?case
    by (subst ParseSteps.simps)
      (intro spec_steps collect_bind [where F = step_complete]; auto dest: tree_in_content)
qed

subsection \<open>Jobs\<close>

text \<open>The parts of a job that its keys fill, and the state without any key that needs steps.\<close>

definition job_parts_ok :: "wf_job \<Rightarrow> bool" where
  "job_parts_ok j \<longleftrightarrow> list_all nonempty (wj_needs j) \<and> pred_option runner_ok (wj_runs_on j)
     \<and> pred_option permissions_ok (wj_permissions j) \<and> pred_option cache_mode_ok (wj_cache_mode j)
     \<and> pred_option environment_ok (wj_environment j) \<and> pred_option concurrency_ok (wj_concurrency j)
     \<and> map_ok anything (wj_outputs j) \<and> pred_option env_ok (wj_env j) \<and> pred_option defaults_ok (wj_defaults j)
     \<and> pred_option nonempty (wj_if j) \<and> pred_option (\<lambda>ss. ss \<noteq> [] \<and> list_all step_complete ss) (wj_steps j)
     \<and> pred_option timeout_ok (wj_timeout j) \<and> pred_option float_ok (wj_cancel_timeout j)
     \<and> pred_option strategy_ok (wj_strategy j) \<and> pred_option bool_ok (wj_continue_on_error j)
     \<and> pred_option container_ok (wj_container j) \<and> pred_option services_ok (wj_services j)
     \<and> pred_option snapshot_ok (wj_snapshot j)"

definition steps_free :: "wf_job \<Rightarrow> bool" where
  "steps_free j \<longleftrightarrow> wj_runs_on j = None \<and> wj_environment j = None \<and> wj_outputs j = [] \<and> wj_env j = None
     \<and> wj_defaults j = None \<and> wj_steps j = None \<and> wj_timeout j = None \<and> wj_cancel_timeout j = None
     \<and> wj_continue_on_error j = None \<and> wj_container j = None \<and> wj_services j = None \<and> wj_snapshot j = None"

definition workflow_call_ok :: "workflow_call \<Rightarrow> bool" where
  "workflow_call_ok c \<longleftrightarrow> pred_option nonempty (wc_uses c) \<and> map_ok anything (wc_inputs c) \<and> map_ok anything (wc_secrets c)"

text \<open>A job runs steps, or it calls a reusable workflow and has none of the keys that need steps.\<close>

definition job_ok :: "wf_job \<Rightarrow> bool" where
  "job_ok j \<longleftrightarrow> job_parts_ok j \<and>
     (case wj_workflow_call j of
        None \<Rightarrow> wj_steps j \<noteq> None \<and> wj_runs_on j \<noteq> None
      | Some c \<Rightarrow> workflow_call_ok c \<and> wc_uses c \<noteq> None \<and> steps_free j)"

text \<open>What an update of a job keeps.\<close>

definition keeps_parts :: "(wf_job \<Rightarrow> wf_job) \<Rightarrow> bool" where
  "keeps_parts f \<longleftrightarrow> (\<forall>j. job_parts_ok j \<longrightarrow> job_parts_ok (f j))"

definition keeps_call :: "(workflow_call \<Rightarrow> workflow_call) \<Rightarrow> bool" where
  "keeps_call f \<longleftrightarrow> (\<forall>c. workflow_call_ok c \<longrightarrow> workflow_call_ok (f c))"

lemma parse_steps_job_key_spec:
  assumes "parse_steps_job_key p e = Some m" and "ws_pos (ent_key e) \<in> R" and "tree_in R (ent_val e)"
  shows "spec (located R) m (\<lambda>f. \<forall>j. wj_workflow_call (f j) = wj_workflow_call j) keeps_parts" and "JobKeyRequiresSteps (ent_id e)"
proof -
  show "JobKeyRequiresSteps (ent_id e)"
    using assms(1) by (auto simp: parse_steps_job_key_def Let_def JobKeyRequiresSteps_def steps_only_keys_def split: if_splits)
  show "spec (located R) m (\<lambda>f. \<forall>j. wj_workflow_call (f j) = wj_workflow_call j) keeps_parts"
    using assms
    by (simp only: parse_steps_job_key_def Let_def option.inject option.distinct split: if_splits; (elim FalseE)?; hypsubst?;
        (intro spec_steps parseRunsOn_spec [THEN spec_bind] parseEnvironment_spec [THEN spec_bind] parseOutputs_spec [THEN spec_bind]
          parseEnv_spec [THEN spec_bind] parseDefaults_spec [THEN spec_bind] ParseStep_spec(2) [THEN spec_bind]
          parseTimeoutMinutes_spec [THEN spec_bind] parseContainer_spec [THEN spec_bind] parseServices_spec [THEN spec_bind]
          parseSnapshot_spec [THEN spec_bind])?;
        auto simp: keeps_parts_def job_parts_ok_def)
qed

lemma parse_needs_spec:
  "tree_in R n \<Longrightarrow> spec (located R) (parse_needs n) anything (list_all nonempty)"
  unfolding parse_needs_def by (intro spec_steps) auto

lemma parse_common_job_key_spec:
  assumes "parse_common_job_key e = Some m" and "ws_pos (ent_key e) \<in> R" and "tree_in R (ent_val e)"
  shows "spec (located R) m (\<lambda>f. \<forall>j. wj_workflow_call (f j) = wj_workflow_call j)
     (\<lambda>f. keeps_parts f \<and> (\<forall>j. steps_free (f j) = steps_free j))"
  using assms
  by (simp only: parse_common_job_key_def Let_def option.inject option.distinct split: if_splits; (elim FalseE)?; hypsubst?;
      (intro spec_steps parse_needs_spec [THEN spec_bind] parsePermissions_spec [THEN spec_bind] parseCacheMode_spec [THEN spec_bind]
        parseConcurrency_spec [THEN spec_bind] parseStrategy_spec [THEN spec_bind])?;
      auto simp: keeps_parts_def job_parts_ok_def steps_free_def)

lemma parse_job_secrets_spec:
  "tree_in R n \<Longrightarrow> spec (located R) (parse_job_secrets n) anything keeps_call"
  unfolding parse_job_secrets_def mapping_defs
  by (intro spec_steps map_bind [where F = anything, OF _ parse_named_spec]) (auto simp: keeps_call_def workflow_call_ok_def)

lemma parse_call_key_spec:
  assumes "parse_call_key e = Some m" and "tree_in R (ent_val e)"
  shows "spec (located R) m anything keeps_call"
  using assms
  by (simp only: parse_call_key_def mapping_defs Let_def option.inject option.distinct split: if_splits; (elim FalseE)?; hypsubst?;
      (intro spec_steps map_bind [where F = anything, OF _ parse_named_spec] parse_job_secrets_spec [THEN spec_tail])?;
      auto simp: keeps_call_def workflow_call_ok_def)

text \<open>The invariant of the loop over the keys of a job: what holds anyway, and without an error.\<close>

definition job_state_in :: "source_pos set \<Rightarrow> job_state \<Rightarrow> bool" where
  "job_state_in R s \<longleftrightarrow> pred_option (\<lambda>k. ws_pos k \<in> R) (js_steps_key s) \<and> pred_option (\<lambda>k. ws_pos k \<in> R) (js_call_key s)
     \<and> wj_workflow_call (js_job s) = None"

definition job_state_ok :: "job_state \<Rightarrow> bool" where
  "job_state_ok s \<longleftrightarrow> job_parts_ok (js_job s) \<and> workflow_call_ok (js_call s) \<and> (js_steps_key s = None \<longrightarrow> steps_free (js_job s))"

lemma parse_job_entry_spec:
  assumes "ws_pos (ent_key e) \<in> R" and "tree_in R (ent_val e)" and "job_state_in R s"
  shows "spec (located R) (parse_job_entry p e s) (job_state_in R) (\<lambda>s'. job_state_ok s \<longrightarrow> job_state_ok s')"
  unfolding parse_job_entry_def Let_def
  using assms
  by (intro spec_steps parse_steps_job_key_spec(1) [THEN spec_bind] parse_common_job_key_spec [THEN spec_bind] parse_call_key_spec [THEN spec_bind];
      auto simp: job_state_in_def job_state_ok_def set_job_def set_call_def keeps_parts_def keeps_call_def
        dest: parse_steps_job_key_spec(2))

lemma spec_option_bind:
  "(x = None \<Longrightarrow> spec P (m \<bind> g) U Q) \<Longrightarrow> (\<And>y. x = Some y \<Longrightarrow> spec P (f y \<bind> g) U Q)
    \<Longrightarrow> spec P ((case x of None \<Rightarrow> m | Some y \<Rightarrow> f y) \<bind> g) U Q"
  by (cases x) simp_all

lemma finish_job_spec:
  assumes "ws_pos name \<in> R" and "job_state_in R s"
  shows "spec (located R) (finish_job name s) anything (\<lambda>j. job_state_ok s \<longrightarrow> job_ok j)"
  unfolding finish_job_def Let_def
  using assms
  by (intro spec_steps spec_option_bind;
      auto simp: job_state_in_def job_state_ok_def job_ok_def job_parts_ok_def steps_free_def intro!: spec_return)

lemma parseJob_spec:
  assumes "ws_pos name \<in> R" and "tree_in R n"
  shows "spec (located R) (parseJob p name n) anything job_ok"
  unfolding parseJob_def mapping_defs
proof (rule spec_bind [OF entries_spec [where U = "job_state_in R" and I = "\<lambda>_. job_state_ok", OF assms(2)]])
  show "job_state_in R (empty_job_state name)" "job_state_ok (empty_job_state name)"
    by (simp_all add: job_state_in_def job_state_ok_def empty_job_state_def empty_job_def job_parts_ok_def
        workflow_call_ok_def steps_free_def)
qed (use assms in \<open>auto intro: parse_job_entry_spec spec_weaken [OF finish_job_spec]\<close>)

lemma parseJobs_spec:
  "tree_in R n \<Longrightarrow> spec (located R) (parseJobs p n) anything (\<lambda>m. m \<noteq> [] \<and> map_ok job_ok m)"
  unfolding parseJobs_def mapping_defs
  by (rule map_tail [where F = job_ok]) (auto intro: parseJob_spec)

end
