(* ===== verification/Workflow_Spec.thy ===== *)
theory Workflow_Spec
  imports Job_Spec "HOL-Library.Word"
begin

text \<open>
  The parser of workflow files as a whole: every error is at a node of the document, and a
  file without errors gives a complete workflow. The resolution of aliases keeps the positions
  of the tree; together with the specifications of the sections this gives both.
\<close>

subsection \<open>Aliases keep positions\<close>

definition aliases_in :: "source_pos set \<Rightarrow> resolve_state \<Rightarrow> bool" where
  "aliases_in R s \<longleftrightarrow> (\<forall>(a, u)\<in>set (ra_anchors s). tree_in R (au_node u)) \<and> (\<forall>(i, p)\<in>set (ra_reports s). info_pos i \<in> R)"

lemma tree_in_YNode:
  "tree_in R (YNode i cs) \<longleftrightarrow> node_in R (YNode i cs) \<and> list_all (tree_in R) cs"
  by (auto simp: tree_in_def list_all_iff)

lemma aliases_in_report [intro]: "aliases_in R s \<Longrightarrow> info_pos i \<in> R \<Longrightarrow> aliases_in R (report_alias i p s)"
  by (auto simp: aliases_in_def)

lemma aliases_in_usage [intro]: "aliases_in R s \<Longrightarrow> tree_in R (au_node u) \<Longrightarrow> aliases_in R (set_usage a u s)"
  by (auto simp: aliases_in_def dest!: al_put_mem)

lemma aliases_in_next [simp]: "aliases_in R (s\<lparr>ra_next := k\<rparr>) = aliases_in R s"
  by (simp add: aliases_in_def)

lemma node_in_pos: "node_in R n \<Longrightarrow> info_pos (yn_info n) \<in> R"
  by (simp add: node_in_def PosAt_def)

lemma open_anchor_in: "aliases_in R s \<Longrightarrow> tree_in R n \<Longrightarrow> aliases_in R (open_anchor n s)"
  by (auto simp: open_anchor_def Let_def intro!: aliases_in_usage aliases_in_report node_in_pos tree_in_node)

lemma close_anchor_in: "aliases_in R s \<Longrightarrow> tree_in R n \<Longrightarrow> aliases_in R (close_anchor n s)"
  by (auto simp: close_anchor_def Let_def split: option.splits intro!: aliases_in_usage)

lemma tree_in_copy:
  "tree_in R t \<Longrightarrow> pos \<in> R \<Longrightarrow> tree_in R (YNode (yn_info t\<lparr>ni_id := a, ni_via := Some (v, pos)\<rparr>) (yn_content t))"
  by (cases t) (auto simp: tree_in_YNode node_in_def PosAt_def info_pos_def)

lemma replace_alias_in:
  assumes "replace_alias c s = (c', s')" and "aliases_in R s" and "tree_in R c"
  shows "tree_in R c' \<and> aliases_in R s'"
proof -
  define t where "t = (if CHR ''+'' \<in> set (yn_value c) then report_alias (yn_info c) (InvalidAliasName (yn_value c)) s else s)"
  have pos: "info_pos (yn_info c) \<in> R" using assms(3) by (intro node_in_pos tree_in_node)
  then have t: "aliases_in R t" using assms(2) by (auto simp: t_def)
  have u: "tree_in R (au_node u)" if "map_of (ra_anchors t) a = Some u" for a u
    using t that by (auto simp: aliases_in_def dest: map_of_SomeD)
  show ?thesis
    using assms(1) [unfolded replace_alias_def Let_def, folded t_def] t assms(3) pos
    by (auto split: option.splits if_splits intro!: aliases_in_report aliases_in_usage tree_in_copy) (blast intro: u)+
qed

lemma resolve_in:
  "resolve n s = (n', s') \<Longrightarrow> aliases_in R s \<Longrightarrow> tree_in R n \<Longrightarrow> tree_in R n' \<and> aliases_in R s'"
  "resolve_content cs s = (cs', s') \<Longrightarrow> aliases_in R s \<Longrightarrow> list_all (tree_in R) cs \<Longrightarrow> list_all (tree_in R) cs' \<and> aliases_in R s'"
proof (induction n s and cs s arbitrary: n' s' and cs' s' rule: resolve_resolve_content.induct)
  case (1 i cs s)
  obtain cs' t where t: "resolve_content cs (open_anchor (YNode i cs) s) = (cs', t)"
    by (cases "resolve_content cs (open_anchor (YNode i cs) s)")
  have "list_all (tree_in R) cs' \<and> aliases_in R t"
    by (rule "1.IH" [OF t open_anchor_in]) (use "1.prems" in \<open>auto simp: tree_in_YNode\<close>)
  moreover have "node_in R (YNode i cs')" using "1.prems"(3) by (simp add: tree_in_YNode node_in_def PosAt_def)
  ultimately have "tree_in R (YNode i cs')" by (simp add: tree_in_YNode)
  with \<open>list_all (tree_in R) cs' \<and> aliases_in R t\<close> show ?case using "1.prems"(1) t by (auto intro: close_anchor_in)
next
  case (3 c cs s)
  obtain c' t where t: "(if yn_kind c = AliasNode then replace_alias c s else resolve c s) = (c', t)"
    by fastforce
  obtain cs'' where r: "resolve_content cs t = (cs'', s')"
    using "3.prems"(1) by (cases "resolve_content cs t") (simp add: t)
  have c: "tree_in R c' \<and> aliases_in R t"
    using "3.IH"(1) t "3.prems"(2,3) replace_alias_in [of c s c' t] by (auto split: if_splits)
  then have "list_all (tree_in R) cs'' \<and> aliases_in R s'"
    using "3.IH"(2) [OF t [symmetric] r] "3.prems"(3) by simp
  then show ?case using "3.prems"(1) t r c by auto
qed auto

lemma ResolveYAMLAliases_in:
  assumes "ResolveYAMLAliases n = (n', rs)" and "tree_in R n"
  shows "tree_in R n' \<and> (\<forall>(i, p)\<in>set rs. info_pos i \<in> R)"
proof -
  obtain s where r: "resolve n \<lparr>ra_anchors = [], ra_reports = [], ra_next = fresh_id n\<rparr> = (n', s)"
    and rs: "rs = ra_reports s @ report_unused (ra_anchors s)"
    using assms(1) by (auto simp: ResolveYAMLAliases_def split: prod.splits)
  have "tree_in R n' \<and> aliases_in R s" by (rule resolve_in(1) [OF r]) (simp_all add: aliases_in_def assms)
  moreover from this have "info_pos (yn_info (au_node u)) \<in> R" if "(a, u) \<in> set (ra_anchors s)" for a u
    using that by (intro node_in_pos tree_in_node) (auto simp: aliases_in_def)
  ultimately show ?thesis
    unfolding rs aliases_in_def report_unused_def by fastforce
qed

subsection \<open>Workflows\<close>

text \<open>The fields that the keys of a workflow fill, and a complete workflow.\<close>

definition workflow_part :: "workflow \<Rightarrow> bool" where
  "workflow_part w \<longleftrightarrow> pred_option (\<lambda>es. es \<noteq> [] \<and> list_all event_ok es) (wk_on w)
     \<and> pred_option permissions_ok (wk_permissions w) \<and> pred_option cache_mode_ok (wk_cache_mode w)
     \<and> pred_option env_ok (wk_env w) \<and> pred_option defaults_ok (wk_defaults w)
     \<and> pred_option concurrency_ok (wk_concurrency w) \<and> pred_option nonempty (wk_run_name w)
     \<and> pred_option (\<lambda>m. m \<noteq> [] \<and> map_ok job_ok m) (wk_jobs w)"

definition workflow_ok :: "workflow \<Rightarrow> bool" where
  "workflow_ok w \<longleftrightarrow> workflow_part w \<and> wk_on w \<noteq> None \<and> wk_jobs w \<noteq> None"

lemma given_kept: "given f x \<Longrightarrow> pred_option f x \<and> x \<noteq> None"
  by (cases x) auto

lemma parse_workflow_entry_spec:
  assumes "ws_pos (ent_key e) \<in> R" and "tree_in R (ent_val e)"
  shows "spec (located R) (parse_workflow_entry p e w) anything (\<lambda>w'. workflow_part w \<longrightarrow> workflow_part w')"
  unfolding parse_workflow_entry_def Let_def using assms
  by (intro spec_steps parseEvents_spec [THEN spec_bind] parsePermissions_spec [THEN spec_bind] parseCacheMode_spec [THEN spec_bind]
      parseEnv_spec [THEN spec_bind] parseDefaults_spec [THEN spec_bind] parseConcurrency_spec [THEN spec_bind] parseJobs_spec [THEN spec_bind];
      auto simp: workflow_part_def dest: given_kept)

lemma tree_in_iff: "tree_in R n \<longleftrightarrow> node_in R n \<and> list_all (tree_in R) (yn_content n)"
  by (cases n) (simp only: tree_in_YNode ynode.sel)

lemma tree_in_fix_root: "tree_in R n \<Longrightarrow> PosAt (fix_root n) \<in> R \<Longrightarrow> tree_in R (fix_root n)"
proof -
  assume n: "tree_in R n" and pos: "PosAt (fix_root n) \<in> R"
  have "yn_content (fix_root n) = yn_content n" "ni_via (yn_info (fix_root n)) = ni_via (yn_info n)"
    by (simp_all add: fix_root_def Let_def)
  with n pos show ?thesis unfolding tree_in_iff [of R n] tree_in_iff [of R "fix_root n"] node_in_def by simp
qed

lemma parse_body_spec:
  assumes "tree_in R n"
  shows "spec (located R) (parse_body p n) anything workflow_ok"
proof (cases "yn_content n")
  case Nil
  then show ?thesis using assms by (auto simp: parse_body_def intro!: spec_steps)
next
  case (Cons body rest)
  then have "tree_in R body" using assms by (auto dest: tree_in_content)
  then show ?thesis using assms Cons unfolding parse_body_def mapping_defs
    by (simp, intro spec_steps entries_bind [where J = workflow_part] parse_workflow_entry_spec;
        auto simp: workflow_ok_def workflow_part_def empty_workflow_def)
qed

lemma emit_all_spec: "(\<And>e. e \<in> set es \<Longrightarrow> P e) \<Longrightarrow> spec P (emit_all es) anything (\<lambda>_. es = [])"
proof (induction es)
  case (Cons e es)
  have "emit_all (e # es) = emit_error e \<bind> (\<lambda>_. emit_all es)" by (simp add: emit_all_def)
  then show ?case using Cons by (auto intro: spec_bind [OF spec_emit [where Q = "\<lambda>_. False" and U = anything]] spec_weaken)
qed (simp add: emit_all_def spec_return)

lemma parse_root_spec:
  assumes "tree_in R n" and "PosAt (fix_root n) \<in> R"
  shows "spec (located R) (parse_root p n) anything workflow_ok"
proof -
  obtain m rs where m: "ResolveYAMLAliases n = (m, rs)" by fastforce
  then have "yn_info m = yn_info n" by (cases n) (auto simp: ResolveYAMLAliases_def split: prod.splits)
  then have pos: "PosAt (fix_root m) \<in> R" using assms(2) by (simp add: PosAt_def fix_root_def Let_def)
  have "tree_in R (fix_root m)" using ResolveYAMLAliases_in [OF m assms(1)] pos by (simp add: tree_in_fix_root)
  then show ?thesis
    using ResolveYAMLAliases_in [OF m assms(1)] unfolding parse_root_def m prod.case
    by (intro emit_all_spec [THEN spec_bind] parse_body_spec [THEN spec_bind] spec_return)
      (auto simp: alias_errors_def workflow_ok_def workflow_part_def)
qed

lemma checkFlowMappingNulls_in: "tree_in R n \<Longrightarrow> k \<in> set (checkFlowMappingNulls p n f) \<Longrightarrow> tree_in R k"
proof (induction p n f rule: checkFlowMappingNulls.induct)
  case (1 p i cs f)
  let ?f = "f \<or> has_style (YNode i cs) [FlowStyle]"
  consider c where "c \<in> set cs" "k \<in> set (checkFlowMappingNulls p c ?f)" | v where "(k, v) \<in> set (node_pairs cs)"
    using 1(3) by (auto simp: Let_def split: if_splits)
  then show ?case
  proof cases
    case 1: 1
    then show ?thesis using "1.IH" [OF refl refl 1(1)] "1.prems"(1) by (auto simp: tree_in_YNode list_all_iff)
  next
    case 2
    then show ?thesis using "1.prems"(1) by (auto simp: tree_in_YNode list_all_iff dest: node_pairs_mem)
  qed
qed

lemma parse_tree_spec:
  assumes "tree_in R n" and "PosAt (fix_root n) \<in> R"
  shows "spec (located R) (parse_tree b n) anything workflow_ok"
  unfolding parse_tree_def Let_def
  by (rule spec_bind [OF emit_all_spec]) (auto intro: spec_weaken [OF parse_root_spec [OF assms]] checkFlowMappingNulls_in [OF assms(1), THEN tree_in_PosAt])

subsection \<open>What Parse promises\<close>

lemma Parse_spec:
  assumes "unmarshal b = Inr n" and "tree_in R n" and "PosAt (fix_root n) \<in> R" and "Parse unmarshal b = (w, es)"
  shows "list_all (located R) es \<and> (es = [] \<longrightarrow> given workflow_ok w)"
proof -
  obtain v fs where v: "run_state (parse_tree b n) [] = (v, fs)" by (cases "run_state (parse_tree b n) []")
  have "w = Some v" "es = fs" using assms(1,4) v by (simp_all add: Parse_def)
  with spec_emitsD [OF parse_tree_spec [OF assms(2,3)] v] show ?thesis by simp
qed

text \<open>The document of the examples: a push workflow with one job of one step.\<close>

definition sample_lines :: string where
  "sample_lines = concat (map (\<lambda>l. l @ [CHR 0x0A])
     [''on: push'', ''jobs:'', '' a:'', ''  runs-on: x'', ''  steps:'', ''  - run: ls''])"

definition sample_scalar :: "nat \<Rightarrow> string \<Rightarrow> int \<Rightarrow> int \<Rightarrow> ynode" where
  "sample_scalar i v l c = YNode (plain_info i ScalarNode ''!!str'' v l c) []"

definition sample_mapping :: "nat \<Rightarrow> int \<Rightarrow> int \<Rightarrow> ynode list \<Rightarrow> ynode" where
  "sample_mapping i l c cs = YNode (plain_info i MappingNode ''!!map'' [] l c) cs"

definition sample_tree :: "string \<Rightarrow> ynode" where
  "sample_tree key = YNode (plain_info 0 DocumentNode [] [] 1 1)
     [sample_mapping 1 1 1 [sample_scalar 2 ''on'' 1 1, sample_scalar 3 ''push'' 1 5, sample_scalar 4 ''jobs'' 2 1,
        sample_mapping 5 3 2 [sample_scalar 6 ''a'' 3 2,
          sample_mapping 7 4 3 [sample_scalar 8 ''runs-on'' 4 3, sample_scalar 9 ''x'' 4 12, sample_scalar 10 ''steps'' 5 3,
            YNode (plain_info 11 SequenceNode ''!!seq'' [] 6 3)
              [sample_mapping 12 6 5 [sample_scalar 13 key 6 5, sample_scalar 14 ''ls'' 6 10]]]]]]"

text \<open>
  (C14) Errors of the parser are at the document: whatever the YAML parser gives for a file, every
  error \<open>Parse\<close> reports for the tree, also one about a node an alias stands for, is at the
  position of a node of that tree, or at the first byte of the file if the root has no position.
\<close>

theorem Parse_errors_located:
  assumes "unmarshal b = Inr n" and "\<forall>m\<in>set (tree_nodes n). ni_via (yn_info m) = None"
    and "Parse unmarshal b = (w, es)" and "e \<in> set es"
  shows "se_pos e \<in> insert (PosAt (fix_root n)) (PosAt ` set (tree_nodes n))"
proof -
  have "tree_in (insert (PosAt (fix_root n)) (PosAt ` set (tree_nodes n))) n"
    using assms(2) by (auto simp: tree_in_def list_all_iff node_in_def)
  from Parse_spec [OF assms(1) this _ assms(3)] assms(4) show ?thesis
    by (auto simp: list_all_iff located_def)
qed

theorem Parse_errors_located_witness:
  "\<exists>e\<in>set (snd (Parse (\<lambda>_. Inr (sample_tree ''ruN'')) sample_lines)).
     se_pos e \<in> insert (PosAt (fix_root (sample_tree ''ruN''))) (PosAt ` set (tree_nodes (sample_tree ''ruN'')))"
proof -
  let ?u = "\<lambda>_ :: string. Inr (sample_tree ''ruN'')"
  have "\<forall>m\<in>set (tree_nodes (sample_tree ''ruN'')). ni_via (yn_info m) = None"
    "snd (Parse ?u sample_lines) \<noteq> []" by code_simp+
  then obtain e where "e \<in> set (snd (Parse ?u sample_lines))" by (cases "snd (Parse ?u sample_lines)") auto
  with Parse_errors_located [where unmarshal = ?u and b = sample_lines, OF refl \<open>\<forall>m\<in>_. _\<close> surjective_pairing]
  show ?thesis by blast
qed



subsection \<open>Entries and integers\<close>

text \<open>The entries that are not insertions have distinct ids, whatever is reported.\<close>

abbreviation inserted_entry :: "bool \<Rightarrow> map_entry \<Rightarrow> bool" where
  "inserted_entry ins e \<equiv> ins \<and> isMappingInsertion (ws_value (ent_key e))"

lemma inserted_items_keys:
  "inserted_items sec xs keys = (items, keys') \<Longrightarrow> set (al_keys keys) \<subseteq> set (al_keys keys') \<and> item_entries items = []"
  by (induction sec xs keys arbitrary: items keys' rule: inserted_items.induct)
    (auto split: option.splits prod.splits simp: set_al_keys_put)

lemma map_of_al_keys: "map_of m k = None \<longleftrightarrow> k \<notin> set (al_keys m)"
  by (simp add: al_keys_def map_of_eq_None_iff)

lemma entry_step_keys:
  "entry_step sec cs ins (k, v) keys = (items, filled, keys') \<Longrightarrow> clean_items items \<Longrightarrow>
     set (al_keys keys) \<subseteq> set (al_keys keys') \<and> (\<exists>e. item_entries items = [e] \<and> ent_key e = newString k \<and> ent_val e = v
       \<and> (inserted_entry ins e \<or> ent_id e \<in> set (al_keys keys') - set (al_keys keys)))"
  by (auto simp: entry_step_def Let_def set_al_keys_put map_of_al_keys dest!: inserted_items_keys
      split: option.splits prod.splits if_splits)

lemma entry_items_keys:
  "entry_items sec cs ins ps keys = (items, filled) \<Longrightarrow> clean_items items \<Longrightarrow>
     map (\<lambda>e. (ent_key e, ent_val e)) (item_entries items) = map (\<lambda>(k, v). (newString k, v)) ps
     \<and> distinct (map ent_id (filter (\<lambda>e. \<not> inserted_entry ins e) (item_entries items)))
     \<and> ent_id ` {e \<in> set (item_entries items). \<not> inserted_entry ins e} \<inter> set (al_keys keys) = {}"
proof (induction sec cs ins ps keys arbitrary: items filled rule: entry_items.induct)
  case (2 sec cs ins p ps keys)
  obtain k v where p: "p = (k, v)" by (cases p)
  obtain its f ks where s: "entry_step sec cs ins p keys = (its, f, ks)" by (cases "entry_step sec cs ins p keys") auto
  obtain js g where r: "entry_items sec cs ins ps ks = (js, g)" by fastforce
  have items: "items = its @ js" "clean_items its" "clean_items js" using 2(2,3) s r by auto
  obtain e where e: "item_entries its = [e]" "ent_key e = newString k" "ent_val e = v"
    "inserted_entry ins e \<or> ent_id e \<in> set (al_keys ks) - set (al_keys keys)" "set (al_keys keys) \<subseteq> set (al_keys ks)"
    using entry_step_keys [OF s [unfolded p] items(2)] by auto
  show ?case using 2(1) [OF s [symmetric] refl, OF r items(3)] e p unfolding items(1) by auto
qed simp



text \<open>
  Hexadecimal and octal integers are two's complement: the digits of a radix integer name a 32 bit
  word, and the value is that word read as a signed number; digits that do not fit 32 bits are
  an error. So the value is always between \<open>- 2 ^ 31\<close> and \<open>2 ^ 31 - 1\<close>.
\<close>

theorem parseYAMLInteger_signed:
  assumes "has_prefix v ''0x'' \<or> has_prefix v ''0o''" and "IsCoreSchemaInt v"
    and "parse_digits (if has_prefix v ''0x'' then 16 else 8) 0 (drop 2 v) = Some m" and "drop 2 v \<noteq> []"
  shows "parseYAMLInteger v = (if m < 2 ^ 32 then Some (sint (of_nat m :: 32 word)) else None)"
proof -
  have "sint (of_nat m :: 32 word) = (if int m \<le> 2 ^ 31 - 1 then int m else - 1 - (2 ^ 32 - 1 - int m))" if "m < 2 ^ 32"
  proof -
    have "sint (of_nat m :: 32 word) = (int m + 2 ^ 31) mod 2 ^ 32 - 2 ^ 31"
      by (simp add: sint_uint uint_nat unat_of_nat signed_take_bit_eq_take_bit_shift take_bit_eq_mod mod_add_left_eq zmod_int)
    moreover have "(int m + 2 ^ 31) mod 2 ^ 32 = int m - 2 ^ 31" if "2 ^ 31 \<le> m"
      using \<open>m < 2 ^ 32\<close> that minus_mod_self2 [of "int m + 2 ^ 31" "2 ^ 32"] by (simp del: minus_mod_self2)
    ultimately show ?thesis using that by auto
  qed
  then show ?thesis using assms by (auto simp: parseYAMLInteger_def parse_uint32_def)
qed

theorem parseYAMLInteger_signed_witness:
  "parseYAMLInteger ''0xfffffffe'' = Some (sint (of_nat 4294967294 :: 32 word))"
proof -
  have "IsCoreSchemaInt ''0xfffffffe''" by code_simp
  moreover have "parse_digits 16 0 ''fffffffe'' = Some 4294967294" by (simp add: digit_value_def)
  ultimately show ?thesis using parseYAMLInteger_signed [of "''0xfffffffe''" 4294967294] by simp
qed

end
