(* ===== verification/Go_Path.thy ===== *)
theory Go_Path
  imports Rune_Scanner
begin

text \<open>
  More of Go's library that several components share: \<open>strings.Cut\<close> and \<open>strings.Split\<close> at a character
  and \<open>path.Match\<close>, with what the patterns without special characters match.
\<close>

subsection \<open>Separators\<close>

text \<open>The text before and behind the first \<open>c\<close>, as \<open>strings.Cut\<close> gives it.\<close>

definition cut_char :: "char \<Rightarrow> string \<Rightarrow> (string \<times> string) option" where
  "cut_char c s = (case dropWhile (\<lambda>x. x \<noteq> c) s of [] \<Rightarrow> None | _ # rest \<Rightarrow> Some (takeWhile (\<lambda>x. x \<noteq> c) s, rest))"

text \<open>The parts between the separators, as \<open>strings.Split\<close> gives them.\<close>

fun split_at_char :: "char \<Rightarrow> string \<Rightarrow> string list" where
  "split_at_char c [] = [[]]"
| "split_at_char c (x # xs) =
     (if x = c then [] # split_at_char c xs
      else case split_at_char c xs of y # ys \<Rightarrow> (x # y) # ys | [] \<Rightarrow> [[x]])"

subsection \<open>Patterns of paths\<close>

text \<open>
  \<open>path.Match\<close> of Go's library. A chunk is the pattern between two stars; \<open>None\<close> is the error for a
  malformed pattern.
\<close>

fun chunk_length :: "bool \<Rightarrow> string \<Rightarrow> nat" where
  "chunk_length inrange [] = 0"
| "chunk_length inrange (c # cs) =
     (if c = CHR 0x5C then (case cs of d # ds \<Rightarrow> 2 + chunk_length inrange ds | [] \<Rightarrow> 1)
      else if c = CHR ''['' then 1 + chunk_length True cs
      else if c = CHR '']'' then 1 + chunk_length False cs
      else if c = CHR ''*'' \<and> \<not> inrange then 0
      else 1 + chunk_length inrange cs)"

definition scan_chunk :: "string \<Rightarrow> bool \<times> string \<times> string" where
  "scan_chunk pattern =
     (let p = dropWhile (\<lambda>c. c = CHR ''*'') pattern; n = chunk_length False p
      in (p \<noteq> pattern, take n p, drop n p))"

definition get_esc :: "string \<Rightarrow> (rune \<times> string) option" where
  "get_esc chunk =
     (case chunk of
        [] \<Rightarrow> None
      | c # cs \<Rightarrow>
          if c = CHR ''-'' \<or> c = CHR '']'' then None
          else
            let s = (if c = CHR 0x5C then cs else c # cs); (r, n) = decode_rune s
            in if s = [] \<or> (r = rune_error \<and> n = 1) \<or> drop n s = [] then None else Some (r, drop n s))"

lemma get_esc_shorter: "get_esc chunk = Some (r, rest) \<Longrightarrow> length rest < length chunk"
  using decode_width_pos [of chunk] decode_width_pos [of "tl chunk"]
  by (cases chunk) (auto simp: get_esc_def Let_def split: if_splits prod.splits)

text \<open>The ranges of a class, the first one always read.\<close>

function read_class :: "rune \<Rightarrow> nat \<Rightarrow> bool \<Rightarrow> string \<Rightarrow> (bool \<times> string) option" where
  "read_class r ranges hit chunk =
     (if 0 < ranges \<and> has_prefix chunk '']'' then Some (hit, drop 1 chunk)
      else case get_esc chunk of
        None \<Rightarrow> None
      | Some (lo, rest) \<Rightarrow>
          (case (if has_prefix rest ''-'' then get_esc (drop 1 rest) else Some (lo, rest)) of
             None \<Rightarrow> None
           | Some (hi, rest') \<Rightarrow>
               read_class r (ranges + 1) (hit \<or> lo \<le> r \<and> r \<le> hi) rest'))"
  by pat_completeness auto
termination
  by (relation "measure (\<lambda>(r, n, h, c). length c)") (auto dest!: get_esc_shorter split: if_splits)

declare read_class.simps [simp del]

lemma read_class_shorter: "read_class r n h chunk = Some (b, rest) \<Longrightarrow> length rest < length chunk"
proof (induction r n h chunk rule: read_class.induct)
  case (1 r n h chunk)
  show ?case
  proof (cases "0 < n \<and> has_prefix chunk '']''")
    case True
    then show ?thesis using 1(2) by (subst (asm) read_class.simps) (cases chunk; auto)
  next
    case False
    with 1(2) obtain lo r1 hi r2 where e: "get_esc chunk = Some (lo, r1)"
      "(if has_prefix r1 ''-'' then get_esc (drop 1 r1) else Some (lo, r1)) = Some (hi, r2)"
      "read_class r (n + 1) (h \<or> lo \<le> r \<and> r \<le> hi) r2 = Some (b, rest)"
      by (subst (asm) read_class.simps) (auto split: option.splits prod.splits simp del: has_prefix.simps)
    from 1(1) [OF False e(1) refl e(2) refl e(3)] e(2) get_esc_shorter [OF e(1)]
    show ?thesis by (auto split: if_splits dest!: get_esc_shorter)
  qed
qed

text \<open>\<open>matchChunk\<close>: what is left of the name, \<open>Some None\<close> if the chunk does not match.\<close>

function match_chunk :: "bool \<Rightarrow> string \<Rightarrow> string \<Rightarrow> string option option" where
  "match_chunk failed [] s = Some (if failed then None else Some s)"
| "match_chunk failed (c # cs) s =
     (let stuck = (failed \<or> s = []) in
      if c = CHR ''['' then
        (let (r, n) = (if stuck then (0, 0) else decode_rune s);
             negated = has_prefix cs ''^''
         in case read_class r 0 False (if negated then drop 1 cs else cs) of
             None \<Rightarrow> None
           | Some (hit, rest) \<Rightarrow>
               match_chunk (stuck \<or> hit = negated) rest (drop n s))
      else if c = CHR ''?'' then
        match_chunk (stuck \<or> hd s = CHR ''/'') cs (if stuck then s else drop (snd (decode_rune s)) s)
      else if c = CHR 0x5C then
        (case cs of
           [] \<Rightarrow> None
         | d # ds \<Rightarrow> match_chunk (stuck \<or> d \<noteq> hd s) ds (if stuck then s else tl s))
      else match_chunk (stuck \<or> c \<noteq> hd s) cs (if stuck then s else tl s))"
  by pat_completeness auto
termination
  by (relation "measure (\<lambda>(f, c, s). length c)") (auto dest!: read_class_shorter split: if_splits)

declare match_chunk.simps(2) [simp del]

text \<open>The texts at which a chunk behind a star is tried: behind each byte up to the first slash.\<close>

fun star_rests :: "string \<Rightarrow> string list" where
  "star_rests [] = []"
| "star_rests (c # cs) = (if c = CHR ''/'' then [] else cs # star_rests cs)"

text \<open>The first match behind a star, with the error of a malformed chunk.\<close>

fun star_match :: "string \<Rightarrow> bool \<Rightarrow> string list \<Rightarrow> string option option" where
  "star_match chunk final [] = Some None"
| "star_match chunk final (s # ss) =
     (case match_chunk False chunk s of
        None \<Rightarrow> None
      | Some (Some t) \<Rightarrow> if final \<and> t \<noteq> [] then star_match chunk final ss else Some (Some t)
      | Some None \<Rightarrow> star_match chunk final ss)"

lemma scan_chunk_shorter: "pattern \<noteq> [] \<Longrightarrow> length (snd (snd (scan_chunk pattern))) < length pattern"
proof -
  assume "pattern \<noteq> []"
  then obtain c cs where p: "pattern = c # cs" by (cases pattern) auto
  show ?thesis
  proof (cases "c = CHR ''*''")
    case True
    then have "length (dropWhile (\<lambda>c. c = CHR ''*'') pattern) < length pattern"
      using length_dropWhile_le [of "\<lambda>c. c = CHR ''*''" cs] p by simp
    then show ?thesis by (simp add: scan_chunk_def Let_def)
  next
    case False
    then have "0 < chunk_length False pattern" using p by (cases cs) auto
    then show ?thesis using False p by (simp add: scan_chunk_def Let_def)
  qed
qed

text \<open>Whether the rest of a pattern is well formed.\<close>

function rest_valid :: "string \<Rightarrow> bool" where
  "rest_valid pattern =
     (if pattern = [] then True
      else match_chunk False (fst (snd (scan_chunk pattern))) [] \<noteq> None \<and> rest_valid (snd (snd (scan_chunk pattern))))"
  by pat_completeness auto
termination by (relation "measure length") (auto simp: scan_chunk_shorter)

declare rest_valid.simps [simp del]

function path_match :: "string \<Rightarrow> string \<Rightarrow> bool option" where
  "path_match pattern name =
     (if pattern = [] then Some (name = [])
      else let star = fst (scan_chunk pattern); chunk = fst (snd (scan_chunk pattern)); rest = snd (snd (scan_chunk pattern)) in
        if star \<and> chunk = [] then Some (CHR ''/'' \<notin> set name)
        else
          let here = match_chunk False chunk name;
              taken = (case here of Some (Some t) \<Rightarrow> if t = [] \<or> rest \<noteq> [] then Some t else None | _ \<Rightarrow> None);
              later = (if taken \<noteq> None then Some taken else if here = None then None
                else if star then star_match chunk (rest = []) (star_rests name) else Some None)
          in case later of
              None \<Rightarrow> None
            | Some (Some t) \<Rightarrow> path_match rest t
            | Some None \<Rightarrow> if rest_valid rest then Some False else None)"
  by pat_completeness auto
termination by (relation "measure (\<lambda>(p, n). length p)") (auto simp: scan_chunk_shorter)

declare path_match.simps [simp del]

subsection \<open>Patterns without special characters\<close>

definition glob_literal :: "char \<Rightarrow> bool" where
  "glob_literal c \<longleftrightarrow> c \<notin> set ([CHR 0x5C] @ ''*?['')"

lemma chunk_literal: "list_all glob_literal p \<Longrightarrow> chunk_length False p = length p"
proof (induction p)
  case (Cons c p)
  then show ?case by (cases p) (auto simp: glob_literal_def)
qed simp

lemma match_literal:
  "list_all glob_literal p \<Longrightarrow> match_chunk failed p s = Some (if failed \<or> \<not> has_prefix s p then None else Some (drop (length p) s))"
proof (induction p arbitrary: failed s)
  case (Cons c p)
  then show ?case by (cases s) (auto simp: match_chunk.simps(2) glob_literal_def Let_def)
qed simp

lemma path_match_Nil: "path_match [] s = Some (s = [])" "rest_valid []"
  by (simp_all add: path_match.simps rest_valid.simps)

lemma path_match_literal:
  assumes "list_all glob_literal p"
  shows "path_match p s = Some (p = s)"
proof (cases "p = []")
  case False
  then obtain c cs where p: "p = c # cs" by (cases p) auto
  then have "dropWhile (\<lambda>c. c = CHR ''*'') p = p" using assms by (auto simp: glob_literal_def)
  then have scan: "scan_chunk p = (False, p, [])"
    by (simp add: scan_chunk_def Let_def chunk_literal [OF assms])
  show ?thesis
  proof (cases "has_prefix s p")
    case True
    then obtain t where t: "s = p @ t" by (auto simp: has_prefix_iff)
    have "match_chunk False p (p @ t) = Some (Some t)" using True by (simp add: match_literal [OF assms] t)
    then show ?thesis by (subst path_match.simps) (simp add: scan Let_def False t path_match_Nil)
  next
    case no: False
    then have "match_chunk False p s = Some None" by (simp add: match_literal [OF assms])
    moreover have "p \<noteq> s" using no by (auto simp: has_prefix_iff)
    ultimately show ?thesis by (subst path_match.simps) (simp add: scan Let_def False path_match_Nil)
  qed
qed (auto simp: path_match_Nil)

end
