(* ===== verification/Suppression.thy ===== *)
theory Suppression
  imports Go_Path Diagnostic Script_Source
begin

text \<open>
  Inline suppressions (\<open>internal/suppression\<close>): the comments \<open>actionlint:ignore RULE -- reason\<close>
  and \<open>actionlint:ignore-next-line RULE -- reason\<close>. \<open>inline.go\<close> is the grammar of a directive
  and what the directives of a file hide, \<open>context.go\<close> the jobs and steps that configured
  ignores select, \<open>comments.go\<close> and \<open>recovery.go\<close> find the comments of a file that is YAML and
  of one that is not. \<open>yaml.Unmarshal\<close> is an argument, as are the rule catalogue and the policy.
\<close>

subsection \<open>Directives\<close>

record suppression_directive =
  dv_position :: diag_pos
  dv_first :: int
  dv_last :: int
  dv_rules :: "string list"
  dv_reason :: string

record suppression_comment =
  ic_pos :: diag_pos
  ic_comment :: string
  ic_standalone :: bool
  ic_start_line :: int
  ic_end_line :: int

datatype suppression_problem =
    IgnoreStandalone
  | NextLineNotStandalone
  | UnknownDirective
  | ReasonMissing
  | UnknownSuppressionRule string "string list"
  | SuppressionDisallowed "string list"

type_synonym suppression_finding = "suppression_problem diagnostic"

text \<open>\<open>strings.Cut\<close>.\<close>

definition str_cut :: "string \<Rightarrow> string \<Rightarrow> (string \<times> string) option" where
  "str_cut s sep =
     (case str_index s sep of None \<Rightarrow> None | Some i \<Rightarrow> Some (take i s, drop (i + length sep) s))"

definition reason_separator :: string where
  "reason_separator = '' -- ''"

definition directive_finding :: "diag_pos \<Rightarrow> suppression_problem \<Rightarrow> suppression_finding" where
  "directive_finding pos m = \<lparr>dg_rule = ''inline-suppression'', dg_start = pos, dg_message = m\<rparr>"

text \<open>The loop over the selectors: the rules in order, each once, or the first name that is none.\<close>

fun directive_rules :: "string list \<Rightarrow> string list \<Rightarrow> string list \<Rightarrow> string + string list" where
  "directive_rules allowed rules [] = Inr rules"
| "directive_rules allowed rules (s # ss) =
     (let name = trim_space s in
      if name \<notin> set allowed then Inl name
      else directive_rules allowed (if name \<in> set rules then rules else rules @ [name]) ss)"

definition parseInlineSuppression :: "suppression_comment \<Rightarrow> string list \<Rightarrow> suppression_finding + suppression_directive" where
  "parseInlineSuppression comment allowed =
     (let invalid = (\<lambda>m. Inl (directive_finding (ic_pos comment) m));
          line = dp_line (ic_pos comment);
          (declaration, reason, hasReason) = (case str_cut (ic_comment comment) reason_separator of
              Some (d, r) \<Rightarrow> (d, r, True) | None \<Rightarrow> (ic_comment comment, [], False));
          (command, selectors) = (case str_cut declaration '' '' of Some p \<Rightarrow> p | None \<Rightarrow> (declaration, []))
      in if command \<noteq> ''actionlint:ignore'' \<and> command \<noteq> ''actionlint:ignore-next-line'' then invalid UnknownDirective
         else if command = ''actionlint:ignore'' \<and> ic_standalone comment then invalid IgnoreStandalone
         else if command = ''actionlint:ignore-next-line'' \<and> \<not> ic_standalone comment then invalid NextLineNotStandalone
         else
           let next = (if command = ''actionlint:ignore-next-line'' then line + 1 else line);
               target = (if 0 < ic_start_line comment then min next (ic_start_line comment) else next)
           in if (hasReason \<or> has_suffix declaration '' --'') \<and> trim_space reason = [] then invalid ReasonMissing
              else case directive_rules allowed [] (split_at_char CHR '','' selectors) of
                  Inl name \<Rightarrow> invalid (UnknownSuppressionRule name allowed)
                | Inr rules \<Rightarrow> Inr
                    \<lparr>dv_position = ic_pos comment, dv_first = target, dv_last = max target (ic_end_line comment),
                     dv_rules = rules, dv_reason = trim_space reason\<rparr>)"

definition parse_directives :: "suppression_comment list \<Rightarrow> string list \<Rightarrow> suppression_directive list \<times> suppression_finding list" where
  "parse_directives comments rules =
     (let rs = map (\<lambda>c. parseInlineSuppression c rules) comments
      in (concat (map (\<lambda>r. case r of Inr d \<Rightarrow> [d] | Inl _ \<Rightarrow> []) rs),
          concat (map (\<lambda>r. case r of Inl e \<Rightarrow> [e] | Inr _ \<Rightarrow> []) rs)))"

subsection \<open>Evaluation\<close>

record decision =
  de_suppress :: bool
  de_report :: bool

record evaluation =
  vl_ranges :: "(string \<times> (int \<times> int) list) list"
  vl_diagnostics :: "suppression_finding list"

definition decision_for :: "(string \<Rightarrow> decision) option \<Rightarrow> string \<Rightarrow> decision" where
  "decision_for policy name = (case policy of None \<Rightarrow> \<lparr>de_suppress = True, de_report = False\<rparr> | Some p \<Rightarrow> p name)"

definition add_range :: "string \<Rightarrow> int \<times> int \<Rightarrow> (string \<times> (int \<times> int) list) list \<Rightarrow> (string \<times> (int \<times> int) list) list" where
  "add_range name r m = al_put name ((case map_of m name of Some rs \<Rightarrow> rs | None \<Rightarrow> []) @ [r]) m"

definition evaluate_directive :: "(string \<Rightarrow> decision) option \<Rightarrow> suppression_directive \<Rightarrow> evaluation \<Rightarrow> evaluation" where
  "evaluate_directive policy d e =
     (let prohibited = filter (\<lambda>n. de_report (decision_for policy n)) (dv_rules d);
          ranges = fold (\<lambda>n m. if de_suppress (decision_for policy n) then add_range n (dv_first d, dv_last d) m else m)
            (dv_rules d) (vl_ranges e)
      in \<lparr>vl_ranges = ranges,
          vl_diagnostics = vl_diagnostics e @
            (if prohibited = [] then []
             else [\<lparr>dg_rule = ''disallow-suppressions'', dg_start = dv_position d, dg_message = SuppressionDisallowed prohibited\<rparr>])\<rparr>)"

definition Evaluate :: "suppression_directive list \<Rightarrow> (string \<Rightarrow> decision) option \<Rightarrow> evaluation" where
  "Evaluate directives policy = fold (evaluate_directive policy) directives \<lparr>vl_ranges = [], vl_diagnostics = []\<rparr>"

definition Suppresses :: "evaluation \<Rightarrow> string \<Rightarrow> int \<Rightarrow> int \<Rightarrow> bool" where
  "Suppresses e rule i j =
     (case map_of (vl_ranges e) rule of
        None \<Rightarrow> False
      | Some rs \<Rightarrow> list_ex (\<lambda>(a, b). i \<le> b \<and> a \<le> j) rs)"

subsection \<open>Jobs and steps\<close>

text \<open>The place of a job or a step: from its start to that of the next node.\<close>

record scope =
  cx_first :: source_pos
  cx_end :: source_pos
  cx_job :: string
  cx_step_id :: string
  cx_step_name :: string
  cx_uses :: string
  cx_starts_line :: bool

definition scope_before :: "source_pos \<Rightarrow> source_pos \<Rightarrow> bool" where
  "scope_before p q \<longleftrightarrow> at_line p < at_line q \<or> at_line p = at_line q \<and> at_col p < at_col q"

definition rawScalar :: "ynode \<Rightarrow> string \<Rightarrow> string" where
  "rawScalar n key =
     (if yn_kind n \<noteq> MappingNode then []
      else case filter (\<lambda>(k, v). yn_value k = key \<and> yn_kind v = ScalarNode) (node_pairs (yn_content n)) of
          (k, v) # _ \<Rightarrow> yn_value v
        | [] \<Rightarrow> [])"

definition resolved_scalar :: "(string \<Rightarrow> string option) \<Rightarrow> ynode \<Rightarrow> string \<Rightarrow> string" where
  "resolved_scalar resolve n key = (case resolve (rawScalar n key) of Some v \<Rightarrow> v | None \<Rightarrow> rawScalar n key)"

text \<open>Only blanks and dashes precede the node on its line. \<open>lines\<close> are the texts between line feeds.\<close>

definition starts_line :: "string list \<Rightarrow> ynode \<Rightarrow> bool" where
  "starts_line lines n =
     (if yn_line n < 1 \<or> int (length lines) < yn_line n then False
      else let line = line_of lines (yn_line n - 1) in
        case ByteOffsetAtColumn line (yn_column n) of
          None \<Rightarrow> False
        | Some i \<Rightarrow> only [CHR '' '', CHR 0x09, CHR ''-''] (take i line))"

text \<open>The elements of a sequence, and the pairs of a mapping, each with the start of the next one.\<close>

fun with_ends :: "source_pos \<Rightarrow> ynode list \<Rightarrow> (ynode \<times> source_pos) list" where
  "with_ends e [] = []"
| "with_ends e (n # ns) = (n, case ns of [] \<Rightarrow> e | m # _ \<Rightarrow> PosAt m) # with_ends e ns"

fun pairs_with_ends :: "source_pos \<Rightarrow> ynode list \<Rightarrow> ((ynode \<times> ynode) \<times> source_pos) list" where
  "pairs_with_ends e (k # v # ns) = ((k, v), case ns of [] \<Rightarrow> e | m # _ \<Rightarrow> PosAt m) # pairs_with_ends e ns"
| "pairs_with_ends e _ = []"

lemma with_ends_mem [simp]: "(n, e') \<in> set (with_ends e ns) \<Longrightarrow> n \<in> set ns"
  by (induction e ns rule: with_ends.induct) auto

lemma pairs_with_ends_mem: "((k, v), e') \<in> set (pairs_with_ends e ns) \<Longrightarrow> k \<in> set ns \<and> v \<in> set ns"
  by (induction e ns rule: pairs_with_ends.induct) auto

function step_scopes :: "string list \<Rightarrow> (string \<Rightarrow> string option) \<Rightarrow> ynode \<Rightarrow> source_pos \<Rightarrow> string \<Rightarrow> scope list" where
  "step_scopes lines resolve n e job =
     (if yn_kind n \<noteq> SequenceNode then []
      else concat (map (\<lambda>(s, last).
          if yn_kind s \<noteq> MappingNode then []
          else \<lparr>cx_first = PosAt s, cx_end = last, cx_job = job, cx_step_id = resolved_scalar resolve s ''id'',
                 cx_step_name = resolved_scalar resolve s ''name'', cx_uses = resolved_scalar resolve s ''uses'',
                 cx_starts_line = starts_line lines s\<rparr>
            # concat (map (\<lambda>((k, v), parallel_end).
                if yn_value k = ''parallel'' then step_scopes lines resolve v parallel_end job else [])
                (pairs_with_ends last (yn_content s))))
          (with_ends e (yn_content n))))"
  by pat_completeness auto
termination
proof (relation "measure (\<lambda>(ls, r, n, e, j). size n)", goal_cases)
  case (2 lines resolve n e job x s last y kv parallel_end k v)
  then have "s \<in> set (yn_content n)" "v \<in> set (yn_content s)"
    by (auto dest: pairs_with_ends_mem)
  then show ?case using content_size [of s n] content_size [of v s] by simp
qed simp

declare step_scopes.simps [simp del]

fun steps_path :: "string list \<Rightarrow> bool" where
  "steps_path [a, b] = (a = ''runs'' \<and> b = ''steps'')"
| "steps_path [a, _, c] = (a = ''jobs'' \<and> c = ''steps'')"
| "steps_path _ = False"

text \<open>\<open>job\<close> is the job of \<open>current\<close>, the only field of it that is read.\<close>

function visit_scopes :: "string list \<Rightarrow> (string \<Rightarrow> string option) \<Rightarrow> ynode \<Rightarrow> source_pos \<Rightarrow> string list \<Rightarrow> string \<Rightarrow> scope list" where
  "visit_scopes lines resolve n e path job =
     (if yn_kind n = MappingNode then
        concat (map (\<lambda>((k, v), last).
          if path = [''jobs''] then
            \<lparr>cx_first = PosAt k, cx_end = last, cx_job = yn_value k, cx_step_id = [], cx_step_name = [],
             cx_uses = resolved_scalar resolve v ''uses'', cx_starts_line = starts_line lines k\<rparr>
            # visit_scopes lines resolve v last (path @ [yn_value k]) (yn_value k)
          else visit_scopes lines resolve v last (path @ [yn_value k]) job)
          (pairs_with_ends e (yn_content n)))
      else if yn_kind n = SequenceNode \<and> steps_path path then step_scopes lines resolve n e job
      else [])"
  by pat_completeness auto
termination
  by (relation "measure (\<lambda>(ls, r, n, e, p, j). size n)") (auto dest!: pairs_with_ends_mem intro: content_size)

declare visit_scopes.simps [simp del]

definition Contexts :: "(string \<Rightarrow> 'e + ynode) \<Rightarrow> (string \<Rightarrow> string option) \<Rightarrow> string \<Rightarrow> scope list" where
  "Contexts unmarshal resolve source =
     (case unmarshal source of
        Inl _ \<Rightarrow> []
      | Inr n \<Rightarrow>
          (case yn_content n of
             [] \<Rightarrow> []
           | body # _ \<Rightarrow> visit_scopes (split_at_char line_feed source) resolve body
               \<lparr>at_line = int (length (filter (\<lambda>c. c = line_feed) source)) + 2, at_col = 1\<rparr> [] []))"

definition scope_contains :: "scope list \<Rightarrow> int \<Rightarrow> int \<Rightarrow> scope \<Rightarrow> bool" where
  "scope_contains index line column c =
     (let pos = \<lparr>at_line = line, at_col = column\<rparr> in
      if column \<noteq> 0 then \<not> scope_before pos (cx_first c) \<and> scope_before pos (cx_end c)
      else at_line (cx_first c) \<le> line
        \<and> (line < at_line (cx_end c) \<or> line = at_line (cx_end c) \<and> 1 < at_col (cx_end c))
        \<and> list_all (\<lambda>d.
            line < at_line (cx_first d) \<or> at_line (cx_end d) < line
            \<or> at_line (cx_end d) = line \<and> at_line (cx_first c) = line \<and> cx_starts_line c
            \<or> scope_before (cx_first d) (cx_end c) \<and> scope_before (cx_first c) (cx_end d)) index)"

definition Match :: "scope list \<Rightarrow> int \<Rightarrow> int \<Rightarrow> string \<Rightarrow> string \<Rightarrow> string \<Rightarrow> bool" where
  "Match index line column job step uses \<longleftrightarrow>
     (job = [] \<and> step = [] \<and> uses = [])
     \<or> list_ex (\<lambda>c. scope_contains index line column c
          \<and> (job = [] \<or> job = cx_job c) \<and> (step = [] \<or> step = cx_step_id c \<or> step = cx_step_name c)
          \<and> (uses = [] \<or> uses = cx_uses c)) index"

subsection \<open>Comments of malformed files\<close>

text \<open>
  The variables of \<open>recoverInlineSuppressionComments\<close> that outlive a line, and those of the
  loop over the bytes of a line. \<open>re_flow\<close> holds the lines of the open brackets, innermost last;
  a line that is not in \<open>re_block_ends\<close> maps to 0.
\<close>

record recovery =
  re_comments :: "suppression_comment list"
  re_quote :: "char option"
  re_flow :: "int list"
  re_block_ends :: "(int \<times> int) list"
  re_parent_indent :: int
  re_block_end :: int
  re_prefix_pending :: bool
  re_prefix_start :: int

record line_state =
  li_key_indent :: int
  li_plain :: bool

definition line_lookup :: "(int \<times> int) list \<Rightarrow> int \<Rightarrow> int" where
  "line_lookup m line = (case map_of m line of Some e \<Rightarrow> e | None \<Rightarrow> 0)"

definition is_white :: "char \<Rightarrow> bool" where
  "is_white c \<longleftrightarrow> c = CHR '' '' \<or> c = CHR 0x09"

definition recovered_comment :: "int \<Rightarrow> string \<Rightarrow> nat \<Rightarrow> bool \<Rightarrow> suppression_comment" where
  "recovered_comment line_number line col standalone =
     \<lparr>ic_pos = \<lparr>dp_line = line_number, dp_column = int (rune_count (take col line)) + 1\<rparr>,
      ic_comment = trim_space (drop (col + 1) line), ic_standalone = standalone, ic_start_line = 0, ic_end_line = 0\<rparr>"

text \<open>A comment at \<open>col\<close>; one on its own line counts only directly before a line with content.\<close>

definition read_recovered :: "int \<Rightarrow> string \<Rightarrow> string option \<Rightarrow> nat \<Rightarrow> recovery \<Rightarrow> recovery" where
  "read_recovered line_number line next col r =
     (let standalone = (trim_space (take col line) = []);
          followed = (case next of None \<Rightarrow> False | Some n \<Rightarrow> trim_space n \<noteq> [] \<and> \<not> has_prefix (trim_space n) ''#'')
      in if standalone \<and> \<not> followed then r
         else if has_prefix (trim_space (drop (col + 1) line)) ''actionlint:''
         then r\<lparr>re_comments := re_comments r @ [recovered_comment line_number line col standalone]\<rparr>
         else r)"

text \<open>The header of a block scalar at \<open>col\<close>: its lines, and those of its prefix, end where it does.\<close>

definition open_block :: "document \<Rightarrow> int \<Rightarrow> string \<Rightarrow> nat \<Rightarrow> recovery \<Rightarrow> recovery" where
  "open_block document line_number line col r =
     (let pos = \<lparr>at_line = line_number, at_col = int (rune_count (take col line)) + 1\<rparr>;
          ends = (case Decode document pos \<lparr>sx_indent = re_parent_indent r, sx_flow = False\<rparr> of
              Inr sc \<Rightarrow> al_put line_number (at_line (ys_end sc)) (re_block_ends r)
            | Inl _ \<Rightarrow> re_block_ends r);
          e = line_lookup ends line_number
      in r\<lparr>re_block_end := e,
           re_block_ends := (if re_prefix_start r = 0 then ends
             else fold (\<lambda>l. al_put l e) [re_prefix_start r..line_number - 1] ends)\<rparr>)"

text \<open>The bytes of a tag or an anchor behind its first one.\<close>

definition property_rest :: "string \<Rightarrow> nat" where
  "property_rest s = length (takeWhile (\<lambda>c. c \<notin> set ([CHR 0x09] @ '' [{'')) s)"

text \<open>One step of the loop over a line: the next column, or \<open>None\<close> if the loop ends.\<close>

definition recover_quoted :: "char \<Rightarrow> string \<Rightarrow> nat \<Rightarrow> recovery \<times> line_state \<Rightarrow> nat \<times> recovery \<times> line_state" where
  "recover_quoted q line col = (\<lambda>(r, l).
     let c = line ! col in
     if q = CHR 0x22 \<and> c = CHR 0x5C then (col + 2, r, l)
     else if c = q then
       (if q = CHR 0x27 \<and> col + 1 < length line \<and> line ! (col + 1) = CHR 0x27 then (col + 2, r, l)
        else (col + 1, r\<lparr>re_quote := None\<rparr>, l\<lparr>li_plain := True\<rparr>))
     else (col + 1, r, l))"

definition recover_byte :: "document \<Rightarrow> int \<Rightarrow> string \<Rightarrow> nat \<Rightarrow> recovery \<times> line_state \<Rightarrow> nat \<times> recovery \<times> line_state" where
  "recover_byte document line_number line col = (\<lambda>(r, l).
     let c = line ! col;
         next_separated = (col + 1 = length line \<or> is_white (line ! (col + 1)));
         plain = l\<lparr>li_plain := True\<rparr>
     in if c = CHR '':'' \<and> (next_separated \<or> re_flow r \<noteq> []) then
          (col + 1, r\<lparr>re_parent_indent := li_key_indent l,
             re_prefix_start := (if re_flow r = [] then line_number else re_prefix_start r)\<rparr>, l\<lparr>li_plain := False\<rparr>)
        else if \<not> li_plain l \<and> (c = CHR ''-'' \<or> c = CHR ''?'') \<and> next_separated then
          (col + 1, r\<lparr>re_parent_indent := int col\<rparr>, l\<lparr>li_key_indent := int col + 2\<rparr>)
        else if \<not> li_plain l \<and> (c = CHR ''&'' \<or> c = CHR ''!'') then
          (col + 1 + property_rest (drop (col + 1) line), r, l)
        else if \<not> li_plain l \<and> (c = CHR 0x27 \<or> c = CHR 0x22) then (col + 1, r\<lparr>re_quote := Some c\<rparr>, l)
        else if \<not> li_plain l \<and> (c = CHR ''['' \<or> c = CHR ''{'') then
          (col + 1, r\<lparr>re_flow := re_flow r @ [line_number]\<rparr>, l)
        else if re_flow r \<noteq> [] \<and> (c = CHR '']'' \<or> c = CHR ''}'') then
          (col + 1, r\<lparr>re_flow := butlast (re_flow r)\<rparr>, plain)
        else if re_flow r \<noteq> [] \<and> c = CHR '','' then (col + 1, r, l\<lparr>li_plain := False\<rparr>)
        else if \<not> li_plain l \<and> re_flow r = [] \<and> (c = CHR ''|'' \<or> c = CHR ''>'') then
          (col + 1, open_block document line_number line col r, plain)
        else (col + 1, r, plain))"

lemma recover_moves:
  "col < fst (recover_quoted q line col s)" "col < fst (recover_byte document n line col s)"
  by (cases s; auto simp: recover_quoted_def recover_byte_def Let_def)+

function recover_line :: "document \<Rightarrow> int \<Rightarrow> string \<Rightarrow> string option \<Rightarrow> nat \<Rightarrow> recovery \<times> line_state \<Rightarrow> recovery \<times> line_state" where
  "recover_line document line_number line next col s =
     (if length line \<le> col then s
      else case re_quote (fst s) of
          Some q \<Rightarrow> (case recover_quoted q line col s of (c, s') \<Rightarrow> recover_line document line_number line next c s')
        | None \<Rightarrow>
            if line ! col = CHR ''#'' \<and> (col = 0 \<or> is_white (line ! (col - 1)))
            then (read_recovered line_number line next col (fst s), snd s)
            else if is_white (line ! col) then recover_line document line_number line next (col + 1) s
            else (case recover_byte document line_number line col s of
                (c, s') \<Rightarrow> recover_line document line_number line next c s'))"
  by pat_completeness auto
termination
proof (relation "measure (\<lambda>(d, n, line, x, col, s). length line - col)", goal_cases)
  case (4 d n line x col s q c s')
  then show ?case using recover_moves(1) [of col q line s] by (cases "recover_quoted q line col s") auto
next
  case (3 d n line x col s c s')
  then show ?case using recover_moves(2) [of col d n line s] by (cases "recover_byte d n line col s") auto
qed auto

declare recover_line.simps [simp del]

text \<open>\<open>---\<close> and \<open>...\<close> at the start of a line.\<close>

definition line_marker :: "string \<Rightarrow> bool" where
  "line_marker line \<longleftrightarrow> (has_prefix line ''---'' \<or> has_prefix line ''...'')
     \<and> (length line = 3 \<or> is_white (line ! 3))"

text \<open>The body of the loop over the lines; \<open>i\<close> is the index of the line.\<close>

definition recover_row :: "document \<Rightarrow> int \<Rightarrow> string \<Rightarrow> string option \<Rightarrow> recovery \<Rightarrow> recovery" where
  "recover_row document line_number line next r =
     (let trimmed = dropWhile is_white line;
          comment_or_empty = (trimmed = [] \<or> has_prefix trimmed ''#'');
          fresh = (\<not> re_prefix_pending r \<or> \<not> comment_or_empty \<and> hd trimmed \<notin> set ''|>!&'');
          r = (if fresh then r\<lparr>re_parent_indent := int (length line) - int (length trimmed), re_prefix_start := 0\<rparr> else r)
      in case recover_line document line_number line next 0 (r, \<lparr>li_key_indent = re_parent_indent r, li_plain = False\<rparr>) of
          (r, l) \<Rightarrow>
            if comment_or_empty then r
            else let pending = (\<not> li_plain l \<and> re_quote r = None \<and> re_flow r = []) in
              r\<lparr>re_prefix_pending := pending,
                re_prefix_start := (if pending \<and> re_prefix_start r = 0 then line_number else re_prefix_start r)\<rparr>)"

fun recover_rows :: "document \<Rightarrow> int \<Rightarrow> string list \<Rightarrow> recovery \<Rightarrow> recovery" where
  "recover_rows document line_number [] r = r"
| "recover_rows document line_number (line # rest) r =
     (if line_number \<le> re_block_end r then recover_rows document (line_number + 1) rest r
      else if re_quote r = None \<and> 1 < line_number \<and> line_marker line then r
      else recover_rows document (line_number + 1) rest
        (recover_row document line_number line (case rest of [] \<Rightarrow> None | n # _ \<Rightarrow> Some n) r))"

definition comment_target :: "suppression_comment \<Rightarrow> int" where
  "comment_target c = (if ic_standalone c then dp_line (ic_pos c) + 1 else dp_line (ic_pos c))"

definition empty_recovery :: recovery where
  "empty_recovery =
     \<lparr>re_comments = [], re_quote = None, re_flow = [], re_block_ends = [], re_parent_indent = 0, re_block_end = 0,
      re_prefix_pending = False, re_prefix_start = 0\<rparr>"

definition recoverInlineSuppressionComments :: "string \<Rightarrow> suppression_comment list" where
  "recoverInlineSuppressionComments source =
     (let document = NewDocument source; lines = doc_lines document;
          r = recover_rows document 1 lines empty_recovery;
          ends = fold (\<lambda>l. al_put l (int (length lines) + 1)) (re_flow r) (re_block_ends r)
      in map (\<lambda>c. c\<lparr>ic_end_line := line_lookup ends (comment_target c)\<rparr>) (re_comments r))"

subsection \<open>Comments of YAML files\<close>

text \<open>The variables \<open>visit\<close> changes: the comments, the ends of multi-line scalars, and \<open>seen\<close>.\<close>

record collected =
  co_comments :: "suppression_comment list"
  co_block_ends :: "(int \<times> int) list"
  co_seen :: "int list"

text \<open>\<open>strings.LastIndex\<close> and \<open>strings.TrimSuffix\<close>.\<close>

definition last_index :: "string \<Rightarrow> string \<Rightarrow> nat option" where
  "last_index s t = map_option (\<lambda>i. length s - i - length t) (str_index (rev s) (rev t))"

definition trim_suffix :: "string \<Rightarrow> string \<Rightarrow> string" where
  "trim_suffix s t = (if has_suffix s t then take (length s - length t) s else s)"

definition read_comment :: "string list \<Rightarrow> int \<times> string \<times> bool \<Rightarrow> collected \<Rightarrow> collected" where
  "read_comment lines = (\<lambda>(line, comment, standalone) s.
     let t = trim_space (if has_prefix comment ''#'' then drop 1 comment else comment);
         physical = line_of lines (line - 1)
     in if \<not> has_prefix t ''actionlint:'' \<or> line \<in> set (co_seen s) then s
        else case last_index physical comment of
            None \<Rightarrow> s
          | Some col \<Rightarrow> s\<lparr>co_seen := line # co_seen s,
              co_comments := co_comments s @
                [\<lparr>ic_pos = \<lparr>dp_line = line, dp_column = int (rune_count (take col physical)) + 1\<rparr>, ic_comment = t,
                  ic_standalone = standalone, ic_start_line = 0, ic_end_line = 0\<rparr>]\<rparr>)"

definition read_preceding :: "string list \<Rightarrow> int \<Rightarrow> string \<Rightarrow> collected \<Rightarrow> collected" where
  "read_preceding lines line comments s =
     (let previous = trim_space (line_of lines (line - 2)) in
      if 1 < line \<and> line \<le> int (length lines) \<and> comments \<noteq> [] \<and> has_prefix previous ''#''
         \<and> has_suffix (trim_space comments) previous
      then read_comment lines (line - 1, previous, True) s else s)"

definition inlineSuppressionScalarEnd :: "scalar_index \<Rightarrow> ynode \<Rightarrow> int \<Rightarrow> int \<times> int" where
  "inlineSuppressionScalarEnd p n end_line =
     (case ScriptSource p n of
        Some source \<Rightarrow> (at_line (sr_content_start source), min (at_line (sr_scalar_end source)) end_line)
      | None \<Rightarrow> (yn_line n, yn_line n))"

text \<open>The last leaf of a node.\<close>

function last_leaf :: "ynode \<Rightarrow> ynode" where
  "last_leaf n = (if yn_content n = [] then n else last_leaf (last (yn_content n)))"
  by pat_completeness auto
termination by (relation "measure size") (auto intro: content_size)

declare last_leaf.simps [simp del]

function closing_line :: "bool \<Rightarrow> string \<Rightarrow> string list \<Rightarrow> int \<Rightarrow> int \<Rightarrow> int" where
  "closing_line is_scalar comment lines lowest line =
     (if line < lowest then 0
      else
        let t = trim_space (line_of lines (line - 1));
            prefix = trim_space (trim_suffix (trim_space (trim_suffix t comment)) '','')
        in if \<not> has_prefix t ''#'' \<and> has_suffix t comment
              \<and> (is_scalar \<or> has_suffix prefix [CHR 0x7D] \<or> has_suffix prefix '']'')
           then line else closing_line is_scalar comment lines lowest (line - 1))"
  by pat_completeness auto
termination by (relation "measure (\<lambda>(a, b, c, lowest, line). nat (line + 1 - lowest))") auto

declare closing_line.simps [simp del]

definition yamlClosingCommentLine :: "ynode \<Rightarrow> string \<Rightarrow> string list \<Rightarrow> int \<Rightarrow> int" where
  "yamlClosingCommentLine n comment lines end_line =
     closing_line (yn_kind n = ScalarNode) comment lines (yn_line (last_leaf n)) end_line"

text \<open>The bytes from the first one of \<open>cs\<close> on, none if there is no such byte.\<close>

definition from_any :: "string \<Rightarrow> string \<Rightarrow> string" where
  "from_any cs s = dropWhile (\<lambda>c. c \<notin> set cs) s"

text \<open>A comment behind an indicator.\<close>

definition comment_behind :: "int \<Rightarrow> string \<Rightarrow> (int \<times> string \<times> bool) list" where
  "comment_behind line s =
     (let comment = dropWhile is_white s in if has_prefix comment ''#'' then [(line, comment, False)] else [])"

text \<open>The comments \<open>readYAMLNodePrefixComments\<close> reads, in order.\<close>

function prefix_comments :: "string list \<Rightarrow> int \<Rightarrow> int \<Rightarrow> bool \<Rightarrow> string \<Rightarrow> (int \<times> string \<times> bool) list" where
  "prefix_comments lines end_line line declaration s =
     (case dropWhile is_white s of
        [] \<Rightarrow> if end_line \<le> line then []
          else prefix_comments lines end_line (line + 1) False (line_of lines line)
      | c # cs \<Rightarrow>
          if c = CHR ''#'' then
            (let next = dropWhile is_white (line_of lines line) in
             if declaration then [(line, c # cs, False)]
             else if line < end_line \<and> next \<noteq> [] \<and> \<not> has_prefix next ''#'' then [(line, c # cs, True)] else [])
            @ prefix_comments lines end_line line declaration []
          else if c = CHR ''!'' \<and> has_prefix cs ''<'' then
            prefix_comments lines end_line line True (drop 1 (from_any ''>'' cs))
          else if c = CHR ''&'' \<or> c = CHR ''!'' then
            prefix_comments lines end_line line True (from_any ([CHR 0x09] @ '' {['') cs)
          else if c = CHR ''{'' \<or> c = CHR ''['' then comment_behind line cs
          else if c = CHR ''|'' \<or> c = CHR ''>'' then comment_behind line (from_any [CHR 0x09, CHR '' ''] cs)
          else [])"
  by pat_completeness auto
termination
proof (relation "inv_image ({(a, b). a < b} <*lex*> {(a, b). a < b}) (\<lambda>(ls, e, line, d, s). (nat (e - line), length s))", goal_cases)
  case 1
  then show ?case by (intro wf_inv_image wf_lex_prod wf_less)
next
  case (4 lines end_line line fresh s c cs)
  then show ?case using length_dropWhile_le [of is_white s] length_dropWhile_le [of "\<lambda>c. c \<notin> set ''>''" cs]
    by (auto simp: from_any_def)
next
  case (5 lines end_line line fresh s c cs)
  then show ?case
    using length_dropWhile_le [of is_white s] length_dropWhile_le [of "\<lambda>c. c \<notin> set ([CHR 0x09] @ '' {['')" cs]
    by (auto simp: from_any_def)
qed (use length_dropWhile_le [of is_white] in \<open>fastforce\<close>)+

declare prefix_comments.simps [simp del]

definition readYAMLNodePrefixComments :: "ynode \<Rightarrow> string list \<Rightarrow> int \<Rightarrow> (int \<times> string \<times> bool) list" where
  "readYAMLNodePrefixComments n lines end_line =
     (let physical = line_of lines (yn_line n - 1);
          start = (case ByteOffsetAtColumn physical (yn_column n) of Some i \<Rightarrow> i | None \<Rightarrow> length physical)
      in prefix_comments lines end_line (yn_line n) True (drop start physical))"

text \<open>The children with the siblings before them, nearest first, and the next one.\<close>

fun with_siblings :: "ynode list \<Rightarrow> ynode list \<Rightarrow> (ynode list \<times> ynode \<times> ynode option) list" where
  "with_siblings prev [] = []"
| "with_siblings prev (c # cs) =
     (prev, c, case cs of [] \<Rightarrow> None | d # _ \<Rightarrow> Some d) # with_siblings (c # prev) cs"

lemma with_siblings_mem: "(prev, c, next) \<in> set (with_siblings ps cs) \<Longrightarrow> c \<in> set cs"
  by (induction ps cs rule: with_siblings.induct) auto

text \<open>What the declaration of a scalar ends at, for the lines it starts at.\<close>

definition note_scalar :: "scalar_index \<Rightarrow> ynode \<Rightarrow> int \<Rightarrow> collected \<Rightarrow> collected" where
  "note_scalar p n end_line s =
     (case inlineSuppressionScalarEnd p n end_line of
        (content, final) \<Rightarrow>
          if yn_kind n = ScalarNode \<and> yn_line n < final
          then s\<lparr>co_block_ends := fold (\<lambda>l. al_put l final) [yn_line n..content] (co_block_ends s)\<rparr>
          else s)"

text \<open>The loop over the parts of the line comment: the line of each and the end line afterwards.\<close>

definition read_line_comment :: "ynode \<Rightarrow> string list \<Rightarrow> int \<Rightarrow> string \<Rightarrow> int \<times> collected \<Rightarrow> int \<times> collected" where
  "read_line_comment n lines comment_end part = (\<lambda>(end_line, s).
     let comment = trim_space part;
         flow = has_style n [FlowStyle];
         line = (if flow \<or> yn_kind n = ScalarNode \<and> \<not> has_style n [LiteralStyle, FoldedStyle]
           then yamlClosingCommentLine n comment lines comment_end else yn_line n)
     in if comment = [] \<or> line \<le> 0 \<or> \<not> has_suffix (trim_space (line_of lines (line - 1))) comment then (end_line, s)
        else (if flow \<and> yn_line n < line then min end_line (line - 1) else end_line,
          read_comment lines (line, comment, False) s))"

text \<open>What \<open>visit\<close> does at the node itself.\<close>

definition visit_node :: "scalar_index \<Rightarrow> string list \<Rightarrow> ynode \<Rightarrow> int \<Rightarrow> collected \<Rightarrow> int \<times> collected" where
  "visit_node p lines n end_line s =
     (if yn_line n \<le> 0 \<or> int (length lines) < yn_line n then (end_line, s)
      else
        let s1 = note_scalar p n end_line s;
            s2 = (if has_style n [FlowStyle] \<or> yn_kind n = ScalarNode
              then fold (read_comment lines) (readYAMLNodePrefixComments n lines end_line) s1 else s1)
        in case fold (read_line_comment n lines end_line) (split_at_char line_feed (ni_line_comment (yn_info n))) (end_line, s2) of
            (e, s3) \<Rightarrow> (e, read_preceding lines (yn_line n) (ni_head_comment (yn_info n)) s3))"

text \<open>The comments that YAML attached to the end of the entry before.\<close>

definition preceding_feet :: "yaml_kind \<Rightarrow> ynode list \<Rightarrow> string list" where
  "preceding_feet k prev =
     (case prev of
        v # u # _ \<Rightarrow>
          if k = MappingNode then
            (if even (length prev) then [ni_foot_comment (yn_info u), ni_foot_comment (yn_info v)] else [])
          else if k = SequenceNode then [ni_foot_comment (yn_info v)] else []
      | [v] \<Rightarrow> if k = SequenceNode then [ni_foot_comment (yn_info v)] else []
      | [] \<Rightarrow> [])"

definition child_end :: "ynode \<Rightarrow> ynode \<Rightarrow> ynode option \<Rightarrow> int \<Rightarrow> int" where
  "child_end n child next end_line =
     max (yn_line child)
       (case next of
          None \<Rightarrow> end_line
        | Some m \<Rightarrow> min end_line
            (if \<not> has_style n [FlowStyle] \<or> yn_kind child \<noteq> ScalarNode then yn_line m - 1 else yn_line m))"

text \<open>The lines from the key of a multi-line scalar end where it does.\<close>

definition note_key :: "ynode \<Rightarrow> ynode list \<Rightarrow> ynode \<Rightarrow> collected \<Rightarrow> collected" where
  "note_key n prev child s =
     (case (prev, map_of (co_block_ends s) (yn_line child)) of
        (k # _, Some final) \<Rightarrow>
          if yn_kind n = MappingNode \<and> odd (length prev) \<and> yn_kind child = ScalarNode
          then s\<lparr>co_block_ends := fold (\<lambda>l. al_put l final) [yn_line k..yn_line child - 1] (co_block_ends s)\<rparr>
          else s
      | _ \<Rightarrow> s)"

function visit_comments :: "scalar_index \<Rightarrow> string list \<Rightarrow> ynode \<Rightarrow> int \<Rightarrow> collected \<Rightarrow> collected" where
  "visit_comments p lines n end_line s =
     (case visit_node p lines n end_line s of
        (e, s') \<Rightarrow>
          fold (\<lambda>(prev, child, next) s.
              note_key n prev child
                (visit_comments p lines child (child_end n child next e)
                  (fold (read_preceding lines (yn_line child)) (preceding_feet (yn_kind n) prev) s)))
            (with_siblings [] (yn_content n)) s')"
  by pat_completeness auto
termination
  by (relation "measure (\<lambda>(p, ls, n, e, s). size n)") (auto dest: with_siblings_mem intro: content_size)

declare visit_comments.simps [simp del]

definition document_end :: "string list \<Rightarrow> ynode \<Rightarrow> int" where
  "document_end lines n =
     (case yn_content n of
        [] \<Rightarrow> int (length lines)
      | body # _ \<Rightarrow>
          (let start = nat (yn_line body)
           in int (min (length lines) start + length (takeWhile (\<lambda>l. \<not> line_marker l) (drop start lines)))))"

text \<open>The first line whose declaration ends at \<open>e\<close>, 0 if there is none.\<close>

definition block_start :: "(int \<times> int) list \<Rightarrow> int \<Rightarrow> int" where
  "block_start ends e =
     (case map fst (filter (\<lambda>(_, final). final = e) ends) of [] \<Rightarrow> 0 | l # ls \<Rightarrow> fold min ls l)"

definition with_ranges :: "(int \<times> int) list \<Rightarrow> suppression_comment \<Rightarrow> suppression_comment" where
  "with_ranges ends c =
     (let e = line_lookup ends (comment_target c)
      in c\<lparr>ic_end_line := e, ic_start_line := block_start ends e\<rparr>)"

text \<open>\<open>bytes.ReplaceAll\<close> of line ends.\<close>

fun unix_lines :: "string \<Rightarrow> string" where
  "unix_lines (c # d # s) =
     (if c = CHR 0x0D \<and> d = line_feed then line_feed # unix_lines s else c # unix_lines (d # s))"
| "unix_lines s = s"

definition collectInlineSuppressionComments :: "(string \<Rightarrow> 'e + ynode) \<Rightarrow> string \<Rightarrow> suppression_comment list" where
  "collectInlineSuppressionComments unmarshal source =
     (if \<not> contains_str source ''actionlint:'' then []
      else case unmarshal (unix_lines source) of
          Inl _ \<Rightarrow> recoverInlineSuppressionComments source
        | Inr n \<Rightarrow>
            let p = IndexScalarSources (NewDocument source) n; lines = ix_lines p;
                s = visit_comments p lines n (document_end lines n) \<lparr>co_comments = [], co_block_ends = [], co_seen = []\<rparr>
            in map (with_ranges (co_block_ends s)) (co_comments s))"

definition ParseSuppressions :: "(string \<Rightarrow> 'e + ynode) \<Rightarrow> string \<Rightarrow> string list \<Rightarrow> suppression_directive list \<times> suppression_finding list" where
  "ParseSuppressions unmarshal source rules = parse_directives (collectInlineSuppressionComments unmarshal source) rules"

end
