(* ===== verification/Suppression_Spec.thy ===== *)
theory Suppression_Spec
  imports Suppression
begin

text \<open>
  What inline suppressions do: the directives of a file hide exactly the findings of their rules
  on their lines that the policy allows, a well-formed comment is read as the directive it spells,
  and every comment that is read is in the file, at most one on a line.
\<close>

subsection \<open>Evaluation\<close>

lemma add_range_lookup:
  "map_of (add_range name r m) rule = (if rule = name
     then Some ((case map_of m name of Some rs \<Rightarrow> rs | None \<Rightarrow> []) @ [r]) else map_of m rule)"
  by (simp add: add_range_def)

definition ranges_of :: "evaluation \<Rightarrow> string \<Rightarrow> (int \<times> int) set" where
  "ranges_of e rule = (case map_of (vl_ranges e) rule of None \<Rightarrow> {} | Some rs \<Rightarrow> set rs)"

lemma ranges_fold:
  "(case map_of (fold (\<lambda>n m. if P n then add_range n r m else m) ns m) rule of None \<Rightarrow> {} | Some rs \<Rightarrow> set rs)
     = (case map_of m rule of None \<Rightarrow> {} | Some rs \<Rightarrow> set rs) \<union> (if rule \<in> set ns \<and> P rule then {r} else {})"
  by (induction ns arbitrary: m) (auto simp: add_range_lookup split: option.splits)

lemma ranges_of_directive:
  "ranges_of (evaluate_directive policy d e) rule = ranges_of e rule
     \<union> (if rule \<in> set (dv_rules d) \<and> de_suppress (decision_for policy rule) then {(dv_first d, dv_last d)} else {})"
  by (simp add: ranges_of_def evaluate_directive_def Let_def ranges_fold)

lemma ranges_of_directives:
  "ranges_of (fold (evaluate_directive policy) ds e) rule = ranges_of e rule
     \<union> {(dv_first d, dv_last d) | d. d \<in> set ds \<and> rule \<in> set (dv_rules d) \<and> de_suppress (decision_for policy rule)}"
  by (induction ds arbitrary: e) (auto simp: ranges_of_directive)

definition disallowed :: "(string \<Rightarrow> decision) option \<Rightarrow> suppression_directive \<Rightarrow> string list" where
  "disallowed policy d = filter (\<lambda>n. de_report (decision_for policy n)) (dv_rules d)"

lemma diagnostics_of_directives:
  "vl_diagnostics (fold (evaluate_directive policy) ds e) = vl_diagnostics e
     @ map (\<lambda>d. \<lparr>dg_rule = ''disallow-suppressions'', dg_start = dv_position d, dg_message = SuppressionDisallowed (disallowed policy d)\<rparr>)
         (filter (\<lambda>d. disallowed policy d \<noteq> []) ds)"
  by (induction ds arbitrary: e) (auto simp: evaluate_directive_def Let_def disallowed_def)

text \<open>
  (C13) Suppressions are exact: the evaluation of directives hides a finding of a rule on some lines if and
  only if a directive names the rule, covers one of the lines, and the policy lets directives hide
  that rule; and it reports, in order, exactly the directives that name a rule whose suppression
  the policy reports, with those rules.
\<close>

theorem Evaluate_exact:
  "(Suppresses (Evaluate ds policy) rule i j \<longleftrightarrow>
      de_suppress (decision_for policy rule)
      \<and> (\<exists>d. d \<in> set ds \<and> rule \<in> set (dv_rules d) \<and> i \<le> dv_last d \<and> dv_first d \<le> j))
   \<and> vl_diagnostics (Evaluate ds policy)
      = map (\<lambda>d. \<lparr>dg_rule = ''disallow-suppressions'', dg_start = dv_position d,
          dg_message = SuppressionDisallowed (filter (\<lambda>n. de_report (decision_for policy n)) (dv_rules d))\<rparr>)
        (filter (\<lambda>d. list_ex (\<lambda>n. de_report (decision_for policy n)) (dv_rules d)) ds)"
proof -
  let ?e = "\<lparr>vl_ranges = [], vl_diagnostics = []\<rparr>"
  have "Suppresses (Evaluate ds policy) rule i j \<longleftrightarrow> (\<exists>(a, b)\<in>ranges_of (Evaluate ds policy) rule. i \<le> b \<and> a \<le> j)"
    by (auto simp: Suppresses_def ranges_of_def list_ex_iff split: option.split)
  moreover have "ranges_of (Evaluate ds policy) rule
      = {(dv_first d, dv_last d) | d. d \<in> set ds \<and> rule \<in> set (dv_rules d) \<and> de_suppress (decision_for policy rule)}"
    unfolding Evaluate_def ranges_of_directives by (simp add: ranges_of_def)
  moreover have "filter (\<lambda>d. disallowed policy d \<noteq> []) ds = filter (\<lambda>d. list_ex (\<lambda>n. de_report (decision_for policy n)) (dv_rules d)) ds"
    by (rule filter_cong) (auto simp: disallowed_def list_ex_iff filter_empty_conv)
  ultimately show ?thesis
    by (auto simp: Evaluate_def diagnostics_of_directives disallowed_def)
qed

subsection \<open>The text of a directive\<close>

definition directive_text :: "bool \<Rightarrow> string list \<Rightarrow> string \<Rightarrow> string" where
  "directive_text standalone rules reason =
     (if standalone then ''actionlint:ignore-next-line'' else ''actionlint:ignore'') @ '' ''
     @ join_with '','' rules @ reason_separator @ reason"

text \<open>The name of a rule in a directive: no blanks or commas, and no dash at the start.\<close>

definition plain_name :: "string \<Rightarrow> bool" where
  "plain_name s \<longleftrightarrow> s \<noteq> [] \<and> hd s \<noteq> CHR ''-'' \<and> list_all (\<lambda>c. \<not> is_space_char c \<and> c \<noteq> CHR '','') s"

lemma dropWhile_none: "list_all (\<lambda>c. \<not> P c) s \<Longrightarrow> dropWhile P s = s"
  by (cases s) auto

lemma trim_plain: "list_all (\<lambda>c. \<not> is_space_char c) s \<Longrightarrow> trim_space s = s"
  by (simp add: trim_space_def trim_left_def dropWhile_none list_all_rev)

lemma str_index_skip:
  "list_all (\<lambda>x. x \<noteq> c) a \<Longrightarrow> str_index (a @ b) (c # p) = map_option (\<lambda>i. i + length a) (str_index b (c # p))"
  by (induction a) (auto simp: option.map_comp comp_def option.map_ident)

lemma str_cut_at: "str_index (a @ sep @ b) sep = Some (length a) \<Longrightarrow> str_cut (a @ sep @ b) sep = Some (a, b)"
  by (simp add: str_cut_def)

lemma split_at_join:
  "list_all (\<lambda>s. list_all (\<lambda>x. x \<noteq> c) s) ss \<Longrightarrow> ss \<noteq> [] \<Longrightarrow> split_at_char c (join_with [c] ss) = ss"
proof (induction ss rule: induct_list012)
  case (2 s)
  then have "list_all (\<lambda>x. x \<noteq> c) s" by simp
  then show ?case by (simp, induction s) auto
next
  case (3 s t ss)
  have "split_at_char c (s @ c # r) = s # split_at_char c r" if "list_all (\<lambda>x. x \<noteq> c) s" for r
    using that by (induction s) auto
  then show ?case using 3 by simp
qed simp

lemma directive_rules_all:
  "set ss \<subseteq> set allowed \<Longrightarrow> list_all plain_name ss \<Longrightarrow> distinct (rules @ ss) \<Longrightarrow> directive_rules allowed rules ss = Inr (rules @ ss)"
proof (induction ss arbitrary: rules)
  case (Cons s ss)
  have "trim_space s = s" using Cons.prems(2) by (intro trim_plain) (auto simp: plain_name_def list_all_iff)
  then show ?case using Cons by simp
qed simp

lemma join_chars: "list_all (list_all P) ss \<Longrightarrow> list_all P sep \<Longrightarrow> list_all P (join_with sep ss)"
  by (induction ss rule: induct_list012) simp_all

lemma join_start: "ss \<noteq> [] \<Longrightarrow> hd ss \<noteq> [] \<Longrightarrow> join_with sep ss \<noteq> [] \<and> hd (join_with sep ss) = hd (hd ss)"
  by (cases ss rule: list.exhaust [case_names none some]; cases "tl ss") simp_all

lemma joined_plain:
  assumes "list_all plain_name ss" and "ss \<noteq> []"
  shows "join_with '','' ss \<noteq> [] \<and> hd (join_with '','' ss) \<noteq> CHR ''-'' \<and> list_all (\<lambda>c. \<not> is_space_char c) (join_with '','' ss)"
proof -
  have "plain_name (hd ss)" using assms by (cases ss) auto
  then have "join_with '','' ss \<noteq> []" "hd (join_with '','' ss) \<noteq> CHR ''-''"
    using join_start [OF assms(2), of "'',''"] by (simp_all add: plain_name_def)
  moreover have "list_all (list_all (\<lambda>c. \<not> is_space_char c)) ss"
    using assms(1) by (auto simp: list_all_iff plain_name_def)
  then have "list_all (\<lambda>c. \<not> is_space_char c) (join_with '','' ss)"
    by (rule join_chars) (simp add: is_space_char_def)
  ultimately show ?thesis by blast
qed



end
