(* ===== verification/Workflow_Refs.thy ===== *)
theory Workflow_Refs
  imports Go_Path Workflow_Ast Diagnostic
begin

text \<open>
  What workflow declarations refer to: the triggers of \<open>internal/webhook\<close>, the references of
  actions and reusable workflows (\<open>internal/workflow/references/uses.go\<close>) and the patterns for the
  names of workflows (\<open>internal/workflow/names/pattern.go\<close>, \<open>check.go\<close>). A nil slice of the tables
  is the empty list: no caller tells the two apart.
\<close>

subsection \<open>Triggers\<close>

definition AllWebhookTypes :: "(string \<times> string list) list" where
  "AllWebhookTypes =
    [(''branch_protection_rule'', [''created'', ''deleted'', ''edited'']),
     (''check_run'', [''completed'', ''created'', ''requested_action'', ''rerequested'']),
     (''check_suite'', [''completed'']),
     (''create'', []),
     (''delete'', []),
     (''deployment'', []),
     (''deployment_status'', []),
     (''discussion'', [''answered'', ''category_changed'', ''created'', ''deleted'', ''edited'', ''labeled'', ''locked'',
        ''pinned'', ''transferred'', ''unanswered'', ''unlabeled'', ''unlocked'', ''unpinned'']),
     (''discussion_comment'', [''created'', ''deleted'', ''edited'']),
     (''fork'', []),
     (''gollum'', []),
     (''image_version'', [''created'', ''deleted'', ''ready'']),
     (''issue_comment'', [''created'', ''deleted'', ''edited'']),
     (''issues'', [''assigned'', ''closed'', ''deleted'', ''demilestoned'', ''edited'', ''field_added'', ''field_removed'',
        ''labeled'', ''locked'', ''milestoned'', ''opened'', ''pinned'', ''reopened'', ''transferred'', ''typed'',
        ''unassigned'', ''unlabeled'', ''unlocked'', ''unpinned'', ''untyped'']),
     (''label'', [''created'', ''deleted'', ''edited'']),
     (''merge_group'', [''checks_requested'']),
     (''milestone'', [''closed'', ''created'', ''deleted'', ''edited'', ''opened'']),
     (''page_build'', []),
     (''public'', []),
     (''pull_request'', [''assigned'', ''auto_merge_disabled'', ''auto_merge_enabled'', ''closed'', ''converted_to_draft'',
        ''demilestoned'', ''dequeued'', ''edited'', ''enqueued'', ''labeled'', ''locked'', ''milestoned'', ''opened'',
        ''ready_for_review'', ''reopened'', ''review_request_removed'', ''review_requested'', ''stacked'', ''synchronize'',
        ''unassigned'', ''unlabeled'', ''unlocked'']),
     (''pull_request_review'', [''dismissed'', ''edited'', ''submitted'']),
     (''pull_request_review_comment'', [''created'', ''deleted'', ''edited'']),
     (''pull_request_target'', [''assigned'', ''auto_merge_disabled'', ''auto_merge_enabled'', ''closed'',
        ''converted_to_draft'', ''demilestoned'', ''dequeued'', ''edited'', ''enqueued'', ''labeled'', ''locked'',
        ''milestoned'', ''opened'', ''ready_for_review'', ''reopened'', ''review_request_removed'', ''review_requested'',
        ''stacked'', ''synchronize'', ''unassigned'', ''unlabeled'', ''unlocked'']),
     (''push'', []),
     (''registry_package'', [''published'', ''updated'']),
     (''release'', [''created'', ''deleted'', ''edited'', ''prereleased'', ''published'', ''released'', ''unpublished'']),
     (''repository_dispatch'', []),
     (''schedule'', []),
     (''status'', []),
     (''watch'', [''started'']),
     (''workflow_call'', []),
     (''workflow_dispatch'', []),
     (''workflow_run'', [''completed'', ''in_progress'', ''requested''])]"

definition triggerFields :: "(string \<times> string list) list" where
  "triggerFields =
    [(''branch_protection_rule'', [''types'']),
     (''check_run'', [''types'']),
     (''check_suite'', [''types'']),
     (''create'', []),
     (''delete'', []),
     (''deployment'', []),
     (''deployment_status'', []),
     (''discussion'', [''types'']),
     (''discussion_comment'', [''types'']),
     (''fork'', []),
     (''gollum'', []),
     (''image_version'', [''names'', ''types'', ''versions'']),
     (''issue_comment'', [''types'']),
     (''issues'', [''types'']),
     (''label'', [''types'']),
     (''merge_group'', [''branches'', ''branches-ignore'', ''types'']),
     (''milestone'', [''types'']),
     (''page_build'', []),
     (''public'', []),
     (''pull_request'', [''branches'', ''branches-ignore'', ''paths'', ''paths-ignore'', ''types'']),
     (''pull_request_review'', [''types'']),
     (''pull_request_review_comment'', [''types'']),
     (''pull_request_target'', [''branches'', ''branches-ignore'', ''paths'', ''paths-ignore'', ''types'']),
     (''push'', [''branches'', ''branches-ignore'', ''paths'', ''paths-ignore'', ''tags'', ''tags-ignore'']),
     (''registry_package'', [''types'']),
     (''release'', [''types'']),
     (''repository_dispatch'', [''types'']),
     (''schedule'', [''cron'', ''timezone'']),
     (''status'', []),
     (''watch'', [''types'']),
     (''workflow_call'', [''inputs'', ''outputs'', ''secrets'']),
     (''workflow_dispatch'', [''inputs'']),
     (''workflow_run'', [''branches'', ''branches-ignore'', ''types'', ''workflows''])]"

definition defaultActivities :: "(string \<times> string list) list" where
  "defaultActivities =
    [(''pull_request'', [''opened'', ''synchronize'', ''reopened'']),
     (''pull_request_target'', [''opened'', ''synchronize'', ''reopened''])]"

definition DefaultActivities :: "string \<Rightarrow> string list \<times> bool" where
  "DefaultActivities event =
     (case map_of defaultActivities event of
        Some ds \<Rightarrow> ds
      | None \<Rightarrow> (case map_of AllWebhookTypes event of Some ts \<Rightarrow> ts | None \<Rightarrow> []),
      map_of AllWebhookTypes event \<noteq> None)"

definition Fields :: "string \<Rightarrow> string list" where
  "Fields event = (case map_of triggerFields event of Some fs \<Rightarrow> fs | None \<Rightarrow> [])"

definition EventsWithField :: "string \<Rightarrow> string list" where
  "EventsWithField field = sort (map fst (filter (\<lambda>(event, fields). field \<in> set fields) triggerFields))"

subsection \<open>References\<close>

text \<open>Owner, repository and ref, or what is missing.\<close>

definition SplitAction :: "string \<Rightarrow> string + string \<times> string \<times> string" where
  "SplitAction spec =
     (case cut_char CHR ''@'' spec of
        None \<Rightarrow> Inl ''ref is missing''
      | Some (name, ref) \<Rightarrow>
          (case cut_char CHR ''/'' name of
             None \<Rightarrow> Inl ''owner is missing''
           | Some (owner, rest) \<Rightarrow>
               Inr (owner, case cut_char CHR ''/'' rest of Some (repo, _) \<Rightarrow> repo | None \<Rightarrow> rest, ref)))"

definition SelfRepositoryLocal :: "string \<Rightarrow> string option" where
  "SelfRepositoryLocal spec =
     (if \<not> has_prefix spec ''$/'' \<or> CHR ''@'' \<in> set (drop 2 spec) then None
      else Some (''./'' @ dropWhile (\<lambda>c. c = CHR ''/'') (drop 2 spec)))"

definition LocalWorkflow :: "string \<Rightarrow> string \<times> bool" where
  "LocalWorkflow u =
     (case (if has_prefix u ''$/'' then SelfRepositoryLocal u else if has_prefix u ''./'' then Some u else None) of
        None \<Rightarrow> ([], False)
      | Some v \<Rightarrow>
          let path = (if has_prefix v ''./'' then drop 2 v else v) in
          if CHR ''@'' \<in> set (drop 1 path) \<and> hd path \<noteq> CHR ''@'' then ([], False) else (v, path \<noteq> []))"

definition WorkflowRef :: "string \<Rightarrow> string option" where
  "WorkflowRef u =
     (if has_prefix u ''.'' \<or> has_prefix u ''$'' then None
      else case cut_char CHR ''/'' u of
        None \<Rightarrow> None
      | Some (owner, u1) \<Rightarrow>
          if owner = [] then None
          else case cut_char CHR ''/'' u1 of
              None \<Rightarrow> None
            | Some (repo, u2) \<Rightarrow>
                if repo = [] then None
                else case cut_char CHR ''@'' u2 of
                    None \<Rightarrow> None
                  | Some (path, ref) \<Rightarrow> if path = [] \<or> ref = [] then None else Some ref)"

definition CacheAction :: "string \<Rightarrow> string" where
  "CacheAction uses =
     (case cut_char CHR ''@'' uses of
        None \<Rightarrow> []
      | Some (name, ref) \<Rightarrow>
          if ref = [] \<or> ContainsExpression uses then []
          else case cut_char CHR ''/'' name of
              None \<Rightarrow> []
            | Some (owner, rest) \<Rightarrow>
                if \<not> equal_fold owner ''actions'' then []
                else let (repo, path, hasPath) = (case cut_char CHR ''/'' rest of Some (r, p) \<Rightarrow> (r, p, True) | None \<Rightarrow> (rest, [], False))
                  in if \<not> equal_fold repo ''cache'' \<or> hasPath \<and> path = [] then []
                     else if path = [] \<or> path = ''save'' \<or> path = ''restore'' then name else [])"

definition SplitRef :: "string \<Rightarrow> string \<times> string" where
  "SplitRef spec = (case cut_char CHR ''@'' spec of Some p \<Rightarrow> p | None \<Rightarrow> (spec, []))"

subsection \<open>Patterns for the names of workflows\<close>

text \<open>
  The regular expressions \<open>compilePattern\<close> writes, one constructor per piece: a rune, \<open>.*\<close>,
  \<open>[^/]*\<close>, \<open>(?:.*/)?\<close>, a class, and a rune or class with \<open>+\<close> or \<open>?\<close>.
\<close>

datatype name_rx =
    RxRune rune
  | RxClass "(rune \<times> rune) list"
  | RxAny
  | RxSegment
  | RxDirs
  | RxPlus name_rx
  | RxOpt name_rx

definition sameRangeFamily :: "rune \<Rightarrow> rune \<Rightarrow> bool" where
  "sameRangeFamily start stop \<longleftrightarrow> start \<le> stop
     \<and> (97 \<le> start \<and> stop \<le> 122 \<or> 65 \<le> start \<and> stop \<le> 90 \<or> 48 \<le> start \<and> stop \<le> 57)"

text \<open>The ranges of a class, as \<open>regexp\<close> reads them, and the checks of its runes after \<open>prev\<close>.\<close>

fun class_ranges :: "rune list \<Rightarrow> (rune \<times> rune) list" where
  "class_ranges (a # b # c # rs) = (if b = 45 then (a, c) # class_ranges rs else (a, a) # class_ranges (b # c # rs))"
| "class_ranges [a, b] = [(a, a), (b, b)]"
| "class_ranges [a] = [(a, a)]"
| "class_ranges [] = []"

fun class_checked :: "rune option \<Rightarrow> rune list \<Rightarrow> bool" where
  "class_checked prev [] = True"
| "class_checked prev (c # cs) =
     ((if c = 45 then (case (prev, cs) of (Some p, d # _) \<Rightarrow> sameRangeFamily p d | _ \<Rightarrow> False) else sameRangeFamily c c)
      \<and> class_checked (Some c) cs)"

text \<open>
  The loop over the runes. \<open>prev\<close> is the rune before them, \<open>repeatable\<close> whether a piece that can be
  repeated was written last, \<open>out\<close> what was written, last piece first.
\<close>

function compile_loop :: "rune option \<Rightarrow> bool \<Rightarrow> name_rx list \<Rightarrow> rune list \<Rightarrow> name_rx list option" where
  "compile_loop prev repeatable out [] = Some (rev out)"
| "compile_loop prev repeatable out (c # cs) =
     (if c = 92 then
        (case cs of
           d # ds \<Rightarrow>
             if d \<in> rn ` set ([CHR 0x5C] @ ''[]?*+!'') then compile_loop (Some d) True (RxRune d # out) ds
             else compile_loop (Some c) True (RxRune c # out) cs
         | [] \<Rightarrow> compile_loop (Some c) True (RxRune c # out) cs)
      else if c = 42 then
        (case cs of
           d # ds \<Rightarrow>
             if d = 42 then
               (case ds of
                  e # es \<Rightarrow>
                    if e = 47 \<and> (prev = None \<or> prev = Some 47) then compile_loop (Some e) False (RxDirs # out) es
                    else compile_loop (Some d) False (RxAny # out) ds
                | [] \<Rightarrow> compile_loop (Some d) False (RxAny # out) ds)
             else compile_loop (Some c) False (RxSegment # out) cs
         | [] \<Rightarrow> compile_loop (Some c) False (RxSegment # out) cs)
      else if c = 43 \<or> c = 63 then
        (if \<not> repeatable then None
         else compile_loop (Some c) False
           (case out of p # ps \<Rightarrow> (if c = 43 then RxPlus p else RxOpt p) # ps | [] \<Rightarrow> []) cs)
      else if c = 91 then
        (let body = takeWhile (\<lambda>r. r \<noteq> 93) cs; rest = dropWhile (\<lambda>r. r \<noteq> 93) cs in
         if body = [] \<or> rest = [] \<or> \<not> class_checked None body then None
         else compile_loop (Some 93) True (RxClass (class_ranges body) # out) (drop 1 rest))
      else compile_loop (Some c) True (RxRune c # out) cs)"
  by pat_completeness auto
termination
  by (relation "measure (\<lambda>(p, r, out, cs). length cs)")
    (auto intro: le_imp_less_Suc [OF le_trans [OF diff_le_self length_dropWhile_le]])

declare compile_loop.simps(2) [simp del]

definition compilePattern :: "string \<Rightarrow> name_rx list option" where
  "compilePattern pattern =
     (if pattern = [] \<or> list_ex (\<lambda>c. c = CHR 0x0D \<or> c = CHR 0x0A) pattern then None
      else compile_loop None False [] (runes pattern))"

text \<open>What the written expression matches, from the first to the last rune of a name.\<close>

fun rx_single :: "name_rx \<Rightarrow> rune \<Rightarrow> bool" where
  "rx_single (RxRune c) r \<longleftrightarrow> r = c"
| "rx_single (RxClass rs) r \<longleftrightarrow> list_ex (\<lambda>(a, b). a \<le> r \<and> r \<le> b) rs"
| "rx_single _ r \<longleftrightarrow> False"

fun rx_weight :: "name_rx \<Rightarrow> nat" where
  "rx_weight RxDirs = 3"
| "rx_weight _ = 1"

function rx_match :: "name_rx list \<Rightarrow> rune list \<Rightarrow> bool" where
  "rx_match [] s = (s = [])"
| "rx_match (RxAny # xs) s = (rx_match xs s \<or> (case s of [] \<Rightarrow> False | _ # cs \<Rightarrow> rx_match (RxAny # xs) cs))"
| "rx_match (RxSegment # xs) s =
     (rx_match xs s \<or> (case s of [] \<Rightarrow> False | c # cs \<Rightarrow> c \<noteq> 47 \<and> rx_match (RxSegment # xs) cs))"
| "rx_match (RxDirs # xs) s = (rx_match xs s \<or> rx_match (RxAny # RxRune 47 # xs) s)"
| "rx_match (RxPlus x # xs) s =
     (case s of [] \<Rightarrow> False | c # cs \<Rightarrow> rx_single x c \<and> (rx_match xs cs \<or> rx_match (RxPlus x # xs) cs))"
| "rx_match (RxOpt x # xs) s =
     (rx_match xs s \<or> (case s of [] \<Rightarrow> False | c # cs \<Rightarrow> rx_single x c \<and> rx_match xs cs))"
| "rx_match (RxRune d # xs) s = (case s of [] \<Rightarrow> False | c # cs \<Rightarrow> rx_single (RxRune d) c \<and> rx_match xs cs)"
| "rx_match (RxClass rs # xs) s = (case s of [] \<Rightarrow> False | c # cs \<Rightarrow> rx_single (RxClass rs) c \<and> rx_match xs cs)"
  by pat_completeness auto
termination
  by (relation "measures [\<lambda>(xs, s). sum_list (map rx_weight xs), \<lambda>(xs, s). length s]") auto

declare rx_match.simps [simp del]

lemmas rx_match_simps = rx_match.simps rx_single.simps

definition ValidPattern :: "string \<Rightarrow> bool" where
  "ValidPattern pattern \<longleftrightarrow> compilePattern (if has_prefix pattern ''!'' then drop 1 pattern else pattern) \<noteq> None"

record workflow_names =
  wn_values :: "string list"
  wn_complete :: bool

definition name_matches :: "name_rx list \<Rightarrow> string \<Rightarrow> bool" where
  "name_matches rx name \<longleftrightarrow> rx_match rx (runes name)"

definition Missing :: "workflow_names \<Rightarrow> string \<Rightarrow> bool" where
  "Missing n pattern \<longleftrightarrow>
     (if \<not> wn_complete n \<or> has_prefix pattern ''!'' then False
      else case compilePattern pattern of None \<Rightarrow> False | Some rx \<Rightarrow> \<not> list_ex (name_matches rx) (wn_values n))"

text \<open>The loop over the filters: the names selected and whether one ever was; \<open>None\<close> if a filter is invalid.\<close>

fun select_names :: "string list \<Rightarrow> string list \<Rightarrow> bool \<Rightarrow> string list \<Rightarrow> (string list \<times> bool) option" where
  "select_names names selected matched [] = Some (selected, matched)"
| "select_names names selected matched (p # ps) =
     (let negative = has_prefix p ''!'' in
      case compilePattern (if negative then drop 1 p else p) of
        None \<Rightarrow> None
      | Some rx \<Rightarrow>
          let hits = filter (name_matches rx) names in
          if negative then select_names names (filter (\<lambda>x. x \<notin> set hits) selected) matched ps
          else select_names names (selected @ filter (\<lambda>x. x \<notin> set selected) hits) (matched \<or> hits \<noteq> []) ps)"

definition ExcludesAll :: "workflow_names \<Rightarrow> string list \<Rightarrow> bool" where
  "ExcludesAll n patterns \<longleftrightarrow>
     wn_complete n
     \<and> (case select_names (wn_values n) [] False patterns of None \<Rightarrow> False | Some (selected, matched) \<Rightarrow> matched \<and> selected = [])"

datatype names_msg = NoSuchWorkflow string | EveryWorkflowExcluded

definition diag_position :: "source_pos \<Rightarrow> diag_pos" where
  "diag_position p = \<lparr>dp_line = at_line p, dp_column = at_col p\<rparr>"

definition names_report :: "source_pos \<Rightarrow> names_msg \<Rightarrow> names_msg diagnostic" where
  "names_report p m = \<lparr>dg_rule = ''workflow-run-names'', dg_start = diag_position p, dg_message = m\<rparr>"

definition WorkflowRunFilters :: "workflow \<Rightarrow> wstring list" where
  "WorkflowRunFilters w =
     concat (map (\<lambda>e. case e of
         WebhookEvent h \<Rightarrow> if ws_value (we_hook h) = ''workflow_run'' then we_workflows h else []
       | _ \<Rightarrow> []) (case wk_on w of Some es \<Rightarrow> es | None \<Rightarrow> []))"

text \<open>The pattern a reference stands for, if it is known.\<close>

definition known_pattern :: "wstring \<Rightarrow> string option" where
  "known_pattern ref =
     (case literalExpressionValue (ws_value ref) of
        Some v \<Rightarrow> Some v
      | None \<Rightarrow> if ws_ContainsExpression ref then None else Some (ws_value ref))"

definition CheckWorkflowRun :: "workflow_names \<Rightarrow> wstring list \<Rightarrow> names_msg diagnostic list" where
  "CheckWorkflowRun n references =
     (if references = [] \<or> \<not> wn_complete n then []
      else
        let known = concat (map (\<lambda>r. case known_pattern r of Some v \<Rightarrow> [(r, v)] | None \<Rightarrow> []) references);
            missing = filter (\<lambda>(r, v). Missing n v) known
        in map (\<lambda>(r, v). names_report (ws_pos r) (NoSuchWorkflow v)) missing
           @ (if length known = length references \<and> missing = [] \<and> ExcludesAll n (map snd known)
              then [names_report (ws_pos (hd references)) EveryWorkflowExcluded] else []))"

end
