(* ===== verification/Refs_Spec.thy ===== *)
theory Refs_Spec
  imports Workflow_Refs Document_Spec
begin

text \<open>
  What patterns for the names of workflows select: an escaped name selects that name only, and a list
  of filters excludes everything exactly if the last filter that matches a name never is a positive
  one although some positive filter matches.
\<close>

subsection \<open>Escaped names\<close>

definition ascii_name :: "string \<Rightarrow> bool" where
  "ascii_name s \<longleftrightarrow> s \<noteq> [] \<and> list_all (\<lambda>c. rn c < 128 \<and> c \<noteq> CHR 0x0D \<and> c \<noteq> CHR 0x0A) s"

definition special_char :: "char \<Rightarrow> bool" where
  "special_char c \<longleftrightarrow> c \<in> set ([CHR 0x5C] @ ''[]?*+!'')"

definition escape_name :: "string \<Rightarrow> string" where
  "escape_name s = concat (map (\<lambda>c. if special_char c then [CHR 0x5C, c] else [c]) s)"

lemma runes_ascii: "list_all (\<lambda>c. rn c < 128) s \<Longrightarrow> runes s = map rn s"
  by (induction s) (simp_all add: runes_step [OF _ decode_ascii])

lemma runes_ascii_inj: "runes s = map rn t \<Longrightarrow> list_all (\<lambda>c. rn c < 128) t \<Longrightarrow> s = t"
proof (induction t arbitrary: s)
  case Nil
  then show ?case by (cases s) (auto simp: runes.simps(2) split: prod.splits)
next
  case (Cons c t)
  then have s: "s \<noteq> []" by auto
  obtain r w where d: "decode_rune s = (r, w)" by fastforce
  from runes_step [OF s d] Cons.prems have r: "r = rn c" "runes (drop w s) = map rn t" by auto
  then obtain x xs where x: "s = x # xs" "rn x = r" "w = 1" using decode_small [OF s] d Cons.prems(2) by auto
  then show ?case using Cons.IH [of xs] Cons.prems(2) r by simp
qed

lemma special_rn: "special_char c \<longleftrightarrow> rn c \<in> rn ` set ([CHR 0x5C] @ ''[]?*+!'')"
  unfolding special_char_def by (rule inj_image_mem_iff [symmetric]) (rule injI, simp only: rn_eq_iff)

lemma set_escape: "c \<in> set (escape_name s) \<Longrightarrow> c = CHR 0x5C \<or> c \<in> set s"
  by (auto simp: escape_name_def split: if_splits)

lemma compile_escaped:
  "compile_loop prev rep out (concat (map (\<lambda>c. if special_char c then [92, rn c] else [rn c]) s)) = Some (rev out @ map (RxRune \<circ> rn) s)"
proof (induction s arbitrary: prev rep out)
  case (Cons c s)
  show ?case
  proof (cases "special_char c")
    case True
    then show ?thesis using Cons by (simp add: compile_loop.simps(2) special_rn)
  next
    case False
    then have "rn c \<noteq> 92 \<and> rn c \<noteq> 42 \<and> rn c \<noteq> 43 \<and> rn c \<noteq> 63 \<and> rn c \<noteq> 91"
      by (auto simp: special_rn)
    with False Cons show ?thesis by (simp add: compile_loop.simps(2))
  qed
qed simp

lemma compile_escape_name:
  assumes "ascii_name s"
  shows "compilePattern (escape_name s) = Some (map (RxRune \<circ> rn) s)"
proof -
  have chars: "rn c < 128 \<and> c \<noteq> CHR 0x0D \<and> c \<noteq> CHR 0x0A" if "c \<in> set (escape_name s)" for c
    using set_escape [OF that]
  proof
    assume "c \<in> set s"
    then show ?thesis using assms unfolding ascii_name_def list_all_iff by blast
  qed simp
  then have "list_all (\<lambda>c. rn c < 128) (escape_name s)" by (simp add: list_all_iff)
  then have "runes (escape_name s) = map rn (escape_name s)" by (rule runes_ascii)
  also have "\<dots> = concat (map (\<lambda>c. if special_char c then [92, rn c] else [rn c]) s)"
    by (simp add: escape_name_def map_concat comp_def if_distrib [of "map rn"] cong: if_cong)
  finally have "compile_loop None False [] (runes (escape_name s)) = Some (map (RxRune \<circ> rn) s)"
    by (simp only: compile_escaped) simp
  moreover have "escape_name s \<noteq> []" using assms by (cases s) (auto simp: ascii_name_def escape_name_def)
  moreover have "\<not> list_ex (\<lambda>c. c = CHR 0x0D \<or> c = CHR 0x0A) (escape_name s)"
    using chars by (auto simp: list_ex_iff)
  ultimately show ?thesis by (simp add: compilePattern_def)
qed

lemma match_runes: "rx_match (map (RxRune \<circ> rn) s) t \<longleftrightarrow> t = map rn s"
  by (induction s arbitrary: t) (auto simp: rx_match.simps split: list.splits)

text \<open>
  A workflow name written as a pattern, with a backslash before every special character, selects
  that name and no other: it is reported as missing exactly if the inventory is complete and does
  not hold the name.
\<close>

theorem missing_literal_iff:
  assumes "ascii_name s"
  shows "Missing n (escape_name s) \<longleftrightarrow> wn_complete n \<and> s \<notin> set (wn_values n)"
proof -
  have "\<not> has_prefix (escape_name s) ''!''"
    using assms by (cases s) (auto simp: ascii_name_def escape_name_def special_char_def)
  moreover have "list_all (\<lambda>c. rn c < 128) s" using assms by (auto simp: ascii_name_def list_all_iff)
  then have "name_matches (map (RxRune \<circ> rn) s) x \<longleftrightarrow> x = s" for x
    using runes_ascii_inj [of x s] runes_ascii [of s] by (auto simp: name_matches_def match_runes)
  ultimately show ?thesis
    by (auto simp: Missing_def compile_escape_name [OF assms] list_ex_iff)
qed

theorem missing_literal_iff_witness:
  "Missing \<lparr>wn_values = [''build''], wn_complete = True\<rparr> (escape_name ''c++'')"
  using missing_literal_iff [of "''c++''"] by (simp add: ascii_name_def)

subsection \<open>Lists of filters\<close>

definition filter_body :: "string \<Rightarrow> string" where
  "filter_body p = (if has_prefix p ''!'' then drop 1 p else p)"

definition filter_hits :: "string \<Rightarrow> string \<Rightarrow> bool" where
  "filter_hits p name \<longleftrightarrow> (case compilePattern (filter_body p) of None \<Rightarrow> False | Some rx \<Rightarrow> name_matches rx name)"

text \<open>What the last filter that matches a name says about it.\<close>

fun verdict :: "bool \<Rightarrow> string list \<Rightarrow> string \<Rightarrow> bool" where
  "verdict v [] name = v"
| "verdict v (p # ps) name = verdict (if filter_hits p name then \<not> has_prefix p ''!'' else v) ps name"

lemma select_names_iff:
  assumes "list_all ValidPattern ps"
  shows "\<exists>sel m. select_names names selected matched ps = Some (sel, m)
     \<and> (set selected \<subseteq> set names \<longrightarrow> set sel = {x \<in> set names. verdict (x \<in> set selected) ps x})
     \<and> (m \<longleftrightarrow> matched \<or> (\<exists>p\<in>set ps. \<not> has_prefix p ''!'' \<and> (\<exists>x\<in>set names. filter_hits p x)))"
  using assms
proof (induction ps arbitrary: selected matched)
  case (Cons p ps)
  then obtain rx where rx: "compilePattern (filter_body p) = Some rx"
    by (auto simp: ValidPattern_def filter_body_def)
  then have hits: "filter_hits p x \<longleftrightarrow> name_matches rx x" for x by (simp add: filter_hits_def)
  let ?hits = "filter (name_matches rx) names"
  have ps: "list_all ValidPattern ps" using Cons.prems by simp
  show ?case
  proof (cases "has_prefix p ''!''")
    case True
    let ?s = "filter (\<lambda>x. x \<notin> set ?hits) selected"
    have step: "select_names names selected matched (p # ps) = select_names names ?s matched ps"
      using True rx by (simp add: filter_body_def)
    have "verdict (x \<in> set ?s) ps x = verdict (x \<in> set selected) (p # ps) x" if "x \<in> set names" for x
      using that True by (cases "name_matches rx x") (simp_all add: hits)
    then show ?thesis
      unfolding step using Cons.IH [OF ps, of ?s matched] True by (auto simp: subset_iff simp del: verdict.simps)
  next
    case False
    let ?s = "selected @ filter (\<lambda>x. x \<notin> set selected) ?hits"
    have step: "select_names names selected matched (p # ps) = select_names names ?s (matched \<or> ?hits \<noteq> []) ps"
      using False rx by (simp add: filter_body_def)
    have "verdict (x \<in> set ?s) ps x = verdict (x \<in> set selected) (p # ps) x" if "x \<in> set names" for x
      using that False by (cases "name_matches rx x") (simp_all add: hits)
    then show ?thesis
      unfolding step using Cons.IH [OF ps, of ?s "matched \<or> ?hits \<noteq> []"] False hits
      by (auto simp: subset_iff filter_empty_conv simp del: verdict.simps)
  qed
qed (auto)

lemma invalid_select: "\<not> list_all ValidPattern ps \<Longrightarrow> select_names names selected matched ps = None"
  by (induction ps arbitrary: selected matched) (auto simp: ValidPattern_def filter_body_def Let_def split: option.splits)

text \<open>
  (C40) Filters exclude everything, as the rule understands it, exactly if the inventory is complete, all
  filters are valid, some positive filter matches a name, and for each name the last filter that
  matches it, if there is one, is a negative one.
\<close>

theorem excludes_all_iff:
  "ExcludesAll n ps \<longleftrightarrow>
     wn_complete n \<and> list_all ValidPattern ps
     \<and> list_ex (\<lambda>p. \<not> has_prefix p ''!'' \<and> list_ex (filter_hits p) (wn_values n)) ps
     \<and> \<not> list_ex (verdict False ps) (wn_values n)"
proof (cases "list_all ValidPattern ps")
  case True
  from select_names_iff [OF this, of "wn_values n" "[]" False]
  obtain sel m where s: "select_names (wn_values n) [] False ps = Some (sel, m)"
    "set sel = {x \<in> set (wn_values n). verdict False ps x}"
    "m \<longleftrightarrow> (\<exists>p\<in>set ps. \<not> has_prefix p ''!'' \<and> (\<exists>x\<in>set (wn_values n). filter_hits p x))" by auto
  have "sel = [] \<longleftrightarrow> \<not> list_ex (verdict False ps) (wn_values n)"
    using s(2) by (auto simp: list_ex_iff simp flip: set_empty)
  then show ?thesis using True s(1,3) by (auto simp: ExcludesAll_def list_ex_iff)
qed (simp add: ExcludesAll_def invalid_select)

end
