(* ===== verification/Workflow_Schema.thy ===== *)
theory Workflow_Schema
  imports Workflow_Ast
begin

text \<open>
  The schemas of values that expressions give (\<open>internal/workflow/schema/values.go\<close>). The
  implementations of \<open>Shape\<close> are the constructors of \<open>shape\<close>; a message is a constructor of
  \<open>schema_msg\<close> with the values formatted into it. \<open>ValidateType\<close> and \<open>LiteralErrors\<close> sort their
  messages at the end; here they stay in the order in which they are found.
\<close>

subsection \<open>Shapes\<close>

datatype scalar_shape = ShAny | ShString | ShBool | ShPositive | ShNonEmpty | ShQueue

datatype shape =
    ScalarShape scalar_shape
  | ArrayShape shape bool
  | ObjectShape "(string \<times> shape) list" "string list" "shape option"
  | UnionShape "shape list"

datatype schema_msg =
    NotScalar string scalar_shape ty
  | NotArray string ty
  | NotObject string ty
  | EmptyProperty string
  | DuplicateProperty string string
  | UnknownProperty string string
  | RequiredProperty string string
  | UnsupportedType string ty
  | NotPositive string
  | NotInteger string
  | EmptyValue string
  | NotQueue string
  | EmptyArray string
  | QueueCancels

lemma shape_size [termination_simp]: "(n, s) \<in> set ps \<Longrightarrow> size s < Suc (size_list (size_prod (\<lambda>x. 0) size) ps + y)"
  by (induction ps) auto

lemma shape_lookup_size [termination_simp]:
  "map_of ps n = Some s \<Longrightarrow> size s < Suc (size_list (size_prod (\<lambda>x. 0) size) ps + y)"
  by (auto dest: map_of_SomeD shape_size)

text \<open>The shape of a property: its own, or the one for all other properties.\<close>

definition field_shape :: "(string \<times> shape) list \<Rightarrow> shape option \<Rightarrow> string \<Rightarrow> shape option" where
  "field_shape ps m name = (case map_of ps (to_lower name) of Some s \<Rightarrow> Some s | None \<Rightarrow> m)"

lemma field_shape_size [termination_simp]:
  "field_shape ps m n = Some s \<Longrightarrow> size s < Suc (size_list (size_prod (\<lambda>x. 0) size) ps + size_option size m)"
  by (auto simp: field_shape_def split: option.splits dest: shape_lookup_size)

fun scalar_accepts :: "scalar_shape \<Rightarrow> ty \<Rightarrow> bool" where
  "scalar_accepts ShAny t = True"
| "scalar_accepts ShBool t = (t = BoolType)"
| "scalar_accepts ShPositive t = (t = NumberType)"
| "scalar_accepts _ t = (t = StringType \<or> t = NumberType \<or> t = BoolType \<or> t = NullType)"

text \<open>The names of an object that are checked against its shape, and the other messages on the way.\<close>

fun property_walk :: "string \<Rightarrow> (string \<Rightarrow> shape option) \<Rightarrow> string list \<Rightarrow> (string \<times> ty) list \<Rightarrow>
    (schema_msg + shape \<times> ty \<times> string) list \<times> string list" where
  "property_walk path field seen [] = ([], seen)"
| "property_walk path field seen ((name, t) # ps) =
     (if name = [] then
        (case property_walk path field seen ps of (es, s) \<Rightarrow> (Inl (EmptyProperty path) # es, s))
      else
        (let key = to_lower name;
             twice = (if key \<in> set seen then [Inl (DuplicateProperty path key)] else []);
             found = (case field name of None \<Rightarrow> Inl (UnknownProperty path name) | Some s \<Rightarrow> Inr (s, t, path @ ''.'' @ name))
         in case property_walk path field (key # seen) ps of (es, s) \<Rightarrow> (twice @ found # es, s)))"

lemma property_walk_mem:
  "Inr (s, t, p) \<in> set (fst (property_walk path field seen ps)) \<Longrightarrow> \<exists>n. (n, t) \<in> set ps \<and> field n = Some s \<and> p = path @ ''.'' @ n"
  by (induction path field seen ps rule: property_walk.induct) (fastforce split: if_splits prod.splits option.splits simp: Let_def)+

text \<open>The alternative of a union whose messages are given: the one of the kind of the type.\<close>

fun same_outer :: "ty \<Rightarrow> shape \<Rightarrow> bool" where
  "same_outer (ObjectType _ _ _ _ _) (ObjectShape _ _ _) = True"
| "same_outer (ArrayType _ _) (ArrayShape _ _) = True"
| "same_outer _ _ = False"

function ValidateType :: "shape \<Rightarrow> ty \<Rightarrow> string \<Rightarrow> schema_msg list" where
  "ValidateType (ScalarShape s) t path =
     (if t = AnyType \<or> scalar_accepts s t then [] else [NotScalar path s t])"
| "ValidateType (ArrayShape elem ne) t path =
     (case t of
        AnyType \<Rightarrow> []
      | ArrayType e _ \<Rightarrow> ValidateType elem e (path @ ''[]'')
      | _ \<Rightarrow> [NotArray path t])"
| "ValidateType (ObjectShape ps required m) t path =
     (case t of
        AnyType \<Rightarrow> []
      | ObjectType _ members _ _ others \<Rightarrow>
          (case property_walk path (field_shape ps m) [] members of
             (es, seen) \<Rightarrow>
               concat (map (\<lambda>e. case e of Inl x \<Rightarrow> [x] | Inr (s, u, p) \<Rightarrow> ValidateType s u p) es)
               @ (case others of
                    None \<Rightarrow> map (RequiredProperty path) (filter (\<lambda>r. r \<notin> set seen) required)
                  | Some u \<Rightarrow> (case m of None \<Rightarrow> [] | Some s \<Rightarrow> ValidateType s u (path @ ''.*''))))
      | _ \<Rightarrow> [NotObject path t])"
| "ValidateType (UnionShape ss) t path =
     (if list_ex (\<lambda>s. ValidateType s t path = []) ss then []
      else case filter (same_outer t) ss of
          s # _ \<Rightarrow> (if s \<in> set ss then ValidateType s t path else [])
        | [] \<Rightarrow> [UnsupportedType path t])"
  by pat_completeness auto
termination
proof (relation "measure (\<lambda>(s, t, p). size s)", goal_cases)
  case (3 ps required m t path d members pn ev others es seen e sup s up u p)
  then have "Inr (s, u, p) \<in> set (fst (property_walk path (field_shape ps m) [] members))"
    by (cases "property_walk path (field_shape ps m) [] members") auto
  from property_walk_mem [OF this] show ?case by (auto dest: field_shape_size)
qed (auto dest: size_list_estimation' simp: less_Suc_eq_le size_list_estimation' intro: size_list_estimation')

declare ValidateType.simps [simp del]

subsection \<open>The schemas of workflow declarations\<close>

definition StringMap :: shape where
  "StringMap = ObjectShape [] [] (Some (ScalarShape ShString))"

definition LabelList :: shape where
  "LabelList = ArrayShape (ScalarShape ShNonEmpty) True"

definition Labels :: shape where
  "Labels = UnionShape [ScalarShape ShNonEmpty, LabelList]"

definition RunnerShape :: shape where
  "RunnerShape = UnionShape [ScalarShape ShNonEmpty, LabelList,
     ObjectShape [(''group'', ScalarShape ShNonEmpty), (''labels'', Labels)] [] None]"

definition MatrixShape :: shape where
  "MatrixShape = ObjectShape
     [(''include'', ArrayShape (ObjectShape [] [] (Some (ScalarShape ShAny))) False),
      (''exclude'', ArrayShape (ObjectShape [] [] (Some (ScalarShape ShAny))) False)]
     [] (Some (ArrayShape (ScalarShape ShAny) False))"

definition StrategyShape :: shape where
  "StrategyShape = ObjectShape
     [(''fail-fast'', ScalarShape ShBool), (''max-parallel'', ScalarShape ShPositive), (''matrix'', MatrixShape)] [] None"

definition DefaultsRunShape :: shape where
  "DefaultsRunShape = ObjectShape [(''shell'', ScalarShape ShNonEmpty), (''working-directory'', ScalarShape ShNonEmpty)] [] None"

definition CredentialsShape :: shape where
  "CredentialsShape = ObjectShape [(''username'', ScalarShape ShNonEmpty), (''password'', ScalarShape ShNonEmpty)] [] None"

definition ConcurrencyMapping :: shape where
  "ConcurrencyMapping = ObjectShape
     [(''group'', ScalarShape ShNonEmpty), (''cancel-in-progress'', ScalarShape ShBool), (''queue'', ScalarShape ShQueue)]
     [''group''] None"

definition ConcurrencyShape :: shape where
  "ConcurrencyShape = UnionShape [ScalarShape ShString, ConcurrencyMapping]"

definition JobConcurrencyShape :: shape where
  "JobConcurrencyShape = UnionShape [ScalarShape ShNonEmpty, ConcurrencyMapping]"

definition EnvironmentShape :: shape where
  "EnvironmentShape = UnionShape [ScalarShape ShNonEmpty,
     ObjectShape [(''name'', ScalarShape ShNonEmpty), (''url'', ScalarShape ShString), (''deployment'', ScalarShape ShBool)] [''name''] None]"

definition SnapshotShape :: shape where
  "SnapshotShape = UnionShape [ScalarShape ShNonEmpty,
     ObjectShape [(''image-name'', ScalarShape ShNonEmpty), (''version'', ScalarShape ShNonEmpty), (''if'', ScalarShape ShString)]
       [''image-name''] None]"

definition ContainerShape :: "bool \<Rightarrow> shape" where
  "ContainerShape service =
     UnionShape [ScalarShape ShString,
       ObjectShape
         ([(''image'', ScalarShape ShString), (''options'', ScalarShape ShString), (''env'', StringMap), (''credentials'', CredentialsShape),
           (''ports'', ArrayShape (ScalarShape ShNonEmpty) False), (''volumes'', ArrayShape (ScalarShape ShNonEmpty) False)]
          @ (if service then [(''command'', ScalarShape ShString), (''entrypoint'', ScalarShape ShString)] else []))
         [''image''] None]"

definition ServicesShape :: shape where
  "ServicesShape = ObjectShape [] [] (Some (ContainerShape True))"

definition StringList :: shape where
  "StringList = ArrayShape (ScalarShape ShNonEmpty) False"

subsection \<open>Known values\<close>

definition Property :: "(string \<times> 'v) list \<Rightarrow> string \<Rightarrow> 'v option" where
  "Property ps name =
     (case map_of ps name of
        Some v \<Rightarrow> Some v
      | None \<Rightarrow> (case filter (\<lambda>(k, v). equal_fold k name) ps of (k, v) # _ \<Rightarrow> Some v | [] \<Rightarrow> None))"

text \<open>For values of any type the zero value is nil.\<close>

definition json_property :: "(string \<times> json) list \<Rightarrow> string \<Rightarrow> json" where
  "json_property ps name = (case Property ps name of Some v \<Rightarrow> v | None \<Rightarrow> JNull)"

definition f64_integral :: "f64 \<Rightarrow> bool" where
  "f64_integral x \<longleftrightarrow> (case x of F64NaN \<Rightarrow> False | F64Inf _ \<Rightarrow> True | F64Fin _ r \<Rightarrow> r = of_int \<lfloor>r\<rfloor>)"

definition scalar_errors :: "scalar_shape \<Rightarrow> json \<Rightarrow> string \<Rightarrow> schema_msg list" where
  "scalar_errors s v path =
     (case (s, v) of (ShPositive, JNum x) \<Rightarrow>
          (if f64_less_eq x (F64Fin False 0) then [NotPositive path] else if \<not> f64_integral x then [NotInteger path] else [])
        | _ \<Rightarrow> [])
     @ (if s = ShNonEmpty \<and> (v = JNull \<or> v = JStr []) then [EmptyValue path] else [])
     @ (if s = ShQueue \<and> v \<noteq> JStr ''single'' \<and> v \<noteq> JStr ''max'' then [NotQueue path] else [])"

function LiteralErrors :: "shape \<Rightarrow> json \<Rightarrow> string \<Rightarrow> schema_msg list" where
  "LiteralErrors sh v path =
     (let es = ValidateType sh (TypeOfJSONValue v) path in
      if es \<noteq> [] then es
      else case sh of
          ScalarShape s \<Rightarrow> scalar_errors s v path
        | UnionShape ss \<Rightarrow>
            (case filter (\<lambda>s. ValidateType s (TypeOfJSONValue v) path = []) ss of
               s # _ \<Rightarrow> (if s \<in> set ss then LiteralErrors s v path else [])
             | [] \<Rightarrow> [])
        | ArrayShape elem ne \<Rightarrow>
            (case v of
               JArr items \<Rightarrow> (if ne \<and> items = [] then [EmptyArray path] else [])
                 @ concat (map (\<lambda>(i, item). LiteralErrors elem item (path @ ''['' @ nat_digits i @ '']'')) (enumerate 0 items))
             | _ \<Rightarrow> [])
        | ObjectShape ps required m \<Rightarrow>
            (case v of
               JObj members \<Rightarrow>
                 concat (map (\<lambda>(name, item). case field_shape ps m name of
                     Some s \<Rightarrow> LiteralErrors s item (path @ ''.'' @ name) | None \<Rightarrow> []) members)
                 @ (if path = ''concurrency'' \<and> json_property members ''queue'' = JStr ''max''
                       \<and> json_property members ''cancel-in-progress'' = JBool True then [QueueCancels] else [])
             | _ \<Rightarrow> []))"
  by pat_completeness auto
termination
  by (relation "measure (\<lambda>(s, v, p). size s)") (auto dest: field_shape_size intro: size_list_estimation' simp: less_Suc_eq_le)

declare LiteralErrors.simps [simp del]

subsection \<open>The type of a matrix\<close>

definition matrix_row_type :: "ty \<Rightarrow> ty" where
  "matrix_row_type t = (case t of ArrayType e _ \<Rightarrow> e | _ \<Rightarrow> t)"

text \<open>The body of the loop over the properties that every combination of \<open>include\<close> can have.\<close>

definition include_step :: "string \<times> ty \<Rightarrow> (string \<times> ty) list \<Rightarrow> (string \<times> ty) list" where
  "include_step = (\<lambda>(name, t) rows.
     let key = to_lower name in
     al_put key (case map_of rows key of Some u \<Rightarrow> merge_ty u t | None \<Rightarrow> t) rows)"

definition MatrixType :: "ty \<Rightarrow> ty" where
  "MatrixType t =
     (case t of
        ObjectType _ members _ _ others \<Rightarrow>
          let rows = fold (\<lambda>(name, u) acc. al_put (to_lower name) (matrix_row_type u) acc)
                (filter (\<lambda>(name, _). to_lower name \<noteq> ''include'' \<and> to_lower name \<noteq> ''exclude'') members) []
          in (case Property members ''include'' of
                Some (ArrayType e _) \<Rightarrow>
                  (case e of
                     ObjectType _ combination _ _ _ \<Rightarrow> ObjectType [] (fold include_step combination rows) [] [] others
                   | _ \<Rightarrow> ObjectType [] rows [] [] (Some AnyType))
              | Some AnyType \<Rightarrow> ObjectType [] rows [] [] (Some AnyType)
              | _ \<Rightarrow> ObjectType [] rows [] [] others)
      | _ \<Rightarrow> NewEmptyObjectType)"

end
