(* ===== verification/Schema_Spec.thy ===== *)
theory Schema_Spec
  imports Workflow_Schema
begin

text \<open>
  What the schema check of known values promises: a value without a message has the shape, read as a
  relation between shapes and values that does not look at types or at the order of alternatives.
\<close>

inductive fits_shape :: "shape \<Rightarrow> json \<Rightarrow> bool" where
  fits_any: "fits_shape (ScalarShape ShAny) v"
| fits_text: "ScalarString v \<noteq> None \<Longrightarrow> fits_shape (ScalarShape ShString) v"
| fits_bool: "fits_shape (ScalarShape ShBool) (JBool b)"
| fits_positive: "\<not> f64_less_eq x (F64Fin False 0) \<Longrightarrow> f64_integral x \<Longrightarrow> fits_shape (ScalarShape ShPositive) (JNum x)"
| fits_nonempty: "ScalarString v \<noteq> None \<Longrightarrow> v \<noteq> JNull \<Longrightarrow> v \<noteq> JStr [] \<Longrightarrow> fits_shape (ScalarShape ShNonEmpty) v"
| fits_queue: "s = ''single'' \<or> s = ''max'' \<Longrightarrow> fits_shape (ScalarShape ShQueue) (JStr s)"
| fits_array: "(\<And>v. v \<in> set vs \<Longrightarrow> fits_shape e v) \<Longrightarrow> (ne \<longrightarrow> vs \<noteq> []) \<Longrightarrow> fits_shape (ArrayShape e ne) (JArr vs)"
| fits_object: "(\<And>n v. (n, v) \<in> set ms \<Longrightarrow> n \<noteq> [] \<and> (\<exists>s. field_shape ps others n = Some s \<and> fits_shape s v)) \<Longrightarrow>
    distinct (map to_lower (map fst ms)) \<Longrightarrow> (\<And>r. r \<in> set required \<Longrightarrow> r \<in> to_lower ` fst ` set ms) \<Longrightarrow>
    fits_shape (ObjectShape ps required others) (JObj ms)"
| fits_union: "s \<in> set ss \<Longrightarrow> fits_shape s v \<Longrightarrow> fits_shape (UnionShape ss) v"

inductive_cases fits_shape_bool: "fits_shape (ScalarShape ShBool) v"
inductive_cases fits_shape_queue: "fits_shape (ScalarShape ShQueue) v"
inductive_cases fits_shape_array: "fits_shape (ArrayShape e ne) v"
inductive_cases fits_shape_object: "fits_shape (ObjectShape ps required others) v"

lemma type_never_any: "TypeOfJSONValue v \<noteq> AnyType"
  by (cases v) (simp_all add: NewStrictObjectType_def)

lemma type_scalar: "scalar_accepts ShString (TypeOfJSONValue v) \<longleftrightarrow> ScalarString v \<noteq> None"
  by (cases v) (simp_all add: NewStrictObjectType_def)

lemma scalar_fits_shape:
  assumes "ValidateType (ScalarShape s) (TypeOfJSONValue v) path = []" and "scalar_errors s v path = []"
  shows "fits_shape (ScalarShape s) v"
proof (cases s)
  case ShAny
  then show ?thesis by (simp add: fits_shape.fits_any)
next
  case ShString
  then show ?thesis using assms(1) type_never_any [of v] type_scalar [of v]
    by (auto simp: ValidateType.simps intro: fits_shape.fits_text split: if_splits)
next
  case ShBool
  then show ?thesis using assms(1)
    by (cases v) (auto simp: ValidateType.simps NewStrictObjectType_def intro: fits_shape.fits_bool split: if_splits)
next
  case ShPositive
  then show ?thesis using assms
    by (cases v) (auto simp: ValidateType.simps NewStrictObjectType_def scalar_errors_def intro: fits_shape.fits_positive split: if_splits)
next
  case ShNonEmpty
  then show ?thesis using assms type_never_any [of v] type_scalar [of v]
    by (auto simp: ValidateType.simps scalar_errors_def intro: fits_shape.fits_nonempty split: if_splits)
next
  case ShQueue
  then show ?thesis using assms(2)
    by (auto simp: scalar_errors_def intro: fits_shape.fits_queue split: if_splits)
qed

text \<open>What a walk over properties without a message has seen.\<close>

lemma property_walk_clean:
  "property_walk path field seen ps = (es, s) \<Longrightarrow> list_all (\<lambda>e. \<not> isl e) es \<Longrightarrow>
     s = rev (map to_lower (map fst ps)) @ seen
     \<and> distinct (map to_lower (map fst ps)) \<and> set seen \<inter> set (map to_lower (map fst ps)) = {}
     \<and> (\<forall>(n, t)\<in>set ps. n \<noteq> [] \<and> field n \<noteq> None)"
proof (induction path field seen ps arbitrary: es s rule: property_walk.induct)
  case (2 path field seen name t ps)
  have ne: "name \<noteq> []" using 2(3,4) by (auto split: prod.splits)
  obtain es' s' where r: "property_walk path field (to_lower name # seen) ps = (es', s')" by fastforce
  have new: "to_lower name \<notin> set seen" "field name \<noteq> None" and rest: "list_all (\<lambda>e. \<not> isl e) es'" "s = s'"
    using 2(3,4) ne r by (auto simp: Let_def split: if_splits option.splits)
  from 2(2) [OF ne refl refl refl r rest(1)] new ne rest(2) show ?case by auto
qed simp

lemma object_clean:
  assumes "ValidateType (ObjectShape ps required others) (TypeOfJSONValue (JObj ms)) path = []"
  shows "distinct (map to_lower (map fst ms)) \<and> set required \<subseteq> to_lower ` fst ` set ms
     \<and> (\<forall>(n, v)\<in>set ms. n \<noteq> [] \<and> field_shape ps others n \<noteq> None)"
proof -
  let ?ts = "map (\<lambda>(k, v). (k, TypeOfJSONValue v)) ms"
  obtain es s where w: "property_walk path (field_shape ps others) [] ?ts = (es, s)" by fastforce
  have c: "concat (map (\<lambda>e. case e of Inl x \<Rightarrow> [x] | Inr (s, u, p) \<Rightarrow> ValidateType s u p) es) = []"
    and req: "filter (\<lambda>r. r \<notin> set s) required = []"
    using assms w by (simp_all add: ValidateType.simps NewStrictObjectType_def)
  from c have "list_all (\<lambda>e. \<not> isl e) es" by (auto simp: list_all_iff isl_def split: sum.splits)
  from property_walk_clean [OF w this] req show ?thesis
    by (auto simp: comp_def case_prod_beta filter_empty_conv subset_iff image_image)
qed

lemma union_clean: "ValidateType (UnionShape ss) t path = [] \<Longrightarrow> list_ex (\<lambda>s. ValidateType s t path = []) ss"
proof (rule ccontr)
  assume c: "ValidateType (UnionShape ss) t path = []" and no: "\<not> list_ex (\<lambda>s. ValidateType s t path = []) ss"
  show False
  proof (cases "filter (same_outer t) ss")
    case (Cons s rest)
    then have "s \<in> set ss" by (metis filter_is_subset list.set_intros(1) subsetD)
    with no have "ValidateType s t path \<noteq> []" by (auto simp: list_ex_iff)
    with c no Cons \<open>s \<in> set ss\<close> show False by (simp add: ValidateType.simps)
  qed (use c no in \<open>simp add: ValidateType.simps\<close>)
qed

text \<open>
  (C37) The schema check of known values is sound: a value for which it gives no message fits_shape to the
  shape. In particular required properties are there, the names of properties are known, distinct
  up to case and not empty, and all values inside conform.
\<close>

theorem LiteralErrors_sound:
  assumes "LiteralErrors sh v path = []"
  shows "fits_shape sh v"
  using assms
proof (induction sh v path rule: LiteralErrors.induct)
  case (1 sh v path)
  have t: "ValidateType sh (TypeOfJSONValue v) path = []"
    using 1(4) by (subst (asm) LiteralErrors.simps) (auto simp: Let_def split: if_splits)
  note step = 1(4) [unfolded LiteralErrors.simps [of sh v path] t Let_def, simplified]
  show ?case
  proof (cases sh)
    case (ScalarShape s)
    then show ?thesis using t step by (auto intro: scalar_fits_shape)
  next
    case (ArrayShape e ne)
    show ?thesis
    proof (cases v)
      case (JArr vs)
      have "fits_shape e x" if x: "x \<in> set vs" for x
      proof -
        have "set vs = snd ` set (enumerate 0 vs)" by (simp flip: set_map)
        with x obtain i where i: "(i, x) \<in> set (enumerate 0 vs)" by auto
        have "\<forall>y\<in>set (enumerate 0 vs). (case y of (i, item) \<Rightarrow> LiteralErrors e item (path @ ''['' @ nat_digits i @ '']'')) = []"
          using step ArrayShape JArr by simp
        from bspec [OF this i] have "LiteralErrors e x (path @ ''['' @ nat_digits i @ '']'') = []" by simp
        with 1(1) [OF refl _ ArrayShape JArr i refl] t show ?thesis by simp
      qed
      then show ?thesis using step ArrayShape JArr by (auto intro!: fits_shape.fits_array split: if_splits)
    qed (use t ArrayShape in \<open>simp_all add: ValidateType.simps NewStrictObjectType_def\<close>)
  next
    case (ObjectShape ps required others)
    show ?thesis
    proof (cases v)
      case (JObj ms)
      have c: "distinct (map to_lower (map fst ms))" "set required \<subseteq> to_lower ` fst ` set ms"
        "\<And>n v. (n, v) \<in> set ms \<Longrightarrow> n \<noteq> [] \<and> field_shape ps others n \<noteq> None"
        using object_clean [OF t [unfolded ObjectShape JObj]] by auto
      have "n \<noteq> [] \<and> (\<exists>s. field_shape ps others n = Some s \<and> fits_shape s x)" if x: "(n, x) \<in> set ms" for n x
      proof -
        obtain s where s: "field_shape ps others n = Some s" using c(3) [OF x] by auto
        have "\<forall>y\<in>set ms. (case y of (n, item) \<Rightarrow> (case field_shape ps others n of
            Some s \<Rightarrow> LiteralErrors s item (path @ ''.'' @ n) | None \<Rightarrow> [])) = []"
          using step ObjectShape JObj by simp
        from bspec [OF this x] s have "LiteralErrors s x (path @ ''.'' @ n) = []" by simp
        with 1(2) [OF refl _ ObjectShape JObj x refl s] t s c(3) [OF x] show ?thesis by simp
      qed
      then show ?thesis unfolding ObjectShape JObj using c(1,2) by (intro fits_shape.fits_object) auto
    qed (use t ObjectShape in \<open>simp_all add: ValidateType.simps\<close>)
  next
    case (UnionShape ss)
    have "list_ex (\<lambda>s. ValidateType s (TypeOfJSONValue v) path = []) ss"
      using t unfolding UnionShape by (rule union_clean)
    then obtain s rest where s: "filter (\<lambda>s. ValidateType s (TypeOfJSONValue v) path = []) ss = s # rest"
      by (cases "filter (\<lambda>s. ValidateType s (TypeOfJSONValue v) path = []) ss") (auto simp: list_ex_iff filter_empty_conv)
    then have "s \<in> set ss" by (metis filter_is_subset list.set_intros(1) subsetD)
    moreover have "LiteralErrors s v path = []" using step UnionShape s \<open>s \<in> set ss\<close> by simp
    ultimately show ?thesis
      using 1(3) [OF refl _ UnionShape s] t by (auto simp: UnionShape intro: fits_shape.fits_union)
  qed
qed

theorem LiteralErrors_sound_witness:
  "fits_shape ConcurrencyShape (JObj [(''group'', JStr ''ci''), (''Queue'', JStr ''max'')])"
proof (rule LiteralErrors_sound)
  show "LiteralErrors ConcurrencyShape (JObj [(''group'', JStr ''ci''), (''Queue'', JStr ''max'')]) ''concurrency'' = []"
    by code_simp
qed

text \<open>
  The check is not complete: the types of the elements of an array are merged before their properties
  are compared, so two combinations that spell a key in different cases are taken for one with a
  duplicate key.
\<close>

definition mixed_case :: json where
  "mixed_case = JArr [JObj [(''os'', JStr ''linux'')], JObj [(''OS'', JStr ''windows'')]]"

lemma mixed_case_fits: "fits_shape (ArrayShape (ObjectShape [] [] (Some (ScalarShape ShAny))) False) mixed_case"
  unfolding mixed_case_def
  by (intro fits_shape.intros; auto intro!: fits_shape.intros simp: field_shape_def)

lemma mixed_case_rejected:
  "LiteralErrors (ArrayShape (ObjectShape [] [] (Some (ScalarShape ShAny))) False) mixed_case ''include'' \<noteq> []"
  by code_simp

end
