(* ===== verification/Workflow_Checks.thy ===== *)
theory Workflow_Checks
  imports Workflow_Refs Workflow_Schema Name_Checks Job_Needs Glob Condition_Check
begin

text \<open>
  The declaration checks of workflows (\<open>internal/workflow/checks\<close>). Each adapts the syntax tree to
  the input of a rule package of \<open>internal/semantics\<close> or checks it itself; a message of a rule
  package is wrapped in a constructor of \<open>check_msg\<close>, and a message of this package has one of its
  own. A finding names the step that owns it, if there is one. Of what is not in the repository,
  the cron parser is a parameter: from a text it gives an error or the schedule, a function from a
  time to the next one, in nanoseconds; and so are the time zones the system knows.
\<close>

subsection \<open>Findings\<close>

datatype event_msg =
    InvalidCron string string
  | TooFrequent int
  | InvalidTimezone string
  | FilterNotAvailable string string "string list"
  | ExclusiveFilters string string string
  | UnknownWebhook string
  | NoWorkflowConfigured
  | WorkflowsNotAvailable string
  | TypesNotAvailable string
  | InvalidActivity string string "string list"
  | CallDefaultNotNumber string string
  | CallDefaultNotBool string string
  | CallDefaultUnused string string
  | ChoiceWithoutOptions string
  | DuplicateOption string string
  | DefaultNotInOptions string string "string list"
  | OptionsNotAllowed string
  | DispatchDefaultNotNumber string string
  | DispatchDefaultNotBool string string
  | TooManyInputs nat

datatype parallel_msg =
    BackgroundInParallel
  | NotInParallel string
  | NestedParallel
  | NotBackgroundStep string

datatype check_msg =
    EventMsg event_msg
  | GlobMsg glob_msg
  | InvalidNamePattern
  | NoPositivePattern
  | EnvNameMsg string
  | PermissionMsg perm_msg
  | NeedsMsg needs_msg
  | ConditionMsg condition_msg
  | IdMsg id_msg
  | ParallelMsg parallel_msg
  | PasswordMsg string
  | NotCommitSHA string string
  | NotDigest string
  | RefNotSHA string string
  | MissingAction string "(string \<times> source_pos) option"
  | MissingWorkflowPermissions
  | MissingJobPermissions string
  | MissingTimeout string
  | TimeoutTooSmall f64 string f64
  | TimeoutTooLarge f64 string f64

record finding = "check_msg diagnostic" +
  fi_step :: "step option"

definition check_error :: "string \<Rightarrow> source_pos \<Rightarrow> check_msg \<Rightarrow> finding" where
  "check_error rule p m = \<lparr>dg_rule = rule, dg_start = diag_position p, dg_message = m, fi_step = None\<rparr>"

definition step_error :: "string \<Rightarrow> step \<Rightarrow> source_pos \<Rightarrow> check_msg \<Rightarrow> finding" where
  "step_error rule s p m = \<lparr>dg_rule = rule, dg_start = diag_position p, dg_message = m, fi_step = Some s\<rparr>"

text \<open>The findings of a rule package.\<close>

definition wrapped :: "('m \<Rightarrow> check_msg) \<Rightarrow> 'm diagnostic list \<Rightarrow> finding list" where
  "wrapped f ds = map (\<lambda>d. \<lparr>dg_rule = dg_rule d, dg_start = dg_start d, dg_message = f (dg_message d), fi_step = None\<rparr>) ds"

text \<open>The elements of a slice that may be nil.\<close>

definition elements :: "'a list option \<Rightarrow> 'a list" where
  "elements xs = (case xs of Some ys \<Rightarrow> ys | None \<Rightarrow> [])"

lemma elements_simps [simp]: "elements None = []" "elements (Some xs) = xs"
  by (simp_all add: elements_def)

definition option_findings :: "('a \<Rightarrow> 'b list) \<Rightarrow> 'a option \<Rightarrow> 'b list" where
  "option_findings f x = (case x of Some a \<Rightarrow> f a | None \<Rightarrow> [])"

lemma option_findings_simps [simp]: "option_findings f None = []" "option_findings f (Some a) = f a"
  by (simp_all add: option_findings_def)

subsection \<open>Events\<close>

abbreviation event_error :: "source_pos \<Rightarrow> event_msg \<Rightarrow> finding" where
  "event_error p m \<equiv> check_error ''events'' p (EventMsg m)"

text \<open>An interval below five minutes is reported.\<close>

definition checkCron :: "(string \<Rightarrow> string + (int \<Rightarrow> int)) \<Rightarrow> wstring \<Rightarrow> finding list" where
  "checkCron cron spec =
     (case cron (ws_value spec) of
        Inl err \<Rightarrow> [event_error (ws_pos spec) (InvalidCron (ws_value spec) err)]
      | Inr next_time \<Rightarrow>
          let start = next_time 0; diff = next_time start - start in
          if diff < 300 * 10 ^ 9 then [event_error (ws_pos spec) (TooFrequent diff)] else [])"

definition checkTimezone :: "(string \<Rightarrow> bool) \<Rightarrow> wstring \<Rightarrow> finding list" where
  "checkTimezone zones tz =
     (if ws_value tz \<noteq> [] \<and> \<not> equal_fold (ws_value tz) ''local'' \<and> zones (ws_value tz) then []
      else [event_error (ws_pos tz) (InvalidTimezone (ws_value tz))])"

definition filterNotAvailable :: "wstring \<Rightarrow> string \<Rightarrow> string list \<Rightarrow> finding" where
  "filterNotAvailable f hook available = event_error (ws_pos f) (FilterNotAvailable (ws_value f) hook available)"

definition checkExclusiveFilters :: "event_filter option \<Rightarrow> event_filter option \<Rightarrow> string \<Rightarrow> string list \<Rightarrow> finding list" where
  "checkExclusiveFilters f ignored hook available =
     (if hook \<in> set available then
        (if \<not> ef_IsEmpty f \<and> \<not> ef_IsEmpty ignored then
           let a = ef_name (the f); b = ef_name (the ignored);
               p = (if IsBefore (ws_pos a) (ws_pos b) then ws_pos b else ws_pos a)
           in [event_error p (ExclusiveFilters (ws_value a) (ws_value b) hook)]
         else [])
      else (if ef_IsEmpty f then [] else [filterNotAvailable (ef_name (the f)) hook available])
        @ (if ef_IsEmpty ignored then [] else [filterNotAvailable (ef_name (the ignored)) hook available]))"

definition checkTypes :: "source_pos \<Rightarrow> string \<Rightarrow> wstring list \<Rightarrow> string list \<Rightarrow> finding list" where
  "checkTypes pos hook types expected =
     (if expected = [] \<and> types \<noteq> [] then [event_error pos (TypesNotAvailable hook)]
      else map (\<lambda>t. event_error (ws_pos t) (InvalidActivity (ws_value t) hook (sort expected)))
        (filter (\<lambda>t. ws_value t \<notin> set expected) types))"

definition checkWebhookEvent :: "webhook_event \<Rightarrow> finding list" where
  "checkWebhookEvent e =
     (let hook = ws_value (we_hook e) in
      case map_of AllWebhookTypes hook of
        None \<Rightarrow> [event_error (we_pos e) (UnknownWebhook hook)]
      | Some types \<Rightarrow>
          checkTypes (ws_pos (we_hook e)) hook (we_types e) types
          @ (if hook = ''workflow_run'' then
               (if we_workflows e = [] then [event_error (we_pos e) NoWorkflowConfigured] else [])
             else if we_workflows e \<noteq> [] then [event_error (we_pos e) (WorkflowsNotAvailable hook)] else [])
          @ checkExclusiveFilters (we_paths e) (we_paths_ignore e) hook (EventsWithField ''paths'')
          @ checkExclusiveFilters (we_branches e) (we_branches_ignore e) hook (EventsWithField ''branches'')
          @ checkExclusiveFilters (we_tags e) (we_tags_ignore e) hook (EventsWithField ''tags''))"

text \<open>\<open>strconv.ParseFloat\<close> without an error, and the texts of booleans.\<close>

definition float_text :: "string \<Rightarrow> bool" where
  "float_text s \<longleftrightarrow> (case parse_float s of Some (_, ok) \<Rightarrow> ok | None \<Rightarrow> False)"

definition bool_text :: "string \<Rightarrow> bool" where
  "bool_text s \<longleftrightarrow> to_lower s = ''true'' \<or> to_lower s = ''false''"

definition check_call_input :: "call_input \<Rightarrow> finding list" where
  "check_call_input i =
     (case ci_default i of
        None \<Rightarrow> []
      | Some d \<Rightarrow>
          (if ws_ContainsExpression d then []
           else if ci_type i = CallNumber \<and> \<not> float_text (ws_value d)
           then [event_error (ws_pos d) (CallDefaultNotNumber (ws_value (ci_name i)) (ws_value d))]
           else if ci_type i = CallBoolean \<and> \<not> bool_text (ws_value d)
           then [event_error (ws_pos d) (CallDefaultNotBool (ws_value (ci_name i)) (ws_value d))]
           else [])
          @ (if ci_IsRequired i then [event_error (ws_pos d) (CallDefaultUnused (ws_value (ci_name i)) (ws_value d))] else []))"

definition checkWorkflowCallEvent :: "call_event \<Rightarrow> finding list" where
  "checkWorkflowCallEvent e = concat (map check_call_input (ce_inputs e))"

fun duplicate_options :: "string \<Rightarrow> string list \<Rightarrow> wstring list \<Rightarrow> finding list" where
  "duplicate_options n seen [] = []"
| "duplicate_options n seen (o' # os) =
     (if ws_value o' \<in> set seen
      then event_error (ws_pos o') (DuplicateOption (ws_value o') n) # duplicate_options n seen os
      else duplicate_options n (ws_value o' # seen) os)"

definition check_choice :: "string \<Rightarrow> dispatch_input \<Rightarrow> finding list" where
  "check_choice n i =
     (if di_options i = [] then [event_error (ws_pos (di_name i)) (ChoiceWithoutOptions n)]
      else duplicate_options n [] (di_options i)
        @ option_findings (\<lambda>d. if ws_value d \<in> ws_value ` set (di_options i) then []
            else [event_error (ws_pos d) (DefaultNotInOptions (ws_value d) n (map ws_value (di_options i)))]) (di_default i))"

definition check_no_choice :: "string \<Rightarrow> dispatch_input \<Rightarrow> finding list" where
  "check_no_choice n i =
     (if di_options i \<noteq> [] then [event_error (ws_pos (di_name i)) (OptionsNotAllowed n)] else [])
     @ option_findings (\<lambda>d.
         if di_type i = DispatchNumber \<and> \<not> float_text (ws_value d)
         then [event_error (ws_pos d) (DispatchDefaultNotNumber (ws_value (di_name i)) (ws_value d))]
         else if di_type i = DispatchBoolean \<and> \<not> bool_text (ws_value d)
         then [event_error (ws_pos d) (DispatchDefaultNotBool n (ws_value d))] else []) (di_default i)"

definition checkWorkflowDispatchEvent :: "(string \<times> dispatch_input) list \<Rightarrow> source_pos \<Rightarrow> finding list" where
  "checkWorkflowDispatchEvent inputs pos =
     concat (map (\<lambda>(n, i). if di_type i = DispatchChoice then check_choice n i else check_no_choice n i) inputs)
     @ (if 25 < length inputs then [event_error pos (TooManyInputs (length inputs))] else [])"

definition checkImageVersionEvent :: "image_event \<Rightarrow> finding list" where
  "checkImageVersionEvent e =
     checkTypes (ie_pos e) ''image_version'' (ie_types e)
       (case map_of AllWebhookTypes ''image_version'' of Some ts \<Rightarrow> ts | None \<Rightarrow> [])"

text \<open>The parser gives every schedule a cron text.\<close>

fun checkEvent :: "(string \<Rightarrow> string + (int \<Rightarrow> int)) \<Rightarrow> (string \<Rightarrow> bool) \<Rightarrow> wf_event \<Rightarrow> finding list" where
  "checkEvent cron zones (ScheduledEvent ss _) =
     concat (map (\<lambda>s. option_findings (checkCron cron) (sc_cron s) @ option_findings (checkTimezone zones) (sc_timezone s)) ss)"
| "checkEvent cron zones (WorkflowDispatchEvent ins p) = checkWorkflowDispatchEvent ins p"
| "checkEvent cron zones (RepositoryDispatchEvent _ _) = []"
| "checkEvent cron zones (WorkflowCallEvent e) = checkWorkflowCallEvent e"
| "checkEvent cron zones (WebhookEvent e) = checkWebhookEvent e"
| "checkEvent cron zones (ImageVersionEvent e) = checkImageVersionEvent e"

definition Events :: "(string \<Rightarrow> string + (int \<Rightarrow> int)) \<Rightarrow> (string \<Rightarrow> bool) \<Rightarrow> workflow \<Rightarrow> finding list" where
  "Events cron zones w = concat (map (checkEvent cron zones) (elements (wk_on w)))"

subsection \<open>Filter patterns\<close>

text \<open>The errors of a pattern at its place, and those of an evaluated one, which have no column.\<close>

definition glob_position :: "source_pos \<Rightarrow> bool \<Rightarrow> nat \<Rightarrow> source_pos" where
  "glob_position p is_quoted column =
     p\<lparr>at_col := at_col p + (if is_quoted then 1 else 0) + (if column \<noteq> 0 then int column - 1 else 0)\<rparr>"

definition globErrors :: "InvalidGlobPatternError list \<Rightarrow> source_pos \<Rightarrow> bool \<Rightarrow> finding list" where
  "globErrors errs p is_quoted =
     map (\<lambda>e. check_error ''glob'' (glob_position p is_quoted (ge_column e)) (GlobMsg (ge_message e))) errs"

definition without_column :: "InvalidGlobPatternError \<Rightarrow> InvalidGlobPatternError" where
  "without_column e = e\<lparr>ge_column := 0\<rparr>"

definition checkRefGlob :: "wstring option \<Rightarrow> finding list" where
  "checkRefGlob s = option_findings (\<lambda>v. if ws_value v = [] then []
     else globErrors (ValidateRefGlob (ws_value v)) (ws_pos v) (ws_quoted v)) s"

definition checkKnownRefGlob :: "json \<Rightarrow> source_pos \<Rightarrow> finding list" where
  "checkKnownRefGlob v pos =
     (case ScalarString v of
        None \<Rightarrow> []
      | Some pattern \<Rightarrow>
          if pattern = [] then [] else globErrors (map without_column (ValidateRefGlob pattern)) pos False)"

definition checkGitRefGlobs :: "event_filter option \<Rightarrow> finding list" where
  "checkGitRefGlobs f = option_findings (\<lambda>g. concat (map (\<lambda>v. checkRefGlob (Some v)) (ef_values g))) f"

definition checkFilePathGlobs :: "event_filter option \<Rightarrow> finding list" where
  "checkFilePathGlobs f = option_findings (\<lambda>g. concat (map (\<lambda>v. if ws_value v = [] then []
     else globErrors (ValidatePathGlob (ws_value v)) (ws_pos v) (ws_quoted v)) (ef_values g))) f"

text \<open>One name pattern: its findings, whether it is valid and whether it selects.\<close>

definition check_name_glob :: "wstring \<Rightarrow> finding list \<times> bool \<times> bool" where
  "check_name_glob name =
     (case known_pattern name of
        None \<Rightarrow> ([], False, False)
      | Some v \<Rightarrow>
          let evaluated = (literalExpressionValue (ws_value name) \<noteq> None) in
          if ValidPattern v then ([], True, \<not> has_prefix v ''!'')
          else if v = [] \<and> \<not> evaluated then ([], False, False)
          else
            let errs = Validate v False;
                place = (\<lambda>c. glob_position (ws_pos name) (ws_quoted name \<and> \<not> evaluated) (if evaluated then 0 else c))
            in (if errs = [] then [check_error ''glob'' (place 0) InvalidNamePattern]
                else map (\<lambda>e. check_error ''glob'' (place (ge_column e)) (GlobMsg (ge_message e))) errs, False, False))"

definition checkWorkflowNameGlobs :: "wstring list \<Rightarrow> finding list" where
  "checkWorkflowNameGlobs names =
     (let rs = map check_name_glob names in
      concat (map fst rs)
      @ (if names \<noteq> [] \<and> list_all (\<lambda>(fs, valid, positive). valid) rs \<and> \<not> list_ex (\<lambda>(fs, valid, positive). positive) rs
         then [check_error ''glob'' (ws_pos (hd names)) NoPositivePattern] else []))"

fun glob_event :: "wf_event \<Rightarrow> finding list" where
  "glob_event (WebhookEvent e) =
     checkGitRefGlobs (we_branches e) @ checkGitRefGlobs (we_branches_ignore e)
     @ checkGitRefGlobs (we_tags e) @ checkGitRefGlobs (we_tags_ignore e)
     @ checkFilePathGlobs (we_paths e) @ checkFilePathGlobs (we_paths_ignore e)
     @ checkWorkflowNameGlobs (we_workflows e)"
| "glob_event (ImageVersionEvent e) = concat (map (\<lambda>v. checkRefGlob (Some v)) (ie_versions e))"
| "glob_event _ = []"

definition GlobWorkflow :: "workflow \<Rightarrow> finding list" where
  "GlobWorkflow w = concat (map glob_event (elements (wk_on w)))"

definition GlobJob :: "wf_job \<Rightarrow> finding list" where
  "GlobJob j =
     option_findings (\<lambda>s.
       case sn_expression s of
         Some e \<Rightarrow>
           (case WorkflowExpressionLiteral e of
              Some (JObj members) \<Rightarrow> checkKnownRefGlob (json_property members ''version'') (ws_pos e)
            | _ \<Rightarrow> [])
       | None \<Rightarrow>
           (case sn_version s of
              Some v \<Rightarrow>
                if ws_ContainsExpression v then
                  (case WorkflowExpressionLiteral v of Some x \<Rightarrow> checkKnownRefGlob x (ws_pos v) | None \<Rightarrow> [])
                else checkRefGlob (Some v)
            | None \<Rightarrow> checkRefGlob None)) (wj_snapshot j)"

subsection \<open>Credentials\<close>

definition reportPassword :: "string \<Rightarrow> source_pos \<Rightarrow> finding list" where
  "reportPassword place p = [check_error ''credentials'' p (PasswordMsg place)]"

definition checkPasswordValue :: "string \<Rightarrow> json \<Rightarrow> source_pos \<Rightarrow> finding list" where
  "checkPasswordValue place v p =
     (case v of
        JStr s \<Rightarrow> if s = [] then [] else reportPassword place p
      | JNum _ \<Rightarrow> reportPassword place p
      | JBool _ \<Rightarrow> reportPassword place p
      | _ \<Rightarrow> [])"

definition checkCredentialsValue :: "string \<Rightarrow> json \<Rightarrow> source_pos \<Rightarrow> finding list" where
  "checkCredentialsValue place v p =
     (case v of JObj members \<Rightarrow> checkPasswordValue place (json_property members ''password'') p | _ \<Rightarrow> [])"

definition checkContainerValue :: "string \<Rightarrow> json \<Rightarrow> source_pos \<Rightarrow> finding list" where
  "checkContainerValue place v p =
     (case v of JObj members \<Rightarrow> checkCredentialsValue place (json_property members ''credentials'') p | _ \<Rightarrow> [])"

text \<open>A known value of an expression, checked.\<close>

definition literal_findings :: "(json \<Rightarrow> source_pos \<Rightarrow> finding list) \<Rightarrow> wstring \<Rightarrow> finding list" where
  "literal_findings f e = (case WorkflowExpressionLiteral e of Some v \<Rightarrow> f v (ws_pos e) | None \<Rightarrow> [])"

definition checkContainer :: "string \<Rightarrow> container \<Rightarrow> finding list" where
  "checkContainer place c =
     (case ct_expression c of
        Some e \<Rightarrow> literal_findings (checkContainerValue place) e
      | None \<Rightarrow>
          option_findings (\<lambda>cd.
            case cd_expression cd of
              Some e \<Rightarrow> literal_findings (checkCredentialsValue place) e
            | None \<Rightarrow>
                option_findings (\<lambda>p.
                  case WorkflowExpressionLiteral p of
                    Some v \<Rightarrow> checkPasswordValue place v (ws_pos p)
                  | None \<Rightarrow> if IsExprAssigned (ws_value p) then [] else reportPassword place (ws_pos p)) (cd_password cd))
            (ct_credentials c))"

text \<open>The quoted name of a service is its name here.\<close>

definition service_place :: "string \<Rightarrow> string" where
  "service_place name = name @ '' service''"

definition Credentials :: "wf_job \<Rightarrow> finding list" where
  "Credentials j =
     option_findings (checkContainer ''container section'') (wj_container j)
     @ option_findings (\<lambda>ss.
         option_findings (\<lambda>e.
           (case WorkflowExpressionLiteral e of
              Some (JObj services) \<Rightarrow> concat (map (\<lambda>(name, c). checkContainerValue (service_place name) c (ws_pos e)) services)
            | _ \<Rightarrow> [])) (ss_expression ss)
         @ concat (map (\<lambda>(k, s). checkContainer (service_place (ws_value (sv_name s))) (sv_container s)) (elements (ss_value ss))))
         (wj_services j)"

subsection \<open>Environment variables, conditions, permissions and IDs\<close>

text \<open>The entries of a declaration that have a name.\<close>

definition env_entries :: "env_decl \<Rightarrow> env_entry list" where
  "env_entries e =
     concat (map (\<lambda>x. case rk_name x of
         Some n \<Rightarrow> [\<lparr>en_name = ws_value n, en_state = KnownKey, en_start = diag_position (ws_pos n)\<rparr>]
       | None \<Rightarrow> []) (walk_entries (fst (Walk InputResolver (EnvMappingView e)))))"

definition environment_findings :: "env_decl option \<Rightarrow> finding list" where
  "environment_findings env = option_findings (\<lambda>e. wrapped EnvNameMsg (check_env_names (env_entries e))) env"

text \<open>\<open>CheckCondition\<close> always returns; \<open>same\<close> is the pointer equality of types.\<close>

definition conditional :: "(ty \<Rightarrow> ty \<Rightarrow> bool) \<Rightarrow> wstring option \<Rightarrow> finding list" where
  "conditional same c =
     option_findings (\<lambda>v. wrapped ConditionMsg (elements (CheckCondition same (ws_value v) (diag_position (ws_pos v))))) c"

definition perm_input :: "wstring \<Rightarrow> perm_value" where
  "perm_input s = \<lparr>pv_text = ws_value s, pv_start = diag_position (ws_pos s)\<rparr>"

definition permission_findings :: "permissions option \<Rightarrow> finding list" where
  "permission_findings p =
     option_findings (\<lambda>d. wrapped PermissionMsg (check_permissions
       \<lparr>pd_all = map_option perm_input (pm_all d),
        pd_scopes = map (\<lambda>(k, s). \<lparr>ps_name = perm_input (pv_name s), ps_level = perm_input (pv_value s)\<rparr>) (elements (pm_scopes d))\<rparr>)) p"

definition needs_name :: "wstring \<Rightarrow> job_name" where
  "needs_name s = \<lparr>jn_value = ws_value s, jn_start = diag_position (ws_pos s)\<rparr>"

text \<open>The jobs in the order of their positions; those at one position stay in the order of the map.\<close>

definition sorted_jobs :: "(string \<times> wf_job) list \<Rightarrow> wf_job list" where
  "sorted_jobs js = sort_key (\<lambda>j. [at_line (wj_pos j), at_col (wj_pos j)]) (map snd js)"

definition needs_findings :: "workflow \<Rightarrow> finding list" where
  "needs_findings w =
     wrapped NeedsMsg (check_needs
       (map (\<lambda>j. \<lparr>jb_id = needs_name (wj_id j), jb_needs = map needs_name (wj_needs j)\<rparr>) (sorted_jobs (elements (wk_jobs w)))))"

definition id_input :: "wstring \<Rightarrow> id_name" where
  "id_input s = \<lparr>id_value = ws_value s, id_dynamic = ws_ContainsExpression s, id_start = diag_position (ws_pos s)\<rparr>"

text \<open>The steps of a job in the order in which \<open>collect\<close> meets them: a group before its steps.\<close>

fun all_steps :: "step list \<Rightarrow> step list" where
  "all_steps [] = []"
| "all_steps (Step i e # ss) =
     Step i e # (case e of Some (ExecParallel (Some members)) \<Rightarrow> all_steps members | _ \<Rightarrow> []) @ all_steps ss"

definition steps_with_id :: "step list \<Rightarrow> (wstring \<times> step) list" where
  "steps_with_id ss = concat (map (\<lambda>s. case st_id (step_info s) of Some n \<Rightarrow> [(n, s)] | None \<Rightarrow> []) (all_steps ss))"

definition identifier_findings :: "wf_job \<Rightarrow> finding list" where
  "identifier_findings j =
     (let steps = steps_with_id (elements (wj_steps j));
          owners = fold (\<lambda>(n, s). al_put (diag_position (ws_pos n)) s) steps [];
          input = \<lparr>ij_id = Some (id_input (wj_id j)), ij_needs = map id_input (wj_needs j), ij_steps = map (id_input \<circ> fst) steps\<rparr>
      in map (\<lambda>f. f\<lparr>fi_step := map_of owners (dg_start f)\<rparr>) (wrapped IdMsg (check_identifiers input)))"

subsection \<open>Parallel steps\<close>

abbreviation parallel_error :: "step \<Rightarrow> source_pos \<Rightarrow> parallel_msg \<Rightarrow> finding" where
  "parallel_error s p m \<equiv> step_error ''parallel-steps'' s p (ParallelMsg m)"

definition isBackgroundStep :: "step \<Rightarrow> bool" where
  "isBackgroundStep s \<longleftrightarrow> (case st_background (step_info s) of None \<Rightarrow> False | Some b \<Rightarrow> wb_expr b \<noteq> None \<or> wb_value b)"

definition checkRef :: "string set \<Rightarrow> step \<Rightarrow> wstring \<Rightarrow> finding list" where
  "checkRef background s ref =
     (if ws_value ref = [] \<or> ws_ContainsExpression ref \<or> to_lower (ws_value ref) \<in> background then []
      else [parallel_error s (ws_pos ref) (NotBackgroundStep (ws_value ref))])"

text \<open>The findings for the steps of a group belong to the group.\<close>

definition check_child :: "step \<Rightarrow> step \<Rightarrow> finding list" where
  "check_child owner s =
     option_findings (\<lambda>b. [parallel_error owner (wb_pos b) BackgroundInParallel]) (st_background (step_info s))
     @ (case step_exec s of
          Some (ExecWait w) \<Rightarrow> [parallel_error owner (st_pos (step_info s)) (NotInParallel (if ew_all w then ''wait-all'' else ''wait''))]
        | Some (ExecCancel _) \<Rightarrow> [parallel_error owner (st_pos (step_info s)) (NotInParallel ''cancel'')]
        | Some (ExecParallel _) \<Rightarrow> [parallel_error owner (st_pos (step_info s)) NestedParallel]
        | _ \<Rightarrow> [])"

text \<open>
  \<open>checkStep\<close>: the findings and the IDs of background steps afterwards. The set \<open>inParallel\<close> of
  steps is the flag \<open>grouped\<close>: a step is in it when \<open>visit\<close> comes to it exactly if it is a child of
  a group, as the parser makes a step of its own for every node.
\<close>

definition background_after :: "bool \<Rightarrow> step \<Rightarrow> string set \<Rightarrow> string set" where
  "background_after grouped s background =
     (case st_id (step_info s) of
        Some n \<Rightarrow>
          if \<not> grouped \<and> \<not> ws_ContainsExpression n \<and> isBackgroundStep s then insert (to_lower (ws_value n)) background
          else background
      | None \<Rightarrow> background)"

definition checkStep :: "bool \<Rightarrow> string set \<Rightarrow> step \<Rightarrow> finding list" where
  "checkStep grouped background s =
     (case step_exec s of
        Some (ExecWait w) \<Rightarrow> if grouped then [] else concat (map (checkRef background s) (ew_names w))
      | Some (ExecCancel n) \<Rightarrow> if grouped then [] else option_findings (checkRef background s) n
      | Some (ExecParallel members) \<Rightarrow> concat (map (check_child s) (elements members))
      | _ \<Rightarrow> [])"

text \<open>The steps in the order in which \<open>visit\<close> comes to them, with the flag.\<close>

fun flat_steps :: "bool \<Rightarrow> step list \<Rightarrow> (bool \<times> step) list" where
  "flat_steps grouped [] = []"
| "flat_steps grouped (Step i e # ss) =
     (grouped, Step i e) # (case e of Some (ExecParallel (Some members)) \<Rightarrow> flat_steps True members | _ \<Rightarrow> [])
     @ flat_steps grouped ss"

definition visit_parallel :: "bool \<times> step \<Rightarrow> finding list \<times> string set \<Rightarrow> finding list \<times> string set" where
  "visit_parallel = (\<lambda>(grouped, s) (out, background).
     (out @ checkStep grouped background s, background_after grouped s background))"

definition ParallelSteps :: "wf_job \<Rightarrow> finding list" where
  "ParallelSteps j = fst (fold visit_parallel (flat_steps False (elements (wj_steps j))) ([], {}))"

subsection \<open>Commit hashes\<close>

definition hex_char :: "char \<Rightarrow> bool" where
  "hex_char c \<longleftrightarrow> CHR ''0'' \<le> c \<and> c \<le> CHR ''9'' \<or> CHR ''a'' \<le> c \<and> c \<le> CHR ''f'' \<or> CHR ''A'' \<le> c \<and> c \<le> CHR ''F''"

text \<open>The regular expressions \<open>reCommitSHA\<close> and \<open>reImageDigest\<close>, whole texts.\<close>

definition reCommitSHA :: "string \<Rightarrow> bool" where
  "reCommitSHA s \<longleftrightarrow> list_all hex_char s \<and> (length s = 40 \<or> length s = 64)"

definition digest_char :: "char \<Rightarrow> bool" where
  "digest_char c \<longleftrightarrow> CHR ''a'' \<le> c \<and> c \<le> CHR ''z'' \<or> CHR ''0'' \<le> c \<and> c \<le> CHR ''9''"

text \<open>\<open>[a-z0-9]+(?:[+._-][a-z0-9]+)*\<close>: no separator at an end or next to another one.\<close>

fun digest_algorithm :: "bool \<Rightarrow> string \<Rightarrow> bool" where
  "digest_algorithm word [] = word"
| "digest_algorithm word (c # cs) =
     (if digest_char c then digest_algorithm True cs else c \<in> set ''+._-'' \<and> word \<and> digest_algorithm False cs)"

definition reImageDigest :: "string \<Rightarrow> bool" where
  "reImageDigest s \<longleftrightarrow>
     (case cut_char CHR '':'' s of
        None \<Rightarrow> False
      | Some (algorithm, digits) \<Rightarrow> digest_algorithm False algorithm \<and> 32 \<le> length digits \<and> list_all hex_char digits)"

definition actionUsesRepoRef :: "string \<Rightarrow> string option" where
  "actionUsesRepoRef spec =
     (if has_prefix spec ''./'' \<or> has_prefix spec ''$/'' then None
      else case SplitAction spec of
        Inl _ \<Rightarrow> None
      | Inr (owner, repo, ref) \<Rightarrow> if owner = [] \<or> repo = [] \<or> ref = [] then None else Some ref)"

abbreviation commit_error :: "source_pos \<Rightarrow> check_msg \<Rightarrow> finding" where
  "commit_error \<equiv> check_error ''require-commit-hash''"

definition checkImageDigest :: "string \<Rightarrow> wstring \<Rightarrow> finding list" where
  "checkImageDigest docker uses =
     (if has_suffix docker '':'' then []
      else case cut_char CHR ''@'' docker of
        Some (_, digest) \<Rightarrow> if reImageDigest digest then [] else [commit_error (ws_pos uses) (NotDigest (ws_value uses))]
      | None \<Rightarrow> [commit_error (ws_pos uses) (NotDigest (ws_value uses))])"

definition CommitHashStep :: "step \<Rightarrow> (string \<Rightarrow> bool) \<Rightarrow> finding list" where
  "CommitHashStep s excluded =
     (case step_exec s of
        Some (ExecAction a) \<Rightarrow>
          (case ea_uses a of
             None \<Rightarrow> []
           | Some uses \<Rightarrow>
               let u = ws_value uses in
               if ws_ContainsExpression uses \<or> excluded u then []
               else if has_prefix u ''docker://'' then checkImageDigest (drop 9 u) uses
               else case actionUsesRepoRef u of
                   None \<Rightarrow> []
                 | Some ref \<Rightarrow> if reCommitSHA ref then [] else [commit_error (ws_pos uses) (NotCommitSHA ref u)])
      | _ \<Rightarrow> [])"

definition CommitHashJob :: "wf_job \<Rightarrow> (string \<Rightarrow> bool) \<Rightarrow> finding list" where
  "CommitHashJob j excluded =
     (case wj_workflow_call j of
        None \<Rightarrow> []
      | Some c \<Rightarrow>
          (case wc_uses c of
             None \<Rightarrow> []
           | Some uses \<Rightarrow>
               let u = ws_value uses in
               if u = [] \<or> ws_ContainsExpression uses \<or> excluded u then []
               else case WorkflowRef u of
                   None \<Rightarrow> []
                 | Some ref \<Rightarrow> if reCommitSHA ref then [] else [commit_error (ws_pos uses) (RefNotSHA ref u)]))"

subsection \<open>Required actions\<close>

definition matchGlob :: "string \<Rightarrow> string \<Rightarrow> bool" where
  "matchGlob pattern v \<longleftrightarrow> path_match pattern v = Some True"

record action_use =
  au_spec :: string
  au_name :: string
  au_ref :: string
  au_pos :: source_pos

text \<open>The position of the first job that has steps of its own.\<close>

definition firstStepsJobPos :: "workflow \<Rightarrow> source_pos option" where
  "firstStepsJobPos w =
     fold (\<lambda>(k, j) best.
         if wj_workflow_call j \<noteq> None then best
         else case best of
             None \<Rightarrow> Some (wj_pos j)
           | Some p \<Rightarrow> if IsBefore (wj_pos j) p then Some (wj_pos j) else best)
       (elements (wk_jobs w)) None"

text \<open>The invocation of an action in a step, \<open>None\<close> if there is none or its text is not known.\<close>

definition step_uses :: "step \<Rightarrow> wstring option" where
  "step_uses s = (case step_exec s of Some (ExecAction a) \<Rightarrow> ea_uses a | _ \<Rightarrow> None)"

definition action_uses :: "workflow \<Rightarrow> wstring list" where
  "action_uses w =
     concat (map (\<lambda>(k, j). concat (map (\<lambda>s. case step_uses s of Some u \<Rightarrow> [u] | None \<Rightarrow> [])
       (all_steps (elements (wj_steps j))))) (elements (wk_jobs w)))"

definition action_use_of :: "wstring \<Rightarrow> action_use" where
  "action_use_of u =
     \<lparr>au_spec = ws_value u, au_name = fst (SplitRef (ws_value u)), au_ref = snd (SplitRef (ws_value u)), au_pos = ws_pos u\<rparr>"

definition same_action :: "string \<Rightarrow> action_use \<Rightarrow> bool" where
  "same_action required u \<longleftrightarrow> matchGlob (to_lower (fst (SplitRef required))) (to_lower (au_name u))"

definition same_ref :: "string \<Rightarrow> action_use \<Rightarrow> bool" where
  "same_ref required u \<longleftrightarrow> snd (SplitRef required) = [] \<or> matchGlob (snd (SplitRef required)) (au_ref u)"

text \<open>The first one in the file, of those at one position the first one found.\<close>

definition nearest_use :: "action_use list \<Rightarrow> action_use option" where
  "nearest_use us = fold (\<lambda>u best. case best of
       None \<Rightarrow> Some u
     | Some v \<Rightarrow> if IsBefore (au_pos u) (au_pos v) then Some u else best) us None"

definition report_required :: "source_pos \<Rightarrow> action_use list \<Rightarrow> string \<Rightarrow> finding list" where
  "report_required pos uses required =
     (let named = filter (same_action required) uses in
      if list_ex (same_ref required) named then []
      else [check_error ''required-actions'' pos
        (MissingAction required (map_option (\<lambda>u. (au_spec u, au_pos u)) (nearest_use named)))])"

definition RequiredActions :: "workflow \<Rightarrow> string list \<Rightarrow> finding list" where
  "RequiredActions w required =
     (case firstStepsJobPos w of
        None \<Rightarrow> []
      | Some pos \<Rightarrow>
          if list_ex ws_ContainsExpression (action_uses w) then []
          else concat (map (report_required pos (map action_use_of (action_uses w))) required))"

subsection \<open>Required permissions and timeouts\<close>

definition RequiredWorkflowPermissions :: "workflow \<Rightarrow> string \<Rightarrow> finding list" where
  "RequiredWorkflowPermissions w scope =
     (if scope = ''workflow'' \<and> wk_permissions w = None
      then [check_error ''require-permissions'' (case wk_pos w of Some p \<Rightarrow> p | None \<Rightarrow> \<lparr>at_line = 1, at_col = 1\<rparr>)
        MissingWorkflowPermissions]
      else [])"

definition RequiredJobPermissions :: "wf_job \<Rightarrow> string \<Rightarrow> finding list" where
  "RequiredJobPermissions j scope =
     (if scope = ''job'' \<and> wj_permissions j = None
      then [check_error ''require-permissions'' (wj_pos j) (MissingJobPermissions (ws_value (wj_id j)))] else [])"

record timeout_policy =
  tp_enabled :: bool
  tp_min :: "f64 option"
  tp_max :: "f64 option"

abbreviation timeout_error :: "source_pos \<Rightarrow> check_msg \<Rightarrow> finding" where
  "timeout_error \<equiv> check_error ''require-job-timeout''"

definition JobTimeout :: "wf_job \<Rightarrow> timeout_policy \<Rightarrow> finding list" where
  "JobTimeout j policy =
     (let name = ws_value (wj_id j) in
      if \<not> tp_enabled policy \<or> wj_workflow_call j \<noteq> None \<or> wj_steps j = None then []
      else case wj_timeout j of
          None \<Rightarrow> [timeout_error (wj_pos j) (MissingTimeout name)]
        | Some t \<Rightarrow>
            if wf_expr t \<noteq> None then []
            else option_findings (\<lambda>limit. if f64_less (wf_value t) limit
                then [timeout_error (wf_pos t) (TimeoutTooSmall (wf_value t) name limit)] else []) (tp_min policy)
              @ option_findings (\<lambda>limit. if f64_less limit (wf_value t)
                then [timeout_error (wf_pos t) (TimeoutTooLarge (wf_value t) name limit)] else []) (tp_max policy))"

subsection \<open>The checks by name\<close>

definition Declaration_Workflow ::
    "(string \<Rightarrow> string + (int \<Rightarrow> int)) \<Rightarrow> (string \<Rightarrow> bool) \<Rightarrow> string \<Rightarrow> workflow \<Rightarrow> finding list" where
  "Declaration_Workflow cron zones name w =
     (if name = ''events'' then Events cron zones w
      else if name = ''glob'' then GlobWorkflow w
      else if name = ''env-var'' then environment_findings (wk_env w)
      else if name = ''permissions'' then permission_findings (wk_permissions w)
      else if name = ''job-needs'' then needs_findings w
      else [])"

definition Declaration_Job :: "(ty \<Rightarrow> ty \<Rightarrow> bool) \<Rightarrow> string \<Rightarrow> wf_job \<Rightarrow> finding list" where
  "Declaration_Job same name j =
     (if name = ''credentials'' then Credentials j
      else if name = ''glob'' then GlobJob j
      else if name = ''parallel-steps'' then ParallelSteps j
      else if name = ''env-var'' then
        environment_findings (wj_env j)
        @ option_findings (\<lambda>c. environment_findings (ct_env c)) (wj_container j)
        @ option_findings (\<lambda>ss. concat (map (\<lambda>(k, s). environment_findings (ct_env (sv_container s))) (elements (ss_value ss))))
            (wj_services j)
      else if name = ''permissions'' then permission_findings (wj_permissions j)
      else if name = ''if-cond'' then
        conditional same (wj_if j) @ option_findings (\<lambda>s. conditional same (sn_if s)) (wj_snapshot j)
      else if name = ''id'' then identifier_findings j
      else [])"

definition Declaration_Step :: "(ty \<Rightarrow> ty \<Rightarrow> bool) \<Rightarrow> string \<Rightarrow> step \<Rightarrow> finding list" where
  "Declaration_Step same name s =
     (if name = ''env-var'' then environment_findings (st_env (step_info s))
      else if name = ''if-cond'' then conditional same (st_if (step_info s))
      else [])"

end
