(* ===== verification/Checks_Spec.thy ===== *)
theory Checks_Spec
  imports Workflow_Checks "HOL-Library.Multiset"
begin

text \<open>
  What the declaration checks promise: a job without a finding of the parallel rule refers to earlier
  background steps only, an event without a finding is one the trigger tables allow, a literal
  required action is missing exactly if no step uses it, and name patterns select what they spell.
\<close>

subsection \<open>Parallel steps\<close>

definition step_refs :: "step \<Rightarrow> wstring list" where
  "step_refs s =
     (case step_exec s of Some (ExecWait w) \<Rightarrow> ew_names w | Some (ExecCancel (Some n)) \<Rightarrow> [n] | _ \<Rightarrow> [])"

definition group_members :: "step \<Rightarrow> step list" where
  "group_members s = (case step_exec s of Some (ExecParallel ms) \<Rightarrow> elements ms | _ \<Rightarrow> [])"

definition static_ref :: "wstring \<Rightarrow> bool" where
  "static_ref r \<longleftrightarrow> ws_value r \<noteq> [] \<and> \<not> ws_ContainsExpression r"

text \<open>The IDs, in lower case, of the steps that run in the background.\<close>

definition background_names :: "step list \<Rightarrow> string set" where
  "background_names ss = {to_lower (ws_value n) | s n. s \<in> set ss \<and> st_id (step_info s) = Some n
     \<and> \<not> ws_ContainsExpression n \<and> isBackgroundStep s}"

definition plain_child :: "step \<Rightarrow> bool" where
  "plain_child c \<longleftrightarrow> st_background (step_info c) = None
     \<and> (case step_exec c of None \<Rightarrow> True | Some e \<Rightarrow> Kind e = ExecKindRun \<or> Kind e = ExecKindAction)"

lemma check_child_clean: "check_child g c = [] \<longleftrightarrow> plain_child c"
  by (auto simp: check_child_def plain_child_def option_findings_def split: option.splits exec.splits)

definition refs_ok :: "string set \<Rightarrow> step \<Rightarrow> bool" where
  "refs_ok b s \<longleftrightarrow> (\<forall>r\<in>set (step_refs s). static_ref r \<longrightarrow> to_lower (ws_value r) \<in> b)"

lemma checkStep_top:
  "checkStep False b s = [] \<longleftrightarrow> refs_ok b s \<and> list_all plain_child (group_members s)"
  by (auto simp: checkStep_def refs_ok_def step_refs_def group_members_def checkRef_def static_ref_def check_child_clean
      list_all_iff option_findings_def split: option.splits exec.splits if_splits)

lemma plain_child_clean: "plain_child c \<Longrightarrow> checkStep True b c = []"
  by (auto simp: checkStep_def plain_child_def split: option.splits exec.splits)

lemma background_after_names: "background_after False s b = b \<union> background_names [s]"
  by (auto simp: background_after_def background_names_def split: option.splits)

lemma background_after_grouped: "background_after True s b = b"
  by (auto simp: background_after_def split: option.splits)

lemma background_names_Cons: "background_names (s # ss) = background_names [s] \<union> background_names ss"
  by (auto simp: background_names_def)

fun steps_clean :: "string set \<Rightarrow> (bool \<times> step) list \<Rightarrow> bool" where
  "steps_clean b [] = True"
| "steps_clean b ((g, s) # xs) = (checkStep g b s = [] \<and> steps_clean (background_after g s b) xs)"

lemma visit_clean: "fst (fold visit_parallel xs (out, b)) = [] \<longleftrightarrow> out = [] \<and> steps_clean b xs"
proof (induction xs arbitrary: out b)
  case (Cons x xs)
  then show ?case by (cases x) (auto simp: visit_parallel_def)
qed simp

lemma flat_plain: "list_all plain_child ms \<Longrightarrow> flat_steps g ms = map (Pair g) ms"
proof (induction ms)
  case (Cons m ms)
  then show ?case by (cases m) (auto simp: plain_child_def split: option.splits exec.splits)
qed simp

lemma steps_clean_plain: "list_all plain_child ms \<Longrightarrow> steps_clean b (map (Pair True) ms @ xs) = steps_clean b xs"
  by (induction ms) (auto simp: plain_child_clean background_after_grouped)

fun steps_ok :: "string set \<Rightarrow> step list \<Rightarrow> bool" where
  "steps_ok b [] = True"
| "steps_ok b (s # ss) = (refs_ok b s \<and> list_all plain_child (group_members s) \<and> steps_ok (b \<union> background_names [s]) ss)"

lemma steps_clean_flat: "steps_clean b (flat_steps False ss) = steps_ok b ss"
proof (induction ss arbitrary: b)
  case (Cons s ss)
  obtain i e where s: "s = Step i e" by (cases s)
  have "flat_steps False (s # ss) = (False, s) # flat_steps True (group_members s) @ flat_steps False ss"
    by (auto simp: s group_members_def split: option.split exec.split)
  note flat = this
  show ?case
  proof (cases "list_all plain_child (group_members s)")
    case True
    then show ?thesis
      unfolding flat by (simp add: checkStep_top flat_plain [OF True] steps_clean_plain [OF True] background_after_names Cons.IH)
  next
    case False
    then show ?thesis unfolding flat by (simp add: checkStep_top)
  qed
qed simp

lemma all_splits_Cons:
  "(\<forall>pre s post. x # ss = pre @ s # post \<longrightarrow> P pre s) \<longleftrightarrow> P [] x \<and> (\<forall>pre s post. ss = pre @ s # post \<longrightarrow> P (x # pre) s)"
  by (simp only: Cons_eq_append_conv) blast

lemma steps_ok_prefixes:
  "steps_ok b ss \<longleftrightarrow> (\<forall>pre s post. ss = pre @ s # post \<longrightarrow> refs_ok (b \<union> background_names pre) s \<and> list_all plain_child (group_members s))"
proof (induction ss arbitrary: b)
  case (Cons x ss)
  have "background_names [] = {}" by (simp add: background_names_def)
  moreover have "b \<union> background_names [x] \<union> background_names pre = b \<union> background_names (x # pre)" for pre
    using background_names_Cons [of x pre] by blast
  ultimately show ?case unfolding all_splits_Cons by (simp add: Cons)
qed simp

text \<open>
  (C19) The parallel rule is exact: it reports nothing for a job if and only if every static reference of
  a \<open>wait\<close> or \<open>cancel\<close> step names, whatever the case, a background step before it in the job, and
  every group of parallel steps holds \<open>run\<close> and \<open>uses\<close> steps without a \<open>background\<close> key only.
\<close>

theorem parallel_clean_iff:
  "ParallelSteps j = [] \<longleftrightarrow>
     (\<forall>pre s post. elements (wj_steps j) = pre @ s # post \<longrightarrow>
        (\<forall>r\<in>set (step_refs s). static_ref r \<longrightarrow> to_lower (ws_value r) \<in> background_names pre)
        \<and> list_all plain_child (group_members s))"
  by (simp add: ParallelSteps_def visit_clean steps_clean_flat steps_ok_prefixes refs_ok_def)

text \<open>A job whose second step waits for the first one, written in another case.\<close>

definition plain_step :: step_info where
  "plain_step = \<lparr>st_id = None, st_if = None, st_name = None, st_declared_uses = None, st_env = None, st_continue_on_error = None,
     st_timeout = None, st_background = None, st_pos = \<lparr>at_line = 5, at_col = 5\<rparr>\<rparr>"

definition plain_string :: "string \<Rightarrow> wstring" where
  "plain_string s = \<lparr>ws_value = s, ws_quoted = False, ws_pos = \<lparr>at_line = 5, at_col = 9\<rparr>\<rparr>"

definition plain_job :: "step list \<Rightarrow> wf_job" where
  "plain_job ss = \<lparr>wj_id = plain_string ''a'', wj_name = None, wj_needs = [], wj_runs_on = None, wj_permissions = None,
     wj_cache_mode = None, wj_environment = None, wj_concurrency = None, wj_outputs = [], wj_env = None, wj_defaults = None,
     wj_if = None, wj_steps = Some ss, wj_timeout = None, wj_cancel_timeout = None, wj_strategy = None, wj_continue_on_error = None,
     wj_container = None, wj_services = None, wj_workflow_call = None, wj_declared_uses = None, wj_snapshot = None,
     wj_pos = \<lparr>at_line = 3, at_col = 3\<rparr>\<rparr>"

definition waiting_job :: wf_job where
  "waiting_job = plain_job
     [Step (plain_step\<lparr>st_id := Some (plain_string ''db''), st_background := Some \<lparr>wb_value = True, wb_expr = None, wb_pos = \<lparr>at_line = 5, at_col = 9\<rparr>\<rparr>\<rparr>) None,
      Step plain_step (Some (ExecWait \<lparr>ew_names = [plain_string ''DB''], ew_all = False, ew_all_pos = None\<rparr>))]"

definition sample_workflow :: "(string \<times> wf_job) list \<Rightarrow> workflow" where
  "sample_workflow js = \<lparr>wk_sources = [], wk_name = None, wk_description = None, wk_run_name = None, wk_on = None,
     wk_permissions = None, wk_cache_mode = None, wk_env = None, wk_defaults = None, wk_concurrency = None,
     wk_jobs = Some js, wk_pos = None\<rparr>"

definition sample_use :: "string \<Rightarrow> exec_action" where
  "sample_use u = \<lparr>ea_uses = Some (plain_string u), ea_inputs = [], ea_expression = None, ea_insertions = [],
     ea_entrypoint = None, ea_args = None, ea_entrypoint_evaluated = False, ea_args_evaluated = False, ea_name_expressions = []\<rparr>"

theorem parallel_clean_iff_witness:
  "ParallelSteps waiting_job = []
   \<and> to_lower ''DB'' \<in> background_names [hd (elements (wj_steps waiting_job))]"
proof -
  have clean: "ParallelSteps waiting_job = []" by code_simp
  let ?s = "Step plain_step (Some (ExecWait \<lparr>ew_names = [plain_string ''DB''], ew_all = False, ew_all_pos = None\<rparr>))"
  have "elements (wj_steps waiting_job) = [hd (elements (wj_steps waiting_job))] @ ?s # []"
    by (simp add: waiting_job_def plain_job_def)
  with parallel_clean_iff [of waiting_job, THEN iffD1, OF clean]
  have "\<forall>r\<in>set (step_refs ?s). static_ref r \<longrightarrow> to_lower (ws_value r) \<in> background_names [hd (elements (wj_steps waiting_job))]"
    by blast
  moreover have "plain_string ''DB'' \<in> set (step_refs ?s)" by (simp add: step_refs_def)
  moreover have "static_ref (plain_string ''DB'')" "ws_value (plain_string ''DB'') = ''DB''" by code_simp+
  ultimately show ?thesis using clean by metis
qed

subsection \<open>Events\<close>

lemma EventsWithField_iff: "hook \<in> set (EventsWithField field) \<longleftrightarrow> field \<in> set (Fields hook)"
proof -
  have d: "distinct (map fst triggerFields)" by code_simp
  have "hook \<in> set (EventsWithField field) \<longleftrightarrow> (\<exists>fs. (hook, fs) \<in> set triggerFields \<and> field \<in> set fs)"
    by (force simp: EventsWithField_def)
  also have "\<dots> \<longleftrightarrow> (\<exists>fs. map_of triggerFields hook = Some fs \<and> field \<in> set fs)"
    using map_of_eq_Some_iff [OF d] by simp
  also have "\<dots> \<longleftrightarrow> field \<in> set (Fields hook)"
    by (cases "map_of triggerFields hook") (simp_all add: Fields_def)
  finally show ?thesis .
qed

definition filter_fits :: "string \<Rightarrow> string \<Rightarrow> event_filter option \<Rightarrow> event_filter option \<Rightarrow> bool" where
  "filter_fits hook field f ignored \<longleftrightarrow>
     (ef_IsEmpty f \<or> ef_IsEmpty ignored) \<and> (ef_IsEmpty f \<and> ef_IsEmpty ignored \<or> field \<in> set (Fields hook))"

lemma exclusive_clean:
  "checkExclusiveFilters f ignored hook (EventsWithField field) = [] \<longleftrightarrow> filter_fits hook field f ignored"
  by (auto simp: checkExclusiveFilters_def filter_fits_def EventsWithField_iff Let_def)

lemma types_clean: "checkTypes p hook types expected = [] \<longleftrightarrow> (\<forall>t\<in>set types. ws_value t \<in> set expected)"
  by (cases types) (auto simp: checkTypes_def filter_empty_conv)

text \<open>
  (C39) Webhook events without a finding fit the trigger tables: if the rule reports nothing for a
  workflow then each webhook event is a known trigger, its activity types are among those of the
  trigger, it names workflows exactly if it is \<open>workflow_run\<close>, and a filter for paths, branches or
  tags is one the trigger has and does not occur together with its negation.
\<close>

theorem events_fit_tables:
  assumes "Events cron zones w = []" and "WebhookEvent e \<in> set (elements (wk_on w))"
  shows "let hook = ws_value (we_hook e) in
    (\<exists>types. map_of AllWebhookTypes hook = Some types \<and> ws_value ` set (we_types e) \<subseteq> set types)
    \<and> (we_workflows e \<noteq> [] \<longleftrightarrow> hook = ''workflow_run'')
    \<and> filter_fits hook ''paths'' (we_paths e) (we_paths_ignore e)
    \<and> filter_fits hook ''branches'' (we_branches e) (we_branches_ignore e)
    \<and> filter_fits hook ''tags'' (we_tags e) (we_tags_ignore e)"
proof -
  have "checkWebhookEvent e = []" using assms by (auto simp: Events_def)
  then show ?thesis
    by (auto simp: checkWebhookEvent_def Let_def exclusive_clean types_clean split: option.splits if_splits)
qed

definition branch_push :: webhook_event where
  "branch_push = \<lparr>we_hook = plain_string ''push'', we_types = [], we_branches = Some \<lparr>ef_name = plain_string ''branches'',
     ef_values = [plain_string ''main'']\<rparr>, we_branches_ignore = None, we_tags = None, we_tags_ignore = None, we_paths = None,
     we_paths_ignore = None, we_workflows = [], we_pos = \<lparr>at_line = 1, at_col = 1\<rparr>\<rparr>"

theorem events_fit_tables_witness:
  "filter_fits ''push'' ''branches'' (we_branches branch_push) None"
proof -
  let ?w = "(sample_workflow [])\<lparr>wk_on := Some [WebhookEvent branch_push]\<rparr>"
  have "Events (\<lambda>_. Inl []) (\<lambda>_. False) ?w = []" "WebhookEvent branch_push \<in> set (elements (wk_on ?w))" by code_simp+
  from events_fit_tables [OF this] show ?thesis by (simp add: Let_def branch_push_def plain_string_def)
qed

text \<open>A schedule that never fires: the cron parser gives the zero time for every time.\<close>

lemma never_scheduled_too_frequent:
  "cron (ws_value spec) = Inr (\<lambda>_. z) \<Longrightarrow> checkCron cron spec = [event_error (ws_pos spec) (TooFrequent 0)]"
  by (simp add: checkCron_def)

subsection \<open>Required actions\<close>

lemma glob_literal_rn: "glob_literal c \<longleftrightarrow> rn c \<notin> {92, 42, 63, 91}"
  by (simp add: glob_literal_def rn_eq_iff [symmetric])

lemma lower_literal: "glob_literal (lower_char c) \<longleftrightarrow> glob_literal c"
proof (cases "65 \<le> rn c \<and> rn c \<le> 90")
  case True
  then have "rn (lower_char c) = rn c + 32" by (simp add: lower_char_def)
  then show ?thesis using True by (auto simp: glob_literal_rn)
next
  case False
  then have "lower_char c = c" unfolding lower_char_def by (simp only: if_False)
  then show ?thesis by simp
qed

definition literal_reference :: "string \<Rightarrow> bool" where
  "literal_reference r \<longleftrightarrow> list_all glob_literal (fst (SplitRef r)) \<and> list_all glob_literal (snd (SplitRef r))"

definition uses_action :: "string \<Rightarrow> wstring \<Rightarrow> bool" where
  "uses_action required u \<longleftrightarrow>
     to_lower (fst (SplitRef (ws_value u))) = to_lower (fst (SplitRef required))
     \<and> (snd (SplitRef required) = [] \<or> snd (SplitRef (ws_value u)) = snd (SplitRef required))"

lemma same_literal:
  "literal_reference r \<Longrightarrow> same_action r (action_use_of u) \<and> same_ref r (action_use_of u) \<longleftrightarrow> uses_action r u"
proof -
  assume r: "literal_reference r"
  then have "list_all glob_literal (to_lower (fst (SplitRef r)))"
    by (simp add: literal_reference_def to_lower_def list_all_iff lower_literal)
  then show ?thesis
    using r by (auto simp: same_action_def same_ref_def matchGlob_def path_match_literal uses_action_def action_use_of_def literal_reference_def)
qed

text \<open>
  (C38) Required actions without wildcards: for a workflow with a job that has steps, and no action whose
  name is an expression, a required action is reported exactly if no step at any depth uses it, up
  to the case of its name, with the required ref.
\<close>

theorem required_action_iff:
  assumes "firstStepsJobPos w = Some pos" and "\<not> list_ex ws_ContainsExpression (action_uses w)" and "literal_reference required"
  shows "RequiredActions w [required] = [] \<longleftrightarrow> list_ex (uses_action required) (action_uses w)"
proof -
  have "list_ex (same_ref required) (filter (same_action required) (map action_use_of (action_uses w)))
      \<longleftrightarrow> list_ex (uses_action required) (action_uses w)"
    using same_literal [OF assms(3)] by (auto simp: list_ex_iff)
  then show ?thesis using assms(1,2) by (simp add: RequiredActions_def report_required_def Let_def)
qed

theorem required_action_iff_witness:
  "let w = sample_workflow [(''a'', plain_job [Step plain_step (Some (ExecAction (sample_use ''Actions/Checkout@v4'')))])]
   in RequiredActions w [''actions/checkout@v4''] = [] \<and> RequiredActions w [''actions/cache''] \<noteq> []"
proof -
  let ?w = "sample_workflow [(''a'', plain_job [Step plain_step (Some (ExecAction (sample_use ''Actions/Checkout@v4'')))])]"
  have h: "firstStepsJobPos ?w = Some \<lparr>at_line = 3, at_col = 3\<rparr>" "\<not> list_ex ws_ContainsExpression (action_uses ?w)"
    "literal_reference ''actions/checkout@v4''" "literal_reference ''actions/cache''" by code_simp+
  have "list_ex (uses_action ''actions/checkout@v4'') (action_uses ?w)" "\<not> list_ex (uses_action ''actions/cache'') (action_uses ?w)"
    by code_simp+
  with required_action_iff [OF h(1,2,3)] required_action_iff [OF h(1,2,4)] show ?thesis by (simp add: Let_def)
qed

subsection \<open>The order of jobs\<close>

text \<open>
  The job dependency rule is deterministic: whatever order the map of the jobs is visited in, the
  findings are the same, if no two jobs are at one position.
\<close>

theorem needs_findings_deterministic:
  assumes "mset js = mset js'" and "distinct (map (\<lambda>(k, j). wj_pos j) js)"
  shows "needs_findings (w\<lparr>wk_jobs := Some js\<rparr>) = needs_findings (w\<lparr>wk_jobs := Some js'\<rparr>)"
proof -
  let ?f = "\<lambda>j. [at_line (wj_pos j), at_col (wj_pos j)]"
  have "inj_on ?f (set (map snd js))"
  proof (rule inj_onI)
    fix a b assume "a \<in> set (map snd js)" "b \<in> set (map snd js)" "?f a = ?f b"
    then obtain k l where kl: "(k, a) \<in> set js" "(l, b) \<in> set js" "wj_pos a = wj_pos b" by auto
    with assms(2) have "(k, a) = (l, b)" by (auto simp: distinct_map dest!: inj_onD [of _ _ "(k, a)" "(l, b)"])
    then show "a = b" by simp
  qed
  moreover have "mset (map snd js) = mset (map snd js')" unfolding mset_map using assms(1) by (rule arg_cong)
  ultimately have "sort_key ?f (map snd js) = sort_key ?f (map snd js')"
    by (intro sort_key_inj_key_eq) simp_all
  then show ?thesis by (simp add: needs_findings_def sorted_jobs_def)
qed

theorem needs_findings_deterministic_witness:
  "needs_findings (sample_workflow [(''a'', plain_job []), (''b'', (plain_job [])\<lparr>wj_pos := \<lparr>at_line = 9, at_col = 3\<rparr>\<rparr>)])
   = needs_findings (sample_workflow [(''b'', (plain_job [])\<lparr>wj_pos := \<lparr>at_line = 9, at_col = 3\<rparr>\<rparr>), (''a'', plain_job [])])"
  using needs_findings_deterministic [of "[(''a'', plain_job []), (''b'', (plain_job [])\<lparr>wj_pos := \<lparr>at_line = 9, at_col = 3\<rparr>\<rparr>)]"
      "[(''b'', (plain_job [])\<lparr>wj_pos := \<lparr>at_line = 9, at_col = 3\<rparr>\<rparr>), (''a'', plain_job [])]" "sample_workflow []"]
  by (simp add: sample_workflow_def plain_job_def add_mset_commute)

end
