(* ===== verification/Workflow_Matrix.thy ===== *)
theory Workflow_Matrix
  imports Section_Parse Workflow_Schema Diagnostic Workflow_Refs
begin

text \<open>
  Matrices of jobs (\<open>internal/mapping/matrix.go\<close>, \<open>internal/workflow/matrix\<close>): known values of
  expressions become declarations, insertions are expanded, and rows and filters are checked. The
  encoder of the YAML library, \<open>node.Encode\<close>, is the parameter \<open>encode\<close> from a value to a node;
  \<open>None\<close> is its error. A Go map is visited in the order of its list. A raw value that can be nil
  is an option.
\<close>

subsection \<open>Known values as declarations\<close>

fun set_position :: "source_pos \<Rightarrow> ynode \<Rightarrow> ynode" where
  "set_position p (YNode i cs) = YNode (i\<lparr>ni_line := at_line p, ni_column := at_col p\<rparr>) (map (set_position p) cs)"

text \<open>The value a parser gives; its errors are dropped.\<close>

definition parsed :: "'a parser_m \<Rightarrow> 'a" where
  "parsed m = fst (run_state m [])"

definition knownLiteral :: "(json \<Rightarrow> ynode option) \<Rightarrow> json \<Rightarrow> source_pos \<Rightarrow> matrix option" where
  "knownLiteral encode v pos =
     (case v of
        JObj members \<Rightarrow>
          if LiteralErrors MatrixShape v ''matrix'' \<noteq> [] then None
          else map_option (\<lambda>n. parsed (ParseMatrixMapping pos (set_position pos n) True True)) (encode v)
      | _ \<Rightarrow> None)"

definition KnownStrategy :: "(json \<Rightarrow> ynode option) \<Rightarrow> wstring \<Rightarrow> matrix option" where
  "KnownStrategy encode e =
     (case WorkflowExpressionLiteral e of
        Some (JObj strategy) \<Rightarrow> knownLiteral encode (json_property strategy ''matrix'') (ws_pos e)
      | _ \<Rightarrow> None)"

definition matrixLiteralValue :: "(json \<Rightarrow> ynode option) \<Rightarrow> json \<Rightarrow> raw_yaml option" where
  "matrixLiteralValue encode v = (case encode v of None \<Rightarrow> None | Some n \<Rightarrow> parsed (ParseRawYAMLValue n))"

definition is_json_object :: "json \<Rightarrow> bool" where
  "is_json_object v \<longleftrightarrow> (case v of JObj _ \<Rightarrow> True | _ \<Rightarrow> False)"

definition knownMatrixFilters :: "(json \<Rightarrow> ynode option) \<Rightarrow> wstring \<Rightarrow> bool \<Rightarrow> matrix_combinations option" where
  "knownMatrixFilters encode e insertion =
     (case map_option (\<lambda>v. if insertion \<and> is_json_object v then JArr [v] else v) (WorkflowExpressionLiteral e) of
        Some (JArr vs) \<Rightarrow>
          if \<not> list_all is_json_object vs then None
          else (case encode (JArr vs) of
              None \<Rightarrow> None
            | Some n \<Rightarrow> parsed (ParseMatrixCombinations ''matrix filters'' (set_position (ws_pos e) n)))
      | _ \<Rightarrow> None)"

subsection \<open>Insertions\<close>

text \<open>The rows of a matrix by resolved name: \<open>None\<close> for a duplicate, the flag whether all are known.\<close>

fun own_rows :: "(string \<Rightarrow> matrix_row \<Rightarrow> string option) \<Rightarrow> (string \<times> matrix_row) list \<Rightarrow>
    (string \<times> matrix_row) list \<Rightarrow> bool \<Rightarrow> ((string \<times> matrix_row) list \<times> bool) option" where
  "own_rows resolveName [] rows allKnown = Some (rows, allKnown)"
| "own_rows resolveName ((name, row) # rs) rows allKnown =
     (case resolveName name row of
        None \<Rightarrow> own_rows resolveName rs rows False
      | Some k \<Rightarrow> if k \<in> set (al_keys rows) then None else own_rows resolveName rs (rows @ [(k, row)]) allKnown)"

text \<open>An inserted matrix: \<open>None\<close> if it has a row or a filter section that is already there.\<close>

definition join_filter :: "matrix_combinations option \<Rightarrow> matrix_combinations option \<Rightarrow> matrix_combinations option option" where
  "join_filter mine inserted = (if inserted = None then Some mine else if mine \<noteq> None then None else Some inserted)"

definition join_matrix :: "matrix \<Rightarrow> matrix \<Rightarrow> matrix option" where
  "join_matrix m i =
     (if list_ex (\<lambda>k. k \<in> set (al_keys (mx_rows m))) (al_keys (mx_rows i)) then None
      else case (join_filter (mx_include m) (mx_include i), join_filter (mx_exclude m) (mx_exclude i)) of
          (Some a, Some b) \<Rightarrow> Some (Matrix (mx_insertions m) (mx_rows m @ mx_rows i) a b (mx_expression m) (mx_pos m))
        | _ \<Rightarrow> None)"

text \<open>The loop over the expanded insertions; \<open>None\<close> outside stands for an evaluation too many.\<close>

fun join_all :: "matrix \<Rightarrow> bool \<Rightarrow> (matrix option \<times> bool) option list \<Rightarrow> (matrix option \<times> bool) option" where
  "join_all m allKnown [] = Some (Some m, allKnown)"
| "join_all m allKnown (None # xs) = None"
| "join_all m allKnown (Some (None, is_known) # xs) = join_all m (allKnown \<and> is_known) xs"
| "join_all m allKnown (Some (Some i, is_known) # xs) =
     (case join_matrix m i of None \<Rightarrow> Some (None, False) | Some m' \<Rightarrow> join_all m' (allKnown \<and> is_known) xs)"

text \<open>
  \<open>hops\<close> bounds the evaluations in a row: the result of one is a declaration without an expression of
  its own, so one hop is enough for the encoder of the library.
\<close>

function ExpandMatrix :: "(wstring \<Rightarrow> matrix option) \<Rightarrow> (string \<Rightarrow> matrix_row \<Rightarrow> string option) \<Rightarrow> nat \<Rightarrow> matrix \<Rightarrow>
    (matrix option \<times> bool) option" where
  "ExpandMatrix evaluate resolveName hops (Matrix ins rows inc exc expr pos) =
     (case expr of
        Some e \<Rightarrow>
          (case evaluate e of
             None \<Rightarrow> Some (None, False)
           | Some m \<Rightarrow> (case hops of 0 \<Rightarrow> None | Suc h \<Rightarrow> ExpandMatrix evaluate resolveName h m))
      | None \<Rightarrow>
          (case own_rows resolveName rows [] True of
             None \<Rightarrow> Some (None, False)
           | Some (rs, allKnown) \<Rightarrow>
               join_all (Matrix [] rs inc exc None pos) allKnown (map (ExpandMatrix evaluate resolveName hops) ins)))"
  by pat_completeness auto
termination
  by (relation "measures [\<lambda>(e, r, h, m). h, \<lambda>(e, r, h, m). size m]")
    (auto simp: less_Suc_eq_le intro: trans_le_add1 size_list_estimation')

declare ExpandMatrix.simps [simp del]

definition RowName :: "string \<Rightarrow> matrix_row \<Rightarrow> string option" where
  "RowName fallback row =
     (let key = ResolveKey InputResolver (mr_name row) (mr_evaluated row) in
      if rk_state key \<noteq> KeyKnown then None else map_option (\<lambda>n. to_lower (ws_value n)) (rk_name key))"

definition evaluate_matrix :: "(json \<Rightarrow> ynode option) \<Rightarrow> wstring \<Rightarrow> matrix option" where
  "evaluate_matrix encode e =
     (case WorkflowExpressionLiteral e of None \<Rightarrow> None | Some v \<Rightarrow> knownLiteral encode v (ws_pos e))"

definition Expand :: "(json \<Rightarrow> ynode option) \<Rightarrow> matrix \<Rightarrow> matrix option \<times> bool" where
  "Expand encode m =
     (case ExpandMatrix (evaluate_matrix encode) RowName 1 m of
        Some (Some r, allKnown) \<Rightarrow>
          (Some (Matrix [] (mx_rows r) (mx_include r) (mx_exclude r) None
             (case mx_expression m of Some e \<Rightarrow> ws_pos e | None \<Rightarrow> mx_pos m)), allKnown)
      | _ \<Rightarrow> (None, False))"

text \<open>\<open>mapping.ExpandCombinations\<close> at the types of its one use: \<open>None\<close> if an insertion is not known.\<close>

fun expand_items :: "(wstring \<Rightarrow> bool \<Rightarrow> matrix_combination list option) \<Rightarrow> matrix_combination list \<Rightarrow> matrix_combination list option" where
  "expand_items evaluate [] = Some []"
| "expand_items evaluate (c # cs) =
     (case (case mc_expression c of Some e \<Rightarrow> evaluate e True | None \<Rightarrow> Some [c]) of
        None \<Rightarrow> None
      | Some xs \<Rightarrow> map_option ((@) xs) (expand_items evaluate cs))"

definition known_combinations :: "(json \<Rightarrow> ynode option) \<Rightarrow> wstring \<Rightarrow> bool \<Rightarrow> matrix_combination list option" where
  "known_combinations encode e splice' =
     map_option (\<lambda>r. map (\<lambda>c. c\<lparr>mc_evaluated := True\<rparr>) (ms_combinations r)) (knownMatrixFilters encode e splice')"

definition ExpandCombinations :: "(json \<Rightarrow> ynode option) \<Rightarrow> matrix_combinations option \<Rightarrow> matrix_combination list option option" where
  "ExpandCombinations encode filters =
     (case filters of
        None \<Rightarrow> Some None
      | Some f \<Rightarrow>
          map_option Some
            (case ms_expression f of
               Some e \<Rightarrow> known_combinations encode e False
             | None \<Rightarrow> expand_items (known_combinations encode) (ms_combinations f)))"

subsection \<open>Elements of rows and filters\<close>

fun matrixValueContainsExpression :: "raw_yaml \<Rightarrow> bool" where
  "matrixValueContainsExpression (RawYAMLString v _ _) = ContainsExpression v"
| "matrixValueContainsExpression (RawYAMLArray vs _) = list_ex matrixValueContainsExpression vs"
| "matrixValueContainsExpression (RawYAMLObject ps _) = list_ex (\<lambda>(k, v). matrixValueContainsExpression v) ps"

text \<open>The text of a scalar that holds an expression, where expressions are evaluated.\<close>

definition dynamic_scalar :: "bool \<Rightarrow> raw_yaml option \<Rightarrow> wstring option" where
  "dynamic_scalar expressions v =
     (case v of
        Some (RawYAMLString s _ p) \<Rightarrow>
          if expressions \<and> ContainsExpression s then Some \<lparr>ws_value = s, ws_quoted = False, ws_pos = p\<rparr> else None
      | _ \<Rightarrow> None)"

definition literal_row :: "(json \<Rightarrow> ynode option) \<Rightarrow> json \<Rightarrow> source_pos \<Rightarrow> raw_yaml list option" where
  "literal_row encode v p =
     (case knownLiteral encode (JObj [(''value'', v)]) p of
        None \<Rightarrow> None
      | Some m \<Rightarrow> map_option mr_values (map_of (mx_rows m) ''value''))"

text \<open>The elements of one value of a row, each with the flag \<open>Expressions\<close>, and whether they are all.\<close>

definition row_value :: "(json \<Rightarrow> ynode option) \<Rightarrow> bool \<Rightarrow> raw_yaml \<Rightarrow> (raw_yaml \<times> bool) list \<times> bool" where
  "row_value encode expressions v =
     (case dynamic_scalar expressions (Some v) of
        None \<Rightarrow> ([(v, expressions)], True)
      | Some s \<Rightarrow>
          (case map_option (\<lambda>l. case l of JArr xs \<Rightarrow> xs | _ \<Rightarrow> [l]) (WorkflowExpressionLiteral s) of
             Some [] \<Rightarrow> ([], True)
           | Some xs \<Rightarrow>
               (case literal_row encode (JArr xs) (ws_pos s) of
                  Some vs \<Rightarrow> (map (\<lambda>x. (x, False)) vs, True)
                | None \<Rightarrow> ([(v, expressions)], False))
           | None \<Rightarrow> ([(v, expressions)], False)))"

definition row_values :: "(json \<Rightarrow> ynode option) \<Rightarrow> bool \<Rightarrow> raw_yaml list \<Rightarrow> (raw_yaml \<times> bool) list \<times> bool" where
  "row_values encode expressions vs =
     (let rs = map (row_value encode expressions) vs in (concat (map fst rs), list_all snd rs))"

definition RowElements :: "(json \<Rightarrow> ynode option) \<Rightarrow> matrix_row \<Rightarrow> bool \<Rightarrow> (raw_yaml \<times> bool) list \<times> bool" where
  "RowElements encode row expressions =
     (case mr_expression row of
        None \<Rightarrow> row_values encode (expressions \<and> \<not> mr_evaluated row) (mr_values row)
      | Some e \<Rightarrow>
          (case WorkflowExpressionLiteral e of
             None \<Rightarrow> ([], False)
           | Some v \<Rightarrow>
               if v = JArr [] then ([], True)
               else case literal_row encode v (ws_pos e) of
                   None \<Rightarrow> ([], False)
                 | Some vs \<Rightarrow> row_values encode False vs))"

text \<open>
  \<open>Combinations\<close>: the combinations with the flag \<open>Expressions\<close>. It calls itself on known filters only,
  without expressions, where it keeps the combinations that are no insertions.
\<close>

definition plain_combinations :: "matrix_combinations option \<Rightarrow> (matrix_combination \<times> bool) list" where
  "plain_combinations filters =
     (case filters of
        None \<Rightarrow> []
      | Some f \<Rightarrow>
          if ms_expression f \<noteq> None then []
          else map (\<lambda>c. (c, False)) (filter (\<lambda>c. mc_expression c = None) (ms_combinations f)))"

definition Combinations :: "(json \<Rightarrow> ynode option) \<Rightarrow> matrix_combinations option \<Rightarrow> bool \<Rightarrow> (matrix_combination \<times> bool) list" where
  "Combinations encode filters expressions =
     (if \<not> expressions then plain_combinations filters
      else case filters of
          None \<Rightarrow> []
        | Some f \<Rightarrow>
            (case ms_expression f of
               Some e \<Rightarrow> plain_combinations (knownMatrixFilters encode e False)
             | None \<Rightarrow>
                 concat (map (\<lambda>c. case mc_expression c of
                     Some e \<Rightarrow> plain_combinations (knownMatrixFilters encode e True)
                   | None \<Rightarrow> [(c, \<not> mc_evaluated c)]) (ms_combinations f))))"

subsection \<open>Filters\<close>

text \<open>The elements of a filter that is a sequence, an expression inserting one level, up to a dynamic one.\<close>

fun matrixFilterElements :: "(json \<Rightarrow> ynode option) \<Rightarrow> bool \<Rightarrow> raw_yaml list \<Rightarrow> (raw_yaml option \<times> bool) list \<times> bool" where
  "matrixFilterElements encode expressions [] = ([], True)"
| "matrixFilterElements encode expressions (v # vs) =
     (case dynamic_scalar expressions (Some v) of
        None \<Rightarrow> (case matrixFilterElements encode expressions vs of (es, c) \<Rightarrow> ((Some v, expressions) # es, c))
      | Some s \<Rightarrow>
          (case WorkflowExpressionLiteral s of
             None \<Rightarrow> ([], False)
           | Some l \<Rightarrow>
               (case matrixFilterElements encode expressions vs of
                  (es, c) \<Rightarrow>
                    (map (\<lambda>x. (matrixLiteralValue encode x, False)) (case l of JArr xs \<Rightarrow> xs | _ \<Rightarrow> [l]) @ es, c))))"

lemma filter_elements_size:
  "(x, e) \<in> set (fst (matrixFilterElements encode expressions vs)) \<Longrightarrow>
     \<not> e \<and> expressions \<or> e = expressions \<and> (\<exists>v. x = Some v \<and> v \<in> set vs)"
  by (induction encode expressions vs rule: matrixFilterElements.induct)
    (auto simp: dynamic_scalar_def split: option.splits prod.splits raw_yaml.splits if_splits)

text \<open>The element at an index that is a number: its integer part, if that is an index at all.\<close>

definition f64_index :: "f64 \<Rightarrow> nat \<Rightarrow> nat option" where
  "f64_index x n =
     (case x of
        F64Fin neg r \<Rightarrow>
          let i = f64_signed neg r in
          if 0 \<le> i \<and> i < of_nat n \<and> i \<le> 2147483647 then Some (nat \<lfloor>i\<rfloor>) else None
      | _ \<Rightarrow> None)"

lemma f64_index_less: "f64_index x n = Some i \<Longrightarrow> i < n"
  by (auto simp: f64_index_def Let_def nat_less_iff floor_less_iff split: f64.splits if_splits)

definition matrixFilterValueAt :: "raw_yaml option \<Rightarrow> string \<Rightarrow> raw_yaml option" where
  "matrixFilterValueAt v key =
     (case v of
        Some (RawYAMLObject ps _) \<Rightarrow> map_of ps key
      | Some (RawYAMLArray vs _) \<Rightarrow> map_option (\<lambda>i. vs ! i) (f64_index (ToNumber (JStr key)) (length vs))
      | _ \<Rightarrow> None)"

text \<open>A number that \<open>at\<close> takes for an index.\<close>

definition index_number :: "f64 \<Rightarrow> bool" where
  "index_number x \<longleftrightarrow> f64_less_eq f64_zero x \<and> f64_less_eq x (F64Fin False 2147483647)"

text \<open>\<open>newMatrixFilterLookup\<close> and its method \<open>at\<close>: the value, its flag and whether it is uncertain.\<close>

definition lookup_at :: "(json \<Rightarrow> ynode option) \<Rightarrow> raw_yaml option \<Rightarrow> bool \<Rightarrow> string \<Rightarrow> raw_yaml option \<times> bool \<times> bool" where
  "lookup_at encode v expressions key =
     (case v of
        Some (RawYAMLArray vs _) \<Rightarrow>
          (case matrixFilterElements encode expressions vs of
             (elements, whole) \<Rightarrow>
               let x = ToNumber (JStr key) in
               if \<not> index_number x then (None, False, False)
               else case f64_index x (length elements) of
                   Some i \<Rightarrow> (fst (elements ! i), snd (elements ! i), False)
                 | None \<Rightarrow> (None, False, \<not> whole))
      | _ \<Rightarrow> (matrixFilterValueAt v key, expressions, False))"

lemma lookup_at_expressions: "lookup_at encode v expressions key = (x, e, u) \<Longrightarrow> e \<Longrightarrow> expressions"
proof -
  assume l: "lookup_at encode v expressions key = (x, e, u)" and e: "e"
  show expressions
  proof (cases "\<exists>vs p. v = Some (RawYAMLArray vs p)")
    case True
    then obtain vs p where v: "v = Some (RawYAMLArray vs p)" by blast
    obtain es c where m: "matrixFilterElements encode expressions vs = (es, c)" by fastforce
    from l e obtain i where i: "f64_index (ToNumber (JStr key)) (length es) = Some i" "x = fst (es ! i)" "e = snd (es ! i)"
      by (auto simp: lookup_at_def v m Let_def split: if_splits option.splits)
    from f64_index_less [OF i(1)] have "i < length es" .
    then have "(x, e) \<in> set (fst (matrixFilterElements encode expressions vs))" using i(2,3) m by simp
    from filter_elements_size [OF this] e show ?thesis by auto
  next
    case False
    then show ?thesis using l e by (auto simp: lookup_at_def split: option.splits raw_yaml.splits)
  qed
qed

text \<open>The values of two scalars are compared as texts, up to case, or as numbers.\<close>

definition scalar_matches :: "raw_yaml option \<Rightarrow> json \<Rightarrow> bool" where
  "scalar_matches v expected =
     (case v of
        Some (RawYAMLString s tag _) \<Rightarrow>
          (case (ScalarValue s tag, expected) of
             (JStr a, JStr b) \<Rightarrow> equal_fold a b
           | (actual, _) \<Rightarrow> f64_eq (ToNumber actual) (ToNumber expected))
      | None \<Rightarrow> f64_eq (ToNumber JNull) (ToNumber expected)
      | _ \<Rightarrow> False)"

lemma raw_prop_size: "(k, v) \<in> set ps \<Longrightarrow> size v < size (RawYAMLObject ps p)"
  by (induction ps) auto

lemma raw_elem_size: "v \<in> set vs \<Longrightarrow> size v < size (RawYAMLArray vs p)"
  by (induction vs) auto

lemma enumerate_member: "(i, x) \<in> set (takeWhile P (enumerate n xs)) \<Longrightarrow> x \<in> set xs"
  by (metis set_takeWhileD imageI map_snd_enumerate set_map snd_conv)

text \<open>
  The elements a sequence is compared at, with their indices: the first one whose counterpart is
  uncertain ends the comparison.
\<close>

definition compared_elements ::
    "(json \<Rightarrow> ynode option) \<Rightarrow> raw_yaml option \<Rightarrow> bool \<Rightarrow> raw_yaml list \<Rightarrow> bool \<Rightarrow> (nat \<times> raw_yaml option \<times> bool) list" where
  "compared_elements encode v ve vs fe =
     takeWhile (\<lambda>(i, _). \<not> snd (snd (lookup_at encode v ve (nat_digits i)))) (enumerate 0 (fst (matrixFilterElements encode fe vs)))"

lemma compared_member:
  "(i, x, e) \<in> set (compared_elements encode v ve vs fe) \<Longrightarrow> \<not> e \<and> fe \<or> e = fe \<and> (\<exists>y. x = Some y \<and> y \<in> set vs)"
  unfolding compared_elements_def by (drule enumerate_member) (rule filter_elements_size)

text \<open>An uncertain property of an object is passed over.\<close>

function isYAMLValueSubset :: "(json \<Rightarrow> ynode option) \<Rightarrow> raw_yaml option \<Rightarrow> raw_yaml option \<Rightarrow> bool \<Rightarrow> bool \<Rightarrow> bool" where
  "isYAMLValueSubset encode v f ve fe =
     (if dynamic_scalar ve v \<noteq> None \<or> dynamic_scalar fe f \<noteq> None then True
      else case f of
          None \<Rightarrow> False
        | Some (RawYAMLObject ps _) \<Rightarrow>
            list_all (\<lambda>(key, item). case lookup_at encode v ve key of
                (actual, e, uncertain) \<Rightarrow> uncertain \<or> isYAMLValueSubset encode actual (Some item) e fe) ps
        | Some (RawYAMLArray vs _) \<Rightarrow>
            list_all (\<lambda>(i, item, fe'). case lookup_at encode v ve (nat_digits i) of
                (actual, e, uncertain) \<Rightarrow> isYAMLValueSubset encode actual item e fe') (compared_elements encode v ve vs fe)
        | Some (RawYAMLString s tag _) \<Rightarrow> scalar_matches v (ScalarValue s tag))"
  by pat_completeness auto
termination
proof (relation "measures [\<lambda>(enc, v, f, ve, fe). if fe then 1 else 0, \<lambda>(enc, v, f, ve, fe). size_option size f]", goal_cases)
  case (3 encode v f ve fe a vs p y i b item fe' x c actual e)
  then show ?case using compared_member [of i item fe' encode v ve vs fe] raw_elem_size [of _ vs p] by auto
qed (auto dest: raw_prop_size)

declare isYAMLValueSubset.simps [simp del]

definition Subset :: "(json \<Rightarrow> ynode option) \<Rightarrow> raw_yaml option \<Rightarrow> raw_yaml option \<Rightarrow> bool \<Rightarrow> bool" where
  "Subset encode v f expressions = isYAMLValueSubset encode v f expressions expressions"

subsection \<open>Types of filters\<close>

datatype scalar_kind = KindNull | KindBoolean | KindNumber | KindString

fun matrixScalarKind :: "json \<Rightarrow> scalar_kind" where
  "matrixScalarKind JNull = KindNull"
| "matrixScalarKind (JBool _) = KindBoolean"
| "matrixScalarKind (JNum _) = KindNumber"
| "matrixScalarKind _ = KindString"

text \<open>A scalar of a filter against the value at its place, which may be missing or unknown.\<close>

definition scalar_mismatch :: "raw_yaml option \<Rightarrow> bool \<Rightarrow> json \<Rightarrow> bool" where
  "scalar_mismatch v unknown expected =
     (case v of
        Some (RawYAMLString s tag _) \<Rightarrow> matrixScalarKind (ScalarValue s tag) \<noteq> matrixScalarKind expected
      | None \<Rightarrow>
          if \<not> unknown then matrixScalarKind expected \<noteq> KindNull
          else matrixScalarKind expected = KindBoolean \<or> matrixScalarKind expected = KindNumber
      | _ \<Rightarrow> False)"

text \<open>The known value of an expression in a scalar, if it has one.\<close>

definition dynamic_literal :: "bool \<Rightarrow> raw_yaml option \<Rightarrow> json option" where
  "dynamic_literal expressions v =
     (case dynamic_scalar expressions v of None \<Rightarrow> None | Some s \<Rightarrow> WorkflowExpressionLiteral s)"

lemma dynamic_literal_expressions: "dynamic_literal e v = Some l \<Longrightarrow> e"
  by (auto simp: dynamic_literal_def dynamic_scalar_def split: option.splits raw_yaml.splits if_splits)

definition static_value :: "bool \<Rightarrow> raw_yaml option \<Rightarrow> raw_yaml option" where
  "static_value expressions v = (if dynamic_scalar expressions v = None then v else None)"

function matrixFilterTypeMismatch :: "(json \<Rightarrow> ynode option) \<Rightarrow> raw_yaml option \<Rightarrow> raw_yaml option \<Rightarrow> bool \<Rightarrow> bool \<Rightarrow> bool \<Rightarrow> bool" where
  "matrixFilterTypeMismatch encode v f ve fe unknown =
     (case dynamic_literal ve v of
        Some l \<Rightarrow> matrixFilterTypeMismatch encode (matrixLiteralValue encode l) f False fe False
      | None \<Rightarrow>
          let v' = static_value ve v; unknown' = (unknown \<or> dynamic_scalar ve v \<noteq> None) in
          case f of
            None \<Rightarrow> False
          | Some (RawYAMLObject ps _) \<Rightarrow>
              list_ex (\<lambda>(key, item). case lookup_at encode v' ve key of
                  (actual, e, uncertain) \<Rightarrow> \<not> uncertain \<and> matrixFilterTypeMismatch encode actual (Some item) e fe unknown') ps
          | Some (RawYAMLArray vs _) \<Rightarrow>
              list_ex (\<lambda>(i, item, fe'). case lookup_at encode v' ve (nat_digits i) of
                  (actual, e, uncertain) \<Rightarrow> matrixFilterTypeMismatch encode actual item e fe' unknown')
                (compared_elements encode v' ve vs fe)
          | Some (RawYAMLString s tag p) \<Rightarrow>
              if dynamic_scalar fe f \<noteq> None then
                (case dynamic_literal fe f of
                   None \<Rightarrow> False
                 | Some l \<Rightarrow> matrixFilterTypeMismatch encode v' (matrixLiteralValue encode l) ve False unknown')
              else scalar_mismatch v' unknown' (ScalarValue s tag))"
  by pat_completeness auto
termination
  by (relation "measures [\<lambda>(enc, v, f, ve, fe, u). if ve then 1 else 0, \<lambda>(enc, v, f, ve, fe, u). if fe then 1 else 0,
      \<lambda>(enc, v, f, ve, fe, u). size_option size f]")
    (auto dest!: compared_member dest: raw_prop_size raw_elem_size dynamic_literal_expressions lookup_at_expressions [OF sym])

declare matrixFilterTypeMismatch.simps [simp del]

subsection \<open>The checks\<close>

datatype matrix_msg =
    DuplicateValue raw_yaml string source_pos
  | ExcludeWithoutRows
  | UnknownAxis string "string list"
  | NoMatchingValue raw_yaml string "raw_yaml list"
  | MixedTypes string

definition matrix_finding :: "source_pos \<Rightarrow> string \<Rightarrow> matrix_msg \<Rightarrow> matrix_msg diagnostic" where
  "matrix_finding p rule m = \<lparr>dg_rule = rule, dg_start = diag_position p, dg_message = m\<rparr>"

text \<open>The value an element repeats: the first one seen that is as dynamic as it and equal to it.\<close>

definition repeated_value :: "(raw_yaml \<times> bool) list \<Rightarrow> raw_yaml \<times> bool \<Rightarrow> raw_yaml option" where
  "repeated_value seen = (\<lambda>(v, e).
     map_option fst (find (\<lambda>(p, pe). (e \<and> matrixValueContainsExpression v) = (pe \<and> matrixValueContainsExpression p) \<and> Equals p v) seen))"

fun duplicate_values :: "string \<Rightarrow> (raw_yaml \<times> bool) list \<Rightarrow> (raw_yaml \<times> bool) list \<Rightarrow> matrix_msg diagnostic list" where
  "duplicate_values name seen [] = []"
| "duplicate_values name seen (x # xs) =
     (case repeated_value seen x of
        Some p \<Rightarrow> matrix_finding (raw_pos (fst x)) ''matrix'' (DuplicateValue (fst x) name (raw_pos p)) # duplicate_values name seen xs
      | None \<Rightarrow> duplicate_values name (seen @ [x]) xs)"

definition checkDuplicateInRow :: "(json \<Rightarrow> ynode option) \<Rightarrow> matrix_row \<Rightarrow> bool \<Rightarrow> matrix_msg diagnostic list" where
  "checkDuplicateInRow encode row expressions =
     duplicate_values (ws_value (mr_name row)) [] (fst (RowElements encode row expressions))"

definition check_exclude_assign :: "(json \<Rightarrow> ynode option) \<Rightarrow> (string \<times> (raw_yaml \<times> bool) list \<times> bool) list \<Rightarrow> bool \<Rightarrow>
    string \<times> matrix_assign \<Rightarrow> matrix_msg diagnostic list" where
  "check_exclude_assign encode rows fe = (\<lambda>(k, a).
     case map_of rows k of
       None \<Rightarrow> [matrix_finding (ws_pos (ma_key a)) ''matrix'' (UnknownAxis k (sort (map fst rows)))]
     | Some (values, allKnown) \<Rightarrow>
         if \<not> allKnown \<or> list_ex (\<lambda>(v, ve). isYAMLValueSubset encode (Some v) (Some (ma_value a)) ve fe) values then []
         else [matrix_finding (raw_pos (ma_value a)) ''matrix'' (NoMatchingValue (ma_value a) k (map fst values))])"

definition checkExclude :: "(json \<Rightarrow> ynode option) \<Rightarrow> matrix \<Rightarrow> bool \<Rightarrow> matrix_msg diagnostic list" where
  "checkExclude encode m expressions =
     (let combinations = Combinations encode (mx_exclude m) expressions;
          rows = map (\<lambda>(n, r). (n, RowElements encode r expressions)) (mx_rows m)
      in if combinations = [] then []
         else if mx_rows m = [] then [matrix_finding (mx_pos m) ''matrix'' ExcludeWithoutRows]
         else concat (map (\<lambda>(c, fe). concat (map (check_exclude_assign encode rows fe) (mc_assigns c))) combinations))"

text \<open>The values of a row a filter is compared with: candidates with their flags, per value.\<close>

definition row_candidates :: "(json \<Rightarrow> ynode option) \<Rightarrow> matrix_row \<Rightarrow> bool \<Rightarrow> (raw_yaml option list \<times> bool) list" where
  "row_candidates encode row expressions =
     (let (values, ve) =
        (case mr_expression row of
           None \<Rightarrow> (map Some (mr_values row), expressions \<and> \<not> mr_evaluated row)
         | Some e \<Rightarrow>
             (case WorkflowExpressionLiteral e of
                Some (JArr xs) \<Rightarrow> (map (matrixLiteralValue encode) xs, False)
              | _ \<Rightarrow> ([Some (RawYAMLString (ws_value e) [] no_pos)], expressions \<and> \<not> mr_evaluated row)))
      in map (\<lambda>v. case v of
             Some (RawYAMLString s _ p) \<Rightarrow>
               (case (if ve then WorkflowExpressionLiteral \<lparr>ws_value = s, ws_quoted = False, ws_pos = p\<rparr> else None) of
                  Some l \<Rightarrow> (map (matrixLiteralValue encode) (case l of JArr xs \<Rightarrow> xs | _ \<Rightarrow> [l]), False)
                | None \<Rightarrow> ([v], ve))
           | _ \<Rightarrow> ([v], ve)) values)"

text \<open>
  The two levels of \<open>checkFilterSectionTypes\<close> are those of \<open>Combinations\<close>, which gives each combination
  with the flag \<open>filterExpressions && !filter.Evaluated\<close>.
\<close>

definition checkFilterSectionTypes :: "(json \<Rightarrow> ynode option) \<Rightarrow> matrix \<Rightarrow> matrix_combinations option \<Rightarrow> bool \<Rightarrow> matrix_msg diagnostic list" where
  "checkFilterSectionTypes encode m filters expressions =
     concat (map (\<lambda>(c, fe). concat (map (\<lambda>(k, a).
         case map_of (mx_rows m) k of
           None \<Rightarrow> []
         | Some row \<Rightarrow>
             if list_ex (\<lambda>(candidates, ve). list_ex (\<lambda>x. matrixFilterTypeMismatch encode x (Some (ma_value a)) ve fe False) candidates)
                  (row_candidates encode row expressions)
             then [matrix_finding (raw_pos (ma_value a)) ''mixed-type-matrix-filters'' (MixedTypes k)] else []) (mc_assigns c)))
       (Combinations encode filters expressions))"

definition checkFilterTypes :: "(json \<Rightarrow> ynode option) \<Rightarrow> matrix \<Rightarrow> bool \<Rightarrow> matrix_msg diagnostic list" where
  "checkFilterTypes encode m expressions =
     checkFilterSectionTypes encode m (mx_include m) expressions @ checkFilterSectionTypes encode m (mx_exclude m) expressions"

definition check_declared_matrix :: "(json \<Rightarrow> ynode option) \<Rightarrow> bool \<Rightarrow> matrix \<Rightarrow> bool \<Rightarrow> matrix_msg diagnostic list" where
  "check_declared_matrix encode mixedTypes declared expressions =
     (case (if mx_expression declared = None then Expand encode declared else (Some declared, True)) of
        (None, _) \<Rightarrow> []
      | (Some m, allKnown) \<Rightarrow>
          concat (map (\<lambda>(n, r). checkDuplicateInRow encode r expressions) (mx_rows m))
          @ (if \<not> allKnown then []
             else checkExclude encode m expressions @ (if mixedTypes then checkFilterTypes encode m expressions else [])))"

definition CheckMatrix :: "(json \<Rightarrow> ynode option) \<Rightarrow> wf_job \<Rightarrow> bool \<Rightarrow> matrix_msg diagnostic list" where
  "CheckMatrix encode j mixedTypes =
     (case wj_strategy j of
        None \<Rightarrow> []
      | Some s \<Rightarrow>
          (case (case sy_expression s of Some e \<Rightarrow> KnownStrategy encode e | None \<Rightarrow> sy_matrix s) of
             None \<Rightarrow> []
           | Some m \<Rightarrow>
               (case mx_expression m of
                  None \<Rightarrow> check_declared_matrix encode mixedTypes m (sy_expression s = None)
                | Some e \<Rightarrow>
                    (case evaluate_matrix encode e of
                       None \<Rightarrow> []
                     | Some m' \<Rightarrow> check_declared_matrix encode mixedTypes m' False))))"

end
