(* ===== verification/Runner_Labels.thy ===== *)
theory Runner_Labels
  imports Workflow_Matrix "HOL-Library.Word"
begin

text \<open>
  Runner labels (\<open>internal/workflow/runner/labels.go\<close>, \<open>platform.go\<close>). The images a label may run on
  are a bit set, a word of the size of Go's \<open>uint\<close>. The checker is a record that every check returns
  updated; the map from image sets to labels is a list in the order of insertion, and where the
  code ranges over the map, the model takes the first entry.
\<close>

unbundle bit_operations_syntax

subsection \<open>Labels and images\<close>

type_synonym os_compat = "64 word"

abbreviation compatInvalid :: os_compat where "compatInvalid \<equiv> 0"
abbreviation compatUbuntu2204 :: os_compat where "compatUbuntu2204 \<equiv> 2"
abbreviation compatUbuntu2404 :: os_compat where "compatUbuntu2404 \<equiv> 4"
abbreviation compatUbuntu2604 :: os_compat where "compatUbuntu2604 \<equiv> 8"
abbreviation compatUbuntu2204ARM :: os_compat where "compatUbuntu2204ARM \<equiv> 16"
abbreviation compatUbuntu2404ARM :: os_compat where "compatUbuntu2404ARM \<equiv> 32"
abbreviation compatUbuntu2604ARM :: os_compat where "compatUbuntu2604ARM \<equiv> 64"
abbreviation compatXcode270 :: os_compat where "compatXcode270 \<equiv> 128"
abbreviation compatXcode270XL :: os_compat where "compatXcode270XL \<equiv> 256"
abbreviation compatMacOS140 :: os_compat where "compatMacOS140 \<equiv> 512"
abbreviation compatMacOS140L :: os_compat where "compatMacOS140L \<equiv> 1024"
abbreviation compatMacOS140XL :: os_compat where "compatMacOS140XL \<equiv> 2048"
abbreviation compatMacOS150 :: os_compat where "compatMacOS150 \<equiv> 4096"
abbreviation compatMacOS150Intel :: os_compat where "compatMacOS150Intel \<equiv> 8192"
abbreviation compatMacOS150L :: os_compat where "compatMacOS150L \<equiv> 16384"
abbreviation compatMacOS150XL :: os_compat where "compatMacOS150XL \<equiv> 32768"
abbreviation compatMacOS260 :: os_compat where "compatMacOS260 \<equiv> 65536"
abbreviation compatMacOS260Intel :: os_compat where "compatMacOS260Intel \<equiv> 131072"
abbreviation compatMacOS260L :: os_compat where "compatMacOS260L \<equiv> 262144"
abbreviation compatMacOS260XL :: os_compat where "compatMacOS260XL \<equiv> 524288"
abbreviation compatWindows2022 :: os_compat where "compatWindows2022 \<equiv> 1048576"
abbreviation compatWindows2025VS2026 :: os_compat where "compatWindows2025VS2026 \<equiv> 2097152"
abbreviation compatWindows11Arm :: os_compat where "compatWindows11Arm \<equiv> 4194304"
abbreviation compatWindows11VS2026Arm :: os_compat where "compatWindows11VS2026Arm \<equiv> 8388608"

definition allGitHubHostedRunnerLabels :: "string list" where
  "allGitHubHostedRunnerLabels =
     [''windows-latest'', ''windows-latest-8-cores'', ''windows-2025'', ''windows-2025-vs2026'',
      ''windows-2022'', ''windows-11-arm'', ''windows-11-vs2026-arm'', ''ubuntu-slim'',
      ''ubuntu-latest'', ''ubuntu-latest-4-cores'', ''ubuntu-latest-8-cores'',
      ''ubuntu-latest-16-cores'', ''ubuntu-26.04'', ''ubuntu-26.04-arm'', ''ubuntu-24.04'',
      ''ubuntu-24.04-arm'', ''ubuntu-22.04'', ''ubuntu-22.04-arm'', ''xcode-27'', ''xcode-27-xlarge'',
      ''macos-latest'', ''macos-latest-xlarge'', ''macos-latest-large'', ''macos-26-intel'',
      ''macos-26-xlarge'', ''macos-26-large'', ''macos-26'', ''macos-15-intel'', ''macos-15-xlarge'',
      ''macos-15-large'', ''macos-15'', ''macos-14-xlarge'', ''macos-14-large'', ''macos-14'']"

definition selfHostedRunnerPresetOSLabels :: "string list" where
  "selfHostedRunnerPresetOSLabels =
     [''linux'', ''macos'', ''windows'']"

definition selfHostedRunnerPresetOtherLabels :: "string list" where
  "selfHostedRunnerPresetOtherLabels =
     [''self-hosted'', ''x64'', ''arm'', ''arm64'']"

definition defaultRunnerOSCompats :: "(string \<times> os_compat) list" where
  "defaultRunnerOSCompats =
     [(''ubuntu-slim'', compatUbuntu2404),
      (''ubuntu-latest'', compatUbuntu2404 OR compatUbuntu2604),
      (''ubuntu-latest-4-cores'', compatUbuntu2404),
      (''ubuntu-latest-8-cores'', compatUbuntu2404),
      (''ubuntu-latest-16-cores'', compatUbuntu2404),
      (''ubuntu-26.04'', compatUbuntu2604),
      (''ubuntu-26.04-arm'', compatUbuntu2604ARM),
      (''ubuntu-24.04'', compatUbuntu2404),
      (''ubuntu-24.04-arm'', compatUbuntu2404ARM),
      (''ubuntu-22.04'', compatUbuntu2204),
      (''ubuntu-22.04-arm'', compatUbuntu2204ARM),
      (''xcode-27'', compatXcode270),
      (''xcode-27-xlarge'', compatXcode270XL),
      (''macos-latest-xlarge'', compatMacOS260XL),
      (''macos-latest-large'', compatMacOS260L),
      (''macos-latest'', compatMacOS260),
      (''macos-26-intel'', compatMacOS260Intel),
      (''macos-26-xlarge'', compatMacOS260XL),
      (''macos-26-large'', compatMacOS260L),
      (''macos-26'', compatMacOS260),
      (''macos-15-intel'', compatMacOS150Intel),
      (''macos-15-xlarge'', compatMacOS150XL),
      (''macos-15-large'', compatMacOS150L),
      (''macos-15'', compatMacOS150),
      (''macos-14-xlarge'', compatMacOS140XL),
      (''macos-14-large'', compatMacOS140L),
      (''macos-14'', compatMacOS140),
      (''windows-latest'', compatWindows2025VS2026),
      (''windows-latest-8-cores'', compatWindows2022),
      (''windows-2025'', compatWindows2025VS2026),
      (''windows-2025-vs2026'', compatWindows2025VS2026),
      (''windows-2022'', compatWindows2022),
      (''windows-11-arm'', compatWindows11Arm OR compatWindows11VS2026Arm),
      (''windows-11-vs2026-arm'', compatWindows11VS2026Arm),
      (''linux'', compatUbuntu2604 OR compatUbuntu2404 OR compatUbuntu2204 OR compatUbuntu2604ARM OR
         compatUbuntu2404ARM OR compatUbuntu2204ARM),
      (''macos'', compatXcode270 OR compatXcode270XL OR compatMacOS260 OR compatMacOS260Intel OR
         compatMacOS260L OR compatMacOS260XL OR compatMacOS150 OR compatMacOS150Intel OR
         compatMacOS150L OR compatMacOS150XL OR compatMacOS140 OR compatMacOS140L OR
         compatMacOS140XL),
      (''windows'', compatWindows2025VS2026 OR compatWindows2022 OR compatWindows11Arm OR compatWindows11VS2026Arm)]"

text \<open>The images of a label; a Go map gives zero for a missing key.\<close>

definition compat_of :: "string \<Rightarrow> os_compat" where
  "compat_of l = (case map_of defaultRunnerOSCompats l of Some c \<Rightarrow> c | None \<Rightarrow> compatInvalid)"

definition windowsLabel :: "string \<Rightarrow> bool" where
  "windowsLabel label \<longleftrightarrow> ''windows'' \<in> set (split_at_char CHR ''-'' (to_lower label))"

subsection \<open>The checker\<close>

datatype runner_msg =
    InvalidLabelPattern string
  | UnknownLabel string "string list"
  | LabelConflict string string source_pos
  | ProviderReason string

record rejection =
  rj_position :: diag_pos
  rj_reason :: runner_msg

record label_checker =
  lc_rejections :: "rejection list"
  lc_labels :: "string list"
  lc_compats :: "(os_compat \<times> wstring) list"

definition label_error :: "source_pos \<Rightarrow> runner_msg \<Rightarrow> label_checker \<Rightarrow> label_checker" where
  "label_error p m s =
     s\<lparr>lc_rejections := lc_rejections s @ [\<lparr>rj_position = diag_position p, rj_reason = m\<rparr>]\<rparr>"

text \<open>The loop over the labels of the configuration: the first one that is malformed or matches.\<close>

datatype known_match = BadPattern string | Matched | Unmatched

fun match_known :: "string list \<Rightarrow> string \<Rightarrow> known_match" where
  "match_known [] l = Unmatched"
| "match_known (k # ks) l =
     (case path_match k l of None \<Rightarrow> BadPattern k | Some True \<Rightarrow> Matched | Some False \<Rightarrow> match_known ks l)"

definition verifyRunnerLabel :: "wstring \<Rightarrow> label_checker \<Rightarrow> os_compat \<times> label_checker" where
  "verifyRunnerLabel label s =
     (let l = ws_value label in
      case map_of defaultRunnerOSCompats (to_lower l) of
        Some c \<Rightarrow> (c, s)
      | None \<Rightarrow>
          if list_ex (equal_fold l) selfHostedRunnerPresetOtherLabels then (compatInvalid, s)
          else case match_known (lc_labels s) l of
              BadPattern k \<Rightarrow> (compatInvalid, label_error (ws_pos label) (InvalidLabelPattern k) s)
            | Matched \<Rightarrow> (if windowsLabel l then compat_of ''windows'' else compatInvalid, s)
            | Unmatched \<Rightarrow>
                (compatInvalid, label_error (ws_pos label)
                   (UnknownLabel l (allGitHubHostedRunnerLabels @ selfHostedRunnerPresetOtherLabels
                      @ selfHostedRunnerPresetOSLabels @ lc_labels s)) s))"

definition conflicting :: "os_compat \<Rightarrow> (os_compat \<times> wstring) list \<Rightarrow> wstring option" where
  "conflicting images compats = map_option snd (find (\<lambda>(c, l). c AND images = 0) compats)"

definition checkConflict :: "os_compat \<Rightarrow> wstring \<Rightarrow> label_checker \<Rightarrow> bool \<times> label_checker" where
  "checkConflict images label s =
     (case conflicting images (lc_compats s) of
        Some l \<Rightarrow> (False, label_error (ws_pos label) (LabelConflict (ws_value label) (ws_value l) (ws_pos l)) s)
      | None \<Rightarrow> (True, s))"

definition checkCompat :: "os_compat \<Rightarrow> wstring \<Rightarrow> label_checker \<Rightarrow> label_checker" where
  "checkCompat images label s =
     (if images = compatInvalid then s
      else case checkConflict images label s of
          (False, s') \<Rightarrow> s'
        | (True, s') \<Rightarrow>
            if images \<in> set (map fst (lc_compats s')) then s'
            else s'\<lparr>lc_compats := lc_compats s' @ [(images, label)]\<rparr>)"

definition verify_and_check :: "wstring \<Rightarrow> label_checker \<Rightarrow> label_checker" where
  "verify_and_check label s = (case verifyRunnerLabel label s of (images, s') \<Rightarrow> checkCompat images label s')"

subsection \<open>Labels of expressions\<close>

definition runnerExpressionLabel :: "json \<Rightarrow> source_pos \<Rightarrow> wstring option" where
  "runnerExpressionLabel v pos =
     map_option (\<lambda>l. \<lparr>ws_value = l, ws_quoted = False, ws_pos = pos\<rparr>) (ScalarString v)"

definition append_label :: "source_pos \<Rightarrow> bool \<Rightarrow> json \<Rightarrow> wstring list" where
  "append_label pos nullIsLabel v =
     (if v = JNull \<and> \<not> nullIsLabel then []
      else case runnerExpressionLabel v pos of Some l \<Rightarrow> [l] | None \<Rightarrow> [])"

definition runnerExpressionLabels :: "json \<Rightarrow> source_pos \<Rightarrow> bool \<Rightarrow> wstring list" where
  "runnerExpressionLabels v pos nullIsLabel =
     (case (case v of
              JObj members \<Rightarrow> map_option snd (find (\<lambda>(name, x). equal_fold name ''labels'') members)
            | _ \<Rightarrow> Some v) of
        None \<Rightarrow> []
      | Some (JArr items) \<Rightarrow> concat (map (append_label pos nullIsLabel) items)
      | Some x \<Rightarrow> append_label pos nullIsLabel x)"

definition ExpressionLabels :: "wstring \<Rightarrow> wstring list option" where
  "ExpressionLabels e =
     map_option (\<lambda>v. runnerExpressionLabels v (ws_pos e) False) (WorkflowExpressionLiteral e)"

definition include_labels :: "source_pos \<Rightarrow> string \<Rightarrow> json \<Rightarrow> wstring list list" where
  "include_labels pos property v =
     (case v of
        JObj assignments \<Rightarrow>
          (case find (\<lambda>(name, x). equal_fold name property) assignments of
             Some (name, x) \<Rightarrow> [runnerExpressionLabels x pos True]
           | None \<Rightarrow> [])
      | _ \<Rightarrow> [])"

definition knownStrategyRunnerLabels :: "wstring \<Rightarrow> string \<Rightarrow> wstring list list" where
  "knownStrategyRunnerLabels e property =
     (case WorkflowExpressionLiteral e of
        Some (JObj strategy) \<Rightarrow>
          (case json_property strategy ''matrix'' of
             JObj m \<Rightarrow>
               (case json_property m property of
                  JArr row \<Rightarrow> map (\<lambda>v. runnerExpressionLabels v (ws_pos e) True) row | _ \<Rightarrow> []) @
               (case json_property m ''include'' of
                  JArr items \<Rightarrow> concat (map (include_labels (ws_pos e) property) items) | _ \<Rightarrow> [])
           | _ \<Rightarrow> [])
      | _ \<Rightarrow> [])"

definition runnerMatrixProperty :: "wstring \<Rightarrow> string" where
  "runnerMatrixProperty label =
     (case parseAssignedExpression (ws_value label) of
        Some (ObjectDerefNode _ (VariableNode _ n _) property _) \<Rightarrow> if n = ''matrix'' then property else []
      | _ \<Rightarrow> [])"

definition scalar_label :: "bool \<Rightarrow> raw_yaml \<Rightarrow> wstring list list" where
  "scalar_label expressions v =
     (case v of
        RawYAMLString s _ p \<Rightarrow>
          if \<not> expressions \<or> \<not> ContainsExpression s then [[\<lparr>ws_value = s, ws_quoted = False, ws_pos = p\<rparr>]] else []
      | _ \<Rightarrow> [])"

definition tryToGetLabelsInMatrix :: "(json \<Rightarrow> ynode option) \<Rightarrow> wstring \<Rightarrow> strategy option \<Rightarrow> wstring list list" where
  "tryToGetLabelsInMatrix encode label strategy =
     (let prop = runnerMatrixProperty label in
      case strategy of
        None \<Rightarrow> []
      | Some st \<Rightarrow>
          if prop = [] then []
          else case sy_expression st of
              Some e \<Rightarrow> knownStrategyRunnerLabels e prop
            | None \<Rightarrow>
                (case (case sy_matrix st of
                         Some m \<Rightarrow> if mx_insertions m \<noteq> [] then fst (Expand encode m) else Some m
                       | None \<Rightarrow> None) of
                   None \<Rightarrow> []
                 | Some m \<Rightarrow>
                     (case map_of (mx_rows m) prop of
                        Some row \<Rightarrow> concat (map (\<lambda>(v, ex). scalar_label ex v) (fst (RowElements encode row True)))
                      | None \<Rightarrow> []) @
                     concat (map (\<lambda>(c, ex). case map_of (mc_assigns c) prop of
                         Some a \<Rightarrow> scalar_label ex (ma_value a) | None \<Rightarrow> [])
                       (Combinations encode (mx_include m) True))))"

subsection \<open>Single labels and lists of labels\<close>

definition checkLabel :: "(json \<Rightarrow> ynode option) \<Rightarrow> strategy option \<Rightarrow> wstring \<Rightarrow> label_checker \<Rightarrow> label_checker" where
  "checkLabel encode strategy l s =
     (let verify = (\<lambda>label s. snd (verifyRunnerLabel label s)) in
      if ws_ContainsExpression l then
        (case ExpressionLabels l of
           Some labels \<Rightarrow> fold verify labels s
         | None \<Rightarrow> fold (fold verify) (tryToGetLabelsInMatrix encode l strategy) s)
      else verify l s)"

text \<open>Each value of a matrix is checked against the labels before it, not against the other values.\<close>

fun add_compats :: "(os_compat \<times> wstring) list \<Rightarrow> (os_compat \<times> wstring) list \<Rightarrow> (os_compat \<times> wstring) list" where
  "add_compats combined [] = combined"
| "add_compats combined ((c, l) # cs) =
     add_compats (if c \<in> set (map fst combined) then combined else combined @ [(c, l)]) cs"

fun matrix_groups :: "(os_compat \<times> wstring) list \<Rightarrow> (os_compat \<times> wstring) list \<Rightarrow> wstring list list \<Rightarrow>
    label_checker \<Rightarrow> label_checker" where
  "matrix_groups previous combined [] s = s\<lparr>lc_compats := combined\<rparr>"
| "matrix_groups previous combined (labels # groups) s =
     (let s' = fold verify_and_check labels (s\<lparr>lc_compats := previous\<rparr>)
      in matrix_groups previous (add_compats combined (lc_compats s')) groups s')"

definition checkMatrixLabels :: "wstring list list \<Rightarrow> label_checker \<Rightarrow> label_checker" where
  "checkMatrixLabels groups s = matrix_groups (lc_compats s) (lc_compats s) groups s"

definition checkLabelAndConflict ::
  "(json \<Rightarrow> ynode option) \<Rightarrow> strategy option \<Rightarrow> wstring \<Rightarrow> label_checker \<Rightarrow> label_checker" where
  "checkLabelAndConflict encode strategy l s =
     (if ws_ContainsExpression l then
        (case ExpressionLabels l of
           Some labels \<Rightarrow> fold verify_and_check labels s
         | None \<Rightarrow> checkMatrixLabels (tryToGetLabelsInMatrix encode l strategy) s)
      else verify_and_check l s)"

subsection \<open>Texts of raw values\<close>

text \<open>
  \<open>strconv.Quote\<close>: the escapes of ASCII; runes from 128 on are taken to be valid and printable.
\<close>

definition hex_digit_char :: "nat \<Rightarrow> char" where
  "hex_digit_char n = ''0123456789abcdef'' ! n"

definition quote_char :: "char \<Rightarrow> string" where
  "quote_char c =
     (let n = of_char c :: nat in
      if n = 7 then [CHR 0x5C, CHR ''a''] else if n = 8 then [CHR 0x5C, CHR ''b'']
      else if n = 9 then [CHR 0x5C, CHR ''t''] else if n = 10 then [CHR 0x5C, CHR ''n'']
      else if n = 11 then [CHR 0x5C, CHR ''v''] else if n = 12 then [CHR 0x5C, CHR ''f'']
      else if n = 13 then [CHR 0x5C, CHR ''r'']
      else if n = 34 \<or> n = 92 then [CHR 0x5C, c]
      else if n < 32 \<or> n = 127 then [CHR 0x5C, CHR ''x'', hex_digit_char (n div 16), hex_digit_char (n mod 16)]
      else [c])"

definition go_quote :: "string \<Rightarrow> string" where
  "go_quote s = [CHR 0x22] @ concat (map quote_char s) @ [CHR 0x22]"

fun comma_separated :: "string list \<Rightarrow> string" where
  "comma_separated [] = []"
| "comma_separated [s] = s"
| "comma_separated (s # t # ss) = s @ '', '' @ comma_separated (t # ss)"

fun raw_String :: "raw_yaml \<Rightarrow> string" where
  "raw_String (RawYAMLString v tag _) =
     (case ScalarValue v tag of JStr _ \<Rightarrow> go_quote v | _ \<Rightarrow> if v = [] then ''null'' else v)"
| "raw_String (RawYAMLArray vs _) = ''['' @ comma_separated (map raw_String vs) @ '']''"
| "raw_String (RawYAMLObject ps _) =
     ''{'' @ comma_separated (sort (map (\<lambda>(n, v). go_quote n @ '': '' @ raw_String v) ps)) @ ''}''"

subsection \<open>Combinations of a matrix\<close>

type_synonym raw_combination = "(string \<times> raw_yaml) list"

definition is_literal :: "bool \<Rightarrow> raw_yaml \<Rightarrow> bool" where
  "is_literal evaluated v \<longleftrightarrow> evaluated \<or> \<not> ContainsExpression (raw_String v)"

definition filters_known :: "bool \<Rightarrow> matrix_combination list option \<Rightarrow> bool" where
  "filters_known evaluated cs =
     (case cs of
        None \<Rightarrow> True
      | Some cs \<Rightarrow>
          \<not> list_ex (\<lambda>c. mc_expression c \<noteq> None) cs \<and>
          list_all (\<lambda>c. mc_evaluated c \<or> list_all (\<lambda>(k, a). is_literal evaluated (ma_value a)) (mc_assigns c)) cs)"

definition combination_limit :: nat where
  "combination_limit = 256"

text \<open>One row after the other multiplies the combinations.\<close>

fun expand_rows :: "(json \<Rightarrow> ynode option) \<Rightarrow> bool \<Rightarrow> (string \<times> matrix_row) list \<Rightarrow> raw_combination list \<Rightarrow>
    raw_combination list option" where
  "expand_rows encode evaluated [] originals = Some originals"
| "expand_rows encode evaluated ((name, row) # rows) originals =
     (let (elements, allKnown) = RowElements encode row (\<not> evaluated) in
      if \<not> allKnown \<or> (elements \<noteq> [] \<and> combination_limit div length elements < length originals) then None
      else if list_ex (\<lambda>(v, ex). ex \<and> \<not> is_literal evaluated v) elements then None
      else expand_rows encode evaluated rows
             (concat (map (\<lambda>c. map (\<lambda>(v, ex). al_put name v c) elements) originals)))"

definition excluded_by :: "(json \<Rightarrow> ynode option) \<Rightarrow> raw_combination \<Rightarrow> matrix_combination \<Rightarrow> bool" where
  "excluded_by encode c exclude \<longleftrightarrow>
     list_all (\<lambda>(name, a). Subset encode (map_of c name) (Some (ma_value a)) False) (mc_assigns exclude)"

definition not_excluded :: "(json \<Rightarrow> ynode option) \<Rightarrow> matrix_combination list option \<Rightarrow> raw_combination list \<Rightarrow> raw_combination list" where
  "not_excluded encode excludes originals =
     (case excludes of
        None \<Rightarrow> originals
      | Some es \<Rightarrow> filter (\<lambda>c. \<not> list_ex (excluded_by encode c) es) originals)"

definition include_extends :: "(json \<Rightarrow> ynode option) \<Rightarrow> matrix_combination \<Rightarrow> raw_combination \<Rightarrow> bool" where
  "include_extends encode inc original \<longleftrightarrow>
     list_all (\<lambda>(name, a). case map_of original name of
         Some v \<Rightarrow> Subset encode (Some v) (Some (ma_value a)) False | None \<Rightarrow> True) (mc_assigns inc)"

definition add_assigns :: "string set \<Rightarrow> matrix_combination \<Rightarrow> raw_combination \<Rightarrow> raw_combination" where
  "add_assigns axes inc c =
     fold (\<lambda>(name, a) c. if name \<in> axes then c else al_put name (ma_value a) c) (mc_assigns inc) c"

text \<open>A result keeps the combination of the rows it comes from; one of \<open>include\<close> alone has none.\<close>

type_synonym extended = "raw_combination option \<times> raw_combination"

definition include_combination :: "(json \<Rightarrow> ynode option) \<Rightarrow> string set \<Rightarrow> matrix_combination \<Rightarrow> extended list \<Rightarrow> extended list option" where
  "include_combination encode axes inc results =
     (let hit = (\<lambda>(original, c). case original of Some r \<Rightarrow> include_extends encode inc r | None \<Rightarrow> False) in
      if list_ex hit results then
        Some (map (\<lambda>r. if hit r then (fst r, add_assigns axes inc (snd r)) else r) results)
      else if length results = combination_limit then None
      else Some (results @ [(None, add_assigns {} inc [])]))"

fun include_combinations :: "(json \<Rightarrow> ynode option) \<Rightarrow> string set \<Rightarrow> matrix_combination list \<Rightarrow> extended list \<Rightarrow> extended list option" where
  "include_combinations encode axes [] results = Some results"
| "include_combinations encode axes (inc # incs) results =
     (case include_combination encode axes inc results of
        None \<Rightarrow> None
      | Some results' \<Rightarrow> include_combinations encode axes incs results')"

definition expanded_combinations ::
  "(json \<Rightarrow> ynode option) \<Rightarrow> bool \<Rightarrow> (string \<times> matrix_row) list \<Rightarrow> matrix_combination list option \<Rightarrow>
   matrix_combination list option \<Rightarrow> raw_combination list option" where
  "expanded_combinations encode evaluated rows incs excs =
     (case expand_rows encode evaluated (sort_key fst rows) (if rows = [] then [] else [[]]) of
        None \<Rightarrow> None
      | Some originals \<Rightarrow>
          map_option (map snd)
            (include_combinations encode (set (map fst rows)) (case incs of Some is \<Rightarrow> is | None \<Rightarrow> [])
               (map (\<lambda>c. (Some c, c)) (not_excluded encode excs originals))))"

definition strategy_matrix :: "(json \<Rightarrow> ynode option) \<Rightarrow> strategy \<Rightarrow> matrix option" where
  "strategy_matrix encode st =
     (case (case sy_expression st of Some e \<Rightarrow> KnownStrategy encode e | None \<Rightarrow> sy_matrix st) of
        None \<Rightarrow> None
      | Some m \<Rightarrow>
          if mx_expression m \<noteq> None then None
          else case Expand encode m of (Some r, True) \<Rightarrow> if mx_expression r \<noteq> None then None else Some r | _ \<Rightarrow> None)"

definition MatrixCombinations :: "(json \<Rightarrow> ynode option) \<Rightarrow> strategy option \<Rightarrow> raw_combination list option" where
  "MatrixCombinations encode strategy =
     (case strategy of
        None \<Rightarrow> None
      | Some st \<Rightarrow>
          (case strategy_matrix encode st of
             None \<Rightarrow> None
           | Some m \<Rightarrow>
               (case (ExpandCombinations encode (mx_include m), ExpandCombinations encode (mx_exclude m)) of
                  (Some incs, Some excs) \<Rightarrow>
                    let evaluated = (sy_expression st \<noteq> None) in
                    if filters_known evaluated incs \<and> filters_known evaluated excs
                    then expanded_combinations encode evaluated (mx_rows m) incs excs else None
                | _ \<Rightarrow> None)))"

subsection \<open>Correlated labels\<close>

definition raw_label :: "raw_yaml \<Rightarrow> wstring list" where
  "raw_label v =
     (case v of
        RawYAMLString s tag p \<Rightarrow> (case runnerExpressionLabel (ScalarValue s tag) p of Some l \<Rightarrow> [l] | None \<Rightarrow> [])
      | _ \<Rightarrow> [])"

definition runnerMatrixValueLabels :: "raw_yaml \<Rightarrow> wstring list" where
  "runnerMatrixValueLabels v =
     (case (case v of RawYAMLObject ps _ \<Rightarrow> map_of ps ''labels'' | _ \<Rightarrow> Some v) of
        Some (RawYAMLArray items _) \<Rightarrow> concat (map raw_label items)
      | Some x \<Rightarrow> raw_label x
      | None \<Rightarrow> [])"

definition check_hosted :: "wstring list \<Rightarrow> label_checker \<Rightarrow> label_checker" where
  "check_hosted labels = fold (\<lambda>l. checkCompat (compat_of (to_lower (ws_value l))) l) labels"

definition check_fixed :: "(json \<Rightarrow> ynode option) \<Rightarrow> strategy option \<Rightarrow> wstring \<Rightarrow> label_checker \<Rightarrow> label_checker" where
  "check_fixed encode strategy label s =
     (let s' = checkLabel encode strategy label s in
      if runnerMatrixProperty label \<noteq> [] then s'
      else case ExpressionLabels label of
          Some labels \<Rightarrow> check_hosted labels s'
        | None \<Rightarrow> if ws_ContainsExpression label then s' else check_hosted [label] s')"

definition check_combination :: "(os_compat \<times> wstring) list \<Rightarrow> string list \<Rightarrow> raw_combination \<Rightarrow> label_checker \<Rightarrow> label_checker" where
  "check_combination fixed properties combination s =
     fold (\<lambda>p. case map_of combination p of Some v \<Rightarrow> check_hosted (runnerMatrixValueLabels v) | None \<Rightarrow> id)
       properties (s\<lparr>lc_compats := fixed\<rparr>)"

definition checkCorrelatedMatrixLabels ::
  "(json \<Rightarrow> ynode option) \<Rightarrow> job_runner \<Rightarrow> strategy option \<Rightarrow> label_checker \<Rightarrow> bool \<times> label_checker" where
  "checkCorrelatedMatrixLabels encode runsOn strategy s =
     (let labels = rn_labels runsOn; properties = map runnerMatrixProperty labels in
      if length (filter (\<lambda>p. p \<noteq> []) properties) < 2 then (False, s)
      else
        let s' = fold (check_fixed encode strategy) labels (s\<lparr>lc_compats := []\<rparr>); fixed = lc_compats s';
            s'' = (case MatrixCombinations encode strategy of
                Some combinations \<Rightarrow> fold (check_combination fixed properties) combinations s'
              | None \<Rightarrow>
                  fold (\<lambda>label. if runnerMatrixProperty label = [] then id
                      else fold (\<lambda>group s. check_hosted group (s\<lparr>lc_compats := fixed\<rparr>))
                             (tryToGetLabelsInMatrix encode label strategy)) labels s')
        in (True, s''\<lparr>lc_compats := []\<rparr>))"

definition checkRunnerJob :: "(json \<Rightarrow> ynode option) \<Rightarrow> wf_job \<Rightarrow> label_checker \<Rightarrow> label_checker" where
  "checkRunnerJob encode n s =
     (case wj_runs_on n of
        None \<Rightarrow> s
      | Some r \<Rightarrow>
          (case checkCorrelatedMatrixLabels encode r (wj_strategy n) s of
             (True, s') \<Rightarrow> s'
           | (False, s') \<Rightarrow>
               if length (rn_labels r) = 1 then checkLabel encode (wj_strategy n) (hd (rn_labels r)) s'
               else
                 let labels = (case rn_expression r of Some e \<Rightarrow> [e]
                     | None \<Rightarrow> (case rn_labels_expr r of Some e \<Rightarrow> [e] | None \<Rightarrow> rn_labels r))
                 in (fold (checkLabelAndConflict encode (wj_strategy n)) labels (s'\<lparr>lc_compats := []\<rparr>))\<lparr>lc_compats := []\<rparr>))"

definition CheckRunner :: "(json \<Rightarrow> ynode option) \<Rightarrow> wf_job \<Rightarrow> string list \<Rightarrow> runner_msg diagnostic list" where
  "CheckRunner encode job customLabels =
     map (\<lambda>r. \<lparr>dg_rule = ''runner-label'', dg_start = rj_position r, dg_message = rj_reason r\<rparr>)
       (lc_rejections (checkRunnerJob encode job \<lparr>lc_rejections = [], lc_labels = customLabels, lc_compats = []\<rparr>))"

subsection \<open>Platforms\<close>

datatype platform = AnyPlatform | MacOrLinux | WindowsPlatform

definition expression_labels :: "wstring option \<Rightarrow> wstring list" where
  "expression_labels e = (case e of None \<Rightarrow> [] | Some e \<Rightarrow> (case ExpressionLabels e of Some ls \<Rightarrow> ls | None \<Rightarrow> []))"

definition runner_labels :: "job_runner \<Rightarrow> wstring list" where
  "runner_labels r =
     expression_labels (rn_expression r) @ expression_labels (rn_labels_expr r) @
     concat (map (\<lambda>l. case ExpressionLabels l of Some ls \<Rightarrow> ls | None \<Rightarrow> [l]) (rn_labels r))"

definition label_platform :: "string \<Rightarrow> platform" where
  "label_platform l =
     (if windowsLabel l then WindowsPlatform
      else if compat_of l AND (compat_of ''macos'' OR compat_of ''linux'') \<noteq> 0 then MacOrLinux
      else AnyPlatform)"

fun join_platforms :: "platform \<Rightarrow> platform list \<Rightarrow> platform" where
  "join_platforms seen [] = seen"
| "join_platforms seen (k # ks) =
     (if k = AnyPlatform then join_platforms seen ks
      else if seen \<noteq> AnyPlatform \<and> seen \<noteq> k then AnyPlatform
      else join_platforms k ks)"

definition PlatformOf :: "job_runner option \<Rightarrow> platform" where
  "PlatformOf runner =
     (case runner of
        None \<Rightarrow> AnyPlatform
      | Some r \<Rightarrow> join_platforms AnyPlatform (map (\<lambda>l. label_platform (to_lower (ws_value l))) (runner_labels r)))"

definition labels_only :: "wstring option \<Rightarrow> bool" where
  "labels_only e =
     (case e of
        None \<Rightarrow> True
      | Some e \<Rightarrow>
          (case WorkflowExpressionLiteral e of
             None \<Rightarrow> False
           | Some (JObj selection) \<Rightarrow> list_all (\<lambda>(k, v). equal_fold k ''labels'') selection
           | Some _ \<Rightarrow> True))"

definition Hosted :: "job_runner option \<Rightarrow> bool" where
  "Hosted runner =
     (case runner of
        None \<Rightarrow> False
      | Some r \<Rightarrow>
          rn_group r = None \<and> labels_only (rn_expression r) \<and> labels_only (rn_labels_expr r) \<and>
          (case runner_labels r of
             [l] \<Rightarrow> to_lower (ws_value l) \<in> set allGitHubHostedRunnerLabels
           | _ \<Rightarrow> False))"

end
