(* ===== verification/Runner_Knowledge.thy ===== *)
theory Runner_Knowledge
  imports Runner_Labels
begin

text \<open>
  What is known of the runners of a job (\<open>runner/runner.go\<close>, \<open>internal/workflow/runner/knowledge.go\<close>,
  \<open>selectors.go\<close>, \<open>provider.go\<close>, \<open>snapshot.go\<close>): selectors, the two providers of the repository,
  and the conservative join of a provider's answers. An operating system or a case sensitivity is
  the string it is in Go. Parameters are: \<open>encode\<close> (as in \<open>Workflow_Matrix\<close>), the digests of JSON
  texts, the decoder of an inventory, and \<open>ctx\<close>, the error of the context when it is asked for the
  \<open>n\<close>-th time.
\<close>

subsection \<open>Selectors and answers\<close>

datatype runner_term = TermLiteral string | TermExpression string

record runner_constraint =
  cn_value :: runner_term
  cn_position :: diag_pos

record runner_selector =
  se_incomplete :: bool
  se_labels :: "runner_constraint list"
  se_group :: "runner_constraint option"
  se_expression :: string

definition freshness_Fresh :: string where "freshness_Fresh = ''fresh''"
definition freshness_Stale :: string where "freshness_Stale = ''stale''"
definition freshness_Missing :: string where "freshness_Missing = ''missing''"

record runner_snapshot =
  sn_content :: string
  sn_scope :: string
  sn_obtained_at :: string
  sn_freshness :: string
  sn_complete :: bool

record runner_request =
  rq_target :: string
  rq_scope :: string
  rq_snapshot :: runner_snapshot
  rq_selectors :: "runner_selector list"

definition UnknownCase :: string where "UnknownCase = ''unknown''"
definition CaseSensitive :: string where "CaseSensitive = ''sensitive''"
definition CaseInsensitive :: string where "CaseInsensitive = ''insensitive''"
definition UnknownOS :: string where "UnknownOS = ''unknown''"
definition LinuxOS :: string where "LinuxOS = ''linux''"
definition MacOS :: string where "MacOS = ''macos''"
definition WindowsOS :: string where "WindowsOS = ''windows''"

lemmas runner_strings = freshness_Fresh_def freshness_Stale_def freshness_Missing_def UnknownCase_def
  CaseSensitive_def CaseInsensitive_def UnknownOS_def LinuxOS_def MacOS_def WindowsOS_def

record runner_candidate =
  rc_name :: string
  rc_os :: string
  rc_architecture :: string
  rc_default_shell :: string
  rc_case_sensitivity :: string
  rc_sh_is_dash :: bool
  rc_ephemeral :: bool

datatype resolution =
    Resolved "runner_candidate list"
  | NoMatch "rejection list"
  | UnknownRunner string
  | NotApplicable

text \<open>A provider may return a value, a pointer that can be nil, or no resolution.\<close>

datatype returned_resolution = ByValue resolution | ByPointer "resolution option" | NoResolution

record runner_evidence =
  ev_dataset :: string
  ev_scope :: string
  ev_obtained_at :: string
  ev_freshness :: string
  ev_complete :: bool

record 'r answer =
  an_resolution :: 'r
  an_evidence :: runner_evidence

record runner_descriptor =
  de_name :: string
  de_version :: string
  de_targets :: "string list"

datatype runner_error =
    InvalidFreshness
  | SnapshotScope
  | NilProvider
  | ConflictingProviders string
  | NoProvider string string
  | ProviderError string runner_error
  | AnswerCount nat nat
  | InvalidResolution
  | AnswerScope
  | NoDataset
  | UnrelatedRejection
  | NoCandidates
  | NoRejections
  | ContextError string
  | DecodeInventory string
  | NoRunnersArray
  | InventoryName string
  | InventoryOS string string
  | InventoryCase string string
  | InventoryLabel string
  | InventoryScope

subsection \<open>Selectors of a job\<close>

definition literalConstraint :: "string \<Rightarrow> source_pos \<Rightarrow> runner_constraint" where
  "literalConstraint s p = \<lparr>cn_value = TermLiteral s, cn_position = diag_position p\<rparr>"

definition rawConstraint :: "raw_yaml option \<Rightarrow> bool \<Rightarrow> runner_constraint option" where
  "rawConstraint raw nullIsLabel =
     (case raw of
        Some (RawYAMLString v tag p) \<Rightarrow>
          if nullIsLabel \<or> ScalarValue v tag \<noteq> JNull
          then map_option (\<lambda>s. literalConstraint s p) (ScalarString (ScalarValue v tag)) else None
      | _ \<Rightarrow> None)"

definition all_some :: "'a option list \<Rightarrow> 'a list option" where
  "all_some xs = (if None \<in> set xs then None else Some (map the xs))"

definition rawConstraints :: "raw_yaml option \<Rightarrow> bool \<Rightarrow> runner_constraint list option" where
  "rawConstraints raw nullIsLabel =
     (case raw of
        Some (RawYAMLArray vs _) \<Rightarrow> all_some (map (\<lambda>v. rawConstraint (Some v) nullIsLabel) vs)
      | _ \<Rightarrow> map_option (\<lambda>c. [c]) (rawConstraint raw nullIsLabel))"

text \<open>The value of a label, of which the encoder or the parser may give nil.\<close>

definition selectorValue :: "(json \<Rightarrow> ynode option) \<Rightarrow> wstring \<Rightarrow> raw_combination \<Rightarrow> raw_yaml option option" where
  "selectorValue encode v combination =
     (case (if runnerMatrixProperty v \<noteq> [] then map_of combination (runnerMatrixProperty v) else None) of
        Some raw \<Rightarrow> Some (Some raw)
      | None \<Rightarrow>
          (case WorkflowExpressionLiteral v of
             None \<Rightarrow> None
           | Some l \<Rightarrow> map_option (\<lambda>n. parsed (ParseRawYAMLValue (set_position (ws_pos v) n))) (encode l)))"

definition selectorConstraint :: "(json \<Rightarrow> ynode option) \<Rightarrow> wstring \<Rightarrow> raw_combination \<Rightarrow> runner_constraint" where
  "selectorConstraint encode v combination =
     (if \<not> ws_ContainsExpression v then literalConstraint (ws_value v) (ws_pos v)
      else case (case selectorValue encode v combination of Some raw \<Rightarrow> rawConstraint raw False | None \<Rightarrow> None) of
          Some c \<Rightarrow> c
        | None \<Rightarrow> (literalConstraint (ws_value v) (ws_pos v))\<lparr>cn_value := TermExpression (ws_value v)\<rparr>)"

definition selectorLabels :: "(json \<Rightarrow> ynode option) \<Rightarrow> wstring \<Rightarrow> raw_combination \<Rightarrow> runner_constraint list" where
  "selectorLabels encode v combination =
     (case (case selectorValue encode v combination of
              Some raw \<Rightarrow> rawConstraints raw (runnerMatrixProperty v \<noteq> []) | None \<Rightarrow> None) of
        Some cs \<Rightarrow> cs
      | None \<Rightarrow> [selectorConstraint encode v combination])"

text \<open>The members of a runner object, each name once; \<open>None\<close> for one that is not valid.\<close>

fun fill_members :: "bool \<Rightarrow> string list \<Rightarrow> runner_selector \<Rightarrow> (string \<times> raw_yaml) list \<Rightarrow> runner_selector option" where
  "fill_members nullIsLabel seen s [] = (if seen = [] then None else Some s)"
| "fill_members nullIsLabel seen s ((n, v) # ms) =
     (let name = to_lower n in
      if name \<in> set seen then None
      else if name = ''labels'' then
        (case rawConstraints (Some v) nullIsLabel of
           None \<Rightarrow> None | Some cs \<Rightarrow> fill_members nullIsLabel (name # seen) (s\<lparr>se_labels := cs\<rparr>) ms)
      else if name = ''group'' then
        (case rawConstraint (Some v) False of
           None \<Rightarrow> None | Some c \<Rightarrow> fill_members nullIsLabel (name # seen) (s\<lparr>se_group := Some c\<rparr>) ms)
      else None)"

definition fillSelector :: "runner_selector \<Rightarrow> raw_yaml option \<Rightarrow> bool \<Rightarrow> runner_selector option" where
  "fillSelector s raw nullIsLabel =
     (case raw of
        Some (RawYAMLObject ms _) \<Rightarrow> fill_members nullIsLabel [] s ms
      | _ \<Rightarrow> map_option (\<lambda>cs. s\<lparr>se_labels := cs\<rparr>) (rawConstraints raw nullIsLabel))"

definition empty_selector :: runner_selector where
  "empty_selector = \<lparr>se_incomplete = False, se_labels = [], se_group = None, se_expression = []\<rparr>"

definition selectorForRunner :: "(json \<Rightarrow> ynode option) \<Rightarrow> job_runner \<Rightarrow> raw_combination \<Rightarrow> runner_selector" where
  "selectorForRunner encode r combination =
     (let s = empty_selector\<lparr>se_group := map_option (\<lambda>g. selectorConstraint encode g combination) (rn_group r)\<rparr> in
      case rn_expression r of
        Some e \<Rightarrow>
          (case (case selectorValue encode e combination of
                   Some raw \<Rightarrow> fillSelector s raw (runnerMatrixProperty e \<noteq> []) | None \<Rightarrow> None) of
             Some s' \<Rightarrow> s'
           | None \<Rightarrow> empty_selector\<lparr>se_expression := ws_value e\<rparr>)
      | None \<Rightarrow>
          s\<lparr>se_labels := (case rn_labels_expr r of
              Some e \<Rightarrow> selectorLabels encode e combination
            | None \<Rightarrow> concat (map (\<lambda>l. selectorLabels encode l combination) (rn_labels r)))\<rparr>)"

definition known_value :: "bool \<Rightarrow> raw_yaml \<Rightarrow> raw_yaml list" where
  "known_value expressions v = (if \<not> expressions \<or> \<not> ContainsExpression (raw_String v) then [v] else [])"

definition partialMatrixValues :: "(json \<Rightarrow> ynode option) \<Rightarrow> strategy \<Rightarrow> string \<Rightarrow> raw_yaml list" where
  "partialMatrixValues encode st property =
     (case (case sy_expression st of Some e \<Rightarrow> KnownStrategy encode e | None \<Rightarrow> sy_matrix st) of
        None \<Rightarrow> []
      | Some m \<Rightarrow>
          (case fst (Expand encode m) of
             None \<Rightarrow> []
           | Some m \<Rightarrow>
               (case map_of (mx_rows m) property of
                  Some row \<Rightarrow> concat (map (\<lambda>(v, ex). known_value ex v) (fst (RowElements encode row True)))
                | None \<Rightarrow> []) @
               concat (map (\<lambda>(c, ex). case map_of (mc_assigns c) property of
                   Some a \<Rightarrow> known_value ex (ma_value a) | None \<Rightarrow> [])
                 (Combinations encode (mx_include m) True))))"

definition partial_selectors :: "(json \<Rightarrow> ynode option) \<Rightarrow> job_runner \<Rightarrow> strategy \<Rightarrow> wstring \<Rightarrow> runner_selector list" where
  "partial_selectors encode r st label =
     (let property = runnerMatrixProperty label in
      if property = [] then []
      else map (\<lambda>v. (selectorForRunner encode r [(property, v)])\<lparr>se_incomplete := True\<rparr>)
             (partialMatrixValues encode st property))"

definition option_items :: "'a option \<Rightarrow> 'a list" where
  "option_items x = (case x of None \<Rightarrow> [] | Some y \<Rightarrow> [y])"

definition Selectors :: "(json \<Rightarrow> ynode option) \<Rightarrow> wf_job \<Rightarrow> runner_selector list" where
  "Selectors encode job =
     (case wj_runs_on job of
        None \<Rightarrow> []
      | Some r \<Rightarrow>
          (case MatrixCombinations encode (wj_strategy job) of
             Some combinations \<Rightarrow> map (selectorForRunner encode r) combinations
           | None \<Rightarrow>
               selectorForRunner encode r [] #
               (case wj_strategy job of
                  None \<Rightarrow> []
                | Some st \<Rightarrow>
                    concat (map (partial_selectors encode r st)
                      (rn_labels r @ option_items (rn_expression r) @ option_items (rn_labels_expr r))))))"

subsection \<open>What labels say of a job\<close>

record job_knowledge =
  jk_paths_known :: bool
  jk_platform :: platform
  jk_shell :: string
  jk_case_insensitive :: bool
  jk_sh_is_dash :: bool
  jk_ephemeral :: bool
  jk_findings :: "runner_msg diagnostic list"
  jk_answers :: "resolution answer list"

definition empty_knowledge :: job_knowledge where
  "empty_knowledge =
     \<lparr>jk_paths_known = False, jk_platform = AnyPlatform, jk_shell = [], jk_case_insensitive = False,
      jk_sh_is_dash = False, jk_ephemeral = False, jk_findings = [], jk_answers = []\<rparr>"

definition label_names :: "job_runner option \<Rightarrow> string list" where
  "label_names r = (case r of None \<Rightarrow> [] | Some r \<Rightarrow> map (\<lambda>l. to_lower (ws_value l)) (runner_labels r))"

definition mac_image_name :: "string \<Rightarrow> bool" where
  "mac_image_name name \<longleftrightarrow> has_prefix name ''macos-'' \<or> has_prefix name ''xcode-''"

definition on_macos :: "string \<Rightarrow> bool" where
  "on_macos name \<longleftrightarrow> compat_of name AND compat_of ''macos'' \<noteq> 0"

definition builtinJob :: "job_runner option \<Rightarrow> job_knowledge" where
  "builtinJob r =
     (let p = PlatformOf r; hosted = Hosted r; names = label_names r
      in empty_knowledge\<lparr>
        jk_platform := p,
        jk_ephemeral := hosted,
        jk_shell := (case p of MacOrLinux \<Rightarrow> ''bash'' | WindowsPlatform \<Rightarrow> ''pwsh'' | AnyPlatform \<Rightarrow> []),
        jk_case_insensitive := (p = WindowsPlatform \<or> (hosted \<and> list_all mac_image_name names)),
        jk_sh_is_dash := (hosted \<and> list_all (\<lambda>n. has_prefix n ''ubuntu-'') names),
        jk_paths_known := (p \<noteq> AnyPlatform \<and> (\<not> list_ex on_macos names \<or> hosted))\<rparr>)"

subsection \<open>The join of answers\<close>

definition candidatePlatform :: "runner_candidate \<Rightarrow> platform" where
  "candidatePlatform c =
     (if rc_os c = WindowsOS then WindowsPlatform
      else if rc_os c = LinuxOS \<or> rc_os c = MacOS then MacOrLinux else AnyPlatform)"

definition rejection_finding :: "source_pos \<Rightarrow> rejection \<Rightarrow> runner_msg diagnostic" where
  "rejection_finding job_pos r =
     \<lparr>dg_rule = ''runner-label'',
      dg_start = (if dp_line (rj_position r) = 0 then diag_position job_pos else rj_position r),
      dg_message = rj_reason r\<rparr>"

definition add_finding :: "source_pos \<Rightarrow> runner_msg diagnostic list \<Rightarrow> rejection \<Rightarrow> runner_msg diagnostic list" where
  "add_finding job_pos fs r =
     (let f = rejection_finding job_pos r in
      if list_ex (\<lambda>d. dg_start d = dg_start f \<and> dg_message d = dg_message f) fs then fs else fs @ [f])"

record join_state =
  js_candidates :: "runner_candidate list"
  js_uncertain :: bool
  js_findings :: "runner_msg diagnostic list"

definition join_answer :: "source_pos \<Rightarrow> resolution answer \<Rightarrow> join_state \<Rightarrow> runner_error + join_state" where
  "join_answer job_pos a s =
     (let unsure = Inr (s\<lparr>js_uncertain := True\<rparr>); surely = ev_complete (an_evidence a) in
      if ev_freshness (an_evidence a) \<noteq> freshness_Fresh then unsure
      else case an_resolution a of
          Resolved cs \<Rightarrow>
            if cs = [] then Inl NoCandidates
            else if \<not> surely then unsure
            else Inr (s\<lparr>js_candidates := js_candidates s @ cs\<rparr>)
        | NoMatch rs \<Rightarrow>
            if rs = [] then Inl NoRejections
            else if \<not> surely then unsure
            else Inr (s\<lparr>js_uncertain := True, js_findings := foldl (add_finding job_pos) (js_findings s) rs\<rparr>)
        | UnknownRunner reason \<Rightarrow> unsure
        | NotApplicable \<Rightarrow> unsure)"

fun join_loop :: "source_pos \<Rightarrow> resolution answer list \<Rightarrow> join_state \<Rightarrow> runner_error + join_state" where
  "join_loop job_pos [] s = Inr s"
| "join_loop job_pos (a # as) s =
     (case join_answer job_pos a s of Inl e \<Rightarrow> Inl e | Inr s' \<Rightarrow> join_loop job_pos as s')"

definition agreed :: "'a \<Rightarrow> ('c \<Rightarrow> 'a) \<Rightarrow> 'c \<Rightarrow> 'c list \<Rightarrow> 'a" where
  "agreed none f c cs = foldl (\<lambda>x d. if f d \<noteq> x then none else x) (f c) cs"

definition candidates_knowledge :: "job_knowledge \<Rightarrow> runner_candidate \<Rightarrow> runner_candidate list \<Rightarrow> job_knowledge" where
  "candidates_knowledge k c cs =
     (let platform = agreed AnyPlatform candidatePlatform c cs;
          sensitivity = agreed UnknownCase rc_case_sensitivity c cs
      in k\<lparr>jk_platform := platform,
           jk_shell := agreed [] rc_default_shell c cs,
           jk_sh_is_dash := list_all rc_sh_is_dash (c # cs),
           jk_ephemeral := list_all rc_ephemeral (c # cs),
           jk_paths_known := (platform \<noteq> AnyPlatform \<and> sensitivity \<in> {CaseSensitive, CaseInsensitive}),
           jk_case_insensitive := (sensitivity = CaseInsensitive)\<rparr>)"

definition joinAnswers :: "source_pos \<Rightarrow> resolution answer list \<Rightarrow> runner_error + job_knowledge" where
  "joinAnswers job_pos answers =
     (case join_loop job_pos answers \<lparr>js_candidates = [], js_uncertain = False, js_findings = []\<rparr> of
        Inl e \<Rightarrow> Inl e
      | Inr s \<Rightarrow>
          let k = empty_knowledge\<lparr>jk_answers := answers, jk_findings := js_findings s\<rparr>
          in Inr (case js_candidates s of
              [] \<Rightarrow> k
            | c # cs \<Rightarrow> if js_uncertain s then k else candidates_knowledge k c cs))"

subsection \<open>The provider of hosted runners\<close>

definition literal_label :: "runner_constraint \<Rightarrow> wstring option" where
  "literal_label c =
     (case cn_value c of
        TermLiteral v \<Rightarrow>
          Some \<lparr>ws_value = v, ws_quoted = False,
                ws_pos = \<lparr>at_line = dp_line (cn_position c), at_col = dp_column (cn_position c)\<rparr>\<rparr>
      | TermExpression _ \<Rightarrow> None)"

definition has_expression :: "runner_constraint \<Rightarrow> bool" where
  "has_expression c \<longleftrightarrow> (case cn_value c of TermExpression _ \<Rightarrow> True | TermLiteral _ \<Rightarrow> False)"

definition hosted_candidate :: "wstring list \<Rightarrow> bool \<Rightarrow> runner_candidate" where
  "hosted_candidate labels has_group =
     (let group = (if has_group then Some \<lparr>ws_value = ''group'', ws_quoted = False, ws_pos = no_pos\<rparr> else None);
          k = builtinJob (Some \<lparr>rn_expression = None, rn_labels = labels, rn_labels_expr = None, rn_group = group\<rparr>)
      in \<lparr>rc_name = ''github'',
          rc_os = (case jk_platform k of
              WindowsPlatform \<Rightarrow> WindowsOS
            | MacOrLinux \<Rightarrow> if list_ex (\<lambda>l. on_macos (to_lower (ws_value l))) labels then MacOS else LinuxOS
            | AnyPlatform \<Rightarrow> UnknownOS),
          rc_architecture = [],
          rc_default_shell = jk_shell k,
          rc_case_sensitivity = (if \<not> jk_paths_known k then UnknownCase
            else if jk_case_insensitive k then CaseInsensitive else CaseSensitive),
          rc_sh_is_dash = jk_sh_is_dash k,
          rc_ephemeral = jk_ephemeral k\<rparr>)"

definition hosted_resolution :: "string list \<Rightarrow> runner_selector \<Rightarrow> resolution" where
  "hosted_resolution custom se =
     (let labels = concat (map (\<lambda>c. option_items (literal_label c)) (se_labels se));
          s = fold verify_and_check labels \<lparr>lc_rejections = [], lc_labels = custom, lc_compats = []\<rparr>;
          group_open = (case se_group se of None \<Rightarrow> False | Some g \<Rightarrow> has_expression g)
      in if lc_rejections s \<noteq> [] then NoMatch (lc_rejections s)
         else if se_expression se \<noteq> [] \<or> se_incomplete se \<or> group_open \<or> list_ex has_expression (se_labels se)
         then UnknownRunner ''runner selector depends on runtime values''
         else Resolved [hosted_candidate labels (se_group se \<noteq> None)])"

definition hosted_answer :: "string \<Rightarrow> string list \<Rightarrow> runner_request \<Rightarrow> runner_selector \<Rightarrow> resolution answer" where
  "hosted_answer dataset custom rq se =
     \<lparr>an_resolution = (if rq_target rq \<noteq> ''github'' then NotApplicable else hosted_resolution custom se),
      an_evidence = \<lparr>ev_dataset = dataset, ev_scope = rq_scope rq, ev_obtained_at = [],
        ev_freshness = freshness_Fresh, ev_complete = True\<rparr>\<rparr>"

text \<open>One answer for each selector, unless the context has an error when it is asked.\<close>

fun answer_selectors :: "(nat \<Rightarrow> string option) \<Rightarrow> nat \<Rightarrow> ('s \<Rightarrow> runner_error + 'a) \<Rightarrow> 's list \<Rightarrow> runner_error + 'a list" where
  "answer_selectors ctx n f [] = Inr []"
| "answer_selectors ctx n f (s # ss) =
     (case ctx n of
        Some e \<Rightarrow> Inl (ContextError e)
      | None \<Rightarrow>
          (case f s of
             Inl e \<Rightarrow> Inl e
           | Inr a \<Rightarrow> map_sum id ((#) a) (answer_selectors ctx (Suc n) f ss)))"

definition builtin_ResolveRunners ::
  "(nat \<Rightarrow> string option) \<Rightarrow> string \<Rightarrow> string list \<Rightarrow> runner_request \<Rightarrow> runner_error + resolution answer list" where
  "builtin_ResolveRunners ctx dataset custom rq =
     answer_selectors ctx 0 (\<lambda>se. Inr (hosted_answer dataset custom rq se)) (rq_selectors rq)"

subsection \<open>The provider of an inventory\<close>

record inventory_runner =
  ir_name :: string
  ir_labels :: "string list"
  ir_group :: string
  ir_os :: string
  ir_architecture :: string
  ir_default_shell :: string
  ir_case_sensitivity :: string
  ir_sh_is_dash :: bool
  ir_ephemeral :: bool

text \<open>The runners of an inventory, \<open>None\<close> if its array is missing.\<close>

type_synonym inventory = "inventory_runner list option"

definition runner_problem :: "string list \<Rightarrow> inventory_runner \<Rightarrow> runner_error option" where
  "runner_problem names r =
     (if trim_space (ir_name r) = [] \<or> ir_name r \<in> set names then Some (InventoryName (ir_name r))
      else if ir_os r \<notin> {[], UnknownOS, LinuxOS, MacOS, WindowsOS} then Some (InventoryOS (ir_name r) (ir_os r))
      else if ir_case_sensitivity r \<notin> {[], UnknownCase, CaseSensitive, CaseInsensitive}
      then Some (InventoryCase (ir_name r) (ir_case_sensitivity r))
      else if list_ex (\<lambda>l. trim_space l = []) (ir_labels r) then Some (InventoryLabel (ir_name r))
      else None)"

fun validate_runners :: "string list \<Rightarrow> inventory_runner list \<Rightarrow> runner_error option" where
  "validate_runners names [] = None"
| "validate_runners names (r # rs) =
     (case runner_problem names r of Some e \<Rightarrow> Some e | None \<Rightarrow> validate_runners (ir_name r # names) rs)"

definition validate_inventory :: "inventory \<Rightarrow> runner_error option" where
  "validate_inventory i = (case i of None \<Rightarrow> Some NoRunnersArray | Some rs \<Rightarrow> validate_runners [] rs)"

definition unresolvedSelector :: "runner_selector \<Rightarrow> bool" where
  "unresolvedSelector se \<longleftrightarrow>
     se_incomplete se \<or> se_expression se \<noteq> []
     \<or> (case se_group se of None \<Rightarrow> False | Some g \<Rightarrow> has_expression g)
     \<or> list_ex has_expression (se_labels se)"

definition runner_matches :: "runner_selector \<Rightarrow> inventory_runner \<Rightarrow> bool" where
  "runner_matches se r \<longleftrightarrow>
     (case se_group se of None \<Rightarrow> True | Some g \<Rightarrow> cn_value g = TermLiteral (ir_group r))
     \<and> list_all (\<lambda>c. case cn_value c of
           TermLiteral v \<Rightarrow> list_ex (equal_fold v) (ir_labels r) | TermExpression _ \<Rightarrow> False) (se_labels se)"

definition inventory_candidate :: "inventory_runner \<Rightarrow> runner_candidate" where
  "inventory_candidate r =
     \<lparr>rc_name = ir_name r, rc_os = (if ir_os r = [] then UnknownOS else ir_os r),
      rc_architecture = ir_architecture r, rc_default_shell = ir_default_shell r,
      rc_case_sensitivity = (if ir_case_sensitivity r = [] then UnknownCase else ir_case_sensitivity r),
      rc_sh_is_dash = ir_sh_is_dash r, rc_ephemeral = ir_ephemeral r\<rparr>"

definition resolve_inventory :: "inventory_runner list \<Rightarrow> runner_selector \<Rightarrow> resolution" where
  "resolve_inventory rs se =
     (case filter (runner_matches se) rs of
        [] \<Rightarrow> NoMatch [\<lparr>rj_position = \<lparr>dp_line = 0, dp_column = 0\<rparr>,
            rj_reason = ProviderReason ''no runner matches all labels and group in the selected inventory''\<rparr>]
      | ms \<Rightarrow> Resolved (map inventory_candidate ms))"

definition snapshot_evidence :: "(runner_snapshot \<Rightarrow> string) \<Rightarrow> runner_request \<Rightarrow> runner_evidence" where
  "snapshot_evidence identity rq =
     (let sn = rq_snapshot rq; dataset = ''snapshot:'' @ identity sn in
      if sn_content sn = []
      then \<lparr>ev_dataset = dataset, ev_scope = rq_scope rq, ev_obtained_at = sn_obtained_at sn,
            ev_freshness = freshness_Missing, ev_complete = False\<rparr>
      else \<lparr>ev_dataset = dataset, ev_scope = sn_scope sn, ev_obtained_at = sn_obtained_at sn,
            ev_freshness = sn_freshness sn, ev_complete = sn_complete sn\<rparr>)"

definition inventory_answer :: "runner_evidence \<Rightarrow> inventory_runner list \<Rightarrow> runner_request \<Rightarrow> runner_selector \<Rightarrow>
    runner_error + resolution answer" where
  "inventory_answer ev rs rq se =
     (let give = (\<lambda>r. Inr \<lparr>an_resolution = r, an_evidence = ev\<rparr>) in
      if rq_target rq \<noteq> ''github'' then give NotApplicable
      else if ev_scope ev \<noteq> rq_scope rq then Inl InventoryScope
      else if ev_freshness ev \<noteq> freshness_Fresh \<or> \<not> ev_complete ev
      then give (UnknownRunner ''runner inventory is missing, stale or incomplete'')
      else if unresolvedSelector se then give (UnknownRunner ''runner selector depends on runtime values'')
      else give (resolve_inventory rs se))"

definition snapshot_ResolveRunners ::
  "(nat \<Rightarrow> string option) \<Rightarrow> (runner_snapshot \<Rightarrow> string) \<Rightarrow> (string \<Rightarrow> string + inventory) \<Rightarrow> runner_request \<Rightarrow>
   runner_error + resolution answer list" where
  "snapshot_ResolveRunners ctx identity decode rq =
     (case ctx 0 of
        Some e \<Rightarrow> Inl (ContextError e)
      | None \<Rightarrow>
          let content = sn_content (rq_snapshot rq) in
          case (if rq_target rq = ''github'' \<and> content \<noteq> [] then map_sum DecodeInventory id (decode content) else Inr (Some [])) of
            Inl e \<Rightarrow> Inl e
          | Inr i \<Rightarrow>
              (case validate_inventory i of
                 Some e \<Rightarrow> Inl e
               | None \<Rightarrow>
                   answer_selectors ctx 1
                     (inventory_answer (snapshot_evidence identity rq) (case i of Some rs \<Rightarrow> rs | None \<Rightarrow> []) rq)
                     (rq_selectors rq)))"

subsection \<open>Preparing a document\<close>

text \<open>A registered provider: its descriptor, how it resolves, and the identity of its implementation.\<close>

record runner_provider =
  pv_descriptor :: runner_descriptor
  pv_resolve :: "runner_request \<Rightarrow> runner_error + returned_resolution answer list"
  pv_identity :: string

record runner_options =
  op_target :: string
  op_provider :: string
  op_scope :: string
  op_snapshot :: runner_snapshot
  op_providers :: "runner_provider option list"

record runner_report =
  rr_identity :: string
  rr_provider :: runner_descriptor
  rr_artifact :: string
  rr_target :: string
  rr_scope :: string
  rr_snapshot :: string
  rr_answers :: "resolution answer list"

fun select_provider :: "string \<Rightarrow> string \<Rightarrow> runner_provider option \<Rightarrow> runner_provider option list \<Rightarrow>
    runner_error + runner_provider option" where
  "select_provider target name selected [] = Inr selected"
| "select_provider target name selected (None # ps) = Inl NilProvider"
| "select_provider target name selected (Some p # ps) =
     (if target = ''github'' \<and> name = [] then select_provider target name selected ps
      else if target \<notin> set (de_targets (pv_descriptor p)) \<or> (name \<noteq> [] \<and> de_name (pv_descriptor p) \<noteq> name)
      then select_provider target name selected ps
      else if selected \<noteq> None then Inl (ConflictingProviders target)
      else select_provider target name (Some p) ps)"

fun resolutionValue :: "returned_resolution \<Rightarrow> runner_error + resolution" where
  "resolutionValue (ByValue r) = Inr r"
| "resolutionValue (ByPointer (Some r)) = Inr r"
| "resolutionValue (ByPointer None) = Inl InvalidResolution"
| "resolutionValue NoResolution = Inl InvalidResolution"

definition related_position :: "runner_selector \<Rightarrow> diag_pos \<Rightarrow> bool" where
  "related_position se p \<longleftrightarrow>
     (dp_line p = 0 \<and> dp_column p = 0) \<or> list_ex (\<lambda>l. cn_position l = p) (se_labels se)
     \<or> (case se_group se of None \<Rightarrow> False | Some g \<Rightarrow> cn_position g = p)"

text \<open>One answer of a provider, checked and weakened.\<close>

definition check_answer :: "string \<Rightarrow> runner_snapshot option \<Rightarrow> runner_selector \<Rightarrow> returned_resolution answer \<Rightarrow>
    runner_error + resolution answer" where
  "check_answer scope snapshot se a =
     (case resolutionValue (an_resolution a) of
        Inl e \<Rightarrow> Inl e
      | Inr r \<Rightarrow>
          if ev_scope (an_evidence a) \<noteq> scope then Inl AnswerScope
          else if ev_dataset (an_evidence a) = [] then Inl NoDataset
          else
            let ev = (case snapshot of
                  None \<Rightarrow> an_evidence a
                | Some sn \<Rightarrow> (an_evidence a)
                    \<lparr>ev_freshness := (if sn_freshness sn \<noteq> freshness_Fresh then sn_freshness sn else ev_freshness (an_evidence a)),
                     ev_complete := (ev_complete (an_evidence a) \<and> sn_complete sn)\<rparr>);
                r' = (case r of
                    Resolved cs \<Rightarrow> if se_incomplete se then UnknownRunner ''selector alternatives are incomplete'' else r
                  | _ \<Rightarrow> r)
            in case r' of
                NoMatch rs \<Rightarrow>
                  if list_all (\<lambda>x. related_position se (rj_position x)) rs
                  then Inr \<lparr>an_resolution = r', an_evidence = ev\<rparr> else Inl UnrelatedRejection
              | _ \<Rightarrow> Inr \<lparr>an_resolution = r', an_evidence = ev\<rparr>)"

fun check_answers :: "string \<Rightarrow> runner_snapshot option \<Rightarrow> (runner_selector \<times> returned_resolution answer) list \<Rightarrow>
    runner_error + resolution answer list" where
  "check_answers scope snapshot [] = Inr []"
| "check_answers scope snapshot ((se, a) # as) =
     (case check_answer scope snapshot se a of
        Inl e \<Rightarrow> Inl e
      | Inr b \<Rightarrow> map_sum id ((#) b) (check_answers scope snapshot as))"

text \<open>The jobs with a runner in the order of their names, each with its selectors.\<close>

definition runner_jobs :: "(json \<Rightarrow> ynode option) \<Rightarrow> (string \<times> wf_job) list \<Rightarrow> (string \<times> wf_job \<times> runner_selector list) list" where
  "runner_jobs encode jobs =
     map (\<lambda>(n, j). (n, j, Selectors encode j)) (filter (\<lambda>(n, j). wj_runs_on j \<noteq> None) (sort_key fst jobs))"

fun join_jobs :: "string \<Rightarrow> (string \<times> wf_job \<times> runner_selector list) list \<Rightarrow> resolution answer list \<Rightarrow>
    runner_error + (string \<times> job_knowledge) list" where
  "join_jobs provider [] answers = Inr []"
| "join_jobs provider ((n, j, ss) # js) answers =
     (case joinAnswers (wj_pos j) (take (length ss) answers) of
        Inl e \<Rightarrow> Inl (ProviderError provider e)
      | Inr k \<Rightarrow> map_sum id ((#) (n, k)) (join_jobs provider js (drop (length ss) answers)))"

definition no_snapshot :: runner_snapshot where
  "no_snapshot = \<lparr>sn_content = [], sn_scope = [], sn_obtained_at = [], sn_freshness = [], sn_complete = False\<rparr>"

text \<open>
  \<open>Prepare\<close> for a workflow with jobs: \<open>builtin\<close> and \<open>inventory\<close> are the two providers of this package,
  \<open>digest\<close> is the identity of a report before and after the answers are known. The knowledge and
  the report are returned beside the error, as in Go.
\<close>

definition Prepare ::
  "(json \<Rightarrow> ynode option) \<Rightarrow> runner_provider \<Rightarrow> runner_provider \<Rightarrow> (runner_snapshot \<Rightarrow> string) \<Rightarrow>
   (runner_request \<Rightarrow> runner_descriptor \<Rightarrow> string \<Rightarrow> resolution answer list option \<Rightarrow> string) \<Rightarrow>
   (string \<times> wf_job) list \<Rightarrow> runner_options \<Rightarrow> string \<Rightarrow>
   ((string \<times> job_knowledge) list \<times> runner_report option) \<times> runner_error option" where
  "Prepare encode builtin inventory snapshot_id digest jobs options default_scope =
     (let failed = (\<lambda>e. (([], None), Some e));
          target = (if op_target options = [] then ''github'' else op_target options);
          given = (op_snapshot options \<noteq> no_snapshot);
          sn = (op_snapshot options)\<lparr>sn_freshness :=
                  (if sn_freshness (op_snapshot options) = [] then freshness_Missing else sn_freshness (op_snapshot options))\<rparr>;
          scope = (if op_scope options \<noteq> [] then op_scope options else default_scope);
          own = (if target = ''github'' \<and> op_provider options \<in> {[], ''github''} then Some builtin
                 else if target = ''github'' \<and> op_provider options = ''snapshot'' then Some inventory else None)
      in
      if sn_freshness sn \<notin> {freshness_Fresh, freshness_Stale, freshness_Missing} then failed InvalidFreshness
      else if given \<and> sn_scope sn \<noteq> scope then failed SnapshotScope
      else case select_provider target (op_provider options) own (op_providers options) of
          Inl e \<Rightarrow> failed e
        | Inr None \<Rightarrow> failed (NoProvider (op_provider options) target)
        | Inr (Some p) \<Rightarrow>
            let ranges = runner_jobs encode jobs; selectors = concat (map (\<lambda>(n, j, ss). ss) ranges) in
            if selectors = [] then (([], None), None)
            else
              let rq = \<lparr>rq_target = target, rq_scope = scope, rq_snapshot = sn, rq_selectors = selectors\<rparr>;
                  report = \<lparr>rr_identity = digest rq (pv_descriptor p) (pv_identity p) None, rr_provider = pv_descriptor p,
                    rr_artifact = pv_identity p, rr_target = target, rr_scope = scope, rr_snapshot = snapshot_id sn,
                    rr_answers = []\<rparr>;
                  name = de_name (pv_descriptor p);
                  stopped = (\<lambda>e. (([], Some report), Some e))
              in case pv_resolve p rq of
                  Inl e \<Rightarrow> stopped (ProviderError name e)
                | Inr answers \<Rightarrow>
                    if length answers \<noteq> length selectors then stopped (AnswerCount (length answers) (length selectors))
                    else case check_answers scope (if given then Some sn else None) (zip selectors answers) of
                        Inl e \<Rightarrow> stopped e
                      | Inr checked \<Rightarrow>
                          let report' = report\<lparr>rr_answers := checked,
                                rr_identity := digest rq (pv_descriptor p) (pv_identity p) (Some checked)\<rparr>
                          in case join_jobs name ranges checked of
                              Inl e \<Rightarrow> (([], Some report'), Some e)
                            | Inr ks \<Rightarrow> ((ks, Some report'), None))"

end
