(* ===== verification/Runner_Spec.thy ===== *)
theory Runner_Spec
  imports Runner_Knowledge Job_Parse
begin

text \<open>
  Properties of runner labels. The images of the table are nested or disjoint, so labels that are
  compatible in pairs have an image in common: the pairwise check of the code is a joint one. The
  join of a provider's answers holds of every candidate.
\<close>

subsection \<open>Conflicts\<close>

definition laminar :: "os_compat list \<Rightarrow> bool" where
  "laminar cs \<longleftrightarrow> list_all (\<lambda>a. list_all (\<lambda>b. a AND b = 0 \<or> a AND b = a \<or> a AND b = b) cs) cs"

lemma laminar_table: "laminar (remdups (map snd defaultRunnerOSCompats))"
  by (simp add: laminar_def defaultRunnerOSCompats_def)

lemma table_nested:
  assumes "a \<in> snd ` set defaultRunnerOSCompats" "b \<in> snd ` set defaultRunnerOSCompats" "a AND b \<noteq> 0"
  shows "a AND b = a \<or> a AND b = b"
  using laminar_table assms by (fastforce simp: laminar_def list_all_iff)

lemma nonzero_bit: "(a :: os_compat) \<noteq> 0 \<Longrightarrow> \<exists>i. bit a i"
  by (rule ccontr) (auto intro: bit_eqI)

lemma and_absorb: "(x :: os_compat) AND m = x \<Longrightarrow> m AND d = m \<Longrightarrow> x AND d = x"
  by (metis and.assoc)

lemma least_image_set:
  assumes "finite B" "B \<noteq> {}" "B \<subseteq> snd ` set defaultRunnerOSCompats" "\<forall>a\<in>B. \<forall>b\<in>B. a AND b \<noteq> 0"
  shows "\<exists>m\<in>B. \<forall>d\<in>B. m AND d = m"
  using assms
proof (induction rule: finite_ne_induct)
  case (insert x F)
  then obtain m where m: "m \<in> F" "\<forall>d\<in>F. m AND d = m" by auto
  have "x AND m = x \<or> x AND m = m" using insert.prems m(1) by (intro table_nested) auto
  then show ?case
  proof
    assume x: "x AND m = x"
    then have "\<forall>d\<in>insert x F. x AND d = x" using m(2) and_absorb [OF x] by simp
    then show ?thesis by blast
  next
    assume "x AND m = m"
    then have "m AND x = m" by (simp add: and.commute)
    then have "\<forall>d\<in>insert x F. m AND d = m" using m(2) by simp
    then show ?thesis using m(1) by blast
  qed
qed simp

lemma common_image_iff:
  assumes "finite B" "B \<subseteq> snd ` set defaultRunnerOSCompats" "0 \<notin> B"
  shows "(\<forall>a\<in>B. \<forall>b\<in>B. a AND b \<noteq> 0) \<longleftrightarrow> (\<exists>i. \<forall>a\<in>B. bit a i)"
proof
  assume *: "\<forall>a\<in>B. \<forall>b\<in>B. a AND b \<noteq> 0"
  show "\<exists>i. \<forall>a\<in>B. bit a i"
  proof (cases "B = {}")
    case False
    then obtain m where m: "m \<in> B" "\<forall>d\<in>B. m AND d = m" using least_image_set [OF assms(1) False assms(2) *] by blast
    then obtain i where "bit m i" using assms(3) nonzero_bit by metis
    then have "\<forall>a\<in>B. bit a i" using m(2) by (metis bit_and_iff)
    then show ?thesis by blast
  qed simp
next
  assume "\<exists>i. \<forall>a\<in>B. bit a i"
  then show "\<forall>a\<in>B. \<forall>b\<in>B. a AND b \<noteq> 0" by (metis bit_and_iff bit_0_eq bot_apply bot_bool_def)
qed

definition label_images :: "string list \<Rightarrow> wstring \<Rightarrow> os_compat" where
  "label_images custom l = fst (verifyRunnerLabel l \<lparr>lc_rejections = [], lc_labels = custom, lc_compats = []\<rparr>)"

fun is_conflict :: "runner_msg \<Rightarrow> bool" where
  "is_conflict (LabelConflict _ _ _) = True"
| "is_conflict _ = False"

definition conflicts :: "label_checker \<Rightarrow> rejection list" where
  "conflicts s = filter (\<lambda>r. is_conflict (rj_reason r)) (lc_rejections s)"

lemma map_of_hosted: "map_of defaultRunnerOSCompats k = Some c \<Longrightarrow> c \<in> snd ` set defaultRunnerOSCompats \<and> c \<noteq> 0"
proof -
  assume "map_of defaultRunnerOSCompats k = Some c"
  then have "(k, c) \<in> set defaultRunnerOSCompats" by (rule map_of_SomeD)
  moreover have "\<forall>(k, c)\<in>set defaultRunnerOSCompats. c \<noteq> 0" by (simp add: defaultRunnerOSCompats_def)
  ultimately show ?thesis by force
qed

lemma label_images_table: "label_images custom l \<noteq> 0 \<Longrightarrow> label_images custom l \<in> snd ` set defaultRunnerOSCompats"
  unfolding label_images_def verifyRunnerLabel_def Let_def compat_of_def
  by (auto split: option.splits if_splits known_match.splits dest: map_of_hosted)

lemma verify_result:
  "fst (verifyRunnerLabel l s) = label_images (lc_labels s) l"
  "lc_compats (snd (verifyRunnerLabel l s)) = lc_compats s"
  "lc_labels (snd (verifyRunnerLabel l s)) = lc_labels s"
  "conflicts (snd (verifyRunnerLabel l s)) = conflicts s"
  by (auto simp: label_images_def verifyRunnerLabel_def label_error_def conflicts_def Let_def
      split: option.splits known_match.splits)

lemma conflicting_None: "conflicting images m = None \<longleftrightarrow> (\<forall>c\<in>fst ` set m. c AND images \<noteq> 0)"
  by (auto simp: conflicting_def find_None_iff)

lemma check_step:
  "lc_labels (verify_and_check l s) = lc_labels s"
  "label_images (lc_labels s) l = 0 \<Longrightarrow>
     conflicts (verify_and_check l s) = conflicts s \<and> lc_compats (verify_and_check l s) = lc_compats s"
  "label_images (lc_labels s) l \<noteq> 0 \<Longrightarrow> \<exists>c\<in>fst ` set (lc_compats s). c AND label_images (lc_labels s) l = 0 \<Longrightarrow>
     conflicts (verify_and_check l s) \<noteq> []"
  "label_images (lc_labels s) l \<noteq> 0 \<Longrightarrow> \<forall>c\<in>fst ` set (lc_compats s). c AND label_images (lc_labels s) l \<noteq> 0 \<Longrightarrow>
     conflicts (verify_and_check l s) = conflicts s \<and>
     fst ` set (lc_compats (verify_and_check l s)) = insert (label_images (lc_labels s) l) (fst ` set (lc_compats s))"
  using verify_result [of l s] conflicting_None [of "label_images (lc_labels s) l" "lc_compats s"]
  by (cases "verifyRunnerLabel l s";
      auto simp: verify_and_check_def checkCompat_def checkConflict_def label_error_def conflicts_def split: option.splits)+

lemma conflicts_mono: "conflicts s \<noteq> [] \<Longrightarrow> conflicts (fold verify_and_check ls s) \<noteq> []"
proof (induction ls arbitrary: s)
  case (Cons l ls)
  have "conflicts (verify_and_check l s) \<noteq> []"
    using check_step(2-4) [where s = s and l = l] Cons.prems by (cases "label_images (lc_labels s) l = 0") (auto, blast)
  then show ?case using Cons.IH by simp
qed simp

definition chosen_images :: "string list \<Rightarrow> wstring list \<Rightarrow> os_compat set" where
  "chosen_images custom ls = label_images custom ` set ls - {0}"

lemma chosen_images_simps [simp]:
  "chosen_images custom [] = {}"
  "chosen_images custom (l # ls) =
     (if label_images custom l = 0 then chosen_images custom ls else insert (label_images custom l) (chosen_images custom ls))"
  by (auto simp: chosen_images_def)

lemma conflicts_fold:
  assumes "conflicts s = []" "\<forall>a\<in>fst ` set (lc_compats s). \<forall>b\<in>fst ` set (lc_compats s). a AND b \<noteq> 0"
  shows "conflicts (fold verify_and_check ls s) = [] \<longleftrightarrow>
    (\<forall>a\<in>fst ` set (lc_compats s) \<union> chosen_images (lc_labels s) ls.
     \<forall>b\<in>fst ` set (lc_compats s) \<union> chosen_images (lc_labels s) ls. a AND b \<noteq> 0)"
  using assms
proof (induction ls arbitrary: s)
  case (Cons l ls)
  let ?c = "label_images (lc_labels s) l" and ?A = "fst ` set (lc_compats s)" and ?s = "verify_and_check l s"
  consider "?c = 0" | "?c \<noteq> 0" "\<exists>a\<in>?A. a AND ?c = 0" | "?c \<noteq> 0" "\<forall>a\<in>?A. a AND ?c \<noteq> 0" by blast
  then show ?case
  proof cases
    case 1
    then show ?thesis using Cons check_step(1,2) [where s = s and l = l] by simp
  next
    case 2
    then have "conflicts (fold verify_and_check ls ?s) \<noteq> []"
      using check_step(3) [where s = s and l = l] by (intro conflicts_mono) blast
    then show ?thesis using 2 by auto
  next
    case 3
    have step: "conflicts ?s = []" "fst ` set (lc_compats ?s) = insert ?c ?A" "lc_labels ?s = lc_labels s"
      using check_step(1,4) [where s = s and l = l] 3 Cons.prems(1) by simp_all
    have "\<forall>a\<in>insert ?c ?A. \<forall>b\<in>insert ?c ?A. a AND b \<noteq> 0"
      using 3 Cons.prems(2) by (auto simp: and.commute)
    then show ?thesis using Cons.IH [of ?s] 3 by (simp add: step)
  qed
qed simp

lemma static_fold:
  "(\<forall>l\<in>set ls. \<not> ws_ContainsExpression l) \<Longrightarrow> fold (checkLabelAndConflict encode st) ls s = fold verify_and_check ls s"
  by (induction ls arbitrary: s) (simp_all add: checkLabelAndConflict_def)

text \<open>
  (C12) Labels of a runner conflict exactly when no image carries them all: for a job whose labels are
  static (none holds an expression) and not a single one, Check reports a conflict if and only
  if no runner image is among the images of every label that has any, although the code compares
  the labels in pairs only.
\<close>

theorem runner_conflict_iff:
  assumes "wj_runs_on job = Some \<lparr>rn_expression = None, rn_labels = labels, rn_labels_expr = None, rn_group = g\<rparr>"
    and "length labels \<noteq> 1"
    and "\<forall>l\<in>set labels. \<not> ws_ContainsExpression l \<and> runnerMatrixProperty l = []"
  shows "(\<exists>f\<in>set (CheckRunner encode job custom). is_conflict (dg_message f)) \<longleftrightarrow>
    \<not> (\<exists>image. \<forall>l\<in>set labels. label_images custom l \<noteq> 0 \<longrightarrow> bit (label_images custom l) image)"
proof -
  let ?s = "\<lparr>lc_rejections = [], lc_labels = custom, lc_compats = []\<rparr>"
  have none: "filter (\<lambda>p. p \<noteq> []) (map runnerMatrixProperty labels) = []" using assms(3) by (simp add: filter_empty_conv)
  have "checkRunnerJob encode job ?s = (fold verify_and_check labels ?s)\<lparr>lc_compats := []\<rparr>"
    using assms(2,3) none by (simp add: checkRunnerJob_def assms(1) checkCorrelatedMatrixLabels_def Let_def static_fold)
  then have "(\<exists>f\<in>set (CheckRunner encode job custom). is_conflict (dg_message f)) \<longleftrightarrow>
      conflicts (fold verify_and_check labels ?s) \<noteq> []"
    by (auto simp: CheckRunner_def conflicts_def filter_empty_conv)
  also have "\<dots> \<longleftrightarrow> \<not> (\<forall>a\<in>chosen_images custom labels. \<forall>b\<in>chosen_images custom labels. a AND b \<noteq> 0)"
    using conflicts_fold [of ?s labels] by (simp add: conflicts_def)
  also have "\<dots> \<longleftrightarrow> \<not> (\<exists>i. \<forall>a\<in>chosen_images custom labels. bit a i)"
    using label_images_table by (subst common_image_iff) (auto simp: chosen_images_def)
  also have "(\<exists>i. \<forall>a\<in>chosen_images custom labels. bit a i) \<longleftrightarrow>
      (\<exists>image. \<forall>l\<in>set labels. label_images custom l \<noteq> 0 \<longrightarrow> bit (label_images custom l) image)"
    by (rule arg_cong [where f = Ex]) (fastforce simp: chosen_images_def fun_eq_iff)
  finally show ?thesis .
qed


definition sample_label :: "string \<Rightarrow> wstring" where
  "sample_label v = \<lparr>ws_value = v, ws_quoted = False, ws_pos = \<lparr>at_line = 4, at_col = 14\<rparr>\<rparr>"

definition sample_runner_job :: "string list \<Rightarrow> wf_job" where
  "sample_runner_job ls = (empty_job (sample_label ''a''))\<lparr>wj_runs_on :=
     Some \<lparr>rn_expression = None, rn_labels = map sample_label ls, rn_labels_expr = None, rn_group = None\<rparr>\<rparr>"

theorem runner_conflict_iff_witness:
  "\<exists>f\<in>set (CheckRunner (\<lambda>_. None) (sample_runner_job [''linux'', ''ubuntu-26.04'', ''ubuntu-24.04'']) []). is_conflict (dg_message f)"
proof -
  let ?ls = "map sample_label [''linux'', ''ubuntu-26.04'', ''ubuntu-24.04'']"
  let ?job = "sample_runner_job [''linux'', ''ubuntu-26.04'', ''ubuntu-24.04'']"
  have "wj_runs_on ?job = Some \<lparr>rn_expression = None, rn_labels = ?ls, rn_labels_expr = None, rn_group = None\<rparr>"
    by (simp add: sample_runner_job_def)
  moreover have "length ?ls \<noteq> 1" by simp
  moreover have "\<forall>l\<in>set ?ls. \<not> ws_ContainsExpression l \<and> runnerMatrixProperty l = []" by code_simp
  moreover have "label_images [] (sample_label ''ubuntu-26.04'') = 8" "label_images [] (sample_label ''ubuntu-24.04'') = 4"
    by code_simp+
  moreover have "\<not> (\<exists>i. bit (8 :: os_compat) i \<and> bit (4 :: os_compat) i)"
  proof -
    have "\<forall>i. \<not> bit ((8 :: os_compat) AND 4) i" by simp
    then show ?thesis by (simp only: bit_and_iff) blast
  qed
  ultimately show ?thesis by (subst runner_conflict_iff [of ?job ?ls None]) auto
qed

subsection \<open>Knowledge of runners\<close>

lemma foldl_agree:
  fixes f :: "'c \<Rightarrow> 'a" and none :: 'a
  defines "g \<equiv> \<lambda>x d. if f d \<noteq> x then none else x"
  shows "foldl g none ds = none"
    and "foldl g x ds \<noteq> none \<Longrightarrow> foldl g x ds = x \<and> (\<forall>d\<in>set ds. f d = x)"
proof -
  show none: "foldl g none ds = none" for ds by (induction ds) (simp_all add: g_def)
  show "foldl g x ds \<noteq> none \<Longrightarrow> foldl g x ds = x \<and> (\<forall>d\<in>set ds. f d = x)"
  proof (induction ds)
    case (Cons d ds)
    show ?case
    proof (cases "f d = x")
      case True
      then have "g x d = x" by (simp add: g_def)
      then show ?thesis using Cons True by simp
    next
      case False
      then have "g x d = none" by (simp add: g_def)
      then show ?thesis using Cons.prems none by simp
    qed
  qed simp
qed

lemma agreed_all:
  assumes "agreed none f c cs \<noteq> none" "d \<in> set (c # cs)"
  shows "f d = agreed none f c cs"
proof -
  have "agreed none f c cs = f c" "\<forall>d\<in>set cs. f d = f c"
    using foldl_agree(2) [where f = f and none = none and x = "f c" and ds = cs] assms(1) unfolding agreed_def by blast+
  then show ?thesis using assms(2) by auto
qed

definition settled :: "resolution answer \<Rightarrow> runner_candidate set \<Rightarrow> bool" where
  "settled a cs \<longleftrightarrow> ev_freshness (an_evidence a) = freshness_Fresh \<and> ev_complete (an_evidence a) \<and>
     (\<exists>xs. an_resolution a = Resolved xs \<and> xs \<noteq> [] \<and> set xs \<subseteq> cs)"

lemma join_answer_settled:
  "join_answer p a s = Inr s' \<Longrightarrow> \<not> js_uncertain s' \<Longrightarrow>
   \<not> js_uncertain s \<and> settled a (set (js_candidates s')) \<and> set (js_candidates s) \<subseteq> set (js_candidates s')"
  by (auto simp: join_answer_def Let_def settled_def split: if_splits resolution.splits)

lemma settled_mono: "settled a A \<Longrightarrow> A \<subseteq> B \<Longrightarrow> settled a B"
  by (auto simp: settled_def)

lemma join_loop_settled:
  "join_loop p as s = Inr s' \<Longrightarrow> \<not> js_uncertain s' \<Longrightarrow>
   \<not> js_uncertain s \<and> (\<forall>a\<in>set as. settled a (set (js_candidates s'))) \<and> set (js_candidates s) \<subseteq> set (js_candidates s')"
proof (induction as arbitrary: s)
  case (Cons a as)
  then obtain s1 where s1: "join_answer p a s = Inr s1" "join_loop p as s1 = Inr s'" by (auto split: sum.splits)
  have later: "\<not> js_uncertain s1" "\<forall>a\<in>set as. settled a (set (js_candidates s'))" "set (js_candidates s1) \<subseteq> set (js_candidates s')"
    using Cons.IH [OF s1(2) Cons.prems(2)] by simp_all
  have "\<not> js_uncertain s" "settled a (set (js_candidates s1))" "set (js_candidates s) \<subseteq> set (js_candidates s1)"
    using join_answer_settled [OF s1(1) later(1)] by simp_all
  then show ?case using later settled_mono [of a] by auto
qed simp

definition known_fact :: "job_knowledge \<Rightarrow> bool" where
  "known_fact k \<longleftrightarrow> jk_platform k \<noteq> AnyPlatform \<or> jk_shell k \<noteq> [] \<or> jk_paths_known k \<or> jk_case_insensitive k
     \<or> jk_sh_is_dash k \<or> jk_ephemeral k"

abbreviation no_candidates :: join_state where
  "no_candidates \<equiv> \<lparr>js_candidates = [], js_uncertain = False, js_findings = []\<rparr>"

lemma known_candidates:
  assumes "joinAnswers pos answers = Inr k" "known_fact k"
  shows "\<exists>s c cs. join_loop pos answers no_candidates = Inr s \<and> js_candidates s = c # cs \<and> \<not> js_uncertain s"
proof -
  obtain s where s: "join_loop pos answers no_candidates = Inr s" using assms(1) by (auto simp: joinAnswers_def split: sum.splits)
  have "js_candidates s \<noteq> [] \<and> \<not> js_uncertain s"
    using assms s by (auto simp: joinAnswers_def known_fact_def empty_knowledge_def Let_def split: list.splits if_splits)
  with s show ?thesis by (cases "js_candidates s") auto
qed

text \<open>
  (C15) The join of a provider's answers is conservative: if it leaves any fact known of a job, every
  answer is fresh and complete and has candidates, and every known fact (platform, shell, case
  sensitivity of paths, dash, ephemeral) holds of every candidate of every answer.
\<close>

theorem joinAnswers_conservative:
  assumes "joinAnswers pos answers = Inr k" "known_fact k"
  shows "\<forall>a\<in>set answers. \<exists>cs. an_resolution a = Resolved cs \<and> cs \<noteq> [] \<and>
    ev_freshness (an_evidence a) = freshness_Fresh \<and> ev_complete (an_evidence a) \<and>
    (\<forall>c\<in>set cs. (jk_platform k \<noteq> AnyPlatform \<longrightarrow> candidatePlatform c = jk_platform k) \<and>
      (jk_shell k \<noteq> [] \<longrightarrow> rc_default_shell c = jk_shell k) \<and>
      (jk_paths_known k \<longrightarrow> rc_case_sensitivity c = (if jk_case_insensitive k then CaseInsensitive else CaseSensitive)) \<and>
      (jk_sh_is_dash k \<longrightarrow> rc_sh_is_dash c) \<and> (jk_ephemeral k \<longrightarrow> rc_ephemeral c))"
proof -
  obtain s c cs where s: "join_loop pos answers no_candidates = Inr s" and c: "js_candidates s = c # cs" "\<not> js_uncertain s"
    using known_candidates [OF assms] by blast
  have k: "jk_platform k = agreed AnyPlatform candidatePlatform c cs" "jk_shell k = agreed [] rc_default_shell c cs"
    "jk_paths_known k \<Longrightarrow> agreed UnknownCase rc_case_sensitivity c cs \<in> {CaseSensitive, CaseInsensitive}"
    "jk_case_insensitive k = (agreed UnknownCase rc_case_sensitivity c cs = CaseInsensitive)"
    "jk_sh_is_dash k = list_all rc_sh_is_dash (c # cs)" "jk_ephemeral k = list_all rc_ephemeral (c # cs)"
    using assms(1) s c by (auto simp: joinAnswers_def candidates_knowledge_def Let_def)
  have "agreed UnknownCase rc_case_sensitivity c cs \<noteq> UnknownCase" if "jk_paths_known k"
    using k(3) [OF that] by (auto simp: runner_strings)
  then have case_known: "jk_paths_known k \<Longrightarrow> d \<in> set (c # cs) \<Longrightarrow>
      rc_case_sensitivity d = (if jk_case_insensitive k then CaseInsensitive else CaseSensitive)" for d
    using k(3,4) agreed_all [of UnknownCase rc_case_sensitivity c cs d] by auto
  have facts: "(jk_platform k \<noteq> AnyPlatform \<longrightarrow> candidatePlatform d = jk_platform k) \<and>
      (jk_shell k \<noteq> [] \<longrightarrow> rc_default_shell d = jk_shell k) \<and>
      (jk_paths_known k \<longrightarrow> rc_case_sensitivity d = (if jk_case_insensitive k then CaseInsensitive else CaseSensitive)) \<and>
      (jk_sh_is_dash k \<longrightarrow> rc_sh_is_dash d) \<and> (jk_ephemeral k \<longrightarrow> rc_ephemeral d)" if d: "d \<in> set (c # cs)" for d
    using agreed_all [of AnyPlatform candidatePlatform c cs d] agreed_all [of "[]" rc_default_shell c cs d] case_known [OF _ d] d
    by (auto simp: k(1,2,5,6) list_all_iff)
  show ?thesis
  proof
    fix a
    assume "a \<in> set answers"
    then have "settled a (set (c # cs))" using join_loop_settled [OF s c(2)] c(1) by simp
    then show "\<exists>xs. an_resolution a = Resolved xs \<and> xs \<noteq> [] \<and>
        ev_freshness (an_evidence a) = freshness_Fresh \<and> ev_complete (an_evidence a) \<and>
        (\<forall>c\<in>set xs. (jk_platform k \<noteq> AnyPlatform \<longrightarrow> candidatePlatform c = jk_platform k) \<and>
          (jk_shell k \<noteq> [] \<longrightarrow> rc_default_shell c = jk_shell k) \<and>
          (jk_paths_known k \<longrightarrow> rc_case_sensitivity c = (if jk_case_insensitive k then CaseInsensitive else CaseSensitive)) \<and>
          (jk_sh_is_dash k \<longrightarrow> rc_sh_is_dash c) \<and> (jk_ephemeral k \<longrightarrow> rc_ephemeral c))"
      using facts unfolding settled_def by blast
  qed
qed

definition sample_candidate :: "string \<Rightarrow> bool \<Rightarrow> runner_candidate" where
  "sample_candidate os dash = \<lparr>rc_name = ''r'', rc_os = os, rc_architecture = [], rc_default_shell = ''bash'',
     rc_case_sensitivity = CaseSensitive, rc_sh_is_dash = dash, rc_ephemeral = False\<rparr>"

definition sample_answers :: "resolution answer list" where
  "sample_answers = [\<lparr>an_resolution = Resolved [sample_candidate LinuxOS True, sample_candidate MacOS False],
     an_evidence = \<lparr>ev_dataset = ''d'', ev_scope = [], ev_obtained_at = [], ev_freshness = freshness_Fresh, ev_complete = True\<rparr>\<rparr>]"

theorem joinAnswers_conservative_witness:
  "\<exists>k. joinAnswers no_pos sample_answers = Inr k \<and> jk_platform k = MacOrLinux \<and>
    (\<forall>a\<in>set sample_answers. \<exists>cs. an_resolution a = Resolved cs \<and> (\<forall>c\<in>set cs. candidatePlatform c = MacOrLinux))"
proof -
  let ?k = "case joinAnswers no_pos sample_answers of Inr k \<Rightarrow> k | Inl _ \<Rightarrow> empty_knowledge"
  have k: "joinAnswers no_pos sample_answers = Inr ?k" "known_fact ?k" "jk_platform ?k = MacOrLinux" by code_simp+
  from joinAnswers_conservative [OF k(1,2)] k show ?thesis by fastforce
qed

subsection \<open>Documents\<close>

fun_cases resolutionValue_known: "resolutionValue r = Inr v"

lemma list_all2_member: "list_all2 R xs ys \<Longrightarrow> x \<in> set xs \<Longrightarrow> \<exists>y\<in>set ys. R x y"
  by (induction rule: list_all2_induct) auto

text \<open>An answer that is settled after its check was not weakened by the selector or the snapshot.\<close>

lemma checked_settled:
  assumes "check_answer scope sn se a = Inr b" "settled b A"
  shows "\<not> se_incomplete se" "sn = Some s \<Longrightarrow> sn_freshness s = freshness_Fresh \<and> sn_complete s"
  using assms by (auto simp: check_answer_def settled_def Let_def elim!: resolutionValue_known
      split: sum.splits if_splits resolution.splits option.splits)

lemma check_answers_all:
  "check_answers scope sn (zip ss as) = Inr bs \<Longrightarrow> length as = length ss \<Longrightarrow>
   list_all2 (\<lambda>se b. \<exists>a. check_answer scope sn se a = Inr b) ss bs"
proof (induction ss arbitrary: as bs)
  case (Cons se ss)
  then obtain a as' where "as = a # as'" by (cases as) auto
  with Cons show ?case by (auto split: sum.splits simp: map_sum_def)
qed simp

lemma join_jobs_all:
  "join_jobs p js bs = Inr ks \<Longrightarrow> list_all2 R (concat (map (\<lambda>(n, j, ss). ss) js)) bs \<Longrightarrow> (n, k) \<in> set ks \<Longrightarrow>
   \<exists>j ss as. (n, j, ss) \<in> set js \<and> joinAnswers (wj_pos j) as = Inr k \<and> list_all2 R ss as"
proof (induction js arbitrary: bs ks)
  case (Cons x js)
  obtain m j ss where x: "x = (m, j, ss)" by (cases x)
  obtain as bs' where bs: "bs = as @ bs'" "list_all2 R ss as" "list_all2 R (concat (map (\<lambda>(n, j, ss). ss) js)) bs'"
    using Cons.prems(2) unfolding x by (auto simp: list_all2_append1)
  have len: "length ss = length as" using bs(2) by (rule list_all2_lengthD)
  obtain k' ks' where k: "joinAnswers (wj_pos j) as = Inr k'" "join_jobs p js bs' = Inr ks'" "ks = (m, k') # ks'"
    using Cons.prems(1) unfolding x bs(1) by (auto simp: len map_sum_def split: sum.splits)
  show ?case
  proof (cases "(n, k) = (m, k')")
    case True
    then show ?thesis using k(1) bs(2) x by auto
  next
    case False
    then have "(n, k) \<in> set ks'" using Cons.prems(3) k(3) by auto
    from Cons.IH [OF k(2) bs(3) this] show ?thesis by auto
  qed
qed simp

definition with_freshness :: "runner_snapshot \<Rightarrow> runner_snapshot" where
  "with_freshness sn = sn\<lparr>sn_freshness := (if sn_freshness sn = [] then freshness_Missing else sn_freshness sn)\<rparr>"

lemma with_freshness_fresh:
  "sn_freshness (with_freshness sn) = freshness_Fresh \<longleftrightarrow> sn_freshness sn = freshness_Fresh"
  "sn_complete (with_freshness sn) = sn_complete sn"
  by (simp_all add: with_freshness_def runner_strings)

lemma Prepare_jobs:
  assumes "Prepare encode builtin inventory sid digest jobs options scope = ((ks, report), None)" "ks \<noteq> []"
  obtains scope' answers checked name where
    "check_answers scope' (if op_snapshot options \<noteq> no_snapshot then Some (with_freshness (op_snapshot options)) else None)
      (zip (concat (map (\<lambda>(n, j, ss). ss) (runner_jobs encode jobs))) answers) = Inr checked"
    "length answers = length (concat (map (\<lambda>(n, j, ss). ss) (runner_jobs encode jobs)))"
    "join_jobs name (runner_jobs encode jobs) checked = Inr ks"
  using assms unfolding Prepare_def Let_def with_freshness_def [symmetric]
  by (auto split: if_splits sum.splits option.splits)

text \<open>
  (C16) What is known of a job is known of all its runners: if a prepared document gives any fact of a
  job, the job has a runner, none of its selectors stands for alternatives that are not all
  known, and a snapshot that was given is fresh and complete.
\<close>

theorem Prepare_conservative:
  assumes "Prepare encode builtin inventory sid digest jobs options scope = ((ks, report), None)"
    and "(n, k) \<in> set ks" "known_fact k"
  shows "\<exists>j. (n, j) \<in> set jobs \<and> wj_runs_on j \<noteq> None \<and> (\<forall>se\<in>set (Selectors encode j). \<not> se_incomplete se) \<and>
    (op_snapshot options \<noteq> no_snapshot \<longrightarrow>
      sn_freshness (op_snapshot options) = freshness_Fresh \<and> sn_complete (op_snapshot options))"
proof -
  let ?sn = "if op_snapshot options \<noteq> no_snapshot then Some (with_freshness (op_snapshot options)) else None"
  have "ks \<noteq> []" using assms(2) by auto
  then obtain scope' answers checked name where p:
    "check_answers scope' ?sn (zip (concat (map (\<lambda>(n, j, ss). ss) (runner_jobs encode jobs))) answers) = Inr checked"
    "length answers = length (concat (map (\<lambda>(n, j, ss). ss) (runner_jobs encode jobs)))"
    "join_jobs name (runner_jobs encode jobs) checked = Inr ks"
    using Prepare_jobs [OF assms(1)] by metis
  obtain j ss as where j: "(n, j, ss) \<in> set (runner_jobs encode jobs)" "joinAnswers (wj_pos j) as = Inr k"
    "list_all2 (\<lambda>se b. \<exists>a. check_answer scope' ?sn se a = Inr b) ss as"
    using join_jobs_all [OF p(3) check_answers_all [OF p(1,2)] assms(2)] by blast
  have ss: "ss = Selectors encode j" "(n, j) \<in> set jobs" "wj_runs_on j \<noteq> None" using j(1) by (auto simp: runner_jobs_def)
  obtain s c cs where s: "join_loop (wj_pos j) as no_candidates = Inr s" "js_candidates s = c # cs" "\<not> js_uncertain s"
    using known_candidates [OF j(2) assms(3)] by blast
  have settled: "settled b (set (c # cs))" if "b \<in> set as" for b
  proof -
    have "\<forall>a\<in>set as. settled a (set (js_candidates s))" using join_loop_settled [OF s(1,3)] by blast
    then show ?thesis using that unfolding s(2) by blast
  qed
  have all: "\<not> se_incomplete se" if se: "se \<in> set ss" for se
  proof -
    obtain b where b': "b \<in> set as" "\<exists>a. check_answer scope' ?sn se a = Inr b"
      using list_all2_member [OF j(3) se] by blast
    then obtain a where b: "b \<in> set as" "check_answer scope' ?sn se a = Inr b" by blast
    show ?thesis using checked_settled(1) [OF b(2) settled [OF b(1)]] .
  qed
  have "as \<noteq> []" using s(1,2) by auto
  then obtain b se a where "b \<in> set as" "check_answer scope' ?sn se a = Inr b"
    using j(3) by (cases ss; cases as) auto
  then have fresh: "?sn = Some x \<Longrightarrow> sn_freshness x = freshness_Fresh \<and> sn_complete x" for x
    using checked_settled(2) settled by blast
  have "op_snapshot options \<noteq> no_snapshot \<longrightarrow>
      sn_freshness (op_snapshot options) = freshness_Fresh \<and> sn_complete (op_snapshot options)"
    using fresh [of "with_freshness (op_snapshot options)"] by (auto simp: with_freshness_fresh)
  then show ?thesis using ss all by blast
qed

definition hosted_provider :: runner_provider where
  "hosted_provider = \<lparr>pv_descriptor = \<lparr>de_name = ''github'', de_version = ''1'', de_targets = [''github'']\<rparr>,
     pv_resolve = (\<lambda>rq. map_sum id (map (\<lambda>a. \<lparr>an_resolution = ByValue (an_resolution a), an_evidence = an_evidence a\<rparr>))
       (builtin_ResolveRunners (\<lambda>_. None) ''d'' [] rq)),
     pv_identity = []\<rparr>"

definition default_options :: runner_options where
  "default_options = \<lparr>op_target = [], op_provider = [], op_scope = [], op_snapshot = no_snapshot, op_providers = []\<rparr>"

theorem Prepare_conservative_witness:
  "\<exists>k. fst (fst (Prepare (\<lambda>_. None) hosted_provider hosted_provider (\<lambda>_. []) (\<lambda>_ _ _ _. [])
      [(''a'', sample_runner_job [''ubuntu-22.04''])] default_options [])) = [(''a'', k)] \<and> known_fact k \<and>
    (\<exists>j. (''a'', j) \<in> set [(''a'', sample_runner_job [''ubuntu-22.04''])] \<and> wj_runs_on j \<noteq> None)"
proof -
  let ?p = "Prepare (\<lambda>_. None) hosted_provider hosted_provider (\<lambda>_. []) (\<lambda>_ _ _ _. [])
      [(''a'', sample_runner_job [''ubuntu-22.04''])] default_options []"
  let ?k = "snd (hd (fst (fst ?p)))"
  have p: "snd ?p = None" "map fst (fst (fst ?p)) = [''a'']" "known_fact ?k" by code_simp+
  obtain ks report e where r: "?p = ((ks, report), e)" by (metis prod.collapse)
  with p obtain k where k: "e = None" "ks = [(''a'', k)]" "known_fact k" by (cases ks) auto
  then show ?thesis using Prepare_conservative [OF r [unfolded k(1)], of "''a''" k] r by auto
qed

end
