(* ===== verification/Matrix_Spec.thy ===== *)
theory Matrix_Spec
  imports Runner_Spec Workflow_Checks
begin

text \<open>
  The combinations of a known matrix (\<open>MatrixCombinations\<close>) against the jobs the documentation of
  matrices promises: a choice of a value for each row that no exclusion matches, extended by the
  entries of \<open>include\<close>, and at most 256 of them.
\<close>

text \<open>The choices of a value for every row, and those that no exclusion matches.\<close>

definition row_choice :: "(json \<Rightarrow> ynode option) \<Rightarrow> bool \<Rightarrow> (string \<times> matrix_row) list \<Rightarrow> (string \<rightharpoonup> raw_yaml) \<Rightarrow> bool" where
  "row_choice encode evaluated rows m \<longleftrightarrow>
     dom m = fst ` set rows \<and>
     (\<forall>(n, row)\<in>set rows. m n \<in> Some ` fst ` set (fst (RowElements encode row (\<not> evaluated))))"

definition matches_exclusion :: "(json \<Rightarrow> ynode option) \<Rightarrow> (string \<rightharpoonup> raw_yaml) \<Rightarrow> matrix_combination \<Rightarrow> bool" where
  "matches_exclusion encode m e \<longleftrightarrow> (\<forall>(n, a)\<in>set (mc_assigns e). Subset encode (m n) (Some (ma_value a)) False)"

definition matrix_job :: "(json \<Rightarrow> ynode option) \<Rightarrow> bool \<Rightarrow> (string \<times> matrix_row) list \<Rightarrow> matrix_combination list option \<Rightarrow>
    (string \<rightharpoonup> raw_yaml) \<Rightarrow> bool" where
  "matrix_job encode evaluated rows excs m \<longleftrightarrow>
     rows \<noteq> [] \<and> row_choice encode evaluated rows m \<and>
     \<not> (\<exists>e\<in>set (elements excs). matches_exclusion encode m e)"

definition assigned :: "matrix_combination \<Rightarrow> string \<rightharpoonup> raw_yaml" where
  "assigned c = map_option ma_value \<circ> map_of (mc_assigns c)"

definition row_step :: "(json \<Rightarrow> ynode option) \<Rightarrow> bool \<Rightarrow> (string \<times> matrix_row) list \<Rightarrow> (string \<rightharpoonup> raw_yaml) \<Rightarrow>
    (string \<rightharpoonup> raw_yaml) \<Rightarrow> bool" where
  "row_step encode evaluated rows m0 m \<longleftrightarrow>
     (\<forall>n. n \<notin> fst ` set rows \<longrightarrow> m n = m0 n) \<and>
     (\<forall>(n, row)\<in>set rows. m n \<in> Some ` fst ` set (fst (RowElements encode row (\<not> evaluated))))"

lemma row_step_Cons:
  assumes "n \<notin> fst ` set rows"
  shows "row_step encode evaluated ((n, row) # rows) m0 m \<longleftrightarrow>
    (\<exists>v\<in>fst ` set (fst (RowElements encode row (\<not> evaluated))). row_step encode evaluated rows (m0(n \<mapsto> v)) m)"
  using assms unfolding row_step_def by (auto; blast?)

lemma put_all:
  "map_of ` set (concat (map (\<lambda>c. map (\<lambda>(v, ex). al_put n v c) es) cs)) =
    {m. \<exists>m0\<in>map_of ` set cs. \<exists>v\<in>fst ` set es. m = m0(n \<mapsto> v)}"
  by (simp add: image_UN image_image case_prod_unfold set_eq_iff image_iff)

lemma expand_rows_exact:
  "expand_rows encode evaluated rows cs = Some cs' \<Longrightarrow> distinct (map fst rows) \<Longrightarrow>
   map_of ` set cs' = {m. \<exists>m0\<in>map_of ` set cs. row_step encode evaluated rows m0 m}"
proof (induction rows arbitrary: cs)
  case Nil
  then show ?case by (auto simp: row_step_def)
next
  case (Cons p rows)
  obtain n row where p: "p = (n, row)" by (cases p)
  let ?es = "fst (RowElements encode row (\<not> evaluated))"
  let ?cs = "concat (map (\<lambda>c. map (\<lambda>(v, ex). al_put n v c) ?es) cs)"
  have e: "expand_rows encode evaluated rows ?cs = Some cs'"
    using Cons.prems(1) by (auto simp: p Let_def split: prod.splits if_splits)
  have cs: "map_of ` set ?cs = {m. \<exists>m0\<in>map_of ` set cs. \<exists>v\<in>fst ` set ?es. m = m0(n \<mapsto> v)}"
    by (rule put_all)
  have "map_of ` set cs' = {m. \<exists>m0\<in>map_of ` set ?cs. row_step encode evaluated rows m0 m}"
    using Cons.IH [OF e] Cons.prems(2) by (simp add: p)
  also have "\<dots> = {m. \<exists>m0\<in>map_of ` set cs. row_step encode evaluated (p # rows) m0 m}"
    using Cons.prems(2) unfolding cs p by (subst row_step_Cons) auto
  finally show ?case .
qed

lemma expand_rows_bound:
  "expand_rows encode evaluated rows cs = Some cs' \<Longrightarrow> length cs \<le> combination_limit \<Longrightarrow> length cs' \<le> combination_limit"
proof (induction rows arbitrary: cs)
  case (Cons p rows)
  obtain n row where p: "p = (n, row)" by (cases p)
  let ?es = "fst (RowElements encode row (\<not> evaluated))"
  let ?cs = "concat (map (\<lambda>c. map (\<lambda>(v, ex). al_put n v c) ?es) cs)"
  have e: "expand_rows encode evaluated rows ?cs = Some cs'" "?es = [] \<or> length cs \<le> combination_limit div length ?es"
    using Cons.prems(1) by (auto simp: p Let_def split: prod.splits if_splits)
  have "length ?cs = length cs * length ?es" by (induction cs) auto
  also have "\<dots> \<le> combination_limit"
  proof (cases "?es = []")
    case False
    then have "length cs * length ?es \<le> combination_limit div length ?es * length ?es" using e(2) by (intro mult_le_mono1) blast
    then show ?thesis using div_times_less_eq_dividend order_trans by blast
  qed simp
  finally show ?case using Cons.IH [OF e(1)] by blast
qed simp

text \<open>What the entries of \<open>include\<close> keep of the results.\<close>

definition result_ok :: "string set \<Rightarrow> matrix_combination list \<Rightarrow> raw_combination list \<Rightarrow> extended list \<Rightarrow> bool" where
  "result_ok axes incs originals results \<longleftrightarrow>
     length results \<le> combination_limit \<and>
     (\<forall>r\<in>set originals. \<exists>c. (Some r, c) \<in> set results) \<and>
     (\<forall>(x, c)\<in>set results. case x of
        Some r \<Rightarrow> r \<in> set originals \<and> (\<forall>n\<in>axes. map_of c n = map_of r n)
      | None \<Rightarrow> \<exists>inc\<in>set incs. map_of c = assigned inc)"

lemma add_assigns_axis: "n \<in> axes \<Longrightarrow> map_of (add_assigns axes inc c) n = map_of c n"
proof -
  have "n \<in> axes \<Longrightarrow> map_of (fold (\<lambda>(name, a) c. if name \<in> axes then c else al_put name (ma_value a) c) as c) n = map_of c n" for as
    by (induction as arbitrary: c) auto
  then show "n \<in> axes \<Longrightarrow> map_of (add_assigns axes inc c) n = map_of c n" by (simp add: add_assigns_def)
qed

lemma add_assigns_own:
  assumes "distinct (map fst (mc_assigns inc))"
  shows "map_of (add_assigns {} inc []) = assigned inc"
proof -
  have "distinct (map fst as) \<Longrightarrow> map_of (fold (\<lambda>(name, a) c. if name \<in> {} then c else al_put name (ma_value a) c) as c) =
      map_of c ++ (map_option ma_value \<circ> map_of as)" for as c
  proof (induction as arbitrary: c)
    case (Cons p as)
    then have "map_of as (fst p) = None" by (simp add: map_of_eq_None_iff)
    then show ?case using Cons by (cases p) (auto simp: fun_eq_iff map_add_def split: option.splits)
  qed (simp add: fun_eq_iff map_add_def)
  from this [OF assms, of "[]"] show ?thesis by (simp add: add_assigns_def assigned_def)
qed

lemma include_step_ok:
  assumes "include_combination encode axes inc results = Some results'" "result_ok axes incs originals results"
    "distinct (map fst (mc_assigns inc))" "inc \<in> set incs"
  shows "result_ok axes incs originals results'"
proof -
  let ?hit = "\<lambda>(original, c :: raw_combination). case original of Some r \<Rightarrow> include_extends encode inc r | None \<Rightarrow> False"
  let ?up = "\<lambda>r. if ?hit r then (fst r, add_assigns axes inc (snd r)) else r"
  show ?thesis
  proof (cases "list_ex ?hit results")
    case True
    then have r: "results' = map ?up results" using assms(1) by (simp add: include_combination_def Let_def)
    have "\<exists>c. (Some r, c) \<in> set results'" if ro: "r \<in> set originals" for r
    proof -
      obtain c where "(Some r, c) \<in> set results" using assms(2) ro unfolding result_ok_def by meson
      then have "?up (Some r, c) \<in> set results'" unfolding r set_map by (intro image_eqI [where x = "(Some r, c)"] refl)
      then show ?thesis by (auto split: if_splits)
    qed
    moreover have "case x of Some r \<Rightarrow> r \<in> set originals \<and> (\<forall>n\<in>axes. map_of c n = map_of r n)
        | None \<Rightarrow> \<exists>inc\<in>set incs. map_of c = assigned inc" if xc: "(x, c) \<in> set results'" for x c
    proof -
      from xc obtain y d where y: "(y, d) \<in> set results" "(x, c) = ?up (y, d)" unfolding r by auto
      have "case y of Some r \<Rightarrow> r \<in> set originals \<and> (\<forall>n\<in>axes. map_of d n = map_of r n)
        | None \<Rightarrow> \<exists>inc\<in>set incs. map_of d = assigned inc" using assms(2) y(1) by (auto simp: result_ok_def)
      then show ?thesis using y(2) by (auto simp: add_assigns_axis split: option.splits if_splits)
    qed
    ultimately show ?thesis using assms(2) unfolding result_ok_def r by (auto simp only: length_map)
  next
    case False
    then have r: "results' = results @ [(None, add_assigns {} inc [])]" "length results \<noteq> combination_limit"
      using assms(1) by (auto simp: include_combination_def Let_def split: if_splits)
    then show ?thesis using assms(2,4) add_assigns_own [OF assms(3)] by (fastforce simp: result_ok_def)
  qed
qed

lemma include_all_ok:
  "include_combinations encode axes js results = Some results' \<Longrightarrow> result_ok axes incs originals results \<Longrightarrow>
   (\<forall>inc\<in>set js. distinct (map fst (mc_assigns inc))) \<Longrightarrow> set js \<subseteq> set incs \<Longrightarrow> result_ok axes incs originals results'"
proof (induction js arbitrary: results)
  case (Cons j js)
  then obtain results1 where s: "include_combination encode axes j results = Some results1"
    "include_combinations encode axes js results1 = Some results'" by (auto split: option.splits)
  have "result_ok axes incs originals results1" using Cons.prems by (intro include_step_ok [OF s(1)]) auto
  then show ?case using Cons.IH [OF s(2)] Cons.prems(3,4) by simp
qed simp

lemma row_choice_step: "row_step encode evaluated rows Map.empty m \<longleftrightarrow> row_choice encode evaluated rows m"
proof
  assume *: "row_step encode evaluated rows Map.empty m"
  have "dom m = fst ` set rows"
  proof
    show "dom m \<subseteq> fst ` set rows" using * by (auto simp: row_step_def)
    show "fst ` set rows \<subseteq> dom m" using * unfolding row_step_def by fastforce
  qed
  then show "row_choice encode evaluated rows m" using * by (simp add: row_choice_def row_step_def)
next
  assume *: "row_choice encode evaluated rows m"
  then have "\<forall>n. n \<notin> fst ` set rows \<longrightarrow> m n = None" unfolding row_choice_def by blast
  then show "row_step encode evaluated rows Map.empty m" using * by (simp add: row_choice_def row_step_def)
qed

lemma row_choice_sort: "row_choice encode evaluated (sort_key fst rows) m = row_choice encode evaluated rows m"
  by (simp add: row_choice_def)

lemma originals_exact:
  assumes "expand_rows encode evaluated (sort_key fst rows) (if rows = [] then [] else [[]]) = Some os" "distinct (map fst rows)"
  shows "map_of ` set (not_excluded encode excs os) = Collect (matrix_job encode evaluated rows excs)"
proof -
  have "distinct (map fst (sort_key fst rows))" using assms(2) by (simp add: distinct_map)
  from expand_rows_exact [OF assms(1) this]
  have os: "map_of ` set os = {m. rows \<noteq> [] \<and> row_choice encode evaluated rows m}"
    by (auto simp: row_choice_step row_choice_sort)
  have "set (not_excluded encode excs os) =
      {c \<in> set os. \<not> (\<exists>e\<in>set (elements excs). matches_exclusion encode (map_of c) e)}"
    by (auto simp: not_excluded_def excluded_by_def matches_exclusion_def elements_def list_ex_iff list_all_iff split: option.splits)
  then have "map_of ` set (not_excluded encode excs os) =
      {m \<in> map_of ` set os. \<not> (\<exists>e\<in>set (elements excs). matches_exclusion encode m e)}"
    by blast
  then show ?thesis by (auto simp: os matrix_job_def)
qed

text \<open>
  (C10) A known matrix is expanded exactly: there are at most 256 combinations; every choice of a
  value for each row that no exclusion matches is the part on the rows of a combination;
  and every combination either has such a choice on the rows or is one of the entries of include.
\<close>

theorem matrix_combinations_exact:
  assumes "MatrixCombinations encode (Some st) = Some cs" "strategy_matrix encode st = Some m"
    and "ExpandCombinations encode (mx_include m) = Some incs" "ExpandCombinations encode (mx_exclude m) = Some excs"
    and "distinct (map fst (mx_rows m))"
    and "\<forall>inc\<in>set (elements incs). distinct (map fst (mc_assigns inc))"
  shows "length cs \<le> 256 \<and>
    (\<forall>j. matrix_job encode (sy_expression st \<noteq> None) (mx_rows m) excs j \<longrightarrow>
      (\<exists>c\<in>set cs. map_of c |` (fst ` set (mx_rows m)) = j)) \<and>
    (\<forall>c\<in>set cs. matrix_job encode (sy_expression st \<noteq> None) (mx_rows m) excs (map_of c |` (fst ` set (mx_rows m)))
      \<or> (\<exists>inc\<in>set (elements incs). map_of c = assigned inc))"
proof -
  let ?ev = "sy_expression st \<noteq> None" and ?rows = "mx_rows m" and ?axes = "fst ` set (mx_rows m)"
  have "expanded_combinations encode ?ev ?rows incs excs = Some cs"
    using assms(1-4) by (auto simp: MatrixCombinations_def Let_def split: if_splits)
  then obtain os results where os: "expand_rows encode ?ev (sort_key fst ?rows) (if ?rows = [] then [] else [[]]) = Some os"
    and results: "include_combinations encode ?axes (elements incs)
        (map (\<lambda>c. (Some c, c)) (not_excluded encode excs os)) = Some results" "cs = map snd results"
    by (auto simp: expanded_combinations_def elements_def split: option.splits)
  let ?os = "not_excluded encode excs os"
  have job: "map_of ` set ?os = Collect (matrix_job encode ?ev ?rows excs)" by (rule originals_exact [OF os assms(5)])
  have "length os \<le> combination_limit" by (rule expand_rows_bound [OF os]) (simp add: combination_limit_def)
  then have "length ?os \<le> combination_limit"
    by (cases excs) (auto simp: not_excluded_def intro: order_trans [OF length_filter_le])
  then have "result_ok ?axes (elements incs) ?os (map (\<lambda>c. (Some c, c)) ?os)" by (auto simp: result_ok_def)
  from include_all_ok [OF results(1) this assms(6) order_refl]
  have ok: "length results \<le> combination_limit" "\<forall>r\<in>set ?os. \<exists>c. (Some r, c) \<in> set results"
    "\<And>x c. (x, c) \<in> set results \<Longrightarrow> case x of
        Some r \<Rightarrow> r \<in> set ?os \<and> (\<forall>n\<in>?axes. map_of c n = map_of r n)
      | None \<Rightarrow> \<exists>inc\<in>set (elements incs). map_of c = assigned inc"
    unfolding result_ok_def by auto
  have restricted: "map_of c |` ?axes = map_of r" "matrix_job encode ?ev ?rows excs (map_of r)"
    if "(Some r, c) \<in> set results" for r and c :: raw_combination
  proof -
    have r: "r \<in> set ?os" "\<forall>n\<in>?axes. map_of c n = map_of r n" using ok(3) [OF that] by simp_all
    show m: "matrix_job encode ?ev ?rows excs (map_of r)" using job r(1) by blast
    then have "dom (map_of r) = ?axes" by (simp only: matrix_job_def row_choice_def)
    then show "map_of c |` ?axes = map_of r" using r(2) by (fastforce simp: restrict_map_def fun_eq_iff)
  qed
  have "\<exists>c\<in>set cs. map_of c |` ?axes = j" if "matrix_job encode ?ev ?rows excs j" for j
  proof -
    obtain r where "r \<in> set ?os" "j = map_of r" using job \<open>matrix_job encode ?ev ?rows excs j\<close> by blast
    then show ?thesis using ok(2) restricted(1) unfolding results(2) by force
  qed
  moreover have "matrix_job encode ?ev ?rows excs (map_of c |` ?axes) \<or> (\<exists>inc\<in>set (elements incs). map_of c = assigned inc)"
    if "c \<in> set cs" for c
  proof -
    from that obtain x where x: "(x, c) \<in> set results" unfolding results(2) by auto
    then show ?thesis using ok(3) [OF x] restricted by (cases x) auto
  qed
  ultimately show ?thesis using ok(1) by (simp add: results(2) combination_limit_def)
qed

subsection \<open>An example\<close>

definition row_of :: "string \<Rightarrow> string list \<Rightarrow> matrix_row" where
  "row_of name vs = \<lparr>mr_evaluated = False, mr_name = sample_label name,
     mr_values = map (\<lambda>v. RawYAMLString v ''!!str'' no_pos) vs, mr_expression = None\<rparr>"

definition sample_assigns :: "(string \<times> string) list \<Rightarrow> matrix_combinations" where
  "sample_assigns as = \<lparr>ms_name = None, ms_evaluated = False,
     ms_combinations = [\<lparr>mc_evaluated = False,
       mc_assigns = map (\<lambda>(k, v). (k, \<lparr>ma_key = sample_label k, ma_value = RawYAMLString v ''!!str'' no_pos\<rparr>)) as,
       mc_expression = None\<rparr>],
     ms_expression = None\<rparr>"

definition sample_matrix :: matrix where
  "sample_matrix = Matrix [] [(''os'', row_of ''os'' [''a'', ''b'']), (''go'', row_of ''go'' [''x'', ''y''])]
     (Some (sample_assigns [(''os'', ''a''), (''cc'', ''z'')])) (Some (sample_assigns [(''os'', ''b''), (''go'', ''y'')])) None no_pos"

definition sample_strategy :: strategy where
  "sample_strategy = \<lparr>sy_expression = None, sy_matrix = Some sample_matrix, sy_fail_fast = None, sy_max_parallel = None, sy_pos = no_pos\<rparr>"

theorem matrix_combinations_exact_witness:
  "\<exists>cs. MatrixCombinations (\<lambda>_. None) (Some sample_strategy) = Some cs \<and> length cs = 3 \<and>
    (\<forall>c\<in>set cs. matrix_job (\<lambda>_. None) False (mx_rows sample_matrix)
        (Some (ms_combinations (sample_assigns [(''os'', ''b''), (''go'', ''y'')]))) (map_of c |` {''os'', ''go''})
      \<or> map_of c = assigned (hd (ms_combinations (sample_assigns [(''os'', ''a''), (''cc'', ''z'')]))))"
proof -
  let ?inc = "ms_combinations (sample_assigns [(''os'', ''a''), (''cc'', ''z'')])"
  let ?exc = "ms_combinations (sample_assigns [(''os'', ''b''), (''go'', ''y'')])"
  have "map_option length (MatrixCombinations (\<lambda>_. None) (Some sample_strategy)) = Some 3" by code_simp
  then obtain cs where cs: "MatrixCombinations (\<lambda>_. None) (Some sample_strategy) = Some cs" "length cs = 3" by auto
  have hyps: "strategy_matrix (\<lambda>_. None) sample_strategy = Some sample_matrix"
    "ExpandCombinations (\<lambda>_. None) (mx_include sample_matrix) = Some (Some ?inc)"
    "ExpandCombinations (\<lambda>_. None) (mx_exclude sample_matrix) = Some (Some ?exc)"
    "distinct (map fst (mx_rows sample_matrix))"
    "\<forall>inc\<in>set (elements (Some ?inc)). distinct (map fst (mc_assigns inc))"
    by code_simp+
  have axes: "fst ` set (mx_rows sample_matrix) = {''os'', ''go''}" and own: "(sy_expression sample_strategy \<noteq> None) = False"
    and inc: "set (elements (Some ?inc)) = {hd ?inc}"
    by (simp_all add: sample_matrix_def sample_strategy_def sample_assigns_def elements_def)
  from matrix_combinations_exact [OF cs(1) hyps]
  have "\<forall>c\<in>set cs. matrix_job (\<lambda>_. None) False (mx_rows sample_matrix) (Some ?exc) (map_of c |` {''os'', ''go''})
      \<or> map_of c = assigned (hd ?inc)"
    unfolding axes own inc bex_simps by blast
  with cs show ?thesis by blast
qed

end
