(* ===== verification/Expand_Spec.thy ===== *)
theory Expand_Spec
  imports Section_Spec Workflow_Matrix
begin

text \<open>
  One evaluation is enough to expand a matrix: what an expression gives is a mapping of data, in
  which no key inserts a further mapping. So the bound of \<open>ExpandMatrix\<close> is never reached.
\<close>

subsection \<open>Declarations of known values\<close>

definition plain_matrix :: "matrix \<Rightarrow> bool" where
  "plain_matrix m \<longleftrightarrow> mx_insertions m = [] \<and> mx_expression m = None"

lemma plain_matrix_parts: "plain_matrix m \<Longrightarrow> mx_insertions m = []" "plain_matrix m \<Longrightarrow> mx_expression m = None"
  by (simp_all add: plain_matrix_def)

lemma plain_matrix_simps [simp]:
  "plain_matrix (Matrix ins rows inc exc e pos) \<longleftrightarrow> ins = [] \<and> e = None"
  "plain_matrix (add_row k r m) \<longleftrightarrow> plain_matrix m"
  "plain_matrix (set_evaluated b m) \<longleftrightarrow> plain_matrix m"
  by (simp_all add: plain_matrix_def add_row_def set_evaluated_def Let_def)

lemma in_UNIV [simp]: "tree_in UNIV n" "node_in UNIV n"
  by (auto simp: tree_in_def node_in_def list_all_iff split: option.splits)

lemma plain_row: "plain_matrix m \<Longrightarrow> spec (located UNIV) (parse_matrix_row e m) plain_matrix anything"
  unfolding parse_matrix_row_def by (intro spec_steps raw_values_spec [THEN spec_bind]) auto

lemma plain_mapping:
  assumes "yn_kind n \<noteq> ScalarNode"
  shows "spec (located UNIV) (ParseMatrixMapping pos n True True) plain_matrix anything"
  using assms unfolding ParseMatrixMapping.simps [of pos n True True]
  by (simp only: if_False simp_thms)
    (intro spec_entries_inv [where U = plain_matrix and Q = anything, THEN spec_bind] spec_steps plain_row
      ParseMatrixCombinations_spec [where R = UNIV, THEN spec_bind]; (simp add: plain_row plain_matrix_parts located_def)?)

text \<open>The library encodes a Go map as a mapping.\<close>

definition encodes_objects :: "(json \<Rightarrow> ynode option) \<Rightarrow> bool" where
  "encodes_objects encode \<longleftrightarrow> (\<forall>ms n. encode (JObj ms) = Some n \<longrightarrow> yn_kind n = MappingNode)"

lemma set_position_kind [simp]: "yn_kind (set_position p n) = yn_kind n"
  by (cases n) simp

lemma knownLiteral_plain:
  assumes "encodes_objects encode" "knownLiteral encode v pos = Some m"
  shows "plain_matrix m"
proof -
  obtain ms n where n: "encode (JObj ms) = Some n" "m = parsed (ParseMatrixMapping pos (set_position pos n) True True)"
    using assms(2) by (auto simp: knownLiteral_def split: json.splits if_splits)
  have "yn_kind n = MappingNode" using assms(1) n(1) by (simp add: encodes_objects_def)
  then have "spec (located UNIV) (ParseMatrixMapping pos (set_position pos n) True True) plain_matrix anything"
    by (intro plain_mapping) simp
  then show ?thesis using n(2) by (auto simp: parsed_def spec_def emits_def)
qed

subsection \<open>Expansion\<close>

lemma join_all_total: "None \<notin> set xs \<Longrightarrow> \<exists>r. join_all m b xs = Some r"
proof (induction xs arbitrary: m b)
  case (Cons x xs)
  then show ?case by (cases "x"; cases "fst (the x)"; cases "the x") (auto split: option.splits)
qed simp

lemma expand_plain:
  "plain_matrix m \<Longrightarrow> \<exists>r. ExpandMatrix evaluate resolveName hops m = Some r"
  by (cases m) (auto simp: ExpandMatrix.simps join_all_total split: option.splits)

lemma expand_one_hop:
  assumes "encodes_objects encode"
  shows "\<exists>r. ExpandMatrix (evaluate_matrix encode) RowName 1 m = Some r"
proof (induction m)
  case (Matrix ins rows inc exc e pos)
  show ?case
  proof (cases e)
    case None
    have "None \<notin> set (map (ExpandMatrix (evaluate_matrix encode) RowName 1) ins)" using Matrix by force
    from join_all_total [OF this] show ?thesis using None by (auto simp: ExpandMatrix.simps split: option.splits)
  next
    case (Some s)
    have "plain_matrix r" if "evaluate_matrix encode s = Some r" for r
      using that knownLiteral_plain [OF assms] by (auto simp: evaluate_matrix_def split: option.splits)
    then have "\<exists>x. ExpandMatrix (evaluate_matrix encode) RowName 0 r = Some x" if "evaluate_matrix encode s = Some r" for r
      using that expand_plain by blast
    then show ?thesis using Some by (auto simp: ExpandMatrix.simps split: option.splits)
  qed
qed

end
