(* ===== verification/Provider_Spec.thy ===== *)
theory Provider_Spec
  imports Runner_Spec
begin

text \<open>
  The interface between the preparation of a document and a provider of runners, and its two
  implementations in the repository. A provider that keeps the contract is never rejected: with the
  provider of hosted runners, preparing a document does not fail.
\<close>

subsection \<open>The contract\<close>

fun resolution_fits :: "runner_selector \<Rightarrow> resolution \<Rightarrow> bool" where
  "resolution_fits se (Resolved cs) \<longleftrightarrow> cs \<noteq> []"
| "resolution_fits se (NoMatch rs) \<longleftrightarrow> rs \<noteq> [] \<and> list_all (\<lambda>r. related_position se (rj_position r)) rs"
| "resolution_fits se _ \<longleftrightarrow> True"

definition answer_fits :: "string \<Rightarrow> runner_selector \<Rightarrow> resolution answer \<Rightarrow> bool" where
  "answer_fits scope se a \<longleftrightarrow> ev_scope (an_evidence a) = scope \<and> ev_dataset (an_evidence a) \<noteq> [] \<and>
     resolution_fits se (an_resolution a)"

definition snapshot_in_scope :: "runner_request \<Rightarrow> bool" where
  "snapshot_in_scope rq \<longleftrightarrow> sn_content (rq_snapshot rq) = [] \<or> sn_scope (rq_snapshot rq) = rq_scope rq"

definition by_value :: "resolution answer \<Rightarrow> returned_resolution answer" where
  "by_value a = \<lparr>an_resolution = ByValue (an_resolution a), an_evidence = an_evidence a\<rparr>"

definition usable :: "resolution answer \<Rightarrow> bool" where
  "usable a \<longleftrightarrow> an_resolution a \<noteq> Resolved [] \<and> an_resolution a \<noteq> NoMatch []"

lemma check_fits: "answer_fits scope se a \<Longrightarrow> \<exists>b. check_answer scope sn se (by_value a) = Inr b \<and> usable b"
  by (cases "an_resolution a")
    (auto simp: answer_fits_def check_answer_def by_value_def usable_def Let_def)

lemma check_all_fit:
  "list_all2 (answer_fits scope) ss as \<Longrightarrow>
   \<exists>bs. check_answers scope sn (zip ss (map by_value as)) = Inr bs \<and> length bs = length ss \<and> list_all usable bs"
proof (induction rule: list_all2_induct)
  case (Cons se ss a as)
  obtain b where "check_answer scope sn se (by_value a) = Inr b" "usable b" using check_fits [OF Cons(1)] by blast
  with Cons(3) show ?case by auto
qed simp

lemma join_answer_usable: "usable a \<Longrightarrow> \<exists>s'. join_answer pos a s = Inr s'"
  by (cases "an_resolution a") (auto simp: join_answer_def usable_def Let_def)

lemma join_usable: "list_all usable as \<Longrightarrow> \<exists>s'. join_loop pos as s = Inr s'"
proof (induction as arbitrary: s)
  case (Cons a as)
  then obtain s1 where "join_answer pos a s = Inr s1" using join_answer_usable by fastforce
  with Cons show ?case by simp
qed simp

lemma joinAnswers_usable: "list_all usable as \<Longrightarrow> \<exists>k. joinAnswers pos as = Inr k"
  using join_usable [of as pos no_candidates] by (auto simp: joinAnswers_def Let_def)

lemma join_jobs_usable: "list_all usable bs \<Longrightarrow> \<exists>ks. join_jobs name js bs = Inr ks"
proof (induction js arbitrary: bs)
  case (Cons x js)
  obtain n j ss where x: "x = (n, j, ss)" by (cases x)
  have parts: "list_all usable (take (length ss) bs)" "list_all usable (drop (length ss) bs)"
    using Cons.prems by (auto simp: list_all_iff dest: in_set_takeD in_set_dropD)
  obtain k where "joinAnswers (wj_pos j) (take (length ss) bs) = Inr k" using joinAnswers_usable [OF parts(1)] by blast
  moreover obtain ks where "join_jobs name js (drop (length ss) bs) = Inr ks" using Cons.IH [OF parts(2)] by blast
  ultimately show ?case by (simp add: x)
qed simp

locale provider =
  fixes respond :: "runner_request \<Rightarrow> runner_error + resolution answer list"
  assumes answers_fit: "respond rq = Inr as \<Longrightarrow> snapshot_in_scope rq \<Longrightarrow> list_all2 (answer_fits (rq_scope rq)) (rq_selectors rq) as"
begin

lemma accepted:
  assumes "respond rq = Inr as" "snapshot_in_scope rq"
  obtains checked ks where "length as = length (rq_selectors rq)"
    "check_answers (rq_scope rq) sn (zip (rq_selectors rq) (map by_value as)) = Inr checked"
    "join_jobs name js checked = Inr ks"
proof -
  have fit: "list_all2 (answer_fits (rq_scope rq)) (rq_selectors rq) as" by (rule answers_fit [OF assms])
  obtain checked where c: "check_answers (rq_scope rq) sn (zip (rq_selectors rq) (map by_value as)) = Inr checked"
    "list_all usable checked" using check_all_fit [OF fit] by blast
  obtain ks where "join_jobs name js checked = Inr ks" using join_jobs_usable [OF c(2)] by blast
  with c(1) show ?thesis using list_all2_lengthD [OF fit] that by simp
qed

end

subsection \<open>The two providers\<close>

lemma answer_selectors_fit:
  "answer_selectors ctx n f ss = Inr as \<Longrightarrow> (\<And>se a. se \<in> set ss \<Longrightarrow> f se = Inr a \<Longrightarrow> R se a) \<Longrightarrow> list_all2 R ss as"
proof (induction ss arbitrary: n as)
  case (Cons se ss)
  then show ?case by (auto split: option.splits sum.splits simp: map_sum_def)
qed simp

lemma rejection_positions:
  "r \<in> set (lc_rejections (fold verify_and_check ls s)) \<Longrightarrow>
   r \<in> set (lc_rejections s) \<or> (\<exists>l\<in>set ls. rj_position r = diag_position (ws_pos l))"
proof (induction ls arbitrary: s)
  case (Cons l ls)
  have "\<forall>r\<in>set (lc_rejections (verify_and_check l s)). r \<in> set (lc_rejections s) \<or> rj_position r = diag_position (ws_pos l)"
    by (auto simp: verify_and_check_def verifyRunnerLabel_def checkCompat_def checkConflict_def label_error_def Let_def
        split: option.splits known_match.splits if_splits)
  with Cons.IH [of "verify_and_check l s"] Cons.prems show ?case by auto
qed simp

lemma literal_label_position: "literal_label c = Some l \<Longrightarrow> diag_position (ws_pos l) = cn_position c"
  by (auto simp: literal_label_def diag_position_def split: runner_term.splits)

lemma hosted_resolution_fits: "resolution_fits se (hosted_resolution custom se)"
proof -
  let ?labels = "concat (map (\<lambda>c. option_items (literal_label c)) (se_labels se))"
  let ?s = "fold verify_and_check ?labels \<lparr>lc_rejections = [], lc_labels = custom, lc_compats = []\<rparr>"
  have "related_position se (rj_position r)" if r: "r \<in> set (lc_rejections ?s)" for r
  proof -
    obtain l where "l \<in> set ?labels" "rj_position r = diag_position (ws_pos l)" using rejection_positions [OF r] by auto
    then obtain c where "c \<in> set (se_labels se)" "rj_position r = cn_position c"
      using literal_label_position by (auto simp: option_items_def split: option.splits)
    then show ?thesis by (auto simp: related_position_def list_ex_iff)
  qed
  then show ?thesis by (auto simp: hosted_resolution_def Let_def list_all_iff)
qed

lemma resolve_inventory_fits: "resolution_fits se (resolve_inventory rs se)"
  by (auto simp: resolve_inventory_def related_position_def split: list.splits)

interpretation hosted: provider "builtin_ResolveRunners ctx (''github:'' @ dataset) custom"
proof
  fix rq as
  assume *: "builtin_ResolveRunners ctx (''github:'' @ dataset) custom rq = Inr as"
  show "list_all2 (answer_fits (rq_scope rq)) (rq_selectors rq) as"
    by (rule answer_selectors_fit [OF * [unfolded builtin_ResolveRunners_def]])
      (auto simp: hosted_answer_def answer_fits_def hosted_resolution_fits)
qed

lemma inventory_answer_fits:
  "inventory_answer (snapshot_evidence identity rq) rs rq se = Inr a \<Longrightarrow> snapshot_in_scope rq \<Longrightarrow> answer_fits (rq_scope rq) se a"
  by (auto simp: inventory_answer_def answer_fits_def snapshot_evidence_def snapshot_in_scope_def Let_def
      resolve_inventory_fits split: if_splits)

interpretation inventory: provider "snapshot_ResolveRunners ctx identity decode"
proof
  fix rq as
  assume *: "snapshot_ResolveRunners ctx identity decode rq = Inr as" and scope: "snapshot_in_scope rq"
  obtain i where "answer_selectors ctx 1 (inventory_answer (snapshot_evidence identity rq)
      (case i of Some rs \<Rightarrow> rs | None \<Rightarrow> []) rq) (rq_selectors rq) = Inr as"
    using * by (auto simp: snapshot_ResolveRunners_def Let_def simp del: answer_selectors.simps split: option.splits sum.splits)
  then show "list_all2 (answer_fits (rq_scope rq)) (rq_selectors rq) as"
    by (rule answer_selectors_fit) (rule inventory_answer_fits [OF _ scope])
qed

subsection \<open>Preparing with hosted runners\<close>

definition own_provider :: "runner_descriptor \<Rightarrow> (runner_request \<Rightarrow> runner_error + resolution answer list) \<Rightarrow> runner_provider" where
  "own_provider d respond = \<lparr>pv_descriptor = d, pv_resolve = (\<lambda>rq. map_sum id (map by_value) (respond rq)), pv_identity = []\<rparr>"

lemma select_default: "None \<notin> set ps \<Longrightarrow> select_provider ''github'' [] p ps = Inr p"
proof (induction ps)
  case (Cons q ps)
  then show ?case by (cases q) auto
qed simp

lemma hosted_answers:
  "builtin_ResolveRunners (\<lambda>_. None) dataset custom rq = Inr (map (hosted_answer dataset custom rq) (rq_selectors rq))"
proof -
  have "answer_selectors (\<lambda>_. None) n (\<lambda>se. Inr (f se)) ss = Inr (map f ss)" for n f and ss :: "runner_selector list"
    by (induction ss arbitrary: n) simp_all
  then show ?thesis by (simp add: builtin_ResolveRunners_def)
qed



end
