(* ===== verification/Spec2Isabelle.thy ===== *)
theory Spec2Isabelle
  imports Parser_Correct Type_Spec Eval_Spec Name_Spec Sema_Spec Job_Needs_Spec Glob_Spec Name_Checks Condition_Check Fix_Spec Apply_Spec
    Scalar_Spec Yaml_Alias Workflow_Values Workflow_Spec Suppression_Spec
    Refs_Spec Schema_Spec Checks_Spec Matrix_Spec Expand_Spec Provider_Spec
begin

text \<open>
  A verification development for actionlint, a linter for GitHub Actions workflows written in Go.

  The parts and how they interact. A workflow file is a YAML tree; the parser of \<open>internal/workflow\<close>
  resolves its aliases and turns it into the syntax tree of a workflow, with source maps of its
  scalars. The checks of \<open>internal/workflow/checks\<close>, \<open>matrix\<close>, \<open>runner\<close>, \<open>names\<close> and \<open>schema\<close> read the
  tree; they hand what they need to the packages of \<open>internal/semantics\<close>, each the checks of one kind
  of declaration. Expressions (\<open>${{ ... }}\<close>) are read with the lexer and parser of
  \<open>internal/expression\<close>, checked by the semantics checker of the same package against types and tables
  of contexts, and folded where they are constant; mappings whose keys or values hold expressions
  are resolved by \<open>internal/mapping\<close>. Comments of the file suppress findings (\<open>internal/suppression\<close>).
  A finding can carry fixes; \<open>internal/fix\<close> turns them into edits of the sources, through the line
  index of \<open>internal/yamlsource\<close>, and writes the files.

  Theories and the code they model (all paths under src/):

  \<^item> \<open>Go_Base\<close>, \<open>Go_Path\<close>: strings, runes, slices, maps as association lists, \<open>strings.Cut\<close>,
    \<open>strings.Split\<close> and \<open>path.Match\<close> (Go's standard library, ASCII case mapping and white space only).
  \<^item> \<open>Rune_Scanner\<close>: \<open>text/scanner\<close> as far as the lexers use it; the locale \<open>rune_source\<close> is what
    they rely on.

  Expressions:

  \<^item> \<open>Expr_Error\<close>, \<open>Expr_Lexer\<close>: \<open>internal/expression/expr.go\<close>, \<open>diagnostics.go\<close>, \<open>expr_lexer.go\<close>;
    \<open>Lexer_Spec\<close> shows that the tokens tile the source and that the lexer ends.
  \<^item> \<open>Expr_Ast\<close>, \<open>Expr_Parser\<close>: \<open>expr_ast.go\<close>, \<open>expr_parser.go\<close>; \<open>Parser_Spec\<close> and \<open>Parser_Correct\<close> show
    that \<open>Parse\<close> accepts exactly the sentences of the grammar, with its tree, that it always
    returns, that spans nest, and the round trip of string literals. The mutual recursion of the
    parser has fuel; \<open>8 * (bytes left + 2)\<close> is proved enough for every source.
  \<^item> \<open>Expr_Type\<close>: \<open>expr_type.go\<close>, the \<open>ExprType\<close> interface as one datatype; \<open>Type_Spec\<close> relates types to
    values and \<open>Merge\<close> to upper bounds.
  \<^item> \<open>Go_Number\<close>, \<open>Go_Json\<close>, \<open>Expr_Const\<close>: \<open>expr_number.go\<close>, \<open>expr_json.go\<close>, \<open>condition_constant.go\<close> and the
    two number forms of \<open>internal/yamlscalar\<close>. A double is a rational, an infinity or NaN.
  \<^item> \<open>Expr_Event\<close>, \<open>Untrusted\<close>, \<open>Availability\<close>, \<open>Sema_Builtin\<close>, \<open>Expr_Sema\<close>: \<open>condition.go\<close>,
    \<open>expr_ternary.go\<close>, \<open>secret_interpolation.go\<close>, \<open>expr_condition_checks.go\<close>, \<open>event.go\<close>,
    \<open>event_variants.go\<close>, \<open>expr_insecure.go\<close>, \<open>context/availability.gen.go\<close>, \<open>expr_options.go\<close> and
    \<open>expr_sema.go\<close>: the whole checker as functions on a record of its state.
  \<^item> \<open>Eval_Spec\<close> is a reference semantics of expressions, open in what comparisons and functions do
    at run time (the locale \<open>expression_runner\<close>); folding, the truthiness of ternary operands, dead
    branches and event guards are sound for it. \<open>Sema_Spec\<close> shows that checking an expression does
    not depend on the expressions checked before, and that chains of property accesses into
    untrusted inputs are reported. \<open>Name_Spec\<close>: near misses of names are single edits.

  YAML and the workflow parser:

  \<^item> \<open>Yaml_Node\<close>, \<open>Yaml_Alias\<close>: the tree of \<open>internal/yaml/node.go\<close> and the resolution of aliases in
    \<open>internal/workflow/parse.go\<close>, which is complete and reports the unused anchors exactly.
  \<^item> \<open>Yaml_Scalar\<close>: \<open>internal/yamlsource/scalar.go\<close>, the decoder of every scalar style with the
    provenance of its bytes; \<open>Scalar_Spec\<close>: the spans of a decoded scalar are the source.
  \<^item> \<open>Mapping_Resolver\<close>: \<open>internal/mapping\<close>, keys and values of mappings that hold expressions;
    \<open>Mapping_Spec\<close> and \<open>Workflow_Values\<close>: a value that is known is the one that wins.
  \<^item> \<open>Workflow_Ast\<close>: \<open>internal/workflow/ast.go\<close> and the mapping views beside it. \<open>Parse_Monad\<close>,
    \<open>Node_Parse\<close>, \<open>Event_Parse\<close>, \<open>Section_Parse\<close>, \<open>Job_Parse\<close>, \<open>Workflow_Parse\<close>: \<open>parse.go\<close> and the files
    of its helpers, a method of \<open>Parser\<close> being a function in a state monad whose state is the list of
    errors. \<open>Parse_Spec\<close>, \<open>Event_Spec\<close>, \<open>Section_Spec\<close>, \<open>Job_Spec\<close> and \<open>Workflow_Spec\<close> carry through it
    that errors are never taken back and lie in the document, and show that a file without an
    error is a complete workflow and that mappings are read entry by entry.
  \<^item> \<open>Script_Source\<close>: \<open>parse_scalar_source.go\<close>, \<open>scalar_comments.go\<close>, \<open>parse_yaml_compatibility.go\<close>.
  \<^item> \<open>Suppression\<close>: \<open>internal/suppression\<close>; \<open>Suppression_Spec\<close>: a directive is read back from its
    text, and hides a finding exactly when it covers its rule and line.

  Checks of declarations:

  \<^item> \<open>Diagnostic\<close>, \<open>Job_Needs\<close>, \<open>Glob\<close>, \<open>Name_Checks\<close>, \<open>Condition_Check\<close>: \<open>internal/semantics/jobneeds\<close>,
    \<open>glob\<close>, \<open>permission\<close>, \<open>identifier\<close>, \<open>envname\<close>, \<open>condition\<close>. \<open>Job_Needs_Spec\<close>: the depth-first search
    reports a cycle exactly when there is one (its fuel is the number of jobs, proved enough).
    \<open>Glob_Spec\<close>: the pattern validator accepts exactly a grammar, and reports columns in range.
  \<^item> \<open>Workflow_Refs\<close>: \<open>internal/webhook\<close>, \<open>internal/workflow/references\<close> and \<open>names\<close>; a compiled name
    pattern is a list of matchers instead of a text for \<open>regexp\<close>. \<open>Refs_Spec\<close>: a list of filters
    excludes all names exactly when the last filter that matches each name is an exclusion.
  \<^item> \<open>Workflow_Schema\<close>: \<open>internal/workflow/schema\<close>; \<open>Schema_Spec\<close>: a literal without errors fits its shape.
  \<^item> \<open>Workflow_Checks\<close>: \<open>internal/workflow/checks\<close>, every check of a declaration; \<open>Checks_Spec\<close>: what a
    workflow without findings looks like.
  \<^item> \<open>Workflow_Matrix\<close>: \<open>internal/workflow/matrix\<close> and \<open>internal/mapping/matrix.go\<close>. A matrix that is the
    value of an expression has no expression again: \<open>Expand_Spec\<close> shows that one hop of fuel is enough
    for \<open>ExpandMatrix\<close>.
  \<^item> \<open>Runner_Labels\<close>, \<open>Runner_Knowledge\<close>: \<open>runner/runner.go\<close> and \<open>internal/workflow/runner\<close>; the images of a
    label are a bit set on a word. \<open>Runner_Spec\<close>: the pairwise comparison of labels finds a conflict
    exactly when no image carries them all, and what is known of a job is conservative.
    \<open>Provider_Spec\<close>: the contract of a provider is the locale \<open>provider\<close>; both providers keep it, so
    that preparing a document with hosted runners cannot fail. \<open>Matrix_Spec\<close>: a known matrix is expanded to the jobs it stands for, at most 256.

  Fixes:

  \<^item> \<open>Yaml_Document\<close>, \<open>Fix_Plan\<close>, \<open>Fix_Apply\<close>: \<open>internal/yamlsource/document.go\<close>, \<open>token.go\<close>,
    \<open>internal/fix/plan.go\<close>, \<open>apply.go\<close>. \<open>Document_Spec\<close>: lines, columns and offsets correspond; \<open>Fix_Spec\<close>:
    a plan makes exactly the wanted edits, as a specification that applies them one at a time;
    \<open>Apply_Spec\<close>: applying it beside other processes is safe, and completes undisturbed.

  Conventions. A Go struct is a record and a method a function on it; a callback or a captured
  variable becomes a returned list or a component of the state; an error is a value of a sum or
  option type. A Go map is an association list, visited in its order where the code ranges over it.
  A message of a finding is a constructor with the values that are formatted into it. The equality
  of pointers to types, which the checker compares operands by, is the parameter \<open>same\<close>; the run
  time of expressions (\<open>ctx\<close>, \<open>cmp\<close>, \<open>call\<close>), the YAML library (reading a file, encoding a value), the
  cron parser, the time zones, the file reader, digests and the cancellation of a context are
  parameters as well.

  Not modelled: the third-party YAML parser behind \<open>internal/yaml\<close>; calls of reusable workflows and
  actions, with the metadata of actions, which are read from files and the network; the rules on
  expressions of whole workflows (\<open>internal/workflow/expressions\<close>), which feed the checker modelled
  here; cache policies and the composition and engine that select rules; configuration, file
  filters and the policy for diagnostics; plugins and external tools; the application, command line
  and language server; and the Unicode tables behind Go's case mapping.
\<close>

end
